(* ===== verification/Prelude.thy ===== *)
theory Prelude
  imports Main "HOL-Library.Word"
begin

text \<open>
  Shared types, automation and generic lemmas.

  The linker is built with 64-bit BFD addresses, so the C type
  \<^verbatim>\<open>bfd_vma\<close> (and \<^verbatim>\<open>bfd_signed_vma\<close>, the same bits read with
  \<^verbatim>\<open>sint\<close>) is a 64-bit word; a \<^verbatim>\<open>bfd_byte\<close> is an 8-bit word; the contents
  of a section are a list of bytes.  The collections declared here are the
  simplification sets that the component theories fill.
\<close>

unbundle bit_operations_syntax

type_synonym vma = "64 word"
type_synonym bfd_byte = "8 word"
type_synonym bytes = "bfd_byte list"

named_theorems bytes_simps \<open>reading and writing section contents\<close>
named_theorems bytes_eval \<open>evaluation of accesses to concrete contents\<close>
named_theorems reloc_class \<open>classification predicates on relocation types\<close>
named_theorems bit_masks \<open>conjunction with a mask of low bits\<close>
named_theorems arith_defs \<open>arithmetic helpers of the relocation code\<close>
named_theorems got_simps \<open>global offset table operations\<close>

declare add_2_eq_Suc [simp del] add_2_eq_Suc' [simp del]

section \<open>Words, bit by bit\<close>

lemma less_64_cases:
  "n < (64::nat) \<Longrightarrow> n \<in> {0,1,2,3,4,5,6,7,8,9,10,11,12,13,14,15,16,17,18,19,20,21,22,23,24,25,26,27,28,29,30,31,
     32,33,34,35,36,37,38,39,40,41,42,43,44,45,46,47,48,49,50,51,52,53,54,55,56,57,58,59,60,61,62,63}"
  by (auto simp: less_Suc_eq numeral_eq_Suc)

text \<open>Two 64-bit words are equal when their 64 bits are, position by position.\<close>

lemma vma_eqI:
  fixes a b :: vma
  assumes "\<And>n. n < 64 \<Longrightarrow> bit a n = bit b n"
  shows "a = b"
  by (rule bit_word_eqI) (use assms in simp)

lemma high_bits_clear:
  fixes w :: "'a::len word"
  assumes "take_bit k w = w" "k \<le> n"
  shows "\<not> bit w n"
proof
  assume "bit w n"
  then have "bit (take_bit k w) n" using assms(1) by simp
  then show False using assms(2) by (simp add: bit_take_bit_iff)
qed

text \<open>Masks of low bits.\<close>

lemma and_low_mask:
  fixes w :: "'a::len word"
  assumes "m = mask k"
  shows "w AND m = take_bit k w"
  by (simp add: assms take_bit_eq_mask)

lemma low_masks [bit_masks]:
  fixes w :: vma
  shows "w AND 0xff = take_bit 8 w" "w AND 0xfff = take_bit 12 w" "w AND 0x3fff = take_bit 14 w"
    and "w AND 0xffff = take_bit 16 w" "w AND 0x3ffff = take_bit 18 w" "w AND 0x3ffffff = take_bit 26 w"
    and "w AND 0x7ffffff = take_bit 27 w" "w AND 0xfffffff = take_bit 28 w" "w AND 0xffffffff = take_bit 32 w"
  by (rule and_low_mask; simp add: mask_eq_exp_minus_1)+

lemma take_bit_low: "k \<le> n \<Longrightarrow> take_bit k (w::'a::len word) = w \<Longrightarrow> take_bit n w = w"
  by (metis min_absorb2 take_bit_take_bit)

lemma take_bit_and_right:
  fixes w m :: "'a::len word"
  shows "take_bit k (w AND m) = w AND take_bit k m"
  by (auto intro!: bit_word_eqI simp: bit_simps)

lemma take_bit_add_word:
  fixes a b :: "'a::len word"
  shows "take_bit k (take_bit k a + take_bit k b) = take_bit k (a + b)"
proof (rule word_uint_eqI)
  show "uint (take_bit k (take_bit k a + take_bit k b)) = uint (take_bit k (a + b))"
    by (simp add: unsigned_take_bit_eq uint_word_ariths flip: take_bit_eq_mod)
      (metis (no_types, opaque_lifting) min.commute take_bit_add take_bit_take_bit)
qed

lemma bit_below:
  fixes w :: "'a::len word"
  assumes "take_bit k w = w" "bit w n"
  shows "n < k"
  using high_bits_clear [OF assms(1)] assms(2) not_less by blast

section \<open>Searching a list\<close>

lemma find_append: "find P (xs @ ys) = (case find P xs of None \<Rightarrow> find P ys | Some x \<Rightarrow> Some x)"
  by (induction xs) auto

lemma find_unique:
  assumes "x \<in> set xs" "P x" "\<forall>y \<in> set xs. P y \<longrightarrow> y = x"
  shows "find P xs = Some x"
proof (cases "find P xs")
  case None
  then show ?thesis using assms(1,2) by (auto simp: find_None_iff)
next
  case (Some y)
  then have "y \<in> set xs \<and> P y" by (auto simp: find_Some_iff)
  with Some show ?thesis using assms(3) by blast
qed

lemma map_of_all: "list_all (\<lambda>(c, v). P c v) m \<Longrightarrow> map_of m c = Some v \<Longrightarrow> P c v"
  by (induction m) (auto split: if_splits)

lemma set_map_filter: "set (List.map_filter f xs) = {y. \<exists>x \<in> set xs. f x = Some y}"
  by (induction xs) (auto simp: List.map_filter_simps split: option.splits)

lemma distinct_map_filter_eq:
  "distinct (List.map_filter f xs) \<Longrightarrow> x \<in> set xs \<Longrightarrow> y \<in> set xs \<Longrightarrow> f x = Some n \<Longrightarrow> f y = Some n \<Longrightarrow> x = y"
proof (induction xs)
  case (Cons a xs)
  then show ?case
    by (cases "f a") (auto simp: List.map_filter_simps(1) set_map_filter)
qed simp

section \<open>Traversals\<close>

text \<open>A traversal of a hash table whose callback may fail.\<close>

fun fold_opt :: "('a \<Rightarrow> 's \<Rightarrow> 's option) \<Rightarrow> 'a list \<Rightarrow> 's \<Rightarrow> 's option" where
  "fold_opt f [] s = Some s"
| "fold_opt f (x # xs) s = (case f x s of None \<Rightarrow> None | Some s \<Rightarrow> fold_opt f xs s)"

text \<open>An invariant of the callback that may depend on what has been visited.\<close>

lemma fold_opt_inv:
  assumes "fold_opt f xs s = Some s'" "P {} s"
    and "\<And>x done s s'. x \<in> set xs \<Longrightarrow> P done s \<Longrightarrow> f x s = Some s' \<Longrightarrow> P (insert x done) s'"
  shows "P (set xs) s'"
proof -
  have "P (A \<union> set ys) s'" if "fold_opt f ys s = Some s'" "P A s" "set ys \<subseteq> set xs" for ys A s
    using that
  proof (induction ys arbitrary: A s)
    case (Cons y ys)
    then show ?case
      using assms(3) [of y A s] Cons.IH [where A = "insert y A"] by (auto split: option.splits)
  qed simp
  then show ?thesis
    using assms(1,2) by fastforce
qed

end
