(* ===== verification/Bytes.thy ===== *)
theory Bytes
  imports Prelude
begin

text \<open>
  Section contents and the byte-order accessors.

  The accessors \<^verbatim>\<open>bfd_get_16\<close>, \<^verbatim>\<open>bfd_put_32\<close>, ... go through the target vector of
  the BFD and are defined in libbfd, which is not part of the repository.  They
  are the parameter \<^verbatim>\<open>xvec\<close>: for each width a reader of a byte list and a
  writer that yields one.  The interface \<^verbatim>\<open>byte_codec\<close> states what their
  documentation promises; it is interpreted on the two byte orders of the ELF
  specification.  A C pointer into the contents is an offset; an access is
  meaningful only inside the contents, so lemmas carry the range condition.
\<close>

section \<open>The interface of the accessors\<close>

record xvec =
  getx16 :: "bytes \<Rightarrow> vma"
  putx16 :: "vma \<Rightarrow> bytes"
  getx32 :: "bytes \<Rightarrow> vma"
  putx32 :: "vma \<Rightarrow> bytes"
  getx64 :: "bytes \<Rightarrow> vma"
  putx64 :: "vma \<Rightarrow> bytes"

definition get_at :: "(bytes \<Rightarrow> vma) \<Rightarrow> nat \<Rightarrow> bytes \<Rightarrow> nat \<Rightarrow> vma" where
  "get_at dec n data off = dec (take n (drop off data))"

definition put_at :: "(vma \<Rightarrow> bytes) \<Rightarrow> nat \<Rightarrow> vma \<Rightarrow> bytes \<Rightarrow> nat \<Rightarrow> bytes" where
  "put_at enc n v data off = take off data @ enc v @ drop (off + n) data"

locale byte_codec =
  fixes dec :: "bytes \<Rightarrow> vma" and enc :: "vma \<Rightarrow> bytes" and n :: nat
  assumes length_enc: "length (enc v) = n"
    and dec_enc: "dec (enc v) = take_bit (8 * n) v"
    and enc_dec: "length bs = n \<Longrightarrow> enc (dec bs) = bs"
begin

lemma length_put: "off + n \<le> length data \<Longrightarrow> length (put_at enc n v data off) = length data"
  by (simp add: put_at_def length_enc)

lemma get_put_same:
  "off + n \<le> length data \<Longrightarrow> get_at dec n (put_at enc n v data off) off = take_bit (8 * n) v"
  by (simp add: get_at_def put_at_def length_enc dec_enc)

lemma put_get_same: "off + n \<le> length data \<Longrightarrow> put_at enc n (get_at dec n data off) data off = data"
  by (simp add: get_at_def put_at_def enc_dec)
    (metis add.commute append_take_drop_id drop_drop)

lemma put_put_same:
  "off + n \<le> length data \<Longrightarrow> put_at enc n w (put_at enc n v data off) off = put_at enc n w data off"
  by (simp add: put_at_def length_enc)

lemma nth_put_before: "off + n \<le> length data \<Longrightarrow> i < off \<Longrightarrow> put_at enc n v data off ! i = data ! i"
  by (simp add: put_at_def nth_append)

lemma nth_put_after:
  "off + n \<le> length data \<Longrightarrow> off + n \<le> i \<Longrightarrow> i < length data \<Longrightarrow> put_at enc n v data off ! i = data ! i"
  using length_enc [of v] by (auto simp: put_at_def nth_append not_less)

lemma get_put_other:
  assumes "off + n \<le> length data" "off' + n \<le> length data" "off + n \<le> off' \<or> off' + n \<le> off"
  shows "get_at dec n (put_at enc n v data off) off' = get_at dec n data off'"
proof -
  have "take n (drop off' (put_at enc n v data off)) = take n (drop off' data)"
  proof (rule nth_equalityI)
    show "length (take n (drop off' (put_at enc n v data off))) = length (take n (drop off' data))"
      using assms length_put [OF assms(1), of v] by simp
    fix i assume "i < length (take n (drop off' (put_at enc n v data off)))"
    then have i: "i < n" "off' + i < length data"
      using assms length_put [OF assms(1), of v] by auto
    then have "off' + i < off \<or> off + n \<le> off' + i"
      using assms(3) by auto
    then show "take n (drop off' (put_at enc n v data off)) ! i = take n (drop off' data) ! i"
      using i assms(1,2) length_put [OF assms(1), of v] nth_put_before [OF assms(1)] nth_put_after [OF assms(1)] by auto
  qed
  then show ?thesis
    by (simp add: get_at_def)
qed

lemma enc_take_bit: "enc (take_bit (8 * n) v) = enc v"
  by (metis dec_enc enc_dec length_enc)

lemma enc_inj: "enc v = enc w \<Longrightarrow> take_bit (8 * n) v = take_bit (8 * n) w"
  by (metis dec_enc)

lemma dec_bound: "length bs = n \<Longrightarrow> take_bit (8 * n) (dec bs) = dec bs"
  by (metis dec_enc enc_dec)

end

definition xvec_ok :: "xvec \<Rightarrow> bool" where
  "xvec_ok t \<longleftrightarrow> byte_codec (getx16 t) (putx16 t) 2 \<and> byte_codec (getx32 t) (putx32 t) 4
     \<and> byte_codec (getx64 t) (putx64 t) 8"

lemma xvec_okD:
  assumes "xvec_ok t"
  shows xvec_ok16: "byte_codec (getx16 t) (putx16 t) 2"
    and xvec_ok32: "byte_codec (getx32 t) (putx32 t) 4"
    and xvec_ok64: "byte_codec (getx64 t) (putx64 t) 8"
  using assms by (simp_all add: xvec_ok_def)

section \<open>The two ELF byte orders\<close>

fun le_dec :: "bytes \<Rightarrow> vma" where
  "le_dec [] = 0"
| "le_dec (b # bs) = ucast b OR push_bit 8 (le_dec bs)"

fun le_enc :: "nat \<Rightarrow> vma \<Rightarrow> bytes" where
  "le_enc 0 v = []"
| "le_enc (Suc n) v = ucast v # le_enc n (drop_bit 8 v)"

definition be_dec :: "bytes \<Rightarrow> vma" where
  "be_dec bs = le_dec (rev bs)"

definition be_enc :: "nat \<Rightarrow> vma \<Rightarrow> bytes" where
  "be_enc n v = rev (le_enc n v)"

lemma length_le_enc [simp]: "length (le_enc n v) = n"
  by (induction n arbitrary: v) auto

text \<open>The encodings written out, for evaluation.\<close>

lemma le_enc_numeral [bytes_eval]:
  "le_enc (numeral k) v = ucast v # le_enc (pred_numeral k) (drop_bit 8 v)"
  by (simp add: numeral_eq_Suc)

lemma take_bit_Suc8:
  fixes v :: vma
  shows "take_bit (8 + k) v = (take_bit 8 v) OR push_bit 8 (take_bit k (drop_bit 8 v))"
  by (rule bit_word_eqI) (auto simp: bit_simps)

lemma le_dec_enc: "le_dec (le_enc n v) = take_bit (8 * n) v"
proof (induction n arbitrary: v)
  case (Suc n)
  have "ucast (ucast v :: bfd_byte) = take_bit 8 v"
    by (rule bit_word_eqI) (auto simp: bit_simps)
  then show ?case
    using Suc take_bit_Suc8 [of "8 * n" v] by simp
qed simp

lemma le_enc_dec: "length bs \<le> 8 \<Longrightarrow> le_enc (length bs) (le_dec bs) = bs"
proof (induction bs)
  case (Cons b bs)
  have bound: "\<And>k. 8 * length bs \<le> k \<Longrightarrow> \<not> bit (le_dec bs) k"
    using Cons by (metis (no_types, lifting) Suc_leD high_bits_clear le_dec_enc length_Cons)
  have lo: "ucast (ucast b OR push_bit 8 (le_dec bs) :: vma) = b"
    by (rule bit_word_eqI) (auto simp: bit_simps)
  have hi: "drop_bit 8 (ucast b OR push_bit 8 (le_dec bs)) = le_dec bs"
  proof (rule bit_word_eqI)
    fix k assume "k < LENGTH(64)"
    show "bit (drop_bit 8 (ucast b OR push_bit 8 (le_dec bs))) k = bit (le_dec bs) k"
      using bound [of k] Cons.prems bit_imp_le_length [of b "8 + k"]
      by (cases "k < 56") (auto simp: bit_simps)
  qed
  show ?case
    using Cons by (simp add: lo hi del: drop_bit_or)
qed simp

definition le_xvec :: xvec where
  "le_xvec = \<lparr>getx16 = le_dec, putx16 = le_enc 2, getx32 = le_dec, putx32 = le_enc 4,
     getx64 = le_dec, putx64 = le_enc 8\<rparr>"

definition be_xvec :: xvec where
  "be_xvec = \<lparr>getx16 = be_dec, putx16 = be_enc 2, getx32 = be_dec, putx32 = be_enc 4,
     getx64 = be_dec, putx64 = be_enc 8\<rparr>"

lemma le_codec: "n \<le> 8 \<Longrightarrow> byte_codec le_dec (le_enc n) n"
  by unfold_locales (auto simp: le_dec_enc le_enc_dec)

interpretation le16: byte_codec le_dec "le_enc 2" 2
  by (rule le_codec) simp

interpretation le32: byte_codec le_dec "le_enc 4" 4
  by (rule le_codec) simp

interpretation le64: byte_codec le_dec "le_enc 8" 8
  by (rule le_codec) simp

lemma be_codec: "n \<le> 8 \<Longrightarrow> byte_codec be_dec (be_enc n) n"
proof (unfold_locales, goal_cases)
  case (3 bs)
  then show ?case
    using le_enc_dec [of "rev bs"] by (simp add: be_enc_def be_dec_def)
qed (simp_all add: be_enc_def be_dec_def le_dec_enc)

interpretation be16: byte_codec be_dec "be_enc 2" 2
  by (rule be_codec) simp

interpretation be32: byte_codec be_dec "be_enc 4" 4
  by (rule be_codec) simp

interpretation be64: byte_codec be_dec "be_enc 8" 8
  by (rule be_codec) simp

lemmas [bytes_eval] = get_at_def put_at_def le_xvec_def be_xvec_def be_enc_def be_dec_def

lemma le_xvec_ok [simp]: "xvec_ok le_xvec"
  by (simp add: xvec_ok_def le_xvec_def le16.byte_codec_axioms le32.byte_codec_axioms le64.byte_codec_axioms)

lemma be_xvec_ok [simp]: "xvec_ok be_xvec"
  by (simp add: xvec_ok_def be_xvec_def be16.byte_codec_axioms be32.byte_codec_axioms be64.byte_codec_axioms)

section \<open>The accessors the linker calls\<close>

definition bfd_get_16 :: "xvec \<Rightarrow> bytes \<Rightarrow> nat \<Rightarrow> vma" where
  "bfd_get_16 t data off = get_at (getx16 t) 2 data off"

definition bfd_put_16 :: "xvec \<Rightarrow> vma \<Rightarrow> bytes \<Rightarrow> nat \<Rightarrow> bytes" where
  "bfd_put_16 t v data off = put_at (putx16 t) 2 v data off"

definition bfd_get_32 :: "xvec \<Rightarrow> bytes \<Rightarrow> nat \<Rightarrow> vma" where
  "bfd_get_32 t data off = get_at (getx32 t) 4 data off"

definition bfd_put_32 :: "xvec \<Rightarrow> vma \<Rightarrow> bytes \<Rightarrow> nat \<Rightarrow> bytes" where
  "bfd_put_32 t v data off = put_at (putx32 t) 4 v data off"

definition bfd_get_64 :: "xvec \<Rightarrow> bytes \<Rightarrow> nat \<Rightarrow> vma" where
  "bfd_get_64 t data off = get_at (getx64 t) 8 data off"

definition bfd_put_64 :: "xvec \<Rightarrow> vma \<Rightarrow> bytes \<Rightarrow> nat \<Rightarrow> bytes" where
  "bfd_put_64 t v data off = put_at (putx64 t) 8 v data off"

lemmas accessor_defs [bytes_eval] = bfd_get_16_def bfd_put_16_def bfd_get_32_def bfd_put_32_def
  bfd_get_64_def bfd_put_64_def

lemma length_bfd_put [bytes_simps]:
  assumes "xvec_ok t"
  shows "off + 2 \<le> length data \<Longrightarrow> length (bfd_put_16 t v data off) = length data"
    and "off + 4 \<le> length data \<Longrightarrow> length (bfd_put_32 t v data off) = length data"
    and "off + 8 \<le> length data \<Longrightarrow> length (bfd_put_64 t v data off) = length data"
  by (simp_all add: accessor_defs byte_codec.length_put [OF xvec_ok16 [OF assms]]
      byte_codec.length_put [OF xvec_ok32 [OF assms]] byte_codec.length_put [OF xvec_ok64 [OF assms]])

lemma bfd_get_put [bytes_simps]:
  assumes "xvec_ok t"
  shows "off + 2 \<le> length data \<Longrightarrow> bfd_get_16 t (bfd_put_16 t v data off) off = take_bit 16 v"
    and "off + 4 \<le> length data \<Longrightarrow> bfd_get_32 t (bfd_put_32 t v data off) off = take_bit 32 v"
    and "off + 8 \<le> length data \<Longrightarrow> bfd_get_64 t (bfd_put_64 t v data off) off = v"
  by (simp_all add: accessor_defs byte_codec.get_put_same [OF xvec_ok16 [OF assms]]
      byte_codec.get_put_same [OF xvec_ok32 [OF assms]] byte_codec.get_put_same [OF xvec_ok64 [OF assms]]
      take_bit_word_eq_self)

lemma bfd_put_get [bytes_simps]:
  assumes "xvec_ok t"
  shows "off + 2 \<le> length data \<Longrightarrow> bfd_put_16 t (bfd_get_16 t data off) data off = data"
    and "off + 4 \<le> length data \<Longrightarrow> bfd_put_32 t (bfd_get_32 t data off) data off = data"
    and "off + 8 \<le> length data \<Longrightarrow> bfd_put_64 t (bfd_get_64 t data off) data off = data"
  by (simp_all add: accessor_defs byte_codec.put_get_same [OF xvec_ok16 [OF assms]]
      byte_codec.put_get_same [OF xvec_ok32 [OF assms]] byte_codec.put_get_same [OF xvec_ok64 [OF assms]])

lemma bfd_get_bound [bytes_simps]:
  assumes "xvec_ok t"
  shows "off + 2 \<le> length data \<Longrightarrow> take_bit 16 (bfd_get_16 t data off) = bfd_get_16 t data off"
    and "off + 4 \<le> length data \<Longrightarrow> take_bit 32 (bfd_get_32 t data off) = bfd_get_32 t data off"
  using byte_codec.dec_bound [OF xvec_ok16 [OF assms]] byte_codec.dec_bound [OF xvec_ok32 [OF assms]]
  by (simp_all add: accessor_defs get_at_def)

lemma bfd_put_take_bit [bytes_simps]:
  assumes "xvec_ok t"
  shows "bfd_put_16 t (take_bit 16 v) data off = bfd_put_16 t v data off"
    and "bfd_put_32 t (take_bit 32 v) data off = bfd_put_32 t v data off"
  using byte_codec.enc_take_bit [OF xvec_ok16 [OF assms]] byte_codec.enc_take_bit [OF xvec_ok32 [OF assms]]
  by (simp_all add: accessor_defs put_at_def)

text \<open>Outside the bytes written, a store leaves the contents as they were.\<close>

lemma bfd_put_frame [bytes_simps]:
  assumes "xvec_ok t"
  shows "off + 2 \<le> length data \<Longrightarrow> i < length data \<Longrightarrow> i < off \<or> off + 2 \<le> i
           \<Longrightarrow> bfd_put_16 t v data off ! i = data ! i"
    and "off + 4 \<le> length data \<Longrightarrow> i < length data \<Longrightarrow> i < off \<or> off + 4 \<le> i
           \<Longrightarrow> bfd_put_32 t v data off ! i = data ! i"
    and "off + 8 \<le> length data \<Longrightarrow> i < length data \<Longrightarrow> i < off \<or> off + 8 \<le> i
           \<Longrightarrow> bfd_put_64 t v data off ! i = data ! i"
  using byte_codec.nth_put_before [OF xvec_ok16 [OF assms]] byte_codec.nth_put_after [OF xvec_ok16 [OF assms]]
    byte_codec.nth_put_before [OF xvec_ok32 [OF assms]] byte_codec.nth_put_after [OF xvec_ok32 [OF assms]]
    byte_codec.nth_put_before [OF xvec_ok64 [OF assms]] byte_codec.nth_put_after [OF xvec_ok64 [OF assms]]
  by (auto simp: accessor_defs)

text \<open>Two adjacent halfword stores overwrite a word store, and conversely.\<close>

lemma put_16_16_over_32:
  assumes "xvec_ok t" "off + 4 \<le> length data"
  shows "bfd_put_16 t v (bfd_put_16 t w (bfd_put_32 t z data off) (off + 2)) off
       = bfd_put_16 t v (bfd_put_16 t w data (off + 2)) off"
  using assms(2)
  by (simp add: accessor_defs put_at_def byte_codec.length_enc [OF xvec_ok16 [OF assms(1)]]
      byte_codec.length_enc [OF xvec_ok32 [OF assms(1)]] numeral_eq_Suc)

lemma put_32_over_16_16:
  assumes "xvec_ok t" "off + 4 \<le> length data"
  shows "bfd_put_32 t z (bfd_put_16 t v (bfd_put_16 t w data (off + 2)) off) off = bfd_put_32 t z data off"
  using assms(2)
  by (simp add: accessor_defs put_at_def byte_codec.length_enc [OF xvec_ok16 [OF assms(1)]]
      byte_codec.length_enc [OF xvec_ok32 [OF assms(1)]] numeral_eq_Suc)

lemma get_16_16_put:
  assumes "xvec_ok t" "off + 4 \<le> length data"
  shows "bfd_get_16 t (bfd_put_16 t v (bfd_put_16 t w data (off + 2)) off) off = take_bit 16 v"
    and "bfd_get_16 t (bfd_put_16 t v (bfd_put_16 t w data (off + 2)) off) (off + 2) = take_bit 16 w"
  using assms(2) byte_codec.dec_enc [OF xvec_ok16 [OF assms(1)]]
  by (simp_all add: accessor_defs get_at_def put_at_def byte_codec.length_enc [OF xvec_ok16 [OF assms(1)]]
      numeral_eq_Suc)

end
