(* ===== verification/Relocs.thy ===== *)
theory Relocs
  imports Prelude
begin

text \<open>
  Relocation types and the predicates of elfxx-mips.c that classify them.

  The numbers are those of the MIPS ELF ABI, as in
  sbt-sysheaders/include/elf.h; the MIPS16 range starts at 100 and the
  microMIPS range at 130, the numbers the howto tables of elf32-mips.c carry
  in their \<^verbatim>\<open>EMPTY_HOWTO\<close> entries.  A relocation type is a natural number
  (the C code passes it as int or unsigned, never negative).
\<close>

section \<open>Relocation numbers\<close>

type_synonym r_type = nat

abbreviation (input) R_MIPS_NONE :: r_type where "R_MIPS_NONE \<equiv> 0"
abbreviation (input) R_MIPS_16 :: r_type where "R_MIPS_16 \<equiv> 1"
abbreviation (input) R_MIPS_32 :: r_type where "R_MIPS_32 \<equiv> 2"
abbreviation (input) R_MIPS_REL32 :: r_type where "R_MIPS_REL32 \<equiv> 3"
abbreviation (input) R_MIPS_26 :: r_type where "R_MIPS_26 \<equiv> 4"
abbreviation (input) R_MIPS_HI16 :: r_type where "R_MIPS_HI16 \<equiv> 5"
abbreviation (input) R_MIPS_LO16 :: r_type where "R_MIPS_LO16 \<equiv> 6"
abbreviation (input) R_MIPS_GPREL16 :: r_type where "R_MIPS_GPREL16 \<equiv> 7"
abbreviation (input) R_MIPS_LITERAL :: r_type where "R_MIPS_LITERAL \<equiv> 8"
abbreviation (input) R_MIPS_GOT16 :: r_type where "R_MIPS_GOT16 \<equiv> 9"
abbreviation (input) R_MIPS_PC16 :: r_type where "R_MIPS_PC16 \<equiv> 10"
abbreviation (input) R_MIPS_CALL16 :: r_type where "R_MIPS_CALL16 \<equiv> 11"
abbreviation (input) R_MIPS_GPREL32 :: r_type where "R_MIPS_GPREL32 \<equiv> 12"
abbreviation (input) R_MIPS_SHIFT5 :: r_type where "R_MIPS_SHIFT5 \<equiv> 16"
abbreviation (input) R_MIPS_SHIFT6 :: r_type where "R_MIPS_SHIFT6 \<equiv> 17"
abbreviation (input) R_MIPS_64 :: r_type where "R_MIPS_64 \<equiv> 18"
abbreviation (input) R_MIPS_GOT_DISP :: r_type where "R_MIPS_GOT_DISP \<equiv> 19"
abbreviation (input) R_MIPS_GOT_PAGE :: r_type where "R_MIPS_GOT_PAGE \<equiv> 20"
abbreviation (input) R_MIPS_GOT_OFST :: r_type where "R_MIPS_GOT_OFST \<equiv> 21"
abbreviation (input) R_MIPS_GOT_HI16 :: r_type where "R_MIPS_GOT_HI16 \<equiv> 22"
abbreviation (input) R_MIPS_GOT_LO16 :: r_type where "R_MIPS_GOT_LO16 \<equiv> 23"
abbreviation (input) R_MIPS_SUB :: r_type where "R_MIPS_SUB \<equiv> 24"
abbreviation (input) R_MIPS_INSERT_A :: r_type where "R_MIPS_INSERT_A \<equiv> 25"
abbreviation (input) R_MIPS_INSERT_B :: r_type where "R_MIPS_INSERT_B \<equiv> 26"
abbreviation (input) R_MIPS_DELETE :: r_type where "R_MIPS_DELETE \<equiv> 27"
abbreviation (input) R_MIPS_HIGHER :: r_type where "R_MIPS_HIGHER \<equiv> 28"
abbreviation (input) R_MIPS_HIGHEST :: r_type where "R_MIPS_HIGHEST \<equiv> 29"
abbreviation (input) R_MIPS_CALL_HI16 :: r_type where "R_MIPS_CALL_HI16 \<equiv> 30"
abbreviation (input) R_MIPS_CALL_LO16 :: r_type where "R_MIPS_CALL_LO16 \<equiv> 31"
abbreviation (input) R_MIPS_SCN_DISP :: r_type where "R_MIPS_SCN_DISP \<equiv> 32"
abbreviation (input) R_MIPS_REL16 :: r_type where "R_MIPS_REL16 \<equiv> 33"
abbreviation (input) R_MIPS_ADD_IMMEDIATE :: r_type where "R_MIPS_ADD_IMMEDIATE \<equiv> 34"
abbreviation (input) R_MIPS_PJUMP :: r_type where "R_MIPS_PJUMP \<equiv> 35"
abbreviation (input) R_MIPS_RELGOT :: r_type where "R_MIPS_RELGOT \<equiv> 36"
abbreviation (input) R_MIPS_JALR :: r_type where "R_MIPS_JALR \<equiv> 37"
abbreviation (input) R_MIPS_TLS_DTPMOD32 :: r_type where "R_MIPS_TLS_DTPMOD32 \<equiv> 38"
abbreviation (input) R_MIPS_TLS_DTPREL32 :: r_type where "R_MIPS_TLS_DTPREL32 \<equiv> 39"
abbreviation (input) R_MIPS_TLS_DTPMOD64 :: r_type where "R_MIPS_TLS_DTPMOD64 \<equiv> 40"
abbreviation (input) R_MIPS_TLS_DTPREL64 :: r_type where "R_MIPS_TLS_DTPREL64 \<equiv> 41"
abbreviation (input) R_MIPS_TLS_GD :: r_type where "R_MIPS_TLS_GD \<equiv> 42"
abbreviation (input) R_MIPS_TLS_LDM :: r_type where "R_MIPS_TLS_LDM \<equiv> 43"
abbreviation (input) R_MIPS_TLS_DTPREL_HI16 :: r_type where "R_MIPS_TLS_DTPREL_HI16 \<equiv> 44"
abbreviation (input) R_MIPS_TLS_DTPREL_LO16 :: r_type where "R_MIPS_TLS_DTPREL_LO16 \<equiv> 45"
abbreviation (input) R_MIPS_TLS_GOTTPREL :: r_type where "R_MIPS_TLS_GOTTPREL \<equiv> 46"
abbreviation (input) R_MIPS_TLS_TPREL32 :: r_type where "R_MIPS_TLS_TPREL32 \<equiv> 47"
abbreviation (input) R_MIPS_TLS_TPREL64 :: r_type where "R_MIPS_TLS_TPREL64 \<equiv> 48"
abbreviation (input) R_MIPS_TLS_TPREL_HI16 :: r_type where "R_MIPS_TLS_TPREL_HI16 \<equiv> 49"
abbreviation (input) R_MIPS_TLS_TPREL_LO16 :: r_type where "R_MIPS_TLS_TPREL_LO16 \<equiv> 50"
abbreviation (input) R_MIPS_GLOB_DAT :: r_type where "R_MIPS_GLOB_DAT \<equiv> 51"
abbreviation (input) R_MIPS_max :: r_type where "R_MIPS_max \<equiv> 52"
abbreviation (input) R_MIPS_COPY :: r_type where "R_MIPS_COPY \<equiv> 126"
abbreviation (input) R_MIPS_JUMP_SLOT :: r_type where "R_MIPS_JUMP_SLOT \<equiv> 127"
abbreviation (input) R_MIPS16_min :: r_type where "R_MIPS16_min \<equiv> 100"
abbreviation (input) R_MIPS16_26 :: r_type where "R_MIPS16_26 \<equiv> 100"
abbreviation (input) R_MIPS16_GPREL :: r_type where "R_MIPS16_GPREL \<equiv> 101"
abbreviation (input) R_MIPS16_GOT16 :: r_type where "R_MIPS16_GOT16 \<equiv> 102"
abbreviation (input) R_MIPS16_CALL16 :: r_type where "R_MIPS16_CALL16 \<equiv> 103"
abbreviation (input) R_MIPS16_HI16 :: r_type where "R_MIPS16_HI16 \<equiv> 104"
abbreviation (input) R_MIPS16_LO16 :: r_type where "R_MIPS16_LO16 \<equiv> 105"
abbreviation (input) R_MIPS16_TLS_GD :: r_type where "R_MIPS16_TLS_GD \<equiv> 106"
abbreviation (input) R_MIPS16_TLS_LDM :: r_type where "R_MIPS16_TLS_LDM \<equiv> 107"
abbreviation (input) R_MIPS16_TLS_DTPREL_HI16 :: r_type where "R_MIPS16_TLS_DTPREL_HI16 \<equiv> 108"
abbreviation (input) R_MIPS16_TLS_DTPREL_LO16 :: r_type where "R_MIPS16_TLS_DTPREL_LO16 \<equiv> 109"
abbreviation (input) R_MIPS16_TLS_GOTTPREL :: r_type where "R_MIPS16_TLS_GOTTPREL \<equiv> 110"
abbreviation (input) R_MIPS16_TLS_TPREL_HI16 :: r_type where "R_MIPS16_TLS_TPREL_HI16 \<equiv> 111"
abbreviation (input) R_MIPS16_TLS_TPREL_LO16 :: r_type where "R_MIPS16_TLS_TPREL_LO16 \<equiv> 112"
abbreviation (input) R_MIPS16_max :: r_type where "R_MIPS16_max \<equiv> 113"
abbreviation (input) R_MICROMIPS_min :: r_type where "R_MICROMIPS_min \<equiv> 130"
abbreviation (input) R_MICROMIPS_26_S1 :: r_type where "R_MICROMIPS_26_S1 \<equiv> 133"
abbreviation (input) R_MICROMIPS_HI16 :: r_type where "R_MICROMIPS_HI16 \<equiv> 134"
abbreviation (input) R_MICROMIPS_LO16 :: r_type where "R_MICROMIPS_LO16 \<equiv> 135"
abbreviation (input) R_MICROMIPS_GPREL16 :: r_type where "R_MICROMIPS_GPREL16 \<equiv> 136"
abbreviation (input) R_MICROMIPS_LITERAL :: r_type where "R_MICROMIPS_LITERAL \<equiv> 137"
abbreviation (input) R_MICROMIPS_GOT16 :: r_type where "R_MICROMIPS_GOT16 \<equiv> 138"
abbreviation (input) R_MICROMIPS_PC7_S1 :: r_type where "R_MICROMIPS_PC7_S1 \<equiv> 139"
abbreviation (input) R_MICROMIPS_PC10_S1 :: r_type where "R_MICROMIPS_PC10_S1 \<equiv> 140"
abbreviation (input) R_MICROMIPS_PC16_S1 :: r_type where "R_MICROMIPS_PC16_S1 \<equiv> 141"
abbreviation (input) R_MICROMIPS_CALL16 :: r_type where "R_MICROMIPS_CALL16 \<equiv> 142"
abbreviation (input) R_MICROMIPS_GOT_DISP :: r_type where "R_MICROMIPS_GOT_DISP \<equiv> 145"
abbreviation (input) R_MICROMIPS_GOT_PAGE :: r_type where "R_MICROMIPS_GOT_PAGE \<equiv> 146"
abbreviation (input) R_MICROMIPS_GOT_OFST :: r_type where "R_MICROMIPS_GOT_OFST \<equiv> 147"
abbreviation (input) R_MICROMIPS_GOT_HI16 :: r_type where "R_MICROMIPS_GOT_HI16 \<equiv> 148"
abbreviation (input) R_MICROMIPS_GOT_LO16 :: r_type where "R_MICROMIPS_GOT_LO16 \<equiv> 149"
abbreviation (input) R_MICROMIPS_SUB :: r_type where "R_MICROMIPS_SUB \<equiv> 150"
abbreviation (input) R_MICROMIPS_HIGHER :: r_type where "R_MICROMIPS_HIGHER \<equiv> 151"
abbreviation (input) R_MICROMIPS_HIGHEST :: r_type where "R_MICROMIPS_HIGHEST \<equiv> 152"
abbreviation (input) R_MICROMIPS_CALL_HI16 :: r_type where "R_MICROMIPS_CALL_HI16 \<equiv> 153"
abbreviation (input) R_MICROMIPS_CALL_LO16 :: r_type where "R_MICROMIPS_CALL_LO16 \<equiv> 154"
abbreviation (input) R_MICROMIPS_SCN_DISP :: r_type where "R_MICROMIPS_SCN_DISP \<equiv> 155"
abbreviation (input) R_MICROMIPS_JALR :: r_type where "R_MICROMIPS_JALR \<equiv> 156"
abbreviation (input) R_MICROMIPS_HI0_LO16 :: r_type where "R_MICROMIPS_HI0_LO16 \<equiv> 157"
abbreviation (input) R_MICROMIPS_TLS_GD :: r_type where "R_MICROMIPS_TLS_GD \<equiv> 162"
abbreviation (input) R_MICROMIPS_TLS_LDM :: r_type where "R_MICROMIPS_TLS_LDM \<equiv> 163"
abbreviation (input) R_MICROMIPS_TLS_DTPREL_HI16 :: r_type where "R_MICROMIPS_TLS_DTPREL_HI16 \<equiv> 164"
abbreviation (input) R_MICROMIPS_TLS_DTPREL_LO16 :: r_type where "R_MICROMIPS_TLS_DTPREL_LO16 \<equiv> 165"
abbreviation (input) R_MICROMIPS_TLS_GOTTPREL :: r_type where "R_MICROMIPS_TLS_GOTTPREL \<equiv> 166"
abbreviation (input) R_MICROMIPS_TLS_TPREL_HI16 :: r_type where "R_MICROMIPS_TLS_TPREL_HI16 \<equiv> 169"
abbreviation (input) R_MICROMIPS_TLS_TPREL_LO16 :: r_type where "R_MICROMIPS_TLS_TPREL_LO16 \<equiv> 170"
abbreviation (input) R_MICROMIPS_GPREL7_S2 :: r_type where "R_MICROMIPS_GPREL7_S2 \<equiv> 172"
abbreviation (input) R_MICROMIPS_PC23_S2 :: r_type where "R_MICROMIPS_PC23_S2 \<equiv> 173"
abbreviation (input) R_MICROMIPS_max :: r_type where "R_MICROMIPS_max \<equiv> 174"
abbreviation (input) R_MIPS_PC32 :: r_type where "R_MIPS_PC32 \<equiv> 248"
abbreviation (input) R_MIPS_GNU_REL16_S2 :: r_type where "R_MIPS_GNU_REL16_S2 \<equiv> 250"
abbreviation (input) R_MIPS_GNU_VTINHERIT :: r_type where "R_MIPS_GNU_VTINHERIT \<equiv> 253"
abbreviation (input) R_MIPS_GNU_VTENTRY :: r_type where "R_MIPS_GNU_VTENTRY \<equiv> 254"

section \<open>Classification\<close>

definition mips16_reloc_p :: "r_type \<Rightarrow> bool" where
  "mips16_reloc_p r_type \<longleftrightarrow> r_type = R_MIPS16_26 \<or> r_type = R_MIPS16_GPREL \<or> r_type = R_MIPS16_GOT16
     \<or> r_type = R_MIPS16_CALL16 \<or> r_type = R_MIPS16_HI16 \<or> r_type = R_MIPS16_LO16
     \<or> r_type = R_MIPS16_TLS_GD \<or> r_type = R_MIPS16_TLS_LDM
     \<or> r_type = R_MIPS16_TLS_DTPREL_HI16 \<or> r_type = R_MIPS16_TLS_DTPREL_LO16
     \<or> r_type = R_MIPS16_TLS_GOTTPREL \<or> r_type = R_MIPS16_TLS_TPREL_HI16
     \<or> r_type = R_MIPS16_TLS_TPREL_LO16"

definition micromips_reloc_p :: "r_type \<Rightarrow> bool" where
  "micromips_reloc_p r_type \<longleftrightarrow> R_MICROMIPS_min \<le> r_type \<and> r_type < R_MICROMIPS_max"

definition micromips_reloc_shuffle_p :: "r_type \<Rightarrow> bool" where
  "micromips_reloc_shuffle_p r_type \<longleftrightarrow> False"

definition got16_reloc_p :: "r_type \<Rightarrow> bool" where
  "got16_reloc_p r_type \<longleftrightarrow> r_type = R_MIPS_GOT16 \<or> r_type = R_MIPS16_GOT16 \<or> r_type = R_MICROMIPS_GOT16"

definition call16_reloc_p :: "r_type \<Rightarrow> bool" where
  "call16_reloc_p r_type \<longleftrightarrow> r_type = R_MIPS_CALL16 \<or> r_type = R_MIPS16_CALL16 \<or> r_type = R_MICROMIPS_CALL16"

definition got_disp_reloc_p :: "r_type \<Rightarrow> bool" where
  "got_disp_reloc_p r_type \<longleftrightarrow> r_type = R_MIPS_GOT_DISP \<or> r_type = R_MICROMIPS_GOT_DISP"

definition got_page_reloc_p :: "r_type \<Rightarrow> bool" where
  "got_page_reloc_p r_type \<longleftrightarrow> r_type = R_MIPS_GOT_PAGE \<or> r_type = R_MICROMIPS_GOT_PAGE"

definition got_ofst_reloc_p :: "r_type \<Rightarrow> bool" where
  "got_ofst_reloc_p r_type \<longleftrightarrow> r_type = R_MIPS_GOT_OFST \<or> r_type = R_MICROMIPS_GOT_OFST"

definition got_hi16_reloc_p :: "r_type \<Rightarrow> bool" where
  "got_hi16_reloc_p r_type \<longleftrightarrow> r_type = R_MIPS_GOT_HI16 \<or> r_type = R_MICROMIPS_GOT_HI16"

definition got_lo16_reloc_p :: "r_type \<Rightarrow> bool" where
  "got_lo16_reloc_p r_type \<longleftrightarrow> r_type = R_MIPS_GOT_LO16 \<or> r_type = R_MICROMIPS_GOT_LO16"

definition call_hi16_reloc_p :: "r_type \<Rightarrow> bool" where
  "call_hi16_reloc_p r_type \<longleftrightarrow> r_type = R_MIPS_CALL_HI16 \<or> r_type = R_MICROMIPS_CALL_HI16"

definition call_lo16_reloc_p :: "r_type \<Rightarrow> bool" where
  "call_lo16_reloc_p r_type \<longleftrightarrow> r_type = R_MIPS_CALL_LO16 \<or> r_type = R_MICROMIPS_CALL_LO16"

definition hi16_reloc_p :: "r_type \<Rightarrow> bool" where
  "hi16_reloc_p r_type \<longleftrightarrow> r_type = R_MIPS_HI16 \<or> r_type = R_MIPS16_HI16 \<or> r_type = R_MICROMIPS_HI16"

definition lo16_reloc_p :: "r_type \<Rightarrow> bool" where
  "lo16_reloc_p r_type \<longleftrightarrow> r_type = R_MIPS_LO16 \<or> r_type = R_MIPS16_LO16 \<or> r_type = R_MICROMIPS_LO16"

definition mips16_call_reloc_p :: "r_type \<Rightarrow> bool" where
  "mips16_call_reloc_p r_type \<longleftrightarrow> r_type = R_MIPS16_26 \<or> r_type = R_MIPS16_CALL16"

definition jal_reloc_p :: "r_type \<Rightarrow> bool" where
  "jal_reloc_p r_type \<longleftrightarrow> r_type = R_MIPS_26 \<or> r_type = R_MIPS16_26 \<or> r_type = R_MICROMIPS_26_S1"

definition micromips_branch_reloc_p :: "r_type \<Rightarrow> bool" where
  "micromips_branch_reloc_p r_type \<longleftrightarrow> r_type = R_MICROMIPS_26_S1 \<or> r_type = R_MICROMIPS_PC16_S1
     \<or> r_type = R_MICROMIPS_PC10_S1 \<or> r_type = R_MICROMIPS_PC7_S1"

definition tls_gd_reloc_p :: "r_type \<Rightarrow> bool" where
  "tls_gd_reloc_p r_type \<longleftrightarrow> r_type = R_MIPS_TLS_GD \<or> r_type = R_MIPS16_TLS_GD \<or> r_type = R_MICROMIPS_TLS_GD"

definition tls_ldm_reloc_p :: "r_type \<Rightarrow> bool" where
  "tls_ldm_reloc_p r_type \<longleftrightarrow> r_type = R_MIPS_TLS_LDM \<or> r_type = R_MIPS16_TLS_LDM \<or> r_type = R_MICROMIPS_TLS_LDM"

definition tls_gottprel_reloc_p :: "r_type \<Rightarrow> bool" where
  "tls_gottprel_reloc_p r_type \<longleftrightarrow> r_type = R_MIPS_TLS_GOTTPREL \<or> r_type = R_MIPS16_TLS_GOTTPREL
     \<or> r_type = R_MICROMIPS_TLS_GOTTPREL"

lemmas reloc_p_defs =
  mips16_reloc_p_def micromips_reloc_p_def micromips_reloc_shuffle_p_def got16_reloc_p_def
  call16_reloc_p_def got_disp_reloc_p_def got_page_reloc_p_def got_ofst_reloc_p_def
  got_hi16_reloc_p_def got_lo16_reloc_p_def call_hi16_reloc_p_def call_lo16_reloc_p_def
  hi16_reloc_p_def lo16_reloc_p_def mips16_call_reloc_p_def jal_reloc_p_def
  micromips_branch_reloc_p_def tls_gd_reloc_p_def tls_ldm_reloc_p_def tls_gottprel_reloc_p_def

declare reloc_p_defs [reloc_class]

section \<open>The three encodings\<close>

text \<open>
  A MIPS16 relocation is one of the numbers the MIPS16 howto table covers; the
  classes of the three instruction encodings do not overlap.
\<close>

lemma mips16_reloc_p_range: "mips16_reloc_p r_type \<longleftrightarrow> R_MIPS16_min \<le> r_type \<and> r_type < R_MIPS16_max"
  unfolding mips16_reloc_p_def by presburger

lemma mips16_not_micromips: "mips16_reloc_p r_type \<Longrightarrow> \<not> micromips_reloc_p r_type"
  by (auto simp: reloc_class)

lemma hi16_not_lo16: "hi16_reloc_p r_type \<Longrightarrow> \<not> lo16_reloc_p r_type"
  by (auto simp: reloc_class)

end
