(* ===== verification/Shuffle.thy ===== *)
theory Shuffle
  imports Bytes Relocs
begin

text \<open>
  The bit shuffling of MIPS16 instructions around a relocation
  (\<^verbatim>\<open>_bfd_mips_elf_reloc_unshuffle\<close> and \<^verbatim>\<open>_bfd_mips_elf_reloc_shuffle\<close> of
  elfxx-mips.c) and the accessors of microMIPS opcodes.
\<close>

section \<open>microMIPS opcode helpers\<close>

definition bfd_put_micromips_32 :: "xvec \<Rightarrow> vma \<Rightarrow> bytes \<Rightarrow> nat \<Rightarrow> bytes" where
  "bfd_put_micromips_32 abfd opcode data ptr =
     (let data = bfd_put_16 abfd (drop_bit 16 opcode AND 0xffff) data ptr
      in bfd_put_16 abfd (opcode AND 0xffff) data (ptr + 2))"

definition bfd_get_micromips_32 :: "xvec \<Rightarrow> bytes \<Rightarrow> nat \<Rightarrow> vma" where
  "bfd_get_micromips_32 abfd data ptr =
     push_bit 16 (bfd_get_16 abfd data ptr) OR bfd_get_16 abfd data (ptr + 2)"

section \<open>Shuffling\<close>

definition bfd_mips_elf_reloc_unshuffle :: "xvec \<Rightarrow> r_type \<Rightarrow> bool \<Rightarrow> bytes \<Rightarrow> nat \<Rightarrow> bytes" where
  "bfd_mips_elf_reloc_unshuffle abfd r_type jal_shuffle data off =
     (if \<not> mips16_reloc_p r_type \<and> \<not> micromips_reloc_shuffle_p r_type then data
      else
        let first = bfd_get_16 abfd data off;
            second = bfd_get_16 abfd data (off + 2);
            val = (if micromips_reloc_p r_type \<or> r_type = R_MIPS16_26 \<and> \<not> jal_shuffle
                   then push_bit 16 first OR second
                   else if r_type \<noteq> R_MIPS16_26
                   then push_bit 16 (first AND 0xf800) OR push_bit 11 (second AND 0xffe0)
                        OR push_bit 11 (first AND 0x1f) OR (first AND 0x7e0) OR (second AND 0x1f)
                   else push_bit 16 (first AND 0xfc00) OR push_bit 11 (first AND 0x3e0)
                        OR push_bit 21 (first AND 0x1f) OR second)
        in bfd_put_32 abfd val data off)"

definition bfd_mips_elf_reloc_shuffle :: "xvec \<Rightarrow> r_type \<Rightarrow> bool \<Rightarrow> bytes \<Rightarrow> nat \<Rightarrow> bytes" where
  "bfd_mips_elf_reloc_shuffle abfd r_type jal_shuffle data off =
     (if \<not> mips16_reloc_p r_type \<and> \<not> micromips_reloc_shuffle_p r_type then data
      else
        let val = bfd_get_32 abfd data off;
            (first, second) =
              (if micromips_reloc_p r_type \<or> r_type = R_MIPS16_26 \<and> \<not> jal_shuffle
               then (drop_bit 16 val, val AND 0xffff)
               else if r_type \<noteq> R_MIPS16_26
               then ((drop_bit 16 val AND 0xf800) OR (drop_bit 11 val AND 0x1f) OR (val AND 0x7e0),
                     (drop_bit 11 val AND 0xffe0) OR (val AND 0x1f))
               else ((drop_bit 16 val AND 0xfc00) OR (drop_bit 11 val AND 0x3e0)
                       OR (drop_bit 21 val AND 0x1f),
                     val AND 0xffff));
            data = bfd_put_16 abfd second data (off + 2)
        in bfd_put_16 abfd first data off)"

section \<open>The bit permutations\<close>

text \<open>
  The three packings of two halfwords into a word are bijections: each of the
  following lemmas compares the 64 bit positions.
\<close>

lemma ext_first:
  fixes first second :: vma
  assumes "take_bit 16 first = first" "take_bit 16 second = second"
    and val: "val = push_bit 16 (first AND 0xf800) OR push_bit 11 (second AND 0xffe0)
                OR push_bit 11 (first AND 0x1f) OR (first AND 0x7e0) OR (second AND 0x1f)"
  shows "(drop_bit 16 val AND 0xf800) OR (drop_bit 11 val AND 0x1f) OR (val AND 0x7e0) = first"
proof (rule vma_eqI)
  fix n :: nat assume n: "n < 64"
  show "bit ((drop_bit 16 val AND 0xf800) OR (drop_bit 11 val AND 0x1f) OR (val AND 0x7e0)) n = bit first n"
    using less_64_cases [OF n] high_bits_clear [OF assms(1), of n]
    by (elim insertE emptyE) (simp_all add: val bit_simps)
qed

lemma ext_second:
  fixes first second :: vma
  assumes "take_bit 16 first = first" "take_bit 16 second = second"
    and val: "val = push_bit 16 (first AND 0xf800) OR push_bit 11 (second AND 0xffe0)
                OR push_bit 11 (first AND 0x1f) OR (first AND 0x7e0) OR (second AND 0x1f)"
  shows "(drop_bit 11 val AND 0xffe0) OR (val AND 0x1f) = second"
proof (rule vma_eqI)
  fix n :: nat assume n: "n < 64"
  show "bit ((drop_bit 11 val AND 0xffe0) OR (val AND 0x1f)) n = bit second n"
    using less_64_cases [OF n] high_bits_clear [OF assms(2), of n]
    by (elim insertE emptyE) (simp_all add: val bit_simps)
qed

lemma ext_val:
  fixes val :: vma
  assumes "take_bit 32 val = val"
    and first: "first = (drop_bit 16 val AND 0xf800) OR (drop_bit 11 val AND 0x1f) OR (val AND 0x7e0)"
    and second: "second = (drop_bit 11 val AND 0xffe0) OR (val AND 0x1f)"
  shows "push_bit 16 (first AND 0xf800) OR push_bit 11 (second AND 0xffe0)
           OR push_bit 11 (first AND 0x1f) OR (first AND 0x7e0) OR (second AND 0x1f) = val"
proof (rule vma_eqI)
  fix n :: nat assume n: "n < 64"
  show "bit (push_bit 16 (first AND 0xf800) OR push_bit 11 (second AND 0xffe0)
           OR push_bit 11 (first AND 0x1f) OR (first AND 0x7e0) OR (second AND 0x1f)) n = bit val n"
    using less_64_cases [OF n] high_bits_clear [OF assms(1), of n]
    by (elim insertE emptyE) (simp_all add: first second bit_simps)
qed

lemma jal_first:
  fixes first second :: vma
  assumes "take_bit 16 first = first" "take_bit 16 second = second"
    and val: "val = push_bit 16 (first AND 0xfc00) OR push_bit 11 (first AND 0x3e0)
                OR push_bit 21 (first AND 0x1f) OR second"
  shows "(drop_bit 16 val AND 0xfc00) OR (drop_bit 11 val AND 0x3e0) OR (drop_bit 21 val AND 0x1f) = first"
proof (rule vma_eqI)
  fix n :: nat assume n: "n < 64"
  show "bit ((drop_bit 16 val AND 0xfc00) OR (drop_bit 11 val AND 0x3e0) OR (drop_bit 21 val AND 0x1f)) n
      = bit first n"
    using less_64_cases [OF n] high_bits_clear [OF assms(1), of n]
      high_bits_clear [OF assms(2), of "n + 16"] high_bits_clear [OF assms(2), of "n + 11"]
      high_bits_clear [OF assms(2), of "n + 21"]
    by (elim insertE emptyE) (simp_all add: val bit_simps)
qed

lemma jal_second:
  fixes first second :: vma
  assumes "take_bit 16 second = second"
    and val: "val = push_bit 16 (first AND 0xfc00) OR push_bit 11 (first AND 0x3e0)
                OR push_bit 21 (first AND 0x1f) OR second"
  shows "val AND 0xffff = second"
proof (rule vma_eqI)
  fix n :: nat assume n: "n < 64"
  show "bit (val AND 0xffff) n = bit second n"
    using less_64_cases [OF n] high_bits_clear [OF assms(1), of n]
    by (elim insertE emptyE) (simp_all add: val bit_simps)
qed

lemma jal_val:
  fixes val :: vma
  assumes "take_bit 32 val = val"
    and first: "first = (drop_bit 16 val AND 0xfc00) OR (drop_bit 11 val AND 0x3e0) OR (drop_bit 21 val AND 0x1f)"
  shows "push_bit 16 (first AND 0xfc00) OR push_bit 11 (first AND 0x3e0)
           OR push_bit 21 (first AND 0x1f) OR (val AND 0xffff) = val"
proof (rule vma_eqI)
  fix n :: nat assume n: "n < 64"
  show "bit (push_bit 16 (first AND 0xfc00) OR push_bit 11 (first AND 0x3e0)
           OR push_bit 21 (first AND 0x1f) OR (val AND 0xffff)) n = bit val n"
    using less_64_cases [OF n] high_bits_clear [OF assms(1), of n]
    by (elim insertE emptyE) (simp_all add: first bit_simps)
qed

section \<open>Round trips\<close>

lemma micromips_not_shuffled:
  "micromips_reloc_p r_type \<Longrightarrow> bfd_mips_elf_reloc_unshuffle abfd r_type jal data off = data"
  "micromips_reloc_p r_type \<Longrightarrow> bfd_mips_elf_reloc_shuffle abfd r_type jal data off = data"
  by (auto simp: bfd_mips_elf_reloc_unshuffle_def bfd_mips_elf_reloc_shuffle_def micromips_reloc_shuffle_p_def
      dest: mips16_not_micromips)

text \<open>The value that is stored as a word, and the two halfwords that are read back from it.\<close>

definition unshuffled_word :: "r_type \<Rightarrow> bool \<Rightarrow> vma \<Rightarrow> vma \<Rightarrow> vma" where
  "unshuffled_word r_type jal_shuffle first second =
     (if r_type = R_MIPS16_26 \<and> \<not> jal_shuffle then push_bit 16 first OR second
      else if r_type \<noteq> R_MIPS16_26
      then push_bit 16 (first AND 0xf800) OR push_bit 11 (second AND 0xffe0)
           OR push_bit 11 (first AND 0x1f) OR (first AND 0x7e0) OR (second AND 0x1f)
      else push_bit 16 (first AND 0xfc00) OR push_bit 11 (first AND 0x3e0)
           OR push_bit 21 (first AND 0x1f) OR second)"

definition shuffled_halves :: "r_type \<Rightarrow> bool \<Rightarrow> vma \<Rightarrow> vma \<times> vma" where
  "shuffled_halves r_type jal_shuffle val =
     (if r_type = R_MIPS16_26 \<and> \<not> jal_shuffle then (drop_bit 16 val, val AND 0xffff)
      else if r_type \<noteq> R_MIPS16_26
      then ((drop_bit 16 val AND 0xf800) OR (drop_bit 11 val AND 0x1f) OR (val AND 0x7e0),
            (drop_bit 11 val AND 0xffe0) OR (val AND 0x1f))
      else ((drop_bit 16 val AND 0xfc00) OR (drop_bit 11 val AND 0x3e0) OR (drop_bit 21 val AND 0x1f),
            val AND 0xffff))"

lemma unshuffle_mips16:
  "mips16_reloc_p r_type \<Longrightarrow> bfd_mips_elf_reloc_unshuffle abfd r_type jal data off =
     bfd_put_32 abfd (unshuffled_word r_type jal (bfd_get_16 abfd data off) (bfd_get_16 abfd data (off + 2)))
       data off"
  using mips16_not_micromips
  by (auto simp: bfd_mips_elf_reloc_unshuffle_def unshuffled_word_def Let_def)

lemma shuffle_mips16:
  "mips16_reloc_p r_type \<Longrightarrow> bfd_mips_elf_reloc_shuffle abfd r_type jal data off =
     (let (first, second) = shuffled_halves r_type jal (bfd_get_32 abfd data off)
      in bfd_put_16 abfd first (bfd_put_16 abfd second data (off + 2)) off)"
  using mips16_not_micromips
  by (auto simp: bfd_mips_elf_reloc_shuffle_def shuffled_halves_def Let_def)

lemma unshuffle_not_mips16: "\<not> mips16_reloc_p r_type \<Longrightarrow> bfd_mips_elf_reloc_unshuffle abfd r_type jal data off = data"
  by (simp add: bfd_mips_elf_reloc_unshuffle_def micromips_reloc_shuffle_p_def)

lemma shuffle_not_mips16: "\<not> mips16_reloc_p r_type \<Longrightarrow> bfd_mips_elf_reloc_shuffle abfd r_type jal data off = data"
  by (simp add: bfd_mips_elf_reloc_shuffle_def micromips_reloc_shuffle_p_def)

lemma concat_halves:
  fixes first second :: vma
  assumes "take_bit 16 first = first" "take_bit 16 second = second"
  shows "drop_bit 16 (push_bit 16 first OR second) = first"
    and "(push_bit 16 first OR second) AND 0xffff = second"
  by (auto intro!: bit_word_eqI simp: bit_simps bit_masks dest: bit_below [OF assms(2)])
    (use bit_below [OF assms(1)] bit_below [OF assms(2)] in fastforce)+

lemma concat_of_halves:
  fixes val :: vma
  shows "push_bit 16 (drop_bit 16 val) OR (val AND 0xffff) = val"
  by (auto intro!: bit_word_eqI simp: bit_simps bit_masks)

lemma halves_of_unshuffled:
  assumes "take_bit 16 first = first" "take_bit 16 second = second"
  shows "shuffled_halves r_type jal (unshuffled_word r_type jal first second) = (first, second)"
  using concat_halves [OF assms] ext_first [OF assms refl] ext_second [OF assms refl]
    jal_first [OF assms refl] jal_second [OF assms(2) refl, of first]
  by (simp add: shuffled_halves_def unshuffled_word_def)

lemma unshuffled_word_small:
  assumes "take_bit 16 first = first" "take_bit 16 second = second"
  shows "take_bit 32 (unshuffled_word r_type jal first second) = unshuffled_word r_type jal first second"
proof -
  have "take_bit 32 (push_bit 16 first) = push_bit 16 first" "take_bit 32 second = second"
    using assms take_bit_push_bit [of 32 16 first] take_bit_low [OF _ assms(2), of 32] by simp_all
  then show ?thesis
    by (simp add: unshuffled_word_def take_bit_push_bit take_bit_and_right del: take_bit_and)
qed

lemma unshuffled_of_halves:
  assumes "take_bit 32 val = val"
  shows "(case shuffled_halves r_type jal val of (first, second) \<Rightarrow> unshuffled_word r_type jal first second) = val"
  using concat_of_halves [of val] ext_val [OF assms refl refl] jal_val [OF assms refl]
  by (simp add: shuffled_halves_def unshuffled_word_def)

lemma halves_small:
  assumes "take_bit 32 val = val"
  shows "take_bit 16 (fst (shuffled_halves r_type jal val)) = fst (shuffled_halves r_type jal val)"
    and "take_bit 16 (snd (shuffled_halves r_type jal val)) = snd (shuffled_halves r_type jal val)"
proof -
  have "take_bit 16 (drop_bit 16 val) = drop_bit 16 val"
    using drop_bit_take_bit [of 16 32 val] assms by simp
  then show "take_bit 16 (fst (shuffled_halves r_type jal val)) = fst (shuffled_halves r_type jal val)"
    by (simp add: shuffled_halves_def take_bit_and_right del: take_bit_and)
  show "take_bit 16 (snd (shuffled_halves r_type jal val)) = snd (shuffled_halves r_type jal val)"
    by (simp add: shuffled_halves_def take_bit_and_right del: take_bit_and)
qed

lemma shuffle_of_unshuffled:
  assumes "xvec_ok abfd" "mips16_reloc_p r_type \<longrightarrow> off + 4 \<le> length data"
  shows "bfd_mips_elf_reloc_shuffle abfd r_type jal
           (bfd_mips_elf_reloc_unshuffle abfd r_type jal data off) off = data"
proof (cases "mips16_reloc_p r_type")
  case True
  with assms(2) have range: "off + 4 \<le> length data" by simp
  let ?f = "bfd_get_16 abfd data off" and ?s = "bfd_get_16 abfd data (off + 2)"
  let ?v = "unshuffled_word r_type jal ?f ?s"
  have small: "take_bit 16 ?f = ?f" "take_bit 16 ?s = ?s"
    using assms(1) range by (simp_all add: bytes_simps)
  have "shuffled_halves r_type jal (take_bit 32 ?v) = (?f, ?s)"
    using halves_of_unshuffled [OF small] unshuffled_word_small [OF small] by simp
  then show ?thesis
    using True assms(1) range
    by (simp add: unshuffle_mips16 shuffle_mips16 bytes_simps put_16_16_over_32)
qed (simp add: unshuffle_not_mips16 shuffle_not_mips16)

text \<open>
  C28.  Shuffling is the inverse of unshuffling: after
  \<^verbatim>\<open>_bfd_mips_elf_reloc_unshuffle\<close> and \<^verbatim>\<open>_bfd_mips_elf_reloc_shuffle\<close> with the same
  relocation type and flag the section contents are as they were, whatever
  the relocation type and the byte order of the target.
\<close>

theorem shuffle_unshuffle:
  assumes "xvec_ok abfd" "off + 4 \<le> length data"
  shows "bfd_mips_elf_reloc_shuffle abfd r_type jal
           (bfd_mips_elf_reloc_unshuffle abfd r_type jal data off) off = data"
  using assms by (intro shuffle_of_unshuffled) auto

theorem shuffle_unshuffle_witness:
  "bfd_mips_elf_reloc_shuffle be_xvec R_MIPS16_HI16 True
     (bfd_mips_elf_reloc_unshuffle be_xvec R_MIPS16_HI16 True [0xf1, 0x23, 0x45, 0x67] 0) 0 = [0xf1, 0x23, 0x45, 0x67]"
  by (rule shuffle_unshuffle) simp_all

lemma unshuffle_of_shuffled:
  assumes "xvec_ok abfd" "mips16_reloc_p r_type \<longrightarrow> off + 4 \<le> length data"
  shows "bfd_mips_elf_reloc_unshuffle abfd r_type jal
           (bfd_mips_elf_reloc_shuffle abfd r_type jal data off) off = data"
proof (cases "mips16_reloc_p r_type")
  case True
  with assms(2) have range: "off + 4 \<le> length data" by simp
  let ?v = "bfd_get_32 abfd data off"
  obtain f s where fs: "shuffled_halves r_type jal ?v = (f, s)" by force
  have small: "take_bit 32 ?v = ?v"
    using assms(1) range by (simp add: bytes_simps)
  have "take_bit 16 f = f" "take_bit 16 s = s" "unshuffled_word r_type jal f s = ?v"
    using halves_small [OF small, of r_type jal] unshuffled_of_halves [OF small, of r_type jal] fs by simp_all
  then show ?thesis
    using True assms(1) range fs
    by (simp add: unshuffle_mips16 shuffle_mips16 get_16_16_put put_32_over_16_16 bytes_simps)
qed (simp add: unshuffle_not_mips16 shuffle_not_mips16)

text \<open>Unshuffling is the inverse of shuffling, on the same contents.\<close>

theorem unshuffle_shuffle:
  assumes "xvec_ok abfd" "off + 4 \<le> length data"
  shows "bfd_mips_elf_reloc_unshuffle abfd r_type jal
           (bfd_mips_elf_reloc_shuffle abfd r_type jal data off) off = data"
  using assms by (intro unshuffle_of_shuffled) auto

theorem unshuffle_shuffle_witness:
  "bfd_mips_elf_reloc_unshuffle le_xvec R_MIPS16_26 True
     (bfd_mips_elf_reloc_shuffle le_xvec R_MIPS16_26 True [0, 0x12, 0x34, 0x56, 0x1a, 0] 1) 1 = [0, 0x12, 0x34, 0x56, 0x1a, 0]"
  by (rule unshuffle_shuffle) simp_all

lemma shuffle_frame_any:
  assumes "xvec_ok abfd" "mips16_reloc_p r_type \<longrightarrow> off + 4 \<le> length data"
  shows "length (bfd_mips_elf_reloc_shuffle abfd r_type jal data off) = length data
    \<and> (\<forall>i. i < length data \<longrightarrow> i < off \<or> off + 4 \<le> i
         \<longrightarrow> bfd_mips_elf_reloc_shuffle abfd r_type jal data off ! i = data ! i)"
  using assms
  by (cases "mips16_reloc_p r_type")
    (auto simp: shuffle_mips16 shuffle_not_mips16 bytes_simps split: prod.split)

text \<open>
  Shuffling touches only the four bytes of the instruction, and it keeps
  the length of the contents.
\<close>

theorem shuffle_frame:
  assumes "xvec_ok abfd" "off + 4 \<le> length data"
  shows "length (bfd_mips_elf_reloc_shuffle abfd r_type jal data off) = length data
    \<and> (\<forall>i. i < length data \<longrightarrow> i < off \<or> off + 4 \<le> i
         \<longrightarrow> bfd_mips_elf_reloc_shuffle abfd r_type jal data off ! i = data ! i)"
  using assms by (intro shuffle_frame_any) auto

theorem shuffle_frame_witness:
  "bfd_mips_elf_reloc_shuffle le_xvec R_MIPS16_26 True [7, 0x12, 0x34, 0x56, 0x1a, 9] 1 ! 5 = 9"
  using shuffle_frame [of le_xvec 1 "[7, 0x12, 0x34, 0x56, 0x1a, 9]" R_MIPS16_26 True] by auto

end
