(* ===== verification/Howto.thy ===== *)
theory Howto
  imports Relocs
begin

text \<open>
  The howto tables of elf32-mips.c: how each relocation type of the OpenISA
  target is applied, and the look-ups by BFD code, by name and by ELF
  relocation number.

  A \<^verbatim>\<open>NULL\<close> special function or name is \<^verbatim>\<open>None\<close>.  The C arrays are split
  into consecutive pieces (suffixes a, b, ...), appended in order.
\<close>

section \<open>Howto structures\<close>

datatype complain_overflow =
  complain_overflow_dont | complain_overflow_bitfield | complain_overflow_signed | complain_overflow_unsigned

text \<open>The functions the tables point to, by name.\<close>

datatype special_fn =
  SF_bfd_mips_elf_generic_reloc
  | SF_bfd_mips_elf32_gprel16_reloc
  | SF_bfd_mips_elf_got16_reloc
  | SF_mips_elf_gprel32_reloc
  | SF_mips32_64bit_reloc
  | SF_mips16_gprel_reloc
  | SF_bfd_mips_elf_hi16_reloc
  | SF_bfd_mips_elf_lo16_reloc
  | SF_bfd_elf_rel_vtable_reloc_fn
  | SF_bfd_elf_generic_reloc

record reloc_howto =
  h_type :: r_type
  rightshift :: nat
  h_size :: nat
  bitsize :: nat
  pc_relative :: bool
  bitpos :: nat
  complain_on_overflow :: complain_overflow
  special_function :: "special_fn option"
  h_name :: "string option"
  partial_inplace :: bool
  src_mask :: vma
  dst_mask :: vma
  pcrel_offset :: bool

definition HOWTO ::
  "r_type \<Rightarrow> nat \<Rightarrow> nat \<Rightarrow> nat \<Rightarrow> bool \<Rightarrow> nat \<Rightarrow> complain_overflow \<Rightarrow> special_fn option \<Rightarrow> string option
     \<Rightarrow> bool \<Rightarrow> vma \<Rightarrow> vma \<Rightarrow> bool \<Rightarrow> reloc_howto" where
  "HOWTO c right sz bits pcrel left ovf func name inplace smask dmask pcoff =
     \<lparr>h_type = c, rightshift = right, h_size = sz, bitsize = bits, pc_relative = pcrel, bitpos = left,
      complain_on_overflow = ovf, special_function = func, h_name = name, partial_inplace = inplace,
      src_mask = smask, dst_mask = dmask, pcrel_offset = pcoff\<rparr>"

definition EMPTY_HOWTO :: "r_type \<Rightarrow> reloc_howto" where
  "EMPTY_HOWTO c = HOWTO c 0 0 0 False 0 complain_overflow_dont None None False 0 0 False"

definition MINUS_ONE :: vma where
  "MINUS_ONE = 0 - 1"

text \<open>
  The relocation codes of BFD that elf32-mips.c mentions, in the groups in which
  its maps list them (the C enumeration is one flat type; the wrappers
  \<^verbatim>\<open>RELOC\<close>, \<^verbatim>\<open>RELOC16\<close>, \<^verbatim>\<open>RELOCMM\<close> and \<^verbatim>\<open>RELOCX\<close> only keep the datatypes
  small).  Every other code is \<^verbatim>\<open>BFD_RELOC_unlisted\<close>.
\<close>

datatype (plugins only: size code) mips_code =
  BFD_RELOC_NONE | BFD_RELOC_16 | BFD_RELOC_32
  | BFD_RELOC_64 | BFD_RELOC_MIPS_JMP | BFD_RELOC_HI16_S
  | BFD_RELOC_LO16 | BFD_RELOC_GPREL16 | BFD_RELOC_MIPS_LITERAL
  | BFD_RELOC_MIPS_GOT16 | BFD_RELOC_16_PCREL_S2 | BFD_RELOC_MIPS_CALL16
  | BFD_RELOC_GPREL32 | BFD_RELOC_MIPS_GOT_HI16 | BFD_RELOC_MIPS_GOT_LO16
  | BFD_RELOC_MIPS_CALL_HI16 | BFD_RELOC_MIPS_CALL_LO16 | BFD_RELOC_MIPS_SUB
  | BFD_RELOC_MIPS_GOT_PAGE | BFD_RELOC_MIPS_GOT_OFST | BFD_RELOC_MIPS_GOT_DISP
  | BFD_RELOC_MIPS_JALR | BFD_RELOC_MIPS_TLS_DTPMOD32 | BFD_RELOC_MIPS_TLS_DTPREL32
  | BFD_RELOC_MIPS_TLS_DTPMOD64 | BFD_RELOC_MIPS_TLS_DTPREL64 | BFD_RELOC_MIPS_TLS_GD
  | BFD_RELOC_MIPS_TLS_LDM | BFD_RELOC_MIPS_TLS_DTPREL_HI16 | BFD_RELOC_MIPS_TLS_DTPREL_LO16
  | BFD_RELOC_MIPS_TLS_GOTTPREL | BFD_RELOC_MIPS_TLS_TPREL32 | BFD_RELOC_MIPS_TLS_TPREL64
  | BFD_RELOC_MIPS_TLS_TPREL_HI16 | BFD_RELOC_MIPS_TLS_TPREL_LO16

datatype (plugins only: size code) mips16_code =
  BFD_RELOC_MIPS16_JMP | BFD_RELOC_MIPS16_GPREL | BFD_RELOC_MIPS16_GOT16
  | BFD_RELOC_MIPS16_CALL16 | BFD_RELOC_MIPS16_HI16_S | BFD_RELOC_MIPS16_LO16
  | BFD_RELOC_MIPS16_TLS_GD | BFD_RELOC_MIPS16_TLS_LDM | BFD_RELOC_MIPS16_TLS_DTPREL_HI16
  | BFD_RELOC_MIPS16_TLS_DTPREL_LO16 | BFD_RELOC_MIPS16_TLS_GOTTPREL | BFD_RELOC_MIPS16_TLS_TPREL_HI16
  | BFD_RELOC_MIPS16_TLS_TPREL_LO16

datatype (plugins only: size code) micromips_code =
  BFD_RELOC_MICROMIPS_JMP | BFD_RELOC_MICROMIPS_HI16_S | BFD_RELOC_MICROMIPS_LO16
  | BFD_RELOC_MICROMIPS_GPREL16 | BFD_RELOC_MICROMIPS_LITERAL | BFD_RELOC_MICROMIPS_GOT16
  | BFD_RELOC_MICROMIPS_7_PCREL_S1 | BFD_RELOC_MICROMIPS_10_PCREL_S1 | BFD_RELOC_MICROMIPS_16_PCREL_S1
  | BFD_RELOC_MICROMIPS_CALL16 | BFD_RELOC_MICROMIPS_GOT_DISP | BFD_RELOC_MICROMIPS_GOT_PAGE
  | BFD_RELOC_MICROMIPS_GOT_OFST | BFD_RELOC_MICROMIPS_GOT_HI16 | BFD_RELOC_MICROMIPS_GOT_LO16
  | BFD_RELOC_MICROMIPS_SUB | BFD_RELOC_MICROMIPS_HIGHER | BFD_RELOC_MICROMIPS_HIGHEST
  | BFD_RELOC_MICROMIPS_CALL_HI16 | BFD_RELOC_MICROMIPS_CALL_LO16 | BFD_RELOC_MICROMIPS_SCN_DISP
  | BFD_RELOC_MICROMIPS_JALR | BFD_RELOC_MICROMIPS_TLS_GD | BFD_RELOC_MICROMIPS_TLS_LDM
  | BFD_RELOC_MICROMIPS_TLS_DTPREL_HI16 | BFD_RELOC_MICROMIPS_TLS_DTPREL_LO16 | BFD_RELOC_MICROMIPS_TLS_GOTTPREL
  | BFD_RELOC_MICROMIPS_TLS_TPREL_HI16 | BFD_RELOC_MICROMIPS_TLS_TPREL_LO16

datatype (plugins only: size code) extra_code =
  BFD_RELOC_CTOR | BFD_RELOC_VTABLE_INHERIT | BFD_RELOC_VTABLE_ENTRY
  | BFD_RELOC_32_PCREL | BFD_RELOC_MIPS_COPY | BFD_RELOC_MIPS_JUMP_SLOT
  | BFD_RELOC_unlisted nat

datatype bfd_reloc_code = RELOC mips_code | RELOC16 mips16_code | RELOCMM micromips_code | RELOCX extra_code

type_synonym elf_reloc_map = "bfd_reloc_code \<times> r_type"

section \<open>The tables\<close>

definition howto_rel_a :: "reloc_howto list" where
  "howto_rel_a =
    [HOWTO R_MIPS_NONE 0 0 0 False 0 complain_overflow_dont (Some SF_bfd_mips_elf_generic_reloc) (Some ''R_MIPS_NONE'') False 0 0 False,
     HOWTO R_MIPS_16 0 2 16 False 0 complain_overflow_signed (Some SF_bfd_mips_elf_generic_reloc) (Some ''R_MIPS_16'') True 0x0000ffff 0x0000ffff False,
     HOWTO R_MIPS_32 0 2 32 False 0 complain_overflow_dont (Some SF_bfd_mips_elf_generic_reloc) (Some ''R_MIPS_32'') True 0xffffffff 0xffffffff False,
     HOWTO R_MIPS_REL32 0 2 32 False 0 complain_overflow_dont (Some SF_bfd_mips_elf_generic_reloc) (Some ''R_MIPS_REL32'') True 0xffffffff 0xffffffff False,
     HOWTO R_MIPS_26 2 2 20 False 0 complain_overflow_dont (Some SF_bfd_mips_elf_generic_reloc) (Some ''R_MIPS_26'') True 0x000fffff 0x000fffff False,
     HOWTO R_MIPS_HI16 14 2 18 False 0 complain_overflow_dont (Some SF_bfd_mips_elf_generic_reloc) (Some ''R_MIPS_HI16'') True 0x0003ffff 0x0003ffff False,
     HOWTO R_MIPS_LO16 0 2 14 False 6 complain_overflow_dont (Some SF_bfd_mips_elf_generic_reloc) (Some ''R_MIPS_LO16'') True 0x000fffc0 0x000fffc0 False,
     HOWTO R_MIPS_GPREL16 0 2 16 False 0 complain_overflow_signed (Some SF_bfd_mips_elf32_gprel16_reloc) (Some ''R_MIPS_GPREL16'') True 0x0000ffff 0x0000ffff False,
     HOWTO R_MIPS_LITERAL 0 2 16 False 0 complain_overflow_signed (Some SF_bfd_mips_elf32_gprel16_reloc) (Some ''R_MIPS_LITERAL'') True 0x0000ffff 0x0000ffff False]"

definition howto_rel_b :: "reloc_howto list" where
  "howto_rel_b =
    [HOWTO R_MIPS_GOT16 0 2 16 False 0 complain_overflow_signed (Some SF_bfd_mips_elf_got16_reloc) (Some ''R_MIPS_GOT16'') True 0x0000ffff 0x0000ffff False,
     HOWTO R_MIPS_PC16 2 2 14 True 12 complain_overflow_signed (Some SF_bfd_mips_elf_generic_reloc) (Some ''R_MIPS_PC16'') True 0x03fff000 0x03fff000 True,
     HOWTO R_MIPS_CALL16 0 2 16 False 0 complain_overflow_signed (Some SF_bfd_mips_elf_generic_reloc) (Some ''R_MIPS_CALL16'') True 0x0000ffff 0x0000ffff False,
     HOWTO R_MIPS_GPREL32 0 2 32 False 0 complain_overflow_dont (Some SF_mips_elf_gprel32_reloc) (Some ''R_MIPS_GPREL32'') True 0xffffffff 0xffffffff False,
     EMPTY_HOWTO 13,
     EMPTY_HOWTO 14,
     EMPTY_HOWTO 15,
     HOWTO R_MIPS_SHIFT5 0 2 5 False 6 complain_overflow_bitfield (Some SF_bfd_mips_elf_generic_reloc) (Some ''R_MIPS_SHIFT5'') True 0x000007c0 0x000007c0 False,
     HOWTO R_MIPS_SHIFT6 0 2 6 False 6 complain_overflow_bitfield (Some SF_bfd_mips_elf_generic_reloc) (Some ''R_MIPS_SHIFT6'') True 0x000007c4 0x000007c4 False,
     HOWTO R_MIPS_64 0 4 64 False 0 complain_overflow_dont (Some SF_mips32_64bit_reloc) (Some ''R_MIPS_64'') True MINUS_ONE MINUS_ONE False,
     HOWTO R_MIPS_GOT_DISP 0 2 16 False 0 complain_overflow_signed (Some SF_bfd_mips_elf_generic_reloc) (Some ''R_MIPS_GOT_DISP'') True 0x0000ffff 0x0000ffff False,
     HOWTO R_MIPS_GOT_PAGE 0 2 16 False 0 complain_overflow_signed (Some SF_bfd_mips_elf_generic_reloc) (Some ''R_MIPS_GOT_PAGE'') True 0x0000ffff 0x0000ffff False]"

definition howto_rel_c :: "reloc_howto list" where
  "howto_rel_c =
    [HOWTO R_MIPS_GOT_OFST 0 2 16 False 0 complain_overflow_signed (Some SF_bfd_mips_elf_generic_reloc) (Some ''R_MIPS_GOT_OFST'') True 0x0000ffff 0x0000ffff False,
     HOWTO R_MIPS_GOT_HI16 0 2 16 False 0 complain_overflow_dont (Some SF_bfd_mips_elf_generic_reloc) (Some ''R_MIPS_GOT_HI16'') True 0x0000ffff 0x0000ffff False,
     HOWTO R_MIPS_GOT_LO16 0 2 16 False 0 complain_overflow_dont (Some SF_bfd_mips_elf_generic_reloc) (Some ''R_MIPS_GOT_LO16'') True 0x0000ffff 0x0000ffff False,
     HOWTO R_MIPS_SUB 0 4 64 False 0 complain_overflow_dont (Some SF_bfd_mips_elf_generic_reloc) (Some ''R_MIPS_SUB'') True MINUS_ONE MINUS_ONE False,
     EMPTY_HOWTO R_MIPS_INSERT_A,
     EMPTY_HOWTO R_MIPS_INSERT_B,
     EMPTY_HOWTO R_MIPS_DELETE,
     HOWTO R_MIPS_HIGHER 0 2 16 False 0 complain_overflow_dont (Some SF_bfd_mips_elf_generic_reloc) (Some ''R_MIPS_HIGHER'') True 0x0000ffff 0x0000ffff False,
     HOWTO R_MIPS_HIGHEST 0 2 16 False 0 complain_overflow_dont (Some SF_bfd_mips_elf_generic_reloc) (Some ''R_MIPS_HIGHEST'') True 0x0000ffff 0x0000ffff False,
     HOWTO R_MIPS_CALL_HI16 0 2 16 False 0 complain_overflow_dont (Some SF_bfd_mips_elf_generic_reloc) (Some ''R_MIPS_CALL_HI16'') True 0x0000ffff 0x0000ffff False,
     HOWTO R_MIPS_CALL_LO16 0 2 16 False 0 complain_overflow_dont (Some SF_bfd_mips_elf_generic_reloc) (Some ''R_MIPS_CALL_LO16'') True 0x0000ffff 0x0000ffff False,
     HOWTO R_MIPS_SCN_DISP 0 2 32 False 0 complain_overflow_dont (Some SF_bfd_mips_elf_generic_reloc) (Some ''R_MIPS_SCN_DISP'') True 0xffffffff 0xffffffff False,
     EMPTY_HOWTO R_MIPS_REL16,
     EMPTY_HOWTO R_MIPS_ADD_IMMEDIATE,
     EMPTY_HOWTO R_MIPS_PJUMP,
     EMPTY_HOWTO R_MIPS_RELGOT]"

definition howto_rel_d :: "reloc_howto list" where
  "howto_rel_d =
    [HOWTO R_MIPS_JALR 0 2 32 False 0 complain_overflow_dont (Some SF_bfd_mips_elf_generic_reloc) (Some ''R_MIPS_JALR'') False 0x00000000 0x00000000 False,
     HOWTO R_MIPS_TLS_DTPMOD32 0 2 32 False 0 complain_overflow_dont (Some SF_bfd_mips_elf_generic_reloc) (Some ''R_MIPS_TLS_DTPMOD32'') True 0xffffffff 0xffffffff False,
     HOWTO R_MIPS_TLS_DTPREL32 0 2 32 False 0 complain_overflow_dont (Some SF_bfd_mips_elf_generic_reloc) (Some ''R_MIPS_TLS_DTPREL32'') True 0xffffffff 0xffffffff False,
     EMPTY_HOWTO R_MIPS_TLS_DTPMOD64,
     EMPTY_HOWTO R_MIPS_TLS_DTPREL64,
     HOWTO R_MIPS_TLS_GD 0 2 16 False 0 complain_overflow_signed (Some SF_bfd_mips_elf_generic_reloc) (Some ''R_MIPS_TLS_GD'') True 0x0000ffff 0x0000ffff False,
     HOWTO R_MIPS_TLS_LDM 0 2 16 False 0 complain_overflow_signed (Some SF_bfd_mips_elf_generic_reloc) (Some ''R_MIPS_TLS_LDM'') True 0x0000ffff 0x0000ffff False,
     HOWTO R_MIPS_TLS_DTPREL_HI16 0 2 16 False 0 complain_overflow_signed (Some SF_bfd_mips_elf_generic_reloc) (Some ''R_MIPS_TLS_DTPREL_HI16'') True 0x0000ffff 0x0000ffff False,
     HOWTO R_MIPS_TLS_DTPREL_LO16 0 2 16 False 0 complain_overflow_signed (Some SF_bfd_mips_elf_generic_reloc) (Some ''R_MIPS_TLS_DTPREL_LO16'') True 0x0000ffff 0x0000ffff False,
     HOWTO R_MIPS_TLS_GOTTPREL 0 2 16 False 0 complain_overflow_signed (Some SF_bfd_mips_elf_generic_reloc) (Some ''R_MIPS_TLS_GOTTPREL'') True 0x0000ffff 0x0000ffff False,
     HOWTO R_MIPS_TLS_TPREL32 0 2 32 False 0 complain_overflow_dont (Some SF_bfd_mips_elf_generic_reloc) (Some ''R_MIPS_TLS_TPREL32'') True 0xffffffff 0xffffffff False,
     EMPTY_HOWTO R_MIPS_TLS_TPREL64]"

definition howto_rel_e :: "reloc_howto list" where
  "howto_rel_e =
    [HOWTO R_MIPS_TLS_TPREL_HI16 0 2 16 False 0 complain_overflow_signed (Some SF_bfd_mips_elf_generic_reloc) (Some ''R_MIPS_TLS_TPREL_HI16'') True 0x0000ffff 0x0000ffff False,
     HOWTO R_MIPS_TLS_TPREL_LO16 0 2 16 False 0 complain_overflow_signed (Some SF_bfd_mips_elf_generic_reloc) (Some ''R_MIPS_TLS_TPREL_LO16'') True 0x0000ffff 0x0000ffff False,
     HOWTO R_MIPS_GLOB_DAT 0 2 32 False 0 complain_overflow_dont (Some SF_bfd_mips_elf_generic_reloc) (Some ''R_MIPS_GLOB_DAT'') False 0x0 0xffffffff False]"

definition elf_mips_howto_table_rel :: "reloc_howto list" where
  "elf_mips_howto_table_rel = howto_rel_a @ howto_rel_b @ howto_rel_c @ howto_rel_d @ howto_rel_e"

definition howto16_rel_a :: "reloc_howto list" where
  "howto16_rel_a =
    [HOWTO R_MIPS16_26 2 2 26 False 0 complain_overflow_dont (Some SF_bfd_mips_elf_generic_reloc) (Some ''R_MIPS16_26'') True 0x3ffffff 0x3ffffff False,
     HOWTO R_MIPS16_GPREL 0 2 16 False 0 complain_overflow_signed (Some SF_mips16_gprel_reloc) (Some ''R_MIPS16_GPREL'') True 0x0000ffff 0x0000ffff False,
     HOWTO R_MIPS16_GOT16 0 2 16 False 0 complain_overflow_dont (Some SF_bfd_mips_elf_got16_reloc) (Some ''R_MIPS16_GOT16'') True 0x0000ffff 0x0000ffff False,
     HOWTO R_MIPS16_CALL16 0 2 16 False 0 complain_overflow_dont (Some SF_bfd_mips_elf_generic_reloc) (Some ''R_MIPS16_CALL16'') True 0x0000ffff 0x0000ffff False,
     HOWTO R_MIPS16_HI16 16 2 16 False 0 complain_overflow_dont (Some SF_bfd_mips_elf_hi16_reloc) (Some ''R_MIPS16_HI16'') True 0x0000ffff 0x0000ffff False,
     HOWTO R_MIPS16_LO16 0 2 16 False 0 complain_overflow_dont (Some SF_bfd_mips_elf_lo16_reloc) (Some ''R_MIPS16_LO16'') True 0x0000ffff 0x0000ffff False,
     HOWTO R_MIPS16_TLS_GD 0 2 16 False 0 complain_overflow_signed (Some SF_bfd_mips_elf_generic_reloc) (Some ''R_MIPS16_TLS_GD'') True 0x0000ffff 0x0000ffff False,
     HOWTO R_MIPS16_TLS_LDM 0 2 16 False 0 complain_overflow_signed (Some SF_bfd_mips_elf_generic_reloc) (Some ''R_MIPS16_TLS_LDM'') True 0x0000ffff 0x0000ffff False,
     HOWTO R_MIPS16_TLS_DTPREL_HI16 0 2 16 False 0 complain_overflow_signed (Some SF_bfd_mips_elf_generic_reloc) (Some ''R_MIPS16_TLS_DTPREL_HI16'') True 0x0000ffff 0x0000ffff False]"

definition howto16_rel_b :: "reloc_howto list" where
  "howto16_rel_b =
    [HOWTO R_MIPS16_TLS_DTPREL_LO16 0 2 16 False 0 complain_overflow_signed (Some SF_bfd_mips_elf_generic_reloc) (Some ''R_MIPS16_TLS_DTPREL_LO16'') True 0x0000ffff 0x0000ffff False,
     HOWTO R_MIPS16_TLS_GOTTPREL 0 2 16 False 0 complain_overflow_signed (Some SF_bfd_mips_elf_generic_reloc) (Some ''R_MIPS16_TLS_GOTTPREL'') True 0x0000ffff 0x0000ffff False,
     HOWTO R_MIPS16_TLS_TPREL_HI16 0 2 16 False 0 complain_overflow_signed (Some SF_bfd_mips_elf_generic_reloc) (Some ''R_MIPS16_TLS_TPREL_HI16'') True 0x0000ffff 0x0000ffff False,
     HOWTO R_MIPS16_TLS_TPREL_LO16 0 2 16 False 0 complain_overflow_signed (Some SF_bfd_mips_elf_generic_reloc) (Some ''R_MIPS16_TLS_TPREL_LO16'') True 0x0000ffff 0x0000ffff False]"

definition elf_mips16_howto_table_rel :: "reloc_howto list" where
  "elf_mips16_howto_table_rel = howto16_rel_a @ howto16_rel_b"

definition howto_micromips_rel_a :: "reloc_howto list" where
  "howto_micromips_rel_a =
    [EMPTY_HOWTO 130,
     EMPTY_HOWTO 131,
     EMPTY_HOWTO 132,
     HOWTO R_MICROMIPS_26_S1 1 2 26 False 0 complain_overflow_dont (Some SF_bfd_mips_elf_generic_reloc) (Some ''R_MICROMIPS_26_S1'') True 0x3ffffff 0x3ffffff False,
     HOWTO R_MICROMIPS_HI16 12 2 20 False 0 complain_overflow_dont (Some SF_bfd_mips_elf_generic_reloc) (Some ''R_MICROMIPS_HI16'') True 0x000fffff 0x000fffff False,
     HOWTO R_MICROMIPS_LO16 0 2 12 False 14 complain_overflow_dont (Some SF_bfd_mips_elf_generic_reloc) (Some ''R_MICROMIPS_LO16'') True 0x03ffc000 0x03ffc000 False,
     HOWTO R_MICROMIPS_GPREL16 0 2 16 False 0 complain_overflow_signed (Some SF_bfd_mips_elf32_gprel16_reloc) (Some ''R_MICROMIPS_GPREL16'') True 0x0000ffff 0x0000ffff False,
     HOWTO R_MICROMIPS_LITERAL 0 2 16 False 0 complain_overflow_signed (Some SF_bfd_mips_elf32_gprel16_reloc) (Some ''R_MICROMIPS_LITERAL'') True 0x0000ffff 0x0000ffff False,
     HOWTO R_MICROMIPS_GOT16 0 2 16 False 0 complain_overflow_signed (Some SF_bfd_mips_elf_got16_reloc) (Some ''R_MICROMIPS_GOT16'') True 0x0000ffff 0x0000ffff False,
     HOWTO R_MICROMIPS_PC7_S1 1 1 7 True 0 complain_overflow_signed (Some SF_bfd_mips_elf_generic_reloc) (Some ''R_MICROMIPS_PC7_S1'') True 0x0000007f 0x0000007f True,
     HOWTO R_MICROMIPS_PC10_S1 1 1 10 True 0 complain_overflow_signed (Some SF_bfd_mips_elf_generic_reloc) (Some ''R_MICROMIPS_PC10_S1'') True 0x000003ff 0x000003ff True,
     HOWTO R_MICROMIPS_PC16_S1 2 2 16 True 0 complain_overflow_signed (Some SF_bfd_mips_elf_generic_reloc) (Some ''R_MICROMIPS_PC16_S1'') True 0x0000ffff 0x0000ffff True]"

definition howto_micromips_rel_b :: "reloc_howto list" where
  "howto_micromips_rel_b =
    [HOWTO R_MICROMIPS_CALL16 0 2 16 False 0 complain_overflow_signed (Some SF_bfd_mips_elf_generic_reloc) (Some ''R_MICROMIPS_CALL16'') True 0x0000ffff 0x0000ffff False,
     EMPTY_HOWTO 143,
     EMPTY_HOWTO 144,
     HOWTO R_MICROMIPS_GOT_DISP 0 2 16 False 0 complain_overflow_signed (Some SF_bfd_mips_elf_generic_reloc) (Some ''R_MICROMIPS_GOT_DISP'') True 0x0000ffff 0x0000ffff False,
     HOWTO R_MICROMIPS_GOT_PAGE 0 2 16 False 0 complain_overflow_signed (Some SF_bfd_mips_elf_generic_reloc) (Some ''R_MICROMIPS_GOT_PAGE'') True 0x0000ffff 0x0000ffff False,
     HOWTO R_MICROMIPS_GOT_OFST 0 2 16 False 0 complain_overflow_signed (Some SF_bfd_mips_elf_generic_reloc) (Some ''R_MICROMIPS_GOT_OFST'') True 0x0000ffff 0x0000ffff False,
     HOWTO R_MICROMIPS_GOT_HI16 0 2 16 False 0 complain_overflow_dont (Some SF_bfd_mips_elf_generic_reloc) (Some ''R_MICROMIPS_GOT_HI16'') True 0x0000ffff 0x0000ffff False,
     HOWTO R_MICROMIPS_GOT_LO16 0 2 16 False 0 complain_overflow_dont (Some SF_bfd_mips_elf_generic_reloc) (Some ''R_MICROMIPS_GOT_LO16'') True 0x0000ffff 0x0000ffff False,
     HOWTO R_MICROMIPS_SUB 0 4 64 False 0 complain_overflow_dont (Some SF_bfd_mips_elf_generic_reloc) (Some ''R_MICROMIPS_SUB'') True MINUS_ONE MINUS_ONE False,
     HOWTO R_MICROMIPS_HIGHER 0 2 16 False 0 complain_overflow_dont (Some SF_bfd_mips_elf_generic_reloc) (Some ''R_MICROMIPS_HIGHER'') True 0x0000ffff 0x0000ffff False,
     HOWTO R_MICROMIPS_HIGHEST 0 2 16 False 0 complain_overflow_dont (Some SF_bfd_mips_elf_generic_reloc) (Some ''R_MICROMIPS_HIGHEST'') True 0x0000ffff 0x0000ffff False]"

definition howto_micromips_rel_c :: "reloc_howto list" where
  "howto_micromips_rel_c =
    [HOWTO R_MICROMIPS_CALL_HI16 0 2 16 False 0 complain_overflow_dont (Some SF_bfd_mips_elf_generic_reloc) (Some ''R_MICROMIPS_CALL_HI16'') True 0x0000ffff 0x0000ffff False,
     HOWTO R_MICROMIPS_CALL_LO16 0 2 16 False 0 complain_overflow_dont (Some SF_bfd_mips_elf_generic_reloc) (Some ''R_MICROMIPS_CALL_LO16'') True 0x0000ffff 0x0000ffff False,
     HOWTO R_MICROMIPS_SCN_DISP 0 2 32 False 0 complain_overflow_dont (Some SF_bfd_mips_elf_generic_reloc) (Some ''R_MICROMIPS_SCN_DISP'') True 0xffffffff 0xffffffff False,
     HOWTO R_MICROMIPS_JALR 0 2 32 False 0 complain_overflow_dont (Some SF_bfd_mips_elf_generic_reloc) (Some ''R_MICROMIPS_JALR'') False 0x00000000 0x00000000 False,
     HOWTO R_MICROMIPS_HI0_LO16 0 2 16 False 0 complain_overflow_dont (Some SF_bfd_mips_elf_generic_reloc) (Some ''R_MICROMIPS_HI0_LO16'') True 0x0000ffff 0x0000ffff False,
     EMPTY_HOWTO 158,
     EMPTY_HOWTO 159,
     EMPTY_HOWTO 160,
     EMPTY_HOWTO 161,
     HOWTO R_MICROMIPS_TLS_GD 0 2 16 False 0 complain_overflow_signed (Some SF_bfd_mips_elf_generic_reloc) (Some ''R_MICROMIPS_TLS_GD'') True 0x0000ffff 0x0000ffff False,
     HOWTO R_MICROMIPS_TLS_LDM 0 2 16 False 0 complain_overflow_signed (Some SF_bfd_mips_elf_generic_reloc) (Some ''R_MICROMIPS_TLS_LDM'') True 0x0000ffff 0x0000ffff False,
     HOWTO R_MICROMIPS_TLS_DTPREL_HI16 0 2 16 False 0 complain_overflow_signed (Some SF_bfd_mips_elf_generic_reloc) (Some ''R_MICROMIPS_TLS_DTPREL_HI16'') True 0x0000ffff 0x0000ffff False,
     HOWTO R_MICROMIPS_TLS_DTPREL_LO16 0 2 16 False 0 complain_overflow_signed (Some SF_bfd_mips_elf_generic_reloc) (Some ''R_MICROMIPS_TLS_DTPREL_LO16'') True 0x0000ffff 0x0000ffff False]"

definition howto_micromips_rel_d :: "reloc_howto list" where
  "howto_micromips_rel_d =
    [HOWTO R_MICROMIPS_TLS_GOTTPREL 0 2 16 False 0 complain_overflow_signed (Some SF_bfd_mips_elf_generic_reloc) (Some ''R_MICROMIPS_TLS_GOTTPREL'') True 0x0000ffff 0x0000ffff False,
     EMPTY_HOWTO 167,
     EMPTY_HOWTO 168,
     HOWTO R_MICROMIPS_TLS_TPREL_HI16 0 2 16 False 0 complain_overflow_signed (Some SF_bfd_mips_elf_generic_reloc) (Some ''R_MICROMIPS_TLS_TPREL_HI16'') True 0x0000ffff 0x0000ffff False,
     HOWTO R_MICROMIPS_TLS_TPREL_LO16 0 2 16 False 0 complain_overflow_signed (Some SF_bfd_mips_elf_generic_reloc) (Some ''R_MICROMIPS_TLS_TPREL_LO16'') True 0x0000ffff 0x0000ffff False,
     EMPTY_HOWTO 171,
     HOWTO R_MICROMIPS_GPREL7_S2 2 1 7 False 0 complain_overflow_signed (Some SF_bfd_mips_elf32_gprel16_reloc) (Some ''R_MICROMIPS_GPREL7_S2'') True 0x0000007f 0x0000007f False,
     HOWTO R_MICROMIPS_PC23_S2 2 2 23 True 0 complain_overflow_signed (Some SF_bfd_mips_elf_generic_reloc) (Some ''R_MICROMIPS_PC23_S2'') True 0x007fffff 0x007fffff True]"

definition elf_micromips_howto_table_rel :: "reloc_howto list" where
  "elf_micromips_howto_table_rel = howto_micromips_rel_a @ howto_micromips_rel_b @ howto_micromips_rel_c @ howto_micromips_rel_d"

definition elf_mips_ctor64_howto :: reloc_howto where
  "elf_mips_ctor64_howto =
     HOWTO R_MIPS_64 0 4 32 False 0 complain_overflow_signed (Some SF_mips32_64bit_reloc) (Some ''R_MIPS_64'') True 0xffffffff 0xffffffff False"

definition elf_mips_gnu_rel16_s2 :: reloc_howto where
  "elf_mips_gnu_rel16_s2 =
     HOWTO R_MIPS_GNU_REL16_S2 2 2 16 True 0 complain_overflow_signed (Some SF_bfd_mips_elf_generic_reloc) (Some ''R_MIPS_GNU_REL16_S2'') True 0xffff 0xffff True"

definition elf_mips_gnu_pcrel32 :: reloc_howto where
  "elf_mips_gnu_pcrel32 =
     HOWTO R_MIPS_PC32 0 2 32 True 0 complain_overflow_signed (Some SF_bfd_mips_elf_generic_reloc) (Some ''R_MIPS_PC32'') True 0xffffffff 0xffffffff True"

definition elf_mips_gnu_vtinherit_howto :: reloc_howto where
  "elf_mips_gnu_vtinherit_howto =
     HOWTO R_MIPS_GNU_VTINHERIT 0 2 0 False 0 complain_overflow_dont None (Some ''R_MIPS_GNU_VTINHERIT'') False 0 0 False"

definition elf_mips_gnu_vtentry_howto :: reloc_howto where
  "elf_mips_gnu_vtentry_howto =
     HOWTO R_MIPS_GNU_VTENTRY 0 2 0 False 0 complain_overflow_dont (Some SF_bfd_elf_rel_vtable_reloc_fn) (Some ''R_MIPS_GNU_VTENTRY'') False 0 0 False"

definition elf_mips_copy_howto :: reloc_howto where
  "elf_mips_copy_howto =
     HOWTO R_MIPS_COPY 0 0 0 False 0 complain_overflow_bitfield (Some SF_bfd_elf_generic_reloc) (Some ''R_MIPS_COPY'') False 0x0 0x0 False"

definition elf_mips_jump_slot_howto :: reloc_howto where
  "elf_mips_jump_slot_howto =
     HOWTO R_MIPS_JUMP_SLOT 0 2 32 False 0 complain_overflow_bitfield (Some SF_bfd_elf_generic_reloc) (Some ''R_MIPS_JUMP_SLOT'') False 0x0 0x0 False"

definition mips_reloc_map :: "elf_reloc_map list" where
  "mips_reloc_map =
    [(RELOC BFD_RELOC_NONE, R_MIPS_NONE),
     (RELOC BFD_RELOC_16, R_MIPS_16),
     (RELOC BFD_RELOC_32, R_MIPS_32),
     (RELOC BFD_RELOC_64, R_MIPS_64),
     (RELOC BFD_RELOC_MIPS_JMP, R_MIPS_26),
     (RELOC BFD_RELOC_HI16_S, R_MIPS_HI16),
     (RELOC BFD_RELOC_LO16, R_MIPS_LO16),
     (RELOC BFD_RELOC_GPREL16, R_MIPS_GPREL16),
     (RELOC BFD_RELOC_MIPS_LITERAL, R_MIPS_LITERAL),
     (RELOC BFD_RELOC_MIPS_GOT16, R_MIPS_GOT16),
     (RELOC BFD_RELOC_16_PCREL_S2, R_MIPS_PC16),
     (RELOC BFD_RELOC_MIPS_CALL16, R_MIPS_CALL16),
     (RELOC BFD_RELOC_GPREL32, R_MIPS_GPREL32),
     (RELOC BFD_RELOC_MIPS_GOT_HI16, R_MIPS_GOT_HI16),
     (RELOC BFD_RELOC_MIPS_GOT_LO16, R_MIPS_GOT_LO16),
     (RELOC BFD_RELOC_MIPS_CALL_HI16, R_MIPS_CALL_HI16),
     (RELOC BFD_RELOC_MIPS_CALL_LO16, R_MIPS_CALL_LO16),
     (RELOC BFD_RELOC_MIPS_SUB, R_MIPS_SUB),
     (RELOC BFD_RELOC_MIPS_GOT_PAGE, R_MIPS_GOT_PAGE),
     (RELOC BFD_RELOC_MIPS_GOT_OFST, R_MIPS_GOT_OFST),
     (RELOC BFD_RELOC_MIPS_GOT_DISP, R_MIPS_GOT_DISP),
     (RELOC BFD_RELOC_MIPS_JALR, R_MIPS_JALR),
     (RELOC BFD_RELOC_MIPS_TLS_DTPMOD32, R_MIPS_TLS_DTPMOD32),
     (RELOC BFD_RELOC_MIPS_TLS_DTPREL32, R_MIPS_TLS_DTPREL32),
     (RELOC BFD_RELOC_MIPS_TLS_DTPMOD64, R_MIPS_TLS_DTPMOD64),
     (RELOC BFD_RELOC_MIPS_TLS_DTPREL64, R_MIPS_TLS_DTPREL64),
     (RELOC BFD_RELOC_MIPS_TLS_GD, R_MIPS_TLS_GD),
     (RELOC BFD_RELOC_MIPS_TLS_LDM, R_MIPS_TLS_LDM),
     (RELOC BFD_RELOC_MIPS_TLS_DTPREL_HI16, R_MIPS_TLS_DTPREL_HI16),
     (RELOC BFD_RELOC_MIPS_TLS_DTPREL_LO16, R_MIPS_TLS_DTPREL_LO16),
     (RELOC BFD_RELOC_MIPS_TLS_GOTTPREL, R_MIPS_TLS_GOTTPREL),
     (RELOC BFD_RELOC_MIPS_TLS_TPREL32, R_MIPS_TLS_TPREL32),
     (RELOC BFD_RELOC_MIPS_TLS_TPREL64, R_MIPS_TLS_TPREL64),
     (RELOC BFD_RELOC_MIPS_TLS_TPREL_HI16, R_MIPS_TLS_TPREL_HI16),
     (RELOC BFD_RELOC_MIPS_TLS_TPREL_LO16, R_MIPS_TLS_TPREL_LO16)]"

definition mips16_reloc_map :: "elf_reloc_map list" where
  "mips16_reloc_map =
    [(RELOC16 BFD_RELOC_MIPS16_JMP, R_MIPS16_26 - R_MIPS16_min),
     (RELOC16 BFD_RELOC_MIPS16_GPREL, R_MIPS16_GPREL - R_MIPS16_min),
     (RELOC16 BFD_RELOC_MIPS16_GOT16, R_MIPS16_GOT16 - R_MIPS16_min),
     (RELOC16 BFD_RELOC_MIPS16_CALL16, R_MIPS16_CALL16 - R_MIPS16_min),
     (RELOC16 BFD_RELOC_MIPS16_HI16_S, R_MIPS16_HI16 - R_MIPS16_min),
     (RELOC16 BFD_RELOC_MIPS16_LO16, R_MIPS16_LO16 - R_MIPS16_min),
     (RELOC16 BFD_RELOC_MIPS16_TLS_GD, R_MIPS16_TLS_GD - R_MIPS16_min),
     (RELOC16 BFD_RELOC_MIPS16_TLS_LDM, R_MIPS16_TLS_LDM - R_MIPS16_min),
     (RELOC16 BFD_RELOC_MIPS16_TLS_DTPREL_HI16, R_MIPS16_TLS_DTPREL_HI16 - R_MIPS16_min),
     (RELOC16 BFD_RELOC_MIPS16_TLS_DTPREL_LO16, R_MIPS16_TLS_DTPREL_LO16 - R_MIPS16_min),
     (RELOC16 BFD_RELOC_MIPS16_TLS_GOTTPREL, R_MIPS16_TLS_GOTTPREL - R_MIPS16_min),
     (RELOC16 BFD_RELOC_MIPS16_TLS_TPREL_HI16, R_MIPS16_TLS_TPREL_HI16 - R_MIPS16_min),
     (RELOC16 BFD_RELOC_MIPS16_TLS_TPREL_LO16, R_MIPS16_TLS_TPREL_LO16 - R_MIPS16_min)]"

definition micromips_reloc_map :: "elf_reloc_map list" where
  "micromips_reloc_map =
    [(RELOCMM BFD_RELOC_MICROMIPS_JMP, R_MICROMIPS_26_S1 - R_MICROMIPS_min),
     (RELOCMM BFD_RELOC_MICROMIPS_HI16_S, R_MICROMIPS_HI16 - R_MICROMIPS_min),
     (RELOCMM BFD_RELOC_MICROMIPS_LO16, R_MICROMIPS_LO16 - R_MICROMIPS_min),
     (RELOCMM BFD_RELOC_MICROMIPS_GPREL16, R_MICROMIPS_GPREL16 - R_MICROMIPS_min),
     (RELOCMM BFD_RELOC_MICROMIPS_LITERAL, R_MICROMIPS_LITERAL - R_MICROMIPS_min),
     (RELOCMM BFD_RELOC_MICROMIPS_GOT16, R_MICROMIPS_GOT16 - R_MICROMIPS_min),
     (RELOCMM BFD_RELOC_MICROMIPS_7_PCREL_S1, R_MICROMIPS_PC7_S1 - R_MICROMIPS_min),
     (RELOCMM BFD_RELOC_MICROMIPS_10_PCREL_S1, R_MICROMIPS_PC10_S1 - R_MICROMIPS_min),
     (RELOCMM BFD_RELOC_MICROMIPS_16_PCREL_S1, R_MICROMIPS_PC16_S1 - R_MICROMIPS_min),
     (RELOCMM BFD_RELOC_MICROMIPS_CALL16, R_MICROMIPS_CALL16 - R_MICROMIPS_min),
     (RELOCMM BFD_RELOC_MICROMIPS_GOT_DISP, R_MICROMIPS_GOT_DISP - R_MICROMIPS_min),
     (RELOCMM BFD_RELOC_MICROMIPS_GOT_PAGE, R_MICROMIPS_GOT_PAGE - R_MICROMIPS_min),
     (RELOCMM BFD_RELOC_MICROMIPS_GOT_OFST, R_MICROMIPS_GOT_OFST - R_MICROMIPS_min),
     (RELOCMM BFD_RELOC_MICROMIPS_GOT_HI16, R_MICROMIPS_GOT_HI16 - R_MICROMIPS_min),
     (RELOCMM BFD_RELOC_MICROMIPS_GOT_LO16, R_MICROMIPS_GOT_LO16 - R_MICROMIPS_min),
     (RELOCMM BFD_RELOC_MICROMIPS_SUB, R_MICROMIPS_SUB - R_MICROMIPS_min),
     (RELOCMM BFD_RELOC_MICROMIPS_HIGHER, R_MICROMIPS_HIGHER - R_MICROMIPS_min),
     (RELOCMM BFD_RELOC_MICROMIPS_HIGHEST, R_MICROMIPS_HIGHEST - R_MICROMIPS_min),
     (RELOCMM BFD_RELOC_MICROMIPS_CALL_HI16, R_MICROMIPS_CALL_HI16 - R_MICROMIPS_min),
     (RELOCMM BFD_RELOC_MICROMIPS_CALL_LO16, R_MICROMIPS_CALL_LO16 - R_MICROMIPS_min),
     (RELOCMM BFD_RELOC_MICROMIPS_SCN_DISP, R_MICROMIPS_SCN_DISP - R_MICROMIPS_min),
     (RELOCMM BFD_RELOC_MICROMIPS_JALR, R_MICROMIPS_JALR - R_MICROMIPS_min),
     (RELOCMM BFD_RELOC_MICROMIPS_TLS_GD, R_MICROMIPS_TLS_GD - R_MICROMIPS_min),
     (RELOCMM BFD_RELOC_MICROMIPS_TLS_LDM, R_MICROMIPS_TLS_LDM - R_MICROMIPS_min),
     (RELOCMM BFD_RELOC_MICROMIPS_TLS_DTPREL_HI16, R_MICROMIPS_TLS_DTPREL_HI16 - R_MICROMIPS_min),
     (RELOCMM BFD_RELOC_MICROMIPS_TLS_DTPREL_LO16, R_MICROMIPS_TLS_DTPREL_LO16 - R_MICROMIPS_min),
     (RELOCMM BFD_RELOC_MICROMIPS_TLS_GOTTPREL, R_MICROMIPS_TLS_GOTTPREL - R_MICROMIPS_min),
     (RELOCMM BFD_RELOC_MICROMIPS_TLS_TPREL_HI16, R_MICROMIPS_TLS_TPREL_HI16 - R_MICROMIPS_min),
     (RELOCMM BFD_RELOC_MICROMIPS_TLS_TPREL_LO16, R_MICROMIPS_TLS_TPREL_LO16 - R_MICROMIPS_min)]"

section \<open>Look-ups\<close>

datatype bfd_error = bfd_error_bad_value | bfd_error_no_memory | bfd_error_invalid_operation | bfd_error_wrong_format

text \<open>The flags of the ELF header that name the ABI.\<close>

definition E_MIPS_ABI_O64 :: "32 word" where "E_MIPS_ABI_O64 = 0x2000"
definition E_MIPS_ABI_EABI32 :: "32 word" where "E_MIPS_ABI_EABI32 = 0x3000"
definition E_MIPS_ABI_EABI64 :: "32 word" where "E_MIPS_ABI_EABI64 = 0x4000"

definition bfd_elf32_bfd_reloc_type_lookup :: "32 word \<Rightarrow> bfd_reloc_code \<Rightarrow> bfd_error + reloc_howto" where
  "bfd_elf32_bfd_reloc_type_lookup e_flags code =
     (case map_of mips_reloc_map code of
        Some elf_val \<Rightarrow> Inr (elf_mips_howto_table_rel ! elf_val)
      | None \<Rightarrow>
     (case map_of mips16_reloc_map code of
        Some elf_val \<Rightarrow> Inr (elf_mips16_howto_table_rel ! elf_val)
      | None \<Rightarrow>
     (case map_of micromips_reloc_map code of
        Some elf_val \<Rightarrow> Inr (elf_micromips_howto_table_rel ! elf_val)
      | None \<Rightarrow>
     (case code of
        RELOCX BFD_RELOC_CTOR \<Rightarrow>
          (if e_flags AND (E_MIPS_ABI_O64 OR E_MIPS_ABI_EABI64) \<noteq> 0 then Inr elf_mips_ctor64_howto
           else Inr (elf_mips_howto_table_rel ! R_MIPS_32))
      | RELOCX BFD_RELOC_VTABLE_INHERIT \<Rightarrow> Inr elf_mips_gnu_vtinherit_howto
      | RELOCX BFD_RELOC_VTABLE_ENTRY \<Rightarrow> Inr elf_mips_gnu_vtentry_howto
      | RELOCX BFD_RELOC_32_PCREL \<Rightarrow> Inr elf_mips_gnu_pcrel32
      | RELOCX BFD_RELOC_MIPS_COPY \<Rightarrow> Inr elf_mips_copy_howto
      | RELOCX BFD_RELOC_MIPS_JUMP_SLOT \<Rightarrow> Inr elf_mips_jump_slot_howto
      | _ \<Rightarrow> Inl bfd_error_bad_value))))"

text \<open>The C library's \<^verbatim>\<open>strcasecmp\<close>, in the C locale: letters are compared in lower case.\<close>

definition ascii_lower :: "char \<Rightarrow> char" where
  "ascii_lower c = (if 65 \<le> (of_char c :: nat) \<and> (of_char c :: nat) \<le> 90 then char_of ((of_char c :: nat) + 32) else c)"

definition strcaseeq :: "string \<Rightarrow> string \<Rightarrow> bool" where
  "strcaseeq a b \<longleftrightarrow> map ascii_lower a = map ascii_lower b"

definition has_name :: "string \<Rightarrow> reloc_howto \<Rightarrow> bool" where
  "has_name r_name h \<longleftrightarrow> (case h_name h of None \<Rightarrow> False | Some n \<Rightarrow> strcaseeq n r_name)"

definition bfd_elf32_bfd_reloc_name_lookup :: "string \<Rightarrow> reloc_howto option" where
  "bfd_elf32_bfd_reloc_name_lookup r_name =
     (case find (has_name r_name) elf_mips_howto_table_rel of Some h \<Rightarrow> Some h | None \<Rightarrow>
     (case find (has_name r_name) elf_mips16_howto_table_rel of Some h \<Rightarrow> Some h | None \<Rightarrow>
     (case find (has_name r_name) elf_micromips_howto_table_rel of Some h \<Rightarrow> Some h | None \<Rightarrow>
        if has_name r_name elf_mips_gnu_pcrel32 then Some elf_mips_gnu_pcrel32
        else if has_name r_name elf_mips_gnu_rel16_s2 then Some elf_mips_gnu_rel16_s2
        else if has_name r_name elf_mips_gnu_vtinherit_howto then Some elf_mips_gnu_vtinherit_howto
        else if has_name r_name elf_mips_gnu_vtentry_howto then Some elf_mips_gnu_vtentry_howto
        else if has_name r_name elf_mips_copy_howto then Some elf_mips_copy_howto
        else if has_name r_name elf_mips_jump_slot_howto then Some elf_mips_jump_slot_howto
        else None)))"

text \<open>
  \<^verbatim>\<open>mips_elf32_rtype_to_howto\<close>.  Where the C code asserts that the number is
  below \<^verbatim>\<open>R_MIPS_max\<close> and would index the table beyond its end, the result is
  \<^verbatim>\<open>None\<close>.
\<close>

definition mips_elf32_rtype_to_howto :: "r_type \<Rightarrow> reloc_howto option" where
  "mips_elf32_rtype_to_howto r_type =
     (if r_type = R_MIPS_GNU_VTINHERIT then Some elf_mips_gnu_vtinherit_howto
      else if r_type = R_MIPS_GNU_VTENTRY then Some elf_mips_gnu_vtentry_howto
      else if r_type = R_MIPS_GNU_REL16_S2 then Some elf_mips_gnu_rel16_s2
      else if r_type = R_MIPS_PC32 then Some elf_mips_gnu_pcrel32
      else if r_type = R_MIPS_COPY then Some elf_mips_copy_howto
      else if r_type = R_MIPS_JUMP_SLOT then Some elf_mips_jump_slot_howto
      else if R_MICROMIPS_min \<le> r_type \<and> r_type < R_MICROMIPS_max
      then Some (elf_micromips_howto_table_rel ! (r_type - R_MICROMIPS_min))
      else if R_MIPS16_min \<le> r_type \<and> r_type < R_MIPS16_max
      then Some (elf_mips16_howto_table_rel ! (r_type - R_MIPS16_min))
      else if r_type < R_MIPS_max then Some (elf_mips_howto_table_rel ! r_type)
      else None)"

section \<open>What the tables hold\<close>

lemmas howto_rel_defs = howto_rel_a_def howto_rel_b_def howto_rel_c_def howto_rel_d_def howto_rel_e_def
lemmas howto16_rel_defs = howto16_rel_a_def howto16_rel_b_def
lemmas howto_micromips_rel_defs = howto_micromips_rel_a_def howto_micromips_rel_b_def
  howto_micromips_rel_c_def howto_micromips_rel_d_def
lemmas single_howto_defs = elf_mips_ctor64_howto_def elf_mips_gnu_rel16_s2_def elf_mips_gnu_pcrel32_def
  elf_mips_gnu_vtinherit_howto_def elf_mips_gnu_vtentry_howto_def elf_mips_copy_howto_def elf_mips_jump_slot_howto_def
lemmas howto_table_defs = elf_mips_howto_table_rel_def elf_mips16_howto_table_rel_def elf_micromips_howto_table_rel_def

text \<open>Entry by entry, the type field counts up from the first number of the table.\<close>

lemma howto_rel_types: "map h_type elf_mips_howto_table_rel = [0..<52]"
  by (simp add: elf_mips_howto_table_rel_def howto_rel_defs HOWTO_def EMPTY_HOWTO_def upt_rec)

lemma howto16_rel_types: "map h_type elf_mips16_howto_table_rel = [100..<113]"
  by (simp add: elf_mips16_howto_table_rel_def howto16_rel_defs HOWTO_def EMPTY_HOWTO_def upt_rec)

lemma howto_micromips_rel_types: "map h_type elf_micromips_howto_table_rel = [130..<174]"
  by (simp add: elf_micromips_howto_table_rel_def howto_micromips_rel_defs HOWTO_def EMPTY_HOWTO_def upt_rec)

lemma length_howto_tables [simp]:
  "length elf_mips_howto_table_rel = 52" "length elf_mips16_howto_table_rel = 13"
  "length elf_micromips_howto_table_rel = 44"
  using arg_cong [OF howto_rel_types, of length] arg_cong [OF howto16_rel_types, of length]
    arg_cong [OF howto_micromips_rel_types, of length]
  by (simp_all only: length_map length_upt)

lemma nth_of_map_upt: "map f xs = [a..<b] \<Longrightarrow> r < b - a \<Longrightarrow> f (xs ! r) = a + r"
  by (metis length_map length_upt less_diff_conv add.commute nth_map nth_upt)

lemma h_type_nth:
  "r < 52 \<Longrightarrow> h_type (elf_mips_howto_table_rel ! r) = r"
  "r < 13 \<Longrightarrow> h_type (elf_mips16_howto_table_rel ! r) = 100 + r"
  "r < 44 \<Longrightarrow> h_type (elf_micromips_howto_table_rel ! r) = 130 + r"
  using nth_of_map_upt [OF howto_rel_types, of r] nth_of_map_upt [OF howto16_rel_types, of r]
    nth_of_map_upt [OF howto_micromips_rel_types, of r]
  by simp_all

definition single_howtos :: "reloc_howto list" where
  "single_howtos = [elf_mips_gnu_vtinherit_howto, elf_mips_gnu_vtentry_howto, elf_mips_gnu_rel16_s2,
     elf_mips_gnu_pcrel32, elf_mips_copy_howto, elf_mips_jump_slot_howto]"

definition all_howtos :: "reloc_howto list" where
  "all_howtos = elf_mips_howto_table_rel @ elf_mips16_howto_table_rel @ elf_micromips_howto_table_rel @ single_howtos"

lemma rtype_to_howto_mem: "mips_elf32_rtype_to_howto r_type = Some h \<Longrightarrow> h \<in> set all_howtos"
  by (auto simp: mips_elf32_rtype_to_howto_def all_howtos_def single_howtos_def split: if_splits)

lemma rtype_to_howto_all:
  assumes "mips_elf32_rtype_to_howto r_type = Some h" "list_all P elf_mips_howto_table_rel"
    "list_all P elf_mips16_howto_table_rel" "list_all P elf_micromips_howto_table_rel" "list_all P single_howtos"
  shows "P h"
  using rtype_to_howto_mem [OF assms(1)] assms(2-) by (auto simp: all_howtos_def list_all_iff)

text \<open>A relocation type has a howto entry exactly when it lies in one of the three ranges or is a GNU extension.\<close>

definition known_rtype :: "r_type \<Rightarrow> bool" where
  "known_rtype r \<longleftrightarrow> r < R_MIPS_max \<or> (R_MIPS16_min \<le> r \<and> r < R_MIPS16_max)
     \<or> (R_MICROMIPS_min \<le> r \<and> r < R_MICROMIPS_max)
     \<or> r \<in> {R_MIPS_COPY, R_MIPS_JUMP_SLOT, R_MIPS_PC32, R_MIPS_GNU_REL16_S2, R_MIPS_GNU_VTINHERIT, R_MIPS_GNU_VTENTRY}"

lemma rtype_to_howto_type: "mips_elf32_rtype_to_howto r_type = Some h \<Longrightarrow> h_type h = r_type"
  by (auto simp: mips_elf32_rtype_to_howto_def h_type_nth single_howto_defs HOWTO_def split: if_splits)

text \<open>
  \<^verbatim>\<open>mips_elf32_rtype_to_howto\<close> finds the entry of the relocation type it is
  asked for, in whichever table, and it stays inside the tables exactly for the
  known types.
\<close>

theorem rtype_to_howto_correct:
  "(case mips_elf32_rtype_to_howto r_type of None \<Rightarrow> \<not> known_rtype r_type
    | Some h \<Rightarrow> known_rtype r_type \<and> h_type h = r_type)"
  using rtype_to_howto_type [of r_type]
  by (cases "mips_elf32_rtype_to_howto r_type")
    (auto simp: mips_elf32_rtype_to_howto_def known_rtype_def split: if_splits)

text \<open>How the field of an instruction described by an entry sits in its mask.\<close>

definition field_ok :: "reloc_howto \<Rightarrow> bool" where
  "field_ok h \<longleftrightarrow> dst_mask h = 0 \<or> h_type h = R_MIPS_SHIFT6 \<or> dst_mask h = push_bit (bitpos h) (mask (bitsize h))"

definition inplace_ok :: "reloc_howto \<Rightarrow> bool" where
  "inplace_ok h \<longleftrightarrow> src_mask h = (if partial_inplace h then dst_mask h else 0)"

definition pcrel_ok :: "reloc_howto \<Rightarrow> bool" where
  "pcrel_ok h \<longleftrightarrow> pcrel_offset h = pc_relative h"

lemmas table_eval = howto_table_defs howto_rel_defs howto16_rel_defs howto_micromips_rel_defs
  single_howtos_def single_howto_defs HOWTO_def EMPTY_HOWTO_def

lemma field_ok_tables:
  "list_all field_ok elf_mips_howto_table_rel" "list_all field_ok elf_mips16_howto_table_rel"
  "list_all field_ok elf_micromips_howto_table_rel" "list_all field_ok single_howtos"
  by (simp_all add: table_eval field_ok_def mask_eq_exp_minus_1 MINUS_ONE_def)

lemma inplace_ok_tables:
  "list_all inplace_ok elf_mips_howto_table_rel" "list_all inplace_ok elf_mips16_howto_table_rel"
  "list_all inplace_ok elf_micromips_howto_table_rel" "list_all inplace_ok single_howtos"
  by (simp_all add: table_eval inplace_ok_def)

lemma pcrel_ok_tables:
  "list_all pcrel_ok elf_mips_howto_table_rel" "list_all pcrel_ok elf_mips16_howto_table_rel"
  "list_all pcrel_ok elf_micromips_howto_table_rel" "list_all pcrel_ok single_howtos"
  by (simp_all add: table_eval pcrel_ok_def)

text \<open>
  The masks of every entry describe one field: the bits a relocation
  stores are \<^verbatim>\<open>bitsize\<close> contiguous bits from \<^verbatim>\<open>bitpos\<close> on (only
  \<^verbatim>\<open>R_MIPS_SHIFT6\<close> splits its field, and entries with an empty mask store nothing); an
  addend is read in place from the same bits; and an entry is relative to the
  address of the place exactly when it is pc-relative.
\<close>

theorem howto_masks_coherent:
  assumes "mips_elf32_rtype_to_howto r_type = Some h"
  shows "(dst_mask h \<noteq> 0 \<and> r_type \<noteq> R_MIPS_SHIFT6 \<longrightarrow> dst_mask h = push_bit (bitpos h) (mask (bitsize h)))
    \<and> src_mask h = (if partial_inplace h then dst_mask h else 0) \<and> pcrel_offset h = pc_relative h"
  using rtype_to_howto_all [OF assms field_ok_tables] rtype_to_howto_all [OF assms inplace_ok_tables]
    rtype_to_howto_all [OF assms pcrel_ok_tables] rtype_to_howto_type [OF assms]
  by (auto simp: field_ok_def inplace_ok_def pcrel_ok_def)

theorem howto_masks_coherent_witness:
  "\<exists>h. mips_elf32_rtype_to_howto R_MIPS_LO16 = Some h \<and> dst_mask h = push_bit (bitpos h) (mask (bitsize h))
     \<and> bitpos h = 6 \<and> bitsize h = 14"
  using howto_masks_coherent [of R_MIPS_LO16 "elf_mips_howto_table_rel ! 6"]
  by (simp add: mips_elf32_rtype_to_howto_def table_eval)

section \<open>Look-up by name\<close>

text \<open>The names are made of capital letters, digits and underscores, where lower-casing loses nothing.\<close>

definition name_chars :: string where
  "name_chars = ''ABCDEFGHIJKLMNOPQRSTUVWXYZ0123456789_''"

definition ascii_upper :: "char \<Rightarrow> char" where
  "ascii_upper c = (if 97 \<le> (of_char c :: nat) \<and> (of_char c :: nat) \<le> 122 then char_of ((of_char c :: nat) - 32) else c)"

lemma upper_lower: "c \<in> set name_chars \<Longrightarrow> ascii_upper (ascii_lower c) = c"
  by (auto simp: name_chars_def ascii_upper_def ascii_lower_def char_of_eq_iff of_char_mod_256)

lemma upper_lower_name: "set s \<subseteq> set name_chars \<Longrightarrow> map ascii_upper (map ascii_lower s) = s"
  by (induction s) (auto simp: upper_lower)

definition upper_name :: "reloc_howto \<Rightarrow> bool" where
  "upper_name h \<longleftrightarrow> (case h_name h of None \<Rightarrow> True | Some n \<Rightarrow> list_all (\<lambda>c. List.member name_chars c) n)"

lemma upper_name_all: "list_all upper_name all_howtos"
  by (simp add: all_howtos_def table_eval upper_name_def name_chars_def)

lemma names_distinct: "distinct (List.map_filter h_name all_howtos)"
  by (simp add: all_howtos_def table_eval List.map_filter_simps)

lemma name_lookup_find:
  "bfd_elf32_bfd_reloc_name_lookup r_name = find (has_name r_name)
     (elf_mips_howto_table_rel @ elf_mips16_howto_table_rel @ elf_micromips_howto_table_rel
      @ [elf_mips_gnu_pcrel32, elf_mips_gnu_rel16_s2, elf_mips_gnu_vtinherit_howto, elf_mips_gnu_vtentry_howto,
         elf_mips_copy_howto, elf_mips_jump_slot_howto])"
  by (simp add: bfd_elf32_bfd_reloc_name_lookup_def find_append split: option.split)

lemma has_name_unique:
  assumes "h \<in> set all_howtos" "g \<in> set all_howtos" "has_name s h" "has_name s g"
  shows "g = h"
proof -
  obtain m n where m: "h_name h = Some m" "strcaseeq m s" and n: "h_name g = Some n" "strcaseeq n s"
    using assms(3,4) by (auto simp: has_name_def split: option.splits)
  have "set m \<subseteq> set name_chars" "set n \<subseteq> set name_chars"
    using assms(1,2) upper_name_all m n by (fastforce simp: list_all_iff upper_name_def)+
  then have "m = n"
    using m n by (metis strcaseeq_def upper_lower_name)
  then show ?thesis
    using distinct_map_filter_eq [OF names_distinct assms(2,1)] m n by simp
qed

text \<open>
  Look-up by name is the inverse of naming: asked for the name of any entry of the
  howto tables, in any mixture of cases, \<^verbatim>\<open>bfd_elf32_bfd_reloc_name_lookup\<close> returns
  that entry, so no entry hides another one.
\<close>

theorem name_lookup_roundtrip:
  assumes "h \<in> set all_howtos" "h_name h = Some n" "strcaseeq n r_name"
  shows "bfd_elf32_bfd_reloc_name_lookup r_name = Some h"
proof -
  have "has_name r_name h"
    using assms by (simp add: has_name_def)
  moreover have "set all_howtos = set (elf_mips_howto_table_rel @ elf_mips16_howto_table_rel @ elf_micromips_howto_table_rel
      @ [elf_mips_gnu_pcrel32, elf_mips_gnu_rel16_s2, elf_mips_gnu_vtinherit_howto, elf_mips_gnu_vtentry_howto,
         elf_mips_copy_howto, elf_mips_jump_slot_howto])"
    by (auto simp: all_howtos_def single_howtos_def)
  ultimately show ?thesis
    unfolding name_lookup_find using assms(1) has_name_unique [OF assms(1)]
    by (intro find_unique) auto
qed

theorem name_lookup_roundtrip_witness:
  "bfd_elf32_bfd_reloc_name_lookup ''r_mips_Copy'' = Some elf_mips_copy_howto"
  by (rule name_lookup_roundtrip [of _ "''R_MIPS_COPY''"])
    (simp_all add: all_howtos_def single_howtos_def elf_mips_copy_howto_def HOWTO_def strcaseeq_def ascii_lower_def char_of_def bit_simps)

section \<open>Look-up by BFD code\<close>

lemma map_ranges:
  "list_all (\<lambda>(c, v). v < 52) mips_reloc_map" "list_all (\<lambda>(c, v). v < 13) mips16_reloc_map"
  "list_all (\<lambda>(c, v). v < 44) micromips_reloc_map"
  by (simp_all add: mips_reloc_map_def mips16_reloc_map_def micromips_reloc_map_def)

lemma rtype_to_howto_nth:
  "r < 52 \<Longrightarrow> mips_elf32_rtype_to_howto r = Some (elf_mips_howto_table_rel ! r)"
  "r < 13 \<Longrightarrow> mips_elf32_rtype_to_howto (100 + r) = Some (elf_mips16_howto_table_rel ! r)"
  "r < 44 \<Longrightarrow> mips_elf32_rtype_to_howto (130 + r) = Some (elf_micromips_howto_table_rel ! r)"
  by (auto simp: mips_elf32_rtype_to_howto_def)

lemma single_howto_lookup: "h \<in> set single_howtos \<Longrightarrow> mips_elf32_rtype_to_howto (h_type h) = Some h"
proof -
  have "h_type elf_mips_gnu_vtinherit_howto = R_MIPS_GNU_VTINHERIT" "h_type elf_mips_gnu_vtentry_howto = R_MIPS_GNU_VTENTRY"
    "h_type elf_mips_gnu_rel16_s2 = R_MIPS_GNU_REL16_S2" "h_type elf_mips_gnu_pcrel32 = R_MIPS_PC32"
    "h_type elf_mips_copy_howto = R_MIPS_COPY" "h_type elf_mips_jump_slot_howto = R_MIPS_JUMP_SLOT"
    by (simp_all add: single_howto_defs HOWTO_def)
  then show "h \<in> set single_howtos \<Longrightarrow> mips_elf32_rtype_to_howto (h_type h) = Some h"
    by (auto simp: single_howtos_def mips_elf32_rtype_to_howto_def)
qed

lemma type_lookup_cases:
  assumes "bfd_elf32_bfd_reloc_type_lookup e_flags code = Inr h" "code \<noteq> RELOCX BFD_RELOC_CTOR"
    and "\<And>v. v < 52 \<Longrightarrow> h = elf_mips_howto_table_rel ! v \<Longrightarrow> thesis"
    and "\<And>v. v < 13 \<Longrightarrow> h = elf_mips16_howto_table_rel ! v \<Longrightarrow> thesis"
    and "\<And>v. v < 44 \<Longrightarrow> h = elf_micromips_howto_table_rel ! v \<Longrightarrow> thesis"
    and "h \<in> set single_howtos \<Longrightarrow> thesis"
  shows thesis
proof (cases "map_of mips_reloc_map code")
  case (Some v)
  then show thesis
    using assms(1,3) map_of_all [OF map_ranges(1), of code v] by (auto simp: bfd_elf32_bfd_reloc_type_lookup_def)
next
  case n1: None
  show thesis
  proof (cases "map_of mips16_reloc_map code")
    case (Some v)
    then show thesis
      using n1 assms(1,4) map_of_all [OF map_ranges(2), of code v] by (auto simp: bfd_elf32_bfd_reloc_type_lookup_def)
  next
    case n2: None
    show thesis
    proof (cases "map_of micromips_reloc_map code")
      case (Some v)
      then show thesis
        using n1 n2 assms(1,5) map_of_all [OF map_ranges(3), of code v] by (auto simp: bfd_elf32_bfd_reloc_type_lookup_def)
    next
      case None
      then show thesis
        using n1 n2 assms(1,2,6)
        by (cases code) (simp_all add: bfd_elf32_bfd_reloc_type_lookup_def single_howtos_def split: extra_code.splits)
    qed
  qed
qed

text \<open>
  The two look-ups agree: the entry a BFD code names is the entry of its
  ELF relocation number.  (The constructor code of 64-bit ABIs is the
  exception: it has an entry of its own that borrows the number of
  \<^verbatim>\<open>R_MIPS_64\<close>.)
\<close>

theorem type_lookup_agrees:
  assumes "bfd_elf32_bfd_reloc_type_lookup e_flags code = Inr h" "code \<noteq> RELOCX BFD_RELOC_CTOR"
  shows "mips_elf32_rtype_to_howto (h_type h) = Some h"
  by (rule type_lookup_cases [OF assms]) (simp_all only: h_type_nth rtype_to_howto_nth single_howto_lookup)

theorem type_lookup_agrees_witness:
  "mips_elf32_rtype_to_howto (h_type (elf_mips16_howto_table_rel ! 4)) = Some (elf_mips16_howto_table_rel ! 4)"
  by (rule type_lookup_agrees [of 0 "RELOC16 BFD_RELOC_MIPS16_HI16_S"])
    (simp_all add: bfd_elf32_bfd_reloc_type_lookup_def mips_reloc_map_def mips16_reloc_map_def)

text \<open>
  The constructor relocation is meant to be as wide as an address of the
  ABI.  The flags are tested bit by bit although the ABI is a field of them, so
  the 32-bit embedded ABI, whose number shares a bit with the old 64-bit one,
  gets the 64-bit entry as well.
\<close>

theorem ctor_lookup:
  "bfd_elf32_bfd_reloc_type_lookup 0 (RELOCX BFD_RELOC_CTOR) = Inr (elf_mips_howto_table_rel ! R_MIPS_32)
   \<and> bfd_elf32_bfd_reloc_type_lookup E_MIPS_ABI_EABI64 (RELOCX BFD_RELOC_CTOR) = Inr elf_mips_ctor64_howto
   \<and> bfd_elf32_bfd_reloc_type_lookup E_MIPS_ABI_EABI32 (RELOCX BFD_RELOC_CTOR) = Inr elf_mips_ctor64_howto"
  by (simp add: bfd_elf32_bfd_reloc_type_lookup_def mips_reloc_map_def mips16_reloc_map_def micromips_reloc_map_def
      E_MIPS_ABI_O64_def E_MIPS_ABI_EABI32_def E_MIPS_ABI_EABI64_def)

text \<open>The codes of 64-bit thread-local data name table entries that are empty.\<close>

lemma type_lookup_empty:
  "bfd_elf32_bfd_reloc_type_lookup e_flags (RELOC BFD_RELOC_MIPS_TLS_DTPMOD64) = Inr (EMPTY_HOWTO R_MIPS_TLS_DTPMOD64)"
  "bfd_elf32_bfd_reloc_type_lookup e_flags (RELOC BFD_RELOC_MIPS_TLS_DTPREL64) = Inr (EMPTY_HOWTO R_MIPS_TLS_DTPREL64)"
  "bfd_elf32_bfd_reloc_type_lookup e_flags (RELOC BFD_RELOC_MIPS_TLS_TPREL64) = Inr (EMPTY_HOWTO R_MIPS_TLS_TPREL64)"
  by (simp_all add: bfd_elf32_bfd_reloc_type_lookup_def mips_reloc_map_def elf_mips_howto_table_rel_def howto_rel_defs)

end
