(* ===== verification/Arith.thy ===== *)
theory Arith
  imports Prelude
begin

text \<open>
  The arithmetic of relocation values (elfxx-mips.c): sign extension of an
  addend, the range check, and the split of an address into the pieces that a
  chain of immediate instructions puts together again.
\<close>

section \<open>Definitions\<close>

definition bfd_mips_elf_sign_extend :: "vma \<Rightarrow> nat \<Rightarrow> vma" where
  "bfd_mips_elf_sign_extend value bits =
     (if value AND push_bit (bits - 1) 1 \<noteq> 0 then value OR push_bit bits (- 1) else value)"

definition mips_elf_overflow_p :: "vma \<Rightarrow> nat \<Rightarrow> bool" where
  "mips_elf_overflow_p value bits =
     (let svalue = sint value
      in if svalue > 2 ^ (bits - 1) - 1 then True
         else if svalue < - (2 ^ (bits - 1)) then True
         else False)"

definition mips_elf_high :: "vma \<Rightarrow> vma" where
  "mips_elf_high value = drop_bit 16 (value + 0x8000) AND 0xffff"

definition mips_elf_higher :: "vma \<Rightarrow> vma" where
  "mips_elf_higher value = drop_bit 32 (value + 0x80008000) AND 0xffff"

definition mips_elf_highest :: "vma \<Rightarrow> vma" where
  "mips_elf_highest value = drop_bit 48 (value + (push_bit 32 0x8000 OR 0x80008000)) AND 0xffff"

section \<open>Sign extension and range check\<close>

lemma and_exp_eq_0_iff: "(w::vma) AND 2 ^ k = 0 \<longleftrightarrow> \<not> bit w k"
proof
  show "\<not> bit w k" if "w AND 2 ^ k = 0"
  proof
    assume "bit w k"
    moreover from this have "k < 64"
      using bit_imp_le_length [of w k] by simp
    ultimately have "bit (w AND 2 ^ k) k"
      by (simp add: bit_and_iff bit_exp_iff)
    with that show False
      by simp
  qed
qed (auto intro!: bit_word_eqI simp: bit_simps)

lemma sign_extend_eq:
  assumes "0 < bits"
  shows "bfd_mips_elf_sign_extend value bits
       = (if bit value (bits - 1) then signed_take_bit (bits - 1) value else value)"
proof (cases "bit value (bits - 1)")
  case True
  have "value OR push_bit bits (- 1) = signed_take_bit (bits - 1) value"
  proof (rule bit_word_eqI)
    fix n assume "n < LENGTH(64)"
    then show "bit (value OR push_bit bits (- 1)) n = bit (signed_take_bit (bits - 1) value) n"
      using True assms by (cases "n = bits - 1"; cases "n < bits") (auto simp: bit_simps)
  qed
  then show ?thesis
    using True by (simp add: bfd_mips_elf_sign_extend_def and_exp_eq_0_iff)
qed (simp add: bfd_mips_elf_sign_extend_def and_exp_eq_0_iff)

lemma sign_extend_of_field:
  assumes "0 < bits" "take_bit bits value = value"
  shows "bfd_mips_elf_sign_extend value bits = signed_take_bit (bits - 1) value"
proof (cases "bit value (bits - 1)")
  case False
  then have "signed_take_bit (bits - 1) value = take_bit (bits - 1) value"
    by (simp add: signed_take_bit_eq_if_positive)
  also have "\<dots> = value"
  proof (rule bit_word_eqI)
    fix n assume "n < LENGTH(64)"
    show "bit (take_bit (bits - 1) value) n = bit value n"
      using False high_bits_clear [OF assms(2), of n] assms(1)
      by (cases "n = bits - 1"; cases "n < bits") (auto simp: bit_simps)
  qed
  finally show ?thesis
    using False assms(1) by (simp add: sign_extend_eq)
qed (use assms(1) in \<open>simp add: sign_extend_eq\<close>)

lemma sint_signed_take_bit:
  fixes v :: vma
  assumes "n < 64"
  shows "sint (signed_take_bit n v) = signed_take_bit n (sint v)"
proof (rule bit_eqI)
  fix m
  show "bit (sint (signed_take_bit n v)) m = bit (signed_take_bit n (sint v)) m"
    using assms by (cases "n \<le> m"; cases "63 \<le> m"; cases "n = 63") (auto simp: bit_simps min_def)
qed

text \<open>
  Sign extension gives the number the field stands for: for an addend that
  fits in its field, \<^verbatim>\<open>_bfd_mips_elf_sign_extend\<close> yields the 64-bit value that,
  read as a signed number, is the field read in two's complement.
\<close>

theorem sign_extend_value:
  assumes "0 < bits" "bits \<le> 64" "take_bit bits value = value"
  shows "sint (bfd_mips_elf_sign_extend value bits) = signed_take_bit (bits - 1) (uint value)"
  using assms by (simp add: sign_extend_of_field sint_signed_take_bit) (simp add: sint_uint)

theorem sign_extend_value_witness: "sint (bfd_mips_elf_sign_extend 0xfffe 16) = -2"
  using sign_extend_value [of 16 "0xfffe"] by simp

lemma overflow_p_iff: "mips_elf_overflow_p value bits \<longleftrightarrow> sint value < - (2 ^ (bits - 1)) \<or> 2 ^ (bits - 1) \<le> sint value"
  by (auto simp: mips_elf_overflow_p_def)

lemma signed_take_bit_id_iff:
  fixes k :: int
  shows "signed_take_bit n k = k \<longleftrightarrow> - (2 ^ n) \<le> k \<and> k < 2 ^ n"
  by (metis signed_take_bit_int_eq_self signed_take_bit_int_greater_eq_minus_exp signed_take_bit_int_less_exp)

lemma sint_eq_iff: "sint (v::vma) = sint w \<longleftrightarrow> v = w"
  by (auto intro: signed_word_eqI)

text \<open>
  The range check is exact: \<^verbatim>\<open>mips_elf_overflow_p\<close> reports an overflow exactly
  when storing the low bits of the value in the field and extending them back
  would not give the value again.
\<close>

theorem overflow_p_exact:
  assumes "0 < bits" "bits < 32"
  shows "mips_elf_overflow_p value bits \<longleftrightarrow> bfd_mips_elf_sign_extend (take_bit bits value) bits \<noteq> value"
proof -
  have "bfd_mips_elf_sign_extend (take_bit bits value) bits = signed_take_bit (bits - 1) value"
    using assms(1) by (auto simp: sign_extend_of_field signed_take_bit_take_bit)
  moreover have "signed_take_bit (bits - 1) value = value \<longleftrightarrow> signed_take_bit (bits - 1) (sint value) = sint value"
    using assms by (simp flip: sint_eq_iff add: sint_signed_take_bit)
  ultimately show ?thesis
    by (auto simp: overflow_p_iff signed_take_bit_id_iff)
qed

theorem overflow_p_exact_witness:
  "mips_elf_overflow_p 0x8000 16 \<and> bfd_mips_elf_sign_extend (take_bit 16 0x8000) 16 \<noteq> 0x8000"
  using overflow_p_exact [of 16 "0x8000"] by (simp add: mips_elf_overflow_p_def)

section \<open>The pieces of an address\<close>

text \<open>
  A chain of immediate instructions builds an address from 16-bit pieces:
  each instruction shifts what it has by 16 bits and adds a sign-extended
  immediate.  This is the value such a chain leaves in a 64-bit register.
\<close>

definition sext16 :: "vma \<Rightarrow> vma" where
  "sext16 v = signed_take_bit 15 v"

definition chain16 :: "vma list \<Rightarrow> vma" where
  "chain16 pieces = foldl (\<lambda>acc piece. push_bit 16 acc + sext16 piece) 0 pieces"

lemma sext16_of_int: "sext16 v = word_of_int (signed_take_bit 15 (uint v))"
  unfolding sext16_def by (rule bit_word_eqI) (auto simp: bit_simps bit_word_of_int_iff)

lemma uint_piece:
  fixes v :: vma
  assumes "k \<le> 48"
  shows "uint (drop_bit k (v + word_of_int c) AND 0xffff) = ((uint v + c) div 2 ^ k) mod 2 ^ 16"
proof -
  have "v + word_of_int c = word_of_int (uint v + c)"
    by simp
  then have "uint (v + word_of_int c) = take_bit 64 (uint v + c)"
    by (simp only: uint_word_of_int_eq) simp
  then have "uint (drop_bit k (v + word_of_int c) AND 0xffff) = take_bit 16 (drop_bit k (take_bit 64 (uint v + c)))"
    by (simp add: bit_masks unsigned_take_bit_eq unsigned_drop_bit_eq)
  also have "\<dots> = take_bit 16 (drop_bit k (uint v + c))"
    using assms by (simp add: drop_bit_take_bit)
  finally show ?thesis
    by (simp add: take_bit_eq_mod drop_bit_eq_div)
qed

lemma signed_step: "signed_take_bit 15 k + 2 ^ 16 * ((k + 2 ^ 15) div 2 ^ 16) = (k::int)"
proof -
  have "signed_take_bit 15 k = (k + 2 ^ 15) mod 2 ^ 16 - 2 ^ 15"
    by (simp add: signed_take_bit_eq_take_bit_shift take_bit_eq_mod)
  with mult_div_mod_eq [of "2 ^ 16" "k + 2 ^ 15"] show ?thesis
    by linarith
qed

lemma div_add_div:
  fixes x :: int
  assumes "0 < m" "0 < n"
  shows "(x div m + c) div n = (x + c * m) div (m * n)"
  using assms by (simp add: zdiv_zmult2_eq add.commute)

lemma sum_of_steps:
  fixes a :: int
  assumes "s0 + 2 ^ 16 * a1 = a" "s1 + 2 ^ 16 * a2 = a1" "s2 + 2 ^ 16 * a3 = a2" "s3 + 2 ^ 16 * t = a3"
  shows "2 ^ 48 * s3 + 2 ^ 32 * s2 + 2 ^ 16 * s1 + s0 = a - 2 ^ 64 * t"
  unfolding assms [symmetric] by (simp add: algebra_simps)

lemma word_of_int_minus_multiple: "word_of_int (a - 2 ^ 64 * t) = (word_of_int a :: vma)"
  by (simp only: word_of_int_eq_iff take_bit_eq_mod mod_eq_dvd_iff) simp

lemma split_digit:
  fixes a :: int
  assumes "2 ^ 16 * q + r = a1" "s + 2 ^ 16 * a1 = a"
  shows "2 ^ 16 * r + s = a - 2 ^ 32 * q"
  unfolding assms [symmetric] by (simp add: algebra_simps)

lemma chain16_4: "chain16 [p3, p2, p1, p0] = 2 ^ 48 * sext16 p3 + 2 ^ 32 * sext16 p2 + 2 ^ 16 * sext16 p1 + sext16 p0"
  by (simp add: chain16_def push_bit_eq_mult distrib_left)

lemma signed_mod: "signed_take_bit 15 (k mod 65536) = signed_take_bit 15 (k::int)"
  by (simp add: signed_take_bit_eq_take_bit_shift take_bit_eq_mod mod_add_left_eq)

text \<open>
  An address is the sum of its pieces: loading \<^verbatim>\<open>%highest\<close>, \<^verbatim>\<open>%higher\<close>,
  \<^verbatim>\<open>%high\<close> and the low halfword with instructions that sign-extend each
  immediate leaves the address itself, for every 64-bit address.
\<close>

theorem chain16_address:
  "chain16 [mips_elf_highest value, mips_elf_higher value, mips_elf_high value, value AND 0xffff] = value"
proof -
  define a where "a = uint value"
  define a1 where "a1 = (a + 2 ^ 15) div 2 ^ 16"
  define a2 where "a2 = (a1 + 2 ^ 15) div 2 ^ 16"
  define a3 where "a3 = (a2 + 2 ^ 15) div 2 ^ 16"
  have a2': "a2 = (a + 0x80008000) div 2 ^ 32" and a3': "a3 = (a + 0x800080008000) div 2 ^ 48"
    by (simp_all add: a1_def a2_def a3_def div_add_div)
  have pieces: "uint (mips_elf_high value) = a1 mod 2 ^ 16"
    using uint_piece [of 16 "value" "0x8000"] by (simp add: mips_elf_high_def a_def a1_def)
  have pieces': "uint (mips_elf_higher value) = a2 mod 2 ^ 16"
    unfolding a2' using uint_piece [of 32 "value" "0x80008000"] by (simp add: mips_elf_higher_def a_def)
  have pieces'': "uint (mips_elf_highest value) = a3 mod 2 ^ 16"
    unfolding a3' using uint_piece [of 48 "value" "0x800080008000"] by (simp add: mips_elf_highest_def a_def)
  have low: "uint (value AND 0xffff) = a mod 2 ^ 16"
    using uint_piece [of 0 "value" 0] by (simp add: a_def)
  have steps: "signed_take_bit 15 a + 2 ^ 16 * a1 = a" "signed_take_bit 15 a1 + 2 ^ 16 * a2 = a1"
    "signed_take_bit 15 a2 + 2 ^ 16 * a3 = a2" "signed_take_bit 15 a3 + 2 ^ 16 * ((a3 + 2 ^ 15) div 2 ^ 16) = a3"
    unfolding a1_def a2_def a3_def by (rule signed_step)+
  have "chain16 [mips_elf_highest value, mips_elf_higher value, mips_elf_high value, value AND 0xffff]
      = word_of_int (2 ^ 48 * signed_take_bit 15 a3 + 2 ^ 32 * signed_take_bit 15 a2
          + 2 ^ 16 * signed_take_bit 15 a1 + signed_take_bit 15 a)"
    by (simp add: chain16_4 sext16_of_int pieces pieces' pieces'' low signed_mod)
  also have "\<dots> = word_of_int (a - 2 ^ 64 * ((a3 + 2 ^ 15) div 2 ^ 16))"
    by (simp only: sum_of_steps [OF steps])
  also have "\<dots> = word_of_int a"
    by (rule word_of_int_minus_multiple)
  also have "\<dots> = value"
    unfolding a_def by (rule word_of_int_uint)
  finally show ?thesis .
qed

text \<open>In a 32-bit register the two pieces of a pair of instructions are enough.\<close>

lemma chain16_32:
  "take_bit 32 (push_bit 16 (mips_elf_high value) + sext16 (value AND 0xffff)) = take_bit 32 value"
proof -
  define a where "a = uint value"
  define a1 where "a1 = (a + 2 ^ 15) div 2 ^ 16"
  have "uint (mips_elf_high value) = a1 mod 2 ^ 16" "uint (value AND 0xffff) = a mod 2 ^ 16"
    using uint_piece [of 16 "value" "0x8000"] uint_piece [of 0 "value" 0] by (simp_all add: mips_elf_high_def a_def a1_def)
  then have "mips_elf_high value = word_of_int (a1 mod 2 ^ 16)" "sext16 (value AND 0xffff) = word_of_int (signed_take_bit 15 a)"
    by (metis word_of_int_uint) (simp add: sext16_of_int signed_mod \<open>uint (value AND 0xffff) = a mod 2 ^ 16\<close>)
  then have "push_bit 16 (mips_elf_high value) + sext16 (value AND 0xffff)
      = word_of_int (2 ^ 16 * (a1 mod 2 ^ 16) + signed_take_bit 15 a)"
    by (simp add: push_bit_eq_mult)
  also have "2 ^ 16 * (a1 mod 2 ^ 16) + signed_take_bit 15 a = a - 2 ^ 32 * (a1 div 2 ^ 16)"
    by (rule split_digit [OF _ signed_step [of a, folded a1_def]]) simp
  finally have eq: "push_bit 16 (mips_elf_high value) + sext16 (value AND 0xffff)
      = word_of_int (a - 2 ^ 32 * (a1 div 2 ^ 16))" .
  have "take_bit 32 (a - 2 ^ 32 * (a1 div 2 ^ 16)) = take_bit 32 a"
    by (simp only: take_bit_eq_mod mod_eq_dvd_iff) simp
  then have "uint (take_bit 32 (word_of_int (a - 2 ^ 32 * (a1 div 2 ^ 16)) :: vma)) = uint (take_bit 32 value)"
    by (simp only: unsigned_take_bit_eq uint_word_of_int_eq) (simp add: a_def)
  then show ?thesis
    unfolding eq by (rule word_uint_eqI)
qed

end
