(* ===== verification/Objects.thy ===== *)
theory Objects
  imports Bytes Relocs
begin

text \<open>
  The objects of libbfd that the MIPS back end reads: BFDs, sections,
  relocation records and the link options, as records of the fields the
  modelled code uses.  A C pointer to a section or a BFD is the record itself;
  its identity is its \<^verbatim>\<open>id\<close> field.  Sections carry a set of flags, because
  only membership is ever tested; header flags are 32-bit words with the
  values of sbt-sysheaders/include/elf.h.
\<close>

section \<open>Header flags\<close>

type_synonym flagword = "32 word"

definition EF_MIPS_NOREORDER :: flagword where "EF_MIPS_NOREORDER = 0x1"
definition EF_MIPS_PIC :: flagword where "EF_MIPS_PIC = 0x2"
definition EF_MIPS_CPIC :: flagword where "EF_MIPS_CPIC = 0x4"
definition EF_MIPS_ABI2 :: flagword where "EF_MIPS_ABI2 = 0x20"
definition EF_MIPS_32BITMODE :: flagword where "EF_MIPS_32BITMODE = 0x100"
definition EF_MIPS_ARCH :: flagword where "EF_MIPS_ARCH = 0xf0000000"
definition EF_MIPS_MACH :: flagword where "EF_MIPS_MACH = 0x00ff0000"

lemmas ef_defs = EF_MIPS_NOREORDER_def EF_MIPS_PIC_def EF_MIPS_CPIC_def EF_MIPS_ABI2_def
  EF_MIPS_32BITMODE_def EF_MIPS_ARCH_def EF_MIPS_MACH_def

section \<open>BFDs and sections\<close>

datatype irix_compat_t = ict_none | ict_irix5 | ict_irix6

record bfd =
  bfd_id :: nat
  bfd_xvec :: xvec
  bfd_big_endian :: bool
  e_flags :: flagword
  elfclass64 :: bool
  irix_compat :: irix_compat_t
  gp_value :: vma

datatype sec_flag =
  SEC_ALLOC | SEC_LOAD | SEC_READONLY | SEC_CODE | SEC_DATA | SEC_MERGE | SEC_RELOC
  | SEC_HAS_CONTENTS | SEC_LINKER_CREATED | SEC_EXCLUDE | SEC_IS_COMMON | SEC_KEEP | SEC_DEBUGGING

record out_section =
  osec_id :: nat
  osec_name :: string
  osec_vma :: vma

record asection =
  sec_id :: nat
  sec_name :: string
  sec_flags :: "sec_flag set"
  sec_size :: vma
  output_section :: "out_section option"
  output_offset :: vma

text \<open>The address of a section in the output; the C code dereferences \<^verbatim>\<open>output_section\<close>.\<close>

definition section_address :: "asection \<Rightarrow> vma" where
  "section_address sec = osec_vma (the (output_section sec)) + output_offset sec"

section \<open>Macros on BFDs and sections\<close>

definition E_MIPS_MACH_9000 :: flagword where "E_MIPS_MACH_9000 = 0x00990000"

definition JAL_TO_BAL_P :: "bfd \<Rightarrow> bool" where
  "JAL_TO_BAL_P abfd \<longleftrightarrow> e_flags abfd AND EF_MIPS_MACH = E_MIPS_MACH_9000"

definition JALR_TO_BAL_P :: "bfd \<Rightarrow> bool" where
  "JALR_TO_BAL_P abfd \<longleftrightarrow> True"

definition JR_TO_B_P :: "bfd \<Rightarrow> bool" where
  "JR_TO_B_P abfd \<longleftrightarrow> True"

definition PIC_OBJECT_P :: "bfd \<Rightarrow> bool" where
  "PIC_OBJECT_P abfd \<longleftrightarrow> e_flags abfd AND EF_MIPS_PIC \<noteq> 0"

definition ABI_N32_P :: "bfd \<Rightarrow> bool" where
  "ABI_N32_P abfd \<longleftrightarrow> e_flags abfd AND EF_MIPS_ABI2 \<noteq> 0"

definition ABI_64_P :: "bfd \<Rightarrow> bool" where
  "ABI_64_P abfd \<longleftrightarrow> elfclass64 abfd"

definition NEWABI_P :: "bfd \<Rightarrow> bool" where
  "NEWABI_P abfd \<longleftrightarrow> ABI_N32_P abfd \<or> ABI_64_P abfd"

definition SGI_COMPAT :: "bfd \<Rightarrow> bool" where
  "SGI_COMPAT abfd \<longleftrightarrow> irix_compat abfd \<noteq> ict_none"

definition MIPS_ELF_READONLY_SECTION :: "asection \<Rightarrow> bool" where
  "MIPS_ELF_READONLY_SECTION sec \<longleftrightarrow> {SEC_ALLOC, SEC_LOAD, SEC_READONLY} \<subseteq> sec_flags sec"

definition MIPS_ELF_GOT_SIZE :: "bfd \<Rightarrow> nat" where
  "MIPS_ELF_GOT_SIZE abfd = (if ABI_64_P abfd then 64 else 32) div 8"

definition MIPS_ELF_GET_WORD :: "bfd \<Rightarrow> bytes \<Rightarrow> nat \<Rightarrow> vma" where
  "MIPS_ELF_GET_WORD abfd data off =
     (if ABI_64_P abfd then bfd_get_64 (bfd_xvec abfd) data off else bfd_get_32 (bfd_xvec abfd) data off)"

definition MIPS_ELF_PUT_WORD :: "bfd \<Rightarrow> vma \<Rightarrow> bytes \<Rightarrow> nat \<Rightarrow> bytes" where
  "MIPS_ELF_PUT_WORD abfd val data off =
     (if ABI_64_P abfd then bfd_put_64 (bfd_xvec abfd) val data off else bfd_put_32 (bfd_xvec abfd) val data off)"

text \<open>A word store in the GOT is read back, and leaves the other words alone.\<close>

lemma got_size_cases: "MIPS_ELF_GOT_SIZE abfd = 4 \<or> MIPS_ELF_GOT_SIZE abfd = 8"
  by (simp add: MIPS_ELF_GOT_SIZE_def)

lemma put_word_length:
  assumes "xvec_ok (bfd_xvec abfd)" "off + MIPS_ELF_GOT_SIZE abfd \<le> length data"
  shows "length (MIPS_ELF_PUT_WORD abfd v data off) = length data"
  using assms by (simp add: MIPS_ELF_PUT_WORD_def MIPS_ELF_GOT_SIZE_def bytes_simps split: if_splits)

lemma get_put_word:
  assumes "xvec_ok (bfd_xvec abfd)" "off + MIPS_ELF_GOT_SIZE abfd \<le> length data"
  shows "MIPS_ELF_GET_WORD abfd (MIPS_ELF_PUT_WORD abfd v data off) off = take_bit (8 * MIPS_ELF_GOT_SIZE abfd) v"
  using assms
  by (simp add: MIPS_ELF_GET_WORD_def MIPS_ELF_PUT_WORD_def MIPS_ELF_GOT_SIZE_def bytes_simps
      take_bit_word_eq_self split: if_splits)

lemma get_put_word_other:
  assumes "xvec_ok (bfd_xvec abfd)" "off + MIPS_ELF_GOT_SIZE abfd \<le> length data"
    and "off' + MIPS_ELF_GOT_SIZE abfd \<le> length data"
    and "off + MIPS_ELF_GOT_SIZE abfd \<le> off' \<or> off' + MIPS_ELF_GOT_SIZE abfd \<le> off"
  shows "MIPS_ELF_GET_WORD abfd (MIPS_ELF_PUT_WORD abfd v data off) off' = MIPS_ELF_GET_WORD abfd data off'"
  using assms byte_codec.get_put_other [OF xvec_ok32 [OF assms(1)]] byte_codec.get_put_other [OF xvec_ok64 [OF assms(1)]]
  by (simp add: MIPS_ELF_GET_WORD_def MIPS_ELF_PUT_WORD_def MIPS_ELF_GOT_SIZE_def accessor_defs split: if_splits)

lemmas abi_defs = JAL_TO_BAL_P_def JALR_TO_BAL_P_def JR_TO_B_P_def PIC_OBJECT_P_def ABI_N32_P_def ABI_64_P_def
  NEWABI_P_def SGI_COMPAT_def

section \<open>Relocation records\<close>

record elf_rela =
  r_offset :: vma
  r_info :: vma
  r_addend :: vma

definition ELF_R_SYM :: "bfd \<Rightarrow> vma \<Rightarrow> nat" where
  "ELF_R_SYM abfd i = unat (if ABI_64_P abfd then drop_bit 32 i else drop_bit 8 i)"

definition ELF_R_TYPE :: "bfd \<Rightarrow> vma \<Rightarrow> r_type" where
  "ELF_R_TYPE abfd i = unat (i AND 0xff)"

definition ELF_R_INFO :: "bfd \<Rightarrow> nat \<Rightarrow> r_type \<Rightarrow> vma" where
  "ELF_R_INFO abfd s t =
     (if ABI_64_P abfd then push_bit 32 (of_nat s) + of_nat t else push_bit 8 (of_nat s) + (of_nat t AND 0xff))"

text \<open>A BFD of the two byte orders, for examples.\<close>

definition le_bfd :: bfd where
  "le_bfd = \<lparr>bfd_id = 0, bfd_xvec = le_xvec, bfd_big_endian = False, e_flags = 0, elfclass64 = False,
     irix_compat = ict_none, gp_value = 0\<rparr>"

definition be_bfd :: bfd where
  "be_bfd = \<lparr>bfd_id = 1, bfd_xvec = be_xvec, bfd_big_endian = True, e_flags = 0, elfclass64 = False,
     irix_compat = ict_none, gp_value = 0\<rparr>"

end
