(* ===== verification/Perform.thy ===== *)
theory Perform
  imports Objects Shuffle Howto Arith
begin

text \<open>
  Reading the field of a relocation and storing its value
  (\<^verbatim>\<open>mips_elf_obtain_contents\<close>, \<^verbatim>\<open>mips_elf_read_rel_addend\<close>,
  \<^verbatim>\<open>mips_elf_add_lo16_rel_addend\<close>, \<^verbatim>\<open>mips_elf_perform_relocation\<close> of elfxx-mips.c).

  An access of a width libbfd does not have is an abort, \<^verbatim>\<open>None\<close>; an error
  return is \<^verbatim>\<open>Inl\<close>.
\<close>

section \<open>The field in the section contents\<close>

text \<open>The size codes as the tables document them: 0 a byte, 1 a short, 2 a long, 4 eight bytes.\<close>

definition bfd_get_reloc_size :: "reloc_howto \<Rightarrow> nat" where
  "bfd_get_reloc_size howto =
     (if h_size howto = 0 then 1 else if h_size howto = 1 then 2 else if h_size howto = 2 then 4
      else if h_size howto = 4 then 8 else 0)"

definition bfd_get :: "nat \<Rightarrow> xvec \<Rightarrow> bytes \<Rightarrow> nat \<Rightarrow> vma option" where
  "bfd_get bits t data off =
     (if bits = 8 then Some (ucast (data ! off))
      else if bits = 16 then Some (bfd_get_16 t data off)
      else if bits = 32 then Some (bfd_get_32 t data off)
      else if bits = 64 then Some (bfd_get_64 t data off)
      else None)"

definition bfd_put :: "nat \<Rightarrow> xvec \<Rightarrow> vma \<Rightarrow> bytes \<Rightarrow> nat \<Rightarrow> bytes option" where
  "bfd_put bits t v data off =
     (if bits = 8 then Some (data[off := ucast v])
      else if bits = 16 then Some (bfd_put_16 t v data off)
      else if bits = 32 then Some (bfd_put_32 t v data off)
      else if bits = 64 then Some (bfd_put_64 t v data off)
      else None)"

definition mips_elf_obtain_contents :: "reloc_howto \<Rightarrow> elf_rela \<Rightarrow> bfd \<Rightarrow> bytes \<Rightarrow> vma option" where
  "mips_elf_obtain_contents howto relocation input_bfd contents =
     bfd_get (8 * bfd_get_reloc_size howto) (bfd_xvec input_bfd) contents (unat (r_offset relocation))"

section \<open>Reading addends\<close>

text \<open>
  \<^verbatim>\<open>mips_elf_read_rel_addend\<close> unshuffles the instruction in place and shuffles
  it again, so it returns the contents as well.
\<close>

definition mips_elf_read_rel_addend :: "bfd \<Rightarrow> elf_rela \<Rightarrow> reloc_howto \<Rightarrow> bytes \<Rightarrow> (vma \<times> bytes) option" where
  "mips_elf_read_rel_addend abfd rel howto contents =
     (let r_type = ELF_R_TYPE abfd (r_info rel);
          location = unat (r_offset rel);
          contents = bfd_mips_elf_reloc_unshuffle (bfd_xvec abfd) r_type False contents location
      in case mips_elf_obtain_contents howto rel abfd contents of
           None \<Rightarrow> None
         | Some addend \<Rightarrow>
             Some (addend AND src_mask howto,
                   bfd_mips_elf_reloc_shuffle (bfd_xvec abfd) r_type False contents location))"

fun mips_elf_next_relocation :: "bfd \<Rightarrow> r_type \<Rightarrow> nat \<Rightarrow> elf_rela list \<Rightarrow> elf_rela option" where
  "mips_elf_next_relocation abfd r_type r_symndx [] = None"
| "mips_elf_next_relocation abfd r_type r_symndx (rel # rels) =
     (if ELF_R_TYPE abfd (r_info rel) = r_type \<and> ELF_R_SYM abfd (r_info rel) = r_symndx then Some rel
      else mips_elf_next_relocation abfd r_type r_symndx rels)"

definition lo16_type_of :: "r_type \<Rightarrow> r_type" where
  "lo16_type_of r_type =
     (if mips16_reloc_p r_type then R_MIPS16_LO16
      else if micromips_reloc_p r_type then R_MICROMIPS_LO16
      else R_MIPS_LO16)"

text \<open>
  The relocations from \<^verbatim>\<open>rel\<close> to the end are the list \<^verbatim>\<open>rel # rels\<close>.  The result is
  \<^verbatim>\<open>None\<close> on an abort, otherwise whether the LO16 partner was found, the new addend
  and the contents.
\<close>

definition mips_elf_add_lo16_rel_addend ::
  "bfd \<Rightarrow> elf_rela \<Rightarrow> elf_rela list \<Rightarrow> bytes \<Rightarrow> vma \<Rightarrow> (bool \<times> vma \<times> bytes) option" where
  "mips_elf_add_lo16_rel_addend abfd rel rels contents addend =
     (let r_type = ELF_R_TYPE abfd (r_info rel);
          lo16_type = lo16_type_of r_type
      in case mips_elf_next_relocation abfd lo16_type (ELF_R_SYM abfd (r_info rel)) (rel # rels) of
           None \<Rightarrow> Some (False, addend, contents)
         | Some lo16_relocation \<Rightarrow>
        (case mips_elf32_rtype_to_howto lo16_type of
           None \<Rightarrow> None
         | Some lo16_howto \<Rightarrow>
        (case mips_elf_read_rel_addend abfd lo16_relocation lo16_howto contents of
           None \<Rightarrow> None
         | Some (l, contents) \<Rightarrow>
             let l = push_bit (rightshift lo16_howto) l;
                 l = bfd_mips_elf_sign_extend l 16
             in Some (True, push_bit 16 addend + l, contents))))"

section \<open>Storing the value\<close>

text \<open>The opcode check of a jump between instruction sets: is it JAL or JALX, and the JALX opcode.\<close>

definition jalx_opcode_of :: "r_type \<Rightarrow> vma \<Rightarrow> bool \<times> vma" where
  "jalx_opcode_of r_type opcode =
     (if r_type = R_MIPS16_26 then (opcode = 0x6 \<or> opcode = 0x7, 0x7)
      else if r_type = R_MICROMIPS_26_S1 then (opcode = 0x3d \<or> opcode = 0x3c, 0x3c)
      else (opcode = 0x3 \<or> opcode = 0x1d, 0x1d))"

text \<open>
  The conversion of a call or a jump through a register to a branch, when the
  target is near; \<^verbatim>\<open>off\<close> is signed.
\<close>

definition branch_conversion ::
  "bool \<Rightarrow> bool \<Rightarrow> bfd \<Rightarrow> r_type \<Rightarrow> asection \<Rightarrow> vma \<Rightarrow> vma \<Rightarrow> vma \<Rightarrow> vma" where
  "branch_conversion relocatable cross_mode_jump_p input_bfd r_type input_section r_offset' value x =
     (if \<not> relocatable \<and> \<not> cross_mode_jump_p
         \<and> ((JAL_TO_BAL_P input_bfd \<and> r_type = R_MIPS_26 \<and> drop_bit 26 x = 0x3)
            \<or> (JALR_TO_BAL_P input_bfd \<and> r_type = R_MIPS_JALR \<and> x = 0x0320f809)
            \<or> (JR_TO_B_P input_bfd \<and> r_type = R_MIPS_JALR \<and> x = 0x03200008))
      then
        let addr = section_address input_section + r_offset' + 4;
            dest = (if r_type = R_MIPS_26 then push_bit 2 value OR push_bit 28 (drop_bit 28 addr) else value);
            off = dest - addr
        in if sint off \<le> 0x1ffff \<and> - 0x20000 \<le> sint off
           then (if x = 0x03200008 then 0x10000000 OR (drop_bit 2 off AND 0xffff)
                 else 0x04110000 OR (drop_bit 2 off AND 0xffff))
           else x
      else x)"

definition mips_elf_perform_relocation ::
  "bool \<Rightarrow> reloc_howto \<Rightarrow> elf_rela \<Rightarrow> vma \<Rightarrow> bfd \<Rightarrow> asection \<Rightarrow> bytes \<Rightarrow> bool \<Rightarrow> (bfd_error + bytes) option" where
  "mips_elf_perform_relocation relocatable howto relocation value input_bfd input_section contents cross_mode_jump_p =
     (let r_type = ELF_R_TYPE input_bfd (r_info relocation);
          location = unat (r_offset relocation);
          contents = bfd_mips_elf_reloc_unshuffle (bfd_xvec input_bfd) r_type False contents location
      in case mips_elf_obtain_contents howto relocation input_bfd contents of
           None \<Rightarrow> None
         | Some x \<Rightarrow>
             let x = x AND NOT (dst_mask howto);
                 x = x OR (value AND dst_mask howto);
                 (ok, jalx_opcode) = jalx_opcode_of r_type (drop_bit 26 x)
             in if cross_mode_jump_p \<and> jal_reloc_p r_type \<and> \<not> ok then Some (Inl bfd_error_bad_value)
                else
                  let x = (if cross_mode_jump_p \<and> jal_reloc_p r_type
                           then (x AND 0x3ffffff) OR push_bit 26 jalx_opcode else x);
                      x = branch_conversion relocatable cross_mode_jump_p input_bfd r_type input_section
                            (r_offset relocation) value x
                  in case bfd_put (8 * bfd_get_reloc_size howto) (bfd_xvec input_bfd) x contents location of
                       None \<Rightarrow> None
                     | Some contents \<Rightarrow>
                         Some (Inr (bfd_mips_elf_reloc_shuffle (bfd_xvec input_bfd) r_type (\<not> relocatable)
                                      contents location)))"

section \<open>Widths\<close>

lemma bfd_get_put_size:
  assumes "xvec_ok t" "n \<in> {1, 2, 4, 8}" "off + n \<le> length data"
  shows "\<exists>data'. bfd_put (8 * n) t v data off = Some data' \<and> length data' = length data
    \<and> bfd_get (8 * n) t data' off = Some (take_bit (8 * n) v)
    \<and> (\<forall>i < length data. i < off \<or> off + n \<le> i \<longrightarrow> data' ! i = data ! i)"
proof -
  have b: "ucast (ucast v :: bfd_byte) = take_bit 8 v"
    by (rule bit_word_eqI) (auto simp: bit_simps)
  consider "n = 1" | "n = 2" | "n = 4" | "n = 8"
    using assms(2) by blast
  then show ?thesis
  proof cases
    case 1
    then show ?thesis
      using assms(3) b by (simp add: bfd_put_def bfd_get_def)
  next
    case 2
    then show ?thesis
      using assms(3) bfd_put_frame(1) [OF assms(1), of off data]
      by (simp add: bfd_put_def bfd_get_def bfd_get_put(1) [OF assms(1)] length_bfd_put(1) [OF assms(1)])
  next
    case 3
    then show ?thesis
      using assms(3) bfd_put_frame(2) [OF assms(1), of off data]
      by (simp add: bfd_put_def bfd_get_def bfd_get_put(2) [OF assms(1)] length_bfd_put(2) [OF assms(1)])
  next
    case 4
    then show ?thesis
      using assms(3) bfd_put_frame(3) [OF assms(1), of off data]
      by (simp add: bfd_put_def bfd_get_def bfd_get_put(3) [OF assms(1)] length_bfd_put(3) [OF assms(1)]
          take_bit_word_eq_self)
  qed
qed

definition sized :: "reloc_howto \<Rightarrow> bool" where
  "sized h \<longleftrightarrow> h_size h \<in> {0, 1, 2, 4} \<and> (mips16_reloc_p (h_type h) \<longrightarrow> h_size h = 2)"

lemma sized_tables:
  "list_all sized elf_mips_howto_table_rel" "list_all sized elf_mips16_howto_table_rel"
  "list_all sized elf_micromips_howto_table_rel" "list_all sized single_howtos"
  by (simp_all add: table_eval sized_def mips16_reloc_p_range)

lemma reloc_size_cases:
  assumes "mips_elf32_rtype_to_howto r_type = Some h"
  shows "bfd_get_reloc_size h \<in> {1, 2, 4, 8}" "mips16_reloc_p r_type \<Longrightarrow> bfd_get_reloc_size h = 4"
  using rtype_to_howto_all [OF assms sized_tables] rtype_to_howto_type [OF assms]
  by (auto simp: sized_def bfd_get_reloc_size_def)

section \<open>Branch conversion\<close>

text \<open>The address a branch instruction at a place jumps to: the 16-bit word offset counts from the next instruction.\<close>

definition branch_target :: "vma \<Rightarrow> vma \<Rightarrow> vma" where
  "branch_target place insn = place + 4 + push_bit 2 (signed_take_bit 15 insn)"

lemma branch_offset:
  fixes off :: vma
  assumes "- 0x20000 \<le> sint off" "sint off \<le> 0x1ffff" "take_bit 2 off = 0"
  shows "push_bit 2 (signed_take_bit 15 (drop_bit 2 off)) = off"
proof -
  have s: "signed_take_bit 17 off = off"
    using assms(1,2) sint_signed_take_bit [of 17 off] signed_take_bit_id_iff [of 17 "sint off"]
    by (simp add: signed_word_eqI)
  have high: "bit off n \<longleftrightarrow> bit off 17" if "17 \<le> n" "n < 64" for n
    using that arg_cong [OF s, of "\<lambda>w. bit w n"] by (simp add: bit_signed_take_bit_iff min_def split: if_splits)
  have low: "\<not> bit off n" if "n < 2" for n
    using that arg_cong [OF assms(3), of "\<lambda>w. bit w n"] by (simp add: bit_take_bit_iff)
  show ?thesis
  proof (rule bit_word_eqI)
    fix n assume n: "n < LENGTH(64)"
    consider "n < 2" | "2 \<le> n" "n < 17" | "17 \<le> n"
      by linarith
    then show "bit (push_bit 2 (signed_take_bit 15 (drop_bit 2 off))) n = bit off n"
    proof cases
      case 1
      then show ?thesis using low by (simp add: bit_push_bit_iff)
    next
      case 2
      then have "\<not> 15 \<le> n - 2" by arith
      then show ?thesis using n 2
        by (simp add: bit_push_bit_iff bit_signed_take_bit_iff bit_drop_bit_eq min_def)
    next
      case 3
      then have "15 \<le> n - 2" "n - 2 < 64" using n by (arith, simp)
      then show ?thesis using n 3 high [of n]
        by (simp add: bit_push_bit_iff bit_signed_take_bit_iff bit_drop_bit_eq min_def)
    qed
  qed
qed

lemma stored_offset:
  fixes w :: vma
  assumes "op = 0x10000000 \<or> op = 0x04110000"
  shows "signed_take_bit 15 (op OR (w AND 0xffff)) = signed_take_bit 15 w"
proof (rule bit_word_eqI)
  fix n
  have op: "\<not> bit op m" if "m < 16" for m
  proof -
    have "take_bit 16 op = 0"
      using assms by auto
    then have "bit (take_bit 16 op) m = bit (0::vma) m"
      by (rule arg_cong)
    then show ?thesis
      using that by (simp only: bit_take_bit_iff) simp
  qed
  show "bit (signed_take_bit 15 (op OR (w AND 0xffff))) n = bit (signed_take_bit 15 w) n"
    by (simp add: bit_signed_take_bit_iff bit_or_iff bit_masks bit_take_bit_iff op min_def)
qed

text \<open>
  A converted call or jump reaches its target: when
  \<^verbatim>\<open>mips_elf_perform_relocation\<close> turns a \<^verbatim>\<open>jal\<close>, \<^verbatim>\<open>jalr $25\<close> or \<^verbatim>\<open>jr $25\<close> into a branch, the
  branch written there jumps to the address the original instruction jumped to
  (which is word aligned relative to it).
\<close>

theorem branch_conversion_target:
  assumes "x' = branch_conversion relocatable cross b r_type sec roff value x" "x' \<noteq> x"
    and "dest = (if r_type = R_MIPS_26 then push_bit 2 value OR push_bit 28 (drop_bit 28 (section_address sec + roff + 4))
                 else value)"
    and "take_bit 2 (dest - (section_address sec + roff)) = 0"
  shows "branch_target (section_address sec + roff) x' = dest"
proof -
  define addr where "addr = section_address sec + roff + 4"
  define off where "off = dest - addr"
  have off4: "take_bit 2 off = 0"
  proof -
    have "off = (dest - (section_address sec + roff)) + (- 4)"
      by (simp add: off_def addr_def)
    then have "take_bit 2 off = take_bit 2 (take_bit 2 (dest - (section_address sec + roff)) + take_bit 2 (- 4))"
      by (simp only: take_bit_add_word)
    also have "take_bit 2 (- 4 :: vma) = 0"
      by simp
    finally show ?thesis
      by (simp only: assms(4)) simp
  qed
  have "sint off \<le> 0x1ffff" "- 0x20000 \<le> sint off"
    and x': "x' = 0x10000000 OR (drop_bit 2 off AND 0xffff) \<or> x' = 0x04110000 OR (drop_bit 2 off AND 0xffff)"
    using assms(1-3) by (auto simp: branch_conversion_def Let_def off_def addr_def split: if_splits)
  then have "push_bit 2 (signed_take_bit 15 (drop_bit 2 off)) = off"
    using branch_offset off4 by blast
  then show ?thesis
    using x' stored_offset [of "0x10000000" "drop_bit 2 off"] stored_offset [of "0x04110000" "drop_bit 2 off"]
    by (auto simp: branch_target_def off_def addr_def)
qed

text \<open>The instruction is a \<^verbatim>\<open>jalr $25\<close> at 0x400000 whose target is 0x400800.\<close>

definition text_section :: asection where
  "text_section = \<lparr>sec_id = 1, sec_name = ''.text'', sec_flags = {SEC_ALLOC, SEC_LOAD, SEC_READONLY, SEC_CODE},
     sec_size = 0x1000, output_section = Some \<lparr>osec_id = 1, osec_name = ''.text'', osec_vma = 0x400000\<rparr>,
     output_offset = 0\<rparr>"

theorem branch_conversion_target_witness:
  "branch_target 0x400000 (branch_conversion False False le_bfd R_MIPS_JALR text_section 0 0x400800 0x0320f809) = 0x400800"
  using branch_conversion_target [of _ False False le_bfd R_MIPS_JALR text_section 0 "0x400800" "0x0320f809", OF refl _ refl]
  by (simp add: branch_conversion_def section_address_def text_section_def JAL_TO_BAL_P_def JALR_TO_BAL_P_def)

section \<open>The relocated word\<close>

text \<open>The word that replaces the unshuffled word \<^verbatim>\<open>x\<close>, when the mode change is possible.\<close>

definition relocated_word ::
  "bool \<Rightarrow> bool \<Rightarrow> reloc_howto \<Rightarrow> bfd \<Rightarrow> r_type \<Rightarrow> asection \<Rightarrow> vma \<Rightarrow> vma \<Rightarrow> vma \<Rightarrow> vma" where
  "relocated_word relocatable cross howto b r_type sec roff value x =
     (let x = (x AND NOT (dst_mask howto)) OR (value AND dst_mask howto);
          x = (if cross \<and> jal_reloc_p r_type
               then (x AND 0x3ffffff) OR push_bit 26 (snd (jalx_opcode_of r_type (drop_bit 26 x))) else x)
      in branch_conversion relocatable cross b r_type sec roff value x)"

definition mode_change_ok :: "bool \<Rightarrow> reloc_howto \<Rightarrow> r_type \<Rightarrow> vma \<Rightarrow> vma \<Rightarrow> bool" where
  "mode_change_ok cross howto r_type value x \<longleftrightarrow>
     (cross \<and> jal_reloc_p r_type
      \<longrightarrow> fst (jalx_opcode_of r_type (drop_bit 26 ((x AND NOT (dst_mask howto)) OR (value AND dst_mask howto)))))"

lemma length_unshuffle:
  assumes "xvec_ok t" "mips16_reloc_p r_type \<longrightarrow> off + 4 \<le> length data"
  shows "length (bfd_mips_elf_reloc_unshuffle t r_type jal data off) = length data"
  using assms
  by (cases "mips16_reloc_p r_type") (simp_all add: unshuffle_mips16 unshuffle_not_mips16 bytes_simps)

lemma unshuffle_frame:
  assumes "xvec_ok t" "mips16_reloc_p r_type \<longrightarrow> off + 4 \<le> length data" "i < length data" "i < off \<or> off + 4 \<le> i"
  shows "bfd_mips_elf_reloc_unshuffle t r_type jal data off ! i = data ! i"
  using assms
  by (cases "mips16_reloc_p r_type") (simp_all add: unshuffle_mips16 unshuffle_not_mips16 bytes_simps)

lemma perform_eq:
  assumes "mips_elf_obtain_contents howto rel b (bfd_mips_elf_reloc_unshuffle (bfd_xvec b) r_type False contents off) = Some x"
    and "r_type = ELF_R_TYPE b (r_info rel)" "off = unat (r_offset rel)"
  shows "mips_elf_perform_relocation relocatable howto rel value b sec contents cross =
     (if \<not> mode_change_ok cross howto r_type value x then Some (Inl bfd_error_bad_value)
      else map_option (\<lambda>c. Inr (bfd_mips_elf_reloc_shuffle (bfd_xvec b) r_type (\<not> relocatable) c off))
             (bfd_put (8 * bfd_get_reloc_size howto) (bfd_xvec b)
                (relocated_word relocatable cross howto b r_type sec (r_offset rel) value x)
                (bfd_mips_elf_reloc_unshuffle (bfd_xvec b) r_type False contents off) off))"
  using assms
  by (simp add: mips_elf_perform_relocation_def relocated_word_def mode_change_ok_def Let_def split_beta
      split: option.split)

text \<open>
  What \<^verbatim>\<open>mips_elf_perform_relocation\<close> does to contents that hold the whole field,
  for any entry of the howto tables: it fails only on an impossible mode change;
  otherwise the (unshuffled) word is the relocated word and nothing else changes.
\<close>

lemma perform_spec:
  assumes ok: "xvec_ok (bfd_xvec b)" and howto: "mips_elf32_rtype_to_howto r_type = Some howto"
    and r: "r_type = ELF_R_TYPE b (r_info rel)" "off = unat (r_offset rel)"
    and range: "off + bfd_get_reloc_size howto \<le> length contents"
  obtains x where
    "mips_elf_obtain_contents howto rel b (bfd_mips_elf_reloc_unshuffle (bfd_xvec b) r_type False contents off) = Some x"
    "\<not> mode_change_ok cross howto r_type value x \<Longrightarrow>
       mips_elf_perform_relocation relocatable howto rel value b sec contents cross = Some (Inl bfd_error_bad_value)"
    "mode_change_ok cross howto r_type value x \<Longrightarrow> \<exists>contents'.
       mips_elf_perform_relocation relocatable howto rel value b sec contents cross = Some (Inr contents')
       \<and> length contents' = length contents
       \<and> mips_elf_obtain_contents howto rel b (bfd_mips_elf_reloc_unshuffle (bfd_xvec b) r_type (\<not> relocatable) contents' off)
          = Some (take_bit (8 * bfd_get_reloc_size howto)
                    (relocated_word relocatable cross howto b r_type sec (r_offset rel) value x))
       \<and> (\<forall>i < length contents. i < off \<or> off + bfd_get_reloc_size howto \<le> i \<longrightarrow> contents' ! i = contents ! i)"
proof -
  let ?n = "bfd_get_reloc_size howto" and ?c0 = "bfd_mips_elf_reloc_unshuffle (bfd_xvec b) r_type False contents off"
  have n: "?n \<in> {1, 2, 4, 8}" and n16: "mips16_reloc_p r_type \<Longrightarrow> ?n = 4"
    using reloc_size_cases [OF howto] by blast+
  have r16: "mips16_reloc_p r_type \<longrightarrow> off + 4 \<le> length contents"
    using n16 range by auto
  have len0: "length ?c0 = length contents"
    by (rule length_unshuffle [OF ok r16])
  from n obtain x where x: "bfd_get (8 * ?n) (bfd_xvec b) ?c0 off = Some x"
    by (auto simp: bfd_get_def)
  let ?w = "relocated_word relocatable cross howto b r_type sec (r_offset rel) value x"
  obtain c1 where c1: "bfd_put (8 * ?n) (bfd_xvec b) ?w ?c0 off = Some c1" "length c1 = length ?c0"
    "bfd_get (8 * ?n) (bfd_xvec b) c1 off = Some (take_bit (8 * ?n) ?w)"
    "\<forall>i < length ?c0. i < off \<or> off + ?n \<le> i \<longrightarrow> c1 ! i = ?c0 ! i"
    using bfd_get_put_size [OF ok n, of off ?c0 ?w] range len0 by auto
  let ?c2 = "bfd_mips_elf_reloc_shuffle (bfd_xvec b) r_type (\<not> relocatable) c1 off"
  have r16': "mips16_reloc_p r_type \<longrightarrow> off + 4 \<le> length c1"
    using r16 c1(2) len0 by simp
  have c2: "bfd_mips_elf_reloc_unshuffle (bfd_xvec b) r_type (\<not> relocatable) ?c2 off = c1"
    and len2: "length ?c2 = length contents"
    using unshuffle_of_shuffled [OF ok r16'] shuffle_frame_any [OF ok r16'] c1(2) len0 by simp_all
  have frame: "?c2 ! i = contents ! i" if "i < length contents" "i < off \<or> off + ?n \<le> i" for i
  proof (cases "mips16_reloc_p r_type")
    case True
    with that(2) n16 have out: "i < off \<or> off + 4 \<le> i" by simp
    then have "?c2 ! i = c1 ! i" and "c1 ! i = ?c0 ! i"
      using that c1(2,4) len0 shuffle_frame_any [OF ok r16'] by auto
    with unshuffle_frame [OF ok r16 that(1) out] show ?thesis by simp
  next
    case False
    then show ?thesis
      using that c1 len0 by (auto simp: shuffle_not_mips16 unshuffle_not_mips16)
  qed
  have x': "mips_elf_obtain_contents howto rel b ?c0 = Some x"
    using x r by (simp add: mips_elf_obtain_contents_def)
  show thesis
  proof (rule that [OF x'])
    assume "\<not> mode_change_ok cross howto r_type value x"
    then show "mips_elf_perform_relocation relocatable howto rel value b sec contents cross = Some (Inl bfd_error_bad_value)"
      by (simp add: perform_eq [OF x' r])
  next
    assume "mode_change_ok cross howto r_type value x"
    then have "mips_elf_perform_relocation relocatable howto rel value b sec contents cross = Some (Inr ?c2)"
      by (simp add: perform_eq [OF x' r] c1)
    moreover have "mips_elf_obtain_contents howto rel b
        (bfd_mips_elf_reloc_unshuffle (bfd_xvec b) r_type (\<not> relocatable) ?c2 off) = Some (take_bit (8 * ?n) ?w)"
      unfolding c2 mips_elf_obtain_contents_def using c1(3) r(2) by simp
    ultimately show "\<exists>contents'.
       mips_elf_perform_relocation relocatable howto rel value b sec contents cross = Some (Inr contents')
       \<and> length contents' = length contents
       \<and> mips_elf_obtain_contents howto rel b (bfd_mips_elf_reloc_unshuffle (bfd_xvec b) r_type (\<not> relocatable) contents' off)
          = Some (take_bit (8 * ?n) ?w)
       \<and> (\<forall>i < length contents. i < off \<or> off + ?n \<le> i \<longrightarrow> contents' ! i = contents ! i)"
      using len2 frame by auto
  qed
qed

section \<open>What the relocation does\<close>

text \<open>The three instructions that can become branches, and the upper half of the branch.\<close>

definition convertible :: "r_type \<Rightarrow> vma \<Rightarrow> bool" where
  "convertible r_type y \<longleftrightarrow>
     (r_type = R_MIPS_26 \<and> drop_bit 26 y = 0x3) \<or> (r_type = R_MIPS_JALR \<and> (y = 0x0320f809 \<or> y = 0x03200008))"

text \<open>The address to which the unconverted instruction jumps.\<close>

definition jump_destination :: "r_type \<Rightarrow> vma \<Rightarrow> vma \<Rightarrow> vma" where
  "jump_destination r_type place value =
     (if r_type = R_MIPS_26 then push_bit 2 value OR push_bit 28 (drop_bit 28 (place + 4)) else value)"

text \<open>The word \<^verbatim>\<open>w\<close> that replaces an instruction whose field has been set, \<^verbatim>\<open>y\<close>.\<close>

definition performed_word :: "bool \<Rightarrow> bool \<Rightarrow> r_type \<Rightarrow> vma \<Rightarrow> vma \<Rightarrow> vma \<Rightarrow> vma \<Rightarrow> bool" where
  "performed_word relocatable cross r_type place value y w \<longleftrightarrow>
     (if cross \<and> jal_reloc_p r_type then w = take_bit 26 y OR push_bit 26 (snd (jalx_opcode_of r_type (drop_bit 26 y)))
      else w = y \<or> \<not> relocatable \<and> \<not> cross \<and> convertible r_type y
        \<and> drop_bit 16 w = (if y = 0x03200008 then 0x1000 else 0x0411)
        \<and> (take_bit 2 (jump_destination r_type place value - place) = 0
          \<longrightarrow> branch_target place w = jump_destination r_type place value))"

lemma converted_branch:
  assumes "branch_conversion relocatable cross b r_type sec roff value y \<noteq> y"
  shows "\<not> relocatable" "\<not> cross" "convertible r_type y"
    "drop_bit 16 (branch_conversion relocatable cross b r_type sec roff value y) = (if y = 0x03200008 then 0x1000 else 0x0411)"
    "take_bit 2 (jump_destination r_type (section_address sec + roff) value - (section_address sec + roff)) = 0
      \<Longrightarrow> branch_target (section_address sec + roff) (branch_conversion relocatable cross b r_type sec roff value y)
        = jump_destination r_type (section_address sec + roff) value"
proof -
  have high: "drop_bit 16 (k OR (drop_bit 2 v AND 0xffff)) = drop_bit 16 k" for k v :: vma
    by (rule bit_word_eqI) (auto simp: bit_masks bit_simps)
  show "\<not> relocatable" "\<not> cross" "convertible r_type y"
    "drop_bit 16 (branch_conversion relocatable cross b r_type sec roff value y) = (if y = 0x03200008 then 0x1000 else 0x0411)"
    using assms by (auto simp: branch_conversion_def convertible_def Let_def high split: if_splits)
  show "take_bit 2 (jump_destination r_type (section_address sec + roff) value - (section_address sec + roff)) = 0
      \<Longrightarrow> branch_target (section_address sec + roff) (branch_conversion relocatable cross b r_type sec roff value y)
        = jump_destination r_type (section_address sec + roff) value"
    by (rule branch_conversion_target [OF refl assms]) (simp_all add: jump_destination_def)
qed

text \<open>
  C27.  What \<^verbatim>\<open>mips_elf_perform_relocation\<close> does to an instruction \<^verbatim>\<open>x\<close>, for all types of relocations.  The bits of the value under
  the mask of the howto entry are put in the field and the other bits kept, which gives \<^verbatim>\<open>y\<close>.  A jump into the other instruction set is refused when
  \<^verbatim>\<open>y\<close> is neither JAL nor JALX, and otherwise gets the JALX opcode with the low 26 bits of \<^verbatim>\<open>y\<close>.  Any other word is \<^verbatim>\<open>y\<close>, except that in a final link
  a JAL, \<^verbatim>\<open>jalr $25\<close> or \<^verbatim>\<open>jr $25\<close> may become BAL or B; then the branch jumps where \<^verbatim>\<open>y\<close> jumped (if that is a whole number of words away).
  Bytes outside the field and the length are kept.
\<close>

theorem perform_sets_field:
  fixes rel b howto contents sec val
  defines "r_type \<equiv> ELF_R_TYPE b (r_info rel)" and "off \<equiv> unat (r_offset rel)" and "n \<equiv> bfd_get_reloc_size howto"
    and "place \<equiv> section_address sec + r_offset rel"
  assumes "xvec_ok (bfd_xvec b)" "mips_elf32_rtype_to_howto r_type = Some howto" "off + n \<le> length contents"
  shows "\<exists>x y. mips_elf_obtain_contents howto rel b (bfd_mips_elf_reloc_unshuffle (bfd_xvec b) r_type False contents off) = Some x
    \<and> y = (x AND NOT (dst_mask howto)) OR (val AND dst_mask howto)
    \<and> (if cross \<and> jal_reloc_p r_type \<and> \<not> fst (jalx_opcode_of r_type (drop_bit 26 y))
       then mips_elf_perform_relocation relocatable howto rel val b sec contents cross = Some (Inl bfd_error_bad_value)
       else \<exists>contents' w.
         mips_elf_perform_relocation relocatable howto rel val b sec contents cross = Some (Inr contents')
         \<and> mips_elf_obtain_contents howto rel b (bfd_mips_elf_reloc_unshuffle (bfd_xvec b) r_type (\<not> relocatable) contents' off)
           = Some (take_bit (8 * n) w)
         \<and> performed_word relocatable cross r_type place val y w
         \<and> length contents' = length contents
         \<and> (\<forall>i < length contents. i < off \<or> off + n \<le> i \<longrightarrow> contents' ! i = contents ! i))"
proof (rule perform_spec [OF assms(5,6) _ _ assms(7) [unfolded n_def], of rel cross val relocatable sec], goal_cases)
  case (3 x)
  let ?y = "(x AND NOT (dst_mask howto)) OR (val AND dst_mask howto)"
  let ?w = "relocated_word relocatable cross howto b r_type sec (r_offset rel) val x"
  have ok: "mode_change_ok cross howto r_type val x \<longleftrightarrow> \<not> (cross \<and> jal_reloc_p r_type \<and> \<not> fst (jalx_opcode_of r_type (drop_bit 26 ?y)))"
    by (auto simp: mode_change_ok_def)
  have w: "performed_word relocatable cross r_type place val ?y ?w"
  proof (cases "cross \<and> jal_reloc_p r_type")
    case True
    then show ?thesis
      by (simp add: performed_word_def relocated_word_def branch_conversion_def Let_def bit_masks)
  next
    case False
    then have "?w = branch_conversion relocatable cross b r_type sec (r_offset rel) val ?y"
      by (auto simp: relocated_word_def Let_def)
    then show ?thesis
      using False converted_branch [of relocatable cross b r_type sec "r_offset rel" val ?y] unfolding place_def performed_word_def by auto
  qed
  show ?case
  proof (rule exI [of _ x], rule exI [of _ ?y], intro conjI)
    show "if cross \<and> jal_reloc_p r_type \<and> \<not> fst (jalx_opcode_of r_type (drop_bit 26 ?y))
       then mips_elf_perform_relocation relocatable howto rel val b sec contents cross = Some (Inl bfd_error_bad_value)
       else \<exists>contents' w.
         mips_elf_perform_relocation relocatable howto rel val b sec contents cross = Some (Inr contents')
         \<and> mips_elf_obtain_contents howto rel b (bfd_mips_elf_reloc_unshuffle (bfd_xvec b) r_type (\<not> relocatable) contents' off)
           = Some (take_bit (8 * n) w)
         \<and> performed_word relocatable cross r_type place val ?y w
         \<and> length contents' = length contents
         \<and> (\<forall>i < length contents. i < off \<or> off + n \<le> i \<longrightarrow> contents' ! i = contents ! i)"
      using 3(2,3) ok w unfolding n_def by (metis (mono_tags, lifting))
  qed (rule 3(1), rule refl)
qed (simp_all add: r_type_def off_def)

definition example_rel :: "r_type \<Rightarrow> elf_rela" where
  "example_rel r_type = \<lparr>r_offset = 0, r_info = of_nat (256 + r_type), r_addend = 0\<rparr>"

theorem perform_sets_field_witness:
  "\<exists>x contents'. mips_elf_perform_relocation False (elf_mips_howto_table_rel ! 6) (example_rel R_MIPS_LO16) 0x12345678
       le_bfd text_section [0, 0, 0x10, 0x27] False = Some (Inr contents')
     \<and> bfd_get_32 le_xvec contents' 0 = take_bit 32 ((x AND NOT 0x000fffc0) OR (0x12345678 AND 0x000fffc0))"
proof -
  let ?h = "elf_mips_howto_table_rel ! 6"
  have h: "?h = HOWTO R_MIPS_LO16 0 2 14 False 6 complain_overflow_dont
      (Some SF_bfd_mips_elf_generic_reloc) (Some ''R_MIPS_LO16'') True 0x000fffc0 0x000fffc0 False"
    by (simp add: elf_mips_howto_table_rel_def howto_rel_defs)
  have n: "bfd_get_reloc_size ?h = 4" "dst_mask ?h = 0x000fffc0"
    by (simp_all add: h HOWTO_def bfd_get_reloc_size_def)
  have r: "ELF_R_TYPE le_bfd (r_info (example_rel R_MIPS_LO16)) = R_MIPS_LO16" "unat (r_offset (example_rel R_MIPS_LO16)) = 0"
    "mips_elf32_rtype_to_howto R_MIPS_LO16 = Some ?h" "\<not> mips16_reloc_p R_MIPS_LO16" "\<not> jal_reloc_p R_MIPS_LO16"
    by (simp_all add: example_rel_def ELF_R_TYPE_def bit_masks le_bfd_def mips_elf32_rtype_to_howto_def mips16_reloc_p_def jal_reloc_p_def)
  have get: "mips_elf_obtain_contents ?h (example_rel R_MIPS_LO16) le_bfd c = Some (bfd_get_32 le_xvec c 0)" for c
    by (simp add: mips_elf_obtain_contents_def n r bfd_get_def le_bfd_def)
  have x: "xvec_ok (bfd_xvec le_bfd)"
    by (simp add: le_bfd_def)
  show ?thesis
    using perform_sets_field [where b = le_bfd and rel = "example_rel R_MIPS_LO16" and howto = ?h
        and contents = "[0, 0, 0x10, 0x27]" and cross = False and val = "0x12345678" and relocatable = False and sec = text_section]
    by (auto simp: r n get x unshuffle_not_mips16 performed_word_def convertible_def)
qed

lemma perform_inside:
  assumes "xvec_ok (bfd_xvec b)" "mips_elf32_rtype_to_howto (ELF_R_TYPE b (r_info rel)) = Some howto"
    and "unat (r_offset rel) + bfd_get_reloc_size howto \<le> length contents"
    and "mips_elf_perform_relocation relocatable howto rel value b sec contents cross = Some (Inr contents')"
  shows "length contents' = length contents
    \<and> (\<forall>i < length contents. i < unat (r_offset rel) \<or> unat (r_offset rel) + bfd_get_reloc_size howto \<le> i
         \<longrightarrow> contents' ! i = contents ! i)"
  by (rule perform_spec [OF assms(1,2) refl refl assms(3), of cross "value" relocatable sec]) (use assms(4) in fastforce)

text \<open>
  A relocation stays inside its field: whatever the relocation and the mode
  change, when \<^verbatim>\<open>mips_elf_perform_relocation\<close> returns new contents they have the same length
  and differ at most in the bytes of the howto entry's size at the relocation's offset.
\<close>

theorem perform_frame:
  assumes "xvec_ok (bfd_xvec b)" "mips_elf32_rtype_to_howto (ELF_R_TYPE b (r_info rel)) = Some howto"
    and "unat (r_offset rel) + bfd_get_reloc_size howto \<le> length contents"
    and "mips_elf_perform_relocation relocatable howto rel value b sec contents cross = Some (Inr contents')"
  shows "length contents' = length contents
    \<and> (\<forall>i < length contents. i < unat (r_offset rel) \<or> unat (r_offset rel) + bfd_get_reloc_size howto \<le> i
         \<longrightarrow> contents' ! i = contents ! i)"
  using assms by (rule perform_inside)

text \<open>
  A jump between instruction sets becomes JALX or is refused: on a
  mode-changing \<^verbatim>\<open>R_MIPS_26\<close>, \<^verbatim>\<open>R_MIPS16_26\<close> or \<^verbatim>\<open>R_MICROMIPS_26_S1\<close> relocation the
  code reports an error when the instruction is neither JAL nor JALX, and otherwise stores the JALX
  opcode of the instruction set together with the relocated low 26 bits.
\<close>

theorem perform_jalx:
  assumes "xvec_ok (bfd_xvec b)" "mips_elf32_rtype_to_howto r_type = Some howto"
    and "r_type = ELF_R_TYPE b (r_info rel)" "jal_reloc_p r_type"
    and "unat (r_offset rel) + bfd_get_reloc_size howto \<le> length contents"
  shows "\<exists>x y. mips_elf_obtain_contents howto rel b
        (bfd_mips_elf_reloc_unshuffle (bfd_xvec b) r_type False contents (unat (r_offset rel))) = Some x
    \<and> y = (x AND NOT (dst_mask howto)) OR (value AND dst_mask howto)
    \<and> (if fst (jalx_opcode_of r_type (drop_bit 26 y))
       then \<exists>contents'. mips_elf_perform_relocation relocatable howto rel value b sec contents True = Some (Inr contents')
         \<and> mips_elf_obtain_contents howto rel b
             (bfd_mips_elf_reloc_unshuffle (bfd_xvec b) r_type (\<not> relocatable) contents' (unat (r_offset rel)))
           = Some (take_bit (8 * bfd_get_reloc_size howto)
                (take_bit 26 y OR push_bit 26 (snd (jalx_opcode_of r_type (drop_bit 26 y)))))
       else mips_elf_perform_relocation relocatable howto rel value b sec contents True = Some (Inl bfd_error_bad_value))"
proof (rule perform_spec [OF assms(1,2,3) refl assms(5), of True "value" relocatable sec], goal_cases)
  case (1 x)
  let ?y = "(x AND NOT (dst_mask howto)) OR (value AND dst_mask howto)"
  have "mode_change_ok True howto r_type value x \<longleftrightarrow> fst (jalx_opcode_of r_type (drop_bit 26 ?y))"
    using assms(4) by (simp add: mode_change_ok_def)
  moreover have "relocated_word relocatable True howto b r_type sec (r_offset rel) value x
      = take_bit 26 ?y OR push_bit 26 (snd (jalx_opcode_of r_type (drop_bit 26 ?y)))"
    using assms(4) by (simp add: relocated_word_def branch_conversion_def Let_def bit_masks)
  ultimately show ?case
    using 1 by (intro exI [of _ x] exI [of _ ?y]) auto
qed


lemma perform_example:
  "mips_elf_perform_relocation False (elf_mips_howto_table_rel ! 6) (example_rel R_MIPS_LO16) 0x12345678
     le_bfd text_section [0, 0, 0x10, 0x27, 0x55] False = Some (Inr [0x40, 0x56, 0x14, 0x27, 0x55])"
proof -
  have h: "elf_mips_howto_table_rel ! 6 = HOWTO R_MIPS_LO16 0 2 14 False 6 complain_overflow_dont
      (Some SF_bfd_mips_elf_generic_reloc) (Some ''R_MIPS_LO16'') True 0x000fffc0 0x000fffc0 False"
    by (simp add: elf_mips_howto_table_rel_def howto_rel_defs)
  have "bfd_get_32 le_xvec [0, 0, 0x10, 0x27, 0x55] 0 = 0x27100000"
    by (simp add: bytes_eval)
  moreover have "bfd_put_32 le_xvec 0x27145640 [0, 0, 0x10, 0x27, 0x55] 0 = [0x40, 0x56, 0x14, 0x27, 0x55]"
    by (simp add: bytes_eval)
  ultimately show ?thesis
    unfolding h
    by (simp add: mips_elf_perform_relocation_def example_rel_def ELF_R_TYPE_def bit_masks HOWTO_def le_bfd_def
        unshuffle_not_mips16 shuffle_not_mips16 mips16_reloc_p_def mips_elf_obtain_contents_def bfd_get_reloc_size_def
        bfd_get_def bfd_put_def branch_conversion_def jalx_opcode_of_def)
qed

theorem perform_frame_witness:
  "\<exists>contents'. mips_elf_perform_relocation False (elf_mips_howto_table_rel ! 6) (example_rel R_MIPS_LO16) 0x12345678
       le_bfd text_section [0, 0, 0x10, 0x27, 0x55] False = Some (Inr contents')
     \<and> length contents' = length [0, 0, 0x10, 0x27, 0x55 :: bfd_byte]
     \<and> (\<forall>i < length [0, 0, 0x10, 0x27, 0x55 :: bfd_byte]. i < unat (r_offset (example_rel R_MIPS_LO16))
          \<or> unat (r_offset (example_rel R_MIPS_LO16)) + bfd_get_reloc_size (elf_mips_howto_table_rel ! 6) \<le> i
          \<longrightarrow> contents' ! i = [0, 0, 0x10, 0x27, 0x55] ! i)"
  by (rule exI, rule conjI [OF perform_example perform_frame [OF _ _ _ perform_example]])
    (simp_all add: le_bfd_def example_rel_def ELF_R_TYPE_def bit_masks mips_elf32_rtype_to_howto_def
      elf_mips_howto_table_rel_def howto_rel_defs HOWTO_def bfd_get_reloc_size_def)

theorem perform_jalx_witness:
  "\<exists>contents'. mips_elf_perform_relocation False (elf_mips_howto_table_rel ! 4) (example_rel R_MIPS_26) 0x40
       le_bfd text_section [0, 0, 0, 0x0c] True = Some (Inr contents')"
proof -
  have h: "elf_mips_howto_table_rel ! 4 = HOWTO R_MIPS_26 2 2 20 False 0 complain_overflow_dont
      (Some SF_bfd_mips_elf_generic_reloc) (Some ''R_MIPS_26'') True 0x000fffff 0x000fffff False"
    by (simp add: elf_mips_howto_table_rel_def howto_rel_defs)
  have word: "bfd_get_32 le_xvec [0, 0, 0, 0x0c] 0 = 0x0c000000"
    by (simp add: bytes_eval)
  show ?thesis
    using perform_jalx [of le_bfd R_MIPS_26 "elf_mips_howto_table_rel ! 4" "example_rel R_MIPS_26" "[0, 0, 0, 0x0c]"
        "0x40" False text_section]
    by (auto simp: h word le_bfd_def example_rel_def ELF_R_TYPE_def bit_masks mips_elf32_rtype_to_howto_def
        HOWTO_def bfd_get_reloc_size_def jal_reloc_p_def mips_elf_obtain_contents_def bfd_get_def
        unshuffle_not_mips16 mips16_reloc_p_def jalx_opcode_of_def)
qed

end
