(* ===== verification/GotPages.thy ===== *)
theory GotPages
  imports Prelude
begin

text \<open>
  The page entries of the global offset table (elfxx-mips.c): for every local
  symbol the linker keeps the ranges of addends that page relocations apply to
  it, and from them an upper bound of the number of GOT slots needed
  (\<^verbatim>\<open>mips_elf_pages_for_range\<close>, \<^verbatim>\<open>mips_elf_record_got_page_entry\<close>).

  Addends are \<^verbatim>\<open>bfd_signed_vma\<close>; signed overflow is undefined in C, so they
  are integers here.  The counters are unsigned and are only ever increased by
  the difference of two page counts, so they are integers as well.
\<close>

section \<open>Ranges of addends\<close>

record got_page_range =
  min_addend :: int
  max_addend :: int

record got_page_entry =
  pe_abfd :: nat
  pe_symndx :: int
  pe_ranges :: "got_page_range list"
  num_pages :: int

definition mips_elf_pages_for_range :: "got_page_range \<Rightarrow> int" where
  "mips_elf_pages_for_range rng = (max_addend rng - min_addend rng + 0x1ffff) div 2 ^ 16"

text \<open>
  The walk over the linked list and its update; the result carries the change of
  the page count.  The first argument of the C loop is the tail that
  \<^verbatim>\<open>range_ptr\<close> points to.
\<close>

definition update_range ::
  "int \<Rightarrow> got_page_range \<Rightarrow> got_page_range list \<Rightarrow> got_page_range list \<times> int" where
  "update_range addend rng next_ranges =
     (let old_pages = mips_elf_pages_for_range rng;
          (rng', next', old_pages) =
            (if addend < min_addend rng then (rng\<lparr>min_addend := addend\<rparr>, next_ranges, old_pages)
             else if max_addend rng < addend then
               (case next_ranges of
                  n # ns \<Rightarrow>
                    if min_addend n - 0xffff \<le> addend
                    then (rng\<lparr>max_addend := max_addend n\<rparr>, ns, old_pages + mips_elf_pages_for_range n)
                    else (rng\<lparr>max_addend := addend\<rparr>, next_ranges, old_pages)
                | [] \<Rightarrow> (rng\<lparr>max_addend := addend\<rparr>, next_ranges, old_pages))
             else (rng, next_ranges, old_pages));
          new_pages = mips_elf_pages_for_range rng'
      in (rng' # next', if old_pages \<noteq> new_pages then new_pages - old_pages else 0))"

fun record_addend :: "int \<Rightarrow> got_page_range list \<Rightarrow> got_page_range list \<times> int" where
  "record_addend addend [] = ([\<lparr>min_addend = addend, max_addend = addend\<rparr>], 1)"
| "record_addend addend (rng # ranges) =
     (if max_addend rng + 0xffff < addend
      then (let (ranges', d) = record_addend addend ranges in (rng # ranges', d))
      else if addend < min_addend rng - 0xffff
      then (\<lparr>min_addend = addend, max_addend = addend\<rparr> # rng # ranges, 1)
      else update_range addend rng ranges)"

text \<open>
  The hash table of page entries is a list searched with the key of
  \<^verbatim>\<open>mips_got_page_entry_eq\<close>; allocation does not fail.
\<close>

definition mips_got_page_entry_eq :: "got_page_entry \<Rightarrow> got_page_entry \<Rightarrow> bool" where
  "mips_got_page_entry_eq e1 e2 \<longleftrightarrow> pe_abfd e1 = pe_abfd e2 \<and> pe_symndx e1 = pe_symndx e2"

definition mips_got_page_entry_hash :: "got_page_entry \<Rightarrow> 32 word" where
  "mips_got_page_entry_hash entry = of_nat (pe_abfd entry) + of_int (pe_symndx entry)"

definition record_in_entry :: "int \<Rightarrow> got_page_entry \<Rightarrow> got_page_entry \<times> int" where
  "record_in_entry addend entry =
     (let (ranges, d) = record_addend addend (pe_ranges entry)
      in (entry\<lparr>pe_ranges := ranges, num_pages := num_pages entry + d\<rparr>, d))"

fun mips_elf_record_got_page_entry ::
  "nat \<Rightarrow> int \<Rightarrow> int \<Rightarrow> got_page_entry list \<Rightarrow> int \<Rightarrow> got_page_entry list \<times> int" where
  "mips_elf_record_got_page_entry abfd symndx addend [] page_gotno =
     (let (entry, d) = record_in_entry addend
            \<lparr>pe_abfd = abfd, pe_symndx = symndx, pe_ranges = [], num_pages = 0\<rparr>
      in ([entry], page_gotno + d))"
| "mips_elf_record_got_page_entry abfd symndx addend (e # entries) page_gotno =
     (if mips_got_page_entry_eq e \<lparr>pe_abfd = abfd, pe_symndx = symndx, pe_ranges = [], num_pages = 0\<rparr>
      then (let (entry, d) = record_in_entry addend e in (entry # entries, page_gotno + d))
      else (let (entries', n) = mips_elf_record_got_page_entry abfd symndx addend entries page_gotno
            in (e # entries', n)))"

section \<open>The invariant of a range list\<close>

text \<open>
  The ranges are non-empty, sorted, and further apart than a page entry can
  bridge.
\<close>

fun ranges_ok :: "got_page_range list \<Rightarrow> bool" where
  "ranges_ok [] \<longleftrightarrow> True"
| "ranges_ok [r] \<longleftrightarrow> min_addend r \<le> max_addend r"
| "ranges_ok (r # s # rs) \<longleftrightarrow>
     min_addend r \<le> max_addend r \<and> max_addend r + 0xffff < min_addend s \<and> ranges_ok (s # rs)"

definition total_pages :: "got_page_range list \<Rightarrow> int" where
  "total_pages rs = sum_list (map mips_elf_pages_for_range rs)"

definition covers :: "got_page_range list \<Rightarrow> int \<Rightarrow> bool" where
  "covers rs a \<longleftrightarrow> (\<exists>r \<in> set rs. min_addend r \<le> a \<and> a \<le> max_addend r)"

lemma total_pages_simps [got_simps]:
  "total_pages [] = 0" "total_pages (r # rs) = mips_elf_pages_for_range r + total_pages rs"
  by (simp_all add: total_pages_def)

lemma covers_simps [got_simps]:
  "covers [] a \<longleftrightarrow> False" "covers (r # rs) a \<longleftrightarrow> min_addend r \<le> a \<and> a \<le> max_addend r \<or> covers rs a"
  by (auto simp: covers_def)

lemma pages_singleton: "mips_elf_pages_for_range \<lparr>min_addend = a, max_addend = a\<rparr> = 1"
  by (simp add: mips_elf_pages_for_range_def)

lemma ranges_ok_tail: "ranges_ok (r # rs) \<Longrightarrow> ranges_ok rs \<and> min_addend r \<le> max_addend r"
  by (cases rs) auto

lemma update_range_pages:
  "update_range addend r rs = (rs', d) \<Longrightarrow> total_pages rs' = total_pages (r # rs) + d"
  by (auto simp: update_range_def Let_def got_simps split: if_splits list.splits)

lemma record_addend_pages: "record_addend addend rs = (rs', d) \<Longrightarrow> total_pages rs' = total_pages rs + d"
  by (induction addend rs arbitrary: rs' d rule: record_addend.induct)
    (auto simp: got_simps pages_singleton update_range_pages split: if_splits prod.splits)

text \<open>Recording keeps the list sorted and spread; its head moves down at most to the addend.\<close>

definition above :: "int \<Rightarrow> got_page_range list \<Rightarrow> bool" where
  "above lo rs \<longleftrightarrow> (case rs of [] \<Rightarrow> True | r # _ \<Rightarrow> lo < min_addend r)"

lemma above_simps [got_simps]: "above lo []" "above lo (r # rs) \<longleftrightarrow> lo < min_addend r"
  by (simp_all add: above_def)

lemma ranges_ok_Cons:
  "ranges_ok (r # rs) \<longleftrightarrow> min_addend r \<le> max_addend r \<and> above (max_addend r + 0xffff) rs \<and> ranges_ok rs"
  by (cases rs) (auto simp: got_simps)

lemma update_range_ok:
  assumes "ranges_ok (r # rs)" "addend \<le> max_addend r + 0xffff" "min_addend r - 0xffff \<le> addend"
  shows "ranges_ok (fst (update_range addend r rs))"
    "lo < addend \<Longrightarrow> lo < min_addend r \<Longrightarrow> above lo (fst (update_range addend r rs))"
  using assms
  by (auto simp: update_range_def Let_def ranges_ok_Cons got_simps split: list.splits)

lemma record_addend_ok:
  "ranges_ok rs \<Longrightarrow> ranges_ok (fst (record_addend addend rs))
     \<and> (\<forall>lo. lo < addend \<longrightarrow> above lo rs \<longrightarrow> above lo (fst (record_addend addend rs)))"
proof (induction rs)
  case Nil
  then show ?case by (simp add: got_simps)
next
  case (Cons r rs)
  consider "max_addend r + 0xffff < addend" | "addend < min_addend r - 0xffff" "addend \<le> max_addend r + 0xffff"
    | "addend \<le> max_addend r + 0xffff" "min_addend r - 0xffff \<le> addend"
    by linarith
  then show ?case
  proof cases
    case 1
    then show ?thesis
      using Cons by (auto simp: ranges_ok_Cons got_simps split_beta)
  next
    case 2
    then show ?thesis
      using Cons.prems by (simp add: ranges_ok_Cons got_simps)
  next
    case 3
    then show ?thesis
      using update_range_ok [OF Cons.prems 3] by (simp add: got_simps)
  qed
qed

lemma update_range_covers:
  assumes "ranges_ok (r # rs)" "addend \<le> max_addend r + 0xffff" "min_addend r - 0xffff \<le> addend"
  shows "covers (fst (update_range addend r rs)) addend"
    "covers (r # rs) a \<Longrightarrow> covers (fst (update_range addend r rs)) a"
  using assms
  by (auto simp: update_range_def Let_def ranges_ok_Cons got_simps split: list.splits)

lemma record_addend_covers:
  "ranges_ok rs \<Longrightarrow> covers (fst (record_addend addend rs)) addend
     \<and> (\<forall>a. covers rs a \<longrightarrow> covers (fst (record_addend addend rs)) a)"
proof (induction rs)
  case Nil
  then show ?case by (simp add: got_simps)
next
  case (Cons r rs)
  consider "max_addend r + 0xffff < addend" | "addend < min_addend r - 0xffff" "addend \<le> max_addend r + 0xffff"
    | "addend \<le> max_addend r + 0xffff" "min_addend r - 0xffff \<le> addend"
    by linarith
  then show ?case
  proof cases
    case 1
    then show ?thesis
      using Cons by (auto simp: ranges_ok_Cons got_simps split_beta)
  next
    case 2
    then show ?thesis by (simp add: got_simps)
  next
    case 3
    then show ?thesis
      using update_range_covers [OF Cons.prems 3] by simp
  qed
qed

section \<open>The table of page entries\<close>

text \<open>Every entry is consistent, no key occurs twice, and the counter is the sum of the entries.\<close>

definition page_entry_ok :: "got_page_entry \<Rightarrow> bool" where
  "page_entry_ok e \<longleftrightarrow> ranges_ok (pe_ranges e) \<and> num_pages e = total_pages (pe_ranges e)"

definition pe_key :: "got_page_entry \<Rightarrow> nat \<times> int" where
  "pe_key e = (pe_abfd e, pe_symndx e)"

definition pages_inv :: "got_page_entry list \<Rightarrow> int \<Rightarrow> bool" where
  "pages_inv entries page_gotno \<longleftrightarrow> list_all page_entry_ok entries \<and> distinct (map pe_key entries)
     \<and> page_gotno = sum_list (map num_pages entries)"

definition recorded :: "got_page_entry list \<Rightarrow> nat \<Rightarrow> int \<Rightarrow> int \<Rightarrow> bool" where
  "recorded entries abfd symndx a \<longleftrightarrow> (\<exists>e \<in> set entries. pe_key e = (abfd, symndx) \<and> covers (pe_ranges e) a)"

lemma record_in_entry_ok:
  assumes "page_entry_ok e"
  shows "page_entry_ok (fst (record_in_entry addend e))"
    "pe_key (fst (record_in_entry addend e)) = pe_key e"
    "num_pages (fst (record_in_entry addend e)) = num_pages e + snd (record_in_entry addend e)"
    "covers (pe_ranges (fst (record_in_entry addend e))) addend"
    "covers (pe_ranges e) a \<Longrightarrow> covers (pe_ranges (fst (record_in_entry addend e))) a"
  using assms record_addend_ok [of "pe_ranges e" addend] record_addend_covers [of "pe_ranges e" addend]
    record_addend_pages [of addend "pe_ranges e", OF prod.collapse [symmetric]]
  by (auto simp: record_in_entry_def page_entry_ok_def pe_key_def split_beta)

lemma fresh_page_entry_ok: "page_entry_ok \<lparr>pe_abfd = b, pe_symndx = s, pe_ranges = [], num_pages = 0\<rparr>"
  by (simp add: page_entry_ok_def got_simps)

lemma page_eq_key: "mips_got_page_entry_eq e \<lparr>pe_abfd = b, pe_symndx = s, pe_ranges = rs, num_pages = n\<rparr> \<longleftrightarrow> pe_key e = (b, s)"
  by (simp add: mips_got_page_entry_eq_def pe_key_def)

text \<open>The two branches of the search, with the update of the entry named.\<close>

lemma record_page_Nil:
  "mips_elf_record_got_page_entry abfd symndx addend [] n =
     (let e = \<lparr>pe_abfd = abfd, pe_symndx = symndx, pe_ranges = [], num_pages = 0\<rparr>
      in ([fst (record_in_entry addend e)], n + snd (record_in_entry addend e)))"
  by (simp add: split_beta Let_def)

lemma record_page_Cons:
  "mips_elf_record_got_page_entry abfd symndx addend (e # es) n =
     (if pe_key e = (abfd, symndx)
      then (fst (record_in_entry addend e) # es, n + snd (record_in_entry addend e))
      else (e # fst (mips_elf_record_got_page_entry abfd symndx addend es n),
            snd (mips_elf_record_got_page_entry abfd symndx addend es n)))"
  by (simp add: split_beta page_eq_key)

declare mips_elf_record_got_page_entry.simps [simp del]

lemma record_page_keys:
  "list_all page_entry_ok es \<Longrightarrow>
     set (map pe_key (fst (mips_elf_record_got_page_entry abfd symndx addend es n)))
       = insert (abfd, symndx) (set (map pe_key es))"
  by (induction es)
    (auto simp: record_page_Nil record_page_Cons Let_def record_in_entry_ok fresh_page_entry_ok pe_key_def
      simp del: pe_key_def, simp_all add: pe_key_def)

lemma record_page_inv:
  "list_all page_entry_ok es \<Longrightarrow> distinct (map pe_key es) \<Longrightarrow>
     list_all page_entry_ok (fst (mips_elf_record_got_page_entry abfd symndx addend es n))
     \<and> distinct (map pe_key (fst (mips_elf_record_got_page_entry abfd symndx addend es n)))
     \<and> snd (mips_elf_record_got_page_entry abfd symndx addend es n) - n
        = sum_list (map num_pages (fst (mips_elf_record_got_page_entry abfd symndx addend es n)))
          - sum_list (map num_pages es)"
proof (induction es)
  case Nil
  then show ?case
    by (simp add: record_page_Nil Let_def record_in_entry_ok fresh_page_entry_ok)
next
  case (Cons e es)
  then show ?case
    using record_page_keys [of es abfd symndx addend n]
    by (auto simp: record_page_Cons record_in_entry_ok)
qed

lemma record_page_recorded:
  "list_all page_entry_ok es \<Longrightarrow>
     recorded (fst (mips_elf_record_got_page_entry abfd symndx addend es n)) abfd symndx addend
     \<and> (recorded es b s a \<longrightarrow> recorded (fst (mips_elf_record_got_page_entry abfd symndx addend es n)) b s a)"
proof (induction es)
  case Nil
  then show ?case
    by (simp add: record_page_Nil Let_def record_in_entry_ok fresh_page_entry_ok recorded_def) (simp add: pe_key_def)
next
  case (Cons e es)
  then show ?case
    by (auto simp: record_page_Cons record_in_entry_ok recorded_def)
qed

section \<open>Enough pages\<close>

text \<open>The page an address belongs to, as \<^verbatim>\<open>mips_elf_got_page\<close> computes it.\<close>

definition got_page_of :: "vma \<Rightarrow> vma" where
  "got_page_of value = (value + 0x8000) AND NOT 0xffff"

lemma got_page_of_int: "got_page_of (word_of_int x) = word_of_int ((x + 0x8000) div 2 ^ 16 * 2 ^ 16)"
proof (rule bit_word_eqI)
  fix n assume "n < LENGTH(64)"
  have 1: "(word_of_int x :: vma) + 0x8000 = word_of_int (x + 0x8000)"
    by simp
  have 2: "(w::vma) AND NOT 0xffff = push_bit 16 (drop_bit 16 w)" for w
  proof -
    have "(0xffff::vma) = mask 16"
      by (simp add: mask_eq_exp_minus_1)
    moreover have "w AND NOT (mask 16) = push_bit 16 (drop_bit 16 w)"
      by (auto intro!: bit_word_eqI simp: bit_simps)
    ultimately show ?thesis
      by (simp only:)
  qed
  have "(x + 0x8000) div 2 ^ 16 * 2 ^ 16 = push_bit 16 (drop_bit 16 (x + 0x8000))"
    by (simp add: push_bit_eq_mult drop_bit_eq_div)
  then show "bit (got_page_of (word_of_int x)) n = bit (word_of_int ((x + 0x8000) div 2 ^ 16 * 2 ^ 16) :: vma) n"
    unfolding got_page_of_def 1 2 using \<open>n < LENGTH(64)\<close>
    by (auto simp: bit_simps simp del: of_int_add)
qed

definition range_pages :: "vma \<Rightarrow> got_page_range \<Rightarrow> vma set" where
  "range_pages symbol r = (\<lambda>a. got_page_of (symbol + word_of_int a)) ` {min_addend r .. max_addend r}"

lemma card_range_pages:
  assumes "min_addend r \<le> max_addend r"
  shows "int (card (range_pages symbol r)) \<le> mips_elf_pages_for_range r"
proof -
  define s where "s = uint symbol"
  let ?lo = "(s + min_addend r + 0x8000) div 2 ^ 16" and ?hi = "(s + max_addend r + 0x8000) div 2 ^ 16"
  have page: "got_page_of (symbol + word_of_int a) = word_of_int ((s + a + 0x8000) div 2 ^ 16 * 2 ^ 16)" for a
    using got_page_of_int [of "s + a"] by (simp add: s_def)
  have "range_pages symbol r \<subseteq> (\<lambda>k. word_of_int (k * 2 ^ 16)) ` {?lo .. ?hi}"
    unfolding range_pages_def page by (auto intro!: imageI zdiv_mono1)
  then have "card (range_pages symbol r) \<le> card {?lo .. ?hi}"
    by (meson card_image_le card_mono finite_atLeastAtMost_int finite_imageI le_trans)
  moreover have "int (card {?lo .. ?hi}) \<le> mips_elf_pages_for_range r"
    using assms unfolding mips_elf_pages_for_range_def by simp
  ultimately show ?thesis by linarith
qed

definition entry_pages :: "vma \<Rightarrow> got_page_range list \<Rightarrow> vma set" where
  "entry_pages symbol rs = (\<Union>r \<in> set rs. range_pages symbol r)"

lemma card_entry_pages:
  "ranges_ok rs \<Longrightarrow> finite (entry_pages symbol rs) \<and> int (card (entry_pages symbol rs)) \<le> total_pages rs"
proof (induction rs)
  case Nil
  then show ?case by (simp add: entry_pages_def got_simps)
next
  case (Cons r rs)
  then have IH: "finite (entry_pages symbol rs)" "int (card (entry_pages symbol rs)) \<le> total_pages rs"
    and r: "min_addend r \<le> max_addend r"
    by (simp_all add: ranges_ok_Cons)
  have eq: "entry_pages symbol (r # rs) = range_pages symbol r \<union> entry_pages symbol rs"
    by (simp add: entry_pages_def)
  have "card (entry_pages symbol (r # rs)) \<le> card (range_pages symbol r) + card (entry_pages symbol rs)"
    unfolding eq by (rule card_Un_le)
  then show ?case
    using IH card_range_pages [OF r, of symbol] by (simp add: eq got_simps range_pages_def)
qed

lemma covers_entry_pages: "covers rs a \<Longrightarrow> got_page_of (symbol + word_of_int a) \<in> entry_pages symbol rs"
  by (force simp: covers_def entry_pages_def range_pages_def)

definition table_pages :: "(nat \<Rightarrow> int \<Rightarrow> vma) \<Rightarrow> got_page_entry list \<Rightarrow> vma set" where
  "table_pages val entries = (\<Union>e \<in> set entries. entry_pages (val (pe_abfd e) (pe_symndx e)) (pe_ranges e))"

lemma card_table_pages:
  "list_all page_entry_ok es \<Longrightarrow>
     finite (table_pages val es) \<and> int (card (table_pages val es)) \<le> sum_list (map num_pages es)"
proof (induction es)
  case Nil
  then show ?case by (simp add: table_pages_def)
next
  case (Cons e es)
  let ?p = "entry_pages (val (pe_abfd e) (pe_symndx e)) (pe_ranges e)"
  have eq: "table_pages val (e # es) = ?p \<union> table_pages val es"
    by (simp add: table_pages_def)
  have "finite ?p" "int (card ?p) \<le> num_pages e"
    using Cons.prems card_entry_pages [of "pe_ranges e"] by (simp_all add: page_entry_ok_def)
  moreover have "card (table_pages val (e # es)) \<le> card ?p + card (table_pages val es)"
    unfolding eq by (rule card_Un_le)
  ultimately show ?case
    using Cons by (simp add: eq)
qed

text \<open>All page relocations of a link, recorded one after the other.\<close>

definition record_page :: "nat \<times> int \<times> int \<Rightarrow> got_page_entry list \<times> int \<Rightarrow> got_page_entry list \<times> int" where
  "record_page ev st = (case ev of (abfd, symndx, addend) \<Rightarrow>
     mips_elf_record_got_page_entry abfd symndx addend (fst st) (snd st))"

lemma record_pages_inv:
  "pages_inv (fst (fold record_page evs ([], 0))) (snd (fold record_page evs ([], 0)))
   \<and> (\<forall>(b, s, a) \<in> set evs. recorded (fst (fold record_page evs ([], 0))) b s a)"
proof (induction evs rule: rev_induct)
  case Nil
  then show ?case by (simp add: pages_inv_def)
next
  case (snoc ev evs)
  obtain b s a where ev: "ev = (b, s, a)" by (cases ev)
  let ?st = "fold record_page evs ([], 0)"
  have inv: "list_all page_entry_ok (fst ?st)" "distinct (map pe_key (fst ?st))" "snd ?st = sum_list (map num_pages (fst ?st))"
    using snoc.IH by (simp_all add: pages_inv_def)
  have step: "fold record_page (evs @ [ev]) ([], 0) = mips_elf_record_got_page_entry b s a (fst ?st) (snd ?st)"
    by (simp add: record_page_def ev)
  have "pages_inv (fst (fold record_page (evs @ [ev]) ([], 0))) (snd (fold record_page (evs @ [ev]) ([], 0)))"
    unfolding step pages_inv_def using record_page_inv [OF inv(1,2), of b s a "snd ?st"] inv(3) by linarith
  moreover have "recorded (fst (fold record_page (evs @ [ev]) ([], 0))) b' s' a'" if "(b', s', a') \<in> set (evs @ [ev])" for b' s' a'
    unfolding step using that snoc.IH record_page_recorded [OF inv(1), of b s a "snd ?st"] ev by auto
  ultimately show ?case by auto
qed

text \<open>
  C23.  Recording keeps the page table well formed: starting from the empty
  table, after any sequence of calls of \<^verbatim>\<open>mips_elf_record_got_page_entry\<close> the ranges of every entry
  are sorted and too far apart to share a page entry, each key occurs once, each
  \<^verbatim>\<open>num_pages\<close> is the sum over the ranges and \<^verbatim>\<open>page_gotno\<close> the sum over the
  entries; and every recorded addend lies in a range of its symbol.
\<close>

theorem record_got_page_entry_inv:
  "pages_inv (fst (fold record_page evs ([], 0))) (snd (fold record_page evs ([], 0)))
   \<and> (\<forall>(b, s, a) \<in> set evs. recorded (fst (fold record_page evs ([], 0))) b s a)"
  by (rule record_pages_inv)

text \<open>
  C24.  The estimate is safe: wherever the symbols end up in the 64-bit address
  space, the page relocations recorded need at most \<^verbatim>\<open>page_gotno\<close> different GOT page
  entries.
\<close>

theorem page_gotno_enough:
  "int (card {got_page_of (val b s + word_of_int a) | b s a. (b, s, a) \<in> set evs}) \<le> snd (fold record_page evs ([], 0))"
proof -
  let ?st = "fold record_page evs ([], 0)"
  have inv: "list_all page_entry_ok (fst ?st)" "snd ?st = sum_list (map num_pages (fst ?st))"
    and rec: "\<And>b s a. (b, s, a) \<in> set evs \<Longrightarrow> recorded (fst ?st) b s a"
    using record_pages_inv [of evs] by (auto simp: pages_inv_def)
  have "{got_page_of (val b s + word_of_int a) | b s a. (b, s, a) \<in> set evs} \<subseteq> table_pages val (fst ?st)"
  proof clarify
    fix b s a assume "(b, s, a) \<in> set evs"
    then have "recorded (fst ?st) b s a" by (rule rec)
    then obtain e where "e \<in> set (fst ?st)" "pe_key e = (b, s)" "covers (pe_ranges e) a"
      unfolding recorded_def by auto
    then show "got_page_of (val b s + word_of_int a) \<in> table_pages val (fst ?st)"
      using covers_entry_pages by (auto simp: table_pages_def pe_key_def)
  qed
  then have "card {got_page_of (val b s + word_of_int a) | b s a. (b, s, a) \<in> set evs} \<le> card (table_pages val (fst ?st))"
    using card_table_pages [OF inv(1), of val] by (intro card_mono) simp_all
  moreover have "int (card (table_pages val (fst ?st))) \<le> snd ?st"
    using card_table_pages [OF inv(1), of val] inv(2) by simp
  ultimately show ?thesis
    by linarith
qed

theorem record_got_page_entry_inv_witness:
  "recorded (fst (fold record_page [(1, 5, 0), (1, 5, 0x20000), (1, 5, 0x10000)] ([], 0))) 1 5 0x20000"
  using record_got_page_entry_inv [of "[(1, 5, 0), (1, 5, 0x20000), (1, 5, 0x10000)]"] by simp

end
