(* ===== verification/Link.thy ===== *)
theory Link
  imports Objects
begin

text \<open>
  Link-wide objects: the symbols of the linker hash table
  (\<^verbatim>\<open>struct mips_elf_link_hash_entry\<close> with its \<^verbatim>\<open>elf_link_hash_entry\<close> root) and the
  link options.  A pointer to a symbol is its \<^verbatim>\<open>sym_id\<close>.  The decisions that
  elflink.c (not part of the repository) makes about a symbol are function
  fields of the link information: whether references and calls bind locally, and
  whether a dynamic symbol is finished later.
\<close>

section \<open>Symbols\<close>

datatype link_hash_type =
  bfd_link_hash_new | bfd_link_hash_undefined | bfd_link_hash_undefweak | bfd_link_hash_defined
  | bfd_link_hash_defweak | bfd_link_hash_common | bfd_link_hash_indirect nat | bfd_link_hash_warning nat

datatype got_area = GGA_NORMAL | GGA_RELOC_ONLY | GGA_NONE

record la25_stub =
  stub_section :: asection
  stub_offset :: vma
  stub_h :: nat

record link_sym =
  sym_id :: nat
  sym_name :: string
  sym_hash :: "32 word"
  root_type :: link_hash_type
  elf_sym_type :: nat
  def_section :: "asection option"
  def_value :: vma
  st_other :: "8 word"
  def_regular :: bool
  def_dynamic :: bool
  forced_local :: bool
  needs_plt :: bool
  dynindx :: int
  plt_offset :: vma
  sym_la25_stub :: "la25_stub option"
  fn_stub :: "asection option"
  call_stub :: "asection option"
  call_fp_stub :: "asection option"
  sym_tls_type :: "8 word"
  tls_got_offset :: vma
  global_got_area :: got_area
  possibly_dynamic_relocs :: nat
  got_only_for_calls :: bool
  readonly_reloc :: bool
  has_static_relocs :: bool
  no_fn_stub :: bool
  need_fn_stub :: bool
  has_nonpic_branches :: bool
  needs_lazy_stub :: bool

text \<open>The \<^verbatim>\<open>st_other\<close> field, with the values the MIPS ELF ABI documents.\<close>

definition ELF_ST_VISIBILITY :: "8 word \<Rightarrow> 8 word" where
  "ELF_ST_VISIBILITY other = other AND 3"

abbreviation (input) STV_DEFAULT :: "8 word" where "STV_DEFAULT \<equiv> 0"
abbreviation (input) STV_INTERNAL :: "8 word" where "STV_INTERNAL \<equiv> 1"
abbreviation (input) STV_HIDDEN :: "8 word" where "STV_HIDDEN \<equiv> 2"

definition ELF_ST_IS_MIPS16 :: "8 word \<Rightarrow> bool" where
  "ELF_ST_IS_MIPS16 other \<longleftrightarrow> other AND 0xf0 = 0xf0"

definition ELF_ST_IS_MICROMIPS :: "8 word \<Rightarrow> bool" where
  "ELF_ST_IS_MICROMIPS other \<longleftrightarrow> other AND 0xc0 = 0x80"

definition ELF_ST_IS_COMPRESSED :: "8 word \<Rightarrow> bool" where
  "ELF_ST_IS_COMPRESSED other \<longleftrightarrow> ELF_ST_IS_MIPS16 other \<or> ELF_ST_IS_MICROMIPS other"

definition ELF_MIPS_IS_OPTIONAL :: "8 word \<Rightarrow> bool" where
  "ELF_MIPS_IS_OPTIONAL other \<longleftrightarrow> other AND 4 \<noteq> 0"

section \<open>Link options\<close>

record link_info =
  relocatable :: bool
  shared :: bool
  dynamic_sections_created :: bool
  is_vxworks :: bool
  ignore_unresolved :: bool
  sgot :: asection
  sgotplt :: asection
  splt :: "asection option"
  got_symbol_address :: vma
  plt_header_size :: vma
  plt_entry_size :: vma
  tls_sec_vma :: "vma option"
  symbol_references_local :: "link_sym \<Rightarrow> bool"
  symbol_calls_local :: "link_sym \<Rightarrow> bool"
  will_call_finish_dynamic_symbol :: "link_sym \<Rightarrow> bool"
  undefined_symbol_callback :: "string \<Rightarrow> bool"

text \<open>The bases of the thread-local storage relocations.\<close>

definition TP_OFFSET :: vma where "TP_OFFSET = 0x7000"
definition DTP_OFFSET :: vma where "DTP_OFFSET = 0x8000"

definition dtprel_base :: "link_info \<Rightarrow> vma" where
  "dtprel_base info = (case tls_sec_vma info of None \<Rightarrow> 0 | Some v \<Rightarrow> v + DTP_OFFSET)"

definition tprel_base :: "link_info \<Rightarrow> vma" where
  "tprel_base info = (case tls_sec_vma info of None \<Rightarrow> 0 | Some v \<Rightarrow> v + TP_OFFSET)"

definition TLS_RELOC_P :: "r_type \<Rightarrow> bool" where
  "TLS_RELOC_P r_type \<longleftrightarrow>
     r_type = R_MIPS_TLS_DTPMOD32 \<or> r_type = R_MIPS_TLS_DTPMOD64 \<or> r_type = R_MIPS_TLS_DTPREL32
     \<or> r_type = R_MIPS_TLS_DTPREL64 \<or> r_type = R_MIPS_TLS_GD \<or> r_type = R_MIPS_TLS_LDM
     \<or> r_type = R_MIPS_TLS_DTPREL_HI16 \<or> r_type = R_MIPS_TLS_DTPREL_LO16 \<or> r_type = R_MIPS_TLS_GOTTPREL
     \<or> r_type = R_MIPS_TLS_TPREL32 \<or> r_type = R_MIPS_TLS_TPREL64 \<or> r_type = R_MIPS_TLS_TPREL_HI16
     \<or> r_type = R_MIPS_TLS_TPREL_LO16
     \<or> r_type = R_MIPS16_TLS_GD \<or> r_type = R_MIPS16_TLS_LDM \<or> r_type = R_MIPS16_TLS_DTPREL_HI16
     \<or> r_type = R_MIPS16_TLS_DTPREL_LO16 \<or> r_type = R_MIPS16_TLS_GOTTPREL \<or> r_type = R_MIPS16_TLS_TPREL_HI16
     \<or> r_type = R_MIPS16_TLS_TPREL_LO16
     \<or> r_type = R_MICROMIPS_TLS_GD \<or> r_type = R_MICROMIPS_TLS_LDM \<or> r_type = R_MICROMIPS_TLS_DTPREL_HI16
     \<or> r_type = R_MICROMIPS_TLS_DTPREL_LO16 \<or> r_type = R_MICROMIPS_TLS_GOTTPREL
     \<or> r_type = R_MICROMIPS_TLS_TPREL_HI16 \<or> r_type = R_MICROMIPS_TLS_TPREL_LO16"

end
