(* ===== verification/Got.thy ===== *)
theory Got
  imports Link GotPages Arith
begin

text \<open>
  The global offset table (elfxx-mips.c): its entries and their hash tables, the
  recording of GOT references while the relocations are scanned, and the creation
  of local entries and thread-local slots while they are applied.

  Entries are mutable objects shared by several tables (the master table and the
  per-BFD tables of a multi-GOT link), so a table holds indices into the store
  \<^verbatim>\<open>ents\<close>; likewise \<^verbatim>\<open>gots\<close> holds the \<^verbatim>\<open>mips_got_info\<close> structures, the master one
  first.  A hash table of libiberty is the list of its elements; the
  interface \<^verbatim>\<open>htab_key\<close> states what a key must satisfy for that to be faithful.
  \<^verbatim>\<open>BFD_ASSERT\<close> only prints a message; allocation does not fail.
\<close>

section \<open>Keys of hash tables\<close>

locale htab_key =
  fixes wf :: "'a \<Rightarrow> bool" and eq :: "'a \<Rightarrow> 'a \<Rightarrow> bool" and hash :: "'a \<Rightarrow> 'h"
  assumes refl: "wf x \<Longrightarrow> eq x x"
    and sym: "wf x \<Longrightarrow> wf y \<Longrightarrow> eq x y \<Longrightarrow> eq y x"
    and trans: "wf x \<Longrightarrow> wf y \<Longrightarrow> wf z \<Longrightarrow> eq x y \<Longrightarrow> eq y z \<Longrightarrow> eq x z"
    and hash_eq: "wf x \<Longrightarrow> wf y \<Longrightarrow> eq x y \<Longrightarrow> hash x = hash y"
begin

text \<open>Looking only at the elements of the key's hash value finds the same element.\<close>

lemma find_bucket:
  "list_all wf xs \<Longrightarrow> wf k \<Longrightarrow> find (\<lambda>x. hash x = hash k \<and> eq x k) xs = find (\<lambda>x. eq x k) xs"
  by (induction xs) (auto dest: hash_eq)

text \<open>When no two elements match each other, the order of the elements does not matter.\<close>

lemma find_order:
  assumes "list_all wf xs" "wf k" "set xs = set ys" "\<forall>x \<in> set xs. \<forall>y \<in> set xs. eq x y \<longrightarrow> x = y"
  shows "find (\<lambda>x. eq x k) xs = find (\<lambda>x. eq x k) ys"
proof (cases "find (\<lambda>x. eq x k) xs")
  case None
  moreover from this have "find (\<lambda>x. eq x k) ys = None"
    using assms(3) by (simp add: find_None_iff)
  ultimately show ?thesis
    by simp
next
  case (Some x)
  then have x: "x \<in> set xs" "eq x k"
    by (auto simp only: find_Some_iff nth_mem)
  have only: "\<forall>y \<in> set ys. eq y k \<longrightarrow> y = x"
  proof (intro ballI impI)
    fix y assume y: "y \<in> set ys" "eq y k"
    then have wf: "wf x" "wf y" "y \<in> set xs"
      using x assms(1,3) by (auto simp: list_all_iff)
    have "eq k y"
      by (rule sym [OF wf(2) assms(2) y(2)])
    then have "eq x y"
      by (rule trans [OF wf(1) assms(2) wf(2) x(2)])
    then have "x = y"
      using assms(4) [THEN bspec, OF x(1), THEN bspec, OF wf(3)] by simp
    then show "y = x"
      by (rule HOL.sym)
  qed
  have "x \<in> set ys"
    using x(1) assms(3) by simp
  then have "find (\<lambda>x. eq x k) ys = Some x"
    by (rule find_unique [OF _ x(2) only])
  then show ?thesis
    using Some by simp
qed

end

section \<open>GOT entries\<close>

abbreviation (input) GOT_NORMAL :: "8 word" where "GOT_NORMAL \<equiv> 0"
abbreviation (input) GOT_TLS_GD :: "8 word" where "GOT_TLS_GD \<equiv> 1"
abbreviation (input) GOT_TLS_LDM :: "8 word" where "GOT_TLS_LDM \<equiv> 2"
abbreviation (input) GOT_TLS_IE :: "8 word" where "GOT_TLS_IE \<equiv> 4"
abbreviation (input) GOT_TLS_OFFSET_DONE :: "8 word" where "GOT_TLS_OFFSET_DONE \<equiv> 0x40"
abbreviation (input) GOT_TLS_DONE :: "8 word" where "GOT_TLS_DONE \<equiv> 0x80"

text \<open>The union \<^verbatim>\<open>d\<close>; an address and an addend share their storage.\<close>

datatype got_d = D_address vma | D_addend vma | D_h nat

fun d_vma :: "got_d \<Rightarrow> vma" where
  "d_vma (D_address a) = a"
| "d_vma (D_addend a) = a"

fun d_h :: "got_d \<Rightarrow> nat" where
  "d_h (D_h h) = h"

record got_entry =
  ge_abfd :: "nat option"
  ge_symndx :: int
  ge_d :: got_d
  ge_tls_type :: "8 word"
  gotidx :: int

text \<open>The three types of entries described in the source; an LDM entry is a local symbol entry with index 0.\<close>

definition wf_entry :: "got_entry \<Rightarrow> bool" where
  "wf_entry e \<longleftrightarrow>
     (case ge_abfd e of
        None \<Rightarrow> ge_symndx e = -1 \<and> (\<exists>a. ge_d e = D_address a)
      | Some _ \<Rightarrow> if 0 \<le> ge_symndx e then (\<exists>a. ge_d e = D_addend a) else ge_symndx e = -1 \<and> (\<exists>h. ge_d e = D_h h))
     \<and> (ge_tls_type e AND GOT_TLS_LDM \<noteq> 0 \<longrightarrow> ge_abfd e \<noteq> None \<and> ge_symndx e = 0)"

definition mips_elf_hash_bfd_vma :: "vma \<Rightarrow> 32 word" where
  "mips_elf_hash_bfd_vma addr = ucast (addr + drop_bit 32 addr)"

text \<open>\<^verbatim>\<open>hash_of\<close> is the hash value stored in a symbol's root.\<close>

definition mips_elf_got_entry_hash :: "(nat \<Rightarrow> 32 word) \<Rightarrow> got_entry \<Rightarrow> 32 word" where
  "mips_elf_got_entry_hash hash_of entry =
     of_int (ge_symndx entry) + push_bit 17 (ucast (ge_tls_type entry AND GOT_TLS_LDM))
     + (case ge_abfd entry of
          None \<Rightarrow> mips_elf_hash_bfd_vma (d_vma (ge_d entry))
        | Some bid \<Rightarrow> of_nat bid + (if 0 \<le> ge_symndx entry then mips_elf_hash_bfd_vma (d_vma (ge_d entry))
                              else hash_of (d_h (ge_d entry))))"

definition mips_elf_got_entry_eq :: "got_entry \<Rightarrow> got_entry \<Rightarrow> bool" where
  "mips_elf_got_entry_eq e1 e2 \<longleftrightarrow>
     (if (ge_tls_type e1 XOR ge_tls_type e2) AND GOT_TLS_LDM \<noteq> 0 then False
      else ge_abfd e1 = ge_abfd e2 \<and> ge_symndx e1 = ge_symndx e2
        \<and> (if ge_abfd e1 = None then d_vma (ge_d e1) = d_vma (ge_d e2)
           else if 0 \<le> ge_symndx e1 then d_vma (ge_d e1) = d_vma (ge_d e2)
           else d_h (ge_d e1) = d_h (ge_d e2)))"

definition mips_elf_multi_got_entry_hash :: "(nat \<Rightarrow> 32 word) \<Rightarrow> got_entry \<Rightarrow> 32 word" where
  "mips_elf_multi_got_entry_hash hash_of entry =
     of_int (ge_symndx entry)
     + (case ge_abfd entry of
          None \<Rightarrow> mips_elf_hash_bfd_vma (d_vma (ge_d entry))
        | Some bid \<Rightarrow>
            if 0 \<le> ge_symndx entry
            then (if ge_tls_type entry AND GOT_TLS_LDM \<noteq> 0 then push_bit 17 2
                  else of_nat bid + mips_elf_hash_bfd_vma (d_vma (ge_d entry)))
            else hash_of (d_h (ge_d entry)))"

definition mips_elf_multi_got_entry_eq :: "got_entry \<Rightarrow> got_entry \<Rightarrow> bool" where
  "mips_elf_multi_got_entry_eq e1 e2 \<longleftrightarrow>
     (if ge_tls_type e1 AND ge_tls_type e2 AND GOT_TLS_LDM \<noteq> 0 then True
      else if (ge_tls_type e1 XOR ge_tls_type e2) AND GOT_TLS_LDM \<noteq> 0 then False
      else ge_symndx e1 = ge_symndx e2
        \<and> (if 0 \<le> ge_symndx e1 then ge_abfd e1 = ge_abfd e2 \<and> d_vma (ge_d e1) = d_vma (ge_d e2)
           else if ge_abfd e1 = None \<or> ge_abfd e2 = None
           then ge_abfd e1 = ge_abfd e2 \<and> d_vma (ge_d e1) = d_vma (ge_d e2)
           else d_h (ge_d e1) = d_h (ge_d e2)))"

text \<open>Whether the LDM bit is set decides most of the comparison.\<close>

definition is_ldm :: "got_entry \<Rightarrow> bool" where
  "is_ldm e \<longleftrightarrow> bit (ge_tls_type e) 1"

lemma and_2_eq_0: "(w::8 word) AND 2 \<noteq> 0 \<longleftrightarrow> bit w 1"
proof -
  have "w AND 2 = (if bit w 1 then 2 else 0)"
  proof (rule bit_word_eqI)
    fix n assume "n < LENGTH(8)"
    then have "n \<in> {0,1,2,3,4,5,6,7}" by auto
    then show "bit (w AND 2) n = bit (if bit w 1 then 2 else (0::8 word)) n"
      by (elim insertE emptyE) (simp_all add: bit_simps)
  qed
  then show ?thesis by simp
qed

lemma ldm_tests:
  "ge_tls_type e AND 2 \<noteq> 0 \<longleftrightarrow> is_ldm e"
  "(ge_tls_type e1 XOR ge_tls_type e2) AND 2 \<noteq> 0 \<longleftrightarrow> is_ldm e1 \<noteq> is_ldm e2"
  "ge_tls_type e1 AND ge_tls_type e2 AND 2 \<noteq> 0 \<longleftrightarrow> is_ldm e1 \<and> is_ldm e2"
  using and_2_eq_0 [of "ge_tls_type e"] and_2_eq_0 [of "ge_tls_type e1 XOR ge_tls_type e2"]
    and_2_eq_0 [of "ge_tls_type e1 AND ge_tls_type e2"]
  by (simp_all add: is_ldm_def bit_simps and.assoc)

lemma ldm_hash: "push_bit 17 (ucast (ge_tls_type e AND 2)) = (if is_ldm e then push_bit 17 2 else (0 :: 32 word))"
proof -
  have "ge_tls_type e AND 2 = (if is_ldm e then 2 else 0)"
  proof (rule bit_word_eqI)
    fix n assume "n < LENGTH(8)"
    then have "n \<in> {0,1,2,3,4,5,6,7}" by auto
    then show "bit (ge_tls_type e AND 2) n = bit (if is_ldm e then 2 else (0::8 word)) n"
      by (elim insertE emptyE) (simp_all add: bit_simps is_ldm_def)
  qed
  then show ?thesis by simp
qed

text \<open>A well-formed entry is an address, a local symbol with addend, or a global symbol.\<close>

lemma wf_entry_cases:
  assumes "wf_entry e"
  obtains a where "ge_abfd e = None" "ge_symndx e = -1" "ge_d e = D_address a" "\<not> is_ldm e"
  | b a where "ge_abfd e = Some b" "0 \<le> ge_symndx e" "ge_d e = D_addend a" "is_ldm e \<longrightarrow> ge_symndx e = 0"
  | b h where "ge_abfd e = Some b" "ge_symndx e = -1" "ge_d e = D_h h" "\<not> is_ldm e"
proof (cases "ge_abfd e")
  case None
  then show thesis
    using assms that(1) ldm_tests(1) [of e] by (auto simp: wf_entry_def)
next
  case (Some b)
  then show thesis
    using assms that(2,3) ldm_tests(1) [of e] by (cases "0 \<le> ge_symndx e") (auto simp: wf_entry_def)
qed

text \<open>What the comparison and the hash of well-formed entries depend on.\<close>

lemma got_entry_eq_iff:
  assumes "wf_entry e1" "wf_entry e2"
  shows "mips_elf_got_entry_eq e1 e2 \<longleftrightarrow>
    is_ldm e1 = is_ldm e2 \<and> ge_abfd e1 = ge_abfd e2 \<and> ge_symndx e1 = ge_symndx e2 \<and> ge_d e1 = ge_d e2"
  by (rule wf_entry_cases [OF assms(1)]; rule wf_entry_cases [OF assms(2)])
    (auto simp: mips_elf_got_entry_eq_def ldm_tests)

definition multi_key :: "got_entry \<Rightarrow> bool \<times> int \<times> nat option \<times> got_d" where
  "multi_key e =
     (if is_ldm e then (True, 0, None, D_addend 0)
      else (False, ge_symndx e, if 0 \<le> ge_symndx e then ge_abfd e else None, ge_d e))"

lemma multi_got_entry_eq_iff:
  assumes "wf_entry e1" "wf_entry e2"
  shows "mips_elf_multi_got_entry_eq e1 e2 \<longleftrightarrow> multi_key e1 = multi_key e2"
  by (rule wf_entry_cases [OF assms(1)]; rule wf_entry_cases [OF assms(2)])
    (auto simp: mips_elf_multi_got_entry_eq_def ldm_tests multi_key_def)

lemma got_entry_hash_eq:
  assumes "wf_entry e1" "wf_entry e2" "mips_elf_got_entry_eq e1 e2"
  shows "mips_elf_got_entry_hash hash_of e1 = mips_elf_got_entry_hash hash_of e2"
  using assms(3) unfolding got_entry_eq_iff [OF assms(1,2)]
  by (elim conjE) (simp add: mips_elf_got_entry_hash_def ldm_hash split: option.split)

lemma multi_got_entry_hash_key:
  assumes "wf_entry e"
  shows "mips_elf_multi_got_entry_hash hash_of e =
    (case multi_key e of (ldm, symndx, abfd, d) \<Rightarrow>
       if ldm then push_bit 17 2
       else of_int symndx + (if 0 \<le> symndx then of_nat (the abfd) + mips_elf_hash_bfd_vma (d_vma d)
         else case d of D_h h \<Rightarrow> hash_of h | _ \<Rightarrow> mips_elf_hash_bfd_vma (d_vma d)))"
  by (rule wf_entry_cases [OF assms]) (auto simp: mips_elf_multi_got_entry_hash_def multi_key_def ldm_tests)

interpretation got_key: htab_key wf_entry mips_elf_got_entry_eq "mips_elf_got_entry_hash hash_of" for hash_of
proof (unfold_locales, goal_cases)
  case (4 x y)
  then show ?case by (rule got_entry_hash_eq)
qed (simp_all add: got_entry_eq_iff)

interpretation multi_got_key: htab_key wf_entry mips_elf_multi_got_entry_eq "mips_elf_multi_got_entry_hash hash_of" for hash_of
  by unfold_locales (simp_all add: multi_got_entry_eq_iff multi_got_entry_hash_key)

interpretation page_key: htab_key "\<lambda>_. True" mips_got_page_entry_eq mips_got_page_entry_hash
  by unfold_locales (auto simp: mips_got_page_entry_eq_def mips_got_page_entry_hash_def)

text \<open>
  The GOT hash tables are sound: for entries of the three kinds the
  comparison functions of the master table and of the per-BFD tables are
  equivalences that agree with the hash functions, so a search of the
  bucket of a key finds exactly what a search of the whole table finds.
\<close>

theorem got_tables_sound:
  assumes "list_all wf_entry es" "wf_entry k"
  shows "find (\<lambda>e. mips_elf_got_entry_hash hash_of e = mips_elf_got_entry_hash hash_of k \<and> mips_elf_got_entry_eq e k) es
       = find (\<lambda>e. mips_elf_got_entry_eq e k) es
    \<and> find (\<lambda>e. mips_elf_multi_got_entry_hash hash_of e = mips_elf_multi_got_entry_hash hash_of k
                \<and> mips_elf_multi_got_entry_eq e k) es
       = find (\<lambda>e. mips_elf_multi_got_entry_eq e k) es"
  using got_key.find_bucket [OF assms] multi_got_key.find_bucket [OF assms] by blast

definition address_entry :: "vma \<Rightarrow> got_entry" where
  "address_entry a = \<lparr>ge_abfd = None, ge_symndx = -1, ge_d = D_address a, ge_tls_type = 0, gotidx = -1\<rparr>"

lemma wf_address_entry [simp]: "wf_entry (address_entry a)"
  by (simp add: wf_entry_def address_entry_def)

theorem got_tables_sound_witness:
  "find (\<lambda>e. mips_elf_got_entry_hash (\<lambda>_. 0) e = mips_elf_got_entry_hash (\<lambda>_. 0) (address_entry 4) \<and> mips_elf_got_entry_eq e (address_entry 4))
     [address_entry 0x10, address_entry 4] = find (\<lambda>e. mips_elf_got_entry_eq e (address_entry 4)) [address_entry 0x10, address_entry 4]"
  using got_tables_sound [of "[address_entry 0x10, address_entry 4]" "address_entry 4" "\<lambda>_. 0"] by simp

end
