(* ===== verification/GotState.thy ===== *)
theory GotState
  imports Got Howto
begin

text \<open>
  The state of the global offset table during the final link and the
  operations on it: looking up and creating local entries, page entries,
  thread-local slots with their dynamic relocations, and the index of a global
  entry (elfxx-mips.c).

  The dynamic relocation section is the list of the records written to it, in
  order; the functions that encode them for the file belong to elfcode.h, which is
  not part of the repository.
\<close>

section \<open>State\<close>

record got_info =
  global_gotsym :: "nat option"
  global_gotno :: nat
  reloc_only_gotno :: nat
  tls_gotno :: nat
  tls_assigned_gotno :: nat
  local_gotno :: nat
  page_gotno :: nat
  assigned_gotno :: nat
  got_multi :: bool
  got_entries :: "nat list"
  got_page_entries :: "got_page_entry list"
  bfd2got :: "(nat \<times> nat) list option"
  got_next :: "nat option"
  tls_ldm_offset :: vma

record got_state =
  ents :: "got_entry list"
  gots :: "got_info list"
  sgot_contents :: bytes
  rel_dyn :: "elf_rela list"
  syms :: "nat \<Rightarrow> link_sym"

definition MINUS_TWO :: vma where "MINUS_TWO = 0 - 2"

text \<open>The comparison function the table was created with, and the search of a table.\<close>

definition got_eq :: "got_info \<Rightarrow> got_entry \<Rightarrow> got_entry \<Rightarrow> bool" where
  "got_eq g = (if got_multi g then mips_elf_multi_got_entry_eq else mips_elf_got_entry_eq)"

definition htab_find :: "got_state \<Rightarrow> got_info \<Rightarrow> got_entry \<Rightarrow> nat option" where
  "htab_find st g key = find (\<lambda>p. got_eq g (ents st ! p) key) (got_entries g)"

definition mips_elf_got_for_ibfd :: "got_state \<Rightarrow> nat \<Rightarrow> nat \<Rightarrow> nat option" where
  "mips_elf_got_for_ibfd st g ibfd =
     (case bfd2got (gots st ! g) of None \<Rightarrow> Some g | Some m \<Rightarrow> map_of m ibfd)"

section \<open>Local entries\<close>

definition local_key :: "bfd \<Rightarrow> vma \<Rightarrow> nat \<Rightarrow> nat option \<Rightarrow> r_type \<Rightarrow> got_entry" where
  "local_key ibfd value r_symndx h r_type =
     (if TLS_RELOC_P r_type then
        (if tls_ldm_reloc_p r_type
         then \<lparr>ge_abfd = Some (bfd_id ibfd), ge_symndx = 0, ge_d = D_addend 0, ge_tls_type = GOT_TLS_LDM, gotidx = -1\<rparr>
         else case h of
           None \<Rightarrow> \<lparr>ge_abfd = Some (bfd_id ibfd), ge_symndx = int r_symndx, ge_d = D_addend 0, ge_tls_type = 0, gotidx = -1\<rparr>
         | Some h \<Rightarrow> \<lparr>ge_abfd = Some (bfd_id ibfd), ge_symndx = -1, ge_d = D_h h, ge_tls_type = 0, gotidx = -1\<rparr>)
      else \<lparr>ge_abfd = None, ge_symndx = -1, ge_d = D_address value, ge_tls_type = 0, gotidx = -1\<rparr>)"

text \<open>
  \<^verbatim>\<open>mips_elf_create_local_got_entry\<close>: the entry found or created (a \<^verbatim>\<open>NULL\<close> result
  is \<^verbatim>\<open>None\<close>) and the new state.  When the slots are used up the new entry stays in the
  table with index -1, as in the code.
\<close>

definition mips_elf_create_local_got_entry ::
  "link_info \<Rightarrow> bfd \<Rightarrow> bfd \<Rightarrow> vma \<Rightarrow> nat \<Rightarrow> nat option \<Rightarrow> r_type \<Rightarrow> got_state \<Rightarrow> nat option \<times> got_state" where
  "mips_elf_create_local_got_entry info abfd ibfd value r_symndx h r_type st =
     (case (case mips_elf_got_for_ibfd st 0 (bfd_id ibfd) of
              Some g \<Rightarrow> Some g | None \<Rightarrow> mips_elf_got_for_ibfd st 0 (bfd_id abfd)) of
        None \<Rightarrow> (None, st)
      | Some gi \<Rightarrow>
          let g = gots st ! gi;
              entry = local_key ibfd value r_symndx h r_type
          in if TLS_RELOC_P r_type then (htab_find st g entry, st)
             else case htab_find st g entry of
                 Some p \<Rightarrow> (Some p, st)
               | None \<Rightarrow>
                   let idx = MIPS_ELF_GOT_SIZE abfd * assigned_gotno g;
                       p = length (ents st);
                       full = assigned_gotno g + 1 > local_gotno g;
                       entry = entry\<lparr>gotidx := if full then -1 else int idx\<rparr>;
                       st = st\<lparr>ents := ents st @ [entry],
                               gots := (gots st)[gi := g\<lparr>assigned_gotno := assigned_gotno g + 1,
                                                         got_entries := got_entries g @ [p]\<rparr>]\<rparr>
                   in if full then (None, st)
                      else
                        let st = st\<lparr>sgot_contents := MIPS_ELF_PUT_WORD abfd value (sgot_contents st) idx\<rparr>;
                            st = (if is_vxworks info
                                  then st\<lparr>rel_dyn := rel_dyn st @
                                    [\<lparr>r_offset = section_address (sgot info) + of_nat idx,
                                      r_info = ELF_R_INFO abfd 0 R_MIPS_32, r_addend = value\<rparr>]\<rparr>
                                  else st)
                        in (Some p, st))"

definition mips_elf_got_page ::
  "link_info \<Rightarrow> bfd \<Rightarrow> bfd \<Rightarrow> vma \<Rightarrow> got_state \<Rightarrow> vma \<times> vma \<times> got_state" where
  "mips_elf_got_page info abfd ibfd value st =
     (let page = got_page_of value
      in case mips_elf_create_local_got_entry info abfd ibfd page 0 None R_MIPS_GOT_PAGE st of
           (None, st) \<Rightarrow> (MINUS_ONE, 0, st)
         | (Some p, st) \<Rightarrow> (of_int (gotidx (ents st ! p)), value - d_vma (ge_d (ents st ! p)), st))"

definition mips_elf_got16_entry ::
  "link_info \<Rightarrow> bfd \<Rightarrow> bfd \<Rightarrow> vma \<Rightarrow> bool \<Rightarrow> got_state \<Rightarrow> vma \<times> got_state" where
  "mips_elf_got16_entry info abfd ibfd value external st =
     (let value = (if \<not> external then push_bit 16 (mips_elf_high value) else value)
      in case mips_elf_create_local_got_entry info abfd ibfd value 0 None R_MIPS_GOT16 st of
           (None, st) \<Rightarrow> (MINUS_ONE, st)
         | (Some p, st) \<Rightarrow> (of_int (gotidx (ents st ! p)), st))"

text \<open>
  The distance of the GOT of an input BFD from the primary one, and the
  \<^verbatim>\<open>$gp\<close>-relative offset of an index.  The counts are unsigned ints, so the sum wraps:
  with several GOTs \<^verbatim>\<open>local_gotno\<close> of the master GOT is minus the number of globals.
\<close>

definition mips_elf_adjust_gp :: "bfd \<Rightarrow> got_state \<Rightarrow> bfd \<Rightarrow> vma" where
  "mips_elf_adjust_gp abfd st ibfd =
     (if bfd2got (gots st ! 0) = None then 0
      else case mips_elf_got_for_ibfd st 0 (bfd_id ibfd) of
          None \<Rightarrow> 0
        | Some gi \<Rightarrow>
            let g = gots st ! the (got_next (gots st ! gi))
            in of_nat (take_bit 32 ((local_gotno g + global_gotno g + tls_gotno g) * MIPS_ELF_GOT_SIZE abfd)))"

definition mips_elf_got_offset_from_index :: "link_info \<Rightarrow> bfd \<Rightarrow> bfd \<Rightarrow> vma \<Rightarrow> got_state \<Rightarrow> vma" where
  "mips_elf_got_offset_from_index info output_bfd input_bfd got_index st =
     (let gp = gp_value output_bfd + mips_elf_adjust_gp output_bfd st input_bfd
      in section_address (sgot info) + got_index - gp)"

section \<open>Local entries: the invariant\<close>

text \<open>
  What every creation of a local entry keeps of the GOT \<^verbatim>\<open>gi\<close>: its table holds
  well-formed entries no two of which match; an address entry has a slot of its own
  among the assigned ones and the slot holds the address; only a full GOT has
  entries without a slot.
\<close>

definition slot_ok :: "bfd \<Rightarrow> got_info \<Rightarrow> bytes \<Rightarrow> got_entry \<Rightarrow> bool" where
  "slot_ok abfd g contents e \<longleftrightarrow>
     (gotidx e = -1 \<and> local_gotno g < assigned_gotno g)
     \<or> (\<exists>k. k < assigned_gotno g \<and> k < local_gotno g \<and> gotidx e = int (MIPS_ELF_GOT_SIZE abfd * k)
         \<and> MIPS_ELF_GET_WORD abfd contents (MIPS_ELF_GOT_SIZE abfd * k)
             = take_bit (8 * MIPS_ELF_GOT_SIZE abfd) (d_vma (ge_d e)))"

definition got_ok :: "bfd \<Rightarrow> got_state \<Rightarrow> nat \<Rightarrow> bool" where
  "got_ok abfd st gi \<longleftrightarrow> gi < length (gots st)
     \<and> MIPS_ELF_GOT_SIZE abfd * local_gotno (gots st ! gi) \<le> length (sgot_contents st)
     \<and> (\<forall>p \<in> set (got_entries (gots st ! gi)). p < length (ents st) \<and> wf_entry (ents st ! p)
          \<and> (ge_abfd (ents st ! p) = None \<longrightarrow> slot_ok abfd (gots st ! gi) (sgot_contents st) (ents st ! p)))
     \<and> (\<forall>p \<in> set (got_entries (gots st ! gi)). \<forall>q \<in> set (got_entries (gots st ! gi)).
          got_eq (gots st ! gi) (ents st ! p) (ents st ! q) \<longrightarrow> p = q)
     \<and> (\<forall>p \<in> set (got_entries (gots st ! gi)). \<forall>q \<in> set (got_entries (gots st ! gi)).
          ge_abfd (ents st ! p) = None \<and> ge_abfd (ents st ! q) = None
          \<and> gotidx (ents st ! p) = gotidx (ents st ! q) \<and> gotidx (ents st ! p) \<noteq> -1 \<longrightarrow> p = q)"

lemma local_key_address:
  "\<not> TLS_RELOC_P r_type \<Longrightarrow> local_key ibfd v n h r_type
     = \<lparr>ge_abfd = None, ge_symndx = -1, ge_d = D_address v, ge_tls_type = 0, gotidx = -1\<rparr>"
  by (simp add: local_key_def)

lemma got_eq_address:
  assumes "wf_entry e"
  shows "got_eq g e \<lparr>ge_abfd = None, ge_symndx = -1, ge_d = D_address v, ge_tls_type = 0, gotidx = i\<rparr>
           \<longleftrightarrow> ge_abfd e = None \<and> ge_d e = D_address v"
    and "got_eq g \<lparr>ge_abfd = None, ge_symndx = -1, ge_d = D_address v, ge_tls_type = 0, gotidx = i\<rparr> e
           \<longleftrightarrow> ge_abfd e = None \<and> ge_d e = D_address v"
proof -
  let ?k = "\<lparr>ge_abfd = None, ge_symndx = -1, ge_d = D_address v, ge_tls_type = 0, gotidx = i\<rparr>"
  have k: "wf_entry ?k" "\<not> is_ldm ?k"
    by (simp_all add: wf_entry_def is_ldm_def)
  show "got_eq g e ?k \<longleftrightarrow> ge_abfd e = None \<and> ge_d e = D_address v"
    using k by (rule_tac wf_entry_cases [OF assms])
      (auto simp: got_eq_def got_entry_eq_iff [OF assms k(1)] multi_got_entry_eq_iff [OF assms k(1)] multi_key_def)
  show "got_eq g ?k e \<longleftrightarrow> ge_abfd e = None \<and> ge_d e = D_address v"
    using k by (rule_tac wf_entry_cases [OF assms])
      (auto simp: got_eq_def got_entry_eq_iff [OF k(1) assms] multi_got_entry_eq_iff [OF k(1) assms] multi_key_def)
qed

text \<open>The search finds the entry of an address when there is one.\<close>

lemma find_address_Some:
  assumes "got_ok abfd st gi" "\<not> TLS_RELOC_P r_type"
    and "htab_find st (gots st ! gi) (local_key ibfd v n h r_type) = Some p"
  shows "p \<in> set (got_entries (gots st ! gi))" "ge_abfd (ents st ! p) = None" "ge_d (ents st ! p) = D_address v"
proof -
  have p: "p \<in> set (got_entries (gots st ! gi))" "got_eq (gots st ! gi) (ents st ! p) (local_key ibfd v n h r_type)"
    using assms(3) unfolding htab_find_def find_Some_iff by auto
  moreover from this have "wf_entry (ents st ! p)"
    using assms(1) by (simp add: got_ok_def)
  ultimately show "p \<in> set (got_entries (gots st ! gi))" "ge_abfd (ents st ! p) = None" "ge_d (ents st ! p) = D_address v"
    using assms(2) by (simp_all add: local_key_address got_eq_address)
qed

lemma find_address_None:
  assumes "got_ok abfd st gi" "\<not> TLS_RELOC_P r_type"
    and "htab_find st (gots st ! gi) (local_key ibfd v n h r_type) = None"
    and "p \<in> set (got_entries (gots st ! gi))"
  shows "\<not> (ge_abfd (ents st ! p) = None \<and> ge_d (ents st ! p) = D_address v)"
proof -
  have "\<not> got_eq (gots st ! gi) (ents st ! p) (local_key ibfd v n h r_type)"
    using assms(3,4) unfolding htab_find_def find_None_iff by auto
  moreover have "wf_entry (ents st ! p)"
    using assms(1,4) by (simp add: got_ok_def)
  ultimately show ?thesis
    using assms(2) by (simp add: local_key_address got_eq_address)
qed

text \<open>Adding an entry for a new address.\<close>

lemma got_ok_insert:
  fixes st st' gi g g' e v
  defines "g \<equiv> gots st ! gi"
  defines "g' \<equiv> g\<lparr>assigned_gotno := assigned_gotno g + 1, got_entries := got_entries g @ [length (ents st)]\<rparr>"
  assumes ok: "got_ok abfd st gi"
    and new: "\<And>p. p \<in> set (got_entries g) \<Longrightarrow> \<not> (ge_abfd (ents st ! p) = None \<and> ge_d (ents st ! p) = D_address v)"
    and e: "ge_abfd e = None" "ge_symndx e = -1" "ge_d e = D_address v" "ge_tls_type e = 0"
    and st': "ents st' = ents st @ [e]" "gots st' = (gots st)[gi := g']" "length (sgot_contents st') = length (sgot_contents st)"
    and slot: "slot_ok abfd g' (sgot_contents st') e"
    and old: "\<And>p. p \<in> set (got_entries g) \<Longrightarrow> ge_abfd (ents st ! p) = None \<Longrightarrow> slot_ok abfd g (sgot_contents st) (ents st ! p)
                \<Longrightarrow> slot_ok abfd g' (sgot_contents st') (ents st ! p) \<and> (gotidx e = gotidx (ents st ! p) \<longrightarrow> gotidx e = -1)"
  shows "got_ok abfd st' gi"
proof -
  have gi: "gi < length (gots st)" and g'gi: "gots st' ! gi = g'"
    using ok st'(2) by (simp_all add: got_ok_def)
  have tab: "set (got_entries g') = insert (length (ents st)) (set (got_entries g))"
    by (simp add: g'_def)
  have inside: "\<And>p. p \<in> set (got_entries g) \<Longrightarrow> p < length (ents st)"
    using ok by (simp add: got_ok_def g_def)
  then have old_ent: "\<And>p. p \<in> set (got_entries g) \<Longrightarrow> ents st' ! p = ents st ! p"
    by (simp add: st'(1) nth_append)
  have new_ent: "ents st' ! length (ents st) = e"
    by (simp add: st'(1))
  have wf: "wf_entry e"
    using e by (simp add: wf_entry_def)
  have wf_old: "\<And>p. p \<in> set (got_entries g) \<Longrightarrow> wf_entry (ents st ! p)"
    using ok by (simp add: got_ok_def g_def)
  have eq_g: "got_eq g' = got_eq g"
    by (simp add: got_eq_def g'_def fun_eq_iff)
  have e_eq: "e = \<lparr>ge_abfd = None, ge_symndx = -1, ge_d = D_address v, ge_tls_type = 0, gotidx = gotidx e\<rparr>"
    using e by simp
  have ne: "\<not> got_eq g (ents st ! p) e" "\<not> got_eq g e (ents st ! p)" if "p \<in> set (got_entries g)" for p
    using got_eq_address [OF wf_old [OF that], of g v "gotidx e"] new [OF that] by (metis e_eq)+
  show ?thesis
    unfolding got_ok_def g'gi
  proof (intro conjI ballI)
    show "gi < length (gots st')"
      using gi st'(2) by simp
    show "MIPS_ELF_GOT_SIZE abfd * local_gotno g' \<le> length (sgot_contents st')"
      using ok st'(3) by (simp add: got_ok_def g'_def g_def)
    fix p assume p: "p \<in> set (got_entries g')"
    then show "p < length (ents st')"
      using inside by (auto simp: tab st'(1) intro: less_SucI)
    show "wf_entry (ents st' ! p)"
      using p wf wf_old by (auto simp: tab old_ent new_ent)
    show "ge_abfd (ents st' ! p) = None \<longrightarrow> slot_ok abfd g' (sgot_contents st') (ents st' ! p)"
      using p ok old slot by (auto simp: tab old_ent new_ent got_ok_def g_def)
    fix q assume q: "q \<in> set (got_entries g')"
    show "got_eq g' (ents st' ! p) (ents st' ! q) \<longrightarrow> p = q"
      using p q ok ne by (auto simp: tab old_ent new_ent got_ok_def eq_g) (auto simp: g_def)
    show "ge_abfd (ents st' ! p) = None \<and> ge_abfd (ents st' ! q) = None
          \<and> gotidx (ents st' ! p) = gotidx (ents st' ! q) \<and> gotidx (ents st' ! p) \<noteq> -1 \<longrightarrow> p = q"
      using p q ok old by (auto simp: tab old_ent new_ent got_ok_def g_def)
  qed
qed

text \<open>The three outcomes of \<^verbatim>\<open>mips_elf_create_local_got_entry\<close> for an address.\<close>

definition full_got :: "got_info \<Rightarrow> bool" where
  "full_got g \<longleftrightarrow> assigned_gotno g + 1 > local_gotno g"

definition insert_entry :: "got_state \<Rightarrow> nat \<Rightarrow> got_entry \<Rightarrow> got_state" where
  "insert_entry st gi e = st\<lparr>ents := ents st @ [e],
     gots := (gots st)[gi := (gots st ! gi)\<lparr>assigned_gotno := assigned_gotno (gots st ! gi) + 1,
                                          got_entries := got_entries (gots st ! gi) @ [length (ents st)]\<rparr>]\<rparr>"

definition new_entry :: "vma \<Rightarrow> int \<Rightarrow> got_entry" where
  "new_entry v idx = \<lparr>ge_abfd = None, ge_symndx = -1, ge_d = D_address v, ge_tls_type = 0, gotidx = idx\<rparr>"

lemma create_local_found:
  assumes "\<not> TLS_RELOC_P r_type" "mips_elf_got_for_ibfd st 0 (bfd_id ibfd) = Some gi"
    and "htab_find st (gots st ! gi) (local_key ibfd v n h r_type) = Some p"
  shows "mips_elf_create_local_got_entry info abfd ibfd v n h r_type st = (Some p, st)"
  using assms by (simp add: mips_elf_create_local_got_entry_def Let_def)

lemma create_local_full:
  assumes "\<not> TLS_RELOC_P r_type" "mips_elf_got_for_ibfd st 0 (bfd_id ibfd) = Some gi"
    and "htab_find st (gots st ! gi) (local_key ibfd v n h r_type) = None" "full_got (gots st ! gi)"
  shows "mips_elf_create_local_got_entry info abfd ibfd v n h r_type st = (None, insert_entry st gi (new_entry v (-1)))"
  using assms
  by (simp add: mips_elf_create_local_got_entry_def Let_def full_got_def insert_entry_def new_entry_def local_key_address)

lemma create_local_new:
  assumes "\<not> TLS_RELOC_P r_type" "mips_elf_got_for_ibfd st 0 (bfd_id ibfd) = Some gi"
    and "htab_find st (gots st ! gi) (local_key ibfd v n h r_type) = None" "\<not> full_got (gots st ! gi)"
  shows "\<exists>rd. mips_elf_create_local_got_entry info abfd ibfd v n h r_type st =
     (Some (length (ents st)),
      (insert_entry st gi (new_entry v (int (MIPS_ELF_GOT_SIZE abfd * assigned_gotno (gots st ! gi)))))
        \<lparr>sgot_contents := MIPS_ELF_PUT_WORD abfd v (sgot_contents st) (MIPS_ELF_GOT_SIZE abfd * assigned_gotno (gots st ! gi)),
         rel_dyn := rd\<rparr>)"
  using assms
  by (auto simp: mips_elf_create_local_got_entry_def Let_def full_got_def insert_entry_def new_entry_def local_key_address
      intro: exI [of _ "rel_dyn st"])

lemma slot_okE:
  assumes "slot_ok abfd g c e"
  obtains "gotidx e = -1" "local_gotno g < assigned_gotno g"
  | k where "k < assigned_gotno g" "k < local_gotno g" "gotidx e = int (MIPS_ELF_GOT_SIZE abfd * k)"
      "MIPS_ELF_GET_WORD abfd c (MIPS_ELF_GOT_SIZE abfd * k) = take_bit (8 * MIPS_ELF_GOT_SIZE abfd) (d_vma (ge_d e))"
  using assms unfolding slot_ok_def by blast

lemma slot_okI:
  assumes "k < assigned_gotno g" "k < local_gotno g" "gotidx e = int (MIPS_ELF_GOT_SIZE abfd * k)"
    "MIPS_ELF_GET_WORD abfd c (MIPS_ELF_GOT_SIZE abfd * k) = take_bit (8 * MIPS_ELF_GOT_SIZE abfd) (d_vma (ge_d e))"
  shows "slot_ok abfd g c e"
  using assms unfolding slot_ok_def by blast

lemma slot_ok_more:
  assumes "slot_ok abfd g c e"
  shows "slot_ok abfd (g\<lparr>assigned_gotno := Suc (assigned_gotno g), got_entries := t\<rparr>) c e"
  using assms
proof (cases rule: slot_okE)
  case 1
  then show ?thesis by (simp add: slot_ok_def)
next
  case (2 k)
  then show ?thesis by (intro slot_okI [of k]) simp_all
qed

lemma insert_full_ok:
  assumes "got_ok abfd st gi" "full_got (gots st ! gi)"
    and "\<And>p. p \<in> set (got_entries (gots st ! gi)) \<Longrightarrow> \<not> (ge_abfd (ents st ! p) = None \<and> ge_d (ents st ! p) = D_address v)"
  shows "got_ok abfd (insert_entry st gi (new_entry v (-1))) gi"
proof (rule got_ok_insert [OF assms(1,3)])
  show "slot_ok abfd ((gots st ! gi)\<lparr>assigned_gotno := assigned_gotno (gots st ! gi) + 1,
      got_entries := got_entries (gots st ! gi) @ [length (ents st)]\<rparr>)
      (sgot_contents (insert_entry st gi (new_entry v (-1)))) (new_entry v (-1))"
    using assms(2) by (simp add: slot_ok_def new_entry_def full_got_def)
qed (simp_all add: new_entry_def insert_entry_def slot_ok_more)

lemma insert_slot_ok:
  assumes ok: "got_ok abfd st gi" and xv: "xvec_ok (bfd_xvec abfd)" and room: "\<not> full_got (gots st ! gi)"
    and new: "\<And>p. p \<in> set (got_entries (gots st ! gi)) \<Longrightarrow> \<not> (ge_abfd (ents st ! p) = None \<and> ge_d (ents st ! p) = D_address v)"
  shows "got_ok abfd ((insert_entry st gi (new_entry v (int (MIPS_ELF_GOT_SIZE abfd * assigned_gotno (gots st ! gi)))))
        \<lparr>sgot_contents := MIPS_ELF_PUT_WORD abfd v (sgot_contents st) (MIPS_ELF_GOT_SIZE abfd * assigned_gotno (gots st ! gi)),
         rel_dyn := rd\<rparr>) gi"
proof -
  let ?z = "MIPS_ELF_GOT_SIZE abfd" and ?k = "assigned_gotno (gots st ! gi)" and ?c = "sgot_contents st"
  have k: "?k < local_gotno (gots st ! gi)"
    using room by (simp add: full_got_def)
  have fits: "?z * i + ?z \<le> length ?c" if "i < local_gotno (gots st ! gi)" for i
  proof -
    have "?z * (i + 1) \<le> ?z * local_gotno (gots st ! gi)"
      using that by (intro mult_le_mono2) simp
    with ok show ?thesis by (simp add: got_ok_def)
  qed
  have apart: "?z * ?k + ?z \<le> ?z * i \<or> ?z * i + ?z \<le> ?z * ?k" if "i \<noteq> ?k" for i
  proof -
    have "?k + 1 \<le> i \<or> i + 1 \<le> ?k" using that by linarith
    then have "?z * (?k + 1) \<le> ?z * i \<or> ?z * (i + 1) \<le> ?z * ?k" by (meson mult_le_mono2)
    then show ?thesis by (simp add: add.commute)
  qed
  have z: "0 < ?z" using got_size_cases [of abfd] by auto
  let ?e = "new_entry v (int (?z * ?k))" and ?c' = "MIPS_ELF_PUT_WORD abfd v ?c (?z * ?k)"
  let ?st' = "(insert_entry st gi ?e)\<lparr>sgot_contents := ?c', rel_dyn := rd\<rparr>"
  let ?g' = "(gots st ! gi)\<lparr>assigned_gotno := ?k + 1, got_entries := got_entries (gots st ! gi) @ [length (ents st)]\<rparr>"
  have len: "length (sgot_contents ?st') = length ?c"
    by (simp add: put_word_length [OF xv fits [OF k]])
  have slot: "slot_ok abfd ?g' (sgot_contents ?st') ?e"
    using k get_put_word [OF xv fits [OF k], of v] by (intro slot_okI [of ?k]) (simp_all add: new_entry_def)
  have old: "slot_ok abfd ?g' (sgot_contents ?st') (ents st ! p) \<and> (gotidx ?e = gotidx (ents st ! p) \<longrightarrow> gotidx ?e = -1)"
    if "slot_ok abfd (gots st ! gi) ?c (ents st ! p)" for p
    using that
  proof (cases rule: slot_okE)
    case 1
    then show ?thesis
      using k by simp
  next
    case (2 i)
    then have i: "i \<noteq> ?k" by simp
    then have "MIPS_ELF_GET_WORD abfd ?c' (?z * i) = MIPS_ELF_GET_WORD abfd ?c (?z * i)"
      using get_put_word_other [OF xv fits [OF k] fits [OF 2(2)] apart [OF i]] by blast
    then show ?thesis
      using 2 i z by (intro conjI slot_okI [of i]) (simp_all add: new_entry_def)
  qed
  show ?thesis
    by (rule got_ok_insert [where e = ?e and st' = ?st' and v = v, OF ok new _ _ _ _ _ _ len slot old])
      (simp_all add: new_entry_def insert_entry_def)
qed

lemma create_local_spec:
  assumes "got_ok abfd st gi" "xvec_ok (bfd_xvec abfd)" "\<not> TLS_RELOC_P r_type"
    and "mips_elf_got_for_ibfd st 0 (bfd_id ibfd) = Some gi"
    and "mips_elf_create_local_got_entry info abfd ibfd v n h r_type st = (res, st')"
  shows "got_ok abfd st' gi \<and>
    (case res of
       None \<Rightarrow> local_gotno (gots st ! gi) \<le> assigned_gotno (gots st ! gi)
     | Some p \<Rightarrow> p \<in> set (got_entries (gots st' ! gi)) \<and> ge_abfd (ents st' ! p) = None \<and> ge_d (ents st' ! p) = D_address v
         \<and> (assigned_gotno (gots st' ! gi) \<le> local_gotno (gots st' ! gi) \<longrightarrow>
              MIPS_ELF_GET_WORD abfd (sgot_contents st') (nat (gotidx (ents st' ! p)))
                = take_bit (8 * MIPS_ELF_GOT_SIZE abfd) v))"
proof (cases "htab_find st (gots st ! gi) (local_key ibfd v n h r_type)")
  case (Some p)
  note found = find_address_Some [OF assms(1,3) Some]
  have "slot_ok abfd (gots st ! gi) (sgot_contents st) (ents st ! p)"
    using assms(1) found by (simp add: got_ok_def)
  then have "assigned_gotno (gots st ! gi) \<le> local_gotno (gots st ! gi) \<longrightarrow>
     MIPS_ELF_GET_WORD abfd (sgot_contents st) (nat (gotidx (ents st ! p))) = take_bit (8 * MIPS_ELF_GOT_SIZE abfd) v"
    by (cases rule: slot_okE) (simp_all add: found nat_mult_distrib flip: of_nat_mult)
  then show ?thesis
    using assms(1,5) found create_local_found [OF assms(3,4) Some, of info abfd] by auto
next
  case None
  note new = find_address_None [OF assms(1,3) None]
  have gi: "gi < length (gots st)"
    using assms(1) by (simp add: got_ok_def)
  show ?thesis
  proof (cases "full_got (gots st ! gi)")
    case True
    then show ?thesis
      using assms(5) create_local_full [OF assms(3,4) None True, of info abfd] insert_full_ok [OF assms(1) True new]
      by (auto simp: full_got_def)
  next
    case False
    let ?k = "assigned_gotno (gots st ! gi)"
    obtain rd where res: "res = Some (length (ents st))"
      and st': "st' = (insert_entry st gi (new_entry v (int (MIPS_ELF_GOT_SIZE abfd * ?k))))
        \<lparr>sgot_contents := MIPS_ELF_PUT_WORD abfd v (sgot_contents st) (MIPS_ELF_GOT_SIZE abfd * ?k), rel_dyn := rd\<rparr>"
      using create_local_new [OF assms(3,4) None False, of info abfd] assms(5) by auto
    have "got_ok abfd st' gi"
      unfolding st' by (rule insert_slot_ok [OF assms(1,2) False new])
    moreover have p: "length (ents st) \<in> set (got_entries (gots st' ! gi))" "ents st' ! length (ents st) = new_entry v (int (MIPS_ELF_GOT_SIZE abfd * ?k))"
      using gi by (simp_all add: st' insert_entry_def)
    moreover have "MIPS_ELF_GET_WORD abfd (sgot_contents st') (nat (gotidx (ents st' ! length (ents st)))) = take_bit (8 * MIPS_ELF_GOT_SIZE abfd) v"
    proof -
      have "MIPS_ELF_GOT_SIZE abfd * ?k + MIPS_ELF_GOT_SIZE abfd \<le> length (sgot_contents st)"
      proof -
        have "MIPS_ELF_GOT_SIZE abfd * (?k + 1) \<le> MIPS_ELF_GOT_SIZE abfd * local_gotno (gots st ! gi)"
          using False by (intro mult_le_mono2) (simp add: full_got_def)
        with assms(1) show ?thesis by (simp add: got_ok_def)
      qed
      from get_put_word [OF assms(2) this, of v] show ?thesis
        unfolding p(2) by (simp add: st' new_entry_def nat_mult_distrib)
    qed
    ultimately show ?thesis
      by (simp add: res new_entry_def)
  qed
qed

text \<open>
  C25.  A local GOT entry can be relied on: under the invariant, when
  \<^verbatim>\<open>mips_elf_create_local_got_entry\<close> returns an entry for an address, the table
  contains it and its GOT word holds the address (cut to the word size); it returns \<^verbatim>\<open>NULL\<close> only
  when the space counted for local entries is used up; and the invariant still holds
  afterwards, whatever the outcome.
\<close>

theorem create_local_correct:
  assumes "got_ok abfd st gi" "xvec_ok (bfd_xvec abfd)" "\<not> TLS_RELOC_P r_type"
    and "mips_elf_got_for_ibfd st 0 (bfd_id ibfd) = Some gi"
    and "mips_elf_create_local_got_entry info abfd ibfd v n h r_type st = (res, st')"
  shows "got_ok abfd st' gi \<and>
    (case res of
       None \<Rightarrow> local_gotno (gots st ! gi) \<le> assigned_gotno (gots st ! gi)
     | Some p \<Rightarrow> p \<in> set (got_entries (gots st' ! gi)) \<and> ge_d (ents st' ! p) = D_address v
         \<and> (assigned_gotno (gots st' ! gi) \<le> local_gotno (gots st' ! gi) \<longrightarrow>
              MIPS_ELF_GET_WORD abfd (sgot_contents st') (nat (gotidx (ents st' ! p)))
                = take_bit (8 * MIPS_ELF_GOT_SIZE abfd) v))"
  using create_local_spec [OF assms] by (auto split: option.splits)

text \<open>A GOT with two reserved and two free local slots of four bytes.\<close>

definition example_got :: got_state where
  "example_got = \<lparr>ents = [],
     gots = [\<lparr>global_gotsym = None, global_gotno = 0, reloc_only_gotno = 0, tls_gotno = 0, tls_assigned_gotno = 0,
       local_gotno = 4, page_gotno = 0, assigned_gotno = 2, got_multi = False, got_entries = [], got_page_entries = [],
       bfd2got = None, got_next = None, tls_ldm_offset = MINUS_ONE\<rparr>],
     sgot_contents = replicate 16 0, rel_dyn = [], syms = undefined\<rparr>"

lemma example_got_ok: "got_ok le_bfd example_got 0"
  by (simp add: got_ok_def example_got_def MIPS_ELF_GOT_SIZE_def ABI_64_P_def le_bfd_def)

definition example_info :: link_info where
  "example_info = \<lparr>relocatable = False, shared = False, dynamic_sections_created = False, is_vxworks = False,
     ignore_unresolved = False, sgot = \<lparr>sec_id = 7, sec_name = ''.got'', sec_flags = {SEC_ALLOC, SEC_LOAD},
       sec_size = 16, output_section = Some \<lparr>osec_id = 2, osec_name = ''.got'', osec_vma = 0x410000\<rparr>, output_offset = 0\<rparr>,
     sgotplt = undefined, splt = None, got_symbol_address = 0, plt_header_size = 0, plt_entry_size = 0,
     tls_sec_vma = None, symbol_references_local = (\<lambda>_. True), symbol_calls_local = (\<lambda>_. True),
     will_call_finish_dynamic_symbol = (\<lambda>_. False), undefined_symbol_callback = (\<lambda>_. True)\<rparr>"

lemma le_bfd_ok: "xvec_ok (bfd_xvec le_bfd)"
  by (simp add: le_bfd_def)

lemma example_for_ibfd: "mips_elf_got_for_ibfd example_got 0 b = Some 0"
  by (simp add: mips_elf_got_for_ibfd_def example_got_def)

lemma le_bfd_xvec [simp]: "bfd_xvec le_bfd = le_xvec"
  by (simp add: le_bfd_def)

lemma page_not_tls: "\<not> TLS_RELOC_P R_MIPS_GOT_PAGE" "\<not> TLS_RELOC_P R_MIPS_GOT16"
  by (simp_all add: TLS_RELOC_P_def)

theorem create_local_correct_witness:
  "\<exists>st'. mips_elf_create_local_got_entry example_info le_bfd le_bfd 0x12340000 0 None R_MIPS_GOT16 example_got = (Some 0, st')
     \<and> got_ok le_bfd st' 0"
proof -
  obtain res st' where c: "mips_elf_create_local_got_entry example_info le_bfd le_bfd 0x12340000 0 None R_MIPS_GOT16 example_got
      = (res, st')"
    by force
  have "got_ok le_bfd st' 0"
    using create_local_correct [OF example_got_ok _ page_not_tls(2) example_for_ibfd c] by simp
  moreover have "res = Some 0"
    using c by (simp add: mips_elf_create_local_got_entry_def example_for_ibfd page_not_tls htab_find_def)
      (simp add: example_got_def Let_def split: if_splits)
  ultimately show ?thesis
    using c by auto
qed

lemma create_local_for_ibfd:
  assumes "got_ok abfd st gi" "\<not> TLS_RELOC_P r_type" "mips_elf_got_for_ibfd st 0 (bfd_id ibfd) = Some gi"
    and "mips_elf_create_local_got_entry info abfd ibfd v n h r_type st = (res, st')"
  shows "mips_elf_got_for_ibfd st' 0 b = mips_elf_got_for_ibfd st 0 b"
proof (cases "htab_find st (gots st ! gi) (local_key ibfd v n h r_type)")
  case (Some p)
  then show ?thesis
    using create_local_found [OF assms(2,3) Some, of info abfd] assms(4) by simp
next
  case None
  have gi: "gi < length (gots st)"
    using assms(1) by (simp add: got_ok_def)
  then have ins: "bfd2got (gots (insert_entry st gi e) ! 0) = bfd2got (gots st ! 0)" for e
    by (cases "gi = 0") (simp_all add: insert_entry_def)
  show ?thesis
  proof (cases "full_got (gots st ! gi)")
    case True
    then show ?thesis
      using create_local_full [OF assms(2,3) None True, of info abfd] assms(4)
      by (auto simp: mips_elf_got_for_ibfd_def ins)
  next
    case False
    then show ?thesis
      using create_local_new [OF assms(2,3) None False, of info abfd] assms(4)
      by (auto simp: mips_elf_got_for_ibfd_def ins)
  qed
qed

lemma same_address_eq:
  assumes "wf_entry e1" "wf_entry e2" "ge_abfd e1 = None" "ge_abfd e2 = None" "ge_d e1 = ge_d e2"
  shows "got_eq g e1 e2"
  using assms
  by (rule_tac wf_entry_cases [OF assms(1)]; rule_tac wf_entry_cases [OF assms(2)])
    (auto simp: got_eq_def got_entry_eq_iff multi_got_entry_eq_iff multi_key_def)

text \<open>
  Asking again for the same address yields the same entry and changes nothing.
\<close>

theorem create_local_again:
  assumes "got_ok abfd st gi" "xvec_ok (bfd_xvec abfd)" "\<not> TLS_RELOC_P r_type" "\<not> TLS_RELOC_P r_type'"
    and "mips_elf_got_for_ibfd st 0 (bfd_id ibfd) = Some gi"
    and "mips_elf_create_local_got_entry info abfd ibfd v n h r_type st = (Some p, st')"
  shows "mips_elf_create_local_got_entry info abfd ibfd v n' h' r_type' st' = (Some p, st')"
proof -
  note spec = create_local_spec [OF assms(1-3,5,6)]
  have ok: "got_ok abfd st' gi" and p: "p \<in> set (got_entries (gots st' ! gi))" "ge_abfd (ents st' ! p) = None"
    "ge_d (ents st' ! p) = D_address v"
    using spec by auto
  have gi: "mips_elf_got_for_ibfd st' 0 (bfd_id ibfd) = Some gi"
    using create_local_for_ibfd [OF assms(1,3,5,6)] assms(5) by simp
  obtain q where q: "htab_find st' (gots st' ! gi) (local_key ibfd v n' h' r_type') = Some q"
    using find_address_None [OF ok assms(4) _ p(1)] p by fastforce
  note found = find_address_Some [OF ok assms(4) q]
  have "got_eq (gots st' ! gi) (ents st' ! p) (ents st' ! q)"
    using ok p found by (intro same_address_eq) (auto simp: got_ok_def)
  then have "p = q"
    using ok p(1) found(1) by (simp add: got_ok_def)
  then show ?thesis
    using create_local_found [OF assms(4) gi q] by simp
qed

theorem create_local_again_witness:
  "\<exists>st'. mips_elf_create_local_got_entry example_info le_bfd le_bfd 0x12340000 0 None R_MIPS_GOT16 example_got = (Some 0, st')
     \<and> mips_elf_create_local_got_entry example_info le_bfd le_bfd 0x12340000 9 None R_MIPS_GOT_PAGE st' = (Some 0, st')"
proof -
  obtain res st' where c: "mips_elf_create_local_got_entry example_info le_bfd le_bfd 0x12340000 0 None R_MIPS_GOT16 example_got
      = (res, st')"
    by force
  have "res = Some 0"
    using c by (simp add: mips_elf_create_local_got_entry_def example_for_ibfd page_not_tls htab_find_def)
      (simp add: example_got_def Let_def split: if_splits)
  with c have c': "mips_elf_create_local_got_entry example_info le_bfd le_bfd 0x12340000 0 None R_MIPS_GOT16 example_got
      = (Some 0, st')"
    by simp
  show ?thesis
    using c' create_local_again [OF example_got_ok le_bfd_ok page_not_tls(2) page_not_tls(1) example_for_ibfd c'] by blast
qed

section \<open>Page entries\<close>

lemma page_distance: "value - got_page_of value = sext16 value"
proof -
  define x where "x = uint value"
  have v: "value = word_of_int x" by (simp add: x_def)
  have "value - got_page_of value = word_of_int (x - (x + 0x8000) div 2 ^ 16 * 2 ^ 16)"
    unfolding v got_page_of_int by (simp only: of_int_diff)
  also have "x - (x + 0x8000) div 2 ^ 16 * 2 ^ 16 = signed_take_bit 15 x"
    using signed_step [of x] by (simp add: algebra_simps)
  finally show ?thesis
    by (simp add: sext16_of_int x_def)
qed

lemma sext16_in_range: "\<not> mips_elf_overflow_p (sext16 v) 16"
proof -
  have "sint (sext16 v) = signed_take_bit 15 (sint v)"
    unfolding sext16_def by (rule sint_signed_take_bit) simp
  then show ?thesis
    using signed_take_bit_int_less_exp [of 15 "sint v"] signed_take_bit_int_greater_eq_minus_exp [of 15 "sint v"]
    by (simp add: overflow_p_iff not_le not_less)
qed

text \<open>
  A page entry is always within reach: the page that \<^verbatim>\<open>mips_elf_got_page\<close> puts in the
  GOT plus the offset it hands back for the \<^verbatim>\<open>R_MIPS_GOT_OFST\<close> relocation is the
  address, and the offset fits a signed 16-bit field, so that relocation never
  overflows.
\<close>

theorem got_page_reaches:
  assumes "got_ok abfd st gi" "xvec_ok (bfd_xvec abfd)" "mips_elf_got_for_ibfd st 0 (bfd_id ibfd) = Some gi"
    and "mips_elf_create_local_got_entry info abfd ibfd (got_page_of value) 0 None R_MIPS_GOT_PAGE st = (Some p, st')"
  shows "\<exists>offset. mips_elf_got_page info abfd ibfd value st = (of_int (gotidx (ents st' ! p)), offset, st')
    \<and> got_page_of value + offset = value \<and> \<not> mips_elf_overflow_p offset 16"
proof -
  have "ge_d (ents st' ! p) = D_address (got_page_of value)"
    using create_local_spec [OF assms(1,2) page_not_tls(1) assms(3,4)] by simp
  then have "mips_elf_got_page info abfd ibfd value st = (of_int (gotidx (ents st' ! p)), value - got_page_of value, st')"
    using assms(4) by (simp add: mips_elf_got_page_def)
  then show ?thesis
    using sext16_in_range by (simp add: page_distance [symmetric])
qed

theorem got_page_reaches_witness:
  "\<exists>offset st'. mips_elf_got_page example_info le_bfd le_bfd 0x12348000 example_got = (8, offset, st')
     \<and> got_page_of 0x12348000 + offset = 0x12348000"
proof -
  obtain res st' where c: "mips_elf_create_local_got_entry example_info le_bfd le_bfd (got_page_of 0x12348000) 0 None
      R_MIPS_GOT_PAGE example_got = (res, st')"
    by force
  have "res = Some 0" "gotidx (ents st' ! 0) = 8"
    using c by (simp_all add: mips_elf_create_local_got_entry_def example_for_ibfd page_not_tls htab_find_def)
      (auto simp: example_got_def Let_def MIPS_ELF_GOT_SIZE_def ABI_64_P_def le_bfd_def example_info_def split: if_splits)
  with c have c': "mips_elf_create_local_got_entry example_info le_bfd le_bfd (got_page_of 0x12348000) 0 None
      R_MIPS_GOT_PAGE example_got = (Some 0, st')" and i: "gotidx (ents st' ! 0) = 8"
    by simp_all
  show ?thesis
    using got_page_reaches [OF example_got_ok le_bfd_ok example_for_ibfd c'] i by auto
qed

end
