(* ===== verification/Tls.thy ===== *)
theory Tls
  imports GotState
begin

text \<open>
  Thread-local storage in the global offset table: how many slots and dynamic
  relocations an entry needs (\<^verbatim>\<open>mips_tls_got_relocs\<close> and the counting callbacks),
  the initialisation of the slots during the final link, and the index of a local
  or a global symbol.

  A pointer \<^verbatim>\<open>tls_type_p\<close> is an argument and a result.  A result \<^verbatim>\<open>None\<close> stands for
  an abort: the code follows a null pointer (the TLS section, or the entry of a
  failed search).
\<close>

section \<open>Counting\<close>

definition tls_indx :: "link_info \<Rightarrow> link_sym option \<Rightarrow> int" where
  "tls_indx info h =
     (case h of
        None \<Rightarrow> 0
      | Some h \<Rightarrow>
          if will_call_finish_dynamic_symbol info h \<and> (\<not> shared info \<or> \<not> symbol_references_local info h)
          then dynindx h else 0)"

definition mips_tls_got_relocs :: "link_info \<Rightarrow> 8 word \<Rightarrow> link_sym option \<Rightarrow> nat" where
  "mips_tls_got_relocs info tls_type h =
     (let indx = tls_indx info h;
          need_relocs = ((shared info \<or> indx \<noteq> 0)
            \<and> (case h of
                 None \<Rightarrow> True
               | Some h \<Rightarrow> ELF_ST_VISIBILITY (st_other h) = STV_DEFAULT \<or> root_type h \<noteq> bfd_link_hash_undefweak))
      in if \<not> need_relocs then 0
         else (if tls_type AND GOT_TLS_GD \<noteq> 0 then (if indx \<noteq> 0 then 2 else 1) else 0)
            + (if tls_type AND GOT_TLS_IE \<noteq> 0 then 1 else 0)
            + (if tls_type AND GOT_TLS_LDM \<noteq> 0 \<and> shared info then 1 else 0))"

definition mips_elf_count_local_tls_relocs :: "link_info \<Rightarrow> got_entry \<Rightarrow> nat \<Rightarrow> nat" where
  "mips_elf_count_local_tls_relocs info entry needed =
     (if ge_abfd entry \<noteq> None \<and> ge_symndx entry \<noteq> -1
      then needed + mips_tls_got_relocs info (ge_tls_type entry) None else needed)"

definition mips_elf_count_global_tls_entries :: "link_sym \<Rightarrow> nat \<Rightarrow> nat" where
  "mips_elf_count_global_tls_entries hm needed =
     needed + (if sym_tls_type hm AND GOT_TLS_GD \<noteq> 0 then 2 else 0)
            + (if sym_tls_type hm AND GOT_TLS_IE \<noteq> 0 then 1 else 0)"

definition mips_elf_count_global_tls_relocs :: "link_info \<Rightarrow> link_sym \<Rightarrow> nat \<Rightarrow> nat" where
  "mips_elf_count_global_tls_relocs info hm needed = needed + mips_tls_got_relocs info (sym_tls_type hm) (Some hm)"

section \<open>The slots of an entry\<close>

definition mips_elf_output_dynamic_relocation :: "bfd \<Rightarrow> int \<Rightarrow> r_type \<Rightarrow> vma \<Rightarrow> got_state \<Rightarrow> got_state" where
  "mips_elf_output_dynamic_relocation output_bfd indx r_type offset st =
     st\<lparr>rel_dyn := rel_dyn st @
       [\<lparr>r_offset = offset, r_info = ELF_R_INFO output_bfd (unat (word_of_int indx :: vma)) r_type, r_addend = 0\<rparr>]\<rparr>"

definition put_slot :: "bfd \<Rightarrow> vma \<Rightarrow> vma \<Rightarrow> got_state \<Rightarrow> got_state" where
  "put_slot abfd val offset st = st\<lparr>sgot_contents := MIPS_ELF_PUT_WORD abfd val (sgot_contents st) (unat offset)\<rparr>"

definition init_gd :: "bfd \<Rightarrow> link_info \<Rightarrow> int \<Rightarrow> bool \<Rightarrow> vma \<Rightarrow> vma \<Rightarrow> got_state \<Rightarrow> got_state" where
  "init_gd abfd info indx need_relocs val offset st =
     (let offset2 = offset + of_nat (MIPS_ELF_GOT_SIZE abfd);
          base = section_address (sgot info)
      in if need_relocs then
           (let st = mips_elf_output_dynamic_relocation abfd indx
                       (if ABI_64_P abfd then R_MIPS_TLS_DTPMOD64 else R_MIPS_TLS_DTPMOD32) (base + offset) st
            in if indx \<noteq> 0
               then mips_elf_output_dynamic_relocation abfd indx
                      (if ABI_64_P abfd then R_MIPS_TLS_DTPREL64 else R_MIPS_TLS_DTPREL32) (base + offset2) st
               else put_slot abfd (val - dtprel_base info) offset2 st)
         else put_slot abfd (val - dtprel_base info) offset2 (put_slot abfd 1 offset st))"

definition init_ie :: "bfd \<Rightarrow> link_info \<Rightarrow> int \<Rightarrow> bool \<Rightarrow> vma \<Rightarrow> vma \<Rightarrow> got_state \<Rightarrow> got_state option" where
  "init_ie abfd info indx need_relocs val offset st =
     (if need_relocs then
        (case (if indx = 0
               then map_option (\<lambda>v. put_slot abfd (val - v) offset st) (tls_sec_vma info)
               else Some (put_slot abfd 0 offset st)) of
           None \<Rightarrow> None
         | Some st \<Rightarrow> Some (mips_elf_output_dynamic_relocation abfd indx
             (if ABI_64_P abfd then R_MIPS_TLS_TPREL64 else R_MIPS_TLS_TPREL32)
             (section_address (sgot info) + offset) st))
      else Some (put_slot abfd (val - tprel_base info) offset st))"

definition init_ldm :: "bfd \<Rightarrow> link_info \<Rightarrow> int \<Rightarrow> vma \<Rightarrow> got_state \<Rightarrow> got_state" where
  "init_ldm abfd info indx got_offset st =
     (let st = put_slot abfd 0 (got_offset + of_nat (MIPS_ELF_GOT_SIZE abfd)) st
      in if \<not> shared info then put_slot abfd 1 got_offset st
         else mips_elf_output_dynamic_relocation abfd indx
                (if ABI_64_P abfd then R_MIPS_TLS_DTPMOD64 else R_MIPS_TLS_DTPMOD32)
                (section_address (sgot info) + got_offset) st)"

text \<open>
  The test for an undefined weak symbol reads \<^verbatim>\<open>h->root.type\<close>, which for this
  \<^verbatim>\<open>h\<close> is the ELF symbol type; \<^verbatim>\<open>bfd_link_hash_undefweak\<close> is the number 2 there.
\<close>

definition mips_elf_initialize_tls_slots ::
  "bfd \<Rightarrow> vma \<Rightarrow> 8 word \<Rightarrow> link_info \<Rightarrow> nat option \<Rightarrow> vma \<Rightarrow> got_state \<Rightarrow> (8 word \<times> got_state) option" where
  "mips_elf_initialize_tls_slots abfd got_offset tls_type info h val st =
     (let hs = map_option (syms st) h;
          indx = tls_indx info hs
      in if tls_type AND GOT_TLS_DONE \<noteq> 0 then Some (tls_type, st)
         else
           let need_relocs = ((shared info \<or> indx \<noteq> 0)
                 \<and> (case hs of
                      None \<Rightarrow> True
                    | Some h \<Rightarrow> ELF_ST_VISIBILITY (st_other h) = STV_DEFAULT \<or> elf_sym_type h \<noteq> 2));
               gd = (tls_type AND GOT_TLS_GD \<noteq> 0);
               st = (if gd then init_gd abfd info indx need_relocs val got_offset st else st);
               got_offset = (if gd then got_offset + of_nat (2 * MIPS_ELF_GOT_SIZE abfd) else got_offset)
           in case (if tls_type AND GOT_TLS_IE \<noteq> 0
                    then init_ie abfd info indx need_relocs val got_offset st else Some st) of
                None \<Rightarrow> None
              | Some st \<Rightarrow>
                  let st = (if tls_type AND GOT_TLS_LDM \<noteq> 0 then init_ldm abfd info indx got_offset st else st)
                  in Some (tls_type OR GOT_TLS_DONE, st))"

definition mips_tls_got_index ::
  "bfd \<Rightarrow> vma \<Rightarrow> 8 word \<Rightarrow> r_type \<Rightarrow> link_info \<Rightarrow> nat option \<Rightarrow> vma \<Rightarrow> got_state \<Rightarrow> (vma \<times> 8 word \<times> got_state) option" where
  "mips_tls_got_index abfd got_index tls_type r_type info h symbol st =
     (case mips_elf_initialize_tls_slots abfd got_index tls_type info h symbol st of
        None \<Rightarrow> None
      | Some (tls_type, st) \<Rightarrow>
          Some (if tls_gottprel_reloc_p r_type
                then (if tls_type AND GOT_TLS_GD \<noteq> 0 then got_index + of_nat (2 * MIPS_ELF_GOT_SIZE abfd) else got_index)
                else got_index,
                tls_type, st))"

text \<open>The type is kept with the symbol or with the entry.\<close>

definition tls_index_of_sym ::
  "bfd \<Rightarrow> nat \<Rightarrow> r_type \<Rightarrow> link_info \<Rightarrow> vma \<Rightarrow> got_state \<Rightarrow> (vma \<times> got_state) option" where
  "tls_index_of_sym abfd h r_type info val st =
     (case mips_tls_got_index abfd (tls_got_offset (syms st h)) (sym_tls_type (syms st h)) r_type info (Some h) val st of
        None \<Rightarrow> None
      | Some (i, t, st) \<Rightarrow> Some (i, st\<lparr>syms := (syms st)(h := (syms st h)\<lparr>sym_tls_type := t\<rparr>)\<rparr>))"

definition tls_index_of_entry ::
  "bfd \<Rightarrow> nat \<Rightarrow> r_type \<Rightarrow> link_info \<Rightarrow> nat option \<Rightarrow> vma \<Rightarrow> got_state \<Rightarrow> (vma \<times> got_state) option" where
  "tls_index_of_entry abfd p r_type info h val st =
     (case mips_tls_got_index abfd (of_int (gotidx (ents st ! p))) (ge_tls_type (ents st ! p)) r_type info h val st of
        None \<Rightarrow> None
      | Some (i, t, st) \<Rightarrow> Some (i, st\<lparr>ents := (ents st)[p := (ents st ! p)\<lparr>ge_tls_type := t\<rparr>]\<rparr>))"

section \<open>The index of a symbol\<close>

definition mips_elf_gotplt_index :: "link_info \<Rightarrow> link_sym \<Rightarrow> vma" where
  "mips_elf_gotplt_index info h =
     (let plt_index = (plt_offset h - plt_header_size info) div plt_entry_size info;
          got_address = section_address (sgotplt info) + plt_index * 4
      in got_address - got_symbol_address info)"

definition mips_elf_local_got_index ::
  "bfd \<Rightarrow> bfd \<Rightarrow> link_info \<Rightarrow> vma \<Rightarrow> nat \<Rightarrow> nat option \<Rightarrow> r_type \<Rightarrow> got_state \<Rightarrow> (vma \<times> got_state) option" where
  "mips_elf_local_got_index abfd ibfd info val r_symndx h r_type st =
     (case mips_elf_create_local_got_entry info abfd ibfd val r_symndx h r_type st of
        (None, st) \<Rightarrow> Some (MINUS_ONE, st)
      | (Some p, st) \<Rightarrow>
          if TLS_RELOC_P r_type then
            (if ge_symndx (ents st ! p) = -1 \<and> got_next (gots st ! 0) = None
             then (case h of None \<Rightarrow> None | Some h \<Rightarrow> tls_index_of_sym abfd h r_type info val st)
             else tls_index_of_entry abfd p r_type info h val st)
          else Some (of_int (gotidx (ents st ! p)), st))"

text \<open>The address of a symbol, as the TLS slots get it; -1 when it is not defined here.\<close>

definition tls_symbol_value :: "link_sym \<Rightarrow> vma" where
  "tls_symbol_value h =
     (if root_type h = bfd_link_hash_defined \<or> root_type h = bfd_link_hash_defweak
      then (case def_section h of
              None \<Rightarrow> MINUS_ONE
            | Some s \<Rightarrow> (case output_section s of
                None \<Rightarrow> MINUS_ONE
              | Some os \<Rightarrow> def_value h + output_offset s + osec_vma os))
      else MINUS_ONE)"

definition mips_elf_global_got_index ::
  "bfd \<Rightarrow> bfd option \<Rightarrow> nat \<Rightarrow> r_type \<Rightarrow> link_info \<Rightarrow> got_state \<Rightarrow> (vma \<times> got_state) option" where
  "mips_elf_global_got_index abfd ibfd h r_type info st =
     (let multi = (bfd2got (gots st ! 0) \<noteq> None \<and> ibfd \<noteq> None)
      in case (if multi then mips_elf_got_for_ibfd st 0 (bfd_id (the ibfd)) else Some 0) of
           None \<Rightarrow> None
         | Some gi \<Rightarrow>
             let g = gots st ! gi
             in if multi \<and> (got_next g \<noteq> Some 0 \<or> TLS_RELOC_P r_type) then
                  (case htab_find st g \<lparr>ge_abfd = map_option bfd_id ibfd, ge_symndx = -1, ge_d = D_h h,
                                         ge_tls_type = 0, gotidx = 0\<rparr> of
                     None \<Rightarrow> None
                   | Some p \<Rightarrow>
                       if TLS_RELOC_P r_type
                       then tls_index_of_entry abfd p r_type info (Some h) (tls_symbol_value (syms st h)) st
                       else Some (of_int (gotidx (ents st ! p)), st))
                else if TLS_RELOC_P r_type
                then tls_index_of_sym abfd h r_type info (tls_symbol_value (syms st h)) st
                else
                  let global_got_dynindx = (case global_gotsym (gots st ! 0) of
                         None \<Rightarrow> 0 | Some s \<Rightarrow> dynindx (syms st s))
                  in Some (of_int ((dynindx (syms st h) - global_got_dynindx + int (local_gotno g))
                             * int (MIPS_ELF_GOT_SIZE abfd)), st))"

section \<open>Relocations emitted and counted\<close>

lemma put_slot_simps [simp]:
  "rel_dyn (put_slot abfd v off st) = rel_dyn st" "gots (put_slot abfd v off st) = gots st"
  "ents (put_slot abfd v off st) = ents st" "syms (put_slot abfd v off st) = syms st"
  by (simp_all add: put_slot_def)

lemma output_reloc_simps [simp]:
  "length (rel_dyn (mips_elf_output_dynamic_relocation abfd indx r_type off st)) = Suc (length (rel_dyn st))"
  "sgot_contents (mips_elf_output_dynamic_relocation abfd indx r_type off st) = sgot_contents st"
  "gots (mips_elf_output_dynamic_relocation abfd indx r_type off st) = gots st"
  "ents (mips_elf_output_dynamic_relocation abfd indx r_type off st) = ents st"
  "syms (mips_elf_output_dynamic_relocation abfd indx r_type off st) = syms st"
  by (simp_all add: mips_elf_output_dynamic_relocation_def)

lemma init_gd_count:
  "length (rel_dyn (init_gd abfd info indx need val off st))
     = length (rel_dyn st) + (if need then (if indx \<noteq> 0 then 2 else 1) else 0)"
  by (simp add: init_gd_def Let_def)

lemma init_ie_count:
  "init_ie abfd info indx need val off st = Some st' \<Longrightarrow>
     length (rel_dyn st') = length (rel_dyn st) + (if need then 1 else 0)"
  by (auto simp: init_ie_def split: if_splits option.splits)

lemma init_ldm_count:
  "length (rel_dyn (init_ldm abfd info indx off st)) = length (rel_dyn st) + (if shared info then 1 else 0)"
  by (simp add: init_ldm_def Let_def)

lemma init_ie_Some: "tls_sec_vma info \<noteq> None \<Longrightarrow> (init_ie abfd info indx need val off st = None) = False"
  by (auto simp: init_ie_def)

text \<open>How the test of the slots and the one of the count read the symbol.\<close>

definition slots_need_relocs :: "link_info \<Rightarrow> link_sym option \<Rightarrow> bool" where
  "slots_need_relocs info hs \<longleftrightarrow> (shared info \<or> tls_indx info hs \<noteq> 0)
     \<and> (case hs of None \<Rightarrow> True | Some h \<Rightarrow> ELF_ST_VISIBILITY (st_other h) = STV_DEFAULT \<or> elf_sym_type h \<noteq> 2)"

lemma initialize_count:
  assumes "t AND GOT_TLS_DONE = 0" "t AND GOT_TLS_LDM \<noteq> 0 \<longrightarrow> h = None"
    and "mips_elf_initialize_tls_slots abfd off t info h val st = Some (t', st')"
  defines "hs \<equiv> map_option (syms st) h"
  shows "length (rel_dyn st') = length (rel_dyn st)
    + (if slots_need_relocs info hs
       then (if t AND GOT_TLS_GD \<noteq> 0 then (if tls_indx info hs \<noteq> 0 then 2 else 1) else 0)
          + (if t AND GOT_TLS_IE \<noteq> 0 then 1 else 0)
       else 0)
    + (if t AND GOT_TLS_LDM \<noteq> 0 \<and> shared info then 1 else 0)"
  using assms(1,3) unfolding mips_elf_initialize_tls_slots_def hs_def [symmetric] Let_def slots_need_relocs_def [symmetric]
  by (auto simp: init_gd_count init_ldm_count dest!: init_ie_count split: if_splits option.splits)

lemma initialize_total:
  assumes "tls_sec_vma info \<noteq> None"
  shows "\<exists>t' st'. mips_elf_initialize_tls_slots abfd off t info h val st = Some (t', st')"
proof -
  have "mips_elf_initialize_tls_slots abfd off t info h val st \<noteq> None"
    by (simp add: mips_elf_initialize_tls_slots_def Let_def init_ie_Some [OF assms] del: not_None_eq split: option.split)
  then show ?thesis
    by auto
qed

text \<open>
  C26.  The dynamic relocations that the initialisation of the slots of one TLS entry emits, against the number that
  \<^verbatim>\<open>mips_tls_got_relocs\<close> counted when \<^verbatim>\<open>.rel.dyn\<close> was laid out, for an entry of a local symbol or of a global one that is not a function.  The initialisation succeeds.
  Unless the symbol is undefined weak and not of default visibility, as many relocations are emitted as were counted.  For a symbol that is, none is counted, but in a shared link or for a
  dynamic symbol relocations are emitted for its pair of slots (one, or two for a dynamic symbol) and for its single slot: the count tests the linker's symbol type, the initialisation the ELF type.
\<close>

theorem tls_relocs_counted:
  fixes info t h st
  defines "hs \<equiv> map_option (syms st) h"
  defines "hidden_weak \<equiv> (case hs of None \<Rightarrow> False
       | Some s \<Rightarrow> ELF_ST_VISIBILITY (st_other s) \<noteq> STV_DEFAULT \<and> root_type s = bfd_link_hash_undefweak)"
  assumes "tls_sec_vma info \<noteq> None" "t AND GOT_TLS_DONE = 0" "t AND GOT_TLS_LDM \<noteq> 0 \<longrightarrow> h = None"
    and "\<forall>s. hs = Some s \<longrightarrow> elf_sym_type s \<noteq> 2"
  shows "\<exists>t' st'. mips_elf_initialize_tls_slots abfd off t info h val st = Some (t', st')
    \<and> (\<not> hidden_weak \<longrightarrow> length (rel_dyn st') = length (rel_dyn st) + mips_tls_got_relocs info t hs)
    \<and> (hidden_weak \<longrightarrow> mips_tls_got_relocs info t hs = 0
        \<and> length (rel_dyn st') = length (rel_dyn st)
          + (if shared info \<or> tls_indx info hs \<noteq> 0
             then (if t AND GOT_TLS_GD \<noteq> 0 then (if tls_indx info hs \<noteq> 0 then 2 else 1) else 0) + (if t AND GOT_TLS_IE \<noteq> 0 then 1 else 0)
             else 0))"
proof -
  obtain t' st' where i: "mips_elf_initialize_tls_slots abfd off t info h val st = Some (t', st')"
    using initialize_total [OF assms(3)] by blast
  have need: "slots_need_relocs info hs \<longleftrightarrow> shared info \<or> tls_indx info hs \<noteq> 0"
    using assms(6) by (auto simp: slots_need_relocs_def split: option.split)
  note count = initialize_count [OF assms(4,5) i, folded hs_def, unfolded need]
  have "length (rel_dyn st') = length (rel_dyn st) + mips_tls_got_relocs info t hs" if "\<not> hidden_weak"
    using that count assms(5)
    by (auto simp: hidden_weak_def hs_def mips_tls_got_relocs_def Let_def tls_indx_def split: option.splits)
  moreover have "mips_tls_got_relocs info t hs = 0 \<and> t AND GOT_TLS_LDM = 0" if "hidden_weak"
    using that assms(5) by (auto simp: hidden_weak_def hs_def mips_tls_got_relocs_def split: option.splits)
  ultimately show ?thesis
    using i count by auto
qed

definition example_sym :: link_sym where
  "example_sym = \<lparr>sym_id = 3, sym_name = ''tls_var'', sym_hash = 0x77, root_type = bfd_link_hash_undefweak,
     elf_sym_type = 6, def_section = None, def_value = 0, st_other = STV_HIDDEN, def_regular = False,
     def_dynamic = False, forced_local = False, needs_plt = False, dynindx = 5, plt_offset = MINUS_ONE,
     sym_la25_stub = None, fn_stub = None, call_stub = None, call_fp_stub = None, sym_tls_type = GOT_TLS_GD,
     tls_got_offset = 8, global_got_area = GGA_NONE, possibly_dynamic_relocs = 0, got_only_for_calls = False,
     readonly_reloc = False, has_static_relocs = False, no_fn_stub = False, need_fn_stub = False,
     has_nonpic_branches = False, needs_lazy_stub = False\<rparr>"

definition tls_info :: link_info where
  "tls_info = example_info\<lparr>tls_sec_vma := Some 0x420000\<rparr>"

lemma tls_info_sec: "tls_sec_vma tls_info \<noteq> None"
  by (simp add: tls_info_def)

theorem tls_relocs_counted_witness:
  "\<exists>t' st'. mips_elf_initialize_tls_slots le_bfd 8 GOT_TLS_GD (tls_info\<lparr>shared := True\<rparr>) None 0x420010 example_got
      = Some (t', st')
     \<and> length (rel_dyn st') = 1"
proof -
  have "mips_tls_got_relocs (tls_info\<lparr>shared := True\<rparr>) GOT_TLS_GD None = 1"
    by (simp add: mips_tls_got_relocs_def tls_indx_def)
  moreover have "rel_dyn example_got = []"
    by (simp add: example_got_def)
  ultimately show ?thesis
    using tls_relocs_counted [where info = "tls_info\<lparr>shared := True\<rparr>" and t = GOT_TLS_GD and h = None and st = example_got
        and abfd = le_bfd and off = 8 and val = "0x420010"]
    by (simp add: tls_info_def)
qed

text \<open>
  For a hidden undefined weak TLS symbol in a shared link the two differ: the
  layout counts no relocation for it, since it tests the linker's symbol type, while
  the slots get one, since \<^verbatim>\<open>mips_elf_initialize_tls_slots\<close> tests the ELF type of the
  symbol, which for a TLS symbol is never 2.
\<close>

theorem hidden_undefweak_uncounted:
  assumes "shared info" "tls_sec_vma info \<noteq> None" "ELF_ST_VISIBILITY (st_other (syms st s)) \<noteq> STV_DEFAULT"
    and "root_type (syms st s) = bfd_link_hash_undefweak" "elf_sym_type (syms st s) = 6"
    and "t AND GOT_TLS_DONE = 0" "t AND GOT_TLS_LDM = 0" "t AND GOT_TLS_GD \<noteq> 0 \<or> t AND GOT_TLS_IE \<noteq> 0"
  shows "mips_tls_got_relocs info t (Some (syms st s)) = 0
    \<and> (\<exists>t' st'. mips_elf_initialize_tls_slots abfd off t info (Some s) val st = Some (t', st')
        \<and> length (rel_dyn st) < length (rel_dyn st'))"
proof -
  obtain t' st' where i: "mips_elf_initialize_tls_slots abfd off t info (Some s) val st = Some (t', st')"
    using initialize_total [OF assms(2)] by blast
  have "slots_need_relocs info (Some (syms st s))"
    using assms(1,5) by (simp add: slots_need_relocs_def)
  then have "length (rel_dyn st) < length (rel_dyn st')"
    using initialize_count [OF assms(6) _ i] assms(7,8) by auto
  with i show ?thesis
    using assms(3,4) by (simp add: mips_tls_got_relocs_def)
qed

theorem hidden_undefweak_uncounted_witness:
  "mips_tls_got_relocs (tls_info\<lparr>shared := True\<rparr>) GOT_TLS_GD (Some example_sym) = 0
   \<and> (\<exists>t' st'. mips_elf_initialize_tls_slots le_bfd 8 GOT_TLS_GD (tls_info\<lparr>shared := True\<rparr>) (Some 3) MINUS_ONE
          (example_got\<lparr>syms := \<lambda>_. example_sym\<rparr>) = Some (t', st')
        \<and> length (rel_dyn (example_got\<lparr>syms := \<lambda>_. example_sym\<rparr>)) < length (rel_dyn st'))"
  using hidden_undefweak_uncounted [of "tls_info\<lparr>shared := True\<rparr>" "example_got\<lparr>syms := \<lambda>_. example_sym\<rparr>" 3 GOT_TLS_GD
      le_bfd 8 MINUS_ONE]
  by (simp add: tls_info_def example_sym_def ELF_ST_VISIBILITY_def)

section \<open>The contents of the slots\<close>

lemma done_set: "(t OR GOT_TLS_DONE) AND GOT_TLS_DONE \<noteq> 0"
proof -
  have "(t OR GOT_TLS_DONE) AND GOT_TLS_DONE = GOT_TLS_DONE"
    by (rule bit_word_eqI) (auto simp: bit_simps)
  then show ?thesis by simp
qed

lemma initialize_done:
  assumes "mips_elf_initialize_tls_slots abfd off t info h val st = Some (t', st')"
  shows "mips_elf_initialize_tls_slots abfd off' t' info' h' val' st'' = Some (t', st'')"
proof -
  have "t' AND GOT_TLS_DONE \<noteq> 0"
    using assms done_set
    by (auto simp: mips_elf_initialize_tls_slots_def Let_def split: if_splits option.splits)
  then show ?thesis
    by (simp add: mips_elf_initialize_tls_slots_def)
qed

text \<open>A slot at offset \<^verbatim>\<open>o\<close> of the section.\<close>

definition slot :: "bfd \<Rightarrow> got_state \<Rightarrow> nat \<Rightarrow> vma" where
  "slot abfd st k = MIPS_ELF_GET_WORD abfd (sgot_contents st) k"

lemma put_slot_word:
  assumes "xvec_ok (bfd_xvec abfd)" "k + MIPS_ELF_GOT_SIZE abfd \<le> length (sgot_contents st)"
    and "length (sgot_contents st) < 2 ^ 64"
  shows "slot abfd (put_slot abfd v (of_nat k) st) k = take_bit (8 * MIPS_ELF_GOT_SIZE abfd) v"
    and "length (sgot_contents (put_slot abfd v (of_nat k) st)) = length (sgot_contents st)"
    and "j + MIPS_ELF_GOT_SIZE abfd \<le> length (sgot_contents st) \<Longrightarrow>
      k + MIPS_ELF_GOT_SIZE abfd \<le> j \<or> j + MIPS_ELF_GOT_SIZE abfd \<le> k \<Longrightarrow>
      slot abfd (put_slot abfd v (of_nat k) st) j = slot abfd st j"
proof -
  have "unat (of_nat k :: vma) = k"
    using assms(2,3) by (simp add: unsigned_of_nat take_bit_nat_eq_self)
  then show "slot abfd (put_slot abfd v (of_nat k) st) k = take_bit (8 * MIPS_ELF_GOT_SIZE abfd) v"
    and "length (sgot_contents (put_slot abfd v (of_nat k) st)) = length (sgot_contents st)"
    and "j + MIPS_ELF_GOT_SIZE abfd \<le> length (sgot_contents st) \<Longrightarrow>
      k + MIPS_ELF_GOT_SIZE abfd \<le> j \<or> j + MIPS_ELF_GOT_SIZE abfd \<le> k \<Longrightarrow>
      slot abfd (put_slot abfd v (of_nat k) st) j = slot abfd st j"
    using get_put_word [OF assms(1,2)] put_word_length [OF assms(1,2)] get_put_word_other [OF assms(1,2)]
    by (simp_all add: slot_def put_slot_def)
qed

text \<open>The slots of a static link: nothing is left to the dynamic linker.\<close>

lemma initialize_static:
  assumes "xvec_ok (bfd_xvec abfd)" "length (sgot_contents st) < 2 ^ 64"
    and "k + 3 * MIPS_ELF_GOT_SIZE abfd \<le> length (sgot_contents st)"
    and "\<not> shared info" "tls_indx info (map_option (syms st) h) = 0" "t AND GOT_TLS_DONE = 0" "t AND GOT_TLS_LDM = 0"
    and "mips_elf_initialize_tls_slots abfd (of_nat k) t info h val st = Some (t', st')"
  shows "rel_dyn st' = rel_dyn st"
    and "t AND GOT_TLS_GD \<noteq> 0 \<Longrightarrow> slot abfd st' k = take_bit (8 * MIPS_ELF_GOT_SIZE abfd) 1
      \<and> slot abfd st' (k + MIPS_ELF_GOT_SIZE abfd) = take_bit (8 * MIPS_ELF_GOT_SIZE abfd) (val - dtprel_base info)"
    and "t AND GOT_TLS_IE \<noteq> 0 \<Longrightarrow> slot abfd st' (if t AND GOT_TLS_GD \<noteq> 0 then k + 2 * MIPS_ELF_GOT_SIZE abfd else k)
      = take_bit (8 * MIPS_ELF_GOT_SIZE abfd) (val - tprel_base info)"
proof -
  let ?n = "MIPS_ELF_GOT_SIZE abfd"
  define gd where "gd = put_slot abfd (val - dtprel_base info) (of_nat (k + ?n)) (put_slot abfd 1 (of_nat k) st)"
  define st1 where "st1 = (if t AND GOT_TLS_GD \<noteq> 0 then gd else st)"
  define m where "m = (if t AND GOT_TLS_GD \<noteq> 0 then k + 2 * ?n else k)"
  define st2 where "st2 = (if t AND GOT_TLS_IE \<noteq> 0 then put_slot abfd (val - tprel_base info) (of_nat m) st1 else st1)"
  have "\<not> slots_need_relocs info (map_option (syms st) h)"
    using assms(4,5) by (simp add: slots_need_relocs_def)
  then have st': "st' = st2"
    using assms(4-8)
    unfolding mips_elf_initialize_tls_slots_def Let_def slots_need_relocs_def [symmetric] st2_def st1_def m_def gd_def
    by (auto simp: init_gd_def init_ie_def Let_def add.commute split: if_splits)
  note w1 = put_slot_word [OF assms(1), of k st]
  have n: "0 < ?n" using got_size_cases [of abfd] by auto
  have len1: "length (sgot_contents (put_slot abfd 1 (of_nat k) st)) = length (sgot_contents st)"
    using w1(2) assms(2,3) by simp
  note w2 = put_slot_word [OF assms(1), of "k + ?n" "put_slot abfd 1 (of_nat k) st"]
  have gd: "slot abfd gd k = take_bit (8 * ?n) 1" "slot abfd gd (k + ?n) = take_bit (8 * ?n) (val - dtprel_base info)"
    "length (sgot_contents gd) = length (sgot_contents st)"
    unfolding gd_def using w1 w2 assms(2,3) len1 by simp_all
  have len: "length (sgot_contents st1) = length (sgot_contents st)" and m: "m + ?n \<le> length (sgot_contents st)"
    using gd(3) assms(3) by (simp_all add: st1_def m_def)
  note w3 = put_slot_word [OF assms(1), of m st1]
  show "rel_dyn st' = rel_dyn st"
    by (simp add: st' st2_def st1_def gd_def)
  show "slot abfd st' k = take_bit (8 * ?n) 1 \<and> slot abfd st' (k + ?n) = take_bit (8 * ?n) (val - dtprel_base info)"
    if "t AND GOT_TLS_GD \<noteq> 0"
    using that gd w3(3) [of _ "val - tprel_base info"] assms(2,3) m len by (simp add: st' st2_def st1_def m_def)
  show "slot abfd st' (if t AND GOT_TLS_GD \<noteq> 0 then k + 2 * ?n else k) = take_bit (8 * ?n) (val - tprel_base info)"
    if "t AND GOT_TLS_IE \<noteq> 0"
    using that w3(1) [of "val - tprel_base info"] assms(2) m len by (simp add: st' st2_def m_def)
qed

lemma gottprel_not_gd: "tls_gottprel_reloc_p r \<Longrightarrow> \<not> tls_gd_reloc_p r"
  by (auto simp: tls_gottprel_reloc_p_def tls_gd_reloc_p_def)

lemma done_keeps: "(t OR GOT_TLS_DONE) AND GOT_TLS_GD = t AND GOT_TLS_GD"
  by (rule bit_word_eqI) (auto simp: bit_simps)

lemma initialize_type:
  assumes "mips_elf_initialize_tls_slots abfd off t info h val st = Some (t', st')"
  shows "t' AND GOT_TLS_GD = t AND GOT_TLS_GD"
  using assms done_keeps by (auto simp: mips_elf_initialize_tls_slots_def Let_def split: if_splits option.splits)

text \<open>
  In a static link the TLS relocations find what the ABI asks for: the index
  returned for a general dynamic access points at the module number 1 followed by the
  offset of the variable from the DTP base, the index returned for an initial exec
  access points at its offset from the thread pointer, and no dynamic relocation is
  left.
\<close>

theorem tls_index_static:
  assumes "xvec_ok (bfd_xvec abfd)" "length (sgot_contents st) < 2 ^ 64"
    and "k + 3 * MIPS_ELF_GOT_SIZE abfd \<le> length (sgot_contents st)"
    and "\<not> shared info" "tls_indx info (map_option (syms st) h) = 0" "t AND GOT_TLS_DONE = 0" "t AND GOT_TLS_LDM = 0"
  shows "\<exists>i t' st'. mips_tls_got_index abfd (of_nat k) t r_type info h val st = Some (i, t', st')
    \<and> rel_dyn st' = rel_dyn st
    \<and> (tls_gd_reloc_p r_type \<and> t AND GOT_TLS_GD \<noteq> 0 \<longrightarrow>
         slot abfd st' (unat i) = take_bit (8 * MIPS_ELF_GOT_SIZE abfd) 1
         \<and> slot abfd st' (unat i + MIPS_ELF_GOT_SIZE abfd) = take_bit (8 * MIPS_ELF_GOT_SIZE abfd) (val - dtprel_base info))
    \<and> (tls_gottprel_reloc_p r_type \<and> t AND GOT_TLS_IE \<noteq> 0 \<longrightarrow>
         slot abfd st' (unat i) = take_bit (8 * MIPS_ELF_GOT_SIZE abfd) (val - tprel_base info))"
proof -
  have "mips_elf_initialize_tls_slots abfd (of_nat k) t info h val st \<noteq> None"
    using assms(4,5) by (simp add: mips_elf_initialize_tls_slots_def init_ie_def Let_def)
  then obtain t' st' where i: "mips_elf_initialize_tls_slots abfd (of_nat k) t info h val st = Some (t', st')"
    by force
  define j where "j = (if tls_gottprel_reloc_p r_type \<and> t' AND GOT_TLS_GD \<noteq> 0 then k + 2 * MIPS_ELF_GOT_SIZE abfd else k)"
  have "unat (of_nat j :: vma) = j"
    using assms(2,3) by (simp add: j_def unsigned_of_nat take_bit_nat_eq_self)
  moreover have "mips_tls_got_index abfd (of_nat k) t r_type info h val st = Some (of_nat j, t', st')"
    using i by (simp add: mips_tls_got_index_def j_def)
  ultimately show ?thesis
    using initialize_static [OF assms i] initialize_type [OF i] gottprel_not_gd [of r_type]
    by (auto simp: j_def)
qed

theorem tls_index_static_witness:
  "\<exists>i t' st'. mips_tls_got_index le_bfd (of_nat 4) (GOT_TLS_GD OR GOT_TLS_IE) R_MIPS_TLS_GOTTPREL tls_info None 0x420010
      example_got = Some (i, t', st')
    \<and> slot le_bfd st' (unat i) = take_bit 32 (0x420010 - tprel_base tls_info)"
proof -
  have "\<exists>i t' st'. mips_tls_got_index le_bfd (of_nat 4) (GOT_TLS_GD OR GOT_TLS_IE) R_MIPS_TLS_GOTTPREL tls_info None 0x420010
      example_got = Some (i, t', st')
    \<and> rel_dyn st' = rel_dyn example_got
    \<and> (tls_gd_reloc_p R_MIPS_TLS_GOTTPREL \<and> (GOT_TLS_GD OR GOT_TLS_IE) AND GOT_TLS_GD \<noteq> 0 \<longrightarrow>
         slot le_bfd st' (unat i) = take_bit (8 * MIPS_ELF_GOT_SIZE le_bfd) 1
         \<and> slot le_bfd st' (unat i + MIPS_ELF_GOT_SIZE le_bfd)
            = take_bit (8 * MIPS_ELF_GOT_SIZE le_bfd) (0x420010 - dtprel_base tls_info))
    \<and> (tls_gottprel_reloc_p R_MIPS_TLS_GOTTPREL \<and> (GOT_TLS_GD OR GOT_TLS_IE) AND GOT_TLS_IE \<noteq> 0 \<longrightarrow>
         slot le_bfd st' (unat i) = take_bit (8 * MIPS_ELF_GOT_SIZE le_bfd) (0x420010 - tprel_base tls_info))"
    by (rule tls_index_static)
      (simp_all add: example_got_def le_bfd_def MIPS_ELF_GOT_SIZE_def ABI_64_P_def tls_info_def example_info_def tls_indx_def)
  then show ?thesis
    by (simp add: tls_gottprel_reloc_p_def le_bfd_def MIPS_ELF_GOT_SIZE_def ABI_64_P_def) blast
qed

text \<open>
  A second relocation against the same TLS entry gets an index into the same
  slots and neither writes them nor emits dynamic relocations again, even where the
  first one was of another kind.
\<close>

theorem tls_index_again:
  assumes "mips_tls_got_index abfd i t r_type info h val st = Some (j, t', st')"
  shows "mips_tls_got_index abfd i t' r_type' info h val' st' =
    Some (if tls_gottprel_reloc_p r_type' \<and> t AND GOT_TLS_GD \<noteq> 0 then i + of_nat (2 * MIPS_ELF_GOT_SIZE abfd) else i,
          t', st')"
proof -
  have "mips_elf_initialize_tls_slots abfd i t info h val st = Some (t', st')"
    using assms by (auto simp: mips_tls_got_index_def split: option.splits)
  from initialize_done [OF this] initialize_type [OF this] show ?thesis
    by (simp add: mips_tls_got_index_def)
qed

theorem tls_index_again_witness:
  "\<exists>t' st'. mips_tls_got_index le_bfd 4 (GOT_TLS_GD OR GOT_TLS_IE) R_MIPS_TLS_GD tls_info None 0x420010 example_got
      = Some (4, t', st')
    \<and> mips_tls_got_index le_bfd 4 t' R_MIPS_TLS_GOTTPREL tls_info None 0 st' = Some (12, t', st')"
proof -
  obtain t' st' where f: "mips_tls_got_index le_bfd 4 (GOT_TLS_GD OR GOT_TLS_IE) R_MIPS_TLS_GD tls_info None 0x420010
      example_got = Some (4, t', st')"
    using initialize_total [OF tls_info_sec]
    by (fastforce simp: mips_tls_got_index_def tls_gottprel_reloc_p_def split: option.split)
  show ?thesis
    using f tls_index_again [OF f, of R_MIPS_TLS_GOTTPREL 0]
    by (auto simp: tls_gottprel_reloc_p_def le_bfd_def MIPS_ELF_GOT_SIZE_def ABI_64_P_def)
qed

end
