(* ===== verification/GotBuild.thy ===== *)
theory GotBuild
  imports Tls
begin

text \<open>
  Building the master GOT: recording the symbols that relocations need in it,
  following indirect symbols, counting, sorting the dynamic symbols so that those
  with a GOT entry come last, and giving every TLS entry its slots.

  A traversal of a hash table is a fold over the list of its members; nothing is
  assumed of their order.  Hiding a symbol and entering it in the dynamic symbol
  table belong to elflink.c: they are the arguments \<^verbatim>\<open>hide\<close> and \<^verbatim>\<open>record_dyn\<close>, and
  the result of recording is \<^verbatim>\<open>None\<close> when the latter fails.
\<close>

section \<open>Access to the state\<close>

definition upd_sym :: "nat \<Rightarrow> (link_sym \<Rightarrow> link_sym) \<Rightarrow> got_state \<Rightarrow> got_state" where
  "upd_sym h f st = st\<lparr>syms := (syms st)(h := f (syms st h))\<rparr>"

definition upd_ent :: "nat \<Rightarrow> (got_entry \<Rightarrow> got_entry) \<Rightarrow> got_state \<Rightarrow> got_state" where
  "upd_ent p f st = st\<lparr>ents := (ents st)[p := f (ents st ! p)]\<rparr>"

definition upd_got :: "nat \<Rightarrow> (got_info \<Rightarrow> got_info) \<Rightarrow> got_state \<Rightarrow> got_state" where
  "upd_got gi f st = st\<lparr>gots := (gots st)[gi := f (gots st ! gi)]\<rparr>"

definition new_ent :: "nat \<Rightarrow> got_entry \<Rightarrow> got_state \<Rightarrow> got_state" where
  "new_ent gi e st = upd_got gi (\<lambda>g. g\<lparr>got_entries := got_entries g @ [length (ents st)]\<rparr>) (st\<lparr>ents := ents st @ [e]\<rparr>)"

section \<open>Recording symbols\<close>

definition mips_elf_record_global_got_symbol ::
  "(nat \<Rightarrow> got_state \<Rightarrow> got_state) \<Rightarrow> (nat \<Rightarrow> got_state \<Rightarrow> got_state option)
   \<Rightarrow> nat \<Rightarrow> nat \<Rightarrow> bool \<Rightarrow> 8 word \<Rightarrow> got_state \<Rightarrow> got_state option" where
  "mips_elf_record_global_got_symbol hide record_dyn h abfd for_call tls_flag st =
     (let st = (if \<not> for_call then upd_sym h (\<lambda>s. s\<lparr>got_only_for_calls := False\<rparr>) st else st)
      in case (if dynindx (syms st h) = -1
               then record_dyn h (if ELF_ST_VISIBILITY (st_other (syms st h)) = STV_INTERNAL
                                    \<or> ELF_ST_VISIBILITY (st_other (syms st h)) = STV_HIDDEN then hide h st else st)
               else Some st) of
           None \<Rightarrow> None
         | Some st \<Rightarrow>
             let entry = \<lparr>ge_abfd = Some abfd, ge_symndx = -1, ge_d = D_h h, ge_tls_type = 0, gotidx = -1\<rparr>
             in case htab_find st (gots st ! 0) entry of
                  Some p \<Rightarrow> Some (upd_ent p (\<lambda>e. e\<lparr>ge_tls_type := ge_tls_type e OR tls_flag\<rparr>) st)
                | None \<Rightarrow>
                    let st = new_ent 0 (entry\<lparr>ge_tls_type := tls_flag\<rparr>) st
                    in Some (if tls_flag = 0 then upd_sym h (\<lambda>s. s\<lparr>global_got_area := GGA_NORMAL\<rparr>) st else st))"

definition mips_elf_record_local_got_symbol :: "nat \<Rightarrow> int \<Rightarrow> vma \<Rightarrow> 8 word \<Rightarrow> got_state \<Rightarrow> got_state" where
  "mips_elf_record_local_got_symbol abfd symndx addend tls_flag st =
     (let g = gots st ! 0;
          entry = \<lparr>ge_abfd = Some abfd, ge_symndx = symndx, ge_d = D_addend addend, ge_tls_type = tls_flag, gotidx = -1\<rparr>
      in case htab_find st g entry of
           Some p \<Rightarrow>
             if tls_flag = GOT_TLS_GD \<and> ge_tls_type (ents st ! p) AND GOT_TLS_GD = 0
             then upd_ent p (\<lambda>e. e\<lparr>ge_tls_type := ge_tls_type e OR tls_flag\<rparr>)
                    (upd_got 0 (\<lambda>g. g\<lparr>tls_gotno := tls_gotno g + 2\<rparr>) st)
             else if tls_flag = GOT_TLS_IE \<and> ge_tls_type (ents st ! p) AND GOT_TLS_IE = 0
             then upd_ent p (\<lambda>e. e\<lparr>ge_tls_type := ge_tls_type e OR tls_flag\<rparr>)
                    (upd_got 0 (\<lambda>g. g\<lparr>tls_gotno := tls_gotno g + 1\<rparr>) st)
             else st
         | None \<Rightarrow>
             if tls_flag \<noteq> 0 then
               new_ent 0 entry
                 (if tls_flag = GOT_TLS_IE then upd_got 0 (\<lambda>g. g\<lparr>tls_gotno := tls_gotno g + 1\<rparr>) st
                  else if tls_flag = GOT_TLS_GD then upd_got 0 (\<lambda>g. g\<lparr>tls_gotno := tls_gotno g + 2\<rparr>) st
                  else if tls_ldm_offset g = MINUS_ONE
                  then upd_got 0 (\<lambda>g. g\<lparr>tls_ldm_offset := MINUS_TWO, tls_gotno := tls_gotno g + 2\<rparr>) st
                  else st)
             else
               new_ent 0 (entry\<lparr>gotidx := int (local_gotno g)\<rparr>) (upd_got 0 (\<lambda>g. g\<lparr>local_gotno := local_gotno g + 1\<rparr>) st))"

text \<open>Room for dynamic relocations: the size of the section and its count of entries.\<close>

definition mips_elf_allocate_dynamic_relocations ::
  "bool \<Rightarrow> nat \<Rightarrow> nat \<Rightarrow> nat \<Rightarrow> nat \<times> nat \<Rightarrow> nat \<times> nat" where
  "mips_elf_allocate_dynamic_relocations vxworks rel_size rela_size n s =
     (case s of (sz, reloc_count) \<Rightarrow>
        if vxworks then (sz + n * rela_size, reloc_count)
        else
          let (sz, reloc_count) = (if sz = 0 then (sz + rel_size, reloc_count + 1) else (sz, reloc_count))
          in (sz + n * rel_size, reloc_count))"

section \<open>Indirect symbols\<close>

definition mips_elf_check_recreate_got :: "got_state \<Rightarrow> got_entry \<Rightarrow> bool" where
  "mips_elf_check_recreate_got st entry \<longleftrightarrow>
     ge_abfd entry \<noteq> None \<and> ge_symndx entry = -1
     \<and> (case root_type (syms st (d_h (ge_d entry))) of
          bfd_link_hash_indirect _ \<Rightarrow> True | bfd_link_hash_warning _ \<Rightarrow> True | _ \<Rightarrow> False)"

text \<open>The loop along the links does not end on a cyclic chain.\<close>

partial_function (option) follow_links :: "(nat \<Rightarrow> link_sym) \<Rightarrow> nat \<Rightarrow> nat option" where
  "follow_links sy h =
     (case root_type (sy h) of
        bfd_link_hash_indirect l \<Rightarrow> follow_links sy l
      | bfd_link_hash_warning l \<Rightarrow> follow_links sy l
      | _ \<Rightarrow> Some h)"

definition mips_elf_recreate_got :: "got_info \<Rightarrow> nat \<Rightarrow> got_state \<times> nat list \<Rightarrow> (got_state \<times> nat list) option" where
  "mips_elf_recreate_got g p acc =
     (case acc of (st, new_got) \<Rightarrow>
        let entry = ents st ! p
        in case (if ge_abfd entry \<noteq> None \<and> ge_symndx entry = -1
                 then map_option (\<lambda>h. upd_ent p (\<lambda>e. e\<lparr>ge_d := D_h h\<rparr>) st) (follow_links (syms st) (d_h (ge_d entry)))
                 else Some st) of
             None \<Rightarrow> None
           | Some st \<Rightarrow>
               Some (st, case htab_find st (g\<lparr>got_entries := new_got\<rparr>) (ents st ! p) of
                           None \<Rightarrow> new_got @ [p] | Some _ \<Rightarrow> new_got))"

fun recreate_all :: "got_info \<Rightarrow> nat list \<Rightarrow> got_state \<times> nat list \<Rightarrow> (got_state \<times> nat list) option" where
  "recreate_all g [] acc = Some acc"
| "recreate_all g (p # ps) acc =
     (case mips_elf_recreate_got g p acc of None \<Rightarrow> None | Some acc \<Rightarrow> recreate_all g ps acc)"

definition mips_elf_resolve_final_got_entries :: "nat \<Rightarrow> got_state \<Rightarrow> got_state option" where
  "mips_elf_resolve_final_got_entries gi st =
     (let g = gots st ! gi
      in if list_ex (\<lambda>p. mips_elf_check_recreate_got st (ents st ! p)) (got_entries g)
         then (case recreate_all (g\<lparr>got_multi := False\<rparr>) (got_entries g) (st, []) of
                 None \<Rightarrow> None
               | Some (st, new_got) \<Rightarrow> Some (upd_got gi (\<lambda>g. g\<lparr>got_multi := False, got_entries := new_got\<rparr>) st))
         else Some st)"

section \<open>Counting and sorting symbols\<close>

definition mips_elf_count_got_symbols :: "link_info \<Rightarrow> nat \<Rightarrow> got_state \<Rightarrow> got_state" where
  "mips_elf_count_got_symbols info h st =
     (let s = syms st h
      in if global_got_area s \<noteq> GGA_NONE then
           (if dynindx s = -1
               \<or> (if got_only_for_calls s then symbol_calls_local info s else symbol_references_local info s)
            then upd_sym h (\<lambda>s. s\<lparr>global_got_area := GGA_NONE\<rparr>)
                   (if global_got_area s \<noteq> GGA_RELOC_ONLY
                    then upd_got 0 (\<lambda>g. g\<lparr>local_gotno := local_gotno g + 1\<rparr>) st else st)
            else if is_vxworks info \<and> got_only_for_calls s \<and> plt_offset s \<noteq> MINUS_ONE
            then upd_sym h (\<lambda>s. s\<lparr>global_got_area := GGA_NONE\<rparr>) st
            else upd_got 0 (\<lambda>g. g\<lparr>global_gotno := global_gotno g + 1,
                                  reloc_only_gotno := reloc_only_gotno g
                                    + (if global_got_area s = GGA_RELOC_ONLY then 1 else 0)\<rparr>) st)
         else st)"

record hash_sort_data =
  low :: "nat option"
  min_got_dynindx :: int
  max_unref_got_dynindx :: int
  max_non_got_dynindx :: int

definition mips_elf_sort_hash_table_f ::
  "nat \<Rightarrow> (nat \<Rightarrow> link_sym) \<times> hash_sort_data \<Rightarrow> (nat \<Rightarrow> link_sym) \<times> hash_sort_data" where
  "mips_elf_sort_hash_table_f h acc =
     (case acc of (sy, hsd) \<Rightarrow>
        if dynindx (sy h) = -1 then (sy, hsd)
        else case global_got_area (sy h) of
            GGA_NONE \<Rightarrow> (sy(h := (sy h)\<lparr>dynindx := max_non_got_dynindx hsd\<rparr>),
                         hsd\<lparr>max_non_got_dynindx := max_non_got_dynindx hsd + 1\<rparr>)
          | GGA_NORMAL \<Rightarrow> (sy(h := (sy h)\<lparr>dynindx := min_got_dynindx hsd - 1\<rparr>),
                           hsd\<lparr>min_got_dynindx := min_got_dynindx hsd - 1, low := Some h\<rparr>)
          | GGA_RELOC_ONLY \<Rightarrow>
              (sy(h := (sy h)\<lparr>dynindx := max_unref_got_dynindx hsd\<rparr>),
               hsd\<lparr>low := (if max_unref_got_dynindx hsd = min_got_dynindx hsd then Some h else low hsd),
                   max_unref_got_dynindx := max_unref_got_dynindx hsd + 1\<rparr>))"

text \<open>
  The sections of the output that get a dynamic symbol; \<^verbatim>\<open>omit\<close> is the target's
  \<^verbatim>\<open>elf_backend_omit_section_dynsym\<close>, \<^verbatim>\<open>relocatable_exe\<close> the flag of the hash table.
\<close>

definition count_section_dynsyms :: "link_info \<Rightarrow> bool \<Rightarrow> (asection \<Rightarrow> bool) \<Rightarrow> asection list \<Rightarrow> nat" where
  "count_section_dynsyms info relocatable_exe omit sections =
     (if shared info \<or> relocatable_exe
      then length (filter (\<lambda>p. SEC_EXCLUDE \<notin> sec_flags p \<and> SEC_ALLOC \<in> sec_flags p \<and> \<not> omit p) sections)
      else 0)"

definition mips_elf_sort_hash_table :: "nat \<Rightarrow> nat \<Rightarrow> nat list \<Rightarrow> got_state \<Rightarrow> got_state" where
  "mips_elf_sort_hash_table dynsymcount section_dynsyms hs st =
     (if dynsymcount = 0 then st
      else
        let g = gots st ! 0;
            n = int dynsymcount - int (reloc_only_gotno g);
            (sy, hsd) = fold mips_elf_sort_hash_table_f hs
              (syms st, \<lparr>low = None, min_got_dynindx = n, max_unref_got_dynindx = n,
                         max_non_got_dynindx = int section_dynsyms + 1\<rparr>)
        in upd_got 0 (\<lambda>g. g\<lparr>global_gotsym := low hsd\<rparr>) (st\<lparr>syms := sy\<rparr>))"

section \<open>Slots of TLS entries\<close>

text \<open>The words that entries with the access types take.\<close>

definition tls_words :: "8 word \<Rightarrow> nat" where
  "tls_words t = (if t AND (GOT_TLS_GD OR GOT_TLS_LDM) \<noteq> 0 then 2 else 0) + (if t AND GOT_TLS_IE \<noteq> 0 then 1 else 0)"

definition mips_elf_initialize_tls_index :: "bfd \<Rightarrow> nat \<Rightarrow> nat \<Rightarrow> got_state \<Rightarrow> got_state" where
  "mips_elf_initialize_tls_index abfd gi p st =
     (let entry = ents st ! p; g = gots st ! gi
      in if ge_tls_type entry = 0 then st
         else
           let next_index = MIPS_ELF_GOT_SIZE abfd * tls_assigned_gotno g;
               count = (\<lambda>t st. upd_got gi (\<lambda>g. g\<lparr>tls_assigned_gotno := tls_assigned_gotno g + tls_words t\<rparr>) st)
           in if ge_symndx entry = -1 \<and> got_next g = None then
                let h = d_h (ge_d entry)
                in if sym_tls_type (syms st h) AND GOT_TLS_OFFSET_DONE \<noteq> 0 then st
                   else count (sym_tls_type (syms st h) OR GOT_TLS_OFFSET_DONE)
                          (upd_sym h (\<lambda>s. s\<lparr>sym_tls_type := sym_tls_type s OR GOT_TLS_OFFSET_DONE,
                                            tls_got_offset := of_nat next_index\<rparr>) st)
              else if ge_tls_type entry AND GOT_TLS_LDM \<noteq> 0
                   \<and> tls_ldm_offset g \<noteq> MINUS_TWO \<and> tls_ldm_offset g \<noteq> MINUS_ONE
              then upd_ent p (\<lambda>e. e\<lparr>gotidx := sint (tls_ldm_offset g)\<rparr>) st
              else count (ge_tls_type entry)
                     (upd_ent p (\<lambda>e. e\<lparr>gotidx := int next_index\<rparr>)
                       (if ge_tls_type entry AND GOT_TLS_LDM \<noteq> 0
                        then upd_got gi (\<lambda>g. g\<lparr>tls_ldm_offset := of_nat next_index\<rparr>) st else st)))"

section \<open>Dynamic symbols are sorted\<close>

text \<open>The dynamic symbols of a list that are in an area.\<close>

definition in_area :: "(nat \<Rightarrow> link_sym) \<Rightarrow> got_area \<Rightarrow> nat list \<Rightarrow> nat list" where
  "in_area sy a hs = filter (\<lambda>h. dynindx (sy h) \<noteq> -1 \<and> global_got_area (sy h) = a) hs"

lemma in_area_snoc:
  "in_area sy a (hs @ [h]) = in_area sy a hs @ (if dynindx (sy h) \<noteq> -1 \<and> global_got_area (sy h) = a then [h] else [])"
  by (simp add: in_area_def)

text \<open>What holds after the symbols \<^verbatim>\<open>hs\<close>: the areas fill three ranges, and \<^verbatim>\<open>low\<close> has the least index in the GOT.\<close>

definition area_range :: "hash_sort_data \<Rightarrow> int \<Rightarrow> int \<Rightarrow> got_area \<Rightarrow> int set" where
  "area_range hsd n s a =
     (case a of GGA_NONE \<Rightarrow> {s ..< max_non_got_dynindx hsd} | GGA_NORMAL \<Rightarrow> {min_got_dynindx hsd ..< n}
      | GGA_RELOC_ONLY \<Rightarrow> {n ..< max_unref_got_dynindx hsd})"

definition sorted_syms ::
  "(nat \<Rightarrow> link_sym) \<Rightarrow> int \<Rightarrow> int \<Rightarrow> nat list \<Rightarrow> (nat \<Rightarrow> link_sym) \<times> hash_sort_data \<Rightarrow> bool" where
  "sorted_syms sy0 n s hs acc = (case acc of (sy, hsd) \<Rightarrow>
     (\<forall>h. global_got_area (sy h) = global_got_area (sy0 h))
     \<and> (\<forall>h. h \<notin> set hs \<or> dynindx (sy0 h) = -1 \<longrightarrow> sy h = sy0 h)
     \<and> min_got_dynindx hsd = n - int (length (in_area sy0 GGA_NORMAL hs))
     \<and> max_unref_got_dynindx hsd = n + int (length (in_area sy0 GGA_RELOC_ONLY hs))
     \<and> max_non_got_dynindx hsd = s + int (length (in_area sy0 GGA_NONE hs))
     \<and> (\<forall>a. \<forall>h \<in> set (in_area sy0 a hs). dynindx (sy h) \<in> area_range hsd n s a)
     \<and> (\<forall>a. inj_on (\<lambda>h. dynindx (sy h)) (set (in_area sy0 a hs)))
     \<and> (case low hsd of
          None \<Rightarrow> in_area sy0 GGA_NORMAL hs = [] \<and> in_area sy0 GGA_RELOC_ONLY hs = []
        | Some l \<Rightarrow> (l \<in> set (in_area sy0 GGA_NORMAL hs) \<or> l \<in> set (in_area sy0 GGA_RELOC_ONLY hs))
            \<and> dynindx (sy l) = min_got_dynindx hsd))"

lemma in_area_other: "a \<noteq> b \<Longrightarrow> h \<in> set (in_area sy a hs) \<Longrightarrow> h \<notin> set (in_area sy b hs)"
  by (auto simp: in_area_def)

lemma sort_add:
  assumes inv: "sorted_syms sy0 n s hs (sy, hsd)" and h: "h \<notin> set hs" and dyn: "dynindx (sy0 h) \<noteq> -1"
    and i: "i \<notin> area_range hsd n s (global_got_area (sy0 h))" "i \<in> area_range hsd' n s (global_got_area (sy0 h))"
    and more: "\<And>a. area_range hsd n s a \<subseteq> area_range hsd' n s a"
    and ends: "min_got_dynindx hsd' = n - int (length (in_area sy0 GGA_NORMAL (hs @ [h])))"
      "max_unref_got_dynindx hsd' = n + int (length (in_area sy0 GGA_RELOC_ONLY (hs @ [h])))"
      "max_non_got_dynindx hsd' = s + int (length (in_area sy0 GGA_NONE (hs @ [h])))"
    and low: "case low hsd' of
          None \<Rightarrow> in_area sy0 GGA_NORMAL (hs @ [h]) = [] \<and> in_area sy0 GGA_RELOC_ONLY (hs @ [h]) = []
        | Some l \<Rightarrow> (l \<in> set (in_area sy0 GGA_NORMAL (hs @ [h])) \<or> l \<in> set (in_area sy0 GGA_RELOC_ONLY (hs @ [h])))
            \<and> dynindx ((sy(h := (sy h)\<lparr>dynindx := i\<rparr>)) l) = min_got_dynindx hsd'"
  shows "sorted_syms sy0 n s (hs @ [h]) (sy(h := (sy h)\<lparr>dynindx := i\<rparr>), hsd')"
proof -
  let ?sy = "sy(h := (sy h)\<lparr>dynindx := i\<rparr>)"
  have new: "h \<notin> set (in_area sy0 a hs)" for a
    using h by (simp add: in_area_def)
  have old: "dynindx (sy k) \<in> area_range hsd n s a" "dynindx (?sy k) = dynindx (sy k)"
    if "k \<in> set (in_area sy0 a hs)" for k a
    using inv that new by (auto simp: sorted_syms_def)
  have inj: "inj_on (\<lambda>k. dynindx (sy k)) (set (in_area sy0 a hs))" for a
    using inv by (simp add: sorted_syms_def)
  have set_new: "set (in_area sy0 a (hs @ [h])) =
      (if a = global_got_area (sy0 h) then insert h (set (in_area sy0 a hs)) else set (in_area sy0 a hs))" for a
    using dyn by (simp add: in_area_snoc)
  have c1: "\<forall>a. \<forall>k \<in> set (in_area sy0 a (hs @ [h])). dynindx (?sy k) \<in> area_range hsd' n s a"
    using subsetD [OF more old(1)] old(2) i(2) by (simp add: set_new)
  have c2: "\<forall>a. inj_on (\<lambda>k. dynindx (?sy k)) (set (in_area sy0 a (hs @ [h])))"
  proof
    fix a
    have "inj_on (\<lambda>k. dynindx (?sy k)) (set (in_area sy0 a hs))"
      by (rule inj_on_cong [THEN iffD2, OF old(2) inj])
    moreover have "i \<noteq> dynindx (?sy k)" if "k \<in> set (in_area sy0 a hs)" "a = global_got_area (sy0 h)" for k
      using old [OF that(1)] i(1) that(2) by auto
    ultimately show "inj_on (\<lambda>k. dynindx (?sy k)) (set (in_area sy0 a (hs @ [h])))"
      unfolding set_new using new [of a] by (cases "a = global_got_area (sy0 h)") force+
  qed
  have c3: "\<forall>k. global_got_area (?sy k) = global_got_area (sy0 k)"
    "\<forall>k. k \<notin> set (hs @ [h]) \<or> dynindx (sy0 k) = -1 \<longrightarrow> ?sy k = sy0 k"
    using inv dyn by (auto simp: sorted_syms_def)
  show ?thesis
    unfolding sorted_syms_def prod.case by (intro conjI) (fact c1 c2 c3 ends low)+
qed

lemma sort_step:
  assumes inv: "sorted_syms sy0 n s hs (sy, hsd)" and h: "h \<notin> set hs"
  shows "sorted_syms sy0 n s (hs @ [h]) (mips_elf_sort_hash_table_f h (sy, hsd))"
proof -
  have sy_h: "sy h = sy0 h"
    and ends: "min_got_dynindx hsd = n - int (length (in_area sy0 GGA_NORMAL hs))"
      "max_unref_got_dynindx hsd = n + int (length (in_area sy0 GGA_RELOC_ONLY hs))"
      "max_non_got_dynindx hsd = s + int (length (in_area sy0 GGA_NONE hs))"
    and low: "case low hsd of
          None \<Rightarrow> in_area sy0 GGA_NORMAL hs = [] \<and> in_area sy0 GGA_RELOC_ONLY hs = []
        | Some l \<Rightarrow> (l \<in> set (in_area sy0 GGA_NORMAL hs) \<or> l \<in> set (in_area sy0 GGA_RELOC_ONLY hs))
            \<and> dynindx (sy l) = min_got_dynindx hsd"
    using inv h by (simp_all add: sorted_syms_def)
  have new: "\<And>l a. l \<in> set (in_area sy0 a hs) \<Longrightarrow> l \<noteq> h"
    using h by (auto simp: in_area_def)
  have low_h: "low hsd \<noteq> Some h"
    using low new [of h] by auto
  show ?thesis
  proof (cases "dynindx (sy0 h) = -1")
    case True
    then have same: "in_area sy0 a (hs @ [h]) = in_area sy0 a hs" for a
      by (simp add: in_area_snoc)
    have f: "mips_elf_sort_hash_table_f h (sy, hsd) = (sy, hsd)"
      using True sy_h by (simp add: mips_elf_sort_hash_table_f_def)
    have "\<forall>k. k \<notin> set (hs @ [h]) \<or> dynindx (sy0 k) = -1 \<longrightarrow> sy k = sy0 k"
      using inv by (simp add: sorted_syms_def)
    then show ?thesis
      using inv unfolding f sorted_syms_def prod.case same by blast
  next
    case False
    show ?thesis
    proof (cases "global_got_area (sy0 h)")
      case GGA_NORMAL
      then have f: "mips_elf_sort_hash_table_f h (sy, hsd) = (sy(h := (sy h)\<lparr>dynindx := min_got_dynindx hsd - 1\<rparr>),
          hsd\<lparr>min_got_dynindx := min_got_dynindx hsd - 1, low := Some h\<rparr>)"
        using False sy_h by (simp add: mips_elf_sort_hash_table_f_def)
      show ?thesis
        unfolding f using GGA_NORMAL False ends
        by (intro sort_add [OF inv h]) (auto simp: area_range_def in_area_snoc split: got_area.split)
    next
      case GGA_RELOC_ONLY
      then have f: "mips_elf_sort_hash_table_f h (sy, hsd) = (sy(h := (sy h)\<lparr>dynindx := max_unref_got_dynindx hsd\<rparr>),
          hsd\<lparr>low := (if max_unref_got_dynindx hsd = min_got_dynindx hsd then Some h else low hsd),
              max_unref_got_dynindx := max_unref_got_dynindx hsd + 1\<rparr>)"
        using False sy_h by (simp add: mips_elf_sort_hash_table_f_def)
      show ?thesis
        unfolding f using GGA_RELOC_ONLY False ends low low_h
        by (intro sort_add [OF inv h]) (auto simp: area_range_def in_area_snoc split: got_area.split option.split)
    next
      case GGA_NONE
      then have f: "mips_elf_sort_hash_table_f h (sy, hsd) = (sy(h := (sy h)\<lparr>dynindx := max_non_got_dynindx hsd\<rparr>),
          hsd\<lparr>max_non_got_dynindx := max_non_got_dynindx hsd + 1\<rparr>)"
        using False sy_h by (simp add: mips_elf_sort_hash_table_f_def)
      show ?thesis
        unfolding f using GGA_NONE False ends low low_h
        by (intro sort_add [OF inv h]) (auto simp: area_range_def in_area_snoc split: got_area.split option.split)
    qed
  qed
qed

lemma sort_fold:
  assumes "distinct hs"
  shows "sorted_syms sy0 n s hs (fold mips_elf_sort_hash_table_f hs
     (sy0, \<lparr>low = None, min_got_dynindx = n, max_unref_got_dynindx = n, max_non_got_dynindx = s\<rparr>))"
  using assms
proof (induction hs rule: rev_induct)
  case Nil
  then show ?case by (simp add: sorted_syms_def in_area_def)
next
  case (snoc h hs)
  then show ?case
    using sort_step [of sy0 n s hs _ _ h]
    by (cases "fold mips_elf_sort_hash_table_f hs
     (sy0, \<lparr>low = None, min_got_dynindx = n, max_unref_got_dynindx = n, max_non_got_dynindx = s\<rparr>)") simp
qed


text \<open>
  C30.  Sorting gives the dynamic symbols the order the GOT relies on: the indices are
  distinct and in range, the symbols with a GOT entry are exactly those from the index of
  \<^verbatim>\<open>global_gotsym\<close> on, and, counted from there, the symbols of the normal area come
  before those of the relocation-only area, so that index minus first index is a position in
  the global part of the GOT.
\<close>

theorem sort_hash_table_order:
  fixes st hs section_dynsyms dynsymcount
  defines "st' \<equiv> mips_elf_sort_hash_table dynsymcount section_dynsyms hs st"
    and "size_of \<equiv> \<lambda>a. length (in_area (syms st) a hs)"
  assumes "distinct hs" "0 < length (gots st)"
    and "reloc_only_gotno (gots st ! 0) = size_of GGA_RELOC_ONLY"
    and "section_dynsyms + 1 + size_of GGA_NONE + size_of GGA_NORMAL + size_of GGA_RELOC_ONLY \<le> dynsymcount"
    and "h \<in> set hs" "h' \<in> set hs" "dynindx (syms st h) \<noteq> -1" "dynindx (syms st h') \<noteq> -1"
  shows "(dynindx (syms st' h) = dynindx (syms st' h') \<longleftrightarrow> h = h')
    \<and> (0 < dynindx (syms st' h) \<and> dynindx (syms st' h) < int dynsymcount)
    \<and> (case global_gotsym (gots st' ! 0) of
        None \<Rightarrow> global_got_area (syms st h) = GGA_NONE
      | Some l \<Rightarrow>
          (global_got_area (syms st h) = GGA_NONE \<longleftrightarrow> dynindx (syms st' h) < dynindx (syms st' l))
          \<and> (global_got_area (syms st h) = GGA_NORMAL \<longleftrightarrow>
               0 \<le> dynindx (syms st' h) - dynindx (syms st' l)
               \<and> dynindx (syms st' h) - dynindx (syms st' l) < int (size_of GGA_NORMAL))
          \<and> (global_got_area (syms st h) \<noteq> GGA_NONE \<longrightarrow>
               dynindx (syms st' h) - dynindx (syms st' l) < int (size_of GGA_NORMAL + size_of GGA_RELOC_ONLY)))"
proof (rule conjI [OF _ conjI])
  let ?n = "int dynsymcount - int (size_of GGA_RELOC_ONLY)" and ?s = "int section_dynsyms + 1"
  obtain sy hsd where f: "fold mips_elf_sort_hash_table_f hs
     (syms st, \<lparr>low = None, min_got_dynindx = ?n, max_unref_got_dynindx = ?n, max_non_got_dynindx = ?s\<rparr>) = (sy, hsd)"
    by force
  have inv: "sorted_syms (syms st) ?n ?s hs (sy, hsd)"
    unfolding f [symmetric] by (rule sort_fold [OF assms(3)])
  have st': "syms st' = sy" "global_gotsym (gots st' ! 0) = low hsd"
    using f assms(4-6) by (simp_all add: st'_def mips_elf_sort_hash_table_def upd_got_def Let_def)
  have mem: "x \<in> set (in_area (syms st) (global_got_area (syms st x)) hs)"
    if "x \<in> set hs" "dynindx (syms st x) \<noteq> -1" for x
    using that by (simp add: in_area_def)
  have rng: "dynindx (sy x) \<in> area_range hsd ?n ?s (global_got_area (syms st x))"
    if "x \<in> set hs" "dynindx (syms st x) \<noteq> -1" for x
    using inv mem [OF that] by (simp add: sorted_syms_def)
  have ends: "min_got_dynindx hsd = ?n - int (size_of GGA_NORMAL)"
    "max_unref_got_dynindx hsd = ?n + int (size_of GGA_RELOC_ONLY)"
    "max_non_got_dynindx hsd = ?s + int (size_of GGA_NONE)"
    using inv by (simp_all add: sorted_syms_def size_of_def)
  have bounds: "max_non_got_dynindx hsd \<le> min_got_dynindx hsd"
    using assms(6) ends by simp
  note r = rng [OF assms(7,9)] rng [OF assms(8,10)]
  have "h = h'" if eq: "dynindx (sy h) = dynindx (sy h')"
  proof -
    have "global_got_area (syms st h) = global_got_area (syms st h')"
      using r bounds eq ends
      by (cases "global_got_area (syms st h)"; cases "global_got_area (syms st h')") (simp_all add: area_range_def)
    then show ?thesis
      using inv mem [OF assms(7,9)] mem [OF assms(8,10)] eq by (auto simp: sorted_syms_def inj_on_def)
  qed
  then show "(dynindx (syms st' h) = dynindx (syms st' h')) = (h = h')"
    unfolding st' by blast
  show "0 < dynindx (syms st' h) \<and> dynindx (syms st' h) < int dynsymcount"
    unfolding st' using r(1) ends bounds assms(6)
    by (cases "global_got_area (syms st h)") (simp_all add: area_range_def)
  show "case global_gotsym (gots st' ! 0) of
        None \<Rightarrow> global_got_area (syms st h) = GGA_NONE
      | Some l \<Rightarrow>
          (global_got_area (syms st h) = GGA_NONE \<longleftrightarrow> dynindx (syms st' h) < dynindx (syms st' l))
          \<and> (global_got_area (syms st h) = GGA_NORMAL \<longleftrightarrow>
               0 \<le> dynindx (syms st' h) - dynindx (syms st' l)
               \<and> dynindx (syms st' h) - dynindx (syms st' l) < int (size_of GGA_NORMAL))
          \<and> (global_got_area (syms st h) \<noteq> GGA_NONE \<longrightarrow>
               dynindx (syms st' h) - dynindx (syms st' l) < int (size_of GGA_NORMAL + size_of GGA_RELOC_ONLY))"
  proof (cases "low hsd")
    case None
    then have "in_area (syms st) GGA_NORMAL hs = []" "in_area (syms st) GGA_RELOC_ONLY hs = []"
      using inv by (simp_all add: sorted_syms_def)
    then show ?thesis
      using mem [OF assms(7,9)] None by (cases "global_got_area (syms st h)") (simp_all add: st')
  next
    case (Some l)
    then have "dynindx (sy l) = min_got_dynindx hsd"
      using inv by (simp add: sorted_syms_def)
    then show ?thesis
      using r(1) ends bounds by (cases "global_got_area (syms st h)") (simp_all add: st' Some area_range_def)
  qed
qed

definition two_syms :: "nat \<Rightarrow> link_sym" where
  "two_syms h = example_sym\<lparr>dynindx := 0, global_got_area := (if h = 0 then GGA_NORMAL else GGA_NONE)\<rparr>"

theorem sort_hash_table_order_witness:
  "case global_gotsym (gots (mips_elf_sort_hash_table 3 0 [0, 1] (example_got\<lparr>syms := two_syms\<rparr>)) ! 0) of
     None \<Rightarrow> False
   | Some l \<Rightarrow> dynindx (syms (mips_elf_sort_hash_table 3 0 [0, 1] (example_got\<lparr>syms := two_syms\<rparr>)) 1)
       < dynindx (syms (mips_elf_sort_hash_table 3 0 [0, 1] (example_got\<lparr>syms := two_syms\<rparr>)) l)"
  using sort_hash_table_order [of "[0, 1]" "example_got\<lparr>syms := two_syms\<rparr>" 0 3 1 1]
    sort_hash_table_order [of "[0, 1]" "example_got\<lparr>syms := two_syms\<rparr>" 0 3 0 0]
  by (auto simp: two_syms_def example_sym_def example_got_def in_area_def split: option.splits)

section \<open>TLS slots refine a bump allocator\<close>

text \<open>
  The specification: every owner gets a block of its width the first time it is met.
  The owner of a slot is the symbol (for a global entry of a single GOT), the entry
  itself, or the module as a whole (an LDM entry, \<^verbatim>\<open>None\<close>).
\<close>

definition place :: "('o \<Rightarrow> nat) \<Rightarrow> 'o \<Rightarrow> ('o \<Rightarrow> nat option) \<times> nat \<Rightarrow> ('o \<Rightarrow> nat option) \<times> nat" where
  "place w own acc = (case acc of (m, n) \<Rightarrow> if m own = None then (m(own \<mapsto> n), n + w own) else (m, n))"

definition placed_ok :: "('o \<Rightarrow> nat) \<Rightarrow> nat \<Rightarrow> 'o set \<Rightarrow> ('o \<Rightarrow> nat option) \<times> nat \<Rightarrow> bool" where
  "placed_ok w n0 os acc = (case acc of (m, n) \<Rightarrow>
     dom m = os \<and> finite os \<and> n = n0 + sum w os
     \<and> (\<forall>x k. m x = Some k \<longrightarrow> n0 \<le> k \<and> k + w x \<le> n)
     \<and> (\<forall>x y j k. m x = Some j \<and> m y = Some k \<and> x \<noteq> y \<longrightarrow> j + w x \<le> k \<or> k + w y \<le> j))"

lemma place_ok:
  assumes "placed_ok w n0 os acc"
  shows "placed_ok w n0 (insert x os) (place w x acc)"
proof -
  obtain m n where acc: "acc = (m, n)" by force
  show ?thesis
  proof (cases "m x")
    case None
    then have "x \<notin> os"
      using assms by (auto simp: placed_ok_def acc)
    then show ?thesis
      using assms None by (fastforce simp: placed_ok_def acc place_def)
  next
    case (Some k)
    then have "insert x os = os"
      using assms by (auto simp: placed_ok_def acc)
    then show ?thesis
      using assms Some by (simp add: acc place_def)
  qed
qed

lemma fold_place_ok: "placed_ok w n0 (set os) (fold (place w) os (Map.empty, n0))"
proof (induction os rule: rev_induct)
  case Nil
  then show ?case by (simp add: placed_ok_def)
next
  case (snoc x os)
  then show ?case using place_ok [OF snoc] by simp
qed

type_synonym tls_owner = "(nat + nat) option"

definition tls_owner :: "got_state \<Rightarrow> nat \<Rightarrow> nat \<Rightarrow> tls_owner" where
  "tls_owner st gi p =
     (if ge_symndx (ents st ! p) = -1 \<and> got_next (gots st ! gi) = None then Some (Inl (d_h (ge_d (ents st ! p))))
      else if ge_tls_type (ents st ! p) AND GOT_TLS_LDM \<noteq> 0 then None else Some (Inr p))"

definition owner_words :: "got_state \<Rightarrow> tls_owner \<Rightarrow> nat" where
  "owner_words st own =
     (case own of
        None \<Rightarrow> 2
      | Some (Inl h) \<Rightarrow> tls_words (sym_tls_type (syms st h))
      | Some (Inr p) \<Rightarrow> tls_words (ge_tls_type (ents st ! p)))"

text \<open>The index an entry of the table ends up with.\<close>

definition tls_index_at :: "got_state \<Rightarrow> nat \<Rightarrow> nat \<Rightarrow> nat" where
  "tls_index_at st gi p =
     (case tls_owner st gi p of
        Some (Inl h) \<Rightarrow> unat (tls_got_offset (syms st h))
      | _ \<Rightarrow> nat (gotidx (ents st ! p)))"

text \<open>How the state corresponds to the specification after the entries \<^verbatim>\<open>ps\<close>.\<close>

definition same_entry :: "got_entry \<Rightarrow> got_entry \<Rightarrow> bool" where
  "same_entry e e' \<longleftrightarrow> ge_tls_type e = ge_tls_type e' \<and> ge_symndx e = ge_symndx e' \<and> ge_d e = ge_d e'"

definition no_offset :: "vma \<Rightarrow> bool" where
  "no_offset v \<longleftrightarrow> v = MINUS_TWO \<or> v = MINUS_ONE"

definition tls_rel :: "bfd \<Rightarrow> nat \<Rightarrow> got_state \<Rightarrow> nat list \<Rightarrow> got_state \<Rightarrow> (tls_owner \<Rightarrow> nat option) \<times> nat \<Rightarrow> bool" where
  "tls_rel abfd gi st0 ps st acc = (case acc of (m, n) \<Rightarrow>
     gi < length (gots st) \<and> tls_assigned_gotno (gots st ! gi) = n
     \<and> got_next (gots st ! gi) = got_next (gots st0 ! gi)
     \<and> length (ents st) = length (ents st0) \<and> (\<forall>p. same_entry (ents st ! p) (ents st0 ! p))
     \<and> (\<forall>h. tls_words (sym_tls_type (syms st h)) = tls_words (sym_tls_type (syms st0 h)))
     \<and> (\<forall>h. sym_tls_type (syms st h) AND GOT_TLS_OFFSET_DONE = 0 \<longleftrightarrow> m (Some (Inl h)) = None)
     \<and> (\<forall>h k. m (Some (Inl h)) = Some k \<longrightarrow> tls_got_offset (syms st h) = of_nat (MIPS_ELF_GOT_SIZE abfd * k))
     \<and> (no_offset (tls_ldm_offset (gots st ! gi)) \<longleftrightarrow> m None = None)
     \<and> (\<forall>k. m None = Some k \<longrightarrow> tls_ldm_offset (gots st ! gi) = of_nat (MIPS_ELF_GOT_SIZE abfd * k)
          \<and> MIPS_ELF_GOT_SIZE abfd * k < 2 ^ 63)
     \<and> (\<forall>p. p \<notin> set ps \<longrightarrow> m (Some (Inr p)) = None)
     \<and> (\<forall>p \<in> set ps. ge_tls_type (ents st0 ! p) \<noteq> 0 \<longrightarrow>
          (\<exists>k. m (tls_owner st0 gi p) = Some k
            \<and> ((\<exists>h. tls_owner st0 gi p = Some (Inl h)) \<or> gotidx (ents st ! p) = int (MIPS_ELF_GOT_SIZE abfd * k)))))"

lemma byte_eqI:
  fixes a b :: "8 word"
  assumes "bit a 0 = bit b 0" "bit a 1 = bit b 1" "bit a 2 = bit b 2" "bit a 3 = bit b 3"
    "bit a 4 = bit b 4" "bit a 5 = bit b 5" "bit a 6 = bit b 6" "bit a 7 = bit b 7"
  shows "a = b"
proof (rule bit_word_eqI)
  fix n assume "n < LENGTH(8)"
  then have "n \<in> {0,1,2,3,4,5,6,7}" by auto
  then show "bit a n = bit b n"
    using assms by (elim insertE emptyE) simp_all
qed

lemma upd_simps [simp]:
  "gots (upd_sym h f st) = gots st" "ents (upd_sym h f st) = ents st" "syms (upd_ent p e st) = syms st"
  "gots (upd_ent p e st) = gots st" "ents (upd_got gi g st) = ents st" "syms (upd_got gi g st) = syms st"
  "length (ents (upd_ent p e st)) = length (ents st)" "length (gots (upd_got gi g st)) = length (gots st)"
  by (simp_all add: upd_sym_def upd_ent_def upd_got_def)

lemma upd_nth [simp]:
  "p < length (ents st) \<Longrightarrow> ents (upd_ent p e st) ! q = (if q = p then e (ents st ! p) else ents st ! q)"
  "gi < length (gots st) \<Longrightarrow> gots (upd_got gi g st) ! gj = (if gj = gi then g (gots st ! gi) else gots st ! gj)"
  "syms (upd_sym h f st) k = (if k = h then f (syms st h) else syms st k)"
  by (simp_all add: upd_sym_def upd_ent_def upd_got_def nth_list_update)

lemma tls_words_done: "tls_words (t OR GOT_TLS_OFFSET_DONE) = tls_words t"
proof -
  have "(t OR GOT_TLS_OFFSET_DONE) AND (GOT_TLS_GD OR GOT_TLS_LDM) = t AND (GOT_TLS_GD OR GOT_TLS_LDM)"
    by (rule byte_eqI) (simp_all add: bit_simps)
  moreover have "(t OR GOT_TLS_OFFSET_DONE) AND GOT_TLS_IE = t AND GOT_TLS_IE"
    by (rule byte_eqI) (simp_all add: bit_simps)
  ultimately show ?thesis
    unfolding tls_words_def by (simp only:)
qed

lemma offset_done_set: "(t OR GOT_TLS_OFFSET_DONE) AND GOT_TLS_OFFSET_DONE \<noteq> 0"
proof -
  have "(t OR GOT_TLS_OFFSET_DONE) AND GOT_TLS_OFFSET_DONE = GOT_TLS_OFFSET_DONE"
    by (rule bit_word_eqI) (auto simp: bit_simps)
  then show ?thesis by simp
qed

lemma small_offset:
  assumes "k < 2 ^ 63"
  shows "\<not> no_offset (of_nat k)" "sint (of_nat k :: vma) = int k" "unat (of_nat k :: vma) = k"
proof -
  show u: "unat (of_nat k :: vma) = k"
    using assms by (simp add: unsigned_of_nat take_bit_nat_eq_self)
  have "unat (MINUS_ONE) \<noteq> k" "unat (MINUS_TWO) \<noteq> k"
    using assms by (auto simp: MINUS_ONE_def MINUS_TWO_def unsigned_minus_1_eq_mask mask_eq_exp_minus_1)
  with u show "\<not> no_offset (of_nat k)"
    by (auto simp: no_offset_def)
  show "sint (of_nat k :: vma) = int k"
    using assms by (simp add: signed_of_nat signed_take_bit_int_eq_self)
qed

lemma init_index_sym:
  assumes "ge_tls_type (ents st ! p) \<noteq> 0" "tls_owner st gi p = Some (Inl h)"
  shows "mips_elf_initialize_tls_index abfd gi p st =
    (if sym_tls_type (syms st h) AND GOT_TLS_OFFSET_DONE \<noteq> 0 then st
     else upd_got gi (\<lambda>g. g\<lparr>tls_assigned_gotno := tls_assigned_gotno g + tls_words (sym_tls_type (syms st h))\<rparr>)
            (upd_sym h (\<lambda>s. s\<lparr>sym_tls_type := sym_tls_type s OR GOT_TLS_OFFSET_DONE,
               tls_got_offset := of_nat (MIPS_ELF_GOT_SIZE abfd * tls_assigned_gotno (gots st ! gi))\<rparr>) st))"
proof -
  have c: "ge_symndx (ents st ! p) = -1 \<and> got_next (gots st ! gi) = None" "d_h (ge_d (ents st ! p)) = h"
    using assms(2) by (auto simp: tls_owner_def split: if_splits)
  show ?thesis
    unfolding mips_elf_initialize_tls_index_def Let_def if_P [OF c(1)] if_not_P [OF assms(1)] c(2) tls_words_done
    by (rule refl)
qed

lemma init_index_ent:
  assumes "ge_tls_type (ents st ! p) \<noteq> 0" "tls_owner st gi p = Some (Inr p)"
  shows "mips_elf_initialize_tls_index abfd gi p st =
    upd_got gi (\<lambda>g. g\<lparr>tls_assigned_gotno := tls_assigned_gotno g + tls_words (ge_tls_type (ents st ! p))\<rparr>)
      (upd_ent p (\<lambda>e. e\<lparr>gotidx := int (MIPS_ELF_GOT_SIZE abfd * tls_assigned_gotno (gots st ! gi))\<rparr>) st)"
proof -
  have c: "\<not> (ge_symndx (ents st ! p) = -1 \<and> got_next (gots st ! gi) = None)" "ge_tls_type (ents st ! p) AND GOT_TLS_LDM = 0"
    using assms(2) by (auto simp: tls_owner_def split: if_splits)
  show ?thesis
    unfolding mips_elf_initialize_tls_index_def Let_def if_not_P [OF c(1)] if_not_P [OF assms(1)]
    using c(2) by simp
qed

lemma init_index_ldm:
  assumes "ge_tls_type (ents st ! p) = GOT_TLS_LDM" "tls_owner st gi p = None"
  shows "mips_elf_initialize_tls_index abfd gi p st =
    (if no_offset (tls_ldm_offset (gots st ! gi))
     then upd_got gi (\<lambda>g. g\<lparr>tls_assigned_gotno := tls_assigned_gotno g + 2\<rparr>)
            (upd_ent p (\<lambda>e. e\<lparr>gotidx := int (MIPS_ELF_GOT_SIZE abfd * tls_assigned_gotno (gots st ! gi))\<rparr>)
              (upd_got gi (\<lambda>g. g\<lparr>tls_ldm_offset := of_nat (MIPS_ELF_GOT_SIZE abfd * tls_assigned_gotno (gots st ! gi))\<rparr>) st))
     else upd_ent p (\<lambda>e. e\<lparr>gotidx := sint (tls_ldm_offset (gots st ! gi))\<rparr>) st)"
  using assms
  by (auto simp: mips_elf_initialize_tls_index_def tls_owner_def Let_def no_offset_def tls_words_def split: if_splits)

text \<open>The three steps keep the correspondence.\<close>

lemma tls_relD:
  assumes "tls_rel abfd gi st0 ps st (m, n)"
  shows "gi < length (gots st)" "tls_assigned_gotno (gots st ! gi) = n" "got_next (gots st ! gi) = got_next (gots st0 ! gi)"
    "length (ents st) = length (ents st0)" "same_entry (ents st ! p) (ents st0 ! p)"
    "tls_words (sym_tls_type (syms st h)) = tls_words (sym_tls_type (syms st0 h))"
    "sym_tls_type (syms st h) AND GOT_TLS_OFFSET_DONE = 0 \<longleftrightarrow> m (Some (Inl h)) = None"
    "no_offset (tls_ldm_offset (gots st ! gi)) \<longleftrightarrow> m None = None"
    "m None = Some k \<Longrightarrow> tls_ldm_offset (gots st ! gi) = of_nat (MIPS_ELF_GOT_SIZE abfd * k)"
    "m None = Some k \<Longrightarrow> MIPS_ELF_GOT_SIZE abfd * k < 2 ^ 63"
    "p \<notin> set ps \<Longrightarrow> m (Some (Inr p)) = None"
  using assms by (auto simp: tls_rel_def)

lemma tls_rel_owner: "tls_rel abfd gi st0 ps st (m, n) \<Longrightarrow> tls_owner st gi p = tls_owner st0 gi p"
  by (auto simp: tls_rel_def tls_owner_def same_entry_def)

lemma owner_cases:
  "(\<exists>h. tls_owner st gi p = Some (Inl h)) \<or> tls_owner st gi p = None \<or> tls_owner st gi p = Some (Inr p)"
  by (auto simp: tls_owner_def)

lemma tls_step_sym:
  assumes rel: "tls_rel abfd gi st0 ps st (m, n)" and p: "p \<notin> set ps"
    and t: "ge_tls_type (ents st0 ! p) \<noteq> 0" and own: "tls_owner st0 gi p = Some (Inl h)"
  shows "tls_rel abfd gi st0 (ps @ [p]) (mips_elf_initialize_tls_index abfd gi p st)
    (place (owner_words st0) (tls_owner st0 gi p) (m, n))"
proof -
  note D = tls_relD [OF rel]
  have t': "ge_tls_type (ents st ! p) \<noteq> 0"
    using D(5) [of p] t by (simp add: same_entry_def)
  have own': "tls_owner st gi p = Some (Inl h)"
    using tls_rel_owner [OF rel] own by simp
  show ?thesis
  proof (cases "m (Some (Inl h))")
    case None
    then have "sym_tls_type (syms st h) AND GOT_TLS_OFFSET_DONE = 0"
      using D(7) by simp
    then show ?thesis
      unfolding init_index_sym [OF t' own'] using rel None own D(1) tls_words_done offset_done_set D(6) [of h]
      by (auto simp: tls_rel_def place_def owner_words_def)
  next
    case (Some k)
    then have "sym_tls_type (syms st h) AND GOT_TLS_OFFSET_DONE \<noteq> 0"
      using D(7) by simp
    then show ?thesis
      unfolding init_index_sym [OF t' own'] using rel Some own
      by (auto simp: tls_rel_def place_def)
  qed
qed

lemma tls_step_ent:
  assumes rel: "tls_rel abfd gi st0 ps st (m, n)" and p: "p \<notin> set ps" "p < length (ents st0)"
    and t: "ge_tls_type (ents st0 ! p) \<noteq> 0" and own: "tls_owner st0 gi p = Some (Inr p)"
  shows "tls_rel abfd gi st0 (ps @ [p]) (mips_elf_initialize_tls_index abfd gi p st)
    (place (owner_words st0) (tls_owner st0 gi p) (m, n))"
proof -
  note D = tls_relD [OF rel]
  have t': "ge_tls_type (ents st ! p) = ge_tls_type (ents st0 ! p)"
    using D(5) [of p] by (simp add: same_entry_def)
  have own': "tls_owner st gi p = Some (Inr p)"
    using tls_rel_owner [OF rel] own by simp
  have None: "m (Some (Inr p)) = None" and len: "p < length (ents st)"
    using D p by simp_all
  have t0: "ge_tls_type (ents st ! p) \<noteq> 0"
    using t t' by simp
  show ?thesis
    unfolding init_index_ent [OF t0 own'] own using rel None own D(1) len t' p(1)
    by (auto simp: tls_rel_def place_def owner_words_def same_entry_def)
qed

lemma tls_step_ldm:
  assumes rel: "tls_rel abfd gi st0 ps st (m, n)" and p: "p \<notin> set ps" "p < length (ents st0)"
    and t: "ge_tls_type (ents st0 ! p) = GOT_TLS_LDM" and own: "tls_owner st0 gi p = None"
    and small: "MIPS_ELF_GOT_SIZE abfd * n < 2 ^ 63"
  shows "tls_rel abfd gi st0 (ps @ [p]) (mips_elf_initialize_tls_index abfd gi p st)
    (place (owner_words st0) (tls_owner st0 gi p) (m, n))"
proof -
  note D = tls_relD [OF rel]
  have t': "ge_tls_type (ents st ! p) = GOT_TLS_LDM"
    using D(5) [of p] t by (simp add: same_entry_def)
  have own': "tls_owner st gi p = None"
    using tls_rel_owner [OF rel] own by simp
  have len: "p < length (ents st)"
    using D p by simp
  show ?thesis
  proof (cases "m None")
    case None
    then have "no_offset (tls_ldm_offset (gots st ! gi))"
      using D(8) by simp
    then show ?thesis
      unfolding init_index_ldm [OF t' own'] using rel None own D(1) len small_offset(1) [OF small] small
      by (auto simp: tls_rel_def place_def owner_words_def same_entry_def)
  next
    case (Some k)
    then have l: "\<not> no_offset (tls_ldm_offset (gots st ! gi))"
      and "tls_ldm_offset (gots st ! gi) = of_nat (MIPS_ELF_GOT_SIZE abfd * k)" "MIPS_ELF_GOT_SIZE abfd * k < 2 ^ 63"
      using D(8-10) by simp_all
    then have "sint (tls_ldm_offset (gots st ! gi)) = int (MIPS_ELF_GOT_SIZE abfd * k)"
      by (simp only: small_offset(2))
    with l show ?thesis
      unfolding init_index_ldm [OF t' own'] using rel Some own len
      by (auto simp: tls_rel_def place_def same_entry_def)
  qed
qed

lemma tls_step_none:
  assumes "tls_rel abfd gi st0 ps st acc" "ge_tls_type (ents st0 ! p) = 0"
  shows "tls_rel abfd gi st0 (ps @ [p]) (mips_elf_initialize_tls_index abfd gi p st) acc"
proof -
  have "ge_tls_type (ents st ! p) = 0"
    using assms by (cases acc) (simp add: tls_rel_def same_entry_def)
  then have "mips_elf_initialize_tls_index abfd gi p st = st"
    by (simp add: mips_elf_initialize_tls_index_def Let_def)
  then show ?thesis
    using assms by (cases acc) (auto simp: tls_rel_def)
qed

text \<open>The owners met in the order of a traversal.\<close>

definition tls_owners :: "got_state \<Rightarrow> nat \<Rightarrow> nat list \<Rightarrow> tls_owner list" where
  "tls_owners st gi ps = map (tls_owner st gi) (filter (\<lambda>p. ge_tls_type (ents st ! p) \<noteq> 0) ps)"

text \<open>The entries and symbols as recorded: no slots yet, and an LDM entry has no other access type.\<close>

definition tls_ready :: "bfd \<Rightarrow> nat \<Rightarrow> nat list \<Rightarrow> got_state \<Rightarrow> bool" where
  "tls_ready abfd gi ps st \<longleftrightarrow> gi < length (gots st) \<and> distinct ps
     \<and> (\<forall>p \<in> set ps. p < length (ents st)
          \<and> (ge_tls_type (ents st ! p) AND GOT_TLS_LDM \<noteq> 0 \<longrightarrow> ge_tls_type (ents st ! p) = GOT_TLS_LDM))
     \<and> (\<forall>h. sym_tls_type (syms st h) AND GOT_TLS_OFFSET_DONE = 0)
     \<and> no_offset (tls_ldm_offset (gots st ! gi))
     \<and> MIPS_ELF_GOT_SIZE abfd * (tls_assigned_gotno (gots st ! gi) + 3 * length ps) < 2 ^ 63"

lemma owner_words_le: "owner_words st own \<le> 3"
  by (simp add: owner_words_def tls_words_def split: option.split sum.split)

lemma place_next: "snd (place w x acc) \<le> snd acc + w x"
  by (cases acc) (simp add: place_def)

lemma fold_place_next:
  assumes "\<And>x. w x \<le> 3"
  shows "snd (fold (place w) os acc) \<le> snd acc + 3 * length os"
proof (induction os arbitrary: acc)
  case (Cons x os)
  show ?case
    using Cons [of "place w x acc"] place_next [of w x acc] assms [of x] by simp
qed simp

lemma owners_length: "length (tls_owners st gi ps) \<le> length ps"
  by (simp add: tls_owners_def)

lemma tls_refines:
  assumes "tls_ready abfd gi ps st0"
  shows "tls_rel abfd gi st0 ps (fold (mips_elf_initialize_tls_index abfd gi) ps st0)
    (fold (place (owner_words st0)) (tls_owners st0 gi ps) (Map.empty, tls_assigned_gotno (gots st0 ! gi)))"
  using assms
proof (induction ps rule: rev_induct)
  case Nil
  then show ?case
    by (simp add: tls_rel_def tls_ready_def tls_owners_def same_entry_def)
next
  case (snoc p ps)
  let ?n0 = "tls_assigned_gotno (gots st0 ! gi)"
  let ?st = "fold (mips_elf_initialize_tls_index abfd gi) ps st0"
  let ?acc = "fold (place (owner_words st0)) (tls_owners st0 gi ps) (Map.empty, ?n0)"
  obtain m n where acc: "?acc = (m, n)" by force
  have "tls_ready abfd gi ps st0"
    using snoc.prems
    by (simp add: tls_ready_def) (meson add_le_cancel_left le_trans linorder_not_le mult_le_mono2 le_SucI le_add2 nat_less_le order.strict_trans1)
  then have rel: "tls_rel abfd gi st0 ps ?st (m, n)"
    using snoc.IH by (simp add: acc)
  have p: "p \<notin> set ps" "p < length (ents st0)"
    and alone: "ge_tls_type (ents st0 ! p) AND GOT_TLS_LDM \<noteq> 0 \<Longrightarrow> ge_tls_type (ents st0 ! p) = GOT_TLS_LDM"
    using snoc.prems by (auto simp: tls_ready_def)
  have "n \<le> ?n0 + 3 * length (tls_owners st0 gi ps)"
    using fold_place_next [of "owner_words st0", OF owner_words_le, of "tls_owners st0 gi ps" "(Map.empty, ?n0)"] by (simp add: acc)
  also have "\<dots> \<le> ?n0 + 3 * length (ps @ [p])"
    using owners_length [of st0 gi ps] by simp
  finally have "MIPS_ELF_GOT_SIZE abfd * n \<le> MIPS_ELF_GOT_SIZE abfd * (?n0 + 3 * length (ps @ [p]))"
    by (rule mult_le_mono2)
  then have small: "MIPS_ELF_GOT_SIZE abfd * n < 2 ^ 63"
    using snoc.prems unfolding tls_ready_def by linarith
  show ?case
  proof (cases "ge_tls_type (ents st0 ! p) = 0")
    case True
    then show ?thesis
      using tls_step_none [OF rel True] by (simp add: tls_owners_def acc [unfolded tls_owners_def])
  next
    case False
    consider (sym) h where "tls_owner st0 gi p = Some (Inl h)" | (ldm) "tls_owner st0 gi p = None"
      | (ent) "tls_owner st0 gi p = Some (Inr p)"
      using owner_cases [of st0 gi p] by (elim disjE exE)
    then have "tls_rel abfd gi st0 (ps @ [p]) (mips_elf_initialize_tls_index abfd gi p ?st)
        (place (owner_words st0) (tls_owner st0 gi p) (m, n))"
    proof cases
      case sym
      then show ?thesis by (rule tls_step_sym [OF rel p(1) False])
    next
      case ldm
      then have "ge_tls_type (ents st0 ! p) = GOT_TLS_LDM"
        using alone by (simp add: tls_owner_def split: if_splits)
      then show ?thesis by (rule tls_step_ldm [OF rel p _ ldm small])
    next
      case ent
      then show ?thesis by (rule tls_step_ent [OF rel p False])
    qed
    then show ?thesis
      using False by (simp add: tls_owners_def acc [unfolded tls_owners_def])
  qed
qed

lemma tls_index_refined:
  fixes abfd gi ps st
  defines "st' \<equiv> fold (mips_elf_initialize_tls_index abfd gi) ps st"
    and "spec \<equiv> fold (place (owner_words st)) (tls_owners st gi ps) (Map.empty, tls_assigned_gotno (gots st ! gi))"
  assumes "tls_ready abfd gi ps st"
  shows "tls_assigned_gotno (gots st' ! gi) = snd spec
    \<and> (\<forall>p \<in> set ps. ge_tls_type (ents st ! p) \<noteq> 0 \<longrightarrow>
         map_option (\<lambda>k. MIPS_ELF_GOT_SIZE abfd * k) (fst spec (tls_owner st gi p)) = Some (tls_index_at st' gi p))"
proof -
  obtain m n where s: "spec = (m, n)" by force
  have rel: "tls_rel abfd gi st ps st' (m, n)"
    using tls_refines [OF assms(3)] by (simp add: st'_def spec_def [symmetric] s)
  have n: "MIPS_ELF_GOT_SIZE abfd * n < 2 ^ 63"
  proof -
    have "n \<le> tls_assigned_gotno (gots st ! gi) + 3 * length (tls_owners st gi ps)"
      using fold_place_next [of "owner_words st", OF owner_words_le, of "tls_owners st gi ps"
          "(Map.empty, tls_assigned_gotno (gots st ! gi))"]
      by (simp add: spec_def [symmetric] s)
    also have "\<dots> \<le> tls_assigned_gotno (gots st ! gi) + 3 * length ps"
      using owners_length [of st gi ps] by simp
    finally show ?thesis
      using assms(3) mult_le_mono2 unfolding tls_ready_def by (meson le_less_trans)
  qed
  have "placed_ok (owner_words st) (tls_assigned_gotno (gots st ! gi)) (set (tls_owners st gi ps)) (m, n)"
    using fold_place_ok [of "owner_words st" "tls_assigned_gotno (gots st ! gi)" "tls_owners st gi ps"]
    by (simp add: spec_def [symmetric] s)
  then have bound: "k \<le> n" if "m own = Some k" for own k
    using that by (force simp: placed_ok_def)
  have "tls_index_at st' gi p = MIPS_ELF_GOT_SIZE abfd * k"
    if "p \<in> set ps" "ge_tls_type (ents st ! p) \<noteq> 0" "m (tls_owner st gi p) = Some k" for p k
  proof -
    have "MIPS_ELF_GOT_SIZE abfd * k < 2 ^ 63"
      using n bound [OF that(3)] by (meson le_less_trans mult_le_mono2)
    note small = small_offset(3) [OF this]
    have own: "tls_owner st' gi p = tls_owner st gi p"
      by (rule tls_rel_owner [OF rel])
    show ?thesis
    proof (cases "\<exists>h. tls_owner st gi p = Some (Inl h)")
      case True
      then show ?thesis
        using rel that small own by (auto simp: tls_rel_def tls_index_at_def)
    next
      case False
      then have "gotidx (ents st' ! p) = int (MIPS_ELF_GOT_SIZE abfd * k)"
        using rel that by (fastforce simp: tls_rel_def)
      with False own show ?thesis
        by (simp add: tls_index_at_def nat_mult_distrib split: option.split sum.split)
    qed
  qed
  moreover have "\<exists>k. m (tls_owner st gi p) = Some k" if "p \<in> set ps" "ge_tls_type (ents st ! p) \<noteq> 0" for p
    using rel that by (auto simp: tls_rel_def)
  ultimately show ?thesis
    using rel unfolding s by (fastforce simp: tls_rel_def)
qed

text \<open>
  C20.  The assignment of GOT indices to TLS entries refines a bump allocator over the
  owners of slots: walking the table of a GOT gives each symbol of a single GOT, each other
  entry, and the one LDM slot of the module a block when it is first met, and the index
  that every TLS entry (or its symbol) ends up with is the start of the block of its owner,
  in bytes.
\<close>

theorem tls_index_refines:
  fixes abfd gi ps st
  defines "st' \<equiv> fold (mips_elf_initialize_tls_index abfd gi) ps st"
    and "spec \<equiv> fold (place (owner_words st)) (tls_owners st gi ps) (Map.empty, tls_assigned_gotno (gots st ! gi))"
  assumes "tls_ready abfd gi ps st"
  shows "tls_assigned_gotno (gots st' ! gi) = snd spec
    \<and> (\<forall>p \<in> set ps. ge_tls_type (ents st ! p) \<noteq> 0 \<longrightarrow>
         map_option (\<lambda>k. MIPS_ELF_GOT_SIZE abfd * k) (fst spec (tls_owner st gi p)) = Some (tls_index_at st' gi p))"
  unfolding st'_def spec_def by (rule tls_index_refined [OF assms(3)])

text \<open>
  C21.  TLS slots do not overlap and fit in the space that was counted: after the walk the
  entries of one owner share their index, the blocks of two owners are disjoint, every
  block lies in the TLS part of the GOT, and that part is as large as the sum of the
  widths of the owners.
\<close>

theorem tls_slots_layout:
  fixes abfd gi ps st
  defines "st' \<equiv> fold (mips_elf_initialize_tls_index abfd gi) ps st"
    and "z \<equiv> MIPS_ELF_GOT_SIZE abfd"
    and "n0 \<equiv> tls_assigned_gotno (gots st ! gi)"
    and "width \<equiv> \<lambda>p. owner_words st (tls_owner st gi p)"
  assumes "tls_ready abfd gi ps st"
    and "p \<in> set ps" "ge_tls_type (ents st ! p) \<noteq> 0" "q \<in> set ps" "ge_tls_type (ents st ! q) \<noteq> 0"
  shows "tls_assigned_gotno (gots st' ! gi) = n0 + sum (owner_words st) (set (tls_owners st gi ps))
    \<and> z * n0 \<le> tls_index_at st' gi p
    \<and> tls_index_at st' gi p + z * width p \<le> z * tls_assigned_gotno (gots st' ! gi)
    \<and> (if tls_owner st gi p = tls_owner st gi q then tls_index_at st' gi p = tls_index_at st' gi q
       else tls_index_at st' gi p + z * width p \<le> tls_index_at st' gi q
            \<or> tls_index_at st' gi q + z * width q \<le> tls_index_at st' gi p)"
proof -
  let ?spec = "fold (place (owner_words st)) (tls_owners st gi ps) (Map.empty, n0)"
  obtain m n where s: "?spec = (m, n)" by force
  have ok: "placed_ok (owner_words st) n0 (set (tls_owners st gi ps)) (m, n)"
    using fold_place_ok [of "owner_words st" n0 "tls_owners st gi ps"] by (simp add: s)
  have r: "tls_assigned_gotno (gots st' ! gi) = n"
    "\<And>x. x \<in> set ps \<Longrightarrow> ge_tls_type (ents st ! x) \<noteq> 0 \<Longrightarrow>
       map_option (\<lambda>k. z * k) (m (tls_owner st gi x)) = Some (tls_index_at st' gi x)"
    using tls_index_refined [OF assms(5)] by (simp_all add: st'_def z_def n0_def [symmetric] s)
  obtain j where j: "m (tls_owner st gi p) = Some j" "tls_index_at st' gi p = z * j"
    using r(2) [OF assms(6,7)] by auto
  obtain k where k: "m (tls_owner st gi q) = Some k" "tls_index_at st' gi q = z * k"
    using r(2) [OF assms(8,9)] by auto
  have scale: "a + w \<le> b \<Longrightarrow> z * a + z * w \<le> z * b" for a b w
    by (metis add_mult_distrib2 mult_le_mono2)
  show ?thesis
  proof (intro conjI)
    show "tls_assigned_gotno (gots st' ! gi) = n0 + sum (owner_words st) (set (tls_owners st gi ps))"
      using ok r(1) by (simp add: placed_ok_def)
    have "n0 \<le> j" "j + width p \<le> n"
      using ok j(1) by (auto simp: placed_ok_def width_def)
    then show "z * n0 \<le> tls_index_at st' gi p"
      "tls_index_at st' gi p + z * width p \<le> z * tls_assigned_gotno (gots st' ! gi)"
      using scale by (simp_all add: j(2) r(1))
    show "if tls_owner st gi p = tls_owner st gi q then tls_index_at st' gi p = tls_index_at st' gi q
       else tls_index_at st' gi p + z * width p \<le> tls_index_at st' gi q
            \<or> tls_index_at st' gi q + z * width q \<le> tls_index_at st' gi p"
    proof (cases "tls_owner st gi p = tls_owner st gi q")
      case True
      then show ?thesis using j k by simp
    next
      case False
      then have "j + width p \<le> k \<or> k + width q \<le> j"
        using ok j(1) k(1) unfolding placed_ok_def width_def by blast
      with False show ?thesis
        using scale by (auto simp: j(2) k(2))
    qed
  qed
qed

text \<open>A single GOT with a symbol accessed in two ways by one BFD and once by another, and an LDM entry.\<close>

definition tls_got :: got_state where
  "tls_got = example_got\<lparr>ents := [\<lparr>ge_abfd = Some 4, ge_symndx = -1, ge_d = D_h 3, ge_tls_type = 5, gotidx = -1\<rparr>,
       \<lparr>ge_abfd = Some 5, ge_symndx = -1, ge_d = D_h 3, ge_tls_type = 1, gotidx = -1\<rparr>,
       \<lparr>ge_abfd = Some 4, ge_symndx = 0, ge_d = D_addend 0, ge_tls_type = GOT_TLS_LDM, gotidx = -1\<rparr>],
     syms := \<lambda>_. example_sym\<lparr>sym_tls_type := 5\<rparr>\<rparr>"

lemma tls_got_ready: "tls_ready le_bfd 0 [0, 1, 2] tls_got"
  by (simp add: tls_ready_def tls_got_def example_got_def no_offset_def MIPS_ELF_GOT_SIZE_def ABI_64_P_def le_bfd_def
      example_sym_def)

theorem tls_index_refines_witness:
  "tls_assigned_gotno (gots (fold (mips_elf_initialize_tls_index le_bfd 0) [0, 1, 2] tls_got) ! 0) = 5"
proof -
  have "snd (fold (place (owner_words tls_got)) (tls_owners tls_got 0 [0, 1, 2])
      (Map.empty, tls_assigned_gotno (gots tls_got ! 0))) = 5"
    by (simp add: tls_owners_def tls_owner_def tls_got_def example_got_def place_def owner_words_def tls_words_def
        example_sym_def)
  with tls_index_refines [OF tls_got_ready] show ?thesis by simp
qed

theorem tls_slots_layout_witness:
  "tls_index_at (fold (mips_elf_initialize_tls_index le_bfd 0) [0, 1, 2] tls_got) 0 0
   = tls_index_at (fold (mips_elf_initialize_tls_index le_bfd 0) [0, 1, 2] tls_got) 0 1"
proof -
  have "tls_owner tls_got 0 0 = tls_owner tls_got 0 1" "ge_tls_type (ents tls_got ! 0) \<noteq> 0" "ge_tls_type (ents tls_got ! 1) \<noteq> 0"
    by (simp_all add: tls_owner_def tls_got_def example_got_def)
  then show ?thesis
    using tls_slots_layout [OF tls_got_ready, of 0 1] by simp
qed

section \<open>The counts of recorded local symbols\<close>

definition local_words :: "got_entry \<Rightarrow> nat" where
  "local_words e = (if is_ldm e then 0 else tls_words (ge_tls_type e))"

definition some_ldm :: "got_state \<Rightarrow> nat set \<Rightarrow> bool" where
  "some_ldm st ps \<longleftrightarrow> (\<exists>p \<in> ps. is_ldm (ents st ! p))"

definition counts_ok :: "got_state \<Rightarrow> bool" where
  "counts_ok st \<longleftrightarrow> (let g = gots st ! 0; ps = set (got_entries g) in
     0 < length (gots st) \<and> distinct (got_entries g)
     \<and> (\<forall>p \<in> ps. p < length (ents st) \<and> 0 \<le> ge_symndx (ents st ! p)
          \<and> (is_ldm (ents st ! p) \<longrightarrow> ge_tls_type (ents st ! p) = GOT_TLS_LDM))
     \<and> tls_gotno g = (\<Sum>p\<in>ps. local_words (ents st ! p)) + (if some_ldm st ps then 2 else 0)
     \<and> tls_ldm_offset g = (if some_ldm st ps then MINUS_TWO else MINUS_ONE)
     \<and> local_gotno g = card {p \<in> ps. gotidx (ents st ! p) \<noteq> -1}
     \<and> (\<forall>p \<in> ps. gotidx (ents st ! p) \<noteq> -1 \<longrightarrow> 0 \<le> gotidx (ents st ! p) \<and> gotidx (ents st ! p) < int (local_gotno g))
     \<and> inj_on (\<lambda>p. gotidx (ents st ! p)) {p \<in> ps. gotidx (ents st ! p) \<noteq> -1})"

lemma got_eq_ldm: "got_eq g e k \<Longrightarrow> is_ldm e = is_ldm k"
  by (auto simp: got_eq_def mips_elf_got_entry_eq_def mips_elf_multi_got_entry_eq_def ldm_tests split: if_splits)

lemma ldm_flags: "\<not> bit GOT_TLS_GD 1" "\<not> bit GOT_TLS_IE 1" "bit GOT_TLS_LDM 1" "\<not> bit (0::8 word) 1"
  by simp_all

lemma tls_words_gd: "t AND GOT_TLS_GD = 0 \<Longrightarrow> \<not> bit t 1 \<Longrightarrow> tls_words (t OR GOT_TLS_GD) = tls_words t + 2"
proof -
  assume a: "t AND GOT_TLS_GD = 0" "\<not> bit t 1"
  have "\<not> bit (t AND GOT_TLS_GD) 0"
    unfolding a(1) by simp
  then have b: "\<not> bit t 0" "\<not> bit t 1"
    using a(2) by (simp_all add: bit_simps)
  have "(t OR GOT_TLS_GD) AND (GOT_TLS_GD OR GOT_TLS_LDM) = 1" "t AND (GOT_TLS_GD OR GOT_TLS_LDM) = 0"
    using b by - (rule byte_eqI; simp add: bit_simps)+
  moreover have "(t OR GOT_TLS_GD) AND GOT_TLS_IE = t AND GOT_TLS_IE"
    by (rule byte_eqI) (simp_all add: bit_simps)
  ultimately show ?thesis
    unfolding tls_words_def by simp
qed

lemma tls_words_ie: "t AND GOT_TLS_IE = 0 \<Longrightarrow> tls_words (t OR GOT_TLS_IE) = tls_words t + 1"
proof -
  assume a: "t AND GOT_TLS_IE = 0"
  have "(t OR GOT_TLS_IE) AND GOT_TLS_IE = GOT_TLS_IE"
    by (rule byte_eqI) (simp_all add: bit_simps)
  moreover have "(t OR GOT_TLS_IE) AND (GOT_TLS_GD OR GOT_TLS_LDM) = t AND (GOT_TLS_GD OR GOT_TLS_LDM)"
    by (rule byte_eqI) (simp_all add: bit_simps)
  ultimately show ?thesis
    unfolding tls_words_def using a by simp
qed

text \<open>A flag added to an entry, and a new entry.\<close>

lemma counts_upd:
  assumes ok: "counts_ok st" and p: "p \<in> set (got_entries (gots st ! 0))"
    and f: "\<not> bit flag 1" "\<not> is_ldm (ents st ! p)"
    and w: "tls_words (ge_tls_type (ents st ! p) OR flag) = tls_words (ge_tls_type (ents st ! p)) + w"
  shows "counts_ok (upd_ent p (\<lambda>e. e\<lparr>ge_tls_type := ge_tls_type e OR flag\<rparr>)
    (upd_got 0 (\<lambda>g. g\<lparr>tls_gotno := tls_gotno g + w\<rparr>) st))"
proof -
  let ?ps = "set (got_entries (gots st ! 0))"
  let ?st = "upd_ent p (\<lambda>e. e\<lparr>ge_tls_type := ge_tls_type e OR flag\<rparr>) (upd_got 0 (\<lambda>g. g\<lparr>tls_gotno := tls_gotno g + w\<rparr>) st)"
  have len: "0 < length (gots st)" "p < length (ents st)" and fin: "finite ?ps"
    using ok p by (auto simp: counts_ok_def Let_def)
  have e: "ents ?st ! q = (if q = p then (ents st ! p)\<lparr>ge_tls_type := ge_tls_type (ents st ! p) OR flag\<rparr> else ents st ! q)" for q
    using len(2) by simp
  have ldm: "is_ldm (ents ?st ! q) = is_ldm (ents st ! q)" for q
    using f by (simp add: e is_ldm_def bit_simps)
  have words: "(\<Sum>q\<in>?ps. local_words (ents ?st ! q)) = (\<Sum>q\<in>?ps. local_words (ents st ! q)) + w"
  proof -
    have "(\<Sum>q\<in>?ps - {p}. local_words (ents ?st ! q)) = (\<Sum>q\<in>?ps - {p}. local_words (ents st ! q))"
      by (rule sum.cong) (simp_all add: e)
    moreover have "local_words (ents ?st ! p) = local_words (ents st ! p) + w"
      using f w ldm [of p] by (simp add: local_words_def e)
    ultimately show ?thesis
      using sum.remove [OF fin p, of "\<lambda>q. local_words (ents ?st ! q)"] sum.remove [OF fin p, of "\<lambda>q. local_words (ents st ! q)"]
      by simp
  qed
  have idx: "gotidx (ents ?st ! q) = gotidx (ents st ! q)" "ge_symndx (ents ?st ! q) = ge_symndx (ents st ! q)" for q
    by (simp_all add: e)
  have type: "is_ldm (ents st ! q) \<Longrightarrow> ge_tls_type (ents ?st ! q) = ge_tls_type (ents st ! q)" for q
    using f(2) e [of q] by (cases "q = p") simp_all
  show ?thesis
    using ok len words unfolding counts_ok_def Let_def some_ldm_def ldm idx
    by (simp add: type del: upd_nth(1)) (auto simp: e type)
qed

lemma counts_new:
  assumes ok: "counts_ok st" and len: "0 < length (gots st)"
    and e: "0 \<le> ge_symndx e" "is_ldm e \<longrightarrow> ge_tls_type e = GOT_TLS_LDM"
    and tls: "tls_gotno (f (gots st ! 0)) + (if some_ldm st (set (got_entries (gots st ! 0))) then 2 else 0)
      = tls_gotno (gots st ! 0) + local_words e + (if some_ldm st (set (got_entries (gots st ! 0))) \<or> is_ldm e then 2 else 0)"
    and off: "tls_ldm_offset (f (gots st ! 0)) = (if is_ldm e then MINUS_TWO else tls_ldm_offset (gots st ! 0))"
    and loc: "local_gotno (f (gots st ! 0)) = local_gotno (gots st ! 0) + (if gotidx e = -1 then 0 else 1)"
      "gotidx e = -1 \<or> gotidx e = int (local_gotno (gots st ! 0))"
    and same: "got_entries (f (gots st ! 0)) = got_entries (gots st ! 0)"
  shows "counts_ok (new_ent 0 e (upd_got 0 f st))"
proof -
  let ?ps = "set (got_entries (gots st ! 0))" and ?p = "length (ents st)"
  let ?st = "new_ent 0 e (upd_got 0 f st)"
  have p: "?p \<notin> ?ps" and fin: "finite ?ps"
    using ok by (auto simp: counts_ok_def Let_def)
  have g: "gots ?st ! 0 = (f (gots st ! 0))\<lparr>got_entries := got_entries (gots st ! 0) @ [?p]\<rparr>" "0 < length (gots ?st)"
    using len same by (simp_all add: new_ent_def upd_got_def)
  have ents: "ents ?st = ents st @ [e]"
    by (simp add: new_ent_def upd_got_def)
  have old: "ents ?st ! q = ents st ! q" if "q \<in> ?ps" for q
    using ok that by (simp add: ents nth_append counts_ok_def Let_def)
  have new: "ents ?st ! ?p = e"
    by (simp add: ents)
  have some: "some_ldm ?st (insert ?p ?ps) \<longleftrightarrow> some_ldm st ?ps \<or> is_ldm e"
    using old new by (auto simp: some_ldm_def)
  have sum: "(\<Sum>q\<in>insert ?p ?ps. local_words (ents ?st ! q)) = (\<Sum>q\<in>?ps. local_words (ents st ! q)) + local_words e"
    using fin p old new by simp
  have idx: "{q \<in> insert ?p ?ps. gotidx (ents ?st ! q) \<noteq> -1} =
      (if gotidx e = -1 then {} else {?p}) \<union> {q \<in> ?ps. gotidx (ents st ! q) \<noteq> -1}"
    using old new by auto
  have card: "card {q \<in> insert ?p ?ps. gotidx (ents ?st ! q) \<noteq> -1} = local_gotno (f (gots st ! 0))"
    unfolding idx loc(1) using ok p fin by (auto simp: counts_ok_def Let_def)
  have range: "\<forall>q \<in> insert ?p ?ps. gotidx (ents ?st ! q) \<noteq> -1 \<longrightarrow>
      0 \<le> gotidx (ents ?st ! q) \<and> gotidx (ents ?st ! q) < int (local_gotno (f (gots st ! 0)))"
    using ok old new loc by (fastforce simp: counts_ok_def Let_def)
  have "inj_on (\<lambda>q. gotidx (ents ?st ! q)) {q \<in> ?ps. gotidx (ents st ! q) \<noteq> -1}"
    using ok old by (simp add: counts_ok_def Let_def inj_on_def)
  moreover have "gotidx e \<notin> (\<lambda>q. gotidx (ents ?st ! q)) ` {q \<in> ?ps. gotidx (ents st ! q) \<noteq> -1}" if "gotidx e \<noteq> -1"
    using ok old loc(2) that by (fastforce simp: counts_ok_def Let_def)
  ultimately have inj: "inj_on (\<lambda>q. gotidx (ents ?st ! q)) {q \<in> insert ?p ?ps. gotidx (ents ?st ! q) \<noteq> -1}"
    unfolding idx using new p by (auto simp: inj_on_insert)
  have members: "\<forall>q \<in> insert ?p ?ps. q < length (ents ?st) \<and> 0 \<le> ge_symndx (ents ?st ! q)
      \<and> (is_ldm (ents ?st ! q) \<longrightarrow> ge_tls_type (ents ?st ! q) = GOT_TLS_LDM)"
    using ok old new e by (auto simp: counts_ok_def Let_def ents)
  show ?thesis
    using ok tls off g(2) p sum some card range inj members
    unfolding counts_ok_def Let_def by (simp add: g(1) split: if_splits)
qed

text \<open>One call, as an event with its arguments.\<close>

definition record_local :: "nat \<times> int \<times> vma \<times> 8 word \<Rightarrow> got_state \<Rightarrow> got_state" where
  "record_local ev st = (case ev of (b, s, a, flag) \<Rightarrow> mips_elf_record_local_got_symbol b s a flag st)"

definition local_event :: "nat \<times> int \<times> vma \<times> 8 word \<Rightarrow> bool" where
  "local_event ev = (case ev of (b, s, a, flag) \<Rightarrow> 0 \<le> s \<and> flag \<in> {0, GOT_TLS_GD, GOT_TLS_IE, GOT_TLS_LDM})"

lemma new_ent_plain: "new_ent 0 e st = new_ent 0 e (upd_got 0 (\<lambda>g. g) st)"
  by (simp add: upd_got_def)

lemma record_local_counts:
  assumes ok: "counts_ok st" and ev: "local_event ev"
  shows "counts_ok (record_local ev st)"
proof -
  obtain b s a flag where evd: "ev = (b, s, a, flag)" by (cases ev) auto
  have s: "0 \<le> s" and flag: "flag \<in> {0, GOT_TLS_GD, GOT_TLS_IE, GOT_TLS_LDM}"
    using ev by (simp_all add: local_event_def evd)
  have len: "0 < length (gots st)"
    using ok by (simp add: counts_ok_def Let_def)
  let ?e = "\<lparr>ge_abfd = Some b, ge_symndx = s, ge_d = D_addend a, ge_tls_type = flag, gotidx = -1\<rparr>"
  have off: "tls_ldm_offset (gots st ! 0) = (if some_ldm st (set (got_entries (gots st ! 0))) then MINUS_TWO else MINUS_ONE)"
    using ok by (simp add: counts_ok_def Let_def)
  have ne: "MINUS_TWO \<noteq> MINUS_ONE"
    by (simp add: MINUS_ONE_def MINUS_TWO_def)
  show ?thesis
  proof (cases "htab_find st (gots st ! 0) ?e")
    case (Some p)
    then have p: "p \<in> set (got_entries (gots st ! 0))" "is_ldm (ents st ! p) = is_ldm ?e"
      using got_eq_ldm by (auto simp: htab_find_def find_Some_iff in_set_conv_nth)
    show ?thesis
    proof (cases "flag = GOT_TLS_GD \<and> ge_tls_type (ents st ! p) AND GOT_TLS_GD = 0")
      case True
      then have "\<not> is_ldm (ents st ! p)" using p(2) by (simp add: is_ldm_def)
      then show ?thesis
        using True Some counts_upd [OF ok p(1), of GOT_TLS_GD 2] tls_words_gd
        by (simp add: record_local_def evd mips_elf_record_local_got_symbol_def Let_def is_ldm_def)
    next
      case gd: False
      show ?thesis
      proof (cases "flag = GOT_TLS_IE \<and> ge_tls_type (ents st ! p) AND GOT_TLS_IE = 0")
        case True
        then have "\<not> is_ldm (ents st ! p)" using p(2) by (simp add: is_ldm_def)
        then show ?thesis
          using True Some counts_upd [OF ok p(1), of GOT_TLS_IE 1] tls_words_ie
          by (simp add: record_local_def evd mips_elf_record_local_got_symbol_def Let_def is_ldm_def)
      next
        case False
        with gd Some ok show ?thesis
          by (auto simp: record_local_def evd mips_elf_record_local_got_symbol_def Let_def)
      qed
    qed
  next
    case None
    consider "flag = 0" | "flag = GOT_TLS_GD" | "flag = GOT_TLS_IE" | "flag = GOT_TLS_LDM"
      using flag by blast
    then show ?thesis
    proof cases
      case 1
      show ?thesis
        using None 1 s counts_new [OF ok len, of "?e\<lparr>gotidx := int (local_gotno (gots st ! 0))\<rparr>"]
        by (simp add: record_local_def evd mips_elf_record_local_got_symbol_def Let_def is_ldm_def local_words_def tls_words_def)
    next
      case 2
      show ?thesis
        using None 2 s counts_new [OF ok len, of ?e]
        by (simp add: record_local_def evd mips_elf_record_local_got_symbol_def Let_def is_ldm_def local_words_def tls_words_def)
    next
      case 3
      show ?thesis
        using None 3 s counts_new [OF ok len, of ?e]
        by (simp add: record_local_def evd mips_elf_record_local_got_symbol_def Let_def is_ldm_def local_words_def tls_words_def)
    next
      case 4
      show ?thesis
        using None 4 s counts_new [OF ok len, of ?e] off ne
        by (auto simp: record_local_def evd mips_elf_record_local_got_symbol_def Let_def is_ldm_def local_words_def
            tls_words_def new_ent_plain [of _ st])
    qed
  qed
qed

definition empty_table :: "got_state \<Rightarrow> bool" where
  "empty_table st \<longleftrightarrow> 0 < length (gots st) \<and> got_entries (gots st ! 0) = [] \<and> tls_gotno (gots st ! 0) = 0
     \<and> local_gotno (gots st ! 0) = 0 \<and> tls_ldm_offset (gots st ! 0) = MINUS_ONE"

lemma fold_record_counts: "empty_table st \<Longrightarrow> list_all local_event evs \<Longrightarrow> counts_ok (fold record_local evs st)"
proof (induction evs rule: rev_induct)
  case Nil
  then show ?case
    by (simp add: counts_ok_def empty_table_def some_ldm_def)
next
  case (snoc ev evs)
  then show ?case
    by (simp add: record_local_counts)
qed

text \<open>
  C31.  Recording local symbols keeps the counts of the master GOT exact: after any
  sequence of calls of \<^verbatim>\<open>mips_elf_record_local_got_symbol\<close> on an empty table,
  \<^verbatim>\<open>tls_gotno\<close> is the number of words its TLS entries take, where all LDM
  entries share two words, \<^verbatim>\<open>tls_ldm_offset\<close> tells whether there is one,
  \<^verbatim>\<open>local_gotno\<close> counts the other entries and these have distinct indices
  below it.
\<close>

theorem record_local_exact:
  assumes "empty_table st" "list_all local_event evs"
  shows "counts_ok (fold record_local evs st)"
  by (rule fold_record_counts [OF assms])

lemma record_frame: "syms (record_local ev st) = syms st"
  by (auto simp: record_local_def mips_elf_record_local_got_symbol_def Let_def new_ent_def upd_got_def upd_ent_def
      split: prod.split option.split)

lemma fold_record_frame: "syms (fold record_local evs st) = syms st"
  by (induction evs arbitrary: st) (simp_all add: record_frame)

lemma local_owner: "0 \<le> ge_symndx (ents st ! p) \<Longrightarrow> tls_owner st gi p = (if is_ldm (ents st ! p) then None else Some (Inr p))"
  by (simp add: tls_owner_def ldm_tests)

lemma local_owner_words:
  assumes "finite ps" "\<forall>p \<in> ps. 0 \<le> ge_symndx (ents st ! p)"
  shows "sum (owner_words st) (tls_owner st gi ` {p \<in> ps. ge_tls_type (ents st ! p) \<noteq> 0})
    = (\<Sum>p\<in>ps. local_words (ents st ! p)) + (if some_ldm st ps then 2 else 0)"
proof -
  let ?T = "{p \<in> ps. ge_tls_type (ents st ! p) \<noteq> 0}" and ?E = "{p \<in> ps. ge_tls_type (ents st ! p) \<noteq> 0 \<and> \<not> is_ldm (ents st ! p)}"
  have ldm: "is_ldm (ents st ! p) \<Longrightarrow> ge_tls_type (ents st ! p) \<noteq> 0" for p
    by (auto simp: is_ldm_def)
  have img: "tls_owner st gi ` ?T = (if some_ldm st ps then {None} else {}) \<union> (\<lambda>p. Some (Inr p)) ` ?E"
    using assms(2) ldm by (auto simp: local_owner some_ldm_def image_iff)
  have "(\<Sum>x\<in>(\<lambda>p. Some (Inr p)) ` ?E. owner_words st x) = (\<Sum>p\<in>?E. tls_words (ge_tls_type (ents st ! p)))"
    by (subst sum.reindex) (simp_all add: inj_on_def owner_words_def)
  also have "\<dots> = (\<Sum>p\<in>?E. local_words (ents st ! p))"
    by (rule sum.cong) (simp_all add: local_words_def)
  also have "\<dots> = (\<Sum>p\<in>ps. local_words (ents st ! p))"
    using assms(1) by (intro sum.mono_neutral_left) (auto simp: local_words_def tls_words_def)
  finally have E: "(\<Sum>x\<in>(\<lambda>p. Some (Inr p)) ` ?E. owner_words st x) = (\<Sum>p\<in>ps. local_words (ents st ! p))" .
  show ?thesis
    unfolding img using assms(1) E by (subst sum.union_disjoint) (auto simp: owner_words_def)
qed

text \<open>
  C22.  What was counted while the relocations were scanned is what the walk over the
  table hands out when the GOT is laid out: for a GOT without TLS references to global
  symbols the TLS slots start behind the local and global entries and end exactly
  \<^verbatim>\<open>tls_gotno\<close> words later.
\<close>

theorem tls_space_exact:
  fixes evs st abfd
  defines "st1 \<equiv> fold record_local evs st"
  defines "g \<equiv> gots st1 ! 0"
  defines "st2 \<equiv> upd_got 0 (\<lambda>g. g\<lparr>tls_assigned_gotno := global_gotno g + local_gotno g\<rparr>) st1"
  assumes "empty_table st" "list_all local_event evs"
    and "\<forall>h. sym_tls_type (syms st h) AND GOT_TLS_OFFSET_DONE = 0"
    and "MIPS_ELF_GOT_SIZE abfd * (global_gotno g + local_gotno g + 3 * length (got_entries g)) < 2 ^ 63"
  shows "tls_assigned_gotno (gots (fold (mips_elf_initialize_tls_index abfd 0) (got_entries g) st2) ! 0)
    = global_gotno g + local_gotno g + tls_gotno g"
proof -
  have ok: "counts_ok st1"
    unfolding st1_def by (rule fold_record_counts [OF assms(4,5)])
  then have len: "0 < length (gots st1)"
    by (simp add: counts_ok_def Let_def)
  have g2: "gots st2 ! 0 = g\<lparr>tls_assigned_gotno := global_gotno g + local_gotno g\<rparr>" "ents st2 = ents st1"
    "syms st2 = syms st" "length (gots st2) = length (gots st1)"
    using len by (simp_all add: st2_def g_def st1_def fold_record_frame)
  have "no_offset (tls_ldm_offset g)"
    using ok by (simp add: counts_ok_def Let_def g_def no_offset_def)
  then have ready: "tls_ready abfd 0 (got_entries g) st2"
    using ok len assms(6,7) unfolding tls_ready_def g2 by (simp add: counts_ok_def Let_def g_def ldm_tests)
  let ?n0 = "global_gotno g + local_gotno g"
  have "placed_ok (owner_words st2) ?n0 (set (tls_owners st2 0 (got_entries g)))
      (fold (place (owner_words st2)) (tls_owners st2 0 (got_entries g)) (Map.empty, ?n0))"
    by (rule fold_place_ok)
  then have "tls_assigned_gotno (gots (fold (mips_elf_initialize_tls_index abfd 0) (got_entries g) st2) ! 0)
      = ?n0 + sum (owner_words st2) (set (tls_owners st2 0 (got_entries g)))"
    using tls_index_refined [OF ready] by (auto simp: g2 placed_ok_def)
  also have "set (tls_owners st2 0 (got_entries g))
      = tls_owner st2 0 ` {p \<in> set (got_entries g). ge_tls_type (ents st2 ! p) \<noteq> 0}"
    by (auto simp: tls_owners_def)
  also have "sum (owner_words st2) \<dots>
      = (\<Sum>p\<in>set (got_entries g). local_words (ents st2 ! p)) + (if some_ldm st2 (set (got_entries g)) then 2 else 0)"
    using ok by (intro local_owner_words) (simp_all add: counts_ok_def Let_def g_def g2)
  also have "\<dots> = tls_gotno g"
    using ok by (simp add: counts_ok_def Let_def g_def g2 some_ldm_def)
  finally show ?thesis .
qed

lemma example_empty: "empty_table (example_got\<lparr>gots := [(gots example_got ! 0)\<lparr>local_gotno := 0\<rparr>]\<rparr>)"
  by (simp add: empty_table_def example_got_def)

theorem record_local_exact_witness:
  "counts_ok (fold record_local [(4, 3, 8, 0), (4, 3, 8, GOT_TLS_GD), (4, 0, 0, GOT_TLS_LDM), (5, 0, 0, GOT_TLS_LDM)]
     (example_got\<lparr>gots := [(gots example_got ! 0)\<lparr>local_gotno := 0\<rparr>]\<rparr>))"
  by (rule record_local_exact [OF example_empty]) (simp add: local_event_def)

definition fresh_got :: got_state where
  "fresh_got = example_got\<lparr>gots := [(gots example_got ! 0)\<lparr>local_gotno := 0\<rparr>], syms := \<lambda>_. example_sym\<rparr>"

theorem tls_space_exact_witness:
  "tls_assigned_gotno (gots (fold (mips_elf_initialize_tls_index le_bfd 0) [0]
     (upd_got 0 (\<lambda>g. g\<lparr>tls_assigned_gotno := global_gotno g + local_gotno g\<rparr>)
       (record_local (4, 3, 8, GOT_TLS_GD) fresh_got))) ! 0) = 2"
proof -
  have g: "gots (record_local (4, 3, 8, GOT_TLS_GD) fresh_got) ! 0
      = (gots fresh_got ! 0)\<lparr>tls_gotno := 2, got_entries := [0]\<rparr>"
    by (simp add: record_local_def mips_elf_record_local_got_symbol_def fresh_got_def example_got_def htab_find_def
        new_ent_def upd_got_def Let_def)
  show ?thesis
    using tls_space_exact [of fresh_got "[(4, 3, 8, GOT_TLS_GD)]" le_bfd]
    by (simp add: g local_event_def empty_table_def)
      (simp add: fresh_got_def example_got_def example_sym_def MIPS_ELF_GOT_SIZE_def ABI_64_P_def le_bfd_def)
qed

end
