(* ===== verification/Calc.thy ===== *)
theory Calc
  imports GotBuild
begin

text \<open>
  The value of a relocation (\<^verbatim>\<open>mips_elf_calculate_relocation\<close>), in the phases of
  the code: finding the symbol, redirecting the reference to a stub, the mode of a
  jump, the GOT offset, and the calculation proper.

  The input object is a record: its symbol table, the sections of its local symbols
  and the stubs for them.  What elflink.c and elf.c compute is part of the record
  \<^verbatim>\<open>link_env\<close>: the mapping of local symbols into merged sections
  (\<^verbatim>\<open>_bfd_elf_rel_local_sym\<close>), the offset of a field in an edited section
  (\<^verbatim>\<open>_bfd_elf_section_offset\<close>) and the dynamic symbol indices of output sections.
  A result \<^verbatim>\<open>None\<close> stands for following a null pointer, an endless chain of indirect symbols,
  a call of \<^verbatim>\<open>abort\<close>, or reading a variable before it is set.
\<close>

section \<open>Inputs\<close>

datatype bfd_reloc_status =
  bfd_reloc_ok | bfd_reloc_overflow | bfd_reloc_outofrange | bfd_reloc_continue
  | bfd_reloc_notsupported | bfd_reloc_undefined | bfd_reloc_dangerous

record local_sym =
  ls_is_section :: bool
  ls_value :: vma
  ls_other :: "8 word"

record input_object =
  in_bfd :: bfd
  bad_symtab :: bool
  sh_info :: nat
  local_syms :: "nat \<Rightarrow> local_sym"
  local_sections :: "nat \<Rightarrow> asection option"
  local_stubs :: "nat \<Rightarrow> asection option"
  local_call_stubs :: "nat \<Rightarrow> asection option"
  sym_hashes :: "nat \<Rightarrow> nat"
  in_section_names :: "string list"

record link_env =
  dynobj :: bfd
  rel_local_sym :: "local_sym \<Rightarrow> asection \<Rightarrow> vma \<Rightarrow> asection \<times> vma"
  elf_section_offset :: "asection \<Rightarrow> vma \<Rightarrow> vma"
  is_abs_section :: "asection \<Rightarrow> bool"
  has_owner :: "asection \<Rightarrow> bool"
  out_dynindx :: "out_section \<Rightarrow> int"
  text_index_dynindx :: int

record Elf32_crinfo =
  cr_ctype :: "32 word"
  cr_rtype :: "32 word"
  cr_dist2to :: "32 word"
  cr_relvaddr :: "32 word"
  cr_konst :: vma
  cr_vaddr :: vma

record calc_state =
  gs :: got_state
  df_textrel :: bool
  written_outs :: "nat set"
  compact_rel :: "Elf32_crinfo list option"

definition mips_elf_local_relocation_p :: "input_object \<Rightarrow> elf_rela \<Rightarrow> bool" where
  "mips_elf_local_relocation_p io relocation =
     (let r_symndx = ELF_R_SYM (in_bfd io) (r_info relocation);
          extsymoff = (if bad_symtab io then 0 else sh_info io)
      in if r_symndx < extsymoff then True
         else bad_symtab io \<and> local_sections io r_symndx \<noteq> None)"

definition is_gott_symbol :: "link_info \<Rightarrow> link_sym \<Rightarrow> bool" where
  "is_gott_symbol info h \<longleftrightarrow> is_vxworks info \<and> shared info
     \<and> (sym_name h = ''__GOTT_BASE__'' \<or> sym_name h = ''__GOTT_INDEX__'')"

definition mips_elf_relocation_needs_la25_stub :: "bfd \<Rightarrow> r_type \<Rightarrow> bool \<Rightarrow> bool" where
  "mips_elf_relocation_needs_la25_stub input_bfd r_type target_is_16_bit_code_p =
     (if PIC_OBJECT_P input_bfd then False
      else if r_type \<in> {R_MIPS_26, R_MIPS_PC16, R_MICROMIPS_26_S1, R_MICROMIPS_PC7_S1, R_MICROMIPS_PC10_S1,
                        R_MICROMIPS_PC16_S1, R_MICROMIPS_PC23_S2} then True
      else if r_type = R_MIPS16_26 then \<not> target_is_16_bit_code_p
      else False)"

definition FN_STUB_P :: "string \<Rightarrow> bool" where
  "FN_STUB_P name \<longleftrightarrow> take (length ''.mips16.fn.'') name = ''.mips16.fn.''"

definition CALL_STUB_P :: "string \<Rightarrow> bool" where
  "CALL_STUB_P name \<longleftrightarrow> take (length ''.mips16.call.'') name = ''.mips16.call.''"

definition CALL_FP_STUB_P :: "string \<Rightarrow> bool" where
  "CALL_FP_STUB_P name \<longleftrightarrow> take (length ''.mips16.call.fp.'') name = ''.mips16.call.fp.''"

definition section_allows_mips16_refs_p :: "asection \<Rightarrow> bool" where
  "section_allows_mips16_refs_p sec =
     (FN_STUB_P (sec_name sec) \<or> CALL_STUB_P (sec_name sec) \<or> CALL_FP_STUB_P (sec_name sec) \<or> sec_name sec = ''.pdr'')"

section \<open>The symbol\<close>

record target =
  t_symbol :: vma
  t_sec :: "asection option"
  t_h :: "nat option"
  t_addend :: vma
  t_gp_disp :: bool
  t_gnu_local_gp :: bool
  t_is16 :: bool
  t_micromips :: bool

definition resolve_local :: "link_env \<Rightarrow> input_object \<Rightarrow> nat \<Rightarrow> vma \<Rightarrow> target option" where
  "resolve_local env io r_symndx addend =
     (case local_sections io r_symndx of
        None \<Rightarrow> None
      | Some sec \<Rightarrow>
          let sy = local_syms io r_symndx;
              symbol = section_address sec;
              symbol = (if \<not> ls_is_section sy \<or> SEC_MERGE \<in> sec_flags sec then symbol + ls_value sy else symbol);
              (sec, addend) =
                (if SEC_MERGE \<in> sec_flags sec \<and> ls_is_section sy
                 then (let (sec', addend') = rel_local_sym env sy sec addend
                       in (sec', addend' - symbol + section_address sec'))
                 else (sec, addend));
              symbol = (if ELF_ST_IS_COMPRESSED (ls_other sy) then symbol + 1 else symbol)
          in Some \<lparr>t_symbol = symbol, t_sec = Some sec, t_h = None, t_addend = addend, t_gp_disp = False,
                   t_gnu_local_gp = False, t_is16 = ELF_ST_IS_MIPS16 (ls_other sy),
                   t_micromips = ELF_ST_IS_MICROMIPS (ls_other sy)\<rparr>)"

definition sym_defined :: "link_sym \<Rightarrow> bool" where
  "sym_defined h \<longleftrightarrow> root_type h = bfd_link_hash_defined \<or> root_type h = bfd_link_hash_defweak"

text \<open>The address of a global symbol and its section, or the error of an undefined one.\<close>

definition global_address :: "link_env \<Rightarrow> link_info \<Rightarrow> bfd \<Rightarrow> link_sym \<Rightarrow> bfd_reloc_status + vma \<times> asection option" where
  "global_address env info input_bfd h =
     (if sym_defined h \<and> def_section h \<noteq> None
      then (let sec = the (def_section h)
            in Inr (case output_section sec of
                      Some os \<Rightarrow> def_value h + osec_vma os + output_offset sec | None \<Rightarrow> def_value h,
                    Some sec))
      else if root_type h = bfd_link_hash_undefweak then Inr (0, None)
      else if ignore_unresolved info \<and> ELF_ST_VISIBILITY (st_other h) = STV_DEFAULT then Inr (0, None)
      else if sym_name h = (if SGI_COMPAT input_bfd then ''_DYNAMIC_LINK'' else ''_DYNAMIC_LINKING'') then Inr (0, None)
      else if ELF_MIPS_IS_OPTIONAL (st_other h) then Inr (0, None)
      else if undefined_symbol_callback info (sym_name h) then Inl bfd_reloc_undefined
      else Inl bfd_reloc_notsupported)"

definition resolve_global ::
  "link_env \<Rightarrow> link_info \<Rightarrow> input_object \<Rightarrow> (nat \<Rightarrow> link_sym) \<Rightarrow> r_type \<Rightarrow> nat \<Rightarrow> vma \<Rightarrow> (bfd_reloc_status + target) option" where
  "resolve_global env info io sy r_type r_symndx addend =
     (case follow_links sy (sym_hashes io (r_symndx - (if bad_symtab io then 0 else sh_info io))) of
        None \<Rightarrow> None
      | Some hi \<Rightarrow>
          let h = sy hi;
              found = (\<lambda>symbol sec gp_disp gnu_local_gp.
                Inr \<lparr>t_symbol = symbol, t_sec = sec, t_h = Some hi, t_addend = addend, t_gp_disp = gp_disp,
                     t_gnu_local_gp = gnu_local_gp, t_is16 = ELF_ST_IS_MIPS16 (st_other h),
                     t_micromips = splt info \<noteq> sec \<and> ELF_ST_IS_MICROMIPS (st_other h)\<rparr>)
          in Some (if sym_name h = ''_gp_disp'' \<and> \<not> NEWABI_P (in_bfd io)
                   then (if \<not> hi16_reloc_p r_type \<and> \<not> lo16_reloc_p r_type then Inl bfd_reloc_notsupported
                         else found 0 None True False)
                   else if sym_name h = ''__gnu_local_gp'' then found 0 None False True
                   else case global_address env info (in_bfd io) h of
                          Inl e \<Rightarrow> Inl e
                        | Inr (symbol, sec) \<Rightarrow> found symbol sec False False))"

section \<open>Stubs and modes\<close>

text \<open>The section of the stub a call from MIPS16 code takes.\<close>

definition call_stub_section :: "input_object \<Rightarrow> link_sym \<Rightarrow> asection option" where
  "call_stub_section io h =
     (if call_stub h \<noteq> None \<and> call_fp_stub h \<noteq> None
      then (if list_ex CALL_FP_STUB_P (in_section_names io) then call_fp_stub h else call_stub h)
      else if call_stub h \<noteq> None then call_stub h
      else call_fp_stub h)"

definition redirect ::
  "link_info \<Rightarrow> input_object \<Rightarrow> asection \<Rightarrow> r_type \<Rightarrow> nat \<Rightarrow> bool \<Rightarrow> (nat \<Rightarrow> link_sym) \<Rightarrow> target \<Rightarrow> target option" where
  "redirect info io input_section r_type r_symndx local_p sy t =
     (let h = map_option sy (t_h t)
      in if r_type \<noteq> R_MIPS16_26 \<and> \<not> relocatable info
            \<and> ((case h of None \<Rightarrow> False
                 | Some h \<Rightarrow> fn_stub h \<noteq> None \<and> (r_type \<noteq> R_MIPS16_CALL16 \<or> need_fn_stub h))
               \<or> (local_p \<and> local_stubs io r_symndx \<noteq> None))
            \<and> \<not> section_allows_mips16_refs_p input_section
         then
           (case (if local_p then map_option (\<lambda>s. (s, 0)) (local_stubs io r_symndx)
                  else case h of
                      None \<Rightarrow> None
                    | Some h \<Rightarrow> (case sym_la25_stub h of
                        Some l \<Rightarrow> Some (stub_section l, stub_offset l)
                      | None \<Rightarrow> map_option (\<lambda>s. (s, 0)) (fn_stub h))) of
              None \<Rightarrow> None
            | Some (sec, off) \<Rightarrow>
                Some (t\<lparr>t_sec := Some sec, t_symbol := section_address sec + off, t_is16 := False\<rparr>))
         else if r_type = R_MIPS16_26 \<and> \<not> relocatable info
            \<and> ((case h of None \<Rightarrow> False | Some h \<Rightarrow> call_stub h \<noteq> None \<or> call_fp_stub h \<noteq> None)
               \<or> (local_p \<and> local_call_stubs io r_symndx \<noteq> None))
            \<and> \<not> t_is16 t
         then
           (case (if local_p then local_call_stubs io r_symndx
                  else case h of None \<Rightarrow> None | Some h \<Rightarrow> call_stub_section io h) of
              None \<Rightarrow> None
            | Some sec \<Rightarrow> Some (t\<lparr>t_sec := Some sec, t_symbol := section_address sec\<rparr>))
         else
           (case h of
              None \<Rightarrow> Some t
            | Some h \<Rightarrow>
                (case sym_la25_stub h of
                   None \<Rightarrow> Some t
                 | Some l \<Rightarrow>
                     Some (if mips_elf_relocation_needs_la25_stub (in_bfd io) r_type (t_is16 t)
                           then t\<lparr>t_symbol := section_address (stub_section l) + stub_offset l\<rparr> else t))))"

definition cross_mode_jump :: "link_info \<Rightarrow> r_type \<Rightarrow> link_sym option \<Rightarrow> bool \<Rightarrow> bool \<Rightarrow> bool" where
  "cross_mode_jump info r_type h is16 micromips =
     (\<not> relocatable info
      \<and> \<not> (case h of None \<Rightarrow> False | Some h \<Rightarrow> root_type h = bfd_link_hash_undefweak)
      \<and> ((r_type = R_MIPS16_26 \<and> \<not> is16)
         \<or> (r_type = R_MICROMIPS_26_S1 \<and> \<not> micromips)
         \<or> ((r_type = R_MIPS_26 \<or> r_type = R_MIPS_JALR) \<and> (is16 \<or> micromips))))"

section \<open>Dynamic relocations\<close>

text \<open>
  The symbol index, and whether the symbol counts as defined; \<^verbatim>\<open>None\<close> is an abort,
  \<^verbatim>\<open>Some None\<close> the error for a section without owner.
\<close>

definition section_symbol_index :: "link_env \<Rightarrow> asection option \<Rightarrow> int option option" where
  "section_symbol_index env sec =
     (case sec of
        None \<Rightarrow> Some None
      | Some s \<Rightarrow>
          if is_abs_section env s then Some (Some 0)
          else if \<not> has_owner env s then Some None
          else case output_section s of
              None \<Rightarrow> None
            | Some os \<Rightarrow>
                let indx = out_dynindx env os;
                    indx = (if indx = 0 then text_index_dynindx env else indx)
                in if indx = 0 then None else Some (Some indx))"

definition dynamic_symbol_index ::
  "link_env \<Rightarrow> link_info \<Rightarrow> bfd \<Rightarrow> link_sym option \<Rightarrow> asection option \<Rightarrow> (int \<times> bool) option option" where
  "dynamic_symbol_index env info output_bfd h sec =
     (if (case h of None \<Rightarrow> False | Some h \<Rightarrow> \<not> symbol_references_local info h)
      then Some (Some (dynindx (the h), SGI_COMPAT output_bfd \<and> def_regular (the h)))
      else case section_symbol_index env sec of
          None \<Rightarrow> None
        | Some None \<Rightarrow> Some None
        | Some (Some indx) \<Rightarrow> Some (Some (if \<not> SGI_COMPAT output_bfd then 0 else indx, True)))"

definition crinfo_for :: "r_type \<Rightarrow> vma \<Rightarrow> vma \<Rightarrow> Elf32_crinfo" where
  "crinfo_for r_type vaddr konst =
     \<lparr>cr_ctype = 1, cr_rtype = (if r_type = R_MIPS_REL32 then 0xa else 0xb), cr_dist2to = 0, cr_relvaddr = 0,
      cr_konst = konst, cr_vaddr = vaddr\<rparr>"

text \<open>
  The result is the success of the call, the adjusted addend and the state.  In the 64-bit ABI
  the entry written has \<^verbatim>\<open>R_MIPS_64\<close> as a second type, which the record does not show.
\<close>

definition mips_elf_create_dynamic_relocation ::
  "link_env \<Rightarrow> link_info \<Rightarrow> bfd \<Rightarrow> elf_rela \<Rightarrow> link_sym option \<Rightarrow> asection option \<Rightarrow> vma \<Rightarrow> vma \<Rightarrow> asection
   \<Rightarrow> calc_state \<Rightarrow> (bool \<times> vma \<times> calc_state) option" where
  "mips_elf_create_dynamic_relocation env info output_bfd rel h sec symbol addend input_section st =
     (let r_type = ELF_R_TYPE output_bfd (r_info rel);
          off = elf_section_offset env input_section (r_offset rel)
      in if off = MINUS_ONE then Some (True, addend, st)
         else if off = MINUS_TWO then Some (True, addend + symbol, st)
         else case dynamic_symbol_index env info output_bfd h sec of
             None \<Rightarrow> None
           | Some None \<Rightarrow> Some (False, addend, st)
           | Some (Some (indx, defined_p)) \<Rightarrow>
               let addend = (if defined_p \<and> r_type \<noteq> R_MIPS_REL32 then addend + symbol else addend);
                   vaddr = section_address input_section + off;
                   info_word = (if is_vxworks info
                      then push_bit 8 (word_of_int indx) + of_nat R_MIPS_32
                      else ELF_R_INFO output_bfd (unat (word_of_int indx :: vma)) R_MIPS_REL32);
                   out = \<lparr>r_offset = vaddr, r_info = info_word,
                          r_addend = (if is_vxworks info \<and> \<not> ABI_64_P output_bfd then addend else 0)\<rparr>;
                   st = st\<lparr>gs := (gs st)\<lparr>rel_dyn := rel_dyn (gs st) @ [out]\<rparr>,
                           written_outs := insert (osec_id (the (output_section input_section))) (written_outs st)\<rparr>;
                   st = (if irix_compat output_bfd = ict_irix5
                         then st\<lparr>compact_rel := map_option (\<lambda>cs. cs @ [crinfo_for r_type
                                (r_offset rel + section_address input_section) addend]) (compact_rel st)\<rparr>
                         else st);
                   st = (if MIPS_ELF_READONLY_SECTION input_section then st\<lparr>df_textrel := True\<rparr> else st)
               in Some (True, addend, st))"

section \<open>The GOT offset\<close>

definition needs_got_index :: "r_type \<Rightarrow> bool" where
  "needs_got_index r_type \<longleftrightarrow> r_type \<in>
     {R_MIPS16_CALL16, R_MIPS16_GOT16, R_MIPS_CALL16, R_MIPS_GOT16, R_MIPS_GOT_DISP, R_MIPS_GOT_HI16,
      R_MIPS_CALL_HI16, R_MIPS_GOT_LO16, R_MIPS_CALL_LO16, R_MICROMIPS_CALL16, R_MICROMIPS_GOT16,
      R_MICROMIPS_GOT_DISP, R_MICROMIPS_GOT_HI16, R_MICROMIPS_CALL_HI16, R_MICROMIPS_GOT_LO16,
      R_MICROMIPS_CALL_LO16, R_MIPS_TLS_GD, R_MIPS_TLS_GOTTPREL, R_MIPS_TLS_LDM, R_MIPS16_TLS_GD,
      R_MIPS16_TLS_GOTTPREL, R_MIPS16_TLS_LDM, R_MICROMIPS_TLS_GD, R_MICROMIPS_TLS_GOTTPREL, R_MICROMIPS_TLS_LDM}"

text \<open>The index into the GOT; \<^verbatim>\<open>Inr None\<close> when the calculation does not use it.\<close>

definition got_index_of ::
  "link_env \<Rightarrow> bfd \<Rightarrow> input_object \<Rightarrow> link_info \<Rightarrow> r_type \<Rightarrow> nat \<Rightarrow> nat option \<Rightarrow> bool \<Rightarrow> vma \<Rightarrow> vma \<Rightarrow> got_state
   \<Rightarrow> ((bfd_reloc_status + vma option) \<times> got_state) option" where
  "got_index_of env abfd io info r_type r_symndx h local_p symbol addend st =
     (if tls_ldm_reloc_p r_type then
        (case mips_elf_local_got_index abfd (in_bfd io) info 0 0 None r_type st of
           None \<Rightarrow> None
         | Some (g, st) \<Rightarrow> Some (if g = MINUS_ONE then Inl bfd_reloc_outofrange else Inr (Some g), st))
      else if \<not> local_p then
        (case h of
           None \<Rightarrow> None
         | Some h \<Rightarrow>
             if is_vxworks info \<and> (call_hi16_reloc_p r_type \<or> call_lo16_reloc_p r_type \<or> call16_reloc_p r_type)
             then Some (Inr (Some (mips_elf_gotplt_index info (syms st h))), st)
             else case mips_elf_global_got_index (dynobj env) (Some (in_bfd io)) h r_type info st of
                 None \<Rightarrow> None
               | Some (g, st) \<Rightarrow>
                   Some (Inr (Some g),
                         if sym_tls_type (syms st h) = GOT_NORMAL \<and> \<not> dynamic_sections_created info
                         then put_slot (dynobj env) symbol g st else st))
      else if \<not> is_vxworks info \<and> (call16_reloc_p r_type \<or> got16_reloc_p r_type) then Some (Inr None, st)
      else
        (case mips_elf_local_got_index abfd (in_bfd io) info (symbol + addend) r_symndx h r_type st of
           None \<Rightarrow> None
         | Some (g, st) \<Rightarrow> Some (if g = MINUS_ONE then Inl bfd_reloc_outofrange else Inr (Some g), st)))"

definition got_phase ::
  "link_env \<Rightarrow> bfd \<Rightarrow> input_object \<Rightarrow> link_info \<Rightarrow> r_type \<Rightarrow> nat \<Rightarrow> nat option \<Rightarrow> bool \<Rightarrow> vma \<Rightarrow> vma \<Rightarrow> got_state
   \<Rightarrow> ((bfd_reloc_status + vma) \<times> got_state) option" where
  "got_phase env abfd io info r_type r_symndx h local_p symbol addend st =
     (if \<not> needs_got_index r_type then Some (Inr MINUS_ONE, st)
      else case got_index_of env abfd io info r_type r_symndx h local_p symbol addend st of
          None \<Rightarrow> None
        | Some (Inl e, st) \<Rightarrow> Some (Inl e, st)
        | Some (Inr None, st) \<Rightarrow> Some (Inr MINUS_ONE, st)
        | Some (Inr (Some g), st) \<Rightarrow> Some (Inr (mips_elf_got_offset_from_index info abfd (in_bfd io) g st), st))"

section \<open>The calculation\<close>

text \<open>What the calculation reads.\<close>

record calc_ctx =
  c_type :: r_type
  c_howto :: reloc_howto
  c_addend :: vma
  c_symbol :: vma
  c_p :: vma
  c_gp :: vma
  c_gp0 :: vma
  c_g :: vma
  c_local_p :: bool
  c_was_local_p :: bool
  c_gp_disp :: bool
  c_cross :: bool
  c_undefweak :: bool
  c_save_addend :: bool

type_synonym calc_result = "bfd_reloc_status \<times> vma"

definition checked :: "vma \<Rightarrow> bool \<Rightarrow> calc_result" where
  "checked val overflowed_p = (if overflowed_p then bfd_reloc_overflow else bfd_reloc_ok, val)"

definition masked :: "calc_ctx \<Rightarrow> vma \<Rightarrow> calc_result" where
  "masked c val = checked (val AND dst_mask (c_howto c)) False"

definition calc_jump :: "calc_ctx \<Rightarrow> calc_result" where
  "calc_jump c =
     (if c_cross c \<and> c_symbol c AND 3 \<noteq> (if c_type c = R_MIPS_26 then 1 else 0) then (bfd_reloc_outofrange, 0)
      else
        let shift = (if \<not> c_cross c \<and> c_type c = R_MICROMIPS_26_S1 then 1 else 2);
            val = (if c_was_local_p c
                   then c_addend c OR ((c_p c + 4) AND push_bit shift 0xfc000000 AND 0xffffffff)
                   else bfd_mips_elf_sign_extend (c_addend c) (26 + shift));
            val = drop_bit shift (val + c_symbol c);
            overflowed_p = (\<not> c_was_local_p c \<and> \<not> c_undefweak c
              \<and> drop_bit 26 val \<noteq> drop_bit (26 + shift) (c_p c + 4))
        in checked (val AND dst_mask (c_howto c)) overflowed_p)"

definition calc_hi16 :: "calc_ctx \<Rightarrow> calc_result" where
  "calc_hi16 c =
     (if \<not> c_gp_disp c then masked c (mips_elf_high (c_addend c + c_symbol c))
      else
        let val = (if c_type c = R_MIPS16_HI16
                   then mips_elf_high (c_addend c + c_gp c - ((c_p c + 4) AND NOT 3))
                   else if c_type c = R_MICROMIPS_HI16 then mips_elf_high (c_addend c + c_gp c - c_p c - 1)
                   else mips_elf_high (c_addend c + c_gp c - c_p c))
        in checked val (mips_elf_overflow_p val 16))"

definition calc_lo16 :: "calc_ctx \<Rightarrow> calc_result" where
  "calc_lo16 c =
     (if \<not> c_gp_disp c then masked c (c_symbol c + c_addend c)
      else checked
        (if c_type c = R_MIPS16_LO16 then c_addend c + c_gp c - (c_p c AND NOT 3)
         else if c_type c = R_MICROMIPS_LO16 \<or> c_type c = R_MICROMIPS_HI0_LO16 then c_addend c + c_gp c - c_p c + 3
         else c_addend c + c_gp c - c_p c + 4) False)"

definition calc_gprel16 :: "calc_ctx \<Rightarrow> calc_result" where
  "calc_gprel16 c =
     (let addend = (if partial_inplace (c_howto c) then bfd_mips_elf_sign_extend (c_addend c) 16 else c_addend c);
          val = c_symbol c + addend - c_gp c;
          val = (if c_was_local_p c then val + c_gp0 c else val)
      in checked val (mips_elf_overflow_p val 16))"

text \<open>A branch with a field of \<^verbatim>\<open>bits\<close> bits before the shift, relative to \<^verbatim>\<open>base\<close>.\<close>

definition calc_branch :: "calc_ctx \<Rightarrow> nat \<Rightarrow> vma \<Rightarrow> calc_result" where
  "calc_branch c bits base =
     (let val = c_symbol c + bfd_mips_elf_sign_extend (c_addend c) bits - base
      in checked (drop_bit (rightshift (c_howto c)) val AND dst_mask (c_howto c)) (mips_elf_overflow_p val bits))"

definition DTPREL_HI :: "r_type set" where
  "DTPREL_HI = {R_MIPS_TLS_DTPREL_HI16, R_MIPS16_TLS_DTPREL_HI16, R_MICROMIPS_TLS_DTPREL_HI16}"

definition DTPREL_LO :: "r_type set" where
  "DTPREL_LO = {R_MIPS_TLS_DTPREL_LO16, R_MIPS_TLS_DTPREL32, R_MIPS_TLS_DTPREL64, R_MIPS16_TLS_DTPREL_LO16,
     R_MICROMIPS_TLS_DTPREL_LO16}"

definition TPREL_HI :: "r_type set" where
  "TPREL_HI = {R_MIPS_TLS_TPREL_HI16, R_MIPS16_TLS_TPREL_HI16, R_MICROMIPS_TLS_TPREL_HI16}"

definition TPREL_LO :: "r_type set" where
  "TPREL_LO = {R_MIPS_TLS_TPREL_LO16, R_MIPS_TLS_TPREL32, R_MIPS_TLS_TPREL64, R_MIPS16_TLS_TPREL_LO16,
     R_MICROMIPS_TLS_TPREL_LO16}"

lemmas tls_sets = DTPREL_HI_def DTPREL_LO_def TPREL_HI_def TPREL_LO_def

definition calc_tls :: "link_info \<Rightarrow> calc_ctx \<Rightarrow> calc_result" where
  "calc_tls info c =
     (if c_type c \<in> DTPREL_HI then masked c (mips_elf_high (c_addend c + c_symbol c - dtprel_base info))
      else if c_type c \<in> DTPREL_LO then masked c (c_symbol c + c_addend c - dtprel_base info)
      else if c_type c \<in> TPREL_HI then masked c (mips_elf_high (c_addend c + c_symbol c - tprel_base info))
      else masked c (c_symbol c + c_addend c - tprel_base info))"

text \<open>
  The calculations that need nothing but the context; \<^verbatim>\<open>None\<close> for the types that
  are calculated with the state.
\<close>

definition calc_pure :: "link_info \<Rightarrow> calc_ctx \<Rightarrow> calc_result option" where
  "calc_pure info c =
     (let r_type = c_type c; A = c_addend c; S = c_symbol c; P = c_p c
      in if r_type = R_MIPS_NONE then Some (bfd_reloc_continue, 0)
         else if r_type = R_MIPS_16
         then (let val = S + bfd_mips_elf_sign_extend A 16 in Some (checked val (mips_elf_overflow_p val 16)))
         else if r_type = R_MIPS_PC32 then Some (masked c (S + A - P))
         else if r_type \<in> {R_MIPS16_26, R_MIPS_26, R_MICROMIPS_26_S1} then Some (calc_jump c)
         else if r_type \<in> DTPREL_HI \<union> DTPREL_LO \<union> TPREL_HI \<union> TPREL_LO then Some (calc_tls info c)
         else if r_type \<in> {R_MIPS_HI16, R_MIPS16_HI16, R_MICROMIPS_HI16} then Some (calc_hi16 c)
         else if r_type \<in> {R_MIPS_LO16, R_MIPS16_LO16, R_MICROMIPS_LO16, R_MICROMIPS_HI0_LO16} then Some (calc_lo16 c)
         else if r_type \<in> {R_MIPS_LITERAL, R_MICROMIPS_LITERAL, R_MIPS16_GPREL, R_MIPS_GPREL16,
                           R_MICROMIPS_GPREL7_S2, R_MICROMIPS_GPREL16} then Some (calc_gprel16 c)
         else if r_type \<in> {R_MIPS_TLS_GD, R_MIPS_TLS_GOTTPREL, R_MIPS_TLS_LDM, R_MIPS_GOT_DISP, R_MIPS16_TLS_GD,
                           R_MIPS16_TLS_GOTTPREL, R_MIPS16_TLS_LDM, R_MICROMIPS_TLS_GD, R_MICROMIPS_TLS_GOTTPREL,
                           R_MICROMIPS_TLS_LDM, R_MICROMIPS_GOT_DISP}
         then Some (checked (c_g c) (mips_elf_overflow_p (c_g c) 16))
         else if r_type = R_MIPS_GPREL32
         then (let val = A + S + c_gp0 c - c_gp c
               in Some (if \<not> c_save_addend c then masked c val else checked val False))
         else if r_type \<in> {R_MIPS_PC16, R_MIPS_GNU_REL16_S2} then Some (calc_branch c 18 P)
         else if r_type = R_MICROMIPS_PC7_S1 then Some (calc_branch c 8 P)
         else if r_type = R_MICROMIPS_PC10_S1 then Some (calc_branch c 11 P)
         else if r_type = R_MICROMIPS_PC16_S1 then Some (calc_branch c 17 P)
         else if r_type = R_MICROMIPS_PC23_S2 then Some (calc_branch c 25 ((P OR 3) XOR 3))
         else if r_type \<in> {R_MIPS_GOT_HI16, R_MIPS_CALL_HI16, R_MICROMIPS_GOT_HI16, R_MICROMIPS_CALL_HI16}
         then Some (masked c (mips_elf_high (c_g c)))
         else if r_type \<in> {R_MIPS_GOT_LO16, R_MIPS_CALL_LO16, R_MICROMIPS_GOT_LO16, R_MICROMIPS_CALL_LO16}
         then Some (masked c (c_g c))
         else if r_type \<in> {R_MIPS_SUB, R_MICROMIPS_SUB} then Some (masked c (S - A))
         else if r_type \<in> {R_MIPS_HIGHER, R_MICROMIPS_HIGHER} then Some (masked c (mips_elf_higher (A + S)))
         else if r_type \<in> {R_MIPS_HIGHEST, R_MICROMIPS_HIGHEST} then Some (masked c (mips_elf_highest (A + S)))
         else if r_type \<in> {R_MIPS_PJUMP, R_MIPS_GNU_VTINHERIT, R_MIPS_GNU_VTENTRY} then Some (bfd_reloc_continue, 0)
         else None)"

text \<open>The absolute words, which may become dynamic relocations.\<close>

definition calc_word ::
  "link_env \<Rightarrow> bfd \<Rightarrow> link_info \<Rightarrow> elf_rela \<Rightarrow> asection \<Rightarrow> nat \<Rightarrow> link_sym option \<Rightarrow> asection option \<Rightarrow> calc_ctx
   \<Rightarrow> calc_state \<Rightarrow> (calc_result \<times> calc_state) option" where
  "calc_word env abfd info relocation input_section r_symndx h sec c st =
     (if (shared info
           \<or> (dynamic_sections_created info
              \<and> (case h of None \<Rightarrow> False | Some h \<Rightarrow> def_dynamic h \<and> \<not> def_regular h \<and> \<not> has_static_relocs h)))
         \<and> r_symndx \<noteq> 0
         \<and> (case h of None \<Rightarrow> True
              | Some h \<Rightarrow> root_type h \<noteq> bfd_link_hash_undefweak \<or> ELF_ST_VISIBILITY (st_other h) = STV_DEFAULT)
         \<and> SEC_ALLOC \<in> sec_flags input_section
      then (case mips_elf_create_dynamic_relocation env info abfd relocation h sec (c_symbol c) (c_addend c)
                   input_section st of
              None \<Rightarrow> None
            | Some (ok, val, st) \<Rightarrow> Some (if ok then masked c val else (bfd_reloc_undefined, 0), st))
      else Some (masked c (if c_type c \<noteq> R_MIPS_REL32 then c_symbol c + c_addend c else c_addend c), st))"

definition on_gs :: "calc_state \<Rightarrow> got_state \<Rightarrow> calc_state" where
  "on_gs st s = st\<lparr>gs := s\<rparr>"

definition calc_got16 :: "bfd \<Rightarrow> bfd \<Rightarrow> link_info \<Rightarrow> calc_ctx \<Rightarrow> calc_state \<Rightarrow> calc_result \<times> calc_state" where
  "calc_got16 abfd input_bfd info c st =
     (if \<not> is_vxworks info \<and> c_local_p c
      then (let (val, s) = mips_elf_got16_entry info abfd input_bfd (c_symbol c + c_addend c) (\<not> c_was_local_p c) (gs st)
            in if val = MINUS_ONE then ((bfd_reloc_outofrange, 0), on_gs st s)
               else let val = mips_elf_got_offset_from_index info abfd input_bfd val s
                    in (checked val (mips_elf_overflow_p val 16), on_gs st s))
      else (checked (c_g c) (mips_elf_overflow_p (c_g c) 16), st))"

definition calc_got_page :: "bfd \<Rightarrow> bfd \<Rightarrow> link_info \<Rightarrow> calc_ctx \<Rightarrow> calc_state \<Rightarrow> calc_result \<times> calc_state" where
  "calc_got_page abfd input_bfd info c st =
     (let (val, _, s) = mips_elf_got_page info abfd input_bfd (c_symbol c + c_addend c) (gs st)
      in if val = MINUS_ONE then ((bfd_reloc_outofrange, 0), on_gs st s)
         else let val = mips_elf_got_offset_from_index info abfd input_bfd val s
              in (checked val (mips_elf_overflow_p val 16), on_gs st s))"

text \<open>When there is no room for a page entry \<^verbatim>\<open>mips_elf_got_page\<close> leaves the offset unset.\<close>

definition calc_got_ofst :: "bfd \<Rightarrow> bfd \<Rightarrow> link_info \<Rightarrow> calc_ctx \<Rightarrow> calc_state \<Rightarrow> (calc_result \<times> calc_state) option" where
  "calc_got_ofst abfd input_bfd info c st =
     (if c_local_p c
      then (let (page, val, s) = mips_elf_got_page info abfd input_bfd (c_symbol c + c_addend c) (gs st)
            in if fst (mips_elf_create_local_got_entry info abfd input_bfd (got_page_of (c_symbol c + c_addend c)) 0 None
                         R_MIPS_GOT_PAGE (gs st)) = None
               then None else Some (checked val (mips_elf_overflow_p val 16), on_gs st s))
      else Some (checked (c_addend c) (mips_elf_overflow_p (c_addend c) 16), st))"

definition calc_value ::
  "link_env \<Rightarrow> bfd \<Rightarrow> bfd \<Rightarrow> link_info \<Rightarrow> elf_rela \<Rightarrow> asection \<Rightarrow> nat \<Rightarrow> link_sym option \<Rightarrow> asection option \<Rightarrow> calc_ctx
   \<Rightarrow> calc_state \<Rightarrow> (calc_result \<times> calc_state) option" where
  "calc_value env abfd input_bfd info relocation input_section r_symndx h sec c st =
     (let r_type = c_type c
      in if r_type \<in> {R_MIPS_32, R_MIPS_REL32, R_MIPS_64}
         then calc_word env abfd info relocation input_section r_symndx h sec c st
         else if r_type \<in> {R_MIPS16_GOT16, R_MIPS16_CALL16, R_MIPS_GOT16, R_MIPS_CALL16, R_MICROMIPS_GOT16, R_MICROMIPS_CALL16}
         then Some (calc_got16 abfd input_bfd info c st)
         else if r_type \<in> {R_MIPS_GOT_PAGE, R_MICROMIPS_GOT_PAGE} then Some (calc_got_page abfd input_bfd info c st)
         else if r_type \<in> {R_MIPS_GOT_OFST, R_MICROMIPS_GOT_OFST} then calc_got_ofst abfd input_bfd info c st
         else if r_type \<in> {R_MIPS_SCN_DISP, R_MICROMIPS_SCN_DISP}
         then map_option (\<lambda>s. (masked c (c_symbol c + c_addend c - output_offset s), st)) sec
         else if r_type \<in> {R_MIPS_JALR, R_MICROMIPS_JALR}
         then Some (if (case h of None \<Rightarrow> False | Some h \<Rightarrow> \<not> symbol_calls_local info h) then (bfd_reloc_continue, 0)
                    else checked (c_symbol c + c_addend c) False, st)
         else case calc_pure info c of
             Some res \<Rightarrow> Some (res, st)
           | None \<Rightarrow> Some ((bfd_reloc_notsupported, 0), st))"

section \<open>The whole calculation\<close>

text \<open>A relocation against \<^verbatim>\<open>__GOTT_BASE__\<close> or \<^verbatim>\<open>__GOTT_INDEX__\<close> is left to the VxWorks loader.\<close>

definition gott_relocation ::
  "asection \<Rightarrow> elf_rela \<Rightarrow> link_sym \<Rightarrow> r_type \<Rightarrow> vma \<Rightarrow> calc_state \<Rightarrow> calc_state" where
  "gott_relocation input_section relocation h r_type addend st =
     (let st = st\<lparr>gs := (gs st)\<lparr>rel_dyn := rel_dyn (gs st) @
                [\<lparr>r_offset = section_address input_section + r_offset relocation,
                  r_info = push_bit 8 (word_of_int (dynindx h)) + (of_nat r_type AND 0xff), r_addend = addend\<rparr>]\<rparr>\<rparr>
      in if MIPS_ELF_READONLY_SECTION input_section then st\<lparr>df_textrel := True\<rparr> else st)"

text \<open>The part after the target is known: the result, the mode of a jump and the state.\<close>

definition calc_target ::
  "link_env \<Rightarrow> bfd \<Rightarrow> input_object \<Rightarrow> asection \<Rightarrow> link_info \<Rightarrow> elf_rela \<Rightarrow> reloc_howto \<Rightarrow> bool \<Rightarrow> bool \<Rightarrow> target \<Rightarrow> calc_state
   \<Rightarrow> (bfd_reloc_status \<times> vma \<times> bool \<times> calc_state) option" where
  "calc_target env abfd io input_section info relocation howto save_addend was_local_p t st =
     (let input_bfd = in_bfd io;
          r_symndx = ELF_R_SYM input_bfd (r_info relocation);
          r_type = ELF_R_TYPE input_bfd (r_info relocation);
          h = map_option (syms (gs st)) (t_h t);
          cross = cross_mode_jump info r_type h (t_is16 t) (t_micromips t);
          local_p = (case h of None \<Rightarrow> True
             | Some h \<Rightarrow> if got_only_for_calls h then symbol_calls_local info h else symbol_references_local info h);
          gp = gp_value abfd + (if gots (gs st) \<noteq> [] then mips_elf_adjust_gp abfd (gs st) input_bfd else 0);
          symbol = (if t_gnu_local_gp t then gp else t_symbol t);
          page = (got_page_reloc_p r_type \<and> \<not> local_p);
          addend = (if page then 0 else t_addend t);
          r_type = (if page then (if micromips_reloc_p r_type then R_MICROMIPS_GOT_DISP else R_MIPS_GOT_DISP) else r_type)
      in case got_phase env abfd io info r_type r_symndx (t_h t) local_p symbol addend (gs st) of
           None \<Rightarrow> None
         | Some (Inl e, s) \<Rightarrow> Some (e, 0, cross, on_gs st s)
         | Some (Inr g, s) \<Rightarrow>
             if (case h of None \<Rightarrow> False | Some h \<Rightarrow> is_gott_symbol info h)
             then Some (bfd_reloc_ok, 0, cross, gott_relocation input_section relocation (the h) r_type addend (on_gs st s))
             else
               case calc_value env abfd input_bfd info relocation input_section r_symndx h (t_sec t)
                      \<lparr>c_type = r_type, c_howto = howto, c_addend = addend, c_symbol = symbol,
                       c_p = section_address input_section + r_offset relocation, c_gp = gp,
                       c_gp0 = gp_value input_bfd, c_g = g, c_local_p = local_p, c_was_local_p = was_local_p,
                       c_gp_disp = t_gp_disp t, c_cross = cross,
                       c_undefweak = (case h of None \<Rightarrow> False | Some h \<Rightarrow> root_type h = bfd_link_hash_undefweak),
                       c_save_addend = save_addend\<rparr> (on_gs st s) of
                 None \<Rightarrow> None
               | Some ((status, val), st) \<Rightarrow> Some (status, val, cross, st))"

definition mips_elf_calculate_relocation ::
  "link_env \<Rightarrow> bfd \<Rightarrow> input_object \<Rightarrow> asection \<Rightarrow> link_info \<Rightarrow> elf_rela \<Rightarrow> vma \<Rightarrow> reloc_howto \<Rightarrow> bool \<Rightarrow> calc_state
   \<Rightarrow> (bfd_reloc_status \<times> vma \<times> bool \<times> calc_state) option" where
  "mips_elf_calculate_relocation env abfd io input_section info relocation addend howto save_addend st =
     (let r_symndx = ELF_R_SYM (in_bfd io) (r_info relocation);
          r_type = ELF_R_TYPE (in_bfd io) (r_info relocation);
          local_p = mips_elf_local_relocation_p io relocation
      in case (if local_p then map_option Inr (resolve_local env io r_symndx addend)
               else resolve_global env info io (syms (gs st)) r_type r_symndx addend) of
           None \<Rightarrow> None
         | Some (Inl e) \<Rightarrow> Some (e, 0, False, st)
         | Some (Inr t) \<Rightarrow>
        (case redirect info io input_section r_type r_symndx local_p (syms (gs st)) t of
           None \<Rightarrow> None
         | Some t \<Rightarrow>
             if (r_type = R_MIPS16_26 \<and> t_micromips t) \<or> (micromips_branch_reloc_p r_type \<and> t_is16 t)
             then Some (bfd_reloc_notsupported, 0, False, st)
             else calc_target env abfd io input_section info relocation howto save_addend local_p t st))"

end
