(* ===== verification/CalcSpec.thy ===== *)
theory CalcSpec
  imports Calc
begin

text \<open>
  What the calculation of a relocation value means for the code that runs: the
  address a pair of immediate instructions builds, the target a jump or a branch
  reaches, and the bits that the OpenISA fields lose.
\<close>

section \<open>The howto entries\<close>

definition howto_of :: "r_type \<Rightarrow> reloc_howto" where
  "howto_of r_type = the (mips_elf32_rtype_to_howto r_type)"

lemma howto_fields:
  "dst_mask (howto_of R_MIPS16_HI16) = 0xffff" "dst_mask (howto_of R_MIPS16_LO16) = 0xffff"
  "dst_mask (howto_of R_MIPS16_26) = 0x3ffffff" "dst_mask (howto_of R_MICROMIPS_26_S1) = 0x3ffffff"
  "dst_mask (howto_of R_MIPS_26) = 0xfffff" "dst_mask (howto_of R_MIPS_LO16) = 0xfffc0"
  "dst_mask (howto_of R_MIPS_PC16) = 0x3fff000" "rightshift (howto_of R_MIPS_PC16) = 2"
  "dst_mask (howto_of R_MICROMIPS_LO16) = 0x3ffc000"
  "dst_mask (howto_of R_MICROMIPS_PC7_S1) = 0x7f" "rightshift (howto_of R_MICROMIPS_PC7_S1) = 1"
  "dst_mask (howto_of R_MICROMIPS_PC10_S1) = 0x3ff" "rightshift (howto_of R_MICROMIPS_PC10_S1) = 1"
  "dst_mask (howto_of R_MICROMIPS_PC16_S1) = 0xffff" "rightshift (howto_of R_MICROMIPS_PC16_S1) = 2"
  "dst_mask (howto_of R_MICROMIPS_PC23_S2) = 0x7fffff" "rightshift (howto_of R_MICROMIPS_PC23_S2) = 2"
  "dst_mask (howto_of R_MIPS_GNU_REL16_S2) = 0xffff" "rightshift (howto_of R_MIPS_GNU_REL16_S2) = 2"
  by (simp_all add: howto_of_def mips_elf32_rtype_to_howto_def table_eval single_howto_defs)

text \<open>What \<^verbatim>\<open>mips_elf_perform_relocation\<close> stores of a result.\<close>

definition stored_field :: "calc_ctx \<Rightarrow> calc_result \<Rightarrow> vma" where
  "stored_field c res = snd res AND dst_mask (c_howto c)"

text \<open>A global symbol at 0x41d346, referenced at 0x400010, for examples.\<close>

definition example_ctx :: "r_type \<Rightarrow> calc_ctx" where
  "example_ctx r_type =
     \<lparr>c_type = r_type, c_howto = howto_of r_type, c_addend = 0, c_symbol = 0x41d346, c_p = 0x400010, c_gp = 0x418010,
      c_gp0 = 0, c_g = 0, c_local_p = False, c_was_local_p = False, c_gp_disp = False, c_cross = False,
      c_undefweak = False, c_save_addend = False\<rparr>"

section \<open>Pairs of immediates\<close>

lemma sext16_and [simp]: "sext16 (v AND 0xffff) = sext16 v"
  by (simp add: sext16_def bit_masks signed_take_bit_take_bit)

lemma mips_elf_high_masked [simp]: "mips_elf_high v AND 0xffff = mips_elf_high v"
  by (simp add: mips_elf_high_def and.assoc)

text \<open>
  C29.  A MIPS16 pair \<^verbatim>\<open>%hi\<close>, \<^verbatim>\<open>%lo\<close> builds the address it is relocated
  against: the upper halfword shifted by 16 plus the sign-extended lower halfword is the
  symbol plus the addend; against \<^verbatim>\<open>_gp_disp\<close>, where the low part is added by an
  ADDIUPC four bytes after the LI, to the word-aligned address of that instruction, it is the
  value of GP (plus the addend).
\<close>

theorem mips16_pair_builds_address:
  assumes "c_type h = R_MIPS16_HI16" "c_howto h = howto_of R_MIPS16_HI16"
    and "c_type l = R_MIPS16_LO16" "c_howto l = howto_of R_MIPS16_LO16"
    and "c_symbol l = c_symbol h" "c_addend l = c_addend h" "c_gp l = c_gp h" "c_gp_disp l = c_gp_disp h"
    and "c_p l = c_p h + 4"
  shows "take_bit 32 (push_bit 16 (stored_field h (calc_hi16 h)) + sext16 (stored_field l (calc_lo16 l)))
    = take_bit 32 (if c_gp_disp h then c_addend h + c_gp h - (c_p l AND NOT 3) else c_symbol h + c_addend h)"
proof -
  let ?v = "if c_gp_disp h then c_addend h + c_gp h - (c_p l AND NOT 3) else c_symbol h + c_addend h"
  have "stored_field h (calc_hi16 h) = mips_elf_high ?v"
    using assms by (simp add: stored_field_def calc_hi16_def masked_def checked_def Let_def howto_fields
        and.assoc add.commute)
  moreover have "sext16 (stored_field l (calc_lo16 l)) = sext16 (?v AND 0xffff)"
    using assms by (simp add: stored_field_def calc_lo16_def masked_def checked_def Let_def howto_fields and.assoc)
  ultimately show ?thesis
    by (simp only: chain16_32)
qed

theorem mips16_pair_builds_address_witness:
  "take_bit 32 (push_bit 16 (stored_field (example_ctx R_MIPS16_HI16) (calc_hi16 (example_ctx R_MIPS16_HI16)))
     + sext16 (stored_field (example_ctx R_MIPS16_LO16) (calc_lo16 ((example_ctx R_MIPS16_LO16)\<lparr>c_p := 0x400014\<rparr>)))) = 0x41d346"
  using mips16_pair_builds_address [of "example_ctx R_MIPS16_HI16" "(example_ctx R_MIPS16_LO16)\<lparr>c_p := 0x400014\<rparr>"]
  by (simp add: example_ctx_def stored_field_def)

section \<open>Jumps\<close>

text \<open>The target of a jump at a place: its field replaces the low bits of the address of the delay slot.\<close>

definition jump_target :: "nat \<Rightarrow> vma \<Rightarrow> vma \<Rightarrow> vma" where
  "jump_target shift pc field =
     push_bit (26 + shift) (drop_bit (26 + shift) (pc + 4)) OR push_bit shift field"

lemma join_fields:
  fixes v :: vma
  shows "push_bit (26 + s) (drop_bit (26 + s) v) OR push_bit s (take_bit 26 (drop_bit s v)) = push_bit s (drop_bit s v)"
proof (rule bit_word_eqI)
  fix n
  show "bit (push_bit (26 + s) (drop_bit (26 + s) v) OR push_bit s (take_bit 26 (drop_bit s v))) n
      = bit (push_bit s (drop_bit s v)) n"
    by (cases "26 + s \<le> n"; cases "s \<le> n") (auto simp: bit_simps)
qed

definition jump_shift :: "calc_ctx \<Rightarrow> nat" where
  "jump_shift c = (if \<not> c_cross c \<and> c_type c = R_MICROMIPS_26_S1 then 1 else 2)"

definition jump_address :: "calc_ctx \<Rightarrow> vma" where
  "jump_address c = bfd_mips_elf_sign_extend (c_addend c) (26 + jump_shift c) + c_symbol c"

lemma calc_jump_global:
  assumes "\<not> c_was_local_p c" "\<not> c_undefweak c"
  shows "calc_jump c =
    (if c_cross c \<and> c_symbol c AND 3 \<noteq> (if c_type c = R_MIPS_26 then 1 else 0) then (bfd_reloc_outofrange, 0)
     else checked (drop_bit (jump_shift c) (jump_address c) AND dst_mask (c_howto c))
            (drop_bit (26 + jump_shift c) (jump_address c) \<noteq> drop_bit (26 + jump_shift c) (c_p c + 4)))"
  using assms by (simp add: calc_jump_def jump_shift_def jump_address_def Let_def)

text \<open>
  C19.  A jump that is not reported reaches its target: for a global symbol, when
  the calculation of an \<^verbatim>\<open>R_MIPS16_26\<close> or \<^verbatim>\<open>R_MICROMIPS_26_S1\<close> relocation
  succeeds, the instruction with the stored field jumps to the symbol plus the addend (without
  the bits below the unit of the field, which select the instruction set).
\<close>

theorem jump_reaches_target:
  assumes "c_type c = R_MIPS16_26 \<or> c_type c = R_MICROMIPS_26_S1" "c_howto c = howto_of (c_type c)"
    and "\<not> c_was_local_p c" "\<not> c_undefweak c" "fst (calc_jump c) = bfd_reloc_ok"
  shows "jump_target (jump_shift c) (c_p c) (stored_field c (calc_jump c))
    = push_bit (jump_shift c) (drop_bit (jump_shift c) (jump_address c))"
proof -
  have mask: "dst_mask (c_howto c) = 0x3ffffff"
    using assms(1,2) howto_fields(3,4) by auto
  have region: "drop_bit (26 + jump_shift c) (c_p c + 4) = drop_bit (26 + jump_shift c) (jump_address c)"
    and result: "calc_jump c = (bfd_reloc_ok, take_bit 26 (drop_bit (jump_shift c) (jump_address c)))"
    using assms(5) unfolding calc_jump_global [OF assms(3,4)]
    by (auto simp: checked_def mask bit_masks split: if_splits)
  show ?thesis
    unfolding jump_target_def region result stored_field_def mask
    by (simp add: bit_masks join_fields)
qed

theorem jump_reaches_target_witness:
  "jump_target 1 0x400010 (stored_field (example_ctx R_MICROMIPS_26_S1) (calc_jump (example_ctx R_MICROMIPS_26_S1))) = 0x41d346"
  using jump_reaches_target [of "example_ctx R_MICROMIPS_26_S1"]
  by (simp add: example_ctx_def calc_jump_def jump_shift_def jump_address_def bfd_mips_elf_sign_extend_def checked_def)

text \<open>
  The 26-bit jump of the OpenISA target keeps 20 bits: for a global symbol the
  stored field of \<^verbatim>\<open>R_MIPS_26\<close> has bits 2 to 21 of the target, while the calculation
  succeeds as soon as the target lies in the 256 MB region of the jump: targets 4 MB apart in that
  region give the same instruction and no report.
\<close>

theorem jal_field_is_20_bits:
  assumes "c_type c = R_MIPS_26" "c_howto c = howto_of R_MIPS_26"
    and "\<not> c_was_local_p c" "\<not> c_undefweak c" "\<not> c_cross c"
  shows "calc_jump c =
    (if drop_bit 28 (jump_address c) = drop_bit 28 (c_p c + 4) then bfd_reloc_ok else bfd_reloc_overflow,
     take_bit 20 (drop_bit 2 (jump_address c)))"
proof -
  have "drop_bit 2 v AND 0xfffff = take_bit 20 (drop_bit 2 v)" for v :: vma
    by (rule and_low_mask) (simp add: mask_eq_exp_minus_1)
  then show ?thesis
    using assms unfolding calc_jump_global [OF assms(3,4)]
    by (simp add: checked_def howto_fields jump_shift_def)
qed

theorem jal_field_is_20_bits_witness:
  "calc_jump (example_ctx R_MIPS_26) = calc_jump ((example_ctx R_MIPS_26)\<lparr>c_symbol := 0x81d346\<rparr>)
   \<and> fst (calc_jump (example_ctx R_MIPS_26)) = bfd_reloc_ok"
  using jal_field_is_20_bits [of "example_ctx R_MIPS_26"]
    jal_field_is_20_bits [of "(example_ctx R_MIPS_26)\<lparr>c_symbol := 0x81d346\<rparr>"]
  by (simp add: example_ctx_def jump_shift_def jump_address_def bfd_mips_elf_sign_extend_def)

section \<open>Branches\<close>

lemma no_overflow_bits:
  fixes off :: vma
  assumes "\<not> mips_elf_overflow_p off bits" "0 < bits" "bits < 64" "bits \<le> n + 1" "n < 64"
  shows "bit off n \<longleftrightarrow> bit off (bits - 1)"
proof -
  have "signed_take_bit (bits - 1) (sint off) = sint off"
    using assms(1) by (simp add: overflow_p_iff signed_take_bit_id_iff not_less)
  then have "signed_take_bit (bits - 1) off = off"
    using assms(2,3) by (simp flip: sint_eq_iff add: sint_signed_take_bit)
  then have "bit off n = bit (signed_take_bit (bits - 1) off) n"
    by simp
  then show ?thesis
    using assms(2,4,5) by (simp add: bit_signed_take_bit_iff min_def split: if_splits)
qed

lemma branch_field:
  fixes off :: vma
  assumes "\<not> mips_elf_overflow_p off bits" "0 < bits" "bits \<le> w + s" "0 < w" "w + s < 64"
  shows "push_bit s (signed_take_bit (w - 1) (take_bit w (drop_bit s off))) = push_bit s (drop_bit s off)"
proof (rule bit_word_eqI)
  fix n assume n: "n < LENGTH(64)"
  have top: "bit off m \<longleftrightarrow> bit off (bits - 1)" if "w + s \<le> m + 1" "m < 64" for m
    using no_overflow_bits [OF assms(1,2), of m] that assms(3,5) by simp
  show "bit (push_bit s (signed_take_bit (w - 1) (take_bit w (drop_bit s off)))) n = bit (push_bit s (drop_bit s off)) n"
  proof (cases "s \<le> n \<and> w - 1 \<le> n - s")
    case True
    have "bit off n \<longleftrightarrow> bit off (bits - 1)"
      by (rule top) (use True n in auto)
    moreover have "bit off (s + (w - 1)) \<longleftrightarrow> bit off (bits - 1)"
      by (rule top) (use assms(4,5) in auto)
    ultimately have "bit off (s + (w - 1)) \<longleftrightarrow> bit off n"
      by (simp only:)
    moreover have "n - s < 64"
      using n by simp
    ultimately show ?thesis
      using True n assms(4,5) by (simp add: bit_push_bit_iff bit_signed_take_bit_iff bit_take_bit_iff bit_drop_bit_eq min_def)
  next
    case False
    then show ?thesis
      using n assms(4) by (auto simp: bit_push_bit_iff bit_signed_take_bit_iff bit_take_bit_iff bit_drop_bit_eq min_def)
  qed
qed

lemma shifted_mask:
  fixes v :: vma
  shows "v AND push_bit k (mask w) = push_bit k (take_bit w (drop_bit k v))"
  by (rule bit_word_eqI) (auto simp: bit_simps bit_mask_iff)

text \<open>
  The relocation types of branches, with the number of bits of the byte offset that the architecture gives them, the width
  of the field and the address the offset counts from.
\<close>

definition branch_formats :: "(r_type \<times> nat \<times> nat) set" where
  "branch_formats = {(R_MICROMIPS_PC7_S1, 8, 7), (R_MICROMIPS_PC10_S1, 11, 10), (R_MICROMIPS_PC16_S1, 17, 16),
     (R_MICROMIPS_PC23_S2, 25, 23), (R_MIPS_GNU_REL16_S2, 18, 16), (R_MIPS_PC16, 18, 14)}"

definition branch_base :: "calc_ctx \<Rightarrow> vma" where
  "branch_base c = (if c_type c = R_MICROMIPS_PC23_S2 then c_p c AND NOT 3 else c_p c)"

lemma branch_masks:
  assumes "(r_type, bits, w) \<in> branch_formats" "r_type \<noteq> R_MIPS_PC16"
  shows "dst_mask (howto_of r_type) = mask w" "bits \<le> w + rightshift (howto_of r_type)"
    and "w + rightshift (howto_of r_type) < 64" "0 < w"
  using assms howto_fields by (auto simp: branch_formats_def mask_eq_exp_minus_1)

lemma align_4: "(p OR 3) XOR 3 = p AND NOT (3 :: vma)"
  by (rule bit_word_eqI) (auto simp: bit_simps)

lemma calc_pure_branch:
  assumes "(c_type c, bits, w) \<in> branch_formats"
  shows "calc_pure info c = Some (calc_branch c bits (branch_base c))"
  using assms by (auto simp: branch_formats_def branch_base_def calc_pure_def Let_def align_4 tls_sets)

lemma overflow_range:
  assumes "0 < bits" "bits < 64"
  shows "mips_elf_overflow_p v bits \<longleftrightarrow> \<not> (- (2 ^ (bits - 1)) \<le> sint v \<and> sint v < 2 ^ (bits - 1))"
  using assms by (auto simp: overflow_p_iff)

lemma scaled_field:
  fixes off :: vma
  shows "push_bit s (drop_bit s off) = off - take_bit s off"
  using bits_ident [of s off] by (simp add: eq_diff_eq)

text \<open>
  C18.  A branch relocation is reported exactly when the byte offset from its base (the place, aligned to a word for
  \<^verbatim>\<open>R_MICROMIPS_PC23_S2\<close>) to the symbol plus the addend does not fit the signed width of its type.  When it is not reported, the branch
  reaches that address without the bits of the offset below the unit in which the howto entry counts: the base plus the sign-extended stored
  field times the unit.  The one exception is \<^verbatim>\<open>R_MIPS_PC16\<close>: its field lies at bit 12 in the OpenISA encoding but gets bits 14 to
  27 of the offset, since the calculation masks the value without moving it there, so these branches miss their target.
\<close>

theorem branch_reaches_target:
  assumes "(c_type c, bits, w) \<in> branch_formats" "c_howto c = howto_of (c_type c)"
  defines "goal \<equiv> c_symbol c + bfd_mips_elf_sign_extend (c_addend c) bits"
  defines "off \<equiv> goal - branch_base c" and "s \<equiv> rightshift (c_howto c)"
  shows "\<exists>res. calc_pure info c = Some res
    \<and> fst res = (if - (2 ^ (bits - 1)) \<le> sint off \<and> sint off < 2 ^ (bits - 1) then bfd_reloc_ok else bfd_reloc_overflow)
    \<and> (if c_type c = R_MIPS_PC16 then stored_field c res = push_bit 12 (take_bit 14 (drop_bit 14 off))
       else fst res = bfd_reloc_ok
         \<longrightarrow> branch_base c + push_bit s (signed_take_bit (w - 1) (stored_field c res)) = goal - take_bit s off)"
proof (intro exI conjI)
  have bits: "0 < bits" "bits < 64"
    using assms(1) by (auto simp: branch_formats_def)
  have res: "calc_branch c bits (branch_base c)
      = checked (drop_bit s off AND dst_mask (c_howto c)) (mips_elf_overflow_p off bits)"
    by (simp add: calc_branch_def Let_def off_def goal_def s_def)
  show "calc_pure info c = Some (calc_branch c bits (branch_base c))"
    by (rule calc_pure_branch [OF assms(1)])
  show "fst (calc_branch c bits (branch_base c))
      = (if - (2 ^ (bits - 1)) \<le> sint off \<and> sint off < 2 ^ (bits - 1) then bfd_reloc_ok else bfd_reloc_overflow)"
    unfolding res overflow_range [OF bits] by (simp add: checked_def)
  have stored: "stored_field c (calc_branch c bits (branch_base c)) = drop_bit s off AND dst_mask (c_howto c)"
    unfolding res by (simp add: stored_field_def checked_def and.assoc)
  show "if c_type c = R_MIPS_PC16
     then stored_field c (calc_branch c bits (branch_base c)) = push_bit 12 (take_bit 14 (drop_bit 14 off))
     else fst (calc_branch c bits (branch_base c)) = bfd_reloc_ok
       \<longrightarrow> branch_base c + push_bit s (signed_take_bit (w - 1) (stored_field c (calc_branch c bits (branch_base c))))
         = goal - take_bit s off"
  proof (cases "c_type c = R_MIPS_PC16")
    case True
    have mask: "0x3fff000 = push_bit 12 (mask 14 :: vma)"
      by (simp add: mask_eq_exp_minus_1)
    have "drop_bit 2 off AND 0x3fff000 = push_bit 12 (take_bit 14 (drop_bit 14 off))"
      unfolding mask shifted_mask by simp
    then show ?thesis
      using True assms(2) unfolding stored by (simp add: s_def howto_fields)
  next
    case False
    note m = branch_masks [OF assms(1) False, folded assms(2), folded s_def]
    have "push_bit s (signed_take_bit (w - 1) (stored_field c (calc_branch c bits (branch_base c)))) = off - take_bit s off"
      if "\<not> mips_elf_overflow_p off bits"
      unfolding stored m(1) using branch_field [OF that bits(1) m(2,4,3)] by (simp add: take_bit_eq_mask scaled_field)
    then show ?thesis
      using False unfolding res by (auto simp: checked_def off_def)
  qed
qed

theorem branch_reaches_target_witness:
  "\<exists>res. calc_pure example_info (example_ctx R_MICROMIPS_PC7_S1 \<lparr>c_p := 0x41d300\<rparr>) = Some res
     \<and> 0x41d300 + push_bit 1 (signed_take_bit 6 (stored_field (example_ctx R_MICROMIPS_PC7_S1) res)) = (0x41d346 :: vma)"
proof -
  have "(c_type (example_ctx R_MICROMIPS_PC7_S1 \<lparr>c_p := 0x41d300\<rparr>), 8, 7) \<in> branch_formats"
    by (simp add: branch_formats_def example_ctx_def)
  from branch_reaches_target [OF this, of example_info] show ?thesis
    by (auto simp: example_ctx_def branch_base_def howto_fields stored_field_def bfd_mips_elf_sign_extend_def)
qed

section \<open>Shifted fields\<close>

text \<open>
  The calculation does not move a value to the position of its field: of the
  fields that the OpenISA tables place at bit 6 (\<^verbatim>\<open>R_MIPS_LO16\<close>), 12 (\<^verbatim>\<open>R_MIPS_PC16\<close>) and
  14 (\<^verbatim>\<open>R_MICROMIPS_LO16\<close>), the first receives bits 6 to 19 of the address instead of the
  low 14 bits, the second bits 14 to 27 of the branch offset instead of bits 2 to 15, and the
  third bits 14 to 25 of the address instead of the low 12 bits.
\<close>

theorem shifted_fields_lose_low_bits:
  "(c_howto c = howto_of R_MIPS_LO16 \<and> \<not> c_gp_disp c \<longrightarrow>
      calc_lo16 c = (bfd_reloc_ok, push_bit 6 (take_bit 14 (drop_bit 6 (c_symbol c + c_addend c)))))
   \<and> (c_howto c = howto_of R_MIPS_PC16 \<longrightarrow>
      snd (calc_branch c 18 (c_p c))
        = push_bit 12 (take_bit 14 (drop_bit 14 (c_symbol c + bfd_mips_elf_sign_extend (c_addend c) 18 - c_p c))))
   \<and> (c_howto c = howto_of R_MICROMIPS_LO16 \<and> \<not> c_gp_disp c \<longrightarrow>
      calc_lo16 c = (bfd_reloc_ok, push_bit 14 (take_bit 12 (drop_bit 14 (c_symbol c + c_addend c)))))"
proof -
  have masks: "(0xfffc0::vma) = push_bit 6 (mask 14)" "(0x3fff000::vma) = push_bit 12 (mask 14)"
    "(0x3ffc000::vma) = push_bit 14 (mask 12)"
    by (simp_all add: mask_eq_exp_minus_1)
  show ?thesis
    by (simp add: calc_lo16_def calc_branch_def masked_def checked_def Let_def howto_fields masks shifted_mask
        del: push_bit_numeral)
qed

theorem shifted_fields_lose_low_bits_witness:
  "calc_lo16 (example_ctx R_MIPS_LO16) = calc_lo16 ((example_ctx R_MIPS_LO16)\<lparr>c_symbol := 0x41d37f\<rparr>)
   \<and> snd (calc_branch ((example_ctx R_MIPS_PC16)\<lparr>c_p := 0x41d300\<rparr>) 18 0x41d300) = 0"
  using shifted_fields_lose_low_bits [of "example_ctx R_MIPS_LO16"]
    shifted_fields_lose_low_bits [of "(example_ctx R_MIPS_LO16)\<lparr>c_symbol := 0x41d37f\<rparr>"]
    shifted_fields_lose_low_bits [of "(example_ctx R_MIPS_PC16)\<lparr>c_p := 0x41d300\<rparr>"]
  by (simp add: example_ctx_def bfd_mips_elf_sign_extend_def)

end
