(* ===== verification/Relocate.thy ===== *)
theory Relocate
  imports Calc Perform
begin

text \<open>
  Relocating a section (\<^verbatim>\<open>_bfd_mips_elf_relocate_section\<close> of elfxx-mips.c): the loop over
  the relocations of an input section, which finds the addend, calculates the value and
  stores it in the contents.

  The record \<^verbatim>\<open>section_env\<close> holds what other files compute: the predicates on
  GP-relative types (declared in elfxx-mips.h), which sections are discarded and how their
  relocations are cleared (elf-bfd.h), the adjustment for merged sections (elflink.c), the
  number of REL entries of a section header and the overflow callback of the linker.
  The warnings themselves are not modelled.  As before \<^verbatim>\<open>None\<close> is an abort or an access
  through a null pointer; the returns of \<^verbatim>\<open>FALSE\<close> are the values of \<^verbatim>\<open>relocate_failure\<close>.
\<close>

section \<open>State\<close>

record section_env =
  gprel16_reloc_p :: "r_type \<Rightarrow> bool"
  literal_reloc_p :: "r_type \<Rightarrow> bool"
  discarded_section :: "asection \<Rightarrow> bool"
  against_discarded :: "link_info \<Rightarrow> asection \<Rightarrow> reloc_howto \<Rightarrow> nat \<Rightarrow> elf_rela list \<Rightarrow> bytes \<Rightarrow> elf_rela list \<times> bytes"
  rela_local_sym :: "local_sym \<Rightarrow> asection \<Rightarrow> elf_rela \<Rightarrow> elf_rela"
  rel_hdr_entries :: "asection \<Rightarrow> nat option"
  int_rels_per_ext_rel :: nat
  reloc_overflow_callback :: "elf_rela \<Rightarrow> reloc_howto \<Rightarrow> bool"

datatype relocate_failure =
  unsupported_relocation | overflow_rejected | jalx_not_aligned | perform_failed bfd_error

record reloc_run =
  rr_contents :: bytes
  rr_addend :: vma
  use_saved_addend_p :: bool
  small_data_overflow_reported :: bool
  rr_calc :: calc_state

section \<open>Addends\<close>

definition mips_elf_rel_relocation_p :: "section_env \<Rightarrow> asection \<Rightarrow> nat \<Rightarrow> bool" where
  "mips_elf_rel_relocation_p senv sec index =
     (case rel_hdr_entries senv sec of
        None \<Rightarrow> False
      | Some n \<Rightarrow> index < n * int_rels_per_ext_rel senv)"

definition mips_elf_adjust_addend ::
  "section_env \<Rightarrow> bfd \<Rightarrow> link_info \<Rightarrow> input_object \<Rightarrow> elf_rela \<Rightarrow> elf_rela option" where
  "mips_elf_adjust_addend senv output_bfd info io rel =
     (if mips_elf_local_relocation_p io rel then
        let r_type = ELF_R_TYPE output_bfd (r_info rel);
            rel = (if gprel16_reloc_p senv r_type \<or> r_type = R_MIPS_GPREL32 \<or> literal_reloc_p senv r_type
                   then rel\<lparr>r_addend := r_addend rel + gp_value (in_bfd io) - gp_value output_bfd\<rparr> else rel);
            r_symndx = ELF_R_SYM output_bfd (r_info rel);
            sy = local_syms io r_symndx
        in case local_sections io r_symndx of
             None \<Rightarrow> if relocatable info \<and> \<not> ls_is_section sy then Some rel else None
           | Some sec \<Rightarrow>
               let rel = (if \<not> relocatable info then rela_local_sym senv sy sec rel else rel)
               in Some (if ls_is_section sy then rel\<lparr>r_addend := r_addend rel + output_offset sec\<rparr> else rel)
      else Some rel)"

text \<open>The addend of a relocation, from the field for the REL variety; the field is unshuffled and shuffled in place.\<close>

definition initial_addend ::
  "section_env \<Rightarrow> input_object \<Rightarrow> asection \<Rightarrow> nat \<Rightarrow> r_type \<Rightarrow> reloc_howto \<Rightarrow> elf_rela \<Rightarrow> bytes \<Rightarrow> (vma \<times> bytes) option" where
  "initial_addend senv io input_section index r_type howto rel contents =
     (if mips_elf_rel_relocation_p senv input_section index
      then map_option (\<lambda>(addend, contents).
             (if hi16_reloc_p r_type \<or> (got16_reloc_p r_type \<and> mips_elf_local_relocation_p io rel) then addend
              else push_bit (rightshift howto) addend, contents))
             (mips_elf_read_rel_addend (in_bfd io) rel howto contents)
      else Some (r_addend rel, contents))"

section \<open>One relocation\<close>

text \<open>The section of the symbol, to see whether it was discarded.\<close>

definition relocation_section :: "input_object \<Rightarrow> (nat \<Rightarrow> link_sym) \<Rightarrow> elf_rela \<Rightarrow> asection option option" where
  "relocation_section io sy rel =
     (let r_symndx = ELF_R_SYM (in_bfd io) (r_info rel)
      in if mips_elf_local_relocation_p io rel then Some (local_sections io r_symndx)
         else case follow_links sy (sym_hashes io (r_symndx - (if bad_symtab io then 0 else sh_info io))) of
             None \<Rightarrow> None
           | Some h \<Rightarrow> Some (if sym_defined (sy h) then def_section (sy h) else None))"

text \<open>In the 32-bit ABI a 64-bit word is a 32-bit word, sign extended when it is stored.\<close>

definition put_sign_extended :: "bfd \<Rightarrow> vma \<Rightarrow> bytes \<Rightarrow> nat \<Rightarrow> bytes" where
  "put_sign_extended input_bfd val contents off =
     (let sign_bits = (if val AND push_bit 31 1 \<noteq> 0 then push_bit 32 1 - 1 else 0);
          (low_bits, high_bits) = (if bfd_big_endian input_bfd then (sign_bits, val) else (val, sign_bits))
      in bfd_put_32 (bfd_xvec input_bfd) high_bits
           (bfd_put_32 (bfd_xvec input_bfd) low_bits contents off) (off + 4))"

definition is_64_in_32 :: "bfd \<Rightarrow> r_type \<Rightarrow> bool" where
  "is_64_in_32 abfd r_type \<longleftrightarrow> r_type = R_MIPS_64 \<and> \<not> NEWABI_P abfd"

definition perform_step ::
  "link_info \<Rightarrow> input_object \<Rightarrow> asection \<Rightarrow> reloc_howto \<Rightarrow> elf_rela \<Rightarrow> vma \<Rightarrow> bool \<Rightarrow> reloc_run
   \<Rightarrow> (relocate_failure + elf_rela \<times> reloc_run) option" where
  "perform_step info io input_section howto rel val cross st =
     (case mips_elf_perform_relocation (relocatable info) howto rel val (in_bfd io) input_section (rr_contents st) cross of
        None \<Rightarrow> None
      | Some (Inl e) \<Rightarrow> Some (Inl (perform_failed e))
      | Some (Inr contents) \<Rightarrow> Some (Inr (rel, st\<lparr>rr_contents := contents\<rparr>)))"

definition relocatable_addend :: "r_type \<Rightarrow> reloc_howto \<Rightarrow> vma \<Rightarrow> vma" where
  "relocatable_addend r_type howto addend =
     (if hi16_reloc_p r_type \<or> got16_reloc_p r_type then mips_elf_high addend
      else if r_type = R_MIPS_HIGHER then mips_elf_higher addend
      else if r_type = R_MIPS_HIGHEST then mips_elf_highest addend
      else drop_bit (rightshift howto) addend) AND src_mask howto"

definition relocatable_step ::
  "bfd \<Rightarrow> link_info \<Rightarrow> input_object \<Rightarrow> asection \<Rightarrow> r_type \<Rightarrow> reloc_howto \<Rightarrow> bool \<Rightarrow> elf_rela \<Rightarrow> reloc_run
   \<Rightarrow> (relocate_failure + elf_rela \<times> reloc_run) option" where
  "relocatable_step output_bfd info io input_section r_type howto rela_relocation_p rel st =
     (let rel = (if is_64_in_32 output_bfd r_type \<and> bfd_big_endian (in_bfd io)
                 then rel\<lparr>r_offset := r_offset rel - 4\<rparr> else rel)
      in if rela_relocation_p \<or> r_addend rel = 0 then Some (Inr (rel, st))
         else
           let addend = relocatable_addend r_type howto (rr_addend st + r_addend rel);
               st = st\<lparr>rr_addend := addend\<rparr>
           in if is_64_in_32 output_bfd r_type
              then Some (Inr (rel, st\<lparr>rr_contents := put_sign_extended (in_bfd io) addend (rr_contents st) (unat (r_offset rel))\<rparr>))
              else perform_step info io input_section howto rel addend False st)"

text \<open>What happens to a calculated value.\<close>

definition store_value ::
  "bfd \<Rightarrow> link_info \<Rightarrow> input_object \<Rightarrow> asection \<Rightarrow> r_type \<Rightarrow> reloc_howto \<Rightarrow> elf_rela \<Rightarrow> vma \<Rightarrow> bool \<Rightarrow> reloc_run
   \<Rightarrow> (relocate_failure + elf_rela \<times> reloc_run) option" where
  "store_value output_bfd info io input_section r_type howto rel val cross st =
     (if use_saved_addend_p st then Some (Inr (rel, st\<lparr>rr_addend := val\<rparr>))
      else if is_64_in_32 output_bfd r_type
      then (let rel = (if bfd_big_endian (in_bfd io) then rel\<lparr>r_offset := r_offset rel - 4\<rparr> else rel)
            in Some (Inr (rel, st\<lparr>rr_contents := put_sign_extended (in_bfd io) val (rr_contents st) (unat (r_offset rel))\<rparr>)))
      else perform_step info io input_section howto rel val cross st)"

definition more_at_place :: "bfd \<Rightarrow> elf_rela \<Rightarrow> elf_rela list \<Rightarrow> bool" where
  "more_at_place input_bfd rel rest =
     (case rest of
        [] \<Rightarrow> False
      | next # _ \<Rightarrow> r_offset rel = r_offset next \<and> ELF_R_TYPE input_bfd (r_info next) \<noteq> R_MIPS_NONE)"

definition final_step ::
  "section_env \<Rightarrow> link_env \<Rightarrow> bfd \<Rightarrow> link_info \<Rightarrow> input_object \<Rightarrow> asection \<Rightarrow> r_type \<Rightarrow> reloc_howto \<Rightarrow> elf_rela
   \<Rightarrow> elf_rela list \<Rightarrow> reloc_run \<Rightarrow> (relocate_failure + elf_rela \<times> reloc_run) option" where
  "final_step senv env output_bfd info io input_section r_type howto rel rest st =
     (let saved = more_at_place (in_bfd io) rel rest;
          st = st\<lparr>use_saved_addend_p := saved\<rparr>
      in case mips_elf_calculate_relocation env output_bfd io input_section info rel (rr_addend st) howto saved (rr_calc st) of
           None \<Rightarrow> None
         | Some (status, val, cross, cs) \<Rightarrow>
             let st = st\<lparr>rr_calc := cs\<rparr>;
                 store = store_value output_bfd info io input_section r_type howto rel val cross
             in (case status of
                   bfd_reloc_continue \<Rightarrow> Some (Inr (rel, st))
                 | bfd_reloc_undefined \<Rightarrow> Some (Inr (rel, st))
                 | bfd_reloc_notsupported \<Rightarrow> Some (Inl unsupported_relocation)
                 | bfd_reloc_overflow \<Rightarrow>
                     if saved then store st
                     else
                       let st = (if gprel16_reloc_p senv (h_type howto) \<or> literal_reloc_p senv (h_type howto)
                                 then st\<lparr>small_data_overflow_reported := True\<rparr> else st)
                       in if \<not> reloc_overflow_callback senv rel howto then Some (Inl overflow_rejected) else store st
                 | bfd_reloc_ok \<Rightarrow> store st
                 | bfd_reloc_outofrange \<Rightarrow>
                     if jal_reloc_p (h_type howto) then Some (Inl jalx_not_aligned) else None
                 | bfd_reloc_dangerous \<Rightarrow> None))"

definition relocate_step ::
  "section_env \<Rightarrow> link_env \<Rightarrow> bfd \<Rightarrow> link_info \<Rightarrow> input_object \<Rightarrow> asection \<Rightarrow> nat \<Rightarrow> elf_rela \<Rightarrow> elf_rela list
   \<Rightarrow> reloc_run \<Rightarrow> (relocate_failure + elf_rela \<times> reloc_run) option" where
  "relocate_step senv env output_bfd info io input_section index rel rest st =
     (let r_type = ELF_R_TYPE output_bfd (r_info rel);
          lied = is_64_in_32 (in_bfd io) r_type
      in case mips_elf32_rtype_to_howto (if lied then R_MIPS_32 else r_type) of
           None \<Rightarrow> None
         | Some howto \<Rightarrow>
             let rel = (if lied \<and> bfd_big_endian (in_bfd io) then rel\<lparr>r_offset := r_offset rel + 4\<rparr> else rel);
                 rela_relocation_p = (use_saved_addend_p st \<or> \<not> mips_elf_rel_relocation_p senv input_section index)
             in case (if use_saved_addend_p st then Some (rel, st)
                      else case initial_addend senv io input_section index r_type howto rel (rr_contents st) of
                             None \<Rightarrow> None
                           | Some (addend, contents) \<Rightarrow>
                               map_option (\<lambda>rel. (rel, st\<lparr>rr_addend := addend, rr_contents := contents\<rparr>))
                                 (mips_elf_adjust_addend senv output_bfd info io rel)) of
                  None \<Rightarrow> None
                | Some (rel, st) \<Rightarrow>
                    if relocatable info
                    then relocatable_step output_bfd info io input_section r_type howto rela_relocation_p rel st
                    else final_step senv env output_bfd info io input_section r_type howto rel rest st)"

section \<open>The loop\<close>

text \<open>
  Relocations against a discarded section are cleared, a whole group at a time; the howto
  is that of the last relocation of the group that is not \<^verbatim>\<open>R_MIPS_NONE\<close>.
\<close>

definition group_howto :: "bfd \<Rightarrow> elf_rela list \<Rightarrow> nat" where
  "group_howto output_bfd grp =
     (case filter (\<lambda>i. ELF_R_TYPE output_bfd (r_info (grp ! i)) \<noteq> R_MIPS_NONE) (rev [1..<length grp]) of
        [] \<Rightarrow> 0
      | i # _ \<Rightarrow> i)"

definition mips_reloc_against_discarded_section ::
  "section_env \<Rightarrow> bfd \<Rightarrow> link_info \<Rightarrow> asection \<Rightarrow> elf_rela list \<Rightarrow> bytes \<Rightarrow> (elf_rela list \<times> bytes) option" where
  "mips_reloc_against_discarded_section senv output_bfd info input_section grp contents =
     (let i = group_howto output_bfd grp
      in case mips_elf32_rtype_to_howto (ELF_R_TYPE output_bfd (r_info (grp ! i))) of
           None \<Rightarrow> None
         | Some howto \<Rightarrow> Some (against_discarded senv info input_section howto i grp contents))"

function relocate_loop ::
  "section_env \<Rightarrow> link_env \<Rightarrow> bfd \<Rightarrow> link_info \<Rightarrow> input_object \<Rightarrow> asection \<Rightarrow> nat \<Rightarrow> elf_rela list \<Rightarrow> reloc_run
   \<Rightarrow> (relocate_failure + elf_rela list \<times> reloc_run) option" where
  "relocate_loop senv env output_bfd info io input_section index [] st = Some (Inr ([], st))"
| "relocate_loop senv env output_bfd info io input_section index (rel # rest) st =
     (case relocation_section io (syms (gs (rr_calc st))) rel of
        None \<Rightarrow> None
      | Some sec \<Rightarrow>
          if (case sec of None \<Rightarrow> False | Some s \<Rightarrow> discarded_section senv s)
          then let more = int_rels_per_ext_rel senv - 1
               in case mips_reloc_against_discarded_section senv output_bfd info input_section
                         (rel # take more rest) (rr_contents st) of
                    None \<Rightarrow> None
                  | Some (grp, contents) \<Rightarrow>
                      map_option (map_sum id (\<lambda>(rels, st). (grp @ rels, st)))
                        (relocate_loop senv env output_bfd info io input_section (index + 1 + more) (drop more rest)
                           (st\<lparr>rr_contents := contents\<rparr>))
          else case relocate_step senv env output_bfd info io input_section index rel rest st of
                 None \<Rightarrow> None
               | Some (Inl e) \<Rightarrow> Some (Inl e)
               | Some (Inr (rel, st)) \<Rightarrow>
                   map_option (map_sum id (\<lambda>(rels, st). (rel # rels, st)))
                     (relocate_loop senv env output_bfd info io input_section (index + 1) rest st))"
  by pat_completeness auto

termination
  by (relation "measure (\<lambda>(_, _, _, _, _, _, _, rels, _). length rels)") auto

text \<open>The contents and relocations the section ends with, and the state of the link.\<close>

definition bfd_mips_elf_relocate_section ::
  "section_env \<Rightarrow> link_env \<Rightarrow> bfd \<Rightarrow> link_info \<Rightarrow> input_object \<Rightarrow> asection \<Rightarrow> bytes \<Rightarrow> elf_rela list \<Rightarrow> bool
   \<Rightarrow> calc_state \<Rightarrow> (relocate_failure + elf_rela list \<times> reloc_run) option" where
  "bfd_mips_elf_relocate_section senv env output_bfd info io input_section contents relocs reported cs =
     relocate_loop senv env output_bfd info io input_section 0 relocs
       \<lparr>rr_contents = contents, rr_addend = 0, use_saved_addend_p = False, small_data_overflow_reported = reported,
        rr_calc = cs\<rparr>"

end
