(* ===== verification/RelocateSpec.thy ===== *)
theory RelocateSpec
  imports Relocate CalcSpec
begin

text \<open>
  What relocating a section does to its contents: nothing outside the fields of the
  relocations changes, and a relocated word holds the address of its symbol plus the addend.
\<close>

section \<open>The fields of the relocations\<close>

definition reloc_field :: "bfd \<Rightarrow> elf_rela \<Rightarrow> nat set" where
  "reloc_field abfd rel =
     (case mips_elf32_rtype_to_howto (ELF_R_TYPE abfd (r_info rel)) of
        None \<Rightarrow> {}
      | Some howto \<Rightarrow> {unat (r_offset rel) ..< unat (r_offset rel) + bfd_get_reloc_size howto})"

definition fields_inside :: "bfd \<Rightarrow> elf_rela list \<Rightarrow> bytes \<Rightarrow> bool" where
  "fields_inside abfd rels contents \<longleftrightarrow> (\<forall>rel \<in> set rels. reloc_field abfd rel \<subseteq> {..<length contents})"

definition same_outside :: "nat set \<Rightarrow> bytes \<Rightarrow> bytes \<Rightarrow> bool" where
  "same_outside F contents contents' \<longleftrightarrow>
     length contents' = length contents \<and> (\<forall>k < length contents. k \<notin> F \<longrightarrow> contents' ! k = contents ! k)"

text \<open>Clearing the relocations of a discarded section clears one field of the group.\<close>

definition clears_one_field :: "section_env \<Rightarrow> bool" where
  "clears_one_field senv \<longleftrightarrow>
     (\<forall>info sec howto i grp contents. i < length grp \<longrightarrow>
        same_outside {unat (r_offset (grp ! i)) ..< unat (r_offset (grp ! i)) + bfd_get_reloc_size howto}
          contents (snd (against_discarded senv info sec howto i grp contents)))"

text \<open>The adjustment for merged sections changes only the addend.\<close>

definition moves_addend_only :: "section_env \<Rightarrow> bool" where
  "moves_addend_only senv \<longleftrightarrow>
     (\<forall>sy sec rel. r_offset (rela_local_sym senv sy sec rel) = r_offset rel \<and> r_info (rela_local_sym senv sy sec rel) = r_info rel)"

lemma same_outside_refl [simp]: "same_outside F c c"
  by (simp add: same_outside_def)

lemma same_outside_trans:
  "same_outside F c c' \<Longrightarrow> same_outside G c' c'' \<Longrightarrow> F \<union> G \<subseteq> H \<Longrightarrow> same_outside H c c''"
  by (auto simp: same_outside_def) (metis subsetD)

lemma same_outside_mono: "same_outside F c c' \<Longrightarrow> F \<subseteq> H \<Longrightarrow> same_outside H c c'"
  by (auto simp: same_outside_def)

lemma fields_inside_length: "length c' = length c \<Longrightarrow> fields_inside abfd rels c' = fields_inside abfd rels c"
  by (simp add: fields_inside_def)

lemma ELF_R_TYPE_any: "ELF_R_TYPE a i = ELF_R_TYPE b i"
  by (simp add: ELF_R_TYPE_def)

lemma reloc_field_any: "reloc_field a rel = reloc_field b rel"
  by (simp add: reloc_field_def ELF_R_TYPE_any [of a _ b])

lemma reloc_field_offset:
  assumes "reloc_field abfd rel \<subseteq> {..<n}" "mips_elf32_rtype_to_howto (ELF_R_TYPE abfd (r_info rel)) = Some howto"
  shows "unat (r_offset rel) + bfd_get_reloc_size howto \<le> n"
proof -
  have "0 < bfd_get_reloc_size howto"
    using reloc_size_cases(1) [OF assms(2)] by auto
  then have "unat (r_offset rel) + bfd_get_reloc_size howto - 1 \<in> reloc_field abfd rel"
    using assms(2) by (simp add: reloc_field_def)
  then show ?thesis
    using assms(1) by auto
qed

section \<open>One relocation\<close>

lemma read_rel_addend_contents:
  assumes "mips_elf_read_rel_addend b rel howto c = Some (a, c')" "xvec_ok (bfd_xvec b)"
    and "mips16_reloc_p (ELF_R_TYPE b (r_info rel)) \<longrightarrow> unat (r_offset rel) + 4 \<le> length c"
  shows "c' = c"
  using assms(1) shuffle_of_unshuffled [OF assms(2,3)]
  by (auto simp: mips_elf_read_rel_addend_def Let_def split: option.splits)

lemma initial_addend_contents:
  assumes "initial_addend senv io sec index r_type howto rel c = Some (a, c')" "xvec_ok (bfd_xvec (in_bfd io))"
    and "mips16_reloc_p (ELF_R_TYPE (in_bfd io) (r_info rel)) \<longrightarrow> unat (r_offset rel) + 4 \<le> length c"
  shows "c' = c"
  using assms by (auto simp: initial_addend_def split: if_splits intro: read_rel_addend_contents)

lemma put_sign_extended_outside:
  assumes "xvec_ok (bfd_xvec b)" "off + 8 \<le> length c"
  shows "same_outside {off ..< off + 8} c (put_sign_extended b v c off)"
  using assms by (auto simp: same_outside_def put_sign_extended_def Let_def bytes_simps)

lemma perform_step_outside:
  assumes "perform_step info io sec howto rel v cross st = Some (Inr (rel', st'))" "xvec_ok (bfd_xvec (in_bfd io))"
    and "mips_elf32_rtype_to_howto (ELF_R_TYPE (in_bfd io) (r_info rel)) = Some howto"
    and "reloc_field (in_bfd io) rel \<subseteq> {..<length (rr_contents st)}"
  shows "same_outside (reloc_field (in_bfd io) rel) (rr_contents st) (rr_contents st') \<and> rr_calc st' = rr_calc st"
  using assms(1) perform_inside [OF assms(2,3) reloc_field_offset [OF assms(4,3)]]
  by (auto simp: perform_step_def same_outside_def reloc_field_def assms(3) split: option.splits sum.splits)

text \<open>
  The bytes a relocation may write: eight at its (undisplaced) offset for a 64-bit word of the
  32-bit ABI, otherwise its field.
\<close>

definition may_write :: "bfd \<Rightarrow> bfd \<Rightarrow> r_type \<Rightarrow> reloc_howto \<Rightarrow> elf_rela \<Rightarrow> nat set \<Rightarrow> bytes \<Rightarrow> bool" where
  "may_write output_bfd input_bfd r_type howto rel F contents \<longleftrightarrow>
     (if is_64_in_32 output_bfd r_type
      then (let off = unat (if bfd_big_endian input_bfd then r_offset rel - 4 else r_offset rel)
            in off + 8 \<le> length contents \<and> F = {off ..< off + 8})
      else mips_elf32_rtype_to_howto (ELF_R_TYPE input_bfd (r_info rel)) = Some howto
           \<and> reloc_field input_bfd rel \<subseteq> {..<length contents} \<and> F = reloc_field input_bfd rel)"

lemma relocatable_step_outside:
  assumes "relocatable_step output_bfd info io sec r_type howto rela rel st = Some (Inr (rel', st'))"
    and "xvec_ok (bfd_xvec (in_bfd io))" "may_write output_bfd (in_bfd io) r_type howto rel F (rr_contents st)"
  shows "same_outside F (rr_contents st) (rr_contents st')"
proof (cases "is_64_in_32 output_bfd r_type")
  case True
  then show ?thesis
    using assms put_sign_extended_outside [OF assms(2)]
    by (auto simp: relocatable_step_def may_write_def Let_def split: if_splits)
next
  case False
  then show ?thesis
    using assms perform_step_outside [OF _ assms(2)]
    by (auto simp: relocatable_step_def may_write_def Let_def split: if_splits) fastforce
qed

lemma store_value_outside:
  assumes "store_value output_bfd info io sec r_type howto rel v cross st = Some (Inr (rel', st'))"
    and "xvec_ok (bfd_xvec (in_bfd io))" "may_write output_bfd (in_bfd io) r_type howto rel F (rr_contents st)"
  shows "same_outside F (rr_contents st) (rr_contents st')"
proof (cases "is_64_in_32 output_bfd r_type")
  case True
  then show ?thesis
    using assms put_sign_extended_outside [OF assms(2)]
    by (auto simp: store_value_def may_write_def Let_def split: if_splits)
next
  case False
  then show ?thesis
    using assms perform_step_outside [OF _ assms(2)]
    by (auto simp: store_value_def may_write_def split: if_splits)
qed

lemma final_step_outside:
  assumes "final_step senv env output_bfd info io sec r_type howto rel rest st = Some (Inr (rel', st'))"
    and "xvec_ok (bfd_xvec (in_bfd io))" "may_write output_bfd (in_bfd io) r_type howto rel F (rr_contents st)"
  shows "same_outside F (rr_contents st) (rr_contents st')"
proof -
  have H: "same_outside F (rr_contents st) (rr_contents st')"
    if "store_value output_bfd info io sec r_type howto rel v cross st0 = Some (Inr (rel', st'))"
      "rr_contents st0 = rr_contents st" for st0 v cross
    using store_value_outside [OF that(1) assms(2)] that(2) assms(3) by simp
  obtain status v cross cs where "mips_elf_calculate_relocation env output_bfd io sec info rel (rr_addend st) howto
      (more_at_place (in_bfd io) rel rest) (rr_calc st) = Some (status, v, cross, cs)"
    using assms(1) by (auto simp: final_step_def Let_def split: option.splits)
  then show ?thesis
    using assms(1) by (cases status) (auto simp: final_step_def Let_def split: if_splits intro: H)
qed

lemma adjust_addend_place:
  assumes "mips_elf_adjust_addend senv output_bfd info io rel = Some rel'" "moves_addend_only senv"
  shows "r_offset rel' = r_offset rel \<and> r_info rel' = r_info rel"
  using assms by (auto simp: mips_elf_adjust_addend_def moves_addend_only_def Let_def split: if_splits option.splits)

lemma size_64 [simp]:
  "mips_elf32_rtype_to_howto R_MIPS_64 = Some h \<Longrightarrow> bfd_get_reloc_size h = 8"
  by (auto simp: mips_elf32_rtype_to_howto_def table_eval bfd_get_reloc_size_def)

lemma rtype_to_howto_64: "mips_elf32_rtype_to_howto R_MIPS_64 \<noteq> None"
  by (simp add: mips_elf32_rtype_to_howto_def table_eval)

lemma reloc_field_place: "r_offset rel' = r_offset rel \<Longrightarrow> r_info rel' = r_info rel \<Longrightarrow> reloc_field b rel' = reloc_field b rel"
  by (simp add: reloc_field_def split: option.split)

lemma may_write_step:
  assumes "r_type = ELF_R_TYPE output_bfd (r_info rel)" "NEWABI_P output_bfd = NEWABI_P (in_bfd io)"
    and "lied = is_64_in_32 (in_bfd io) r_type"
    and "mips_elf32_rtype_to_howto (if lied then R_MIPS_32 else r_type) = Some howto"
    and "reloc_field (in_bfd io) rel \<subseteq> {..<length c}"
    and "r_offset rel' = (if lied \<and> bfd_big_endian (in_bfd io) then r_offset rel + 4 else r_offset rel)"
    and "r_info rel' = r_info rel"
  shows "may_write output_bfd (in_bfd io) r_type howto rel' (reloc_field (in_bfd io) rel) c"
proof (cases "is_64_in_32 output_bfd r_type")
  case True
  then have lied: "lied" and r64: "ELF_R_TYPE (in_bfd io) (r_info rel) = R_MIPS_64"
    using assms(1-3) ELF_R_TYPE_any [of output_bfd _ "in_bfd io"] by (auto simp: is_64_in_32_def)
  obtain h where h: "mips_elf32_rtype_to_howto R_MIPS_64 = Some h"
    using rtype_to_howto_64 by auto
  have "unat (r_offset rel) + 8 \<le> length c"
    using reloc_field_offset [OF assms(5), of h] r64 h by simp
  then show ?thesis
    using True lied assms(6) r64 h by (simp add: may_write_def reloc_field_def Let_def)
next
  case False
  then have "\<not> lied"
    using assms(2,3) by (simp add: is_64_in_32_def)
  then show ?thesis
    using False assms ELF_R_TYPE_any [of output_bfd _ "in_bfd io"] reloc_field_place [of rel' rel]
    by (simp add: may_write_def)
qed

lemma relocate_step_outside:
  assumes step: "relocate_step senv env output_bfd info io sec index rel rest st = Some (Inr (rel', st'))"
    and ok: "xvec_ok (bfd_xvec (in_bfd io))" and abi: "NEWABI_P output_bfd = NEWABI_P (in_bfd io)"
    and senv: "moves_addend_only senv" and inside: "reloc_field (in_bfd io) rel \<subseteq> {..<length (rr_contents st)}"
  shows "same_outside (reloc_field (in_bfd io) rel) (rr_contents st) (rr_contents st')"
proof -
  define r_type where "r_type = ELF_R_TYPE output_bfd (r_info rel)"
  define lied where "lied = is_64_in_32 (in_bfd io) r_type"
  define rel1 where "rel1 = (if lied \<and> bfd_big_endian (in_bfd io) then rel\<lparr>r_offset := r_offset rel + 4\<rparr> else rel)"
  define rela where "rela = (use_saved_addend_p st \<or> \<not> mips_elf_rel_relocation_p senv sec index)"
  obtain howto where howto: "mips_elf32_rtype_to_howto (if lied then R_MIPS_32 else r_type) = Some howto"
    using step unfolding relocate_step_def Let_def r_type_def [symmetric] lied_def [symmetric]
    by (cases "mips_elf32_rtype_to_howto (if lied then R_MIPS_32 else r_type)") simp_all
  note step' = step [unfolded relocate_step_def Let_def, folded r_type_def, folded lied_def, folded rel1_def rela_def,
      unfolded howto option.case]
  have place1: "r_offset rel1 = (if lied \<and> bfd_big_endian (in_bfd io) then r_offset rel + 4 else r_offset rel)"
    "r_info rel1 = r_info rel"
    by (simp_all add: rel1_def)
  obtain rel2 st2 where second: "rr_contents st2 = rr_contents st" "r_offset rel2 = r_offset rel1" "r_info rel2 = r_info rel1"
    and final: "(if relocatable info then relocatable_step output_bfd info io sec r_type howto rela rel2 st2
                 else final_step senv env output_bfd info io sec r_type howto rel2 rest st2) = Some (Inr (rel', st'))"
  proof (cases "use_saved_addend_p st")
    case True
    then show thesis
      using step' that [of st rel1] by simp
  next
    case False
    then obtain addend c rel2 where "initial_addend senv io sec index r_type howto rel1 (rr_contents st) = Some (addend, c)"
      "mips_elf_adjust_addend senv output_bfd info io rel1 = Some rel2"
      and rest: "(if relocatable info then relocatable_step output_bfd info io sec r_type howto rela rel2
                     (st\<lparr>rr_addend := addend, rr_contents := c\<rparr>)
                 else final_step senv env output_bfd info io sec r_type howto rel2 rest
                     (st\<lparr>rr_addend := addend, rr_contents := c\<rparr>)) = Some (Inr (rel', st'))"
      using step' by (auto split: option.splits)
    moreover have "mips16_reloc_p (ELF_R_TYPE (in_bfd io) (r_info rel1)) \<longrightarrow> unat (r_offset rel1) + 4 \<le> length (rr_contents st)"
    proof
      assume "mips16_reloc_p (ELF_R_TYPE (in_bfd io) (r_info rel1))"
      then have m: "mips16_reloc_p r_type"
        by (simp add: place1 r_type_def ELF_R_TYPE_any [of output_bfd _ "in_bfd io"])
      then have "\<not> lied"
        by (auto simp: lied_def is_64_in_32_def mips16_reloc_p_def)
      then show "unat (r_offset rel1) + 4 \<le> length (rr_contents st)"
        using reloc_field_offset [OF inside, of howto] howto reloc_size_cases(2) [OF _ m]
        by (simp add: place1 r_type_def ELF_R_TYPE_any [of output_bfd _ "in_bfd io"])
    qed
    ultimately have "c = rr_contents st" "r_offset rel2 = r_offset rel1 \<and> r_info rel2 = r_info rel1"
      using initial_addend_contents [OF _ ok] adjust_addend_place [OF _ senv] by blast+
    then show thesis
      using rest by (intro that [of "st\<lparr>rr_addend := addend, rr_contents := c\<rparr>" rel2]) auto
  qed
  have "may_write output_bfd (in_bfd io) r_type howto rel2 (reloc_field (in_bfd io) rel) (rr_contents st2)"
    using may_write_step [OF r_type_def abi lied_def howto inside] second place1 by simp
  then show ?thesis
    using final relocatable_step_outside [OF _ ok, of output_bfd info sec r_type howto rela rel2 st2]
      final_step_outside [OF _ ok, of senv env output_bfd info sec r_type howto rel2 rest st2]
    unfolding second(1) by (cases "relocatable info") simp_all
qed

section \<open>The whole section\<close>

definition all_fields :: "bfd \<Rightarrow> elf_rela list \<Rightarrow> nat set" where
  "all_fields abfd rels = (\<Union>rel \<in> set rels. reloc_field abfd rel)"

lemma filter_head: "filter P xs = y # ys \<Longrightarrow> y \<in> set xs"
  by (metis filter_is_subset list.set_intros(1) subsetD)

lemma group_howto_less: "grp \<noteq> [] \<Longrightarrow> group_howto output_bfd grp < length grp"
  by (auto simp: group_howto_def split: list.split dest!: filter_head)

lemma against_discarded_outside:
  assumes "mips_reloc_against_discarded_section senv output_bfd info sec grp c = Some (grp', c')"
    and "clears_one_field senv" "grp \<noteq> []"
  shows "same_outside (all_fields abfd grp) c c'"
proof -
  let ?i = "group_howto output_bfd grp"
  obtain howto where h: "mips_elf32_rtype_to_howto (ELF_R_TYPE output_bfd (r_info (grp ! ?i))) = Some howto"
    and r: "against_discarded senv info sec howto ?i grp c = (grp', c')"
    using assms(1) by (auto simp: mips_reloc_against_discarded_section_def Let_def split: option.splits)
  have "reloc_field abfd (grp ! ?i) \<subseteq> all_fields abfd grp"
    unfolding all_fields_def using nth_mem [OF group_howto_less [OF assms(3), of output_bfd]] by blast
  moreover have "same_outside (reloc_field abfd (grp ! ?i)) c c'"
    using assms(2) h r group_howto_less [OF assms(3), of output_bfd]
    by (simp add: clears_one_field_def reloc_field_def ELF_R_TYPE_any [of abfd _ output_bfd]) (metis snd_conv)
  ultimately show ?thesis
    by (rule same_outside_mono [rotated])
qed

lemma map_sum_Inr: "map_sum id f z = Inr y \<longleftrightarrow> (\<exists>x. z = Inr x \<and> y = f x)"
  by (cases z) auto

lemma relocate_loop_outside:
  assumes "relocate_loop senv env output_bfd info io sec index rels st = Some (Inr (rels', st'))"
    and "xvec_ok (bfd_xvec (in_bfd io))" "NEWABI_P output_bfd = NEWABI_P (in_bfd io)"
    and "moves_addend_only senv" "clears_one_field senv" "fields_inside (in_bfd io) rels (rr_contents st)"
  shows "same_outside (all_fields (in_bfd io) rels) (rr_contents st) (rr_contents st')"
  using assms
proof (induction senv env output_bfd info io sec index rels st arbitrary: rels' st' rule: relocate_loop.induct)
  case (2 senv env output_bfd info io sec index rel rest st)
  let ?n = "int_rels_per_ext_rel senv - 1"
  obtain s where s: "relocation_section io (syms (gs (rr_calc st))) rel = Some s"
    using "2.prems"(1) by (auto split: option.splits)
  show ?case
  proof (cases "case s of None \<Rightarrow> False | Some s \<Rightarrow> discarded_section senv s")
    case True
    then obtain grp c rels2 where
      m: "mips_reloc_against_discarded_section senv output_bfd info sec (rel # take ?n rest) (rr_contents st) = Some (grp, c)"
      and r: "relocate_loop senv env output_bfd info io sec (index + 1 + ?n) (drop ?n rest) (st\<lparr>rr_contents := c\<rparr>)
        = Some (Inr (rels2, st'))"
      using "2.prems"(1) s by (auto simp: Let_def map_sum_Inr split: option.splits)
    have first: "same_outside (all_fields (in_bfd io) (rel # take ?n rest)) (rr_contents st) c"
      by (rule against_discarded_outside [OF m "2.prems"(5)]) simp
    then have "length c = length (rr_contents st)"
      by (simp add: same_outside_def)
    then have "fields_inside (in_bfd io) (drop ?n rest) c"
      using "2.prems"(6) set_drop_subset [of ?n rest] by (auto simp: fields_inside_def)
    then have "same_outside (all_fields (in_bfd io) (drop ?n rest)) c (rr_contents st')"
      using "2.IH"(1) [OF s True refl m refl r] "2.prems"(2-5) by simp
    then show ?thesis
      by (rule same_outside_trans [OF first])
        (use set_take_subset [of ?n rest] set_drop_subset [of ?n rest] in \<open>auto simp: all_fields_def\<close>)
  next
    case False
    then obtain rel2 st2 rels2 where
      m: "relocate_step senv env output_bfd info io sec index rel rest st = Some (Inr (rel2, st2))"
      and r: "relocate_loop senv env output_bfd info io sec (index + 1) rest st2 = Some (Inr (rels2, st'))"
      using "2.prems"(1) s by (auto simp: map_sum_Inr split: option.splits sum.splits)
    have first: "same_outside (reloc_field (in_bfd io) rel) (rr_contents st) (rr_contents st2)"
      by (rule relocate_step_outside [OF m "2.prems"(2,3,4)]) (use "2.prems"(6) in \<open>simp add: fields_inside_def\<close>)
    then have "fields_inside (in_bfd io) rest (rr_contents st2)"
      using "2.prems"(6) by (simp add: fields_inside_def same_outside_def)
    then have "same_outside (all_fields (in_bfd io) rest) (rr_contents st2) (rr_contents st')"
      using "2.IH"(2) [OF s False m refl refl r] "2.prems"(2-5) by simp
    then show ?thesis
      by (rule same_outside_trans [OF first]) (auto simp: all_fields_def)
  qed
qed simp


section \<open>Words\<close>

text \<open>The address of a local symbol, odd for code of the compressed instruction sets.\<close>

definition local_symbol_address :: "input_object \<Rightarrow> nat \<Rightarrow> vma" where
  "local_symbol_address io i =
     section_address (the (local_sections io i)) + (if ls_is_section (local_syms io i) then 0 else ls_value (local_syms io i))
       + (if ELF_ST_IS_COMPRESSED (ls_other (local_syms io i)) then 1 else 0)"

text \<open>The address of a global symbol, if it has one in a static link: 0 for an undefined weak one.\<close>

definition global_symbol_address :: "link_sym \<Rightarrow> vma option" where
  "global_symbol_address h =
     (if sym_defined h \<and> def_section h \<noteq> None
      then Some (def_value h + (if output_section (the (def_section h)) = None then 0 else section_address (the (def_section h))))
      else if root_type h = bfd_link_hash_undefweak then Some 0 else None)"

definition reloc_sym :: "input_object \<Rightarrow> (nat \<Rightarrow> link_sym) \<Rightarrow> elf_rela \<Rightarrow> nat option" where
  "reloc_sym io sy rel =
     follow_links sy (sym_hashes io (ELF_R_SYM (in_bfd io) (r_info rel) - (if bad_symtab io then 0 else sh_info io)))"

text \<open>
  A word relocated against a symbol with an address: a local one whose section is not discarded (and not the symbol of a merged section), or a global
  one that is defined in a section that is not discarded or undefined weak, and is not one of the two names with a meaning of their own.
\<close>

definition word_reloc :: "section_env \<Rightarrow> input_object \<Rightarrow> (nat \<Rightarrow> link_sym) \<Rightarrow> elf_rela \<Rightarrow> bool" where
  "word_reloc senv io sy rel \<longleftrightarrow>
     (let i = ELF_R_SYM (in_bfd io) (r_info rel)
      in ELF_R_TYPE (in_bfd io) (r_info rel) = R_MIPS_32
         \<and> (if mips_elf_local_relocation_p io rel
            then \<exists>s. local_sections io i = Some s \<and> \<not> (SEC_MERGE \<in> sec_flags s \<and> ls_is_section (local_syms io i)) \<and> \<not> discarded_section senv s
            else \<exists>h. reloc_sym io sy rel = Some h \<and> global_symbol_address (sy h) \<noteq> None
              \<and> sym_name (sy h) \<noteq> ''_gp_disp'' \<and> sym_name (sy h) \<noteq> ''__gnu_local_gp''
              \<and> (case def_section (sy h) of None \<Rightarrow> True | Some s \<Rightarrow> \<not> discarded_section senv s)))"

text \<open>The address the word gets: that of the symbol, or of the stub through which other code reaches a MIPS16 function.\<close>

definition word_address :: "input_object \<Rightarrow> (nat \<Rightarrow> link_sym) \<Rightarrow> asection \<Rightarrow> elf_rela \<Rightarrow> vma" where
  "word_address io sy sec rel =
     (let i = ELF_R_SYM (in_bfd io) (r_info rel); h = sy (the (reloc_sym io sy rel)); stubs = (\<not> section_allows_mips16_refs_p sec)
      in if mips_elf_local_relocation_p io rel
         then (case local_stubs io i of Some s \<Rightarrow> if stubs then section_address s else local_symbol_address io i
                 | None \<Rightarrow> local_symbol_address io i)
         else if fn_stub h \<noteq> None \<and> stubs
         then (case sym_la25_stub h of Some l \<Rightarrow> section_address (stub_section l) + stub_offset l
                 | None \<Rightarrow> section_address (the (fn_stub h)))
         else the (global_symbol_address h))"

definition static_link :: "link_info \<Rightarrow> bool" where
  "static_link info \<longleftrightarrow> \<not> relocatable info \<and> \<not> shared info \<and> \<not> dynamic_sections_created info"

lemma howto_word:
  "mips_elf32_rtype_to_howto R_MIPS_32 = Some (howto_of R_MIPS_32)" "dst_mask (howto_of R_MIPS_32) = 0xffffffff"
  "src_mask (howto_of R_MIPS_32) = 0xffffffff" "rightshift (howto_of R_MIPS_32) = 0"
  "bfd_get_reloc_size (howto_of R_MIPS_32) = 4"
  by (simp_all add: howto_of_def mips_elf32_rtype_to_howto_def table_eval bfd_get_reloc_size_def)

lemma not_special_word:
  "\<not> mips16_reloc_p R_MIPS_32" "\<not> hi16_reloc_p R_MIPS_32" "\<not> got16_reloc_p R_MIPS_32" "\<not> lo16_reloc_p R_MIPS_32"
  "\<not> micromips_branch_reloc_p R_MIPS_32" "\<not> got_page_reloc_p R_MIPS_32" "\<not> needs_got_index R_MIPS_32"
  "\<not> mips_elf_relocation_needs_la25_stub b R_MIPS_32 x"
  by (simp_all add: mips16_reloc_p_def hi16_reloc_p_def got16_reloc_p_def lo16_reloc_p_def micromips_branch_reloc_p_def
      got_page_reloc_p_def needs_got_index_def mips_elf_relocation_needs_la25_stub_def)

text \<open>The phases of the calculation for a word.\<close>

definition word_target :: "input_object \<Rightarrow> elf_rela \<Rightarrow> (nat \<Rightarrow> link_sym) \<Rightarrow> vma \<Rightarrow> vma \<Rightarrow> target \<Rightarrow> bool" where
  "word_target io rel sy v addend t \<longleftrightarrow> t_symbol t = v \<and> t_addend t = addend \<and> \<not> t_gnu_local_gp t
     \<and> t_h t = (if mips_elf_local_relocation_p io rel then None else reloc_sym io sy rel)"

lemma word_resolved:
  assumes "word_reloc senv io sy rel"
  defines "i \<equiv> ELF_R_SYM (in_bfd io) (r_info rel)"
  shows "\<exists>t. (if mips_elf_local_relocation_p io rel then map_option Inr (resolve_local env io i addend)
        else resolve_global env info io sy R_MIPS_32 i addend) = Some (Inr t)
      \<and> word_target io rel sy (if mips_elf_local_relocation_p io rel then local_symbol_address io i
          else the (global_symbol_address (sy (the (reloc_sym io sy rel))))) addend t"
proof (cases "mips_elf_local_relocation_p io rel")
  case True
  then show ?thesis
    using assms(1) by (auto simp: word_reloc_def Let_def resolve_local_def word_target_def local_symbol_address_def i_def)
next
  case False
  then obtain h where h: "reloc_sym io sy rel = Some h" "global_symbol_address (sy h) \<noteq> None"
    "sym_name (sy h) \<noteq> ''_gp_disp''" "sym_name (sy h) \<noteq> ''__gnu_local_gp''"
    using assms(1) by (auto simp: word_reloc_def Let_def)
  have "\<exists>sec. global_address env info (in_bfd io) (sy h) = Inr (the (global_symbol_address (sy h)), sec)"
    using h(2) by (auto simp: global_symbol_address_def global_address_def section_address_def Let_def ac_simps split: if_splits option.split)
  then show ?thesis
    using False h(1,3,4) by (auto simp: resolve_global_def Let_def word_target_def reloc_sym_def i_def)
qed

lemma word_redirected:
  assumes "word_target io rel sy (if mips_elf_local_relocation_p io rel then local_symbol_address io (ELF_R_SYM (in_bfd io) (r_info rel))
          else the (global_symbol_address (sy (the (reloc_sym io sy rel))))) addend t"
    and "static_link info" "mips_elf_local_relocation_p io rel \<or> reloc_sym io sy rel \<noteq> None"
  shows "\<exists>t'. redirect info io sec R_MIPS_32 (ELF_R_SYM (in_bfd io) (r_info rel)) (mips_elf_local_relocation_p io rel) sy t = Some t'
    \<and> word_target io rel sy (word_address io sy sec rel) addend t'"
  using assms
  by (auto simp: word_target_def redirect_def word_address_def Let_def static_link_def not_special_word split: option.split)

lemma calculate_word:
  assumes "word_reloc senv io (syms (gs cs)) rel" "static_link info"
  shows "mips_elf_calculate_relocation env output_bfd io sec info rel addend (howto_of R_MIPS_32) save cs
    = Some (bfd_reloc_ok, take_bit 32 (word_address io (syms (gs cs)) sec rel + addend), False, cs)"
proof -
  let ?sy = "syms (gs cs)"
  have r: "ELF_R_TYPE (in_bfd io) (r_info rel) = R_MIPS_32" "mips_elf_local_relocation_p io rel \<or> reloc_sym io ?sy rel \<noteq> None"
    using assms(1) by (auto simp: word_reloc_def Let_def split: if_splits)
  obtain t t' where t: "(if mips_elf_local_relocation_p io rel
        then map_option Inr (resolve_local env io (ELF_R_SYM (in_bfd io) (r_info rel)) addend)
        else resolve_global env info io ?sy R_MIPS_32 (ELF_R_SYM (in_bfd io) (r_info rel)) addend) = Some (Inr t)"
    and t': "redirect info io sec R_MIPS_32 (ELF_R_SYM (in_bfd io) (r_info rel)) (mips_elf_local_relocation_p io rel) ?sy t = Some t'"
    and w: "word_target io rel ?sy (word_address io ?sy sec rel) addend t'"
    using word_resolved [OF assms(1), of env addend info] word_redirected [OF _ assms(2) r(2), of addend _ sec] by metis
  have gott: "\<not> is_gott_symbol info h" for h
    using assms(2) by (simp add: is_gott_symbol_def static_link_def)
  have "calc_target env output_bfd io sec info rel (howto_of R_MIPS_32) save (mips_elf_local_relocation_p io rel) t' cs
      = Some (bfd_reloc_ok, take_bit 32 (word_address io ?sy sec rel + addend), False, cs)"
    using assms(2) w
    by (auto simp: calc_target_def Let_def word_target_def r cross_mode_jump_def not_special_word got_phase_def gott
        calc_value_def calc_word_def masked_def checked_def howto_word bit_masks static_link_def on_gs_def split: option.split)
  then show ?thesis
    using t t' by (simp add: mips_elf_calculate_relocation_def Let_def r not_special_word)
qed


lemma high_word:
  fixes w :: vma
  shows "take_bit 32 w AND - 4294967296 = 0"
proof -
  have "(- 4294967296 :: vma) = NOT (mask 32)"
    by (simp add: mask_eq_exp_minus_1)
  then show ?thesis
    by (simp only: take_bit_eq_mask and.assoc bit.conj_cancel_right bit.conj_zero_right)
qed

lemma perform_word:
  assumes "xvec_ok (bfd_xvec b)" "ELF_R_TYPE b (r_info rel) = R_MIPS_32" "unat (r_offset rel) + 4 \<le> length c"
  shows "mips_elf_perform_relocation final (howto_of R_MIPS_32) rel v b sec c cross
    = Some (Inr (bfd_put_32 (bfd_xvec b) v c (unat (r_offset rel))))"
proof -
  let ?x = "bfd_get_32 (bfd_xvec b) c (unat (r_offset rel))"
  have "take_bit 32 ?x = ?x"
    using assms(1,3) by (simp add: bytes_simps)
  then have x: "?x AND - 4294967296 = 0"
    using high_word [of ?x] by simp
  have not16: "\<not> mips16_reloc_p R_MIPS_32" "\<not> jal_reloc_p R_MIPS_32"
    by (simp_all add: mips16_reloc_p_def jal_reloc_p_def)
  show ?thesis
    using assms x not16
    by (simp add: mips_elf_perform_relocation_def Let_def unshuffle_not_mips16 shuffle_not_mips16
        mips_elf_obtain_contents_def howto_word bfd_get_def bfd_put_def branch_conversion_def split_beta
        bit_masks bytes_simps)
qed


lemma word_reloc_type: "word_reloc senv io sy rel \<Longrightarrow> ELF_R_TYPE b (r_info rel) = R_MIPS_32"
  using ELF_R_TYPE_any [of b "r_info rel" "in_bfd io"] by (simp add: word_reloc_def Let_def)

lemma adjust_addend_word:
  assumes "word_reloc senv io sy rel" "ABI_64_P output_bfd = ABI_64_P (in_bfd io)"
  shows "\<exists>rel'. mips_elf_adjust_addend senv output_bfd info io rel = Some rel'"
proof -
  have "ELF_R_SYM output_bfd i = ELF_R_SYM (in_bfd io) i" for i
    using assms(2) by (simp add: ELF_R_SYM_def)
  then show ?thesis
    using assms(1)
    by (cases "gprel16_reloc_p senv (ELF_R_TYPE output_bfd (r_info rel)) \<or> ELF_R_TYPE output_bfd (r_info rel) = R_MIPS_GPREL32
        \<or> literal_reloc_p senv (ELF_R_TYPE output_bfd (r_info rel))")
      (auto simp: mips_elf_adjust_addend_def word_reloc_def Let_def split: if_splits)
qed

text \<open>The addend of a word: what it held, or the one of its RELA entry.\<close>

definition word_at :: "input_object \<Rightarrow> bytes \<Rightarrow> elf_rela \<Rightarrow> vma" where
  "word_at io c rel = bfd_get_32 (bfd_xvec (in_bfd io)) c (unat (r_offset rel))"

definition word_addend :: "section_env \<Rightarrow> input_object \<Rightarrow> asection \<Rightarrow> nat \<Rightarrow> bytes \<Rightarrow> elf_rela \<Rightarrow> vma" where
  "word_addend senv io sec index c rel = (if mips_elf_rel_relocation_p senv sec index then word_at io c rel else r_addend rel)"

lemma relocate_step_word:
  assumes abi: "ABI_64_P output_bfd = ABI_64_P (in_bfd io)" and word: "word_reloc senv io (syms (gs (rr_calc st))) rel"
    and static: "static_link info" and ok: "xvec_ok (bfd_xvec (in_bfd io))"
    and senv: "moves_addend_only senv" and range: "unat (r_offset rel) + 4 \<le> length (rr_contents st)"
    and single: "\<not> use_saved_addend_p st" "\<not> more_at_place (in_bfd io) rel rest"
  shows "\<exists>rel' st'. relocate_step senv env output_bfd info io sec index rel rest st = Some (Inr (rel', st'))
    \<and> \<not> use_saved_addend_p st' \<and> rr_calc st' = rr_calc st
    \<and> rr_contents st' = bfd_put_32 (bfd_xvec (in_bfd io))
        (word_address io (syms (gs (rr_calc st))) sec rel + word_addend senv io sec index (rr_contents st) rel)
        (rr_contents st) (unat (r_offset rel))"
proof -
  let ?A = "word_addend senv io sec index (rr_contents st) rel"
  have types [simp]: "ELF_R_TYPE b (r_info rel) = R_MIPS_32" for b
    by (rule word_reloc_type [OF word])
  obtain rel2 where adj: "mips_elf_adjust_addend senv output_bfd info io rel = Some rel2"
    using adjust_addend_word [OF word abi] by auto
  have place: "r_offset rel2 = r_offset rel" "r_info rel2 = r_info rel"
    using adjust_addend_place [OF adj senv] by auto
  have same: "mips_elf_local_relocation_p io rel2 = mips_elf_local_relocation_p io rel" "reloc_sym io sy rel2 = reloc_sym io sy rel"
    "word_address io sy sec rel2 = word_address io sy sec rel" for sy
    using place by (simp_all add: mips_elf_local_relocation_p_def reloc_sym_def word_address_def)
  have word2: "word_reloc senv io (syms (gs (rr_calc st))) rel2"
    using word unfolding word_reloc_def same place .
  have more: "\<not> more_at_place (in_bfd io) rel2 rest"
    using single(2) place by (simp add: more_at_place_def split: list.splits)
  have small: "word_at io (rr_contents st) rel AND 0xffffffff = word_at io (rr_contents st) rel"
    using ok range by (simp add: word_at_def bit_masks bytes_simps)
  have addend: "initial_addend senv io sec index R_MIPS_32 (howto_of R_MIPS_32) rel (rr_contents st) = Some (?A, rr_contents st)"
    using small
    by (simp add: initial_addend_def mips_elf_read_rel_addend_def Let_def unshuffle_not_mips16 shuffle_not_mips16
        mips_elf_obtain_contents_def howto_word bfd_get_def not_special_word word_addend_def word_at_def)
  have perform: "mips_elf_perform_relocation final (howto_of R_MIPS_32) rel2 v (in_bfd io) sec (rr_contents st) False
      = Some (Inr (bfd_put_32 (bfd_xvec (in_bfd io)) v (rr_contents st) (unat (r_offset rel))))" for final v
    using perform_word [of "in_bfd io" rel2 "rr_contents st" final v sec False] ok range place by simp
  show ?thesis
    using single(1) static adj more calculate_word [OF word2 static] ok same
    by (simp add: relocate_step_def Let_def is_64_in_32_def howto_word addend final_step_def store_value_def
        perform_step_def perform static_link_def place bytes_simps)
qed

fun disjoint_fields :: "bfd \<Rightarrow> elf_rela list \<Rightarrow> bool" where
  "disjoint_fields abfd [] \<longleftrightarrow> True"
| "disjoint_fields abfd (rel # rels) \<longleftrightarrow> reloc_field abfd rel \<inter> all_fields abfd rels = {} \<and> disjoint_fields abfd rels"


lemma word_reloc_field: "word_reloc senv io sy rel \<Longrightarrow> reloc_field b rel = {unat (r_offset rel) ..< unat (r_offset rel) + 4}"
  by (simp add: reloc_field_def word_reloc_type howto_word)

lemma word_reloc_range:
  assumes "word_reloc senv io sy rel" "reloc_field b rel \<subseteq> {..<n}"
  shows "unat (r_offset rel) + 4 \<le> n"
proof -
  have "unat (r_offset rel) + 3 \<in> reloc_field b rel"
    by (simp add: word_reloc_field [OF assms(1)])
  then show ?thesis
    using assms(2) by auto
qed

lemma get_32_cong:
  assumes "off + 4 \<le> length c" "same_outside F c c'" "F \<inter> {off ..< off + 4} = {}"
  shows "bfd_get_32 t c' off = bfd_get_32 t c off"
proof -
  have "take 4 (drop off c') = take 4 (drop off c)"
  proof (rule nth_equalityI)
    fix i assume "i < length (take 4 (drop off c'))"
    then have "off + i < length c" "off + i \<notin> F" "i < 4"
      using assms by (auto simp: same_outside_def)
    then show "take 4 (drop off c') ! i = take 4 (drop off c) ! i"
      using assms(2) by (simp add: same_outside_def)
  qed (use assms in \<open>simp add: same_outside_def\<close>)
  then show ?thesis
    by (simp add: accessor_defs get_at_def)
qed

lemma put_32_outside:
  assumes "xvec_ok t" "off + 4 \<le> length c"
  shows "same_outside {off ..< off + 4} c (bfd_put_32 t v c off)"
  using assms by (auto simp: same_outside_def bytes_simps)

text \<open>What every relocation of words shares.\<close>

definition word_setting :: "section_env \<Rightarrow> bfd \<Rightarrow> link_info \<Rightarrow> input_object \<Rightarrow> bool" where
  "word_setting senv output_bfd info io \<longleftrightarrow>
     static_link info \<and> xvec_ok (bfd_xvec (in_bfd io)) \<and> moves_addend_only senv \<and> clears_one_field senv
     \<and> ABI_64_P output_bfd = ABI_64_P (in_bfd io) \<and> NEWABI_P output_bfd = NEWABI_P (in_bfd io)"

lemma relocate_loop_words:
  assumes set: "word_setting senv output_bfd info io"
    and "\<forall>rel \<in> set rels. word_reloc senv io (syms (gs (rr_calc st))) rel" "fields_inside (in_bfd io) rels (rr_contents st)"
    and "disjoint_fields (in_bfd io) rels" "\<not> use_saved_addend_p st"
  shows "\<exists>rels' st'. relocate_loop senv env output_bfd info io sec index rels st = Some (Inr (rels', st'))
    \<and> (\<forall>i < length rels. word_at io (rr_contents st') (rels ! i)
         = take_bit 32 (word_address io (syms (gs (rr_calc st))) sec (rels ! i) + word_addend senv io sec (index + i) (rr_contents st) (rels ! i)))"
  using assms(2-)
proof (induction rels arbitrary: index st)
  case (Cons rel rest)
  let ?t = "bfd_xvec (in_bfd io)" and ?off = "unat (r_offset rel)" and ?sy = "syms (gs (rr_calc st))"
  have ok: "xvec_ok ?t"
    using set by (simp add: word_setting_def)
  have word: "word_reloc senv io ?sy rel"
    using Cons.prems(1) by simp
  have field: "reloc_field b rel = {?off ..< ?off + 4}" for b
    by (rule word_reloc_field [OF word])
  have range: "?off + 4 \<le> length (rr_contents st)"
    by (rule word_reloc_range [OF word, of "in_bfd io"]) (use Cons.prems(2) in \<open>simp add: fields_inside_def\<close>)
  have disj: "all_fields (in_bfd io) rest \<inter> {?off ..< ?off + 4} = {}"
    using Cons.prems(3) field by (simp add: Int_commute)
  have single: "\<not> more_at_place (in_bfd io) rel rest"
    using Cons.prems(1,3) word_reloc_field [of senv io ?sy]
    by (auto simp: more_at_place_def all_fields_def field split: list.split)
  obtain rel1 st1 where step: "relocate_step senv env output_bfd info io sec index rel rest st = Some (Inr (rel1, st1))"
    and st1: "\<not> use_saved_addend_p st1" "rr_calc st1 = rr_calc st"
      "rr_contents st1 = bfd_put_32 ?t (word_address io ?sy sec rel + word_addend senv io sec index (rr_contents st) rel) (rr_contents st) ?off"
    using relocate_step_word [OF _ word _ ok _ range _ single, of output_bfd info env sec index] set Cons.prems(4)
    by (auto simp: word_setting_def)
  have out1: "same_outside {?off ..< ?off + 4} (rr_contents st) (rr_contents st1)"
    unfolding st1(3) by (rule put_32_outside [OF ok range])
  then have len1: "length (rr_contents st1) = length (rr_contents st)"
    by (simp add: same_outside_def)
  have inside1: "fields_inside (in_bfd io) rest (rr_contents st1)"
    using Cons.prems(2) len1 by (simp add: fields_inside_def)
  have rest: "\<forall>rel \<in> set rest. word_reloc senv io (syms (gs (rr_calc st1))) rel" "disjoint_fields (in_bfd io) rest"
    using Cons.prems(1,3) st1(2) by simp_all
  obtain rels2 st2 where loop: "relocate_loop senv env output_bfd info io sec (index + 1) rest st1 = Some (Inr (rels2, st2))"
    and words: "\<forall>i < length rest. word_at io (rr_contents st2) (rest ! i)
      = take_bit 32 (word_address io ?sy sec (rest ! i) + word_addend senv io sec (index + 1 + i) (rr_contents st1) (rest ! i))"
    using Cons.IH [OF rest(1) inside1 rest(2) st1(1), of "index + 1"] st1(2) by auto
  have out2: "same_outside (all_fields (in_bfd io) rest) (rr_contents st1) (rr_contents st2)"
    by (rule relocate_loop_outside [OF loop ok _ _ _ inside1]) (use set in \<open>simp_all add: word_setting_def\<close>)
  have here: "word_at io (rr_contents st2) rel
      = take_bit 32 (word_address io ?sy sec rel + word_addend senv io sec index (rr_contents st) rel)"
  proof -
    have "word_at io (rr_contents st2) rel = word_at io (rr_contents st1) rel"
      unfolding word_at_def by (rule get_32_cong [OF _ out2 disj]) (simp add: range len1)
    then show ?thesis
      unfolding st1(3) word_at_def using ok range by (simp add: bytes_simps)
  qed
  have there: "word_addend senv io sec n (rr_contents st1) r = word_addend senv io sec n (rr_contents st) r" if "r \<in> set rest" for r n
  proof -
    have w: "word_reloc senv io ?sy r"
      using that Cons.prems(1) by simp
    have "unat (r_offset r) + 4 \<le> length (rr_contents st)"
      by (rule word_reloc_range [OF w, of "in_bfd io"]) (use that Cons.prems(2) in \<open>simp add: fields_inside_def\<close>)
    moreover have "{unat (r_offset r) ..< unat (r_offset r) + 4} \<subseteq> all_fields (in_bfd io) rest"
      using that word_reloc_field [OF w, of "in_bfd io"] unfolding all_fields_def by blast
    then have "{?off ..< ?off + 4} \<inter> {unat (r_offset r) ..< unat (r_offset r) + 4} = {}"
      using disj by blast
    ultimately show ?thesis
      unfolding word_addend_def word_at_def by (simp only: get_32_cong [OF _ out1])
  qed
  have "\<exists>s. relocation_section io ?sy rel = Some s \<and> \<not> (case s of None \<Rightarrow> False | Some s \<Rightarrow> discarded_section senv s)"
    using word by (auto simp: relocation_section_def word_reloc_def reloc_sym_def Let_def split: if_splits option.splits)
  then have run: "relocate_loop senv env output_bfd info io sec index (rel # rest) st = Some (Inr (rel1 # rels2, st2))"
    using step loop by auto
  have "word_at io (rr_contents st2) ((rel # rest) ! i)
      = take_bit 32 (word_address io ?sy sec ((rel # rest) ! i) + word_addend senv io sec (index + i) (rr_contents st) ((rel # rest) ! i))"
    if "i < length (rel # rest)" for i
  proof (cases i)
    case (Suc j)
    then show ?thesis
      using that words there [of "rest ! j"] by simp
  qed (simp add: here)
  then show ?case
    using run by blast
qed simp

section \<open>Example\<close>

text \<open>A section of two words, both relocated against a local symbol of a section at 0x400000.\<close>

definition example_object :: input_object where
  "example_object =
     \<lparr>in_bfd = le_bfd, bad_symtab = False, sh_info = 4,
      local_syms = \<lambda>_. \<lparr>ls_is_section = False, ls_value = 0x24, ls_other = 0\<rparr>,
      local_sections = \<lambda>_. Some text_section, local_stubs = \<lambda>_. None, local_call_stubs = \<lambda>_. None,
      sym_hashes = \<lambda>i. i, in_section_names = [''.text'', ''.data'']\<rparr>"

definition example_env :: link_env where
  "example_env =
     \<lparr>dynobj = le_bfd, rel_local_sym = \<lambda>_ s addend. (s, addend), elf_section_offset = \<lambda>_ off. off,
      is_abs_section = \<lambda>_. False, has_owner = \<lambda>_. True, out_dynindx = \<lambda>_. 0, text_index_dynindx = 0\<rparr>"

definition example_senv :: section_env where
  "example_senv =
     \<lparr>gprel16_reloc_p = \<lambda>r. r = R_MIPS_GPREL16, literal_reloc_p = \<lambda>r. r = R_MIPS_LITERAL,
      discarded_section = \<lambda>_. False, against_discarded = \<lambda>_ _ _ _ grp contents. (grp, contents),
      rela_local_sym = \<lambda>_ _ rel. rel, rel_hdr_entries = \<lambda>_. Some 2, int_rels_per_ext_rel = 1,
      reloc_overflow_callback = \<lambda>_ _. True\<rparr>"

definition example_words :: "elf_rela list" where
  "example_words = [\<lparr>r_offset = 0, r_info = 0x102, r_addend = 0\<rparr>, \<lparr>r_offset = 4, r_info = 0x102, r_addend = 0\<rparr>]"

definition example_calc :: calc_state where
  "example_calc = \<lparr>gs = example_got, df_textrel = False, written_outs = {}, compact_rel = None\<rparr>"

lemma example_setting:
  "word_setting example_senv le_bfd example_info example_object" "moves_addend_only example_senv" "clears_one_field example_senv"
  by (simp_all add: word_setting_def static_link_def example_info_def moves_addend_only_def clears_one_field_def
      example_senv_def example_object_def le_bfd_def)

lemma example_words_fit:
  "\<forall>rel \<in> set example_words. word_reloc example_senv example_object sy rel"
  "disjoint_fields (in_bfd example_object) example_words"
  "mips_elf_rel_relocation_p example_senv text_section 0" "mips_elf_rel_relocation_p example_senv text_section 1"
  "8 \<le> length contents \<Longrightarrow> fields_inside (in_bfd example_object) example_words contents"
proof -
  show word: "\<forall>rel \<in> set example_words. word_reloc example_senv example_object sy rel"
    by (simp add: example_words_def word_reloc_def example_object_def le_bfd_def ELF_R_TYPE_def ELF_R_SYM_def
        ABI_64_P_def bit_masks mips_elf_local_relocation_p_def text_section_def example_senv_def)
  then have field: "reloc_field b rel = {unat (r_offset rel) ..< unat (r_offset rel) + 4}" if "rel \<in> set example_words" for rel b
    using that word_reloc_field word by blast
  show "disjoint_fields (in_bfd example_object) example_words"
    using field by (auto simp: example_words_def all_fields_def)
  show "fields_inside (in_bfd example_object) example_words contents" if "8 \<le> length contents"
    using field that by (auto simp: example_words_def fields_inside_def)
  show "mips_elf_rel_relocation_p example_senv text_section 0" "mips_elf_rel_relocation_p example_senv text_section 1"
    by (simp_all add: mips_elf_rel_relocation_p_def example_senv_def)
qed

lemma example_runs:
  assumes "8 \<le> length contents"
  shows "\<exists>rels' run. bfd_mips_elf_relocate_section example_senv example_env le_bfd example_info example_object text_section
    contents example_words False cs = Some (Inr (rels', run))"
proof -
  let ?st = "\<lparr>rr_contents = contents, rr_addend = 0, use_saved_addend_p = False,
    small_data_overflow_reported = False, rr_calc = cs\<rparr>"
  have "fields_inside (in_bfd example_object) example_words (rr_contents ?st)"
    using example_words_fit(5) [OF assms] by simp
  from relocate_loop_words [OF example_setting(1) example_words_fit(1) this example_words_fit(2), of example_env text_section 0]
  show ?thesis
    unfolding bfd_mips_elf_relocate_section_def by auto
qed

lemma example_symbol: "local_symbol_address example_object i = 0x400024"
  by (simp add: local_symbol_address_def example_object_def text_section_def section_address_def
      ELF_ST_IS_COMPRESSED_def ELF_ST_IS_MIPS16_def ELF_ST_IS_MICROMIPS_def)

text \<open>
  C2.  Relocating a section stays inside the relocated fields: whatever the
  relocations, their order and number at one place, and whether the link is final or relocatable,
  the new contents have the length of the old and differ at most in the bytes of the fields of the
  relocations (when clearing a relocation against a discarded section clears its field).
\<close>

theorem relocate_section_inside_fields:
  assumes "bfd_mips_elf_relocate_section senv env output_bfd info io sec contents relocs reported cs = Some (Inr (rels', run))"
    and "xvec_ok (bfd_xvec (in_bfd io))" "NEWABI_P output_bfd = NEWABI_P (in_bfd io)"
    and "moves_addend_only senv" "clears_one_field senv" "fields_inside (in_bfd io) relocs contents"
  shows "same_outside (all_fields (in_bfd io) relocs) contents (rr_contents run)"
  using relocate_loop_outside [OF assms(1) [unfolded bfd_mips_elf_relocate_section_def] assms(2-5)] assms(6) by simp

theorem relocate_section_inside_fields_witness:
  "\<exists>rels' run. bfd_mips_elf_relocate_section example_senv example_env le_bfd example_info example_object text_section
      [4, 0, 0, 0, 0, 0, 0, 0, 7] example_words False example_calc = Some (Inr (rels', run))
    \<and> rr_contents run ! 8 = 7"
proof -
  let ?c = "[4, 0, 0, 0, 0, 0, 0, 0, 7] :: bytes"
  have inside: "fields_inside (in_bfd example_object) example_words ?c"
    by (rule example_words_fit(5)) simp
  obtain rels' run where r: "bfd_mips_elf_relocate_section example_senv example_env le_bfd example_info example_object
      text_section ?c example_words False example_calc = Some (Inr (rels', run))"
    using example_runs [of ?c example_calc] by auto
  have "all_fields (in_bfd example_object) example_words \<subseteq> {..<8}"
    using example_words_fit(5) [of "replicate 8 0"] by (auto simp: fields_inside_def all_fields_def)
  then have "8 \<notin> all_fields (in_bfd example_object) example_words"
    by auto
  then have "rr_contents run ! 8 = ?c ! 8"
    using relocate_section_inside_fields [OF r _ _ example_setting(2,3) inside]
    by (simp add: same_outside_def example_object_def)
  with r show ?thesis
    by (intro exI [of _ rels'] exI [of _ run]) simp
qed

text \<open>
  C1.  In a static link a section whose relocations are \<^verbatim>\<open>R_MIPS_32\<close> at disjoint places is relocated successfully, and each word becomes the address of its symbol plus its addend, in 32 bits.
  The symbol may be a local one (odd for MIPS16 or microMIPS code) or a global one that is defined or undefined weak (then its address is 0); if it is a
  MIPS16 function with a stub, the word gets the address of the stub, unless the section is one that may refer to MIPS16 code directly.  The addend is what the word held, or that of the entry when the section
  has RELA relocations.  Symbols of discarded sections, section symbols of merged sections, \<^verbatim>\<open>_gp_disp\<close> and \<^verbatim>\<open>__gnu_local_gp\<close> are excluded.
\<close>

theorem relocate_section_words:
  assumes "word_setting senv output_bfd info io"
    and "\<forall>rel \<in> set relocs. word_reloc senv io (syms (gs cs)) rel" "fields_inside (in_bfd io) relocs contents"
    and "disjoint_fields (in_bfd io) relocs"
  shows "\<exists>rels' run. bfd_mips_elf_relocate_section senv env output_bfd info io sec contents relocs reported cs = Some (Inr (rels', run))
    \<and> (\<forall>i < length relocs. word_at io (rr_contents run) (relocs ! i)
         = take_bit 32 (word_address io (syms (gs cs)) sec (relocs ! i) + word_addend senv io sec i contents (relocs ! i)))"
proof -
  let ?st = "\<lparr>rr_contents = contents, rr_addend = 0, use_saved_addend_p = False,
    small_data_overflow_reported = reported, rr_calc = cs\<rparr>"
  show ?thesis
    using relocate_loop_words [OF assms(1) _ _ assms(4), of ?st env sec 0] assms(2,3)
    by (simp add: bfd_mips_elf_relocate_section_def)
qed

theorem relocate_section_words_witness:
  "\<exists>rels' run. bfd_mips_elf_relocate_section example_senv example_env le_bfd example_info example_object text_section
      [4, 0, 0, 0, 0, 0, 0, 0] example_words False example_calc = Some (Inr (rels', run))
    \<and> bfd_get_32 le_xvec (rr_contents run) 0 = 0x400028 \<and> bfd_get_32 le_xvec (rr_contents run) 4 = 0x400024"
proof -
  let ?c = "[4, 0, 0, 0, 0, 0, 0, 0] :: bytes" and ?sy = "syms (gs example_calc)"
  obtain rels' run where r: "bfd_mips_elf_relocate_section example_senv example_env le_bfd example_info example_object
      text_section ?c example_words False example_calc = Some (Inr (rels', run))"
    and w: "\<forall>i < length example_words. word_at example_object (rr_contents run) (example_words ! i)
      = take_bit 32 (word_address example_object ?sy text_section (example_words ! i)
          + word_addend example_senv example_object text_section i ?c (example_words ! i))"
    using relocate_section_words [where contents = ?c and cs = example_calc and env = example_env and sec = text_section and reported = False,
        OF example_setting(1) example_words_fit(1) _ example_words_fit(2)]
      example_words_fit(5) [of ?c] by auto
  have "local_stubs example_object i = None" for i
    by (simp add: example_object_def)
  moreover have "mips_elf_local_relocation_p example_object (example_words ! 0)" "mips_elf_local_relocation_p example_object (example_words ! 1)"
    by (simp_all add: example_words_def example_object_def le_bfd_def ELF_R_SYM_def ABI_64_P_def bit_masks mips_elf_local_relocation_p_def)
  ultimately have addr: "word_address example_object ?sy text_section (example_words ! 0) = 0x400024"
    "word_address example_object ?sy text_section (example_words ! 1) = 0x400024"
    by (simp_all add: word_address_def Let_def example_symbol)
  have "bfd_get_32 le_xvec ?c 0 = 4" "bfd_get_32 le_xvec ?c 4 = 0"
    by (simp_all add: bytes_eval)
  moreover have "word_at example_object (rr_contents run) (example_words ! 0) = take_bit 32 (0x400024 + word_at example_object ?c (example_words ! 0))"
    "word_at example_object (rr_contents run) (example_words ! 1) = take_bit 32 (0x400024 + word_at example_object ?c (example_words ! 1))"
    using w [rule_format, of 0] w [rule_format, of 1] addr example_words_fit(3,4)
    by (simp_all add: word_addend_def example_words_def)
  ultimately show ?thesis
    using r by (intro exI [of _ rels'] exI [of _ run]) (simp add: word_at_def example_words_def example_object_def)
qed

end
