(* ===== verification/MultiGot.thy ===== *)
theory MultiGot
  imports GotBuild
begin

text \<open>
  Laying out the global offset table, as one table or, when it is too big for 16-bit
  offsets, as several (\<^verbatim>\<open>mips_elf_lay_out_got\<close>, \<^verbatim>\<open>mips_elf_multi_got\<close> and their
  callbacks).

  The map from input BFDs to tables is the field \<^verbatim>\<open>bfd2got\<close> of the master table, index 0
  of \<^verbatim>\<open>gots\<close>.  The counts are naturals: the sums stay far below 2 to the 32, except for the two
  negative values the code stores in unsigned fields, which are written out.  \<^verbatim>\<open>None\<close> is a
  null pointer that is followed, or a cyclic list of tables; \<^verbatim>\<open>merge_overflow\<close> is the result -1.
\<close>

section \<open>Tables per BFD\<close>

definition MIPS_ELF_GOT_MAX_SIZE :: "link_info \<Rightarrow> nat" where
  "MIPS_ELF_GOT_MAX_SIZE info = (if is_vxworks info then 0 else 0x7ff0) + 0x7fff"

record got_per_bfd_arg =
  primary :: "nat option"
  current :: "nat option"
  max_count :: nat
  max_pages :: nat
  global_count :: nat

definition unsigned_minus :: "nat \<Rightarrow> nat \<Rightarrow> nat" where
  "unsigned_minus a b = nat ((int a - int b) mod 2 ^ 32)"

definition new_got_info :: "nat \<Rightarrow> got_info" where
  "new_got_info assigned =
     \<lparr>global_gotsym = None, global_gotno = 0, reloc_only_gotno = 0, tls_gotno = 0, tls_assigned_gotno = 0,
      local_gotno = 0, page_gotno = 0, assigned_gotno = assigned, got_multi = True, got_entries = [],
      got_page_entries = [], bfd2got = None, got_next = None, tls_ldm_offset = MINUS_ONE\<rparr>"

text \<open>The map from BFDs to tables; \<^verbatim>\<open>mips_elf_bfd2got_entry_eq\<close> compares the BFDs.\<close>

definition bfd_map :: "got_state \<Rightarrow> (nat \<times> nat) list" where
  "bfd_map st = (case bfd2got (gots st ! 0) of None \<Rightarrow> [] | Some m \<Rightarrow> m)"

definition set_bfd_map :: "(nat \<times> nat) list \<Rightarrow> got_state \<Rightarrow> got_state" where
  "set_bfd_map m = upd_got 0 (\<lambda>g. g\<lparr>bfd2got := Some m\<rparr>)"

definition mips_elf_get_got_for_bfd :: "nat \<Rightarrow> got_state \<Rightarrow> nat \<times> got_state" where
  "mips_elf_get_got_for_bfd input_bfd st =
     (case map_of (bfd_map st) input_bfd of
        Some g \<Rightarrow> (g, st)
      | None \<Rightarrow>
          (length (gots st),
           set_bfd_map (bfd_map st @ [(input_bfd, length (gots st))])
             (st\<lparr>gots := gots st @ [new_got_info (unsigned_minus 0 1)]\<rparr>)))"

definition count_got_entry :: "got_state \<Rightarrow> got_entry \<Rightarrow> got_info \<Rightarrow> got_info" where
  "count_got_entry st entry g =
     (if ge_tls_type entry \<noteq> 0 then g\<lparr>tls_gotno := tls_gotno g + tls_words (ge_tls_type entry)\<rparr>
      else if 0 \<le> ge_symndx entry \<or> global_got_area (syms st (d_h (ge_d entry))) = GGA_NONE
      then g\<lparr>local_gotno := local_gotno g + 1\<rparr>
      else g\<lparr>global_gotno := global_gotno g + 1\<rparr>)"

definition mips_elf_make_got_per_bfd :: "nat \<Rightarrow> got_state \<Rightarrow> got_state option" where
  "mips_elf_make_got_per_bfd p st =
     (case ge_abfd (ents st ! p) of
        None \<Rightarrow> None
      | Some b \<Rightarrow>
          let (gi, st) = mips_elf_get_got_for_bfd b st
          in Some (if htab_find st (gots st ! gi) (ents st ! p) \<noteq> None then st
                   else upd_got gi (\<lambda>g. count_got_entry st (ents st ! p) (g\<lparr>got_entries := got_entries g @ [p]\<rparr>)) st))"

definition mips_elf_make_got_pages_per_bfd :: "got_page_entry \<Rightarrow> got_state \<Rightarrow> got_state" where
  "mips_elf_make_got_pages_per_bfd entry st =
     (let (gi, st) = mips_elf_get_got_for_bfd (pe_abfd entry) st
      in if list_ex (\<lambda>e. mips_got_page_entry_eq e entry) (got_page_entries (gots st ! gi)) then st
         else upd_got gi (\<lambda>g. g\<lparr>got_page_entries := got_page_entries g @ [entry],
                               page_gotno := page_gotno g + nat (num_pages entry)\<rparr>) st)"

section \<open>Merging\<close>

datatype merge_result = merge_overflow | merged got_state

text \<open>The tables of \<^verbatim>\<open>from\<close> are deleted after a merge.\<close>

definition mips_elf_merge_got_with :: "got_per_bfd_arg \<Rightarrow> nat \<Rightarrow> nat \<Rightarrow> nat \<Rightarrow> got_state \<Rightarrow> merge_result option" where
  "mips_elf_merge_got_with arg b from_i to st =
     (let f = gots st ! from_i; t = gots st ! to;
          estimate = (if max_pages arg \<ge> page_gotno f + page_gotno t then page_gotno f + page_gotno t else max_pages arg);
          estimate = estimate + (local_gotno f + local_gotno t);
          estimate = estimate + (tls_gotno f + tls_gotno t);
          estimate = estimate + (if Some to = primary arg then global_count arg else global_gotno f + global_gotno t)
      in if estimate > max_count arg then Some merge_overflow
         else
           case fold_opt mips_elf_make_got_per_bfd (got_entries f)
                  (set_bfd_map (map (\<lambda>(k, v). if k = b then (k, to) else (k, v)) (bfd_map st)) st) of
             None \<Rightarrow> None
           | Some st \<Rightarrow>
               Some (merged (upd_got from_i (\<lambda>g. g\<lparr>got_entries := [], got_page_entries := []\<rparr>)
                 (fold mips_elf_make_got_pages_per_bfd (got_page_entries f) st))))"

definition merge_with_current :: "got_per_bfd_arg \<Rightarrow> nat \<Rightarrow> nat \<Rightarrow> got_state \<Rightarrow> (got_per_bfd_arg \<times> got_state) option" where
  "merge_with_current arg b gi st =
     (case (case current arg of None \<Rightarrow> Some merge_overflow | Some c \<Rightarrow> mips_elf_merge_got_with arg b gi c st) of
        None \<Rightarrow> None
      | Some (merged st) \<Rightarrow> Some (arg, st)
      | Some merge_overflow \<Rightarrow>
          Some (arg\<lparr>current := Some gi\<rparr>, upd_got gi (\<lambda>g. g\<lparr>got_next := current arg\<rparr>) st))"

definition mips_elf_merge_gots :: "nat \<Rightarrow> got_per_bfd_arg \<times> got_state \<Rightarrow> (got_per_bfd_arg \<times> got_state) option" where
  "mips_elf_merge_gots b a =
     (case a of (arg, st) \<Rightarrow>
      case map_of (bfd_map st) b of
        None \<Rightarrow> None
      | Some gi \<Rightarrow>
          let g = gots st ! gi;
              estimate = (if max_pages arg > page_gotno g then page_gotno g else max_pages arg);
              estimate = estimate + (local_gotno g + tls_gotno g);
              estimate = estimate + (if tls_gotno g > 0 then global_count arg else global_gotno g)
          in if estimate \<le> max_count arg
             then (case primary arg of
                     None \<Rightarrow> Some (arg\<lparr>primary := Some gi\<rparr>, st)
                   | Some pr \<Rightarrow>
                       (case mips_elf_merge_got_with arg b gi pr st of
                          None \<Rightarrow> None
                        | Some (merged st) \<Rightarrow> Some (arg, st)
                        | Some merge_overflow \<Rightarrow> merge_with_current arg b gi st))
             else merge_with_current arg b gi st)"

section \<open>Offsets\<close>

text \<open>
  With a table \<^verbatim>\<open>g\<close> the entries of global symbols get their offsets and the relocations
  are counted, without one the symbols get the area.
\<close>

definition mips_elf_set_global_got_offset ::
  "link_info \<Rightarrow> nat option \<Rightarrow> nat \<Rightarrow> got_area \<Rightarrow> nat \<Rightarrow> nat \<times> got_state \<Rightarrow> nat \<times> got_state" where
  "mips_elf_set_global_got_offset info g entry_size area p acc =
     (case acc of (needed, st) \<Rightarrow>
        let entry = ents st ! p; s = syms st (d_h (ge_d entry));
            needed = (if g \<noteq> None \<and> ge_tls_type entry \<noteq> GOT_NORMAL
                      then needed + mips_tls_got_relocs info (ge_tls_type entry) (if ge_symndx entry = -1 then Some s else None)
                      else needed)
        in if ge_abfd entry \<noteq> None \<and> ge_symndx entry = -1 \<and> global_got_area s \<noteq> GGA_NONE
           then (case g of
                   Some gi \<Rightarrow>
                     (if shared info \<or> (dynamic_sections_created info \<and> def_dynamic s \<and> \<not> def_regular s)
                      then needed + 1 else needed,
                      upd_got gi (\<lambda>g. g\<lparr>assigned_gotno := assigned_gotno g + 1\<rparr>)
                        (upd_ent p (\<lambda>e. e\<lparr>gotidx := int (entry_size * assigned_gotno (gots st ! gi))\<rparr>) st))
                 | None \<Rightarrow> (needed, upd_sym (d_h (ge_d entry)) (\<lambda>s. s\<lparr>global_got_area := area\<rparr>) st))
           else (needed, st))"

text \<open>The count of lazy stubs is a field of the linker hash table.\<close>

definition mips_elf_forbid_lazy_stubs :: "nat \<Rightarrow> nat \<times> got_state \<Rightarrow> nat \<times> got_state" where
  "mips_elf_forbid_lazy_stubs p acc =
     (case acc of (lazy_stub_count, st) \<Rightarrow>
        let entry = ents st ! p
        in if ge_abfd entry \<noteq> None \<and> ge_symndx entry = -1 \<and> needs_lazy_stub (syms st (d_h (ge_d entry)))
           then (lazy_stub_count - 1, upd_sym (d_h (ge_d entry)) (\<lambda>s. s\<lparr>needs_lazy_stub := False\<rparr>) st)
           else acc)"

text \<open>The ranges of one table: its first free index, the end of its local part, and its place in the reversed list.\<close>

definition assign_range :: "bfd \<Rightarrow> nat \<Rightarrow> nat \<Rightarrow> nat \<Rightarrow> got_state \<Rightarrow> nat \<times> got_state" where
  "assign_range abfd pages gi assign st =
     (let g = gots st ! gi;
          local = local_gotno g + assign + (if pages < page_gotno g then pages else page_gotno g);
          st = upd_got gi (\<lambda>g. g\<lparr>assigned_gotno := assign, local_gotno := local, got_next := got_next (gots st ! 0)\<rparr>) st;
          st = upd_got 0 (\<lambda>g. g\<lparr>got_next := Some gi\<rparr>) st;
          st = upd_got gi (\<lambda>g. g\<lparr>tls_assigned_gotno := local + global_gotno g\<rparr>) st
      in (local + global_gotno g + tls_gotno g,
          fold (mips_elf_initialize_tls_index abfd gi) (got_entries g) st))"

fun assign_ranges :: "nat \<Rightarrow> bfd \<Rightarrow> nat \<Rightarrow> nat \<Rightarrow> nat \<Rightarrow> nat \<Rightarrow> nat \<times> got_state \<Rightarrow> (nat \<times> got_state) option" where
  "assign_ranges 0 abfd reserved pages gi assign acc = None"
| "assign_ranges (Suc fuel) abfd reserved pages gi assign (lazy, st) =
     (let gn = got_next (gots st ! gi);
          (assign, st) = assign_range abfd pages gi (assign + reserved) st
      in case gn of
           None \<Rightarrow> Some (lazy, st)
         | Some gn \<Rightarrow>
             assign_ranges fuel abfd reserved pages gn assign
               (fold mips_elf_forbid_lazy_stubs (got_entries (gots st ! gn)) (lazy, st)))"

fun assign_globals :: "nat \<Rightarrow> link_info \<Rightarrow> nat \<Rightarrow> nat \<Rightarrow> nat \<times> got_state \<Rightarrow> (nat \<times> got_state) option" where
  "assign_globals 0 info entry_size gi acc = None"
| "assign_globals (Suc fuel) info entry_size gi (needed, st) =
     (case got_next (gots st ! gi) of
        None \<Rightarrow> None
      | Some next \<Rightarrow>
          if next = 0 then Some (needed, st)
          else
            let save_assign = assigned_gotno (gots st ! gi);
                st = upd_got gi (\<lambda>g. g\<lparr>assigned_gotno := local_gotno g\<rparr>) st;
                (n, st) = fold (mips_elf_set_global_got_offset info (Some gi) entry_size GGA_NONE)
                            (got_entries (gots st ! gi)) (0, st);
                st = upd_got gi (\<lambda>g. g\<lparr>assigned_gotno := save_assign\<rparr>) st;
                needed = needed + n + (if shared info then unsigned_minus (local_gotno (gots st ! gi)) save_assign else 0)
            in assign_globals fuel info entry_size next (needed, st))"

section \<open>Several tables\<close>

text \<open>The tables before their offsets are known: one per BFD, merged as long as they fit.\<close>

definition partition_gots :: "link_info \<Rightarrow> bfd \<Rightarrow> nat \<Rightarrow> nat \<Rightarrow> got_state \<Rightarrow> (got_per_bfd_arg \<times> got_state) option" where
  "partition_gots info abfd reserved pages st =
     (case fold_opt mips_elf_make_got_per_bfd (got_entries (gots st ! 0)) (set_bfd_map [] st) of
        None \<Rightarrow> None
      | Some st \<Rightarrow>
          let st = fold mips_elf_make_got_pages_per_bfd (got_page_entries (gots st ! 0)) st
          in fold_opt mips_elf_merge_gots (map fst (bfd_map st))
               (\<lparr>primary = None, current = None,
                 max_count = MIPS_ELF_GOT_MAX_SIZE info div MIPS_ELF_GOT_SIZE abfd - reserved,
                 max_pages = pages, global_count = global_gotno (gots st ! 0)\<rparr>, st))"

text \<open>The primary table, a new one if none was chosen, and the links between the tables.\<close>

definition link_primary :: "bfd \<Rightarrow> got_per_bfd_arg \<times> got_state \<Rightarrow> nat \<times> got_state" where
  "link_primary abfd a =
     (case a of (arg, st) \<Rightarrow>
        let (g, st) = (case primary arg of
               Some g \<Rightarrow> (g, st)
             | None \<Rightarrow> (length (gots st), st\<lparr>gots := gots st @ [new_got_info 0]\<rparr>))
        in (g, set_bfd_map ((bfd_id abfd, g) # bfd_map st) (upd_got g (\<lambda>g. g\<lparr>got_next := current arg\<rparr>) st)))"

definition mips_elf_multi_got ::
  "link_info \<Rightarrow> bfd \<Rightarrow> nat \<Rightarrow> nat \<Rightarrow> nat \<Rightarrow> got_state \<Rightarrow> (nat \<times> nat \<times> nat \<times> got_state) option" where
  "mips_elf_multi_got info abfd reserved pages lazy st =
     (case partition_gots info abfd reserved pages st of
        None \<Rightarrow> None
      | Some a \<Rightarrow>
          let (g, st) = link_primary abfd a;
              st = upd_got 0 (\<lambda>gg. gg\<lparr>reloc_only_gotno := unsigned_minus (global_gotno gg) (global_gotno (gots st ! g))\<rparr>) st;
              st = upd_got g (\<lambda>p. p\<lparr>global_gotno := global_gotno (gots st ! 0)\<rparr>) st;
              (_, st) = fold (mips_elf_set_global_got_offset info None 0 GGA_RELOC_ONLY) (got_entries (gots st ! 0)) (0, st);
              (_, st) = fold (mips_elf_set_global_got_offset info None 0 GGA_NORMAL) (got_entries (gots st ! g)) (0, st);
              st = upd_got 0 (\<lambda>gg. gg\<lparr>local_gotno := unsigned_minus 0 (global_gotno (gots st ! g)),
                                      global_gotno := global_gotno (gots st ! g), tls_gotno := 0, got_next := Some 0\<rparr>) st
          in case assign_ranges (length (gots st)) abfd reserved pages g 0 (lazy, st) of
               None \<Rightarrow> None
             | Some (lazy, st) \<Rightarrow>
                 (case got_next (gots st ! 0) of
                    None \<Rightarrow> None
                  | Some l \<Rightarrow>
                      let last = gots st ! l;
                          got_size = (local_gotno last + global_gotno last + tls_gotno last) * MIPS_ELF_GOT_SIZE abfd
                      in case assign_globals (length (gots st)) info (MIPS_ELF_GOT_SIZE abfd) l (0, st) of
                           None \<Rightarrow> None
                         | Some (needed, st) \<Rightarrow> Some (got_size, needed, lazy, st)))"

section \<open>The layout\<close>

definition loadable_size :: "asection list \<Rightarrow> nat" where
  "loadable_size sections =
     sum_list (map (\<lambda>s. unat ((sec_size s + 0xf) AND NOT 0xf)) (filter (\<lambda>s. SEC_ALLOC \<in> sec_flags s) sections))"

definition page_estimate :: "link_info \<Rightarrow> asection list \<Rightarrow> got_info \<Rightarrow> nat" where
  "page_estimate info sections g =
     (let n = (if is_vxworks info then 0 else loadable_size sections div 2 ^ 16 + 5)
      in if n > page_gotno g then page_gotno g else n)"

text \<open>
  \<^verbatim>\<open>got_size\<close> is the size of the section \<^verbatim>\<open>.got\<close> so far, \<^verbatim>\<open>None\<close> when there is no such section;
  \<^verbatim>\<open>hs\<close> are the symbols of the hash table, \<^verbatim>\<open>dyn\<close> the size and count of the dynamic relocation
  section, \<^verbatim>\<open>rel\<close> and \<^verbatim>\<open>rela\<close> the sizes of its entries.
\<close>

definition mips_elf_lay_out_got ::
  "link_info \<Rightarrow> bfd \<Rightarrow> asection list \<Rightarrow> nat list \<Rightarrow> nat \<Rightarrow> nat \<Rightarrow> nat option \<Rightarrow> nat \<times> nat \<Rightarrow> nat \<Rightarrow> got_state
   \<Rightarrow> (nat option \<times> (nat \<times> nat) \<times> nat \<times> got_state) option" where
  "mips_elf_lay_out_got info output_bfd sections hs rel rela got_size dyn lazy st =
     (case got_size of
        None \<Rightarrow> Some (None, dyn, lazy, st)
      | Some sz \<Rightarrow>
          let reserved = (if is_vxworks info then 3 else 2);
              alloc = mips_elf_allocate_dynamic_relocations (is_vxworks info) rel rela;
              st = upd_got 0 (\<lambda>g. g\<lparr>local_gotno := local_gotno g + reserved, assigned_gotno := reserved\<rparr>) st
          in case mips_elf_resolve_final_got_entries 0 st of
               None \<Rightarrow> None
             | Some st \<Rightarrow>
                 let st = fold (mips_elf_count_got_symbols info) hs st;
                     pages = page_estimate info sections (gots st ! 0);
                     st = upd_got 0 (\<lambda>g. g\<lparr>local_gotno := local_gotno g + pages\<rparr>) st;
                     needed = fold mips_elf_count_global_tls_entries (map (syms st) hs) 0;
                     st = upd_got 0 (\<lambda>g. g\<lparr>tls_gotno := tls_gotno g + needed\<rparr>) st;
                     g = gots st ! 0;
                     sz = sz + (local_gotno g + global_gotno g + tls_gotno g) * MIPS_ELF_GOT_SIZE output_bfd
                 in if is_vxworks info
                    then (let count = unsigned_minus (global_gotno g + local_gotno g) reserved
                          in Some (Some sz, if shared info \<and> count \<noteq> 0 then alloc count dyn else dyn, lazy, st))
                    else if sz > MIPS_ELF_GOT_MAX_SIZE info
                    then (case mips_elf_multi_got info output_bfd reserved pages lazy st of
                            None \<Rightarrow> None
                          | Some (sz, n, lazy, st) \<Rightarrow> Some (Some sz, if n \<noteq> 0 then alloc n dyn else dyn, lazy, st))
                    else
                      let st = upd_got 0 (\<lambda>g. g\<lparr>tls_assigned_gotno := global_gotno g + local_gotno g\<rparr>) st;
                          st = fold (mips_elf_initialize_tls_index output_bfd 0) (got_entries (gots st ! 0)) st;
                          n = fold (mips_elf_count_local_tls_relocs info) (map ((!) (ents st)) (got_entries (gots st ! 0))) 0;
                          n = fold (mips_elf_count_global_tls_relocs info) (map (syms st) hs) n
                      in Some (Some sz, if n \<noteq> 0 then alloc n dyn else dyn, lazy, st))"

section \<open>Lazy stubs\<close>

record stub_layout =
  lazy_stub_count :: nat
  function_stub_size :: nat
  sstubs_size :: nat

abbreviation (input) MIPS_FUNCTION_STUB_NORMAL_SIZE :: nat where "MIPS_FUNCTION_STUB_NORMAL_SIZE \<equiv> 16"
abbreviation (input) MIPS_FUNCTION_STUB_BIG_SIZE :: nat where "MIPS_FUNCTION_STUB_BIG_SIZE \<equiv> 20"

definition mips_elf_estimate_stub_size :: "nat \<Rightarrow> nat \<Rightarrow> stub_layout \<Rightarrow> stub_layout" where
  "mips_elf_estimate_stub_size dynsymcount section_dynsyms l =
     (if lazy_stub_count l = 0 then l
      else
        let n = lazy_stub_count l + 1;
            sz = (if dynsymcount + section_dynsyms > 0x10000 then MIPS_FUNCTION_STUB_BIG_SIZE
                 else MIPS_FUNCTION_STUB_NORMAL_SIZE)
        in l\<lparr>lazy_stub_count := n, function_stub_size := sz, sstubs_size := n * sz\<rparr>)"

definition mips_elf_allocate_lazy_stub ::
  "asection \<Rightarrow> nat \<Rightarrow> (nat \<Rightarrow> link_sym) \<times> stub_layout \<Rightarrow> (nat \<Rightarrow> link_sym) \<times> stub_layout" where
  "mips_elf_allocate_lazy_stub sstubs h acc =
     (case acc of (sy, l) \<Rightarrow>
        if needs_lazy_stub (sy h)
        then (sy(h := (sy h)\<lparr>def_section := Some sstubs, def_value := of_nat (sstubs_size l),
                            plt_offset := of_nat (sstubs_size l)\<rparr>),
              l\<lparr>sstubs_size := sstubs_size l + function_stub_size l\<rparr>)
        else (sy, l))"

definition mips_elf_lay_out_lazy_stubs ::
  "asection \<Rightarrow> nat list \<Rightarrow> (nat \<Rightarrow> link_sym) \<times> stub_layout \<Rightarrow> (nat \<Rightarrow> link_sym) \<times> stub_layout" where
  "mips_elf_lay_out_lazy_stubs sstubs hs acc =
     (case acc of (sy, l) \<Rightarrow>
        if lazy_stub_count l = 0 then (sy, l)
        else
          let (sy, l) = fold (mips_elf_allocate_lazy_stub sstubs) hs (sy, l\<lparr>sstubs_size := 0\<rparr>)
          in (sy, l\<lparr>sstubs_size := sstubs_size l + function_stub_size l\<rparr>))"

end
