(* ===== verification/MultiGotSpec.thy ===== *)
theory MultiGotSpec
  imports MultiGot
begin

text \<open>
  What partitioning the global offset table keeps: every entry of the master table
  is represented in the table of its BFD, and a table that serves several BFDs fits in the
  range of 16-bit offsets.
\<close>

section \<open>Slots\<close>

text \<open>The slots an entry takes, by kind.\<close>

definition entry_tls :: "got_entry \<Rightarrow> nat" where
  "entry_tls e = (if ge_tls_type e \<noteq> 0 then tls_words (ge_tls_type e) else 0)"

definition entry_local :: "(nat \<Rightarrow> link_sym) \<Rightarrow> got_entry \<Rightarrow> nat" where
  "entry_local sy e =
     (if ge_tls_type e = 0 \<and> (0 \<le> ge_symndx e \<or> global_got_area (sy (d_h (ge_d e))) = GGA_NONE) then 1 else 0)"

definition entry_global :: "(nat \<Rightarrow> link_sym) \<Rightarrow> got_entry \<Rightarrow> nat" where
  "entry_global sy e =
     (if ge_tls_type e = 0 \<and> \<not> (0 \<le> ge_symndx e \<or> global_got_area (sy (d_h (ge_d e))) = GGA_NONE) then 1 else 0)"

lemma count_got_entry_fields:
  "tls_gotno (count_got_entry st e g) = tls_gotno g + entry_tls e"
  "local_gotno (count_got_entry st e g) = local_gotno g + entry_local (syms st) e"
  "global_gotno (count_got_entry st e g) = global_gotno g + entry_global (syms st) e"
  "page_gotno (count_got_entry st e g) = page_gotno g" "got_entries (count_got_entry st e g) = got_entries g"
  "got_page_entries (count_got_entry st e g) = got_page_entries g" "got_multi (count_got_entry st e g) = got_multi g"
  "bfd2got (count_got_entry st e g) = bfd2got g" "got_next (count_got_entry st e g) = got_next g"
  by (simp_all add: count_got_entry_def entry_tls_def entry_local_def entry_global_def)

text \<open>The counts of a table bound what the entries of a list take.\<close>

definition within :: "got_state \<Rightarrow> got_info \<Rightarrow> nat list \<Rightarrow> got_page_entry list \<Rightarrow> bool" where
  "within st g ps pes \<longleftrightarrow>
     sum_list (map (\<lambda>p. entry_tls (ents st ! p)) ps) \<le> tls_gotno g
     \<and> sum_list (map (\<lambda>p. entry_local (syms st) (ents st ! p)) ps) \<le> local_gotno g
     \<and> sum_list (map (\<lambda>p. entry_global (syms st) (ents st ! p)) ps) \<le> global_gotno g
     \<and> sum_list (map (\<lambda>e. nat (num_pages e)) pes) \<le> page_gotno g"

text \<open>A table grows by some entries: what it has stays, and its counts grow by at most their slots.\<close>

definition grows :: "got_state \<Rightarrow> nat list \<Rightarrow> got_page_entry list \<Rightarrow> got_info \<Rightarrow> got_info \<Rightarrow> bool" where
  "grows st ps pes g g' \<longleftrightarrow>
     set (got_entries g) \<subseteq> set (got_entries g') \<and> set (got_entries g') \<subseteq> set (got_entries g) \<union> set ps
     \<and> set (got_page_entries g) \<subseteq> set (got_page_entries g') \<and> set (got_page_entries g') \<subseteq> set (got_page_entries g) \<union> set pes
     \<and> tls_gotno g' \<le> tls_gotno g + sum_list (map (\<lambda>p. entry_tls (ents st ! p)) ps)
     \<and> local_gotno g' \<le> local_gotno g + sum_list (map (\<lambda>p. entry_local (syms st) (ents st ! p)) ps)
     \<and> global_gotno g' \<le> global_gotno g + sum_list (map (\<lambda>p. entry_global (syms st) (ents st ! p)) ps)
     \<and> page_gotno g' \<le> page_gotno g + sum_list (map (\<lambda>e. nat (num_pages e)) pes)
     \<and> got_multi g' = got_multi g \<and> bfd2got g' = bfd2got g"

text \<open>An entry, or a page entry, has a match in a table.\<close>

definition has_entry :: "got_state \<Rightarrow> got_info \<Rightarrow> nat \<Rightarrow> bool" where
  "has_entry st g p \<longleftrightarrow> (\<exists>q \<in> set (got_entries g). got_eq g (ents st ! q) (ents st ! p))"

definition has_pages :: "got_info \<Rightarrow> got_page_entry \<Rightarrow> bool" where
  "has_pages g e \<longleftrightarrow> (\<exists>e' \<in> set (got_page_entries g). mips_got_page_entry_eq e' e)"

lemma has_entry_find: "htab_find st g (ents st ! p) = None \<longleftrightarrow> \<not> has_entry st g p"
  by (auto simp: htab_find_def has_entry_def find_None_iff)

lemma has_entry_grows: "grows st0 ps pes g g' \<Longrightarrow> has_entry st g p \<Longrightarrow> has_entry st g' p"
  by (auto simp: has_entry_def grows_def got_eq_def)

lemma has_pages_grows: "grows st0 ps pes g g' \<Longrightarrow> has_pages g e \<Longrightarrow> has_pages g' e"
  by (auto simp: has_pages_def grows_def)

lemma grows_refl: "grows st ps pes g g"
  by (simp add: grows_def)

lemma grows_trans:
  assumes "grows st ps pes g g'" "grows st qs qes g' g''"
  shows "grows st (ps @ qs) (pes @ qes) g g''"
  using assms unfolding grows_def by (simp add: subset_iff) blast

section \<open>Filling a table\<close>

text \<open>The state with another table in the place \<^verbatim>\<open>to\<close>.\<close>

abbreviation with_got :: "got_state \<Rightarrow> nat \<Rightarrow> got_info \<Rightarrow> got_state" where
  "with_got st to g \<equiv> st\<lparr>gots := (gots st)[to := g]\<rparr>"

lemma multi_eq_refl: "mips_elf_multi_got_entry_eq e e"
  by (simp add: mips_elf_multi_got_entry_eq_def)

lemma bfd_map_with_got: "to \<noteq> 0 \<Longrightarrow> bfd_map (with_got st to g) = bfd_map st"
  by (simp add: bfd_map_def)

lemma make_got_known:
  assumes "ge_abfd (ents st ! p) = Some b" "map_of (bfd_map st) b = Some to" "to < length (gots st)"
    and "got_multi (gots st ! to)"
  shows "\<exists>g'. mips_elf_make_got_per_bfd p st = Some (with_got st to g') \<and> grows st [p] [] (gots st ! to) g' \<and> has_entry st g' p"
proof -
  let ?g = "gots st ! to" and ?e = "ents st ! p"
  have get: "mips_elf_get_got_for_bfd b st = (to, st)"
    using assms(2) by (simp add: mips_elf_get_got_for_bfd_def)
  show ?thesis
  proof (cases "has_entry st ?g p")
    case True
    then have "mips_elf_make_got_per_bfd p st = Some (with_got st to ?g)"
      using assms(1,3) get by (simp add: mips_elf_make_got_per_bfd_def has_entry_find)
    then show ?thesis
      using True grows_refl by blast
  next
    case False
    let ?g' = "count_got_entry st ?e (?g\<lparr>got_entries := got_entries ?g @ [p]\<rparr>)"
    have "mips_elf_make_got_per_bfd p st = Some (with_got st to ?g')"
      using assms(1,3) get False by (simp add: mips_elf_make_got_per_bfd_def has_entry_find upd_got_def)
    moreover have "grows st [p] [] ?g ?g'"
      by (auto simp: grows_def count_got_entry_fields)
    moreover have "has_entry st ?g' p"
      using assms(4) by (auto simp: has_entry_def count_got_entry_fields got_eq_def multi_eq_refl)
    ultimately show ?thesis
      by blast
  qed
qed

lemma has_entry_cong: "ents st' = ents st \<Longrightarrow> has_entry st' g p = has_entry st g p"
  by (simp add: has_entry_def)

lemma grows_cong: "ents st' = ents st \<Longrightarrow> syms st' = syms st \<Longrightarrow> grows st' ps pes g g' = grows st ps pes g g'"
  by (simp add: grows_def)

lemma make_gots_known:
  assumes "\<forall>p \<in> set ps. ge_abfd (ents st ! p) = Some b" "map_of (bfd_map st) b = Some to" "to < length (gots st)"
    and "to \<noteq> 0" "got_multi (gots st ! to)"
  shows "\<exists>g'. fold_opt mips_elf_make_got_per_bfd ps st = Some (with_got st to g') \<and> grows st ps [] (gots st ! to) g'
    \<and> (\<forall>p \<in> set ps. has_entry st g' p)"
  using assms
proof (induction ps arbitrary: st)
  case Nil
  then show ?case
    using grows_refl [of st "[]" "[]" "gots st ! to"] by (intro exI [of _ "gots st ! to"]) simp
next
  case (Cons p ps)
  obtain g1 where g1: "mips_elf_make_got_per_bfd p st = Some (with_got st to g1)" "grows st [p] [] (gots st ! to) g1"
    "has_entry st g1 p"
    using make_got_known [of st p b to] Cons.prems by auto
  let ?st = "with_got st to g1"
  have "map_of (bfd_map ?st) b = Some to" "got_multi (gots ?st ! to)"
    using Cons.prems g1(2) by (simp_all add: bfd_map_with_got grows_def)
  then obtain g2 where g2: "fold_opt mips_elf_make_got_per_bfd ps ?st = Some (with_got ?st to g2)"
    "grows ?st ps [] (gots ?st ! to) g2" "\<forall>p \<in> set ps. has_entry ?st g2 p"
    using Cons.IH [of ?st] Cons.prems by auto
  have "grows st ps [] g1 g2" "\<forall>p \<in> set ps. has_entry st g2 p"
    using g2(2,3) Cons.prems(3) by (simp_all add: grows_cong [of ?st st] has_entry_cong [of ?st st])
  then have "grows st (p # ps) [] (gots st ! to) g2" "\<forall>q \<in> set (p # ps). has_entry st g2 q"
    using grows_trans [OF g1(2), of ps "[]" g2] has_entry_grows g1(3) by auto
  then show ?case
    using g1(1) g2(1) by (intro exI [of _ g2]) simp
qed

lemma make_pages_known:
  assumes "\<forall>e \<in> set pes. pe_abfd e = b" "map_of (bfd_map st) b = Some to" "to < length (gots st)" "to \<noteq> 0"
  shows "\<exists>g'. fold mips_elf_make_got_pages_per_bfd pes st = with_got st to g' \<and> grows st [] pes (gots st ! to) g'
    \<and> (\<forall>e \<in> set pes. has_pages g' e)"
  using assms
proof (induction pes arbitrary: st)
  case Nil
  then show ?case
    using grows_refl [of st "[]" "[]" "gots st ! to"] by (intro exI [of _ "gots st ! to"]) simp
next
  case (Cons e pes)
  let ?g = "gots st ! to"
  define g1 where "g1 = (if has_pages ?g e then ?g
    else ?g\<lparr>got_page_entries := got_page_entries ?g @ [e], page_gotno := page_gotno ?g + nat (num_pages e)\<rparr>)"
  have "mips_elf_make_got_pages_per_bfd e st = with_got st to g1"
    using Cons.prems by (simp add: mips_elf_make_got_pages_per_bfd_def mips_elf_get_got_for_bfd_def g1_def has_pages_def
        list_ex_iff upd_got_def)
  moreover have g1: "grows st [] [e] ?g g1" "has_pages g1 e"
    by (auto simp: grows_def g1_def has_pages_def mips_got_page_entry_eq_def)
  moreover have "map_of (bfd_map (with_got st to g1)) b = Some to"
    using Cons.prems by (simp add: bfd_map_with_got)
  ultimately obtain g2 where g2: "fold mips_elf_make_got_pages_per_bfd (e # pes) st = with_got (with_got st to g1) to g2"
    "grows (with_got st to g1) [] pes g1 g2" "\<forall>e \<in> set pes. has_pages g2 e"
    using Cons.IH [of "with_got st to g1"] Cons.prems by auto
  then have "grows st [] (e # pes) ?g g2" "\<forall>e' \<in> set (e # pes). has_pages g2 e'"
    using grows_trans [OF g1(1), of "[]" pes g2] has_pages_grows [of st "[]" pes g1 g2 e] g1(2)
    by (auto simp: grows_cong [of "with_got st to g1" st])
  then show ?case
    using g2(1) by (intro exI [of _ g2]) simp
qed

section \<open>Merging two tables\<close>

text \<open>The slots a table may need, as the code estimates them.\<close>

definition slots :: "got_per_bfd_arg \<Rightarrow> nat \<Rightarrow> got_info \<Rightarrow> nat" where
  "slots arg i g =
     min (max_pages arg) (page_gotno g) + local_gotno g + tls_gotno g
     + (if Some i = primary arg then global_count arg else global_gotno g)"

text \<open>The table of a BFD: its entries belong to the BFD and its counts cover them.\<close>

definition own_table :: "got_state \<Rightarrow> nat \<Rightarrow> got_info \<Rightarrow> bool" where
  "own_table st b g \<longleftrightarrow>
     (\<forall>p \<in> set (got_entries g). ge_abfd (ents st ! p) = Some b) \<and> (\<forall>e \<in> set (got_page_entries g). pe_abfd e = b)
     \<and> within st g (got_entries g) (got_page_entries g) \<and> got_multi g"

definition covers_table :: "got_state \<Rightarrow> got_info \<Rightarrow> got_info \<Rightarrow> bool" where
  "covers_table st f g \<longleftrightarrow> (\<forall>p \<in> set (got_entries f). has_entry st g p) \<and> (\<forall>e \<in> set (got_page_entries f). has_pages g e)"

lemma covers_grows: "grows st0 ps pes g g' \<Longrightarrow> covers_table st f g \<Longrightarrow> covers_table st f g'"
  unfolding covers_table_def using has_entry_grows has_pages_grows by blast

definition rebind :: "nat \<Rightarrow> nat \<Rightarrow> (nat \<times> nat) list \<Rightarrow> (nat \<times> nat) list" where
  "rebind b to m = map (\<lambda>(k, v). if k = b then (k, to) else (k, v)) m"

lemma map_of_rebind: "map_of (rebind b to m) k = (if k = b then map_option (\<lambda>_. to) (map_of m k) else map_of m k)"
  by (induction m) (auto simp: rebind_def)

lemma keys_rebind [simp]: "map fst (rebind b to m) = map fst m"
  by (induction m) (auto simp: rebind_def)

lemma bfd_map_set: "0 < length (gots st) \<Longrightarrow> bfd_map (set_bfd_map m st) = m"
  by (simp add: bfd_map_def set_bfd_map_def upd_got_def)

lemma set_bfd_map_other: "i \<noteq> 0 \<Longrightarrow> gots (set_bfd_map m st) ! i = gots st ! i"
  by (simp add: set_bfd_map_def upd_got_def)

lemma set_bfd_map_simps [simp]:
  "ents (set_bfd_map m st) = ents st" "syms (set_bfd_map m st) = syms st" "length (gots (set_bfd_map m st)) = length (gots st)"
  by (simp_all add: set_bfd_map_def upd_got_def)

lemma estimate_bound:
  assumes "within st f (got_entries f) (got_page_entries f)" "grows st (got_entries f) (got_page_entries f) t t'"
    and "(if max_pages arg \<ge> page_gotno f + page_gotno t then page_gotno f + page_gotno t else max_pages arg)
      + (local_gotno f + local_gotno t) + (tls_gotno f + tls_gotno t)
      + (if Some to = primary arg then global_count arg else global_gotno f + global_gotno t) \<le> max_count arg"
  shows "slots arg to t' \<le> max_count arg"
proof -
  have "page_gotno t' \<le> page_gotno f + page_gotno t" "local_gotno t' \<le> local_gotno f + local_gotno t"
    "tls_gotno t' \<le> tls_gotno f + tls_gotno t" "global_gotno t' \<le> global_gotno f + global_gotno t"
    using assms(1,2) unfolding within_def grows_def by linarith+
  then show ?thesis
    using assms(3) by (auto simp: slots_def min_def split: if_splits)
qed

lemma merge_got_with_spec:
  assumes own: "own_table st b (gots st ! from_i)" and b: "map_of (bfd_map st) b = Some from_i"
    and idx: "from_i \<noteq> to" "from_i \<noteq> 0" "to \<noteq> 0" "from_i < length (gots st)" "to < length (gots st)"
    and multi: "got_multi (gots st ! to)"
  obtains (overflow) "mips_elf_merge_got_with arg b from_i to st = Some merge_overflow"
  | (merged) st' where "mips_elf_merge_got_with arg b from_i to st = Some (merged st')"
      "ents st' = ents st" "syms st' = syms st" "length (gots st') = length (gots st)"
      "bfd_map st' = rebind b to (bfd_map st)"
      "\<And>i. i \<noteq> 0 \<Longrightarrow> i \<noteq> from_i \<Longrightarrow> i \<noteq> to \<Longrightarrow> gots st' ! i = gots st ! i"
      "grows st (got_entries (gots st ! from_i)) (got_page_entries (gots st ! from_i)) (gots st ! to) (gots st' ! to)"
      "covers_table st (gots st ! from_i) (gots st' ! to)" "slots arg to (gots st' ! to) \<le> max_count arg"
      "global_gotno (gots st' ! 0) = global_gotno (gots st ! 0)"
proof -
  let ?f = "gots st ! from_i" and ?t = "gots st ! to"
  let ?est = "(if max_pages arg \<ge> page_gotno ?f + page_gotno ?t then page_gotno ?f + page_gotno ?t else max_pages arg)
      + (local_gotno ?f + local_gotno ?t) + (tls_gotno ?f + tls_gotno ?t)
      + (if Some to = primary arg then global_count arg else global_gotno ?f + global_gotno ?t)"
  let ?st1 = "set_bfd_map (rebind b to (bfd_map st)) st"
  have len: "0 < length (gots st)"
    using idx by linarith
  have st1: "map_of (bfd_map ?st1) b = Some to" "gots ?st1 ! to = ?t"
    using b idx by (simp_all add: bfd_map_set [OF len] map_of_rebind set_bfd_map_other)
  obtain g1 where g1: "fold_opt mips_elf_make_got_per_bfd (got_entries ?f) ?st1 = Some (with_got ?st1 to g1)"
    "grows ?st1 (got_entries ?f) [] ?t g1" "\<forall>p \<in> set (got_entries ?f). has_entry ?st1 g1 p"
    using make_gots_known [of "got_entries ?f" ?st1 b to] own st1 idx multi by (auto simp: own_table_def)
  let ?st2 = "with_got ?st1 to g1"
  have st2: "map_of (bfd_map ?st2) b = Some to" "gots ?st2 ! to = g1"
    using st1 idx by (simp_all add: bfd_map_with_got)
  obtain g2 where g2: "fold mips_elf_make_got_pages_per_bfd (got_page_entries ?f) ?st2 = with_got ?st2 to g2"
    "grows ?st2 [] (got_page_entries ?f) g1 g2" "\<forall>e \<in> set (got_page_entries ?f). has_pages g2 e"
    using make_pages_known [of "got_page_entries ?f" b ?st2 to] own st2 idx by (auto simp: own_table_def)
  have grow1: "grows st (got_entries ?f) [] ?t g1" and grow2: "grows st [] (got_page_entries ?f) g1 g2"
    using g1(2) g2(2) by (simp_all add: grows_cong [of ?st1 st] grows_cong [of ?st2 st])
  have grow: "grows st (got_entries ?f) (got_page_entries ?f) ?t g2"
    using grows_trans [OF grow1 grow2] by simp
  have covered: "covers_table st ?f g2"
    using g1(3) g2(3) has_entry_grows [OF grow2] by (auto simp: covers_table_def has_entry_cong [of ?st1 st])
  define st' where "st' = upd_got from_i (\<lambda>g. g\<lparr>got_entries := [], got_page_entries := []\<rparr>) (with_got ?st2 to g2)"
  have result: "mips_elf_merge_got_with arg b from_i to st = (if ?est > max_count arg then Some merge_overflow else Some (merged st'))"
    using g1(1) g2(1) by (simp add: mips_elf_merge_got_with_def st'_def rebind_def Let_def add.assoc)
  have map': "bfd_map st' = rebind b to (bfd_map st)"
    using idx len by (simp add: st'_def bfd_map_def set_bfd_map_def upd_got_def)
  have others: "gots st' ! i = gots st ! i" if "i \<noteq> 0" "i \<noteq> from_i" "i \<noteq> to" for i
    using that by (simp add: st'_def upd_got_def set_bfd_map_def)
  have to': "gots st' ! to = g2" and zero: "global_gotno (gots st' ! 0) = global_gotno (gots st ! 0)"
    using idx len by (simp_all add: st'_def upd_got_def set_bfd_map_def)
  show thesis
  proof (cases "?est > max_count arg")
    case True
    then show thesis
      using result overflow by simp
  next
    case False
    then have "slots arg to g2 \<le> max_count arg"
      using own by (intro estimate_bound [OF _ grow]) (auto simp: own_table_def)
    then show thesis
      using False result map' others to' zero grow covered
      by (intro merged [of st']) (simp_all add: st'_def upd_got_def)
  qed
qed

section \<open>Merging all tables\<close>

text \<open>Every BFD has a table of its own.\<close>

definition own_tables :: "(nat \<Rightarrow> nat) \<Rightarrow> nat set \<Rightarrow> got_state \<Rightarrow> bool" where
  "own_tables own keys st0 \<longleftrightarrow> inj_on own keys
     \<and> (\<forall>b \<in> keys. own b \<noteq> 0 \<and> own b < length (gots st0) \<and> own_table st0 b (gots st0 ! own b))"

text \<open>
  The table \<^verbatim>\<open>i\<close> serves the BFD \<^verbatim>\<open>b\<close>: it has all entries of the BFD, and it fits or it serves
  no other BFD.
\<close>

definition serves :: "(nat \<Rightarrow> nat) \<Rightarrow> got_state \<Rightarrow> nat set \<Rightarrow> got_per_bfd_arg \<Rightarrow> got_state \<Rightarrow> nat \<Rightarrow> nat \<Rightarrow> bool" where
  "serves own st0 finished arg st b i \<longleftrightarrow>
     i \<in> own ` finished \<and> got_multi (gots st ! i) \<and> covers_table st0 (gots st0 ! own b) (gots st ! i)
     \<and> (slots arg i (gots st ! i) \<le> max_count arg \<or> (\<forall>b' \<in> finished. map_of (bfd_map st) b' = Some i \<longrightarrow> b' = b))"

definition merge_inv :: "(nat \<Rightarrow> nat) \<Rightarrow> nat set \<Rightarrow> got_state \<Rightarrow> nat \<Rightarrow> nat set \<Rightarrow> got_per_bfd_arg \<times> got_state \<Rightarrow> bool" where
  "merge_inv own keys st0 limit finished a \<longleftrightarrow>
     (case a of (arg, st) \<Rightarrow>
        ents st = ents st0 \<and> syms st = syms st0 \<and> length (gots st) = length (gots st0)
        \<and> (max_count arg = limit \<and> map fst (bfd_map st) = map fst (bfd_map st0))
        \<and> (\<forall>b \<in> keys - finished. map_of (bfd_map st) b = Some (own b) \<and> gots st ! own b = gots st0 ! own b)
        \<and> (\<forall>b \<in> finished. \<exists>i. map_of (bfd_map st) b = Some i \<and> serves own st0 finished arg st b i)
        \<and> (\<forall>i. primary arg = Some i \<or> current arg = Some i \<longrightarrow> i \<in> own ` finished \<and> got_multi (gots st ! i)))"

lemma covers_cong: "ents st' = ents st \<Longrightarrow> covers_table st' f g = covers_table st f g"
  by (simp add: covers_table_def has_entry_def)

lemma has_entry_self: "p \<in> set (got_entries g) \<Longrightarrow> got_multi g \<Longrightarrow> has_entry st g p"
  unfolding has_entry_def got_eq_def by (rule bexI [of _ p]) (simp_all add: multi_eq_refl)

lemma has_pages_self: "e \<in> set (got_page_entries g) \<Longrightarrow> has_pages g e"
  unfolding has_pages_def mips_got_page_entry_eq_def by blast

lemma covers_self: "got_multi g \<Longrightarrow> covers_table st g g"
  by (simp add: covers_table_def has_entry_self has_pages_self)

lemma merge_invI:
  assumes "ents st = ents st0" "syms st = syms st0" "length (gots st) = length (gots st0)"
    "max_count arg = limit \<and> map fst (bfd_map st) = map fst (bfd_map st0)"
    and "\<And>b. b \<in> keys - finished \<Longrightarrow> map_of (bfd_map st) b = Some (own b) \<and> gots st ! own b = gots st0 ! own b"
    and "\<And>b. b \<in> finished \<Longrightarrow> \<exists>i. map_of (bfd_map st) b = Some i \<and> serves own st0 finished arg st b i"
    and "\<And>i. primary arg = Some i \<or> current arg = Some i \<Longrightarrow> i \<in> own ` finished \<and> got_multi (gots st ! i)"
  shows "merge_inv own keys st0 limit finished (arg, st)"
  unfolding merge_inv_def prod.case by (intro conjI assms(1-4) ballI allI impI) (simp_all add: assms(5-7))

lemma merge_invD:
  assumes "merge_inv own keys st0 limit finished (arg, st)"
  shows "ents st = ents st0" "syms st = syms st0" "length (gots st) = length (gots st0)"
    "max_count arg = limit \<and> map fst (bfd_map st) = map fst (bfd_map st0)"
    and "\<And>b. b \<in> keys - finished \<Longrightarrow> map_of (bfd_map st) b = Some (own b) \<and> gots st ! own b = gots st0 ! own b"
    and "\<And>b. b \<in> finished \<Longrightarrow> \<exists>i. map_of (bfd_map st) b = Some i \<and> serves own st0 finished arg st b i"
    and "\<And>i. primary arg = Some i \<or> current arg = Some i \<Longrightarrow> i \<in> own ` finished \<and> got_multi (gots st ! i)"
  using assms unfolding merge_inv_def prod.case by blast+

lemma own_tablesD:
  assumes "own_tables own keys st0" "b \<in> keys" "finished \<subseteq> keys" "b \<notin> finished"
  shows "own b \<noteq> 0" "own b < length (gots st0)" "own_table st0 b (gots st0 ! own b)" "own b \<notin> own ` finished"
    and "\<And>k. k \<in> keys \<Longrightarrow> k \<noteq> b \<Longrightarrow> own k \<noteq> own b"
  using assms unfolding own_tables_def inj_on_def by blast+

lemma inv_first:
  assumes inv: "merge_inv own keys st0 limit finished (arg, st)" and own: "own_tables own keys st0"
    and b: "b \<in> keys" "b \<notin> finished" "finished \<subseteq> keys"
    and arg': "arg' = arg\<lparr>primary := Some (own b)\<rparr> \<and> primary arg = None \<and> st' = st
      \<or> arg' = arg\<lparr>current := Some (own b)\<rparr> \<and> st' = upd_got (own b) (\<lambda>g. g\<lparr>got_next := n\<rparr>) st"
  shows "merge_inv own keys st0 limit (insert b finished) (arg', st')"
proof -
  note same = merge_invD(1-4) [OF inv] and todo = merge_invD(5) [OF inv] and old = merge_invD(6) [OF inv] and pc = merge_invD(7) [OF inv]
  note new = own_tablesD(4,5) [OF own b(1,3,2)] and tab = own_tablesD(3) [OF own b(1,3,2)]
  have ownb: "own b \<noteq> 0" "own b < length (gots st)"
    using own_tablesD(1,2) [OF own b(1,3,2)] same(3) by auto
  have st': "ents st' = ents st" "syms st' = syms st" "length (gots st') = length (gots st)" "bfd_map st' = bfd_map st"
    "\<And>i. i \<noteq> own b \<Longrightarrow> gots st' ! i = gots st ! i" "got_multi (gots st' ! own b) = got_multi (gots st ! own b)"
    "covers_table st0 g (gots st' ! own b) = covers_table st0 g (gots st ! own b)" for g
    using arg' ownb by (auto simp: upd_got_def bfd_map_def covers_table_def has_entry_def has_pages_def got_eq_def)
  have arg: "max_count arg' = max_count arg" "i \<noteq> own b \<Longrightarrow> slots arg' i g = slots arg i g" for i g
    using arg' by (elim disjE conjE; simp add: slots_def)+
  have here: "map_of (bfd_map st) b = Some (own b)" "gots st ! own b = gots st0 ! own b"
    using todo b by auto
  have others: "map_of (bfd_map st) k \<noteq> Some (own b)" if "k \<in> finished" for k
    using old [OF that] new(1) unfolding serves_def by auto
  have "serves own st0 (insert b finished) arg' st' b (own b)"
    using others st' here covers_self [of "gots st0 ! own b" st0] tab by (auto simp: serves_def own_table_def)
  moreover have "serves own st0 (insert b finished) arg' st' k i"
    if "k \<in> finished" "map_of (bfd_map st) k = Some i" "serves own st0 finished arg st k i" for k i
  proof -
    have "i \<noteq> own b"
      using that(3) new(1) unfolding serves_def by blast
    then show ?thesis
      using that(3) here st' arg by (auto simp: serves_def)
  qed
  moreover have "i \<in> own ` insert b finished \<and> got_multi (gots st' ! i)" if "primary arg' = Some i \<or> current arg' = Some i" for i
  proof (cases "i = own b")
    case True
    then show ?thesis
      using tab here st'(6) by (simp add: own_table_def)
  next
    case False
    then show ?thesis
      using that arg' pc [of i] st'(5) [of i] by auto
  qed
  moreover have "map_of (bfd_map st') k = Some (own k) \<and> gots st' ! own k = gots st0 ! own k" if "k \<in> keys - insert b finished" for k
    using todo [of k] that new(2) [of k] st'(4,5) by auto
  ultimately show ?thesis
    using same st'(1-4) arg(1) here(1) old by (intro merge_invI) (auto, blast+)
qed

lemma inv_merged:
  assumes inv: "merge_inv own keys st0 limit finished (arg, st)" and own: "own_tables own keys st0"
    and b: "b \<in> keys" "b \<notin> finished" "finished \<subseteq> keys"
    and to: "to \<in> own ` finished" "got_multi (gots st ! to)"
  shows "mips_elf_merge_got_with arg b (own b) to st = Some merge_overflow
    \<or> (\<exists>st'. mips_elf_merge_got_with arg b (own b) to st = Some (merged st')
         \<and> merge_inv own keys st0 limit (insert b finished) (arg, st'))"
proof -
  note same = merge_invD(1-4) [OF inv] and todo = merge_invD(5) [OF inv] and old = merge_invD(6) [OF inv] and pc = merge_invD(7) [OF inv]
  note new = own_tablesD(4,5) [OF own b(1,3,2)] and tab = own_tablesD(3) [OF own b(1,3,2)]
  have here: "map_of (bfd_map st) b = Some (own b)" "gots st ! own b = gots st0 ! own b"
    using todo [of b] b by auto
  obtain c where c: "c \<in> finished" "to = own c"
    using to(1) by auto
  have tab': "own_table st b (gots st ! own b)"
    using tab here(2) same(1,2) by (simp add: own_table_def within_def)
  have idx: "own b \<noteq> to" "own b \<noteq> 0" "to \<noteq> 0" "own b < length (gots st)" "to < length (gots st)"
    using own b c new(1) same(3) by (auto simp: own_tables_def)
  show ?thesis
  proof (cases rule: merge_got_with_spec [OF tab' here(1) idx to(2), of arg])
    case 1
    then show ?thesis ..
  next
    case (2 st')
    have grow: "covers_table st0 f (gots st ! to) \<Longrightarrow> covers_table st0 f (gots st' ! to)" for f
      by (rule covers_grows [OF 2(7)])
    have multi': "got_multi (gots st' ! to)"
      using 2(7) to(2) by (simp add: grows_def)
    have other: "gots st' ! i = gots st ! i" if "i \<in> own ` keys" "i \<noteq> own b" "i \<noteq> to" for i
      using that own by (intro 2(6)) (auto simp: own_tables_def)
    have map': "map_of (bfd_map st') k = (if k = b then Some to else map_of (bfd_map st) k)" for k
      using here(1) by (simp add: 2(5) map_of_rebind)
    have "covers_table st0 (gots st0 ! own b) (gots st' ! to)"
      using 2(8) here(2) covers_cong [OF same(1)] by simp
    then have "serves own st0 (insert b finished) arg st' b to"
      using 2(9) to(1) multi' by (simp add: serves_def)
    moreover have "serves own st0 (insert b finished) arg st' k i"
      if k: "k \<in> finished" "map_of (bfd_map st) k = Some i" "serves own st0 finished arg st k i" for k i
    proof (cases "i = to")
      case True
      then show ?thesis
        using k(3) grow 2(9) multi' by (simp add: serves_def)
    next
      case False
      have i: "i \<in> own ` finished" "i \<noteq> own b" "i \<in> own ` keys"
        using k(3) new(1) b(3) unfolding serves_def by blast+
      then show ?thesis
        using k(3) False other [OF i(3,2) False] by (auto simp: serves_def map')
    qed
    ultimately have served: "\<exists>i. map_of (bfd_map st') k = Some i \<and> serves own st0 (insert b finished) arg st' k i"
      if "k \<in> insert b finished" for k
      using that old [of k] by (cases "k = b") (auto simp: map')
    have "map_of (bfd_map st') k = Some (own k) \<and> gots st' ! own k = gots st0 ! own k" if "k \<in> keys - insert b finished" for k
    proof -
      have "own k \<noteq> to"
        using that c b(3) own unfolding own_tables_def inj_on_def by blast
      then show ?thesis
        using that todo [of k] new(2) [of k] other [of "own k"] by (simp add: map')
    qed
    moreover have "i \<in> own ` insert b finished \<and> got_multi (gots st' ! i)" if "primary arg = Some i \<or> current arg = Some i" for i
    proof (cases "i = to")
      case True
      then show ?thesis
        using to(1) multi' by simp
    next
      case False
      have "i \<in> own ` finished" "got_multi (gots st ! i)"
        using pc [OF that] by auto
      moreover from this have "i \<noteq> own b" "i \<in> own ` keys"
        using new(1) b(3) by blast+
      ultimately show ?thesis
        using other [of i] False by simp
    qed
    ultimately have "merge_inv own keys st0 limit (insert b finished) (arg, st')"
      using same 2(2-5) served by (intro merge_invI) simp_all
    then show ?thesis
      using 2(1) by blast
  qed
qed

lemma merge_step:
  assumes inv: "merge_inv own keys st0 limit finished (arg, st)" and own: "own_tables own keys st0"
    and b: "b \<in> keys" "b \<notin> finished" "finished \<subseteq> keys"
  shows "\<exists>a'. mips_elf_merge_gots b (arg, st) = Some a' \<and> merge_inv own keys st0 limit (insert b finished) a'"
proof -
  have here: "map_of (bfd_map st) b = Some (own b)"
    using merge_invD(5) [OF inv, of b] b by auto
  have into: "mips_elf_merge_got_with arg b (own b) to st = Some merge_overflow
    \<or> (\<exists>st'. mips_elf_merge_got_with arg b (own b) to st = Some (merged st')
         \<and> merge_inv own keys st0 limit (insert b finished) (arg, st'))"
    if "primary arg = Some to \<or> current arg = Some to" for to
    using merge_invD(7) [OF inv that] by (intro inv_merged [OF inv own b]) auto
  have cur: "\<exists>a'. merge_with_current arg b (own b) st = Some a' \<and> merge_inv own keys st0 limit (insert b finished) a'"
  proof -
    have "merge_inv own keys st0 limit (insert b finished)
        (arg\<lparr>current := Some (own b)\<rparr>, upd_got (own b) (\<lambda>g. g\<lparr>got_next := current arg\<rparr>) st)"
      by (rule inv_first [OF inv own b]) blast
    then show ?thesis
      using into [of "the (current arg)"] by (cases "current arg") (auto simp: merge_with_current_def)
  qed
  show ?thesis
  proof (cases "primary arg")
    case None
    have "merge_inv own keys st0 limit (insert b finished) (arg\<lparr>primary := Some (own b)\<rparr>, st)"
      by (rule inv_first [OF inv own b]) (use None in blast)
    then show ?thesis
      using None here cur by (simp add: mips_elf_merge_gots_def Let_def)
  next
    case (Some pr)
    show ?thesis
      using Some here cur into [of pr] by (auto simp: mips_elf_merge_gots_def Let_def)
  qed
qed

lemma merge_all:
  assumes own: "own_tables own keys st0" and "merge_inv own keys st0 limit finished a"
    and "set bs \<inter> finished = {}" "distinct bs" "set bs \<union> finished = keys"
  shows "\<exists>a'. fold_opt mips_elf_merge_gots bs a = Some a' \<and> merge_inv own keys st0 limit keys a'"
  using assms(2-)
proof (induction bs arbitrary: finished a)
  case (Cons b bs)
  obtain arg st where a: "a = (arg, st)"
    by force
  obtain a' where a': "mips_elf_merge_gots b a = Some a'" "merge_inv own keys st0 limit (insert b finished) a'"
    using merge_step [OF Cons.prems(1) [unfolded a] own, of b] Cons.prems(2-4) a by auto
  have "set bs \<inter> insert b finished = {}" "distinct bs" "set bs \<union> insert b finished = keys"
    using Cons.prems(2-4) by auto
  then show ?case
    using Cons.IH [OF a'(2)] a'(1) by simp
qed simp

section \<open>Building the tables\<close>

text \<open>While the master table is traversed: every BFD met has a table of its own.\<close>

definition built :: "got_state \<Rightarrow> got_state \<Rightarrow> bool" where
  "built st0 st \<longleftrightarrow>
     ents st = ents st0 \<and> syms st = syms st0 \<and> gots st \<noteq> [] \<and> gots st ! 0 = (gots st0 ! 0)\<lparr>bfd2got := Some (bfd_map st)\<rparr>
     \<and> distinct (map fst (bfd_map st)) \<and> distinct (map snd (bfd_map st))
     \<and> (\<forall>(b, g) \<in> set (bfd_map st). g \<noteq> 0 \<and> g < length (gots st) \<and> own_table st0 b (gots st ! g))"

definition extends :: "got_state \<Rightarrow> got_state \<Rightarrow> bool" where
  "extends st st' \<longleftrightarrow>
     (\<forall>b g. map_of (bfd_map st) b = Some g \<longrightarrow> map_of (bfd_map st') b = Some g
        \<and> set (got_entries (gots st ! g)) \<subseteq> set (got_entries (gots st' ! g))
        \<and> set (got_page_entries (gots st ! g)) \<subseteq> set (got_page_entries (gots st' ! g))
        \<and> got_multi (gots st' ! g) = got_multi (gots st ! g))"

lemma extends_trans: "extends st st' \<Longrightarrow> extends st' st'' \<Longrightarrow> extends st st''"
  unfolding extends_def by (meson subset_trans)

lemma own_table_new: "own_table st b (new_got_info n)"
  by (simp add: own_table_def new_got_info_def within_def)

lemma built_get:
  assumes inv: "built st0 st"
  obtains gi st' where "mips_elf_get_got_for_bfd b st = (gi, st')" "built st0 st'" "extends st st'"
    "map_of (bfd_map st') b = Some gi" "gi \<noteq> 0" "gi < length (gots st')" "own_table st0 b (gots st' ! gi)"
proof (cases "map_of (bfd_map st) b")
  case (Some gi)
  then have "(b, gi) \<in> set (bfd_map st)"
    by (rule map_of_SomeD)
  then have "gi \<noteq> 0" "gi < length (gots st)" "own_table st0 b (gots st ! gi)"
    using inv by (auto simp: built_def)
  moreover have "extends st st"
    by (simp add: extends_def)
  ultimately show thesis
    using inv Some by (intro that [of gi st]) (simp_all add: mips_elf_get_got_for_bfd_def)
next
  case None
  let ?n = "length (gots st)" and ?g = "new_got_info (unsigned_minus 0 1)"
  define st' where "st' = set_bfd_map (bfd_map st @ [(b, ?n)]) (st\<lparr>gots := gots st @ [?g]\<rparr>)"
  have n: "0 < ?n"
    using inv by (simp add: built_def)
  have map': "bfd_map st' = bfd_map st @ [(b, ?n)]"
    unfolding st'_def by (rule bfd_map_set) simp
  have gots': "gots st' ! i = (if i = ?n then ?g else gots st ! i)" if "i \<noteq> 0" "i \<le> ?n" for i
    using that by (auto simp: st'_def set_bfd_map_other nth_append)
  have zero: "gots st' ! 0 = (gots st0 ! 0)\<lparr>bfd2got := Some (bfd_map st')\<rparr>"
    unfolding map' using inv n by (simp add: st'_def set_bfd_map_def upd_got_def nth_append built_def)
  have notin: "b \<notin> set (map fst (bfd_map st))"
    using None by (simp add: map_of_eq_None_iff)
  have old: "g \<noteq> 0 \<and> g < ?n \<and> own_table st0 k (gots st ! g)" if "(k, g) \<in> set (bfd_map st)" for k g
    using inv that by (auto simp: built_def)
  have len': "length (gots st') = Suc ?n"
    by (simp add: st'_def)
  have "?n \<notin> set (map snd (bfd_map st))"
    using old by fastforce
  then have "distinct (map fst (bfd_map st'))" "distinct (map snd (bfd_map st'))"
    using inv notin by (simp_all add: built_def map')
  moreover have "g \<noteq> 0 \<and> g < length (gots st') \<and> own_table st0 k (gots st' ! g)" if "(k, g) \<in> set (bfd_map st')" for k g
    using that old [of k g] gots' [of g] n len' own_table_new [of st0] by (auto simp: map')
  moreover have "gots st' \<noteq> []"
    using len' by auto
  ultimately have "built st0 st'"
    using inv zero by (auto simp: built_def st'_def)
  moreover have "extends st st'"
  proof -
    have "map_of (bfd_map st') k = Some g \<and> gots st' ! g = gots st ! g" if "map_of (bfd_map st) k = Some g" for k g
      using that old [OF map_of_SomeD [OF that]] gots' [of g] by (auto simp: map')
    then show ?thesis
      by (simp add: extends_def)
  qed
  moreover have "map_of (bfd_map st') b = Some ?n"
    using None by (simp add: map' map_add_def)
  moreover have "gots st' ! ?n = ?g"
    using gots' [of ?n] n by simp
  ultimately show thesis
    using None n len' own_table_new [of st0 b] by (intro that [of ?n st']) (simp_all add: mips_elf_get_got_for_bfd_def st'_def)
qed

lemma built_upd:
  assumes inv: "built st0 st" and g: "map_of (bfd_map st) b = Some gi" "own_table st0 b g'"
    and sub: "set (got_entries (gots st ! gi)) \<subseteq> set (got_entries g')"
      "set (got_page_entries (gots st ! gi)) \<subseteq> set (got_page_entries g')"
  shows "built st0 (with_got st gi g') \<and> extends st (with_got st gi g')"
proof -
  have gi: "gi \<noteq> 0" "gi < length (gots st)" "own_table st0 b (gots st ! gi)"
    using inv map_of_SomeD [OF g(1)] by (auto simp: built_def)
  have "inj_on snd (set (bfd_map st))"
    using inv by (simp add: built_def distinct_map)
  then have only: "k = b" if "(k, gi) \<in> set (bfd_map st)" for k
    using inj_onD [OF _ _ that map_of_SomeD [OF g(1)], of snd] by simp
  have map': "bfd_map (with_got st gi g') = bfd_map st"
    by (rule bfd_map_with_got [OF gi(1)])
  have "own_table st0 k (gots (with_got st gi g') ! g)" if "(k, g) \<in> set (bfd_map st)" for k g
    using that inv g(2) only [of k] gi(2) by (cases "g = gi") (auto simp: built_def)
  then have "built st0 (with_got st gi g')"
    using inv gi(1) unfolding built_def map' by fastforce
  moreover have "extends st (with_got st gi g')"
    unfolding extends_def map' using gi sub g(2) by (auto simp: own_table_def nth_list_update)
  ultimately show ?thesis ..
qed

lemma count_got_entry_cong: "syms st' = syms st \<Longrightarrow> count_got_entry st' e g = count_got_entry st e g"
  by (simp add: count_got_entry_def)

lemma own_table_add:
  assumes "own_table st b g" "ge_abfd (ents st ! p) = Some b"
  shows "own_table st b (count_got_entry st (ents st ! p) (g\<lparr>got_entries := got_entries g @ [p]\<rparr>))"
  using assms by (auto simp: own_table_def within_def count_got_entry_fields)

lemma own_table_add_pages:
  assumes "own_table st b g" "pe_abfd e = b"
  shows "own_table st b (g\<lparr>got_page_entries := got_page_entries g @ [e], page_gotno := page_gotno g + nat (num_pages e)\<rparr>)"
  using assms by (auto simp: own_table_def within_def)

lemma make_got_built:
  assumes inv: "built st0 st" and b: "ge_abfd (ents st0 ! p) = Some b"
  shows "\<exists>st' gi. mips_elf_make_got_per_bfd p st = Some st' \<and> built st0 st' \<and> extends st st'
    \<and> map_of (bfd_map st') b = Some gi \<and> has_entry st0 (gots st' ! gi) p"
proof (rule built_get [OF inv, of b])
  fix gi st1
  assume get: "mips_elf_get_got_for_bfd b st = (gi, st1)" "built st0 st1" "extends st st1"
    "map_of (bfd_map st1) b = Some gi" "gi \<noteq> 0" "gi < length (gots st1)" "own_table st0 b (gots st1 ! gi)"
  let ?g = "gots st1 ! gi" and ?e = "ents st0 ! p"
  have same: "ents st = ents st0" "ents st1 = ents st0" "syms st1 = syms st0"
    using inv get(2) by (simp_all add: built_def)
  have multi: "got_multi ?g"
    using get(7) by (simp add: own_table_def)
  show ?thesis
  proof (cases "has_entry st1 ?g p")
    case True
    then have "mips_elf_make_got_per_bfd p st = Some st1"
      using b get(1) same has_entry_find [of st1 ?g p] by (simp add: mips_elf_make_got_per_bfd_def)
    then show ?thesis
      using get True has_entry_cong [OF same(2)] by blast
  next
    case False
    let ?g' = "count_got_entry st0 ?e (?g\<lparr>got_entries := got_entries ?g @ [p]\<rparr>)"
    have "mips_elf_make_got_per_bfd p st = Some (with_got st1 gi ?g')"
      using b get(1) same False has_entry_find [of st1 ?g p] count_got_entry_cong [OF same(3)]
      by (simp add: mips_elf_make_got_per_bfd_def upd_got_def)
    moreover have "built st0 (with_got st1 gi ?g') \<and> extends st1 (with_got st1 gi ?g')"
      by (rule built_upd [OF get(2,4) own_table_add [OF get(7) b]]) (auto simp: count_got_entry_fields)
    moreover have "has_entry st0 ?g' p"
      by (rule has_entry_self) (simp_all add: count_got_entry_fields multi)
    ultimately show ?thesis
      using get(3-6) extends_trans [OF get(3)] bfd_map_with_got [OF get(5)]
      by (intro exI [of _ "with_got st1 gi ?g'"] exI [of _ gi]) simp
  qed
qed

lemma make_pages_built:
  assumes inv: "built st0 st"
  shows "\<exists>gi. built st0 (mips_elf_make_got_pages_per_bfd e st) \<and> extends st (mips_elf_make_got_pages_per_bfd e st)
    \<and> map_of (bfd_map (mips_elf_make_got_pages_per_bfd e st)) (pe_abfd e) = Some gi
    \<and> has_pages (gots (mips_elf_make_got_pages_per_bfd e st) ! gi) e"
proof (rule built_get [OF inv, of "pe_abfd e"])
  fix gi st1
  assume get: "mips_elf_get_got_for_bfd (pe_abfd e) st = (gi, st1)" "built st0 st1" "extends st st1"
    "map_of (bfd_map st1) (pe_abfd e) = Some gi" "gi \<noteq> 0" "gi < length (gots st1)" "own_table st0 (pe_abfd e) (gots st1 ! gi)"
  let ?g = "gots st1 ! gi"
  show ?thesis
  proof (cases "has_pages ?g e")
    case True
    then have "mips_elf_make_got_pages_per_bfd e st = st1"
      using get(1) by (simp add: mips_elf_make_got_pages_per_bfd_def has_pages_def list_ex_iff)
    then show ?thesis
      using get True by auto
  next
    case False
    let ?g' = "?g\<lparr>got_page_entries := got_page_entries ?g @ [e], page_gotno := page_gotno ?g + nat (num_pages e)\<rparr>"
    have r: "mips_elf_make_got_pages_per_bfd e st = with_got st1 gi ?g'"
      using get(1) False by (simp add: mips_elf_make_got_pages_per_bfd_def has_pages_def list_ex_iff upd_got_def)
    have "built st0 (with_got st1 gi ?g') \<and> extends st1 (with_got st1 gi ?g')"
      by (rule built_upd [OF get(2,4) own_table_add_pages [OF get(7) refl]]) auto
    moreover have "has_pages ?g' e"
      by (rule has_pages_self) simp
    ultimately show ?thesis
      unfolding r using get(3-6) extends_trans [OF get(3)] bfd_map_with_got [OF get(5)]
      by (intro exI [of _ gi]) simp
  qed
qed

lemma extends_entry:
  assumes "extends st st'" "map_of (bfd_map st) b = Some gi"
  shows "map_of (bfd_map st') b = Some gi" "has_entry st0 (gots st ! gi) p \<Longrightarrow> has_entry st0 (gots st' ! gi) p"
    and "has_pages (gots st ! gi) e \<Longrightarrow> has_pages (gots st' ! gi) e"
  using assms unfolding extends_def has_entry_def has_pages_def got_eq_def by (blast, fastforce, blast)

lemma make_gots_built:
  assumes "built st0 st" "\<forall>p \<in> set ps. ge_abfd (ents st0 ! p) \<noteq> None"
  shows "\<exists>st'. fold_opt mips_elf_make_got_per_bfd ps st = Some st' \<and> built st0 st' \<and> extends st st'
    \<and> (\<forall>p \<in> set ps. \<exists>gi. map_of (bfd_map st') (the (ge_abfd (ents st0 ! p))) = Some gi \<and> has_entry st0 (gots st' ! gi) p)"
  using assms
proof (induction ps arbitrary: st)
  case Nil
  then show ?case by (simp add: extends_def)
next
  case (Cons p ps)
  obtain b where b: "ge_abfd (ents st0 ! p) = Some b"
    using Cons.prems(2) by auto
  obtain st1 gi where 1: "mips_elf_make_got_per_bfd p st = Some st1" "built st0 st1" "extends st st1"
    "map_of (bfd_map st1) b = Some gi" "has_entry st0 (gots st1 ! gi) p"
    using make_got_built [OF Cons.prems(1) b] by blast
  obtain st2 where 2: "fold_opt mips_elf_make_got_per_bfd ps st1 = Some st2" "built st0 st2" "extends st1 st2"
    "\<forall>p \<in> set ps. \<exists>gi. map_of (bfd_map st2) (the (ge_abfd (ents st0 ! p))) = Some gi \<and> has_entry st0 (gots st2 ! gi) p"
    using Cons.IH [OF 1(2)] Cons.prems(2) by auto
  have "\<exists>gi. map_of (bfd_map st2) (the (ge_abfd (ents st0 ! p))) = Some gi \<and> has_entry st0 (gots st2 ! gi) p"
    using extends_entry(1,2) [OF 2(3) 1(4)] 1(5) b by auto
  then show ?case
    using 1(1) 2 extends_trans [OF 1(3) 2(3)] by simp
qed

lemma make_all_pages_built:
  assumes "built st0 st"
  shows "built st0 (fold mips_elf_make_got_pages_per_bfd pes st) \<and> extends st (fold mips_elf_make_got_pages_per_bfd pes st)
    \<and> (\<forall>e \<in> set pes. \<exists>gi. map_of (bfd_map (fold mips_elf_make_got_pages_per_bfd pes st)) (pe_abfd e) = Some gi
         \<and> has_pages (gots (fold mips_elf_make_got_pages_per_bfd pes st) ! gi) e)"
  using assms
proof (induction pes arbitrary: st)
  case Nil
  then show ?case by (simp add: extends_def)
next
  case (Cons e pes)
  let ?st1 = "mips_elf_make_got_pages_per_bfd e st"
  obtain gi where 1: "built st0 ?st1" "extends st ?st1" "map_of (bfd_map ?st1) (pe_abfd e) = Some gi" "has_pages (gots ?st1 ! gi) e"
    using make_pages_built [OF Cons.prems] by blast
  note 2 = Cons.IH [OF 1(1)]
  then have "extends ?st1 (fold mips_elf_make_got_pages_per_bfd pes ?st1)"
    by blast
  then show ?case
    using 2 extends_trans [OF 1(2)] extends_entry(1,3) [OF _ 1(3)] 1(4) by auto
qed

section \<open>Partitioning\<close>

lemma multi_eq_trans:
  "mips_elf_multi_got_entry_eq a b \<Longrightarrow> mips_elf_multi_got_entry_eq b c \<Longrightarrow> mips_elf_multi_got_entry_eq a c"
  unfolding mips_elf_multi_got_entry_eq_def ldm_tests by (auto split: if_splits)

lemma covers_entry: "covers_table st f g \<Longrightarrow> got_multi f \<Longrightarrow> got_multi g \<Longrightarrow> has_entry st f p \<Longrightarrow> has_entry st g p"
  unfolding covers_table_def has_entry_def got_eq_def using multi_eq_trans by fastforce

lemma covers_pages: "covers_table st f g \<Longrightarrow> has_pages f e \<Longrightarrow> has_pages g e"
  unfolding covers_table_def has_pages_def mips_got_page_entry_eq_def by fastforce

lemma merge_gots_limits:
  "mips_elf_merge_gots b (arg, st) = Some (arg', st') \<Longrightarrow> max_pages arg' = max_pages arg \<and> global_count arg' = global_count arg"
  by (auto simp: mips_elf_merge_gots_def merge_with_current_def Let_def split: option.splits merge_result.splits if_splits)

lemma merge_all_limits:
  "fold_opt mips_elf_merge_gots bs (arg, st) = Some (arg', st') \<Longrightarrow> max_pages arg' = max_pages arg \<and> global_count arg' = global_count arg"
  by (induction bs arbitrary: arg st) (auto split: option.splits dest!: merge_gots_limits)

text \<open>The per-BFD tables before they are merged.\<close>

lemma tables_built:
  assumes "gots st \<noteq> []" "\<forall>p \<in> set (got_entries (gots st ! 0)). ge_abfd (ents st ! p) \<noteq> None"
  obtains st2 st3 where "fold_opt mips_elf_make_got_per_bfd (got_entries (gots st ! 0)) (set_bfd_map [] st) = Some st2"
    "st3 = fold mips_elf_make_got_pages_per_bfd (got_page_entries (gots st2 ! 0)) st2" "built st st3"
    "got_page_entries (gots st2 ! 0) = got_page_entries (gots st ! 0)"
    "\<And>p. p \<in> set (got_entries (gots st ! 0)) \<Longrightarrow>
       \<exists>gi. map_of (bfd_map st3) (the (ge_abfd (ents st ! p))) = Some gi \<and> has_entry st (gots st3 ! gi) p"
    "\<And>e. e \<in> set (got_page_entries (gots st ! 0)) \<Longrightarrow>
       \<exists>gi. map_of (bfd_map st3) (pe_abfd e) = Some gi \<and> has_pages (gots st3 ! gi) e"
proof -
  have len: "0 < length (gots st)"
    using assms(1) by simp
  have "gots (set_bfd_map [] st) ! 0 = (gots st ! 0)\<lparr>bfd2got := Some []\<rparr>" "gots (set_bfd_map [] st) \<noteq> []"
    using len by (simp_all add: set_bfd_map_def upd_got_def)
  then have "built st (set_bfd_map [] st)"
    by (simp add: built_def bfd_map_set [OF len])
  then obtain st2 where 2: "fold_opt mips_elf_make_got_per_bfd (got_entries (gots st ! 0)) (set_bfd_map [] st) = Some st2"
    "built st st2"
    "\<forall>p \<in> set (got_entries (gots st ! 0)). \<exists>gi. map_of (bfd_map st2) (the (ge_abfd (ents st ! p))) = Some gi \<and> has_entry st (gots st2 ! gi) p"
    using make_gots_built [OF _ assms(2)] by blast
  have pages: "got_page_entries (gots st2 ! 0) = got_page_entries (gots st ! 0)"
    using 2(2) by (simp add: built_def)
  note 3 = make_all_pages_built [OF 2(2), of "got_page_entries (gots st ! 0)"]
  show thesis
    by (rule that [OF 2(1) refl _ pages]; unfold pages)
      (use 2(3) 3 extends_entry(1,2) in blast)+
qed

lemma built_own:
  assumes "built st st3"
  defines "own \<equiv> (\<lambda>b. the (map_of (bfd_map st3) b))"
  shows "own_tables own (set (map fst (bfd_map st3))) st3"
    and "merge_inv own (set (map fst (bfd_map st3))) st3 limit {}
      (\<lparr>primary = None, current = None, max_count = limit, max_pages = pages, global_count = gc\<rparr>, st3)"
proof -
  have at: "(b, own b) \<in> set (bfd_map st3) \<and> map_of (bfd_map st3) b = Some (own b)" if b: "b \<in> set (map fst (bfd_map st3))" for b
  proof -
    obtain gi where "map_of (bfd_map st3) b = Some gi"
      using b map_of_eq_None_iff [of "bfd_map st3" b] by (cases "map_of (bfd_map st3) b") auto
    then show ?thesis
      using map_of_SomeD by (fastforce simp: own_def)
  qed
  have "inj_on snd (set (bfd_map st3))"
    using assms(1) by (simp add: built_def distinct_map)
  then have "inj_on own (set (map fst (bfd_map st3)))"
    using at by (intro inj_onI) (metis inj_onD snd_conv fst_conv)
  moreover have "own b \<noteq> 0 \<and> own b < length (gots st3) \<and> own_table st3 b (gots st3 ! own b)"
    if "b \<in> set (map fst (bfd_map st3))" for b
    using at [OF that] assms(1) by (auto simp: built_def own_table_def within_def)
  ultimately show "own_tables own (set (map fst (bfd_map st3))) st3"
    by (simp add: own_tables_def)
  show "merge_inv own (set (map fst (bfd_map st3))) st3 limit {}
      (\<lparr>primary = None, current = None, max_count = limit, max_pages = pages, global_count = gc\<rparr>, st3)"
    using at by (intro merge_invI) simp_all
qed

text \<open>
  C11.  Partitioning the global offset table always succeeds and loses nothing:
  every entry and every page entry of the master table has a match in the table
  its BFD uses, and a table that serves more than one BFD needs no more slots
  than a 16-bit offset from its own GP value reaches.
\<close>

theorem partition_gots_fit:
  assumes "gots st \<noteq> []" "\<forall>p \<in> set (got_entries (gots st ! 0)). ge_abfd (ents st ! p) \<noteq> None"
  shows "\<exists>arg st'. partition_gots info abfd reserved pages st = Some (arg, st')
    \<and> max_count arg = MIPS_ELF_GOT_MAX_SIZE info div MIPS_ELF_GOT_SIZE abfd - reserved \<and> max_pages arg = pages
    \<and> (\<forall>p \<in> set (got_entries (gots st ! 0)). \<exists>gi. map_of (bfd_map st') (the (ge_abfd (ents st ! p))) = Some gi
         \<and> htab_find st' (gots st' ! gi) (ents st ! p) \<noteq> None)
    \<and> (\<forall>e \<in> set (got_page_entries (gots st ! 0)). \<exists>gi. map_of (bfd_map st') (pe_abfd e) = Some gi \<and> has_pages (gots st' ! gi) e)
    \<and> (\<forall>b gi. map_of (bfd_map st') b = Some gi \<longrightarrow> slots arg gi (gots st' ! gi) \<le> max_count arg
         \<or> (\<forall>b'. map_of (bfd_map st') b' = Some gi \<longrightarrow> b' = b))"
proof (rule tables_built [OF assms])
  fix st2 st3
  assume 2: "fold_opt mips_elf_make_got_per_bfd (got_entries (gots st ! 0)) (set_bfd_map [] st) = Some st2"
    and 3: "st3 = fold mips_elf_make_got_pages_per_bfd (got_page_entries (gots st2 ! 0)) st2" "built st st3"
    and ents: "\<And>p. p \<in> set (got_entries (gots st ! 0)) \<Longrightarrow>
       \<exists>gi. map_of (bfd_map st3) (the (ge_abfd (ents st ! p))) = Some gi \<and> has_entry st (gots st3 ! gi) p"
    and pgs: "\<And>e. e \<in> set (got_page_entries (gots st ! 0)) \<Longrightarrow>
       \<exists>gi. map_of (bfd_map st3) (pe_abfd e) = Some gi \<and> has_pages (gots st3 ! gi) e"
  define limit where "limit = MIPS_ELF_GOT_MAX_SIZE info div MIPS_ELF_GOT_SIZE abfd - reserved"
  let ?keys = "set (map fst (bfd_map st3))" and ?own = "\<lambda>b. the (map_of (bfd_map st3) b)"
  let ?arg0 = "\<lparr>primary = None, current = None, max_count = limit, max_pages = pages, global_count = global_gotno (gots st3 ! 0)\<rparr>"
  have same: "ents st3 = ents st"
    using 3(2) by (simp add: built_def)
  have "distinct (map fst (bfd_map st3))"
    using 3(2) by (simp add: built_def)
  then obtain arg st' where m: "fold_opt mips_elf_merge_gots (map fst (bfd_map st3)) (?arg0, st3) = Some (arg, st')"
    "merge_inv ?own ?keys st3 limit ?keys (arg, st')"
    using merge_all [OF built_own(1) [OF 3(2)] built_own(2) [OF 3(2), of limit pages "global_gotno (gots st3 ! 0)"],
        of "map fst (bfd_map st3)"] by auto
  note inv = merge_invD [OF m(2)]
  have served: "\<exists>gi. map_of (bfd_map st') b = Some gi \<and> serves ?own st3 ?keys arg st' b gi
      \<and> covers_table st (gots st3 ! g) (gots st' ! gi) \<and> got_multi (gots st3 ! g)"
    if "map_of (bfd_map st3) b = Some g" for b g
  proof -
    have "b \<in> ?keys" "own_table st b (gots st3 ! g)"
      using map_of_SomeD [OF that] 3(2) by (force simp: built_def)+
    then show ?thesis
      using inv(6) [of b] that covers_cong [OF same] by (auto simp: serves_def own_table_def)
  qed
  have "\<exists>gi. map_of (bfd_map st') (the (ge_abfd (ents st ! p))) = Some gi \<and> htab_find st' (gots st' ! gi) (ents st ! p) \<noteq> None"
    if p: "p \<in> set (got_entries (gots st ! 0))" for p
  proof -
    obtain g where g: "map_of (bfd_map st3) (the (ge_abfd (ents st ! p))) = Some g" "has_entry st (gots st3 ! g) p"
      using ents [OF p] by blast
    obtain gi where gi: "map_of (bfd_map st') (the (ge_abfd (ents st ! p))) = Some gi" "got_multi (gots st' ! gi)"
      "covers_table st (gots st3 ! g) (gots st' ! gi)" "got_multi (gots st3 ! g)"
      using served [OF g(1)] unfolding serves_def by blast
    have "has_entry st (gots st' ! gi) p"
      by (rule covers_entry [OF gi(3,4,2) g(2)])
    then show ?thesis
      using gi(1) has_entry_find [of st' "gots st' ! gi" p] has_entry_cong [of st' st] inv(1) same by simp
  qed
  moreover have "\<exists>gi. map_of (bfd_map st') (pe_abfd e) = Some gi \<and> has_pages (gots st' ! gi) e"
    if e: "e \<in> set (got_page_entries (gots st ! 0))" for e
    using pgs [OF e] served covers_pages by blast
  moreover have "slots arg gi (gots st' ! gi) \<le> max_count arg \<or> (\<forall>b'. map_of (bfd_map st') b' = Some gi \<longrightarrow> b' = b)"
    if "map_of (bfd_map st') b = Some gi" for b gi
  proof -
    have keys: "b' \<in> ?keys" if "map_of (bfd_map st') b' = Some gi" for b'
      using map_of_SomeD [OF that] inv(4) by (metis fst_conv image_eqI set_map)
    then show ?thesis
      using inv(6) [OF keys [OF that]] that by (auto simp: serves_def)
  qed
  moreover have "partition_gots info abfd reserved pages st = Some (arg, st')"
    using 2 m(1) by (simp add: partition_gots_def 3(1) limit_def Let_def)
  ultimately show ?thesis
    using inv(4) merge_all_limits [OF m(1)] unfolding limit_def by (intro exI [of _ arg] exI [of _ st']) simp
qed

text \<open>Two BFDs that refer to the same thread-local symbol in different ways.\<close>

definition split_got :: got_state where
  "split_got = example_got\<lparr>ents := [\<lparr>ge_abfd = Some 4, ge_symndx = -1, ge_d = D_h 3, ge_tls_type = GOT_TLS_GD, gotidx = -1\<rparr>,
       \<lparr>ge_abfd = Some 5, ge_symndx = -1, ge_d = D_h 3, ge_tls_type = GOT_TLS_IE, gotidx = -1\<rparr>],
     gots := [(gots example_got ! 0)\<lparr>got_entries := [0, 1]\<rparr>], syms := \<lambda>_. example_sym\<rparr>"

theorem partition_gots_fit_witness:
  "\<exists>arg st' gi. partition_gots example_info le_bfd 2 0 split_got = Some (arg, st') \<and> max_count arg = 16377
     \<and> map_of (bfd_map st') 5 = Some gi \<and> htab_find st' (gots st' ! gi) (ents split_got ! 1) \<noteq> None"
  using partition_gots_fit [of split_got example_info le_bfd 2 0]
  by (auto simp: split_got_def example_got_def MIPS_ELF_GOT_MAX_SIZE_def MIPS_ELF_GOT_SIZE_def ABI_64_P_def le_bfd_def example_info_def)

text \<open>
  C35.  When the table of one BFD already has a general-dynamic entry for a symbol,
  merging an initial-exec entry of another BFD for the same symbol reserves
  no slot: the table stays as it is, the search for the initial-exec entry
  finds the general-dynamic one, which owns two slots, and an initial-exec
  relocation is then given the index of the slot after these two.
\<close>

theorem merged_tls_slot_lost:
  assumes p: "ents st ! p = \<lparr>ge_abfd = Some b, ge_symndx = -1, ge_d = D_h h, ge_tls_type = GOT_TLS_GD, gotidx = i\<rparr>"
    and q: "ents st ! q = \<lparr>ge_abfd = Some c, ge_symndx = -1, ge_d = D_h h, ge_tls_type = GOT_TLS_IE, gotidx = j\<rparr>"
    and table: "map_of (bfd_map st) c = Some gi" "got_multi (gots st ! gi)" "got_entries (gots st ! gi) = [p]"
    and reloc: "tls_index_of_entry abfd p R_MIPS_TLS_GOTTPREL info (Some h) val st = Some (idx, st')"
  shows "mips_elf_make_got_per_bfd q st = Some st \<and> htab_find st (gots st ! gi) (ents st ! q) = Some p
    \<and> tls_words (ge_tls_type (ents st ! p)) = 2 \<and> idx = of_int i + of_nat (2 * MIPS_ELF_GOT_SIZE abfd)"
proof -
  have "mips_elf_multi_got_entry_eq (ents st ! p) (ents st ! q)"
    by (simp add: p q mips_elf_multi_got_entry_eq_def)
  then have find: "htab_find st (gots st ! gi) (ents st ! q) = Some p"
    using table(2,3) by (simp add: htab_find_def got_eq_def)
  then have "mips_elf_make_got_per_bfd q st = Some st"
    using table(1) by (simp add: mips_elf_make_got_per_bfd_def mips_elf_get_got_for_bfd_def q)
  moreover have "idx = of_int i + of_nat (2 * MIPS_ELF_GOT_SIZE abfd)"
    using reloc by (auto simp: tls_index_of_entry_def mips_tls_got_index_def p tls_gottprel_reloc_p_def split: option.splits
        dest!: initialize_type)
  ultimately show ?thesis
    using find by (simp add: p tls_words_def)
qed

definition merged_got :: got_state where
  "merged_got = split_got\<lparr>ents := (ents split_got)[0 := (ents split_got ! 0)\<lparr>gotidx := 8\<rparr>],
     gots := [(gots example_got ! 0)\<lparr>bfd2got := Some [(4, 1), (5, 1)]\<rparr>,
              (gots example_got ! 0)\<lparr>got_multi := True, tls_gotno := 2, got_entries := [0]\<rparr>]\<rparr>"

theorem merged_tls_slot_lost_witness:
  "mips_elf_make_got_per_bfd 1 merged_got = Some merged_got
   \<and> (\<exists>st'. tls_index_of_entry le_bfd 0 R_MIPS_TLS_GOTTPREL tls_info (Some 3) 0x420010 merged_got = Some (16, st'))"
proof -
  obtain idx st' where r: "tls_index_of_entry le_bfd 0 R_MIPS_TLS_GOTTPREL tls_info (Some 3) 0x420010 merged_got = Some (idx, st')"
    using initialize_total [OF tls_info_sec]
    by (fastforce simp: tls_index_of_entry_def mips_tls_got_index_def split: option.split)
  show ?thesis
    using merged_tls_slot_lost [of merged_got 0 4 3 8 1 5 "-1" 1, OF _ _ _ _ _ r] r
    by (simp add: merged_got_def split_got_def example_got_def bfd_map_def MIPS_ELF_GOT_SIZE_def ABI_64_P_def le_bfd_def)
qed

end
