(* ===== verification/MultiGotLayout.thy ===== *)
theory MultiGotLayout
  imports MultiGotSpec
begin

text \<open>
  The layout of several global offset tables: the list of tables that merging leaves, its
  reversal into a circle through the master table, and the consecutive ranges the tables get.
\<close>

section \<open>The list of tables\<close>

text \<open>Following \<^verbatim>\<open>next\<close> from a table gives a list.\<close>

fun chain :: "got_info list \<Rightarrow> nat option \<Rightarrow> nat list \<Rightarrow> bool" where
  "chain gs r [] \<longleftrightarrow> r = None"
| "chain gs r (i # is) \<longleftrightarrow> r = Some i \<and> chain gs (got_next (gs ! i)) is"

lemma chain_cong: "(\<And>i. i \<in> set is \<Longrightarrow> got_next (gs' ! i) = got_next (gs ! i)) \<Longrightarrow> chain gs' r is = chain gs r is"
  by (induction "is" arbitrary: r) auto

text \<open>What merging keeps of the list that starts at the current table.\<close>

definition list_inv :: "nat \<Rightarrow> (nat \<Rightarrow> nat) \<Rightarrow> nat set \<Rightarrow> got_per_bfd_arg \<times> got_state \<Rightarrow> bool" where
  "list_inv gc own finished a \<longleftrightarrow>
     (case a of (arg, st) \<Rightarrow> global_gotno (gots st ! 0) = gc \<and> (\<exists>cs. chain (gots st) (current arg) cs \<and> distinct cs \<and> set cs \<subseteq> own ` finished
        \<and> (\<forall>i. primary arg = Some i \<longrightarrow> i \<notin> set cs)
        \<and> (\<forall>b \<in> finished. \<exists>i. map_of (bfd_map st) b = Some i \<and> (primary arg = Some i \<or> i \<in> set cs))))"

section \<open>Merging keeps the list\<close>

lemma upd_next: "(\<And>g. got_next (f g) = got_next g) \<Longrightarrow> got_next (gots (upd_got x f st) ! i) = got_next (gots st ! i)"
  by (cases "i = x"; cases "x < length (gots st)") (simp_all add: upd_got_def list_update_beyond)

lemma upd_gots_length [simp]: "length (gots (upd_got x f st)) = length (gots st)"
  by (simp add: upd_got_def)

lemma get_got_next:
  assumes "mips_elf_get_got_for_bfd b st = (gi, st')" "i < length (gots st)"
  shows "i < length (gots st') \<and> got_next (gots st' ! i) = got_next (gots st ! i)"
  using assms by (auto simp: mips_elf_get_got_for_bfd_def set_bfd_map_def upd_next nth_append split: option.splits)

lemma make_got_next:
  "mips_elf_make_got_per_bfd p st = Some st' \<Longrightarrow> i < length (gots st) \<Longrightarrow>
     i < length (gots st') \<and> got_next (gots st' ! i) = got_next (gots st ! i)"
  using get_got_next
  by (fastforce simp: mips_elf_make_got_per_bfd_def count_got_entry_fields upd_next split: option.splits if_splits prod.splits)

lemma make_pages_next:
  "i < length (gots st) \<Longrightarrow> i < length (gots (mips_elf_make_got_pages_per_bfd e st))
     \<and> got_next (gots (mips_elf_make_got_pages_per_bfd e st) ! i) = got_next (gots st ! i)"
  using get_got_next
  by (fastforce simp: mips_elf_make_got_pages_per_bfd_def upd_next split: if_splits prod.splits)

lemma make_gots_next:
  "fold_opt mips_elf_make_got_per_bfd ps st = Some st' \<Longrightarrow> i < length (gots st) \<Longrightarrow>
     i < length (gots st') \<and> got_next (gots st' ! i) = got_next (gots st ! i)"
proof (induction ps arbitrary: st)
  case (Cons p ps)
  then show ?case
    using make_got_next [of p st _ i] by (auto split: option.splits)
qed simp

lemma make_all_pages_next:
  "i < length (gots st) \<Longrightarrow> i < length (gots (fold mips_elf_make_got_pages_per_bfd es st))
     \<and> got_next (gots (fold mips_elf_make_got_pages_per_bfd es st) ! i) = got_next (gots st ! i)"
proof (induction es arbitrary: st)
  case (Cons e es)
  then show ?case
    using make_pages_next [of i st e] by auto
qed simp

lemma merge_with_next:
  assumes "mips_elf_merge_got_with arg b from_i to st = Some (merged st')" "i < length (gots st)"
  shows "got_next (gots st' ! i) = got_next (gots st ! i)"
proof -
  let ?st0 = "set_bfd_map (map (\<lambda>(k, v). if k = b then (k, to) else (k, v)) (bfd_map st)) st"
  obtain st1 where st1: "fold_opt mips_elf_make_got_per_bfd (got_entries (gots st ! from_i)) ?st0 = Some st1"
    and st': "st' = upd_got from_i (\<lambda>g. g\<lparr>got_entries := [], got_page_entries := []\<rparr>)
        (fold mips_elf_make_got_pages_per_bfd (got_page_entries (gots st ! from_i)) st1)"
    using assms(1) by (auto simp: mips_elf_merge_got_with_def Let_def split: if_splits option.splits)
  have "got_next (gots ?st0 ! i) = got_next (gots st ! i)" "i < length (gots ?st0)"
    using assms(2) by (simp_all add: set_bfd_map_def upd_next)
  then show ?thesis
    using make_gots_next [OF st1, of i] make_all_pages_next [of i st1 "got_page_entries (gots st ! from_i)"]
    by (simp add: st' upd_next)
qed

lemma merge_gots_cases:
  assumes "mips_elf_merge_gots b (arg, st) = Some a'" "map_of (bfd_map st) b = Some gi"
  obtains (primary) "primary arg = None" "a' = (arg\<lparr>primary := Some gi\<rparr>, st)"
  | (current) "a' = (arg\<lparr>current := Some gi\<rparr>, upd_got gi (\<lambda>g. g\<lparr>got_next := current arg\<rparr>) st)"
  | (merged) to st' where "primary arg = Some to \<or> current arg = Some to"
      "mips_elf_merge_got_with arg b gi to st = Some (merged st')" "a' = (arg, st')"
  using assms
  by (auto simp: mips_elf_merge_gots_def merge_with_current_def Let_def split: option.splits merge_result.splits if_splits)

lemma chain_upd_next:
  assumes "i \<notin> set is" "i < length gs"
  shows "chain (gs[i := (gs ! i)\<lparr>got_next := n\<rparr>]) n is = chain gs n is"
  by (rule chain_cong) (use assms in \<open>auto simp: nth_list_update\<close>)

lemma list_step:
  assumes list: "list_inv gc own finished (arg, st)" and inv: "merge_inv own keys st0 limit finished (arg, st)"
    and own: "own_tables own keys st0" and b: "b \<in> keys" "b \<notin> finished" "finished \<subseteq> keys"
    and step: "mips_elf_merge_gots b (arg, st) = Some a'"
  shows "list_inv gc own (insert b finished) a'"
proof -
  note same = merge_invD(1-4) [OF inv] and todo = merge_invD(5) [OF inv] and pc = merge_invD(7) [OF inv]
  note new = own_tablesD(4,5) [OF own b(1,3,2)] and tab = own_tablesD(1,2,3) [OF own b(1,3,2)]
  have here: "map_of (bfd_map st) b = Some (own b)" "gots st ! own b = gots st0 ! own b"
    using todo b by auto
  have gc: "global_gotno (gots st ! 0) = gc"
    using list by (simp add: list_inv_def)
  obtain cs where cs: "chain (gots st) (current arg) cs" "distinct cs" "set cs \<subseteq> own ` finished"
    "\<forall>i. primary arg = Some i \<longrightarrow> i \<notin> set cs"
    "\<forall>b \<in> finished. \<exists>i. map_of (bfd_map st) b = Some i \<and> (primary arg = Some i \<or> i \<in> set cs)"
    using list unfolding list_inv_def by blast
  show ?thesis
  proof (cases rule: merge_gots_cases [OF step here(1)])
    case 1
    have "own b \<notin> set cs"
      using cs(3) new(1) by blast
    then show ?thesis
      using cs here(1) 1 gc by (fastforce simp: list_inv_def)
  next
    case 2
    let ?st = "upd_got (own b) (\<lambda>g. g\<lparr>got_next := current arg\<rparr>) st"
    have len: "own b < length (gots st)" "own b \<notin> set cs"
      using tab same cs(3) new(1) by auto
    have "primary arg \<noteq> Some (own b)"
      using pc [of "own b"] new(1) by blast
    moreover have "bfd_map ?st = bfd_map st" "global_gotno (gots ?st ! 0) = gc"
      using tab(1) gc by (simp_all add: upd_got_def bfd_map_def)
    moreover have "chain (gots ?st) (Some (own b)) (own b # cs)"
      using cs(1) chain_upd_next [OF len(2,1)] len(1) by (simp add: upd_got_def)
    ultimately show ?thesis
      using cs(2-5) here(1) len(2) 2 unfolding list_inv_def by (auto intro!: exI [of _ "own b # cs"])
  next
    case (3 to st')
    have to: "to \<in> own ` finished" "got_multi (gots st ! to)"
      using pc [OF 3(1)] by auto
    have tab': "own_table st b (gots st ! own b)"
      using tab(3) here(2) same(1,2) by (simp add: own_table_def within_def)
    have idx: "own b \<noteq> to" "own b \<noteq> 0" "to \<noteq> 0" "own b < length (gots st)" "to < length (gots st)"
      using own b to(1) new(1) same(3) by (auto simp: own_tables_def)
    have map': "bfd_map st' = rebind b to (bfd_map st) \<and> global_gotno (gots st' ! 0) = gc"
      by (rule merge_got_with_spec [OF tab' here(1) idx to(2), of arg]) (use 3(2) gc in auto)
    have "i < length (gots st)" if "i \<in> set cs" for i
      using that cs(3) b(3) own same(3) by (auto simp: own_tables_def)
    then have "chain (gots st') (current arg) cs"
      using cs(1) chain_cong [of cs "gots st'" "gots st"] merge_with_next [OF 3(2)] by simp
    moreover have "primary arg = Some to \<or> to \<in> set cs"
      using 3(1) cs(1) by (cases cs) auto
    ultimately show ?thesis
      using cs(2-5) here(1) unfolding 3(3) list_inv_def by (auto simp: map' map_of_rebind)
  qed
qed

lemma list_all_merged:
  assumes own: "own_tables own keys st0" and "merge_inv own keys st0 limit finished a" "list_inv gc own finished a"
    and "set bs \<inter> finished = {}" "distinct bs" "set bs \<union> finished = keys" "fold_opt mips_elf_merge_gots bs a = Some a'"
  shows "merge_inv own keys st0 limit keys a' \<and> list_inv gc own keys a'"
  using assms(2-)
proof (induction bs arbitrary: finished a)
  case (Cons b bs)
  obtain arg st where a: "a = (arg, st)"
    by force
  have b: "b \<in> keys" "b \<notin> finished" "finished \<subseteq> keys"
    using Cons.prems by auto
  obtain a1 where a1: "mips_elf_merge_gots b (arg, st) = Some a1" "merge_inv own keys st0 limit (insert b finished) a1"
    using merge_step [OF Cons.prems(1) [unfolded a] own b] by blast
  note list_step [OF Cons.prems(2) [unfolded a] Cons.prems(1) [unfolded a] own b a1(1)]
  moreover have "set bs \<inter> insert b finished = {}" "distinct bs" "set bs \<union> insert b finished = keys"
    using Cons.prems(3-5) by auto
  ultimately show ?case
    using Cons.IH [OF a1(2)] Cons.prems(6) a1(1) a by simp
qed simp

section \<open>Partitioning leaves a list\<close>

text \<open>The first table and the list after it hold the tables of all BFDs; a shared table fits.\<close>

definition shared_fits :: "got_per_bfd_arg \<Rightarrow> got_state \<Rightarrow> bool" where
  "shared_fits arg st \<longleftrightarrow>
     (\<forall>b b' i. b \<noteq> b' \<longrightarrow> map_of (bfd_map st) b = Some i \<longrightarrow> map_of (bfd_map st) b' = Some i
        \<longrightarrow> slots arg i (gots st ! i) \<le> max_count arg)"

definition listed :: "nat \<Rightarrow> got_per_bfd_arg \<Rightarrow> got_state \<Rightarrow> nat list \<Rightarrow> bool" where
  "listed gc arg st cs \<longleftrightarrow>
     gots st \<noteq> [] \<and> global_gotno (gots st ! 0) = gc \<and> chain (gots st) (current arg) cs \<and> distinct cs
     \<and> (\<forall>i \<in> set cs \<union> set_option (primary arg). i \<noteq> 0 \<and> i < length (gots st)) \<and> set cs \<inter> set_option (primary arg) = {}
     \<and> (\<forall>b i. map_of (bfd_map st) b = Some i \<longrightarrow> i \<in> set cs \<union> set_option (primary arg))"

lemma partition_list:
  assumes "gots st \<noteq> []" "\<forall>p \<in> set (got_entries (gots st ! 0)). ge_abfd (ents st ! p) \<noteq> None"
  obtains arg st' cs where "partition_gots info abfd reserved pages st = Some (arg, st')"
    "listed (global_gotno (gots st ! 0)) arg st' cs" "shared_fits arg st'"
    "max_count arg = MIPS_ELF_GOT_MAX_SIZE info div MIPS_ELF_GOT_SIZE abfd - reserved" "max_pages arg = pages"
    "global_count arg = global_gotno (gots st ! 0)"
proof (rule tables_built [OF assms])
  fix st2 st3
  assume 2: "fold_opt mips_elf_make_got_per_bfd (got_entries (gots st ! 0)) (set_bfd_map [] st) = Some st2"
    and 3: "st3 = fold mips_elf_make_got_pages_per_bfd (got_page_entries (gots st2 ! 0)) st2" "built st st3"
  define limit where "limit = MIPS_ELF_GOT_MAX_SIZE info div MIPS_ELF_GOT_SIZE abfd - reserved"
  let ?gc = "global_gotno (gots st ! 0)" and ?keys = "set (map fst (bfd_map st3))" and ?own = "\<lambda>b. the (map_of (bfd_map st3) b)"
  let ?arg0 = "\<lparr>primary = None, current = None, max_count = limit, max_pages = pages, global_count = global_gotno (gots st3 ! 0)\<rparr>"
  have gc: "global_gotno (gots st3 ! 0) = ?gc" "gots st3 \<noteq> []" and dist: "distinct (map fst (bfd_map st3))"
    using 3(2) by (simp_all add: built_def)
  note own = built_own(1) [OF 3(2)] and start = built_own(2) [OF 3(2), of limit pages "global_gotno (gots st3 ! 0)"]
  have list0: "list_inv ?gc ?own {} (?arg0, st3)"
    using gc by (auto simp: list_inv_def intro!: exI [of _ "[]"])
  obtain arg st' where m: "fold_opt mips_elf_merge_gots (map fst (bfd_map st3)) (?arg0, st3) = Some (arg, st')"
    using merge_all [OF own start, of "map fst (bfd_map st3)"] dist by auto
  have r: "merge_inv ?own ?keys st3 limit ?keys (arg, st')" "list_inv ?gc ?own ?keys (arg, st')"
    using list_all_merged [OF own start list0 _ dist _ m] by auto
  note inv = merge_invD [OF r(1)]
  obtain cs where cs: "chain (gots st') (current arg) cs" "distinct cs" "set cs \<subseteq> ?own ` ?keys"
    "\<forall>i. primary arg = Some i \<longrightarrow> i \<notin> set cs" "global_gotno (gots st' ! 0) = ?gc"
    "\<forall>b \<in> ?keys. \<exists>i. map_of (bfd_map st') b = Some i \<and> (primary arg = Some i \<or> i \<in> set cs)"
    using r(2) unfolding list_inv_def by auto
  have keys: "b \<in> ?keys" if "map_of (bfd_map st') b = Some i" for b i
    using map_of_SomeD [OF that] inv(4) by (metis fst_conv image_eqI set_map)
  have own_idx: "i \<noteq> 0 \<and> i < length (gots st')" if "i \<in> ?own ` ?keys" for i
    using that own inv(3) unfolding own_tables_def by auto
  have "primary arg = Some i \<or> i \<in> set cs" if "map_of (bfd_map st') b = Some i" for b i
    using cs(6) keys [OF that] that by (metis option.inject)
  moreover have "i \<noteq> 0 \<and> i < length (gots st')" if "i \<in> set cs \<union> set_option (primary arg)" for i
    using that own_idx [of i] cs(3) inv(7) [of i] by auto
  moreover have "gots st' \<noteq> []"
    using inv(3) gc(2) by auto
  ultimately have "listed ?gc arg st' cs"
    unfolding listed_def using cs(1,2,4,5) by (simp add: elem_set) blast
  moreover have "shared_fits arg st'"
    unfolding shared_fits_def
  proof (intro allI impI)
    fix b b' i
    assume b: "b \<noteq> b'" "map_of (bfd_map st') b = Some i" "map_of (bfd_map st') b' = Some i"
    then have "serves ?own st3 ?keys arg st' b i"
      using inv(6) [OF keys [OF b(2)]] by auto
    then show "slots arg i (gots st' ! i) \<le> max_count arg"
      using b keys [OF b(3)] by (auto simp: serves_def)
  qed
  moreover have "partition_gots info abfd reserved pages st = Some (arg, st')"
    using 2 m by (simp add: partition_gots_def 3(1) limit_def Let_def)
  ultimately show thesis
    using that inv(4) merge_all_limits [OF m] gc(1) by (simp add: limit_def)
qed

section \<open>Ranges\<close>

definition got_end :: "got_info \<Rightarrow> nat" where
  "got_end g = local_gotno g + global_gotno g + tls_gotno g"

text \<open>
  The tables of a list, before and after they are laid out: each starts where the one before
  it ends, with the reserved entries, and points back to it.
\<close>

fun laid_out :: "nat \<Rightarrow> nat \<Rightarrow> got_info list \<Rightarrow> got_info list \<Rightarrow> nat option \<Rightarrow> nat \<Rightarrow> nat list \<Rightarrow> bool" where
  "laid_out reserved pages gs gs' prev start [] \<longleftrightarrow> got_next (gs' ! 0) = prev"
| "laid_out reserved pages gs gs' prev start (i # is) \<longleftrightarrow>
     assigned_gotno (gs' ! i) = start + reserved
     \<and> local_gotno (gs' ! i) = start + reserved + local_gotno (gs ! i) + min pages (page_gotno (gs ! i))
     \<and> global_gotno (gs' ! i) = global_gotno (gs ! i) \<and> tls_gotno (gs' ! i) = tls_gotno (gs ! i)
     \<and> got_next (gs' ! i) = prev \<and> laid_out reserved pages gs gs' (Some i) (got_end (gs' ! i)) is"

lemma laid_out_cong:
  "(\<And>i. i \<in> set is \<Longrightarrow> gs ! i = gs1 ! i) \<Longrightarrow> laid_out reserved pages gs gs' prev start is = laid_out reserved pages gs1 gs' prev start is"
  by (induction "is" arbitrary: prev start) auto

definition table_start :: "got_info list \<Rightarrow> nat list \<Rightarrow> nat \<Rightarrow> nat" where
  "table_start gs ts k = (if k = 0 then 0 else got_end (gs ! (ts ! (k - 1))))"

lemma laid_out_nth:
  assumes "laid_out reserved pages gs gs' prev start is" "k < length is"
  defines "s \<equiv> (if k = 0 then start else got_end (gs' ! (is ! (k - 1))))"
  shows "assigned_gotno (gs' ! (is ! k)) = s + reserved"
    "local_gotno (gs' ! (is ! k)) = s + reserved + local_gotno (gs ! (is ! k)) + min pages (page_gotno (gs ! (is ! k)))"
    "global_gotno (gs' ! (is ! k)) = global_gotno (gs ! (is ! k))" "tls_gotno (gs' ! (is ! k)) = tls_gotno (gs ! (is ! k))"
    "got_next (gs' ! (is ! k)) = (if k = 0 then prev else Some (is ! (k - 1)))"
proof -
  have "assigned_gotno (gs' ! (is ! k)) = s + reserved
    \<and> local_gotno (gs' ! (is ! k)) = s + reserved + local_gotno (gs ! (is ! k)) + min pages (page_gotno (gs ! (is ! k)))
    \<and> global_gotno (gs' ! (is ! k)) = global_gotno (gs ! (is ! k)) \<and> tls_gotno (gs' ! (is ! k)) = tls_gotno (gs ! (is ! k))
    \<and> got_next (gs' ! (is ! k)) = (if k = 0 then prev else Some (is ! (k - 1)))"
    using assms(1,2) unfolding s_def
  proof (induction "is" arbitrary: k prev start)
    case (Cons i "is")
    show ?case
    proof (cases k)
      case (Suc m)
      then show ?thesis
        using Cons.IH [of "Some i" "got_end (gs' ! i)" m] Cons.prems by (cases m) auto
    qed (use Cons.prems in simp)
  qed simp
  then show "assigned_gotno (gs' ! (is ! k)) = s + reserved"
    "local_gotno (gs' ! (is ! k)) = s + reserved + local_gotno (gs ! (is ! k)) + min pages (page_gotno (gs ! (is ! k)))"
    "global_gotno (gs' ! (is ! k)) = global_gotno (gs ! (is ! k))" "tls_gotno (gs' ! (is ! k)) = tls_gotno (gs ! (is ! k))"
    "got_next (gs' ! (is ! k)) = (if k = 0 then prev else Some (is ! (k - 1)))"
    by simp_all
qed

text \<open>The callbacks change little of the tables.\<close>

definition tls_same :: "got_info \<Rightarrow> got_info \<Rightarrow> bool" where
  "tls_same g g' \<longleftrightarrow> assigned_gotno g' = assigned_gotno g \<and> local_gotno g' = local_gotno g \<and> global_gotno g' = global_gotno g
     \<and> tls_gotno g' = tls_gotno g \<and> got_next g' = got_next g"

lemma init_tls_gots:
  "\<exists>g'. gots (mips_elf_initialize_tls_index abfd i p st) = (gots st)[i := g'] \<and> tls_same (gots st ! i) g'"
proof (cases "i < length (gots st)")
  case True
  then show ?thesis
    by (intro exI [of _ "gots (mips_elf_initialize_tls_index abfd i p st) ! i"])
      (simp add: mips_elf_initialize_tls_index_def Let_def upd_got_def upd_sym_def upd_ent_def tls_same_def)
next
  case False
  then show ?thesis
    by (intro exI [of _ "gots st ! i"])
      (simp add: mips_elf_initialize_tls_index_def Let_def upd_got_def upd_sym_def upd_ent_def tls_same_def list_update_beyond)
qed

lemma init_all_tls_gots:
  "\<exists>g'. gots (fold (mips_elf_initialize_tls_index abfd i) ps st) = (gots st)[i := g'] \<and> tls_same (gots st ! i) g'"
proof (induction ps arbitrary: st)
  case Nil
  show ?case
    by (rule exI [of _ "gots st ! i"]) (simp add: tls_same_def)
next
  case (Cons p ps)
  obtain g1 where g1: "gots (mips_elf_initialize_tls_index abfd i p st) = (gots st)[i := g1]" "tls_same (gots st ! i) g1"
    using init_tls_gots by blast
  obtain g2 where g2: "gots (fold (mips_elf_initialize_tls_index abfd i) (p # ps) st) = (gots st)[i := g1, i := g2]"
    "tls_same ((gots st)[i := g1] ! i) g2"
    using Cons.IH [of "mips_elf_initialize_tls_index abfd i p st"] g1(1) by auto
  then show ?case
    using g1(2) by (cases "i < length (gots st)") (auto simp: tls_same_def list_update_beyond)
qed

lemma forbid_gots: "gots (snd (fold mips_elf_forbid_lazy_stubs ps acc)) = gots (snd acc)"
  by (induction ps arbitrary: acc) (auto simp: mips_elf_forbid_lazy_stubs_def upd_sym_def Let_def split: prod.splits)

lemma set_area_gots: "gots (snd (fold (mips_elf_set_global_got_offset info None sz area) ps acc)) = gots (snd acc)"
  by (induction ps arbitrary: acc) (auto simp: mips_elf_set_global_got_offset_def upd_sym_def Let_def split: prod.splits)

lemma set_offset_gots:
  "\<exists>n. gots (snd (fold (mips_elf_set_global_got_offset info (Some i) sz area) ps acc))
     = (gots (snd acc))[i := (gots (snd acc) ! i)\<lparr>assigned_gotno := n\<rparr>]"
proof (induction ps arbitrary: acc)
  case Nil
  show ?case
    by (rule exI [of _ "assigned_gotno (gots (snd acc) ! i)"]) simp
next
  case (Cons p ps)
  have "\<exists>n. gots (snd (mips_elf_set_global_got_offset info (Some i) sz area p acc))
     = (gots (snd acc))[i := (gots (snd acc) ! i)\<lparr>assigned_gotno := n\<rparr>]"
    using exI [of "\<lambda>n. gots (snd acc) = (gots (snd acc))[i := (gots (snd acc) ! i)\<lparr>assigned_gotno := n\<rparr>]"
        "assigned_gotno (gots (snd acc) ! i)"]
    by (auto simp: mips_elf_set_global_got_offset_def Let_def upd_got_def upd_ent_def split: prod.split)
  then show ?case
    using Cons.IH [of "mips_elf_set_global_got_offset info (Some i) sz area p acc"]
    by (cases "i < length (gots (snd acc))") (auto simp: list_update_beyond)
qed

section \<open>The loops end\<close>

text \<open>One table gets its range.\<close>

lemma assign_range_gots:
  assumes "i \<noteq> 0" "i < length (gots st)"
  obtains g' st' where "assign_range abfd pages i a st = (got_end g', st')"
    "gots st' = (gots st)[0 := (gots st ! 0)\<lparr>got_next := Some i\<rparr>, i := g']" "assigned_gotno g' = a"
    "local_gotno g' = a + local_gotno (gots st ! i) + min pages (page_gotno (gots st ! i))"
    "global_gotno g' = global_gotno (gots st ! i)" "tls_gotno g' = tls_gotno (gots st ! i)"
    "got_next g' = got_next (gots st ! 0)"
proof -
  define l where "l = local_gotno (gots st ! i) + a + (if pages < page_gotno (gots st ! i) then pages else page_gotno (gots st ! i))"
  define st1 where "st1 = upd_got i (\<lambda>g. g\<lparr>tls_assigned_gotno := l + global_gotno (gots st ! i)\<rparr>)
    (upd_got 0 (\<lambda>g. g\<lparr>got_next := Some i\<rparr>)
      (upd_got i (\<lambda>g. g\<lparr>assigned_gotno := a, local_gotno := l, got_next := got_next (gots st ! 0)\<rparr>) st))"
  obtain g' where g': "gots (fold (mips_elf_initialize_tls_index abfd i) (got_entries (gots st ! i)) st1) = (gots st1)[i := g']"
    "tls_same (gots st1 ! i) g'"
    using init_all_tls_gots by blast
  have st1: "gots st1 = (gots st)[0 := (gots st ! 0)\<lparr>got_next := Some i\<rparr>,
      i := (gots st ! i)\<lparr>assigned_gotno := a, local_gotno := l, got_next := got_next (gots st ! 0),
             tls_assigned_gotno := l + global_gotno (gots st ! i)\<rparr>]"
    using assms by (simp add: st1_def upd_got_def list_update_swap)
  have "assign_range abfd pages i a st
      = (l + global_gotno (gots st ! i) + tls_gotno (gots st ! i),
         fold (mips_elf_initialize_tls_index abfd i) (got_entries (gots st ! i)) st1)"
    using assms by (simp add: assign_range_def l_def st1_def Let_def upd_got_def)
  then show thesis
    using assms g' unfolding st1
    by (intro that [of g' "fold (mips_elf_initialize_tls_index abfd i) (got_entries (gots st ! i)) st1"])
      (simp_all add: tls_same_def got_end_def l_def)
qed

lemma assign_ranges_laid_out:
  assumes "chain (gots st) (Some i) (i # is)" "distinct (0 # i # is)" "\<forall>j \<in> set (i # is). j < length (gots st)"
    and "length (i # is) \<le> fuel"
  shows "\<exists>lazy' st'. assign_ranges fuel abfd reserved pages i start (lazy, st) = Some (lazy', st')
    \<and> laid_out reserved pages (gots st) (gots st') (got_next (gots st ! 0)) start (i # is) \<and> length (gots st') = length (gots st)
    \<and> (\<forall>j. j \<noteq> 0 \<and> j \<notin> set (i # is) \<longrightarrow> gots st' ! j = gots st ! j)
    \<and> gots st' ! 0 = (gots st ! 0)\<lparr>got_next := got_next (gots st' ! 0)\<rparr>"
  using assms
proof (induction "is" arbitrary: i fuel start lazy st)
  case Nil
  obtain fuel' where fuel: "fuel = Suc fuel'"
    using Nil.prems(4) by (cases fuel) auto
  have i: "i \<noteq> 0" "i < length (gots st)" "got_next (gots st ! i) = None" "0 < length (gots st)"
    using Nil.prems by auto
  obtain g' st' where r: "assign_range abfd pages i (start + reserved) st = (got_end g', st')"
    "gots st' = (gots st)[0 := (gots st ! 0)\<lparr>got_next := Some i\<rparr>, i := g']" "assigned_gotno g' = start + reserved"
    "local_gotno g' = start + reserved + local_gotno (gots st ! i) + min pages (page_gotno (gots st ! i))"
    "global_gotno g' = global_gotno (gots st ! i)" "tls_gotno g' = tls_gotno (gots st ! i)"
    "got_next g' = got_next (gots st ! 0)"
    by (rule assign_range_gots [OF i(1,2)])
  then show ?case
    using i fuel by (intro exI [of _ lazy] exI [of _ st']) auto
next
  case (Cons n "is")
  obtain fuel' where fuel: "fuel = Suc fuel'"
    using Cons.prems(4) by (cases fuel) auto
  have i: "i \<noteq> 0" "i < length (gots st)" "got_next (gots st ! i) = Some n"
    using Cons.prems by auto
  obtain g' st' where r: "assign_range abfd pages i (start + reserved) st = (got_end g', st')"
    "gots st' = (gots st)[0 := (gots st ! 0)\<lparr>got_next := Some i\<rparr>, i := g']" "assigned_gotno g' = start + reserved"
    "local_gotno g' = start + reserved + local_gotno (gots st ! i) + min pages (page_gotno (gots st ! i))"
    "global_gotno g' = global_gotno (gots st ! i)" "tls_gotno g' = tls_gotno (gots st ! i)"
    "got_next g' = got_next (gots st ! 0)"
    by (rule assign_range_gots [OF i(1,2)])
  obtain lazy1 st1 where f: "fold mips_elf_forbid_lazy_stubs (got_entries (gots st' ! n)) (lazy, st') = (lazy1, st1)"
    by force
  have gots1: "gots st1 = gots st'"
    using forbid_gots [of "got_entries (gots st' ! n)" "(lazy, st')"] f by simp
  have same: "gots st1 ! j = gots st ! j" if "j \<in> set (n # is)" for j
  proof -
    have "j \<noteq> 0" "j \<noteq> i"
      using that Cons.prems(2) by (metis distinct.simps(2) list.set_intros(2))+
    then show ?thesis
      unfolding gots1 r(2) by simp
  qed
  have len: "length (gots st1) = length (gots st)" "gots st1 ! i = g'" "gots st1 ! 0 = (gots st ! 0)\<lparr>got_next := Some i\<rparr>"
  proof -
    have "0 < length (gots st)"
      using i(2) by linarith
    then show "length (gots st1) = length (gots st)" "gots st1 ! i = g'" "gots st1 ! 0 = (gots st ! 0)\<lparr>got_next := Some i\<rparr>"
      using i(1,2) unfolding gots1 r(2) by simp_all
  qed
  have prems: "chain (gots st1) (Some n) (n # is)" "distinct (0 # n # is)" "\<forall>j \<in> set (n # is). j < length (gots st1)"
    "length (n # is) \<le> fuel'"
    using Cons.prems i fuel chain_cong [of "n # is" "gots st1" "gots st" "Some n"] same len(1) by auto
  obtain lazy' st2 where IH: "assign_ranges fuel' abfd reserved pages n (got_end g') (lazy1, st1) = Some (lazy', st2)"
    "laid_out reserved pages (gots st1) (gots st2) (Some i) (got_end g') (n # is)" "length (gots st2) = length (gots st)"
    "\<forall>j. j \<noteq> 0 \<and> j \<notin> set (n # is) \<longrightarrow> gots st2 ! j = gots st1 ! j" "gots st2 ! 0 = (gots st1 ! 0)\<lparr>got_next := got_next (gots st2 ! 0)\<rparr>"
    using Cons.IH [OF prems, of "got_end g'" lazy1] len(1,3) by auto
  have "gots st2 ! i = g'"
    using IH(4) i(1) Cons.prems(2) len(2) by auto
  moreover have "laid_out reserved pages (gots st) (gots st2) (Some i) (got_end g') (n # is)"
    using IH(2) laid_out_cong [of "n # is" "gots st" "gots st1" reserved pages "gots st2" "Some i" "got_end g'"] same by metis
  moreover have "gots st2 ! j = gots st ! j" if "j \<noteq> 0" "j \<notin> set (i # n # is)" for j
    using IH(4) that unfolding gots1 r(2) by (auto simp: nth_list_update)
  moreover have "gots st2 ! 0 = (gots st ! 0)\<lparr>got_next := got_next (gots st2 ! 0)\<rparr>"
    using IH(5) len(3) by simp
  moreover have "assign_ranges fuel abfd reserved pages i start (lazy, st) = Some (lazy', st2)"
    using i(3) r(1) f IH(1) by (simp add: fuel)
  ultimately show ?case
    using IH(3) r(3-7) by (intro exI [of _ lazy'] exI [of _ st2]) simp
qed

text \<open>The reversed list leads back to the primary table, whose successor is the master table.\<close>

fun leads_back :: "got_info list \<Rightarrow> nat \<Rightarrow> nat list \<Rightarrow> bool" where
  "leads_back gs i [] \<longleftrightarrow> got_next (gs ! i) = Some 0"
| "leads_back gs i (j # js) \<longleftrightarrow> got_next (gs ! i) = Some j \<and> j \<noteq> 0 \<and> leads_back gs j js"

lemma laid_out_back:
  assumes "laid_out reserved pages gs gs' (Some p) start is" "leads_back gs' p ps" "0 \<notin> set is" "p \<noteq> 0"
  shows "got_next (gs' ! 0) = Some (last (p # is)) \<and> (\<exists>js. leads_back gs' (last (p # is)) js \<and> length js = length ps + length is)"
  using assms
proof (induction "is" arbitrary: p ps start)
  case (Cons i "is")
  have "leads_back gs' i (p # ps)"
    using Cons.prems by simp
  then show ?case
    using Cons.IH [of i _ "p # ps"] Cons.prems by auto
qed auto

lemma assign_globals_total:
  assumes "leads_back (gots st) i js" "length js < fuel"
  shows "\<exists>needed' st'. assign_globals fuel info sz i (needed, st) = Some (needed', st') \<and> gots st' = gots st"
  using assms
proof (induction js arbitrary: i fuel needed st)
  case Nil
  then show ?case
    by (cases fuel) auto
next
  case (Cons j js)
  obtain fuel' where fuel: "fuel = Suc fuel'"
    using Cons.prems(2) by (cases fuel) auto
  have next': "got_next (gots st ! i) = Some j" "j \<noteq> 0"
    using Cons.prems(1) by auto
  let ?st1 = "upd_got i (\<lambda>g. g\<lparr>assigned_gotno := local_gotno g\<rparr>) st"
  obtain n st2 where f: "fold (mips_elf_set_global_got_offset info (Some i) sz GGA_NONE) (got_entries (gots ?st1 ! i)) (0, ?st1) = (n, st2)"
    by force
  obtain a where "gots st2 = (gots ?st1)[i := (gots ?st1 ! i)\<lparr>assigned_gotno := a\<rparr>]"
    using set_offset_gots [of info i sz GGA_NONE "got_entries (gots ?st1 ! i)" "(0, ?st1)"] f by auto
  then have gots2: "gots (upd_got i (\<lambda>g. g\<lparr>assigned_gotno := assigned_gotno (gots st ! i)\<rparr>) st2) = gots st"
    by (cases "i < length (gots st)") (simp_all add: upd_got_def list_update_beyond)
  let ?st3 = "upd_got i (\<lambda>g. g\<lparr>assigned_gotno := assigned_gotno (gots st ! i)\<rparr>) st2"
  have "leads_back (gots ?st3) j js" "length js < fuel'"
    using Cons.prems fuel unfolding gots2 by auto
  then show ?case
    using Cons.IH [of ?st3 j fuel'] next' f gots2 by (simp add: fuel Let_def)
qed

section \<open>The whole layout\<close>

text \<open>The primary table heads the list.\<close>

lemma link_primary_list:
  assumes "listed gc arg st cs"
  obtains g st' where "link_primary abfd (arg, st) = (g, st')" "chain (gots st') (Some g) (g # cs)" "distinct (0 # g # cs)"
    "\<forall>j \<in> set (g # cs). j < length (gots st')" "global_gotno (gots st' ! 0) = gc"
    "\<And>b i. map_of (bfd_map st') b = Some i \<Longrightarrow> i \<in> set (g # cs)"
    "\<And>b i. map_of (bfd_map st') b = Some i \<Longrightarrow> b \<noteq> bfd_id abfd \<Longrightarrow>
       map_of (bfd_map st) b = Some i \<and> (primary arg = Some i \<longleftrightarrow> i = g)
       \<and> (local_gotno (gots st' ! i) = local_gotno (gots st ! i) \<and> page_gotno (gots st' ! i) = page_gotno (gots st ! i)
       \<and> global_gotno (gots st' ! i) = global_gotno (gots st ! i) \<and> tls_gotno (gots st' ! i) = tls_gotno (gots st ! i))"
proof -
  have L: "gots st \<noteq> []" "global_gotno (gots st ! 0) = gc" "chain (gots st) (current arg) cs" "distinct cs"
    "\<And>i. i \<in> set cs \<Longrightarrow> i \<noteq> 0 \<and> i < length (gots st)" "\<And>i. primary arg = Some i \<Longrightarrow> i \<noteq> 0 \<and> i < length (gots st) \<and> i \<notin> set cs"
    "\<And>b i. map_of (bfd_map st) b = Some i \<Longrightarrow> i \<in> set cs \<or> primary arg = Some i"
    using assms by (auto simp: listed_def)
  define g where "g = (case primary arg of None \<Rightarrow> length (gots st) | Some g \<Rightarrow> g)"
  define st1 where "st1 = (if primary arg = None then st\<lparr>gots := gots st @ [new_got_info 0]\<rparr> else st)"
  define st' where "st' = set_bfd_map ((bfd_id abfd, g) # bfd_map st1) (upd_got g (\<lambda>g. g\<lparr>got_next := current arg\<rparr>) st1)"
  have old: "gots st1 ! i = gots st ! i" if "i < length (gots st)" for i
    using that by (simp add: st1_def nth_append)
  have g: "g \<noteq> 0" "g < length (gots st1)" "g \<notin> set cs"
    using L(1,5,6) by (auto simp: g_def st1_def split: option.splits)
  have map1: "bfd_map st1 = bfd_map st"
    using L(1) old [of 0] by (simp add: bfd_map_def)
  have "bfd_map st' = (bfd_id abfd, g) # bfd_map st1"
    using L(1) by (simp add: st'_def bfd_map_set upd_got_def st1_def)
  then have map': "bfd_map st' = (bfd_id abfd, g) # bfd_map st"
    by (simp only: map1)
  have g': "gots st' ! g = (gots st1 ! g)\<lparr>got_next := current arg\<rparr>"
    using g(1,2) by (simp add: st'_def set_bfd_map_other upd_got_def)
  have rest: "gots st' ! i = gots st ! i" if "i \<noteq> 0" "i \<noteq> g" "i < length (gots st)" for i
    using that old by (simp add: st'_def set_bfd_map_other upd_got_def)
  have "chain (gots st') (current arg) cs"
    using L(3) chain_cong [of cs "gots st'" "gots st"] rest L(5) g(3) by metis
  then have "chain (gots st') (Some g) (g # cs)"
    using g' by simp
  moreover have "\<forall>j \<in> set (g # cs). j < length (gots st')"
    using g(2) L(5) by (force simp: st'_def upd_got_def st1_def)
  moreover have "global_gotno (gots st' ! 0) = gc"
    using L(1,2) g(1) old [of 0] by (simp add: st'_def set_bfd_map_def upd_got_def st1_def)
  moreover have "i \<in> set (g # cs)" if "map_of (bfd_map st') b = Some i" for b i
    using that L(7) [of b i] by (auto simp: map' g_def split: if_splits)
  moreover have "map_of (bfd_map st) b = Some i \<and> (primary arg = Some i \<longleftrightarrow> i = g)
       \<and> (local_gotno (gots st' ! i) = local_gotno (gots st ! i) \<and> page_gotno (gots st' ! i) = page_gotno (gots st ! i)
       \<and> global_gotno (gots st' ! i) = global_gotno (gots st ! i) \<and> tls_gotno (gots st' ! i) = tls_gotno (gots st ! i))"
    if b: "map_of (bfd_map st') b = Some i" "b \<noteq> bfd_id abfd" for b i
  proof -
    have b': "map_of (bfd_map st) b = Some i"
      using b by (simp add: map')
    show ?thesis
    proof (cases "i = g")
      case True
      then have "primary arg = Some i" "i < length (gots st)"
        using L(7) [OF b'] g(3) L(6) by auto
      then show ?thesis
        using b' True g' old [of i] by simp
    next
      case False
      then have "i \<in> set cs" "primary arg \<noteq> Some i"
        using L(7) [OF b'] by (auto simp: g_def)
      then show ?thesis
        using b' rest [of i] L(5) False by simp
    qed
  qed
  moreover have "link_primary abfd (arg, st) = (g, st')"
    by (simp add: link_primary_def st'_def st1_def g_def Let_def split: option.split)
  moreover have "0 \<notin> set cs"
    using L(5) by blast
  ultimately show thesis
    using g(1,3) L(4) by (intro that) auto
qed

text \<open>The master table is made to end at zero, modulo 2 to the 32.\<close>

lemma unsigned_minus_end: "take_bit 32 ((unsigned_minus 0 n + n) * k) = 0"
proof -
  have "int (unsigned_minus 0 n + n) mod 2 ^ 32 = ((0 - int n) mod 2 ^ 32 + int n) mod 2 ^ 32"
    by (simp add: unsigned_minus_def)
  also have "\<dots> = 0"
    by (subst mod_add_left_eq) simp
  finally have "int ((unsigned_minus 0 n + n) mod 2 ^ 32) = 0"
    by (simp add: zmod_int)
  then have "(unsigned_minus 0 n + n) mod 2 ^ 32 = 0"
    by (simp only: of_nat_eq_0_iff)
  then show ?thesis
    unfolding take_bit_eq_mod by (metis mod_mult_left_eq mult_zero_left mod_0)
qed

text \<open>The state in which the ranges are assigned.\<close>

lemma multi_got_ranges:
  assumes part: "partition_gots info abfd reserved pages st = Some (arg, st1)" and link: "link_primary abfd (arg, st1) = (g, st2)"
    and g: "g \<noteq> 0" "g < length (gots st2)" and gc: "global_gotno (gots st2 ! 0) = gc"
  obtains st3 where
    "mips_elf_multi_got info abfd reserved pages lazy st =
       (case assign_ranges (length (gots st3)) abfd reserved pages g 0 (lazy, st3) of
          None \<Rightarrow> None
        | Some (lazy, st) \<Rightarrow>
            (case got_next (gots st ! 0) of
               None \<Rightarrow> None
             | Some l \<Rightarrow>
                 (case assign_globals (length (gots st)) info (MIPS_ELF_GOT_SIZE abfd) l (0, st) of
                    None \<Rightarrow> None
                  | Some (needed, st') \<Rightarrow> Some (got_end (gots st ! l) * MIPS_ELF_GOT_SIZE abfd, needed, lazy, st'))))"
    "length (gots st3) = length (gots st2)" "\<And>i. i \<noteq> 0 \<Longrightarrow> i \<noteq> g \<Longrightarrow> gots st3 ! i = gots st2 ! i"
    "gots st3 ! g = (gots st2 ! g)\<lparr>global_gotno := gc\<rparr>" "bfd_map st3 = bfd_map st2" "got_next (gots st3 ! 0) = Some 0"
    "local_gotno (gots st3 ! 0) = unsigned_minus 0 gc \<and> global_gotno (gots st3 ! 0) = gc \<and> tls_gotno (gots st3 ! 0) = 0"
proof -
  define sta where "sta = upd_got g (\<lambda>p. p\<lparr>global_gotno := gc\<rparr>)
    (upd_got 0 (\<lambda>gg. gg\<lparr>reloc_only_gotno := unsigned_minus (global_gotno gg) (global_gotno (gots st2 ! g))\<rparr>) st2)"
  obtain n1 stb where b: "fold (mips_elf_set_global_got_offset info None 0 GGA_RELOC_ONLY) (got_entries (gots sta ! 0)) (0, sta) = (n1, stb)"
    by force
  obtain n2 stc where c: "fold (mips_elf_set_global_got_offset info None 0 GGA_NORMAL) (got_entries (gots stb ! g)) (0, stb) = (n2, stc)"
    by force
  define st3 where "st3 = upd_got 0 (\<lambda>gg. gg\<lparr>local_gotno := unsigned_minus 0 (global_gotno (gots stc ! g)),
                                      global_gotno := global_gotno (gots stc ! g), tls_gotno := 0, got_next := Some 0\<rparr>) stc"
  have len: "0 < length (gots st2)"
    using g by linarith
  have gots_c: "gots stc = gots sta"
    using set_area_gots [of info 0 GGA_RELOC_ONLY "got_entries (gots sta ! 0)" "(0, sta)"]
      set_area_gots [of info 0 GGA_NORMAL "got_entries (gots stb ! g)" "(0, stb)"] b c by simp
  have gots_a: "gots sta = (gots st2)[0 := (gots st2 ! 0)\<lparr>reloc_only_gotno := unsigned_minus gc (global_gotno (gots st2 ! g))\<rparr>,
      g := (gots st2 ! g)\<lparr>global_gotno := gc\<rparr>]"
    using g gc by (simp add: sta_def upd_got_def)
  have at_g: "global_gotno (gots stc ! g) = gc" "gots stc ! g = (gots st2 ! g)\<lparr>global_gotno := gc\<rparr>"
    using g by (simp_all add: gots_c gots_a)
  have at_0: "gots st3 ! 0 = (gots st2 ! 0)\<lparr>reloc_only_gotno := unsigned_minus gc (global_gotno (gots st2 ! g)),
      local_gotno := unsigned_minus 0 gc, global_gotno := gc, tls_gotno := 0, got_next := Some 0\<rparr>"
    using g len at_g(1) by (simp add: st3_def upd_got_def gots_c gots_a)
  have "gots st3 ! i = gots stc ! i" if "i \<noteq> 0" for i
    using that by (simp add: st3_def upd_got_def)
  then have others: "gots st3 ! g = (gots st2 ! g)\<lparr>global_gotno := gc\<rparr>" "i \<noteq> 0 \<Longrightarrow> i \<noteq> g \<Longrightarrow> gots st3 ! i = gots st2 ! i" for i
    using g at_g(2) by (simp_all add: gots_c gots_a)
  have unfolded: "mips_elf_multi_got info abfd reserved pages lazy st =
       (case assign_ranges (length (gots st3)) abfd reserved pages g 0 (lazy, st3) of
          None \<Rightarrow> None
        | Some (lazy, st) \<Rightarrow>
            (case got_next (gots st ! 0) of
               None \<Rightarrow> None
             | Some l \<Rightarrow>
                 (case assign_globals (length (gots st)) info (MIPS_ELF_GOT_SIZE abfd) l (0, st) of
                    None \<Rightarrow> None
                  | Some (needed, st') \<Rightarrow> Some (got_end (gots st ! l) * MIPS_ELF_GOT_SIZE abfd, needed, lazy, st'))))"
  proof -
    have gz: "global_gotno (gots (upd_got 0 (\<lambda>gg. gg\<lparr>reloc_only_gotno := unsigned_minus (global_gotno gg) (global_gotno (gots st2 ! g))\<rparr>) st2) ! 0) = gc"
      using gc len by (simp add: upd_got_def)
    show ?thesis
      unfolding mips_elf_multi_got_def part option.case link Let_def prod.case gz sta_def [symmetric] b c st3_def [symmetric] got_end_def
      by (rule refl)
  qed
  show thesis
  proof (rule that [of st3, OF unfolded])
    show "length (gots st3) = length (gots st2)"
      by (simp add: st3_def gots_c gots_a)
    show "bfd_map st3 = bfd_map st2" "got_next (gots st3 ! 0) = Some 0"
      "local_gotno (gots st3 ! 0) = unsigned_minus 0 gc \<and> global_gotno (gots st3 ! 0) = gc \<and> tls_gotno (gots st3 ! 0) = 0"
      by (simp_all add: bfd_map_def at_0)
  qed (simp_all add: others)
qed

text \<open>
  C9.  Laying out several tables always succeeds.  The tables get consecutive ranges that begin
  at zero, so no two overlap and together they fill the section; each starts with the reserved
  entries; the GP value of an input BFD is adjusted by exactly the start of the table that
  serves it; and a table shared by two BFDs lies in reach of a 16-bit offset.
\<close>

theorem multi_got_layout:
  assumes "gots st \<noteq> []" "\<forall>p \<in> set (got_entries (gots st ! 0)). ge_abfd (ents st ! p) \<noteq> None" "reserved \<le> 3"
  shows "\<exists>sz needed lazy' st' ts. mips_elf_multi_got info abfd reserved pages lazy st = Some (sz, needed, lazy', st')
    \<and> ts \<noteq> [] \<and> distinct ts \<and> sz = got_end (gots st' ! last ts) * MIPS_ELF_GOT_SIZE abfd
    \<and> (\<forall>b gi. map_of (bfd_map st') b = Some gi \<longrightarrow> gi \<in> set ts)
    \<and> (\<forall>k < length ts. assigned_gotno (gots st' ! (ts ! k)) = table_start (gots st') ts k + reserved
         \<and> assigned_gotno (gots st' ! (ts ! k)) \<le> local_gotno (gots st' ! (ts ! k)))
    \<and> (\<forall>ibfd k. k < length ts \<and> map_of (bfd_map st') (bfd_id ibfd) = Some (ts ! k) \<longrightarrow>
         mips_elf_adjust_gp abfd st' ibfd = of_nat (take_bit 32 (table_start (gots st') ts k * MIPS_ELF_GOT_SIZE abfd)))
    \<and> (\<forall>b b' k. k < length ts \<and> b \<noteq> b' \<and> b \<noteq> bfd_id abfd \<and> b' \<noteq> bfd_id abfd
         \<and> map_of (bfd_map st') b = Some (ts ! k) \<and> map_of (bfd_map st') b' = Some (ts ! k) \<longrightarrow>
         (got_end (gots st' ! (ts ! k)) - table_start (gots st') ts k) * MIPS_ELF_GOT_SIZE abfd \<le> MIPS_ELF_GOT_MAX_SIZE info)"
proof -
  let ?gc = "global_gotno (gots st ! 0)" and ?max = "MIPS_ELF_GOT_MAX_SIZE info div MIPS_ELF_GOT_SIZE abfd"
  obtain arg st1 cs where part: "partition_gots info abfd reserved pages st = Some (arg, st1)" "listed ?gc arg st1 cs" "shared_fits arg st1"
    "max_count arg = ?max - reserved" "max_pages arg = pages" "global_count arg = ?gc"
    by (rule partition_list [OF assms(1,2)])
  obtain g st2 where link: "link_primary abfd (arg, st1) = (g, st2)" "chain (gots st2) (Some g) (g # cs)" "distinct (0 # g # cs)"
    "\<forall>j \<in> set (g # cs). j < length (gots st2)" "global_gotno (gots st2 ! 0) = ?gc"
    "\<And>b i. map_of (bfd_map st2) b = Some i \<Longrightarrow> i \<in> set (g # cs)"
    "\<And>b i. map_of (bfd_map st2) b = Some i \<Longrightarrow> b \<noteq> bfd_id abfd \<Longrightarrow>
       map_of (bfd_map st1) b = Some i \<and> (primary arg = Some i \<longleftrightarrow> i = g)
       \<and> (local_gotno (gots st2 ! i) = local_gotno (gots st1 ! i) \<and> page_gotno (gots st2 ! i) = page_gotno (gots st1 ! i)
       \<and> global_gotno (gots st2 ! i) = global_gotno (gots st1 ! i) \<and> tls_gotno (gots st2 ! i) = tls_gotno (gots st1 ! i))"
    by (rule link_primary_list [OF part(2), of abfd]) blast
  have g: "g \<noteq> 0" "g < length (gots st2)"
    using link(3,4) by auto
  obtain st3 where 3: "mips_elf_multi_got info abfd reserved pages lazy st =
       (case assign_ranges (length (gots st3)) abfd reserved pages g 0 (lazy, st3) of
          None \<Rightarrow> None
        | Some (lazy, st) \<Rightarrow>
            (case got_next (gots st ! 0) of
               None \<Rightarrow> None
             | Some l \<Rightarrow>
                 (case assign_globals (length (gots st)) info (MIPS_ELF_GOT_SIZE abfd) l (0, st) of
                    None \<Rightarrow> None
                  | Some (needed, st') \<Rightarrow> Some (got_end (gots st ! l) * MIPS_ELF_GOT_SIZE abfd, needed, lazy, st'))))"
    "length (gots st3) = length (gots st2)" "\<And>i. i \<noteq> 0 \<Longrightarrow> i \<noteq> g \<Longrightarrow> gots st3 ! i = gots st2 ! i"
    "gots st3 ! g = (gots st2 ! g)\<lparr>global_gotno := ?gc\<rparr>" "bfd_map st3 = bfd_map st2" "got_next (gots st3 ! 0) = Some 0"
    "local_gotno (gots st3 ! 0) = unsigned_minus 0 ?gc \<and> global_gotno (gots st3 ! 0) = ?gc \<and> tls_gotno (gots st3 ! 0) = 0"
    by (rule multi_got_ranges [OF part(1) link(1) g link(5), where lazy = lazy]) blast
  have in_cs: "j \<noteq> 0 \<and> j \<noteq> g" if "j \<in> set cs" for j
    using that link(3) by (metis distinct.simps(2) list.set_intros(2))
  have next3: "got_next (gots st3 ! j) = got_next (gots st2 ! j)" if "j \<in> set (g # cs)" for j
    using that 3(3) [of j] 3(4) in_cs [of j] by (cases "j = g") auto
  have chain3: "chain (gots st3) (Some g) (g # cs)" "\<forall>j \<in> set (g # cs). j < length (gots st3)"
    using link(2,4) chain_cong [of "g # cs" "gots st3" "gots st2"] next3 3(2) by auto
  have "set (0 # g # cs) \<subseteq> {..<length (gots st3)}"
    using chain3(2) by auto
  then have "card (set (0 # g # cs)) \<le> length (gots st3)"
    using card_mono [of "{..<length (gots st3)}" "set (0 # g # cs)"] by simp
  then have len: "length (0 # g # cs) \<le> length (gots st3)"
    by (simp only: distinct_card [OF link(3)])
  obtain lazy' st4 where 4: "assign_ranges (length (gots st3)) abfd reserved pages g 0 (lazy, st3) = Some (lazy', st4)"
    "laid_out reserved pages (gots st3) (gots st4) (Some 0) 0 (g # cs)" "length (gots st4) = length (gots st3)"
    "gots st4 ! 0 = (gots st3 ! 0)\<lparr>got_next := got_next (gots st4 ! 0)\<rparr>"
    using assign_ranges_laid_out [OF chain3(1) link(3) chain3(2), of "length (gots st3)" abfd reserved pages 0 lazy] len 3(6) by auto
  have "leads_back (gots st4) g []" "0 \<notin> set cs"
    using 4(2) link(3) by auto
  then obtain js where lead: "got_next (gots st4 ! 0) = Some (last (g # cs))" "leads_back (gots st4) (last (g # cs)) js" "length js = length cs"
    using laid_out_back [of reserved pages "gots st3" "gots st4" g "got_end (gots st4 ! g)" cs "[]"] 4(2) g(1) by auto
  obtain needed st' where 5: "assign_globals (length (gots st4)) info (MIPS_ELF_GOT_SIZE abfd) (last (g # cs)) (0, st4) = Some (needed, st')"
    "gots st' = gots st4"
    using assign_globals_total [OF lead(2), of "length (gots st4)" info "MIPS_ELF_GOT_SIZE abfd" 0] lead(3) len 4(3) by auto
  have result: "mips_elf_multi_got info abfd reserved pages lazy st
      = Some (got_end (gots st' ! last (g # cs)) * MIPS_ELF_GOT_SIZE abfd, needed, lazy', st')"
    unfolding 3(1) 4(1) option.case prod.case lead(1) 5 by (rule refl)
  have map': "bfd_map st' = bfd_map st2"
    using arg_cong [OF 4(4), of bfd2got] 3(5) by (simp add: bfd_map_def 5(2))
  note at = laid_out_nth [OF 4(2), folded table_start_def 5(2)]
  have "mips_elf_adjust_gp abfd st' ibfd = of_nat (take_bit 32 (table_start (gots st') (g # cs) k * MIPS_ELF_GOT_SIZE abfd))"
    if k: "k < length (g # cs)" "map_of (bfd_map st') (bfd_id ibfd) = Some ((g # cs) ! k)" for ibfd k
  proof -
    have "bfd2got (gots st' ! 0) \<noteq> None" "mips_elf_got_for_ibfd st' 0 (bfd_id ibfd) = Some ((g # cs) ! k)"
      using k(2) by (auto simp: bfd_map_def mips_elf_got_for_ibfd_def split: option.splits)
    then have adj: "mips_elf_adjust_gp abfd st' ibfd
        = of_nat (take_bit 32 (got_end (gots st' ! the (got_next (gots st' ! ((g # cs) ! k)))) * MIPS_ELF_GOT_SIZE abfd))"
      by (auto simp: mips_elf_adjust_gp_def Let_def got_end_def simp del: of_nat_take_bit)
    show ?thesis
    proof (cases "k = 0")
      case True
      have "got_end (gots st' ! 0) = unsigned_minus 0 ?gc + ?gc"
        using arg_cong [OF 4(4), of got_end] 3(7) by (simp add: 5(2) got_end_def)
      then show ?thesis
        unfolding adj at(5) [OF k(1)] using True unsigned_minus_end by (simp add: table_start_def)
    next
      case False
      then show ?thesis
        unfolding adj at(5) [OF k(1)] by (simp add: table_start_def)
    qed
  qed
  moreover have "(got_end (gots st' ! ((g # cs) ! k)) - table_start (gots st') (g # cs) k) * MIPS_ELF_GOT_SIZE abfd \<le> MIPS_ELF_GOT_MAX_SIZE info"
    if k: "k < length (g # cs)" "b \<noteq> b'" "b \<noteq> bfd_id abfd" "b' \<noteq> bfd_id abfd"
      "map_of (bfd_map st') b = Some ((g # cs) ! k)" "map_of (bfd_map st') b' = Some ((g # cs) ! k)" for b b' k
  proof -
    let ?i = "(g # cs) ! k"
    note i1 = link(7) [OF k(5) [unfolded map'] k(3)] and i2 = link(7) [OF k(6) [unfolded map'] k(4)]
    have i: "?i \<in> set (g # cs)"
      using k(1) by (rule nth_mem)
    have three: "local_gotno (gots st3 ! ?i) = local_gotno (gots st1 ! ?i)" "page_gotno (gots st3 ! ?i) = page_gotno (gots st1 ! ?i)"
      "tls_gotno (gots st3 ! ?i) = tls_gotno (gots st1 ! ?i)"
      "global_gotno (gots st3 ! ?i) = (if Some ?i = primary arg then ?gc else global_gotno (gots st1 ! ?i))"
      using i1 3(3,4) in_cs i by (cases "?i = g"; auto)+
    have "slots arg ?i (gots st1 ! ?i) \<le> max_count arg"
      using part(3) k(2) i1 i2 unfolding shared_fits_def by blast
    then have "got_end (gots st' ! ?i) - table_start (gots st') (g # cs) k \<le> reserved + (?max - reserved)"
      using at(2,3,4) [OF k(1)] by (simp add: slots_def part(4-6) three got_end_def split: if_split_asm)
    also have "\<dots> = ?max"
      using assms(3) by (auto simp: MIPS_ELF_GOT_MAX_SIZE_def MIPS_ELF_GOT_SIZE_def)
    finally show ?thesis
      by (metis div_mult_mod_eq le_add1 le_trans mult_le_mono1)
  qed
  moreover have "assigned_gotno (gots st' ! ((g # cs) ! k)) = table_start (gots st') (g # cs) k + reserved
      \<and> assigned_gotno (gots st' ! ((g # cs) ! k)) \<le> local_gotno (gots st' ! ((g # cs) ! k))" if "k < length (g # cs)" for k
    using at(1,2) [OF that] by simp
  moreover have "gi \<in> set (g # cs)" if "map_of (bfd_map st') b = Some gi" for b gi
    using link(6) that by (simp add: map')
  ultimately show ?thesis
    using result link(3)
    by - (rule exI [of _ "got_end (gots st' ! last (g # cs)) * MIPS_ELF_GOT_SIZE abfd"], rule exI [of _ needed],
        rule exI [of _ lazy'], rule exI [of _ st'], rule exI [of _ "g # cs"], intro conjI allI impI; (elim conjE)?; (simp; fail | blast))
qed

theorem multi_got_layout_witness:
  "\<exists>sz needed lazy' st' ts. mips_elf_multi_got example_info le_bfd 2 0 0 split_got = Some (sz, needed, lazy', st')
     \<and> sz = got_end (gots st' ! last ts) * 4 \<and> assigned_gotno (gots st' ! (ts ! 0)) = 2"
proof -
  have "gots split_got \<noteq> []" "\<forall>p \<in> set (got_entries (gots split_got ! 0)). ge_abfd (ents split_got ! p) \<noteq> None"
    by (simp_all add: split_got_def example_got_def)
  note layout = multi_got_layout [OF this, of 2 example_info le_bfd 0 0]
  have size: "MIPS_ELF_GOT_SIZE le_bfd = 4"
    by code_simp
  have "(2::nat) \<le> 3"
    by simp
  from layout [OF this] show ?thesis
  proof (elim exE conjE)
    fix sz needed lazy' st' ts
    assume "mips_elf_multi_got example_info le_bfd 2 0 0 split_got
        = Some (sz, needed, lazy', st')" and "sz = got_end (gots st' ! last ts) * MIPS_ELF_GOT_SIZE le_bfd"
      and "ts \<noteq> []" and "\<forall>k < length ts. assigned_gotno (gots st' ! (ts ! k)) = table_start (gots st') ts k + 2
         \<and> assigned_gotno (gots st' ! (ts ! k)) \<le> local_gotno (gots st' ! (ts ! k))"
    then show ?thesis
      by - (rule exI [of _ sz], rule exI [of _ needed], rule exI [of _ lazy'], rule exI [of _ st'], rule exI [of _ ts],
          simp add: size table_start_def)
  qed
qed

end
