(* ===== verification/Mach.thy ===== *)
theory Mach
  imports Objects
begin

text \<open>
  The processors of the MIPS family and the merging of object attributes and header
  flags (elfxx-mips.c): \<^verbatim>\<open>_bfd_elf_mips_mach\<close>, \<^verbatim>\<open>mips_set_isa_flags\<close>, the table
  \<^verbatim>\<open>mips_mach_extensions\<close> with \<^verbatim>\<open>mips_mach_extends_p\<close>, and
  \<^verbatim>\<open>_bfd_mips_elf_merge_private_bfd_data\<close>.

  The values of the header flags are those of sbt-sysheaders/include/elf.h and of
  the MIPS ABI.  What lies in other files of libbfd (the byte order check, the generic object
  attributes, the table of architectures) is the record \<^verbatim>\<open>merge_env\<close>.
\<close>

section \<open>Machines\<close>

datatype mips_mach =
  bfd_mach_mips3000 | bfd_mach_mips3900 | bfd_mach_mips4000 | bfd_mach_mips4010 | bfd_mach_mips4100
  | bfd_mach_mips4111 | bfd_mach_mips4120 | bfd_mach_mips4300 | bfd_mach_mips4400 | bfd_mach_mips4600
  | bfd_mach_mips4650 | bfd_mach_mips5000 | bfd_mach_mips5400 | bfd_mach_mips5500 | bfd_mach_mips6000
  | bfd_mach_mips7000 | bfd_mach_mips8000 | bfd_mach_mips9000 | bfd_mach_mips10000 | bfd_mach_mips12000
  | bfd_mach_mips14000 | bfd_mach_mips16000 | bfd_mach_mips5 | bfd_mach_mips_loongson_2e
  | bfd_mach_mips_loongson_2f | bfd_mach_mips_loongson_3a | bfd_mach_mips_sb1 | bfd_mach_mips_octeon
  | bfd_mach_mips_octeonp | bfd_mach_mips_octeon2 | bfd_mach_mips_xlr | bfd_mach_mipsisa32
  | bfd_mach_mipsisa32r2 | bfd_mach_mipsisa64 | bfd_mach_mipsisa64r2 | bfd_mach_other nat

abbreviation (input) E_MIPS_ARCH_1 :: flagword where "E_MIPS_ARCH_1 \<equiv> 0x00000000"
abbreviation (input) E_MIPS_ARCH_2 :: flagword where "E_MIPS_ARCH_2 \<equiv> 0x10000000"
abbreviation (input) E_MIPS_ARCH_3 :: flagword where "E_MIPS_ARCH_3 \<equiv> 0x20000000"
abbreviation (input) E_MIPS_ARCH_4 :: flagword where "E_MIPS_ARCH_4 \<equiv> 0x30000000"
abbreviation (input) E_MIPS_ARCH_5 :: flagword where "E_MIPS_ARCH_5 \<equiv> 0x40000000"
abbreviation (input) E_MIPS_ARCH_32 :: flagword where "E_MIPS_ARCH_32 \<equiv> 0x50000000"
abbreviation (input) E_MIPS_ARCH_64 :: flagword where "E_MIPS_ARCH_64 \<equiv> 0x60000000"
abbreviation (input) E_MIPS_ARCH_32R2 :: flagword where "E_MIPS_ARCH_32R2 \<equiv> 0x70000000"
abbreviation (input) E_MIPS_ARCH_64R2 :: flagword where "E_MIPS_ARCH_64R2 \<equiv> 0x80000000"
abbreviation (input) E_MIPS_MACH_3900 :: flagword where "E_MIPS_MACH_3900 \<equiv> 0x00810000"
abbreviation (input) E_MIPS_MACH_4010 :: flagword where "E_MIPS_MACH_4010 \<equiv> 0x00820000"
abbreviation (input) E_MIPS_MACH_4100 :: flagword where "E_MIPS_MACH_4100 \<equiv> 0x00830000"
abbreviation (input) E_MIPS_MACH_4650 :: flagword where "E_MIPS_MACH_4650 \<equiv> 0x00850000"
abbreviation (input) E_MIPS_MACH_4120 :: flagword where "E_MIPS_MACH_4120 \<equiv> 0x00870000"
abbreviation (input) E_MIPS_MACH_4111 :: flagword where "E_MIPS_MACH_4111 \<equiv> 0x00880000"
abbreviation (input) E_MIPS_MACH_SB1 :: flagword where "E_MIPS_MACH_SB1 \<equiv> 0x008a0000"
abbreviation (input) E_MIPS_MACH_OCTEON :: flagword where "E_MIPS_MACH_OCTEON \<equiv> 0x008b0000"
abbreviation (input) E_MIPS_MACH_XLR :: flagword where "E_MIPS_MACH_XLR \<equiv> 0x008c0000"
abbreviation (input) E_MIPS_MACH_OCTEON2 :: flagword where "E_MIPS_MACH_OCTEON2 \<equiv> 0x008d0000"
abbreviation (input) E_MIPS_MACH_5400 :: flagword where "E_MIPS_MACH_5400 \<equiv> 0x00910000"
abbreviation (input) E_MIPS_MACH_5500 :: flagword where "E_MIPS_MACH_5500 \<equiv> 0x00980000"
abbreviation (input) E_MIPS_MACH_9K :: flagword where "E_MIPS_MACH_9K \<equiv> 0x00990000"
abbreviation (input) E_MIPS_MACH_LS2E :: flagword where "E_MIPS_MACH_LS2E \<equiv> 0x00a00000"
abbreviation (input) E_MIPS_MACH_LS2F :: flagword where "E_MIPS_MACH_LS2F \<equiv> 0x00a10000"
abbreviation (input) E_MIPS_MACH_LS3A :: flagword where "E_MIPS_MACH_LS3A \<equiv> 0x00a20000"

definition mips_mach_flags :: "(flagword \<times> mips_mach) list" where
  "mips_mach_flags =
     [(E_MIPS_MACH_3900, bfd_mach_mips3900), (E_MIPS_MACH_4010, bfd_mach_mips4010), (E_MIPS_MACH_4100, bfd_mach_mips4100),
      (E_MIPS_MACH_4111, bfd_mach_mips4111), (E_MIPS_MACH_4120, bfd_mach_mips4120), (E_MIPS_MACH_4650, bfd_mach_mips4650),
      (E_MIPS_MACH_5400, bfd_mach_mips5400), (E_MIPS_MACH_5500, bfd_mach_mips5500), (E_MIPS_MACH_9K, bfd_mach_mips9000),
      (E_MIPS_MACH_SB1, bfd_mach_mips_sb1), (E_MIPS_MACH_LS2E, bfd_mach_mips_loongson_2e),
      (E_MIPS_MACH_LS2F, bfd_mach_mips_loongson_2f), (E_MIPS_MACH_LS3A, bfd_mach_mips_loongson_3a),
      (E_MIPS_MACH_OCTEON2, bfd_mach_mips_octeon2), (E_MIPS_MACH_OCTEON, bfd_mach_mips_octeon),
      (E_MIPS_MACH_XLR, bfd_mach_mips_xlr)]"

definition mips_arch_flags :: "(flagword \<times> mips_mach) list" where
  "mips_arch_flags =
     [(E_MIPS_ARCH_1, bfd_mach_mips3000), (E_MIPS_ARCH_2, bfd_mach_mips6000), (E_MIPS_ARCH_3, bfd_mach_mips4000),
      (E_MIPS_ARCH_4, bfd_mach_mips8000), (E_MIPS_ARCH_5, bfd_mach_mips5), (E_MIPS_ARCH_32, bfd_mach_mipsisa32),
      (E_MIPS_ARCH_64, bfd_mach_mipsisa64), (E_MIPS_ARCH_32R2, bfd_mach_mipsisa32r2),
      (E_MIPS_ARCH_64R2, bfd_mach_mipsisa64r2)]"

definition bfd_elf_mips_mach :: "flagword \<Rightarrow> mips_mach" where
  "bfd_elf_mips_mach flags =
     (case map_of mips_mach_flags (flags AND EF_MIPS_MACH) of
        Some m \<Rightarrow> m
      | None \<Rightarrow>
          (case map_of mips_arch_flags (flags AND EF_MIPS_ARCH) of Some m \<Rightarrow> m | None \<Rightarrow> bfd_mach_mips3000))"

fun mips_isa_flags :: "mips_mach \<Rightarrow> flagword" where
  "mips_isa_flags bfd_mach_mips3900 = E_MIPS_ARCH_1 OR E_MIPS_MACH_3900"
| "mips_isa_flags bfd_mach_mips6000 = E_MIPS_ARCH_2"
| "mips_isa_flags bfd_mach_mips4000 = E_MIPS_ARCH_3"
| "mips_isa_flags bfd_mach_mips4300 = E_MIPS_ARCH_3"
| "mips_isa_flags bfd_mach_mips4400 = E_MIPS_ARCH_3"
| "mips_isa_flags bfd_mach_mips4600 = E_MIPS_ARCH_3"
| "mips_isa_flags bfd_mach_mips4010 = E_MIPS_ARCH_3 OR E_MIPS_MACH_4010"
| "mips_isa_flags bfd_mach_mips4100 = E_MIPS_ARCH_3 OR E_MIPS_MACH_4100"
| "mips_isa_flags bfd_mach_mips4111 = E_MIPS_ARCH_3 OR E_MIPS_MACH_4111"
| "mips_isa_flags bfd_mach_mips4120 = E_MIPS_ARCH_3 OR E_MIPS_MACH_4120"
| "mips_isa_flags bfd_mach_mips4650 = E_MIPS_ARCH_3 OR E_MIPS_MACH_4650"
| "mips_isa_flags bfd_mach_mips5400 = E_MIPS_ARCH_4 OR E_MIPS_MACH_5400"
| "mips_isa_flags bfd_mach_mips5500 = E_MIPS_ARCH_4 OR E_MIPS_MACH_5500"
| "mips_isa_flags bfd_mach_mips9000 = E_MIPS_ARCH_4 OR E_MIPS_MACH_9K"
| "mips_isa_flags bfd_mach_mips5000 = E_MIPS_ARCH_4"
| "mips_isa_flags bfd_mach_mips7000 = E_MIPS_ARCH_4"
| "mips_isa_flags bfd_mach_mips8000 = E_MIPS_ARCH_4"
| "mips_isa_flags bfd_mach_mips10000 = E_MIPS_ARCH_4"
| "mips_isa_flags bfd_mach_mips12000 = E_MIPS_ARCH_4"
| "mips_isa_flags bfd_mach_mips14000 = E_MIPS_ARCH_4"
| "mips_isa_flags bfd_mach_mips16000 = E_MIPS_ARCH_4"
| "mips_isa_flags bfd_mach_mips5 = E_MIPS_ARCH_5"
| "mips_isa_flags bfd_mach_mips_loongson_2e = E_MIPS_ARCH_3 OR E_MIPS_MACH_LS2E"
| "mips_isa_flags bfd_mach_mips_loongson_2f = E_MIPS_ARCH_3 OR E_MIPS_MACH_LS2F"
| "mips_isa_flags bfd_mach_mips_sb1 = E_MIPS_ARCH_64 OR E_MIPS_MACH_SB1"
| "mips_isa_flags bfd_mach_mips_loongson_3a = E_MIPS_ARCH_64 OR E_MIPS_MACH_LS3A"
| "mips_isa_flags bfd_mach_mips_octeon = E_MIPS_ARCH_64R2 OR E_MIPS_MACH_OCTEON"
| "mips_isa_flags bfd_mach_mips_octeonp = E_MIPS_ARCH_64R2 OR E_MIPS_MACH_OCTEON"
| "mips_isa_flags bfd_mach_mips_xlr = E_MIPS_ARCH_64 OR E_MIPS_MACH_XLR"
| "mips_isa_flags bfd_mach_mips_octeon2 = E_MIPS_ARCH_64R2 OR E_MIPS_MACH_OCTEON2"
| "mips_isa_flags bfd_mach_mipsisa32 = E_MIPS_ARCH_32"
| "mips_isa_flags bfd_mach_mipsisa64 = E_MIPS_ARCH_64"
| "mips_isa_flags bfd_mach_mipsisa32r2 = E_MIPS_ARCH_32R2"
| "mips_isa_flags bfd_mach_mipsisa64r2 = E_MIPS_ARCH_64R2"
| "mips_isa_flags _ = E_MIPS_ARCH_1"

definition mips_set_isa_flags :: "mips_mach \<Rightarrow> flagword \<Rightarrow> flagword" where
  "mips_set_isa_flags m flags = (flags AND NOT (EF_MIPS_ARCH OR EF_MIPS_MACH)) OR mips_isa_flags m"

text \<open>The header part of \<^verbatim>\<open>_bfd_mips_elf_final_write_processing\<close>: flags with a machine are kept.\<close>

definition final_isa_flags :: "mips_mach \<Rightarrow> flagword \<Rightarrow> flagword" where
  "final_isa_flags m flags = (if flags AND EF_MIPS_MACH = 0 then mips_set_isa_flags m flags else flags)"

section \<open>Extensions\<close>

definition mips_mach_extensions :: "(mips_mach \<times> mips_mach) list" where
  "mips_mach_extensions =
     [(bfd_mach_mips_octeon2, bfd_mach_mips_octeonp),
      (bfd_mach_mips_octeonp, bfd_mach_mips_octeon),
      (bfd_mach_mips_octeon, bfd_mach_mipsisa64r2),
      (bfd_mach_mipsisa64r2, bfd_mach_mipsisa64),
      (bfd_mach_mips_sb1, bfd_mach_mipsisa64),
      (bfd_mach_mips_xlr, bfd_mach_mipsisa64),
      (bfd_mach_mips_loongson_3a, bfd_mach_mipsisa64),
      (bfd_mach_mipsisa64, bfd_mach_mips5),
      (bfd_mach_mips12000, bfd_mach_mips10000),
      (bfd_mach_mips14000, bfd_mach_mips10000),
      (bfd_mach_mips16000, bfd_mach_mips10000),
      (bfd_mach_mips5500, bfd_mach_mips5400),
      (bfd_mach_mips5400, bfd_mach_mips5000),
      (bfd_mach_mips5, bfd_mach_mips8000),
      (bfd_mach_mips10000, bfd_mach_mips8000),
      (bfd_mach_mips5000, bfd_mach_mips8000),
      (bfd_mach_mips7000, bfd_mach_mips8000),
      (bfd_mach_mips9000, bfd_mach_mips8000),
      (bfd_mach_mips4120, bfd_mach_mips4100),
      (bfd_mach_mips4111, bfd_mach_mips4100),
      (bfd_mach_mips_loongson_2e, bfd_mach_mips4000),
      (bfd_mach_mips_loongson_2f, bfd_mach_mips4000),
      (bfd_mach_mips8000, bfd_mach_mips4000),
      (bfd_mach_mips4650, bfd_mach_mips4000),
      (bfd_mach_mips4600, bfd_mach_mips4000),
      (bfd_mach_mips4400, bfd_mach_mips4000),
      (bfd_mach_mips4300, bfd_mach_mips4000),
      (bfd_mach_mips4100, bfd_mach_mips4000),
      (bfd_mach_mips4010, bfd_mach_mips4000),
      (bfd_mach_mipsisa32r2, bfd_mach_mipsisa32),
      (bfd_mach_mips4000, bfd_mach_mips6000),
      (bfd_mach_mipsisa32, bfd_mach_mips6000),
      (bfd_mach_mips6000, bfd_mach_mips3000),
      (bfd_mach_mips3900, bfd_mach_mips3000)]"

text \<open>The loop over the table, which follows the chain of bases in one pass.\<close>

fun extends_loop :: "mips_mach \<Rightarrow> mips_mach \<Rightarrow> (mips_mach \<times> mips_mach) list \<Rightarrow> bool" where
  "extends_loop base extension [] = False"
| "extends_loop base extension ((e, b) # tab) =
     (if extension = e then b = base \<or> extends_loop base b tab else extends_loop base extension tab)"

declare conj_cong [fundef_cong]

function mips_mach_extends_p :: "mips_mach \<Rightarrow> mips_mach \<Rightarrow> bool" where
  "mips_mach_extends_p base extension =
     (if extension = base then True
      else if base = bfd_mach_mipsisa32 \<and> mips_mach_extends_p bfd_mach_mipsisa64 extension then True
      else if base = bfd_mach_mipsisa32r2 \<and> mips_mach_extends_p bfd_mach_mipsisa64r2 extension then True
      else extends_loop base extension mips_mach_extensions)"
  by pat_completeness auto

termination
  by (relation "measure (\<lambda>(base, _). if base = bfd_mach_mipsisa32 \<or> base = bfd_mach_mipsisa32r2 then 1 else 0)") auto

declare conj_cong [fundef_cong del]
declare mips_mach_extends_p.simps [simp del]

end
