(* ===== verification/Merge.thy ===== *)
theory Merge
  imports Mach
begin

text \<open>
  Merging the header flags, the machine and the object attributes of an input file
  into the output file (\<^verbatim>\<open>_bfd_mips_elf_merge_private_bfd_data\<close> and
  \<^verbatim>\<open>mips_elf_merge_obj_attributes\<close> of elfxx-mips.c).  The messages given to
  \<^verbatim>\<open>_bfd_error_handler\<close> are values; \<^verbatim>\<open>None\<close> is a call of \<^verbatim>\<open>abort\<close>.
\<close>

definition EF_MIPS_XGOT :: flagword where "EF_MIPS_XGOT = 0x8"
definition EF_MIPS_UCODE :: flagword where "EF_MIPS_UCODE = 0x10"
definition EF_MIPS_ABI :: flagword where "EF_MIPS_ABI = 0xf000"
definition EF_MIPS_ARCH_ASE :: flagword where "EF_MIPS_ARCH_ASE = 0x0f000000"
definition EF_MIPS_ARCH_ASE_M16 :: flagword where "EF_MIPS_ARCH_ASE_M16 = 0x04000000"
definition EF_MIPS_ARCH_ASE_MICROMIPS :: flagword where "EF_MIPS_ARCH_ASE_MICROMIPS = 0x02000000"

abbreviation (input) E_MIPS_ABI_O32 :: flagword where "E_MIPS_ABI_O32 \<equiv> 0x1000"
abbreviation (input) E_MIPS_ABI_O64 :: flagword where "E_MIPS_ABI_O64 \<equiv> 0x2000"
abbreviation (input) E_MIPS_ABI_EABI32 :: flagword where "E_MIPS_ABI_EABI32 \<equiv> 0x3000"
abbreviation (input) E_MIPS_ABI_EABI64 :: flagword where "E_MIPS_ABI_EABI64 \<equiv> 0x4000"

definition elf_mips_abi_name :: "bfd \<Rightarrow> string" where
  "elf_mips_abi_name abfd =
     (let abi = e_flags abfd AND EF_MIPS_ABI
      in if abi = 0 then (if ABI_N32_P abfd then ''N32'' else if ABI_64_P abfd then ''64'' else ''none'')
         else if abi = E_MIPS_ABI_O32 then ''O32''
         else if abi = E_MIPS_ABI_O64 then ''O64''
         else if abi = E_MIPS_ABI_EABI32 then ''EABI32''
         else if abi = E_MIPS_ABI_EABI64 then ''EABI64''
         else ''unknown abi'')"

section \<open>Files to merge\<close>

record arch_info =
  ai_arch :: nat
  ai_mach :: mips_mach
  the_default :: bool

record merge_bfd = bfd +
  target_name :: string
  is_mips_elf :: bool
  bfd_arch_info :: arch_info
  is_dynamic :: bool
  bfd_sections :: "asection list"
  elf_flags_init :: bool
  ei_class :: nat
  attr_initialised :: bool
  fp_abi :: nat
  fp_abi_type :: nat

abbreviation bfd_get_mach :: "merge_bfd \<Rightarrow> mips_mach" where
  "bfd_get_mach b \<equiv> ai_mach (bfd_arch_info b)"

datatype merge_message =
  Endianness_incompatible | Abi_incompatible | Abicalls_mixed | Mixed_32_64
  | Isa_mismatch mips_mach mips_mach
  | Abi_mismatch string string
  | Ase_mismatch string string
  | Flags_differ flagword flagword
  | Unknown_fp_abi nat nat
  | Fp_mismatch nat string nat string

text \<open>Functions of other files: results of the generic byte order check, of copying and merging
  the generic attributes, and of setting the architecture.\<close>

record merge_env =
  verify_endian_match :: "merge_bfd \<Rightarrow> merge_bfd \<Rightarrow> bool"
  copy_obj_attributes :: "merge_bfd \<Rightarrow> merge_bfd \<Rightarrow> merge_bfd"
  merge_object_attributes :: "merge_bfd \<Rightarrow> merge_bfd \<Rightarrow> merge_bfd"
  set_arch_mach :: "merge_bfd \<Rightarrow> nat \<Rightarrow> mips_mach \<Rightarrow> merge_bfd option"

section \<open>Object attributes\<close>

text \<open>The message for two different known floating point ABIs of the output and the input file.\<close>

definition fp_conflict :: "nat \<Rightarrow> nat \<Rightarrow> nat \<Rightarrow> nat \<Rightarrow> merge_message option" where
  "fp_conflict obfd out ibfd inn =
     (if out = 1 then
        (if inn = 2 then Some (Fp_mismatch obfd ''-msingle-float'' ibfd ''-mdouble-float'')
         else if inn = 3 then Some (Fp_mismatch obfd ''hard float'' ibfd ''soft float'')
         else if inn = 4 then Some (Fp_mismatch obfd ''-msingle-float'' ibfd ''-mips32r2 -mfp64'')
         else None)
      else if out = 2 then
        (if inn = 1 then Some (Fp_mismatch ibfd ''-msingle-float'' obfd ''-mdouble-float'')
         else if inn = 3 then Some (Fp_mismatch obfd ''hard float'' ibfd ''soft float'')
         else if inn = 4 then Some (Fp_mismatch obfd ''-mdouble-float'' ibfd ''-mips32r2 -mfp64'')
         else None)
      else if out = 3 then
        (if inn = 1 \<or> inn = 2 \<or> inn = 4 then Some (Fp_mismatch ibfd ''hard float'' obfd ''soft float'')
         else None)
      else if out = 4 then
        (if inn = 1 then Some (Fp_mismatch ibfd ''-msingle-float'' obfd ''-mips32r2 -mfp64'')
         else if inn = 2 then Some (Fp_mismatch ibfd ''-mdouble-float'' obfd ''-mips32r2 -mfp64'')
         else if inn = 3 then Some (Fp_mismatch obfd ''hard float'' ibfd ''soft float'')
         else None)
      else None)"

definition merge_fp_abi :: "merge_bfd \<Rightarrow> merge_bfd \<Rightarrow> (merge_message list \<times> merge_bfd) option" where
  "merge_fp_abi ibfd obfd =
     (if fp_abi ibfd = fp_abi obfd then Some ([], obfd)
      else
        let obfd = obfd\<lparr>fp_abi_type := 1\<rparr>
        in if fp_abi obfd = 0 then Some ([], obfd\<lparr>fp_abi := fp_abi ibfd\<rparr>)
           else if fp_abi ibfd = 0 then Some ([], obfd)
           else if fp_abi ibfd > 4 then Some ([Unknown_fp_abi (bfd_id ibfd) (fp_abi ibfd)], obfd)
           else if fp_abi obfd > 4 then Some ([Unknown_fp_abi (bfd_id obfd) (fp_abi obfd)], obfd)
           else map_option (\<lambda>m. ([m], obfd)) (fp_conflict (bfd_id obfd) (fp_abi obfd) (bfd_id ibfd) (fp_abi ibfd)))"

definition mips_elf_merge_obj_attributes ::
  "merge_env \<Rightarrow> merge_bfd \<Rightarrow> merge_bfd \<Rightarrow> (merge_message list \<times> merge_bfd) option" where
  "mips_elf_merge_obj_attributes env ibfd obfd =
     (if \<not> attr_initialised obfd then Some ([], (copy_obj_attributes env ibfd obfd)\<lparr>attr_initialised := True\<rparr>)
      else case merge_fp_abi ibfd obfd of
             None \<Rightarrow> None
           | Some (ms, obfd) \<Rightarrow> Some (ms, merge_object_attributes env ibfd obfd))"

section \<open>Header flags\<close>

definition mips_32bit_flags_p :: "flagword \<Rightarrow> bool" where
  "mips_32bit_flags_p flags \<longleftrightarrow>
     flags AND EF_MIPS_32BITMODE \<noteq> 0
     \<or> flags AND EF_MIPS_ABI = E_MIPS_ABI_O32
     \<or> flags AND EF_MIPS_ABI = E_MIPS_ABI_EABI32
     \<or> flags AND EF_MIPS_ARCH = E_MIPS_ARCH_1
     \<or> flags AND EF_MIPS_ARCH = E_MIPS_ARCH_2
     \<or> flags AND EF_MIPS_ARCH = E_MIPS_ARCH_32
     \<or> flags AND EF_MIPS_ARCH = E_MIPS_ARCH_32R2"

text \<open>Whether a section makes the flags of its file count.\<close>

definition significant_section :: "asection \<Rightarrow> bool" where
  "significant_section sec \<longleftrightarrow>
     SEC_IS_COMMON \<notin> sec_flags sec \<and> sec_name sec \<noteq> ''.reginfo'' \<and> sec_name sec \<noteq> ''.mdebug''
     \<and> (sec_size sec \<noteq> 0 \<or> (sec_name sec \<noteq> ''.text'' \<and> sec_name sec \<noteq> ''.data'' \<and> sec_name sec \<noteq> ''.bss''))"

definition null_input_bfd :: "merge_bfd \<Rightarrow> bool" where
  "null_input_bfd ibfd \<longleftrightarrow> \<not> list_ex significant_section (bfd_sections ibfd)"

definition merge_first :: "merge_env \<Rightarrow> merge_bfd \<Rightarrow> flagword \<Rightarrow> merge_bfd \<Rightarrow> bool \<times> merge_bfd" where
  "merge_first env ibfd new_flags obfd =
     (let obfd = obfd\<lparr>elf_flags_init := True, e_flags := new_flags, ei_class := ei_class ibfd\<rparr>
      in if ai_arch (bfd_arch_info obfd) = ai_arch (bfd_arch_info ibfd)
            \<and> (the_default (bfd_arch_info obfd) \<or> mips_mach_extends_p (bfd_get_mach obfd) (bfd_get_mach ibfd))
         then (case set_arch_mach env obfd (ai_arch (bfd_arch_info ibfd)) (bfd_get_mach ibfd) of
                 None \<Rightarrow> (False, obfd)
               | Some obfd \<Rightarrow> (True, obfd))
         else (True, obfd))"

definition merge_pic :: "flagword \<Rightarrow> flagword \<Rightarrow> merge_bfd \<Rightarrow> merge_message list \<times> merge_bfd" where
  "merge_pic new_flags old_flags obfd =
     (let pic = EF_MIPS_PIC OR EF_MIPS_CPIC;
          ms = (if (new_flags AND pic \<noteq> 0) \<noteq> (old_flags AND pic \<noteq> 0) then [Abicalls_mixed] else []);
          obfd = (if new_flags AND pic \<noteq> 0 then obfd\<lparr>e_flags := e_flags obfd OR EF_MIPS_CPIC\<rparr> else obfd);
          obfd = (if new_flags AND EF_MIPS_PIC = 0 then obfd\<lparr>e_flags := e_flags obfd AND NOT EF_MIPS_PIC\<rparr> else obfd)
      in (ms, obfd))"

definition merge_isa ::
  "merge_bfd \<Rightarrow> flagword \<Rightarrow> flagword \<Rightarrow> merge_bfd \<Rightarrow> bool \<times> merge_message list \<times> merge_bfd" where
  "merge_isa ibfd new_flags old_flags obfd =
     (if mips_32bit_flags_p old_flags \<noteq> mips_32bit_flags_p new_flags then (False, [Mixed_32_64], obfd)
      else if \<not> mips_mach_extends_p (bfd_get_mach ibfd) (bfd_get_mach obfd) then
        (if mips_mach_extends_p (bfd_get_mach obfd) (bfd_get_mach ibfd) then
           let obfd = obfd\<lparr>bfd_arch_info := bfd_arch_info ibfd\<rparr>;
               obfd = obfd\<lparr>e_flags := e_flags obfd AND NOT (EF_MIPS_ARCH OR EF_MIPS_MACH)\<rparr>;
               obfd = obfd\<lparr>e_flags := e_flags obfd OR
                             (new_flags AND (EF_MIPS_ARCH OR EF_MIPS_MACH OR EF_MIPS_32BITMODE))\<rparr>
           in (True, [],
               if old_flags AND EF_MIPS_ABI = 0 \<and> mips_32bit_flags_p new_flags
                  \<and> \<not> mips_32bit_flags_p (new_flags AND NOT EF_MIPS_ABI)
               then obfd\<lparr>e_flags := e_flags obfd OR (new_flags AND EF_MIPS_ABI)\<rparr> else obfd)
         else (False, [Isa_mismatch (bfd_get_mach ibfd) (bfd_get_mach obfd)], obfd))
      else (True, [], obfd))"

text \<open>The comparison of the ABIs, with the flags left for the last comparison.\<close>

definition merge_abi ::
  "merge_bfd \<Rightarrow> flagword \<Rightarrow> flagword \<Rightarrow> merge_bfd \<Rightarrow> bool \<times> merge_message list \<times> flagword \<times> flagword" where
  "merge_abi ibfd new_flags old_flags obfd =
     (if new_flags AND EF_MIPS_ABI \<noteq> old_flags AND EF_MIPS_ABI \<or> ei_class ibfd \<noteq> ei_class obfd
      then
        let bad = new_flags AND EF_MIPS_ABI \<noteq> 0 \<and> old_flags AND EF_MIPS_ABI \<noteq> 0 \<or> ei_class ibfd \<noteq> ei_class obfd
        in (\<not> bad,
            if bad then [Abi_mismatch (elf_mips_abi_name (bfd.truncate ibfd)) (elf_mips_abi_name (bfd.truncate obfd))] else [],
            new_flags AND NOT EF_MIPS_ABI, old_flags AND NOT EF_MIPS_ABI)
      else (True, [], new_flags, old_flags))"

definition merge_ase ::
  "flagword \<Rightarrow> flagword \<Rightarrow> merge_bfd \<Rightarrow> bool \<times> merge_message list \<times> flagword \<times> flagword \<times> merge_bfd" where
  "merge_ase new_flags old_flags obfd =
     (if new_flags AND EF_MIPS_ARCH_ASE \<noteq> old_flags AND EF_MIPS_ARCH_ASE
      then
        let micro_mis = old_flags AND EF_MIPS_ARCH_ASE_M16 \<noteq> 0 \<and> new_flags AND EF_MIPS_ARCH_ASE_MICROMIPS \<noteq> 0;
            m16_mis = old_flags AND EF_MIPS_ARCH_ASE_MICROMIPS \<noteq> 0 \<and> new_flags AND EF_MIPS_ARCH_ASE_M16 \<noteq> 0;
            bad = m16_mis \<or> micro_mis
        in (\<not> bad,
            if bad then [Ase_mismatch (if m16_mis then ''MIPS16'' else ''microMIPS'') (if m16_mis then ''microMIPS'' else ''MIPS16'')]
            else [],
            new_flags AND NOT EF_MIPS_ARCH_ASE, old_flags AND NOT EF_MIPS_ARCH_ASE,
            obfd\<lparr>e_flags := e_flags obfd OR (new_flags AND EF_MIPS_ARCH_ASE)\<rparr>)
      else (True, [], new_flags, old_flags, obfd))"

text \<open>The flags that take part in the comparison.\<close>

definition comparable_flags :: "flagword \<Rightarrow> flagword" where
  "comparable_flags flags = flags AND NOT EF_MIPS_NOREORDER AND NOT EF_MIPS_XGOT AND NOT EF_MIPS_UCODE"

definition input_flags :: "merge_bfd \<Rightarrow> flagword" where
  "input_flags ibfd =
     (let f = comparable_flags (e_flags ibfd) in if is_dynamic ibfd then f OR (EF_MIPS_PIC OR EF_MIPS_CPIC) else f)"

definition merge_flags :: "merge_bfd \<Rightarrow> merge_bfd \<Rightarrow> bool \<times> merge_message list \<times> merge_bfd" where
  "merge_flags ibfd obfd =
     (let new_flags = input_flags ibfd; old_flags = comparable_flags (e_flags obfd)
      in if new_flags = old_flags then (True, [], obfd)
         else if null_input_bfd ibfd then (True, [], obfd)
         else
           let (ms1, obfd) = merge_pic new_flags old_flags obfd;
               new_flags = new_flags AND NOT (EF_MIPS_PIC OR EF_MIPS_CPIC);
               old_flags = old_flags AND NOT (EF_MIPS_PIC OR EF_MIPS_CPIC);
               (ok1, ms2, obfd) = merge_isa ibfd new_flags old_flags obfd;
               new_flags = new_flags AND NOT (EF_MIPS_ARCH OR EF_MIPS_MACH OR EF_MIPS_32BITMODE);
               old_flags = old_flags AND NOT (EF_MIPS_ARCH OR EF_MIPS_MACH OR EF_MIPS_32BITMODE);
               (ok2, ms3, new_flags, old_flags) = merge_abi ibfd new_flags old_flags obfd;
               (ok3, ms4, new_flags, old_flags, obfd) = merge_ase new_flags old_flags obfd;
               ok4 = (new_flags = old_flags)
           in (ok1 \<and> ok2 \<and> ok3 \<and> ok4,
               ms1 @ ms2 @ ms3 @ ms4 @ (if ok4 then [] else [Flags_differ new_flags old_flags]), obfd))"

definition bfd_mips_elf_merge_private_bfd_data ::
  "merge_env \<Rightarrow> merge_bfd \<Rightarrow> merge_bfd \<Rightarrow> (bool \<times> merge_message list \<times> merge_bfd) option" where
  "bfd_mips_elf_merge_private_bfd_data env ibfd obfd =
     (if \<not> verify_endian_match env ibfd obfd then Some (False, [Endianness_incompatible], obfd)
      else if \<not> is_mips_elf ibfd \<or> \<not> is_mips_elf obfd then Some (True, [], obfd)
      else if target_name ibfd \<noteq> target_name obfd then Some (False, [Abi_incompatible], obfd)
      else
        case mips_elf_merge_obj_attributes env ibfd obfd of
          None \<Rightarrow> None
        | Some (ms, obfd) \<Rightarrow>
            let new_flags = e_flags ibfd;
                obfd = obfd\<lparr>e_flags := e_flags obfd OR (new_flags AND EF_MIPS_NOREORDER)\<rparr>
            in if \<not> elf_flags_init obfd
               then (let (ok, obfd) = merge_first env ibfd new_flags obfd in Some (ok, ms, obfd))
               else (let (ok, ms', obfd) = merge_flags ibfd obfd in Some (ok, ms @ ms', obfd)))"

definition bfd_mips_elf_set_private_flags :: "flagword \<Rightarrow> merge_bfd \<Rightarrow> merge_bfd" where
  "bfd_mips_elf_set_private_flags flags abfd = abfd\<lparr>e_flags := flags, elf_flags_init := True\<rparr>"

end
