(* ===== verification/MachSpec.thy ===== *)
theory MachSpec
  imports Mach
begin

text \<open>
  What the machine functions promise: extension is a partial order generated by the table,
  and a machine written to the header flags is read back as one it extends.
\<close>

section \<open>One pass over a sorted table\<close>

text \<open>In a topologically sorted table no later entry leads back to the extension of an earlier one.\<close>

fun sorted_table :: "('a \<times> 'a) list \<Rightarrow> bool" where
  "sorted_table [] = True"
| "sorted_table ((e, b) # tab) = (b \<noteq> e \<and> e \<notin> fst ` set tab \<and> e \<notin> snd ` set tab \<and> sorted_table tab)"

lemma sorted_extensions: "sorted_table mips_mach_extensions"
  by (simp add: mips_mach_extensions_def)

lemma path_avoids:
  assumes "(x, y) \<in> (insert (e, b) R)\<^sup>*" "x \<noteq> e" "e \<notin> snd ` R"
  shows "(x, y) \<in> R\<^sup>* \<and> (y \<noteq> e)"
  using assms(1)
proof (induction rule: rtrancl_induct)
  case base
  then show ?case using assms(2) by simp
next
  case (step y z)
  then have "(y, z) \<in> R" by auto
  then have "z \<noteq> e" using assms(3) by force
  then show ?case using step(3) \<open>(y, z) \<in> R\<close> by (meson rtrancl.rtrancl_into_rtrancl)
qed

lemma extends_loop_path:
  "sorted_table tab \<Longrightarrow> extends_loop base x tab \<longleftrightarrow> (x, base) \<in> (set tab)\<^sup>+"
proof (induction tab arbitrary: x)
  case Nil
  then show ?case by simp
next
  case (Cons p tab)
  obtain e b where p: "p = (e, b)" by force
  let ?R = "set tab"
  have e: "e \<notin> snd ` ?R" "e \<notin> fst ` ?R" "b \<noteq> e" and IH: "\<And>x. extends_loop base x tab \<longleftrightarrow> (x, base) \<in> ?R\<^sup>+"
    using Cons by (simp_all add: p)
  have mono: "?R\<^sup>+ \<subseteq> (insert (e, b) ?R)\<^sup>+"
    by (rule trancl_mono_subset) auto
  show ?case
  proof (cases "x = e")
    case True
    have "(e, base) \<in> (insert (e, b) ?R)\<^sup>+ \<longleftrightarrow> (b, base) \<in> (insert (e, b) ?R)\<^sup>*"
      using e(2) by (subst trancl_unfold_left) force
    also have "\<dots> \<longleftrightarrow> (b, base) \<in> ?R\<^sup>*"
      using path_avoids [of b base e b ?R] e rtrancl_mono [of ?R "insert (e, b) ?R"] by auto
    also have "\<dots> \<longleftrightarrow> b = base \<or> (b, base) \<in> ?R\<^sup>+"
      by (simp add: rtrancl_eq_or_trancl) blast
    finally show ?thesis
      using True IH by (simp add: p)
  next
    case False
    have "(x, base) \<in> ?R\<^sup>+" if path: "(x, base) \<in> (insert (e, b) ?R)\<^sup>+"
    proof -
      obtain z where z: "(x, z) \<in> (insert (e, b) ?R)\<^sup>*" "(z, base) \<in> insert (e, b) ?R"
        using tranclD2 [OF path] by blast
      then have "(x, z) \<in> ?R\<^sup>*" "z \<noteq> e"
        using path_avoids [OF z(1) False e(1)] by auto
      then show ?thesis
        using z(2) by (auto intro: rtrancl_into_trancl1)
    qed
    then show ?thesis
      using False IH mono by (auto simp: p)
  qed
qed

section \<open>The order of the machines\<close>

text \<open>The relation the functions implement: the table, and 64-bit machines run 32-bit code.\<close>

definition mach_steps :: "(mips_mach \<times> mips_mach) set" where
  "mach_steps = set mips_mach_extensions
     \<union> {(bfd_mach_mipsisa64, bfd_mach_mipsisa32), (bfd_mach_mipsisa64r2, bfd_mach_mipsisa32r2)}"

abbreviation table_steps :: "(mips_mach \<times> mips_mach) set" where
  "table_steps \<equiv> set mips_mach_extensions"

lemma extends_p_table:
  "mips_mach_extends_p base x \<longleftrightarrow> (x, base) \<in> table_steps\<^sup>*
     \<or> base = bfd_mach_mipsisa32 \<and> (x, bfd_mach_mipsisa64) \<in> table_steps\<^sup>*
     \<or> base = bfd_mach_mipsisa32r2 \<and> (x, bfd_mach_mipsisa64r2) \<in> table_steps\<^sup>*"
proof -
  have loop: "extends_loop b x mips_mach_extensions \<longleftrightarrow> (x, b) \<in> table_steps\<^sup>+" for b
    by (rule extends_loop_path [OF sorted_extensions])
  have star: "x = b \<or> (x, b) \<in> table_steps\<^sup>+ \<longleftrightarrow> (x, b) \<in> table_steps\<^sup>*" for b
    by (simp only: rtrancl_eq_or_trancl) blast
  have plain: "mips_mach_extends_p b x \<longleftrightarrow> (x, b) \<in> table_steps\<^sup>*" if "b \<noteq> bfd_mach_mipsisa32" "b \<noteq> bfd_mach_mipsisa32r2" for b
    unfolding mips_mach_extends_p.simps [of b] loop star [symmetric] using that by simp
  show ?thesis
    unfolding mips_mach_extends_p.simps [of base] loop using plain star [of base] by simp blast
qed

lemma table_edge: "(x, y) \<in> table_steps \<Longrightarrow> (x, y) \<in> mach_steps"
  by (simp add: mach_steps_def)

lemma from_isa32:
  "(bfd_mach_mipsisa32, y) \<in> table_steps \<longleftrightarrow> y = bfd_mach_mips6000"
  "(bfd_mach_mipsisa32r2, y) \<in> table_steps \<longleftrightarrow> y = bfd_mach_mipsisa32"
  by (auto simp: mips_mach_extensions_def)

lemma isa64_below: "(bfd_mach_mipsisa64, bfd_mach_mips6000) \<in> table_steps\<^sup>*" "(bfd_mach_mipsisa64r2, bfd_mach_mipsisa64) \<in> table_steps\<^sup>*"
proof -
  have "(bfd_mach_mipsisa64, bfd_mach_mips5) \<in> table_steps" "(bfd_mach_mips5, bfd_mach_mips8000) \<in> table_steps"
    "(bfd_mach_mips8000, bfd_mach_mips4000) \<in> table_steps" "(bfd_mach_mips4000, bfd_mach_mips6000) \<in> table_steps"
    "(bfd_mach_mipsisa64r2, bfd_mach_mipsisa64) \<in> table_steps"
    by (simp_all add: mips_mach_extensions_def)
  then show "(bfd_mach_mipsisa64, bfd_mach_mips6000) \<in> table_steps\<^sup>*" "(bfd_mach_mipsisa64r2, bfd_mach_mipsisa64) \<in> table_steps\<^sup>*"
    by (meson converse_rtrancl_into_rtrancl rtrancl.rtrancl_refl)+
qed

lemma extends_p_step:
  assumes "mips_mach_extends_p y x" "(y, z) \<in> mach_steps"
  shows "mips_mach_extends_p z x"
  using assms isa64_below unfolding extends_p_table mach_steps_def
  by (elim disjE conjE UnE insertE emptyE; simp add: from_isa32) (meson rtrancl.rtrancl_into_rtrancl rtrancl_trans)+

lemma extends_p_iff: "mips_mach_extends_p base x \<longleftrightarrow> (x, base) \<in> mach_steps\<^sup>*"
proof
  have *: "table_steps\<^sup>* \<subseteq> mach_steps\<^sup>*"
    by (rule rtrancl_mono) (auto simp: mach_steps_def)
  have "(bfd_mach_mipsisa64, bfd_mach_mipsisa32) \<in> mach_steps" "(bfd_mach_mipsisa64r2, bfd_mach_mipsisa32r2) \<in> mach_steps"
    by (simp_all add: mach_steps_def)
  then show "mips_mach_extends_p base x \<Longrightarrow> (x, base) \<in> mach_steps\<^sup>*"
    using * unfolding extends_p_table by (meson rtrancl.rtrancl_into_rtrancl subsetD)
next
  show "(x, base) \<in> mach_steps\<^sup>* \<Longrightarrow> mips_mach_extends_p base x"
  proof (induction rule: rtrancl_induct)
    case base
    then show ?case by (simp add: mips_mach_extends_p.simps)
  next
    case (step y z)
    then show ?case using extends_p_step by blast
  qed
qed

text \<open>Every step goes forward in the table, so no machine extends itself in a proper sense.\<close>

definition table_pos :: "mips_mach \<Rightarrow> nat" where
  "table_pos m = length (takeWhile (\<lambda>p. fst p \<noteq> m) mips_mach_extensions)"

lemma steps_forward: "(x, y) \<in> mach_steps \<Longrightarrow> table_pos x < table_pos y"
proof -
  have "\<forall>(x, y) \<in> mach_steps. table_pos x < table_pos y"
    by (simp add: mach_steps_def table_pos_def mips_mach_extensions_def)
  then show "(x, y) \<in> mach_steps \<Longrightarrow> table_pos x < table_pos y"
    by blast
qed

lemma path_forward: "(x, y) \<in> mach_steps\<^sup>* \<Longrightarrow> x = y \<or> table_pos x < table_pos y"
proof (induction rule: rtrancl_induct)
  case (step y z)
  then show ?case
    using steps_forward [OF step(2)] by auto
qed simp

text \<open>The laws that the merging of machines rests on.\<close>

locale machine_order =
  fixes runs :: "'m \<Rightarrow> 'm \<Rightarrow> bool"
  assumes runs_refl: "runs m m"
    and runs_trans: "runs a b \<Longrightarrow> runs b c \<Longrightarrow> runs a c"
    and runs_antisym: "runs a b \<Longrightarrow> runs b a \<Longrightarrow> a = b"
begin

text \<open>Steps that only go up keep every machine met so far below the result.\<close>

lemma fold_runs:
  assumes "\<And>x acc acc'. Inv acc \<Longrightarrow> x \<in> S \<Longrightarrow> step x acc = Some acc' \<Longrightarrow>
      Inv acc' \<and> runs (mach acc) (mach acc') \<and> (P x \<longrightarrow> runs (need x) (mach acc'))"
    and "foldl (\<lambda>a x. Option.bind a (step x)) (Some acc) xs = Some acc'" "Inv acc" "set xs \<subseteq> S"
  shows "Inv acc' \<and> runs (mach acc) (mach acc') \<and> (\<forall>x \<in> set xs. P x \<longrightarrow> runs (need x) (mach acc'))"
  using assms(2-)
proof (induction xs arbitrary: acc)
  case Nil
  then show ?case by (simp add: runs_refl)
next
  case (Cons x xs)
  have none: "foldl (\<lambda>a x. Option.bind a (step x)) None ys = None" for ys
    by (induction ys) simp_all
  obtain acc1 where 1: "step x acc = Some acc1"
    using Cons.prems none by (cases "step x acc") auto
  then have 2: "Inv acc1" "runs (mach acc) (mach acc1)" "P x \<longrightarrow> runs (need x) (mach acc1)"
    using assms(1) [OF Cons.prems(2) _ 1] Cons.prems(3) by auto
  have "Inv acc' \<and> runs (mach acc1) (mach acc') \<and> (\<forall>x \<in> set xs. P x \<longrightarrow> runs (need x) (mach acc'))"
    using Cons.IH [of acc1] Cons.prems 1 2(1) by auto
  then show ?case
    using 2 runs_trans by auto
qed

end

interpretation mach_order: machine_order mips_mach_extends_p
proof (unfold_locales, goal_cases)
  case (1 m)
  then show ?case by (simp add: extends_p_iff)
next
  case (2 a b c)
  then show ?case by (simp add: extends_p_iff)
next
  case (3 a b)
  then show ?case using path_forward [of a b] path_forward [of b a] by (auto simp: extends_p_iff)
qed

text \<open>
  C33.  The test whether one machine extends another returns for all machines, and
  it is the partial order generated by the table together with the two rules that a 64-bit
  machine runs the code of the 32-bit one, although the loop passes the table
  only once: the table is topologically sorted.
\<close>

theorem mach_extends_order:
  "(mips_mach_extends_p base extension \<longleftrightarrow> (extension, base) \<in> mach_steps\<^sup>*) \<and> antisym (mach_steps\<^sup>*)"
  using extends_p_iff mach_order.runs_antisym by (auto intro!: antisymI)

section \<open>Machines in header flags\<close>

lemma masked_after_set:
  fixes w v K M :: flagword
  assumes "\<And>n. bit M n \<Longrightarrow> bit K n"
  shows "((w AND NOT K) OR v) AND M = v AND M"
  using assms by (auto intro!: bit_word_eqI simp: bit_simps)

lemma mach_of_set: "bfd_elf_mips_mach (mips_set_isa_flags m flags) = bfd_elf_mips_mach (mips_isa_flags m)"
proof -
  have "mips_set_isa_flags m flags AND M = mips_isa_flags m AND M" if "M = EF_MIPS_MACH \<or> M = EF_MIPS_ARCH" for M
    unfolding mips_set_isa_flags_def using that by (intro masked_after_set) (auto simp: bit_simps)
  note masks = this [of EF_MIPS_MACH, simplified] this [of EF_MIPS_ARCH, simplified]
  show ?thesis
    unfolding bfd_elf_mips_mach_def masks ..
qed

text \<open>Machines without flags of their own share those of a machine they extend.\<close>

definition isa_representative :: "mips_mach \<Rightarrow> mips_mach" where
  "isa_representative m =
     (if m \<in> {bfd_mach_mips4300, bfd_mach_mips4400, bfd_mach_mips4600} then bfd_mach_mips4000
      else if m \<in> {bfd_mach_mips5000, bfd_mach_mips7000, bfd_mach_mips10000, bfd_mach_mips12000, bfd_mach_mips14000,
        bfd_mach_mips16000} then bfd_mach_mips8000
      else if m = bfd_mach_mips_octeonp then bfd_mach_mips_octeon else m)"

lemma mach_of_isa_flags: "\<forall>n. m \<noteq> bfd_mach_other n \<Longrightarrow> bfd_elf_mips_mach (mips_isa_flags m) = isa_representative m"
  by (cases m) (simp_all add: bfd_elf_mips_mach_def EF_MIPS_MACH_def EF_MIPS_ARCH_def mips_mach_flags_def
      mips_arch_flags_def isa_representative_def)

lemma representative_flags: "mips_isa_flags (isa_representative m) = mips_isa_flags m"
  by (cases m) (simp_all add: isa_representative_def)

lemma representative_extended: "mips_mach_extends_p (isa_representative m) m"
proof -
  have "(bfd_mach_mips10000, bfd_mach_mips8000) \<in> mach_steps"
    by (simp add: mach_steps_def mips_mach_extensions_def)
  moreover have "m = isa_representative m \<or> (m, isa_representative m) \<in> mach_steps
      \<or> (m, bfd_mach_mips10000) \<in> mach_steps \<and> isa_representative m = bfd_mach_mips8000"
    by (cases m) (simp_all add: isa_representative_def mach_steps_def mips_mach_extensions_def)
  ultimately show ?thesis
    unfolding extends_p_iff
    by (elim disjE conjE) (auto intro: r_into_rtrancl rtrancl_trans)
qed

text \<open>
  C34.  The machine written to the header flags is read back as its representative,
  a machine that the original extends, so code is never taken to need more than it
  does; and writing the machine read back changes nothing.
\<close>

theorem isa_flags_roundtrip:
  assumes "\<forall>n. m \<noteq> bfd_mach_other n"
  shows "bfd_elf_mips_mach (mips_set_isa_flags m flags) = isa_representative m \<and> mips_mach_extends_p (isa_representative m) m
    \<and> mips_set_isa_flags (bfd_elf_mips_mach (mips_set_isa_flags m flags)) (mips_set_isa_flags m flags) = mips_set_isa_flags m flags"
proof -
  define m' where "m' = bfd_elf_mips_mach (mips_set_isa_flags m flags)"
  have m': "m' = isa_representative m"
    using mach_of_isa_flags [OF assms] by (simp add: m'_def mach_of_set)
  then have "mips_isa_flags m' = mips_isa_flags m" "mips_mach_extends_p m' m"
    by (simp_all add: representative_flags representative_extended)
  then show ?thesis
    unfolding m'_def [symmetric] using m' by (auto simp: mips_set_isa_flags_def intro!: bit_word_eqI simp: bit_simps)
qed

theorem isa_flags_roundtrip_witness:
  "mips_mach_extends_p (bfd_elf_mips_mach (mips_set_isa_flags bfd_mach_mips_octeonp 0x1005)) bfd_mach_mips_octeonp"
  using isa_flags_roundtrip [of bfd_mach_mips_octeonp "0x1005"] by (simp add: isa_representative_def)

end
