(* ===== verification/MergeSpec.thy ===== *)
theory MergeSpec
  imports Merge MachSpec
begin

text \<open>
  What merging promises: the machine of the output runs the code of every input, and
  MIPS16 and microMIPS code are never linked together.
\<close>

section \<open>Flags of the machine\<close>

text \<open>The bits that name the machine.\<close>

definition isa_bits :: flagword where "isa_bits = 0xf0ff0000"

lemma mach_by_isa_bits:
  assumes "f AND isa_bits = g AND isa_bits"
  shows "bfd_elf_mips_mach f = bfd_elf_mips_mach g"
proof -
  have "f AND M = g AND M" if "isa_bits AND M = M" for M
    using assms that and.assoc [of f isa_bits M] and.assoc [of g isa_bits M] by simp
  then have "f AND EF_MIPS_MACH = g AND EF_MIPS_MACH" "f AND EF_MIPS_ARCH = g AND EF_MIPS_ARCH"
    by (simp_all add: isa_bits_def EF_MIPS_MACH_def EF_MIPS_ARCH_def)
  then show ?thesis
    by (simp only: bfd_elf_mips_mach_def)
qed

lemma mask_rules:
  fixes f g c K :: flagword
  shows "c AND K = K \<Longrightarrow> (f AND c) AND K = f AND K" "c AND K = 0 \<Longrightarrow> (f OR c) AND K = f AND K"
    "c AND K = 0 \<Longrightarrow> (f OR (g AND c)) AND K = f AND K"
  by (auto intro!: bit_word_eqI simp: bit_simps bit_eq_iff)

lemmas flag_values = isa_bits_def EF_MIPS_NOREORDER_def EF_MIPS_XGOT_def EF_MIPS_UCODE_def EF_MIPS_PIC_def EF_MIPS_CPIC_def
  EF_MIPS_ABI_def EF_MIPS_ARCH_ASE_def EF_MIPS_ARCH_def EF_MIPS_MACH_def EF_MIPS_32BITMODE_def

lemma isa_of_comparable: "comparable_flags f AND isa_bits = f AND isa_bits"
  unfolding comparable_flags_def by (simp add: mask_rules flag_values)

lemma isa_of_input: "input_flags b AND isa_bits = e_flags b AND isa_bits"
  unfolding input_flags_def Let_def by (simp add: mask_rules isa_of_comparable [unfolded isa_bits_def] flag_values)

text \<open>The flags of a file name its machine.\<close>

definition mach_consistent :: "merge_bfd \<Rightarrow> bool" where
  "mach_consistent b \<longleftrightarrow> bfd_get_mach b = bfd_elf_mips_mach (e_flags b)"

text \<open>What a phase of the merge may do to the output file.\<close>

definition same_machine :: "merge_bfd \<Rightarrow> merge_bfd \<Rightarrow> bool" where
  "same_machine b b' \<longleftrightarrow> bfd_arch_info b' = bfd_arch_info b \<and> e_flags b' AND isa_bits = e_flags b AND isa_bits
     \<and> elf_flags_init b' = elf_flags_init b \<and> is_mips_elf b' = is_mips_elf b"

lemma same_machine_consistent: "same_machine b b' \<Longrightarrow> mach_consistent b' = mach_consistent b"
  unfolding same_machine_def mach_consistent_def using mach_by_isa_bits by metis

lemma same_machine_trans: "same_machine a b \<Longrightarrow> same_machine b c \<Longrightarrow> same_machine a c"
  by (simp add: same_machine_def)

lemma merge_pic_machine: "same_machine obfd (snd (merge_pic n old obfd))"
  by (simp add: merge_pic_def same_machine_def Let_def mask_rules flag_values)

lemma merge_ase_machine: "merge_ase n old obfd = (ok, ms, n', old', obfd') \<Longrightarrow> same_machine obfd obfd'"
  by (auto simp: merge_ase_def same_machine_def Let_def mask_rules flag_values split: if_splits)

lemma merge_isa_machine:
  assumes "merge_isa ibfd n old obfd = (True, ms, obfd')" "mach_consistent obfd" "mach_consistent ibfd"
    and "n AND isa_bits = e_flags ibfd AND isa_bits"
  shows "mach_consistent obfd' \<and> mips_mach_extends_p (bfd_get_mach ibfd) (bfd_get_mach obfd')
    \<and> mips_mach_extends_p (bfd_get_mach obfd) (bfd_get_mach obfd')
    \<and> elf_flags_init obfd' = elf_flags_init obfd \<and> is_mips_elf obfd' = is_mips_elf obfd"
proof (cases "mips_mach_extends_p (bfd_get_mach ibfd) (bfd_get_mach obfd)")
  case True
  then show ?thesis
    using assms mach_order.runs_refl by (auto simp: merge_isa_def split: if_splits)
next
  case False
  let ?e = "e_flags obfd AND NOT (EF_MIPS_ARCH OR EF_MIPS_MACH) OR (n AND (EF_MIPS_ARCH OR EF_MIPS_MACH OR EF_MIPS_32BITMODE))"
  have up: "mips_mach_extends_p (bfd_get_mach obfd) (bfd_get_mach ibfd)" "bfd_arch_info obfd' = bfd_arch_info ibfd"
    "e_flags obfd' = ?e \<or> e_flags obfd' = ?e OR (n AND EF_MIPS_ABI)"
    "elf_flags_init obfd' = elf_flags_init obfd" "is_mips_elf obfd' = is_mips_elf obfd"
    using assms(1) False by (auto simp: merge_isa_def Let_def split: if_splits)
  have "bit isa_bits k \<longleftrightarrow> bit (EF_MIPS_ARCH OR EF_MIPS_MACH) k" for k
    by (simp add: isa_bits_def EF_MIPS_ARCH_def EF_MIPS_MACH_def)
  then have "?e AND isa_bits = n AND isa_bits"
    by (auto intro!: bit_word_eqI simp: bit_simps)
  moreover have "(?e OR (n AND EF_MIPS_ABI)) AND isa_bits = ?e AND isa_bits"
    by (rule mask_rules) (simp add: flag_values)
  ultimately have "e_flags obfd' AND isa_bits = e_flags ibfd AND isa_bits"
    using up(3) assms(4) by auto
  then have "mach_consistent obfd'"
    using assms(3) up(2) mach_by_isa_bits unfolding mach_consistent_def by metis
  then show ?thesis
    using up mach_order.runs_refl by simp
qed

text \<open>The phases of a merge of different flags.\<close>

lemma mask_steps:
  "(comparable_flags f) AND EF_MIPS_ARCH_ASE = f AND EF_MIPS_ARCH_ASE"
  "(input_flags b) AND EF_MIPS_ARCH_ASE = e_flags b AND EF_MIPS_ARCH_ASE"
  "(f AND NOT (EF_MIPS_PIC OR EF_MIPS_CPIC)) AND EF_MIPS_ARCH_ASE = f AND EF_MIPS_ARCH_ASE"
  "(f AND NOT (EF_MIPS_ARCH OR EF_MIPS_MACH OR EF_MIPS_32BITMODE)) AND EF_MIPS_ARCH_ASE = f AND EF_MIPS_ARCH_ASE"
  "(f AND NOT EF_MIPS_ABI) AND EF_MIPS_ARCH_ASE = f AND EF_MIPS_ARCH_ASE"
  by (simp_all add: comparable_flags_def input_flags_def Let_def mask_rules flag_values)

lemma merge_abi_ase:
  "merge_abi ibfd n old obfd = (ok, ms, n', old') \<Longrightarrow>
     n' AND EF_MIPS_ARCH_ASE = n AND EF_MIPS_ARCH_ASE \<and> old' AND EF_MIPS_ARCH_ASE = old AND EF_MIPS_ARCH_ASE"
  by (auto simp: merge_abi_def Let_def mask_steps split: if_splits)

lemma merge_flags_phases:
  assumes "merge_flags ibfd obfd = (True, ms, obfd')" "input_flags ibfd \<noteq> comparable_flags (e_flags obfd)" "\<not> null_input_bfd ibfd"
  obtains ms1 b1 old ms2 b2 n3 o3 ms4 n4 o4 where
    "merge_pic (input_flags ibfd) (comparable_flags (e_flags obfd)) obfd = (ms1, b1)"
    "merge_isa ibfd (input_flags ibfd AND NOT (EF_MIPS_PIC OR EF_MIPS_CPIC)) old b1 = (True, ms2, b2)"
    "merge_ase n3 o3 b2 = (True, ms4, n4, o4, obfd')"
    "n3 AND EF_MIPS_ARCH_ASE = e_flags ibfd AND EF_MIPS_ARCH_ASE" "o3 AND EF_MIPS_ARCH_ASE = e_flags obfd AND EF_MIPS_ARCH_ASE"
proof -
  let ?n = "input_flags ibfd AND NOT (EF_MIPS_PIC OR EF_MIPS_CPIC)"
    and ?o = "comparable_flags (e_flags obfd) AND NOT (EF_MIPS_PIC OR EF_MIPS_CPIC)"
    and ?m = "NOT (EF_MIPS_ARCH OR EF_MIPS_MACH OR EF_MIPS_32BITMODE)"
  obtain ms1 b1 where 1: "merge_pic (input_flags ibfd) (comparable_flags (e_flags obfd)) obfd = (ms1, b1)"
    by force
  obtain ok2 ms2 b2 where 2: "merge_isa ibfd ?n ?o b1 = (ok2, ms2, b2)"
    using prod_cases3 by blast
  obtain ok3 ms3 n3 o3 where 3: "merge_abi ibfd (?n AND ?m) (?o AND ?m) b2 = (ok3, ms3, n3, o3)"
    using prod_cases4 by blast
  obtain ok4 ms4 n4 o4 b4 where 4: "merge_ase n3 o3 b2 = (ok4, ms4, n4, o4, b4)"
    using prod_cases5 by blast
  have "ok2 \<and> ok4 \<and> b4 = obfd'"
    using assms 4 unfolding merge_flags_def Let_def 1 prod.case 2 3 by (auto split: if_splits)
  then show thesis
    using that [OF 1, of ?o ms2 b2 n3 o3 ms4 n4 o4] 2 4 merge_abi_ase [OF 3] by (simp only: mask_steps simp_thms)
qed

lemma merge_flags_machine:
  assumes "merge_flags ibfd obfd = (True, ms, obfd')" "mach_consistent obfd" "mach_consistent ibfd"
  shows "mach_consistent obfd' \<and> mips_mach_extends_p (bfd_get_mach obfd) (bfd_get_mach obfd')
    \<and> (\<not> null_input_bfd ibfd \<longrightarrow> mips_mach_extends_p (bfd_get_mach ibfd) (bfd_get_mach obfd'))
    \<and> elf_flags_init obfd' = elf_flags_init obfd \<and> is_mips_elf obfd' = is_mips_elf obfd"
proof (cases "input_flags ibfd = comparable_flags (e_flags obfd)")
  case True
  then have "e_flags ibfd AND isa_bits = e_flags obfd AND isa_bits"
    using isa_of_input [of ibfd] isa_of_comparable [of "e_flags obfd"] by simp
  then have "bfd_get_mach ibfd = bfd_get_mach obfd"
    using assms(2,3) mach_by_isa_bits unfolding mach_consistent_def by metis
  then show ?thesis
    using assms True mach_order.runs_refl by (simp add: merge_flags_def)
next
  case False
  show ?thesis
  proof (cases "null_input_bfd ibfd")
    case True
    then show ?thesis
      using assms False mach_order.runs_refl by (simp add: merge_flags_def)
  next
    case content: False
    show ?thesis
    proof (rule merge_flags_phases [OF assms(1) False content])
      fix ms1 b1 old ms2 b2 n3 o3 ms4 n4 o4
      assume 1: "merge_pic (input_flags ibfd) (comparable_flags (e_flags obfd)) obfd = (ms1, b1)"
        and 2: "merge_isa ibfd (input_flags ibfd AND NOT (EF_MIPS_PIC OR EF_MIPS_CPIC)) old b1 = (True, ms2, b2)"
        and 4: "merge_ase n3 o3 b2 = (True, ms4, n4, o4, obfd')"
      have s1: "same_machine obfd b1"
        using merge_pic_machine [of obfd] 1 by (metis snd_conv)
      have "(input_flags ibfd AND NOT (EF_MIPS_PIC OR EF_MIPS_CPIC)) AND isa_bits = e_flags ibfd AND isa_bits"
        using isa_of_input [of ibfd] by (simp add: mask_rules flag_values)
      then have 3: "mach_consistent b2 \<and> mips_mach_extends_p (bfd_get_mach ibfd) (bfd_get_mach b2)
          \<and> mips_mach_extends_p (bfd_get_mach b1) (bfd_get_mach b2)
          \<and> elf_flags_init b2 = elf_flags_init b1 \<and> is_mips_elf b2 = is_mips_elf b1"
        using merge_isa_machine [OF 2] assms(2,3) same_machine_consistent [OF s1] by blast
      have s2: "same_machine b2 obfd'"
        by (rule merge_ase_machine [OF 4])
      show ?thesis
        using 3 s1 s2 same_machine_consistent [OF s2] by (auto simp: same_machine_def)
    qed
  qed
qed

section \<open>Application-specific extensions\<close>

text \<open>Flags that do not ask for both compressed instruction sets.\<close>

definition pure_ase :: "flagword \<Rightarrow> bool" where
  "pure_ase f \<longleftrightarrow> \<not> (f AND EF_MIPS_ARCH_ASE_M16 \<noteq> 0 \<and> f AND EF_MIPS_ARCH_ASE_MICROMIPS \<noteq> 0)"

lemma ase_bits:
  assumes "f AND EF_MIPS_ARCH_ASE = g AND EF_MIPS_ARCH_ASE"
  shows "f AND EF_MIPS_ARCH_ASE_M16 = g AND EF_MIPS_ARCH_ASE_M16" "f AND EF_MIPS_ARCH_ASE_MICROMIPS = g AND EF_MIPS_ARCH_ASE_MICROMIPS"
proof -
  have "f AND M = g AND M" if "EF_MIPS_ARCH_ASE AND M = M" for M
    using assms that and.assoc [of f EF_MIPS_ARCH_ASE M] and.assoc [of g EF_MIPS_ARCH_ASE M] by simp
  then show "f AND EF_MIPS_ARCH_ASE_M16 = g AND EF_MIPS_ARCH_ASE_M16" "f AND EF_MIPS_ARCH_ASE_MICROMIPS = g AND EF_MIPS_ARCH_ASE_MICROMIPS"
    by (simp_all add: EF_MIPS_ARCH_ASE_def EF_MIPS_ARCH_ASE_M16_def EF_MIPS_ARCH_ASE_MICROMIPS_def)
qed

lemma pure_ase_cong: "f AND EF_MIPS_ARCH_ASE = g AND EF_MIPS_ARCH_ASE \<Longrightarrow> pure_ase f = pure_ase g"
  using ase_bits [of f g] by (simp add: pure_ase_def)

lemma or_masked:
  fixes a n A M :: flagword
  assumes "A AND M = M"
  shows "(a OR (n AND A)) AND M = (a AND M) OR (n AND M)"
proof -
  have "bit M k \<Longrightarrow> bit A k" for k
    using arg_cong [OF assms, of "\<lambda>w. bit w k"] by (simp add: bit_simps)
  then show ?thesis
    by (auto intro!: bit_word_eqI simp: bit_simps)
qed

lemma merge_ase_pure:
  assumes "merge_ase n old obfd = (True, ms, n', old', obfd')"
    and "n AND EF_MIPS_ARCH_ASE = f AND EF_MIPS_ARCH_ASE" "old AND EF_MIPS_ARCH_ASE = e_flags obfd AND EF_MIPS_ARCH_ASE"
    and "pure_ase f" "pure_ase (e_flags obfd)"
  shows "pure_ase (e_flags obfd')"
proof (cases "n AND EF_MIPS_ARCH_ASE = old AND EF_MIPS_ARCH_ASE")
  case True
  then show ?thesis
    using assms by (simp add: merge_ase_def)
next
  case False
  note n = ase_bits [OF assms(2)] and o = ase_bits [OF assms(3)]
  have e: "e_flags obfd' = e_flags obfd OR (n AND EF_MIPS_ARCH_ASE)"
    and ok: "\<not> (e_flags obfd AND EF_MIPS_ARCH_ASE_M16 \<noteq> 0 \<and> f AND EF_MIPS_ARCH_ASE_MICROMIPS \<noteq> 0)"
      "\<not> (e_flags obfd AND EF_MIPS_ARCH_ASE_MICROMIPS \<noteq> 0 \<and> f AND EF_MIPS_ARCH_ASE_M16 \<noteq> 0)"
    using assms(1) False n o by (auto simp: merge_ase_def Let_def)
  have "e_flags obfd' AND M = (e_flags obfd AND M) OR (n AND M)" if "EF_MIPS_ARCH_ASE AND M = M" for M
    unfolding e by (rule or_masked [OF that])
  then have "e_flags obfd' AND EF_MIPS_ARCH_ASE_M16 = (e_flags obfd AND EF_MIPS_ARCH_ASE_M16) OR (f AND EF_MIPS_ARCH_ASE_M16)"
    "e_flags obfd' AND EF_MIPS_ARCH_ASE_MICROMIPS = (e_flags obfd AND EF_MIPS_ARCH_ASE_MICROMIPS) OR (f AND EF_MIPS_ARCH_ASE_MICROMIPS)"
    using n by (simp_all add: EF_MIPS_ARCH_ASE_def EF_MIPS_ARCH_ASE_M16_def EF_MIPS_ARCH_ASE_MICROMIPS_def)
  then show ?thesis
    using ok assms(4,5) by (auto simp: pure_ase_def or_eq_0_iff)
qed

lemma merge_isa_ase: "merge_isa ibfd n old obfd = (ok, ms, obfd') \<Longrightarrow>
    e_flags obfd' AND EF_MIPS_ARCH_ASE = e_flags obfd AND EF_MIPS_ARCH_ASE"
  by (auto simp: merge_isa_def Let_def mask_rules flag_values split: if_splits)

lemma merge_flags_pure:
  assumes "merge_flags ibfd obfd = (True, ms, obfd')" "pure_ase (e_flags ibfd)" "pure_ase (e_flags obfd)"
  shows "pure_ase (e_flags obfd')"
proof (cases "input_flags ibfd = comparable_flags (e_flags obfd) \<or> null_input_bfd ibfd")
  case True
  then have "obfd' = obfd"
    using assms(1) by (elim disjE) (simp_all add: merge_flags_def Let_def split: if_splits)
  then show ?thesis
    using assms(3) by simp
next
  case False
  show ?thesis
  proof (rule merge_flags_phases [OF assms(1)])
    show "input_flags ibfd \<noteq> comparable_flags (e_flags obfd)" "\<not> null_input_bfd ibfd"
      using False by auto
    fix ms1 b1 old ms2 b2 n3 o3 ms4 n4 o4
    assume 1: "merge_pic (input_flags ibfd) (comparable_flags (e_flags obfd)) obfd = (ms1, b1)"
      and 2: "merge_isa ibfd (input_flags ibfd AND NOT (EF_MIPS_PIC OR EF_MIPS_CPIC)) old b1 = (True, ms2, b2)"
      and 4: "merge_ase n3 o3 b2 = (True, ms4, n4, o4, obfd')"
      and n3: "n3 AND EF_MIPS_ARCH_ASE = e_flags ibfd AND EF_MIPS_ARCH_ASE"
      and o3: "o3 AND EF_MIPS_ARCH_ASE = e_flags obfd AND EF_MIPS_ARCH_ASE"
    have "e_flags b1 AND EF_MIPS_ARCH_ASE = e_flags obfd AND EF_MIPS_ARCH_ASE"
      using 1 by (auto simp: merge_pic_def Let_def mask_rules flag_values)
    then have b2: "e_flags b2 AND EF_MIPS_ARCH_ASE = e_flags obfd AND EF_MIPS_ARCH_ASE"
      using merge_isa_ase [OF 2] by simp
    then show ?thesis
      using merge_ase_pure [OF 4 n3] o3 assms(2,3) pure_ase_cong [OF b2] by simp
  qed
qed

section \<open>A link\<close>

text \<open>The linker merges the input files one after the other and stops at the first failure.\<close>

definition merge_step :: "merge_env \<Rightarrow> merge_bfd \<Rightarrow> merge_bfd \<Rightarrow> merge_bfd option" where
  "merge_step env ibfd obfd =
     (case bfd_mips_elf_merge_private_bfd_data env ibfd obfd of
        Some (ok, _, obfd') \<Rightarrow> if ok then Some obfd' else None
      | None \<Rightarrow> None)"

definition merge_all_inputs :: "merge_env \<Rightarrow> merge_bfd list \<Rightarrow> merge_bfd \<Rightarrow> merge_bfd option" where
  "merge_all_inputs env ibfds obfd = foldl (\<lambda>a x. Option.bind a (merge_step env x)) (Some obfd) ibfds"

text \<open>The generic attribute functions leave the header flags and the machine alone.\<close>

definition attributes_only :: "merge_env \<Rightarrow> bool" where
  "attributes_only env \<longleftrightarrow>
     (\<forall>i obfd. \<forall>obfd' \<in> {copy_obj_attributes env i obfd, merge_object_attributes env i obfd}.
        e_flags obfd' = e_flags obfd \<and> bfd_arch_info obfd' = bfd_arch_info obfd
        \<and> elf_flags_init obfd' = elf_flags_init obfd \<and> is_mips_elf obfd' = is_mips_elf obfd)"

lemma merge_attributes_machine:
  assumes "attributes_only env" "mips_elf_merge_obj_attributes env ibfd obfd = Some (ms, obfd')"
  shows "e_flags obfd' = e_flags obfd \<and> bfd_arch_info obfd' = bfd_arch_info obfd
    \<and> elf_flags_init obfd' = elf_flags_init obfd \<and> is_mips_elf obfd' = is_mips_elf obfd"
  using assms by (auto simp: mips_elf_merge_obj_attributes_def merge_fp_abi_def attributes_only_def Let_def
      split: if_splits option.splits)

definition link_ready :: "merge_bfd \<Rightarrow> bool" where
  "link_ready obfd \<longleftrightarrow> mach_consistent obfd \<and> pure_ase (e_flags obfd) \<and> elf_flags_init obfd \<and> is_mips_elf obfd"

definition link_input :: "merge_bfd \<Rightarrow> bool" where
  "link_input ibfd \<longleftrightarrow> mach_consistent ibfd \<and> pure_ase (e_flags ibfd) \<and> is_mips_elf ibfd"

lemma merge_step_ready:
  assumes env: "attributes_only env" and out: "link_ready obfd" and inp: "link_input ibfd"
    and step: "merge_step env ibfd obfd = Some obfd'"
  shows "link_ready obfd' \<and> mips_mach_extends_p (bfd_get_mach obfd) (bfd_get_mach obfd')
    \<and> (\<not> null_input_bfd ibfd \<longrightarrow> mips_mach_extends_p (bfd_get_mach ibfd) (bfd_get_mach obfd'))"
proof -
  have mips: "is_mips_elf ibfd" "is_mips_elf obfd" "elf_flags_init obfd"
    using out inp by (simp_all add: link_ready_def link_input_def)
  obtain ms b where attr: "mips_elf_merge_obj_attributes env ibfd obfd = Some (ms, b)"
    using step mips by (auto simp: merge_step_def bfd_mips_elf_merge_private_bfd_data_def split: if_splits option.splits)
  note b = merge_attributes_machine [OF env attr]
  let ?b = "b\<lparr>e_flags := e_flags b OR (e_flags ibfd AND EF_MIPS_NOREORDER)\<rparr>"
  obtain ms' where m: "merge_flags ibfd ?b = (True, ms', obfd')"
    using step mips b attr by (auto simp: merge_step_def bfd_mips_elf_merge_private_bfd_data_def split: if_splits prod.splits)
  have "same_machine obfd ?b" "e_flags ?b AND EF_MIPS_ARCH_ASE = e_flags obfd AND EF_MIPS_ARCH_ASE"
    using b by (simp_all add: same_machine_def mask_rules flag_values)
  then have "mach_consistent ?b" "pure_ase (e_flags ?b)" "bfd_get_mach ?b = bfd_get_mach obfd"
    using out same_machine_consistent [of obfd ?b] pure_ase_cong [of "e_flags ?b" "e_flags obfd"] b
    by (simp_all add: link_ready_def)
  then show ?thesis
    using merge_flags_machine [OF m] merge_flags_pure [OF m] inp mips b by (simp add: link_ready_def link_input_def)
qed

text \<open>
  C17.  When all input files have been merged without an error, the output is for a
  machine that runs the code of every input file with code in it, its header flags name that
  machine, and they do not ask for MIPS16 and microMIPS together.
\<close>

theorem merged_machine_runs_all:
  assumes "attributes_only env" "link_ready obfd" "\<forall>ibfd \<in> set ibfds. link_input ibfd"
    and "merge_all_inputs env ibfds obfd = Some obfd'"
  shows "bfd_get_mach obfd' = bfd_elf_mips_mach (e_flags obfd')
    \<and> (\<forall>ibfd \<in> set ibfds. null_input_bfd ibfd \<or> mips_mach_extends_p (bfd_get_mach ibfd) (bfd_get_mach obfd'))
    \<and> \<not> (e_flags obfd' AND EF_MIPS_ARCH_ASE_M16 \<noteq> 0 \<and> e_flags obfd' AND EF_MIPS_ARCH_ASE_MICROMIPS \<noteq> 0)"
proof -
  have "link_ready obfd' \<and> mips_mach_extends_p (bfd_get_mach obfd) (bfd_get_mach obfd')
    \<and> (\<forall>ibfd \<in> set ibfds. \<not> null_input_bfd ibfd \<longrightarrow> mips_mach_extends_p (bfd_get_mach ibfd) (bfd_get_mach obfd'))"
  proof (rule mach_order.fold_runs [where step = "merge_step env" and mach = bfd_get_mach and Inv = link_ready
        and S = "set ibfds" and P = "\<lambda>i. \<not> null_input_bfd i" and need = bfd_get_mach and acc = obfd and xs = ibfds])
    fix x acc acc'
    assume "link_ready acc" "x \<in> set ibfds" "merge_step env x acc = Some acc'"
    then show "link_ready acc' \<and> mips_mach_extends_p (bfd_get_mach acc) (bfd_get_mach acc')
        \<and> (\<not> null_input_bfd x \<longrightarrow> mips_mach_extends_p (bfd_get_mach x) (bfd_get_mach acc'))"
      using assms(3) by (intro merge_step_ready [OF assms(1)]) simp_all
  qed (use assms(2,4) in \<open>simp_all add: merge_all_inputs_def\<close>)
  then show ?thesis
    by (auto simp: link_ready_def mach_consistent_def pure_ase_def)
qed

text \<open>A MIPS III link takes a MIPS IV file and then one for the VR4650, which is refused.\<close>

definition example_file :: "flagword \<Rightarrow> merge_bfd" where
  "example_file flags = bfd.extend (le_bfd\<lparr>e_flags := flags\<rparr>)
     \<lparr>target_name = ''elf32-littlemips'', is_mips_elf = True,
      bfd_arch_info = \<lparr>ai_arch = 8, ai_mach = bfd_elf_mips_mach flags, the_default = False\<rparr>, is_dynamic = False,
      bfd_sections = [\<lparr>sec_id = 1, sec_name = ''.text'', sec_flags = {SEC_ALLOC, SEC_CODE}, sec_size = 8,
        output_section = None, output_offset = 0\<rparr>],
      elf_flags_init = True, ei_class = 1, attr_initialised = True, fp_abi = 0, fp_abi_type = 0\<rparr>"

definition example_merge_env :: merge_env where
  "example_merge_env = \<lparr>verify_endian_match = \<lambda>_ _. True, copy_obj_attributes = \<lambda>_ obfd. obfd,
     merge_object_attributes = \<lambda>_ obfd. obfd, set_arch_mach = \<lambda>_ _ _. None\<rparr>"

lemma example_machines:
  "bfd_elf_mips_mach 0x20000000 = bfd_mach_mips4000" "bfd_elf_mips_mach 0x30000000 = bfd_mach_mips8000"
  "bfd_elf_mips_mach 0x30980000 = bfd_mach_mips5500"
  by (simp_all add: bfd_elf_mips_mach_def EF_MIPS_MACH_def EF_MIPS_ARCH_def mips_mach_flags_def mips_arch_flags_def)

lemma example_extends:
  "\<not> mips_mach_extends_p bfd_mach_mips8000 bfd_mach_mips4000" "mips_mach_extends_p bfd_mach_mips4000 bfd_mach_mips8000"
  "\<not> mips_mach_extends_p bfd_mach_mips5500 bfd_mach_mips8000" "mips_mach_extends_p bfd_mach_mips8000 bfd_mach_mips5500"
proof -
  have pos: "table_pos bfd_mach_mips4000 = 30" "table_pos bfd_mach_mips8000 = 22" "table_pos bfd_mach_mips5500 = 11"
    by (simp_all add: table_pos_def mips_mach_extensions_def)
  show "\<not> mips_mach_extends_p bfd_mach_mips8000 bfd_mach_mips4000" "\<not> mips_mach_extends_p bfd_mach_mips5500 bfd_mach_mips8000"
    using path_forward pos by (fastforce simp: extends_p_iff)+
  have "(bfd_mach_mips8000, bfd_mach_mips4000) \<in> mach_steps" "(bfd_mach_mips5500, bfd_mach_mips5400) \<in> mach_steps"
    "(bfd_mach_mips5400, bfd_mach_mips5000) \<in> mach_steps" "(bfd_mach_mips5000, bfd_mach_mips8000) \<in> mach_steps"
    by (simp_all add: mach_steps_def mips_mach_extensions_def)
  then show "mips_mach_extends_p bfd_mach_mips4000 bfd_mach_mips8000" "mips_mach_extends_p bfd_mach_mips8000 bfd_mach_mips5500"
    unfolding extends_p_iff by (meson converse_rtrancl_into_rtrancl rtrancl.rtrancl_refl)+
qed

lemma example_file_simps [simp]:
  "e_flags (example_file f) = f" "is_mips_elf (example_file f)" "elf_flags_init (example_file f)" "\<not> is_dynamic (example_file f)"
  "bfd_arch_info (example_file f) = \<lparr>ai_arch = 8, ai_mach = bfd_elf_mips_mach f, the_default = False\<rparr>" "\<not> null_input_bfd (example_file f)"
  "target_name (example_file f) = ''elf32-littlemips''" "attr_initialised (example_file f)" "fp_abi (example_file f) = 0"
  "ei_class (example_file f) = 1"
  by (simp_all add: example_file_def bfd.defs le_bfd_def null_input_bfd_def significant_section_def)

lemma example_flags:
  assumes "f = 0x30000000 \<and> e_flags b = 0x20000000 \<or> f = 0x30980000 \<and> e_flags b = 0x30000000"
    and "bfd_get_mach b = bfd_elf_mips_mach (e_flags b)" "ei_class b = 1"
  shows "merge_flags (example_file f) b = (True, [], b\<lparr>e_flags := f, bfd_arch_info := bfd_arch_info (example_file f)\<rparr>)"
proof -
  have inp: "input_flags (example_file f) = f" "comparable_flags (e_flags b) = e_flags b"
    using assms(1) by (elim disjE conjE; simp add: input_flags_def comparable_flags_def flag_values)+
  have pic: "merge_pic f (e_flags b) b = ([], b)"
    using assms(1) by (elim disjE conjE) (simp_all add: merge_pic_def flag_values)
  have isa: "merge_isa (example_file f) f (e_flags b) b = (True, [], b\<lparr>e_flags := f, bfd_arch_info := bfd_arch_info (example_file f)\<rparr>)"
    using assms by (elim disjE conjE) (simp_all add: merge_isa_def mips_32bit_flags_p_def flag_values example_machines example_extends)
  have masks: "f AND NOT (EF_MIPS_PIC OR EF_MIPS_CPIC) = f" "e_flags b AND NOT (EF_MIPS_PIC OR EF_MIPS_CPIC) = e_flags b"
    "f AND NOT (EF_MIPS_ARCH OR EF_MIPS_MACH OR EF_MIPS_32BITMODE) = 0"
    "e_flags b AND NOT (EF_MIPS_ARCH OR EF_MIPS_MACH OR EF_MIPS_32BITMODE) = 0" "f \<noteq> e_flags b"
    using assms(1) by (elim disjE conjE; simp add: flag_values)+
  have abi: "merge_abi (example_file f) 0 0 b' = (True, [], 0, 0)" if "ei_class b' = 1" for b'
    using that by (simp add: merge_abi_def)
  show ?thesis
    using masks(5) assms(3) unfolding merge_flags_def Let_def inp pic prod.case masks isa
    by (simp add: abi merge_ase_def)
qed

lemma example_step:
  assumes "f = 0x30000000 \<and> e_flags b = 0x20000000 \<or> f = 0x30980000 \<and> e_flags b = 0x30000000"
    and "bfd_get_mach b = bfd_elf_mips_mach (e_flags b)" "ei_class b = 1" "is_mips_elf b" "elf_flags_init b" "fp_abi b = 0"
      "attr_initialised b" "target_name b = ''elf32-littlemips''"
  shows "merge_step example_merge_env (example_file f) b = Some (b\<lparr>e_flags := f, bfd_arch_info := bfd_arch_info (example_file f)\<rparr>)"
proof -
  have "e_flags b OR (f AND EF_MIPS_NOREORDER) = e_flags b"
    using assms(1) by (elim disjE conjE) (simp_all add: flag_values)
  then show ?thesis
    using assms(4-8) example_flags [OF assms(1-3)]
    by (simp add: merge_step_def bfd_mips_elf_merge_private_bfd_data_def example_merge_env_def
        mips_elf_merge_obj_attributes_def merge_fp_abi_def)
qed

theorem merged_machine_runs_all_witness:
  "case merge_all_inputs example_merge_env [example_file 0x30000000, example_file 0x30980000] (example_file 0x20000000) of
     None \<Rightarrow> False
   | Some obfd' \<Rightarrow> bfd_get_mach obfd' = bfd_mach_mips5500 \<and> mips_mach_extends_p bfd_mach_mips8000 (bfd_get_mach obfd')"
proof -
  let ?b = "(example_file 0x20000000)\<lparr>e_flags := 0x30980000, bfd_arch_info := bfd_arch_info (example_file 0x30980000)\<rparr>"
  have m: "merge_all_inputs example_merge_env [example_file 0x30000000, example_file 0x30980000] (example_file 0x20000000) = Some ?b"
    by (simp add: merge_all_inputs_def example_step)
  have "attributes_only example_merge_env" "link_ready (example_file 0x20000000)"
    "\<forall>i \<in> set [example_file 0x30000000, example_file 0x30980000]. link_input i"
    by (simp_all add: attributes_only_def example_merge_env_def link_ready_def link_input_def mach_consistent_def pure_ase_def
        EF_MIPS_ARCH_ASE_M16_def)
  from merged_machine_runs_all [OF this m] show ?thesis
    by (simp add: m example_machines example_extends)
qed

end
