(* ===== verification/La25.thy ===== *)
theory La25
  imports Link Shuffle
begin

text \<open>
  Stubs for PIC functions that are called from non-PIC code: they load the address of the
  function into register 25 (t9).  Also the removal of MIPS16 stubs that are not needed
  (elfxx-mips.c, \<^verbatim>\<open>mips_elf_check_symbols\<close> and what it calls,
  \<^verbatim>\<open>mips_elf_create_la25_stub\<close>).

  Sections are changed here, so they are kept in a store, by \<^verbatim>\<open>sec_id\<close>, with the set
  \<^verbatim>\<open>la_known\<close> of the numbers in use; the stubs are the elements of the hash table \<^verbatim>\<open>la25_stubs\<close>.  The linker's function that adds a section
  for stubs and the generic function that adds a symbol are parameters.
\<close>

section \<open>State\<close>

record stub_sec = asection +
  alignment_power :: nat
  reloc_count :: nat
  sec_contents :: "bytes option"

record local_symbol =
  ls_name :: string
  ls_section_id :: nat
  ls_sym_value :: vma
  ls_sym_type :: nat
  ls_sym_other :: "8 word"
  ls_sym_size :: vma

record la25_state =
  la_syms :: "nat \<Rightarrow> link_sym"
  la_secs :: "nat \<Rightarrow> stub_sec"
  la25_stubs :: "la25_stub list"
  strampoline :: "nat option"
  la_created :: "local_symbol list"
  la_known :: "nat set"

text \<open>
  \<^verbatim>\<open>add_stub_section\<close> gets the name, the section to place the new one before and the
  output section, and returns the new section.
\<close>

record la25_env =
  add_stub_section :: "string \<Rightarrow> nat option \<Rightarrow> out_section option \<Rightarrow> la25_state \<Rightarrow> (nat \<times> la25_state) option"
  add_one_symbol :: "string \<Rightarrow> bool"
  sec_owner :: "nat \<Rightarrow> bfd"
  abs_section :: "nat \<Rightarrow> bool"
  abs_output :: "out_section option \<Rightarrow> bool"
  elf_size :: "nat \<Rightarrow> vma"
  output_is_pic :: bool
  relocatable_link :: bool

abbreviation (input) STT_FUNC :: nat where "STT_FUNC \<equiv> 2"

definition upd_la_sec :: "nat \<Rightarrow> (stub_sec \<Rightarrow> stub_sec) \<Rightarrow> la25_state \<Rightarrow> la25_state" where
  "upd_la_sec s f st = st\<lparr>la_secs := (la_secs st)(s := f (la_secs st s))\<rparr>"

definition upd_la_sym :: "nat \<Rightarrow> (link_sym \<Rightarrow> link_sym) \<Rightarrow> la25_state \<Rightarrow> la25_state" where
  "upd_la_sym h f st = st\<lparr>la_syms := (la_syms st)(h := f (la_syms st h))\<rparr>"

text \<open>The section a symbol is defined in, by number; the C code dereferences the pointer.\<close>

definition def_sec :: "link_sym \<Rightarrow> nat" where
  "def_sec h = sec_id (the (def_section h))"

section \<open>Symbols for stubs\<close>

definition mips_elf_create_stub_symbol ::
  "la25_env \<Rightarrow> nat \<Rightarrow> string \<Rightarrow> nat \<Rightarrow> vma \<Rightarrow> vma \<Rightarrow> la25_state \<Rightarrow> bool \<times> la25_state" where
  "mips_elf_create_stub_symbol env h prefix s val sz st =
     (let v = (if ELF_ST_IS_MICROMIPS (st_other (la_syms st h)) then val OR 1 else val);
          name = prefix @ sym_name (la_syms st h)
      in if \<not> add_one_symbol env name then (False, st)
         else (True, st\<lparr>la_created := la_created st @
           [\<lparr>ls_name = name, ls_section_id = s, ls_sym_value = v, ls_sym_type = STT_FUNC, ls_sym_other = 0, ls_sym_size = sz\<rparr>]\<rparr>))"

definition mips_elf_create_shadow_symbol :: "la25_env \<Rightarrow> nat \<Rightarrow> string \<Rightarrow> la25_state \<Rightarrow> bool \<times> la25_state" where
  "mips_elf_create_shadow_symbol env h prefix st =
     (let hs = la_syms st h; name = prefix @ sym_name hs
      in if \<not> add_one_symbol env name then (False, st)
         else (True, st\<lparr>la_created := la_created st @
           [\<lparr>ls_name = name, ls_section_id = def_sec hs, ls_sym_value = def_value hs, ls_sym_type = elf_sym_type hs mod 16,
             ls_sym_other = st_other hs, ls_sym_size = elf_size env h\<rparr>]\<rparr>))"

section \<open>MIPS16 stubs\<close>

definition discard_stub :: "asection option \<Rightarrow> la25_state \<Rightarrow> la25_state" where
  "discard_stub s st =
     (case s of
        None \<Rightarrow> st
      | Some s \<Rightarrow> upd_la_sec (sec_id s)
          (\<lambda>r. r\<lparr>sec_size := 0, sec_flags := insert SEC_EXCLUDE (sec_flags r - {SEC_RELOC}), reloc_count := 0\<rparr>) st)"

definition mips_elf_check_mips16_stubs :: "la25_env \<Rightarrow> nat \<Rightarrow> la25_state \<Rightarrow> la25_state" where
  "mips_elf_check_mips16_stubs env h st =
     (let st = (if fn_stub (la_syms st h) \<noteq> None \<and> dynindx (la_syms st h) \<noteq> -1
                then upd_la_sym h (\<lambda>s. s\<lparr>need_fn_stub := True\<rparr>) (snd (mips_elf_create_shadow_symbol env h ''.mips16.'' st))
                else st);
          st = (if \<not> need_fn_stub (la_syms st h) then discard_stub (fn_stub (la_syms st h)) st else st);
          st = (if ELF_ST_IS_MIPS16 (st_other (la_syms st h)) then discard_stub (call_stub (la_syms st h)) st else st)
      in if ELF_ST_IS_MIPS16 (st_other (la_syms st h)) then discard_stub (call_fp_stub (la_syms st h)) st else st)"

section \<open>Stubs that set register 25\<close>

definition ELF_ST_IS_MIPS_PIC :: "8 word \<Rightarrow> bool" where
  "ELF_ST_IS_MIPS_PIC other \<longleftrightarrow> other AND 0x3c = 0x20"

definition ELF_ST_SET_MIPS_PIC :: "8 word \<Rightarrow> 8 word" where
  "ELF_ST_SET_MIPS_PIC other = (other AND NOT 0x3c) OR 0x20"

definition mips_elf_la25_stub_eq :: "la25_state \<Rightarrow> la25_stub \<Rightarrow> la25_stub \<Rightarrow> bool" where
  "mips_elf_la25_stub_eq st e1 e2 \<longleftrightarrow>
     def_sec (la_syms st (stub_h e1)) = def_sec (la_syms st (stub_h e2))
     \<and> def_value (la_syms st (stub_h e1)) = def_value (la_syms st (stub_h e2))"

definition mips_elf_la25_stub_hash :: "la25_state \<Rightarrow> la25_stub \<Rightarrow> 32 word" where
  "mips_elf_la25_stub_hash st e =
     of_nat (def_sec (la_syms st (stub_h e))) + ucast (def_value (la_syms st (stub_h e)))"

definition mips_elf_local_pic_function_p :: "la25_env \<Rightarrow> link_sym \<Rightarrow> bool" where
  "mips_elf_local_pic_function_p env h \<longleftrightarrow>
     (root_type h = bfd_link_hash_defined \<or> root_type h = bfd_link_hash_defweak)
     \<and> def_regular h
     \<and> \<not> abs_section env (def_sec h)
     \<and> (\<not> ELF_ST_IS_MIPS16 (st_other h) \<or> (fn_stub h \<noteq> None \<and> need_fn_stub h))
     \<and> (PIC_OBJECT_P (sec_owner env (def_sec h)) \<or> ELF_ST_IS_MIPS_PIC (st_other h))"

text \<open>The input section with the target of a stub, and the offset of the target in it.\<close>

definition mips_elf_get_la25_target :: "la25_state \<Rightarrow> nat \<Rightarrow> nat \<times> vma" where
  "mips_elf_get_la25_target st h =
     (let hs = la_syms st h
      in if ELF_ST_IS_MIPS16 (st_other hs) then (sec_id (the (fn_stub hs)), 0) else (def_sec hs, def_value hs))"

text \<open>The decimal digits of the number of elements, for the name of the section.\<close>

fun decimal :: "nat \<Rightarrow> string" where
  "decimal n = (if n < 10 then [char_of (48 + n)] else decimal (n div 10) @ [char_of (48 + n mod 10)])"

declare decimal.simps [simp del]

text \<open>The stub with its place, which the table and the symbol share.\<close>

definition place_stub :: "nat \<Rightarrow> nat \<Rightarrow> la25_state \<Rightarrow> la25_state" where
  "place_stub h s st =
     (let stub = \<lparr>stub_section = asection.truncate (la_secs st s), stub_offset = sec_size (la_secs st s), stub_h = h\<rparr>
      in upd_la_sym h (\<lambda>y. y\<lparr>sym_la25_stub := Some stub\<rparr>) (st\<lparr>la25_stubs := la25_stubs st @ [stub]\<rparr>))"

definition mips_elf_add_la25_intro :: "la25_env \<Rightarrow> nat \<Rightarrow> la25_state \<Rightarrow> la25_state option" where
  "mips_elf_add_la25_intro env h st =
     (let name = ''.text.stub.'' @ decimal (length (la25_stubs st) + 1);
          (input, _) = mips_elf_get_la25_target st h
      in case add_stub_section env name (Some input) (output_section (la_secs st input)) st of
           None \<Rightarrow> None
         | Some (s, st) \<Rightarrow>
             let align = alignment_power (la_secs st input);
                 st = upd_la_sec s (\<lambda>r. r\<lparr>alignment_power := align\<rparr>) st;
                 st = (if align > 3 then upd_la_sec s (\<lambda>r. r\<lparr>sec_size := of_nat (2 ^ align - 8)\<rparr>) st else st);
                 st = snd (mips_elf_create_stub_symbol env h ''.pic.'' s (sec_size (la_secs st s)) 8 st);
                 st = place_stub h s st
             in Some (upd_la_sec s (\<lambda>r. r\<lparr>sec_size := sec_size r + 8\<rparr>) st))"

definition trampoline_section :: "la25_env \<Rightarrow> nat \<Rightarrow> la25_state \<Rightarrow> (nat \<times> la25_state) option" where
  "trampoline_section env h st =
     (case strampoline st of
        Some s \<Rightarrow> Some (s, st)
      | None \<Rightarrow>
          (case add_stub_section env ''.text'' None (output_section (la_secs st (def_sec (la_syms st h)))) st of
             None \<Rightarrow> None
           | Some (s, st) \<Rightarrow> Some (s, upd_la_sec s (\<lambda>r. r\<lparr>alignment_power := 4\<rparr>) (st\<lparr>strampoline := Some s\<rparr>))))"

definition mips_elf_add_la25_trampoline :: "la25_env \<Rightarrow> nat \<Rightarrow> la25_state \<Rightarrow> la25_state option" where
  "mips_elf_add_la25_trampoline env h st =
     (case trampoline_section env h st of
        None \<Rightarrow> None
      | Some (s, st) \<Rightarrow>
          let st = snd (mips_elf_create_stub_symbol env h ''.pic.'' s (sec_size (la_secs st s)) 16 st);
              st = place_stub h s st
          in Some (upd_la_sec s (\<lambda>r. r\<lparr>sec_size := sec_size r + 16\<rparr>) st))"

definition mips_elf_add_la25_stub :: "la25_env \<Rightarrow> nat \<Rightarrow> la25_state \<Rightarrow> la25_state option" where
  "mips_elf_add_la25_stub env h st =
     (case find (\<lambda>e. mips_elf_la25_stub_eq st e \<lparr>stub_section = undefined, stub_offset = 0, stub_h = h\<rparr>) (la25_stubs st) of
        Some stub \<Rightarrow> Some (upd_la_sym h (\<lambda>y. y\<lparr>sym_la25_stub := Some stub\<rparr>) st)
      | None \<Rightarrow>
          let (s, v) = mips_elf_get_la25_target st h
          in if v \<noteq> 0 \<or> alignment_power (la_secs st s) > 4
             then mips_elf_add_la25_trampoline env h st
             else mips_elf_add_la25_intro env h st)"

definition mips_elf_check_symbols :: "la25_env \<Rightarrow> nat \<Rightarrow> la25_state \<Rightarrow> la25_state option" where
  "mips_elf_check_symbols env h st =
     (let st = (if relocatable_link env then st else mips_elf_check_mips16_stubs env h st)
      in if mips_elf_local_pic_function_p env (la_syms st h) then
           (if abs_output env (output_section (la_secs st (def_sec (la_syms st h)))) then Some st
            else if relocatable_link env then
              Some (if output_is_pic env then st
                    else upd_la_sym h (\<lambda>y. y\<lparr>st_other := ELF_ST_SET_MIPS_PIC (st_other y)\<rparr>) st)
            else if has_nonpic_branches (la_syms st h) then mips_elf_add_la25_stub env h st
            else Some st)
         else Some st)"

section \<open>The code of a stub\<close>

definition LA25_LUI :: "vma \<Rightarrow> vma" where "LA25_LUI val = 0x3c190000 OR val"
definition LA25_J :: "vma \<Rightarrow> vma" where "LA25_J val = 0x08000000 OR (drop_bit 2 val AND 0x3ffffff)"
definition LA25_ADDIU :: "vma \<Rightarrow> vma" where "LA25_ADDIU val = 0x27390000 OR val"
definition LA25_LUI_MICROMIPS :: "vma \<Rightarrow> vma" where "LA25_LUI_MICROMIPS val = 0x41b90000 OR val"
definition LA25_J_MICROMIPS :: "vma \<Rightarrow> vma" where "LA25_J_MICROMIPS val = 0xd4000000 OR (drop_bit 1 val AND 0x3ffffff)"
definition LA25_ADDIU_MICROMIPS :: "vma \<Rightarrow> vma" where "LA25_ADDIU_MICROMIPS val = 0x33390000 OR val"

text \<open>\<^verbatim>\<open>malloc n\<close> is fresh memory of \<^verbatim>\<open>n\<close> bytes; a store past the end of the contents is not checked.\<close>

definition la25_code :: "xvec \<Rightarrow> bool \<Rightarrow> bool \<Rightarrow> vma \<Rightarrow> nat \<Rightarrow> bytes \<Rightarrow> bytes" where
  "la25_code xv micromips trampoline target offset loc =
     (let target_high = drop_bit 16 (target + 0x8000) AND 0xffff;
          target_low = target AND 0xffff
      in if \<not> trampoline then
           (let loc = replicate offset 0 @ drop offset loc
            in if micromips
               then bfd_put_micromips_32 xv (LA25_ADDIU_MICROMIPS target_low)
                      (bfd_put_micromips_32 xv (LA25_LUI_MICROMIPS target_high) loc offset) (offset + 4)
               else bfd_put_32 xv (LA25_ADDIU target_low) (bfd_put_32 xv (LA25_LUI target_high) loc offset) (offset + 4))
         else if micromips then
           (let loc = bfd_put_micromips_32 xv (LA25_LUI_MICROMIPS target_high) loc offset;
                loc = bfd_put_micromips_32 xv (LA25_J_MICROMIPS target) loc (offset + 4);
                loc = bfd_put_micromips_32 xv (LA25_ADDIU_MICROMIPS target_low) loc (offset + 8)
            in bfd_put_32 xv 0 loc (offset + 12))
         else
           (let loc = bfd_put_32 xv (LA25_LUI target_high) loc offset;
                loc = bfd_put_32 xv (LA25_J target) loc (offset + 4);
                loc = bfd_put_32 xv (LA25_ADDIU target_low) loc (offset + 8)
            in bfd_put_32 xv 0 loc (offset + 12)))"

definition la25_target_address :: "la25_state \<Rightarrow> nat \<Rightarrow> vma" where
  "la25_target_address st h =
     (case mips_elf_get_la25_target st h of
        (s, v) \<Rightarrow> v + (osec_vma (the (output_section (la_secs st s))) + output_offset (la_secs st s)))"

definition mips_elf_create_la25_stub :: "(nat \<Rightarrow> bytes) \<Rightarrow> bfd \<Rightarrow> la25_stub \<Rightarrow> la25_state \<Rightarrow> la25_state" where
  "mips_elf_create_la25_stub malloc abfd stub st =
     (let s = sec_id (stub_section stub);
          loc = (case sec_contents (la_secs st s) of None \<Rightarrow> malloc (unat (sec_size (la_secs st s))) | Some loc \<Rightarrow> loc);
          target = la25_target_address st (stub_h stub)
      in upd_la_sec s (\<lambda>r. r\<lparr>sec_contents :=
           Some (la25_code (bfd_xvec abfd) (ELF_ST_IS_MICROMIPS (st_other (la_syms st (stub_h stub))))
             (strampoline st = Some s) target (unat (stub_offset stub)) loc)\<rparr>) st)"

end
