(* ===== verification/La25Spec.thy ===== *)
theory La25Spec
  imports La25 CalcSpec Perform
begin

text \<open>
  What the stubs for PIC functions promise: the code loads the address of the function into
  register 25 and goes to it, every function that needs a stub has one, and the
  stubs do not overlap.
\<close>

section \<open>Instructions of both encodings\<close>

definition get_insn :: "bool \<Rightarrow> xvec \<Rightarrow> bytes \<Rightarrow> nat \<Rightarrow> vma" where
  "get_insn mm t data off = (if mm then bfd_get_micromips_32 t data off else bfd_get_32 t data off)"

definition insn_enc :: "bool \<Rightarrow> xvec \<Rightarrow> vma \<Rightarrow> bytes" where
  "insn_enc mm t v = (if mm then putx16 t (drop_bit 16 v AND 0xffff) @ putx16 t (v AND 0xffff) else putx32 t v)"

definition insn_dec :: "bool \<Rightarrow> xvec \<Rightarrow> bytes \<Rightarrow> vma" where
  "insn_dec mm t bs = (if mm then push_bit 16 (getx16 t (take 2 bs)) OR getx16 t (drop 2 bs) else getx32 t bs)"

lemma halves_32: "push_bit 16 (take_bit 16 (drop_bit 16 v)) OR take_bit 16 v = take_bit 32 (v::vma)"
  by (rule vma_eqI) (auto simp: bit_simps)

lemma join_low:
  fixes a b :: vma
  assumes "k + m \<le> 32" "take_bit m a = a" "take_bit k b = b"
  shows "take_bit 32 (push_bit k a OR b) = push_bit k a OR b" "drop_bit k (push_bit k a OR b) = a" "take_bit k (push_bit k a OR b) = b"
proof -
  have "take_bit 32 (push_bit k (take_bit m a) OR take_bit k b) = push_bit k (take_bit m a) OR take_bit k b"
    "drop_bit k (push_bit k (take_bit m a) OR take_bit k b) = take_bit m a"
    "take_bit k (push_bit k (take_bit m a) OR take_bit k b) = take_bit k b"
    using assms(1) by (auto intro!: vma_eqI simp: bit_simps)
  then show "take_bit 32 (push_bit k a OR b) = push_bit k a OR b" "drop_bit k (push_bit k a OR b) = a" "take_bit k (push_bit k a OR b) = b"
    using assms(2,3) by simp_all
qed

lemma low_halves:
  assumes "take_bit 16 a = (a::vma)" "take_bit 16 b = b"
  shows "drop_bit 16 (push_bit 16 a OR b) = a" "take_bit 16 (push_bit 16 a OR b) = b"
  using join_low(2,3) [OF _ assms] by linarith+

lemma insn_codec:
  assumes "xvec_ok t"
  shows "byte_codec (insn_dec mm t) (insn_enc mm t) 4"
proof (cases mm)
  case True
  have c: "byte_codec (getx16 t) (putx16 t) 2"
    by (rule xvec_ok16 [OF assms])
  note len = byte_codec.length_enc [OF c] and de = byte_codec.dec_enc [OF c] and ed = byte_codec.enc_dec [OF c]
  note bound = byte_codec.dec_bound [OF c]
  show ?thesis
  proof
    fix v
    show "length (insn_enc mm t v) = 4"
      using True by (simp add: insn_enc_def len)
    show "insn_dec mm t (insn_enc mm t v) = take_bit (8 * 4) v"
      using True by (simp add: insn_dec_def insn_enc_def len de bit_masks halves_32)
  next
    fix bs :: bytes assume bs: "length bs = 4"
    then have halves: "length (take 2 bs) = 2" "length (drop 2 bs) = 2"
      by simp_all
    have "take_bit 16 (getx16 t (take 2 bs)) = getx16 t (take 2 bs)" "take_bit 16 (getx16 t (drop 2 bs)) = getx16 t (drop 2 bs)"
      using bound [OF halves(1)] bound [OF halves(2)] by simp_all
    note low = low_halves [OF this] this
    show "insn_enc mm t (insn_dec mm t bs) = bs"
      using ed [OF halves(1)] ed [OF halves(2)]
      by (simp only: insn_dec_def insn_enc_def True if_True low bit_masks append_take_drop_id)
  qed
next
  case False
  then have "insn_dec mm t = getx32 t" "insn_enc mm t = putx32 t"
    by (auto simp: insn_dec_def insn_enc_def)
  then show ?thesis
    using xvec_ok32 [OF assms] by simp
qed

lemma put_insn:
  assumes "xvec_ok t" "off + 4 \<le> length data"
  shows "bfd_put_32 t v data off = put_at (insn_enc False t) 4 v data off"
    and "bfd_put_micromips_32 t v data off = put_at (insn_enc True t) 4 v data off"
  using assms(2) byte_codec.length_enc [OF xvec_ok16 [OF assms(1)]]
  by (simp_all add: accessor_defs insn_enc_def bfd_put_micromips_32_def put_at_def Let_def numeral_eq_Suc)

lemma get_insn_at:
  assumes "off + 4 \<le> length data"
  shows "get_insn mm t data off = get_at (insn_dec mm t) 4 data off"
  using assms by (simp add: get_insn_def accessor_defs insn_dec_def bfd_get_micromips_32_def get_at_def take_drop
      drop_drop add.commute)

text \<open>A later store further up does not change an instruction.\<close>

lemma get_before_put:
  assumes "off + 4 \<le> off'" "off' \<le> length data"
  shows "get_insn mm t (put_at enc m v data off') off = get_insn mm t data off"
proof -
  have "take 4 (drop off (put_at enc m v data off')) = take 4 (drop off data)"
    using assms by (simp add: put_at_def take_drop min_def)
  then show ?thesis
    using assms by (subst (1 2) get_insn_at) (auto simp: put_at_def get_at_def)
qed

lemma get_put_insn:
  assumes "xvec_ok t" "off + 4 \<le> length data"
  shows "get_insn mm t (put_at (insn_enc mm t) 4 v data off) off = take_bit 32 v"
  using byte_codec.get_put_same [OF insn_codec [OF assms(1)] assms(2)] byte_codec.length_put [OF insn_codec [OF assms(1)] assms(2)]
  by (simp add: get_insn_at assms(2))

lemma length_put_insn [simp]:
  "xvec_ok t \<Longrightarrow> off + 4 \<le> length data \<Longrightarrow> length (put_at (insn_enc mm t) 4 v data off) = length data"
  by (rule byte_codec.length_put [OF insn_codec])

text \<open>The stub as a sequence of instruction stores.\<close>

definition stub_opcodes :: "bool \<Rightarrow> vma \<times> vma \<times> vma" where
  "stub_opcodes mm = (if mm then (0x41b9, 0x3339, 0x35) else (0x3c19, 0x2739, 2))"

definition stub_lui :: "bool \<Rightarrow> vma \<Rightarrow> vma" where
  "stub_lui mm target = (if mm then LA25_LUI_MICROMIPS (mips_elf_high target) else LA25_LUI (mips_elf_high target))"

definition stub_addiu :: "bool \<Rightarrow> vma \<Rightarrow> vma" where
  "stub_addiu mm target = (if mm then LA25_ADDIU_MICROMIPS (target AND 0xffff) else LA25_ADDIU (target AND 0xffff))"

definition j_insn :: "bool \<Rightarrow> vma \<Rightarrow> vma" where
  "j_insn mm target = (if mm then LA25_J_MICROMIPS target else LA25_J target)"

lemma la25_code_stores:
  assumes t: "xvec_ok t" and len: "offset + (if trampoline then 16 else 8) \<le> length loc"
  shows "la25_code t mm trampoline target offset loc =
    (if trampoline
     then put_at (insn_enc False t) 4 0
            (put_at (insn_enc mm t) 4 (stub_addiu mm target)
              (put_at (insn_enc mm t) 4 (j_insn mm target)
                (put_at (insn_enc mm t) 4 (stub_lui mm target) loc offset) (offset + 4)) (offset + 8)) (offset + 12)
     else put_at (insn_enc mm t) 4 (stub_addiu mm target)
            (put_at (insn_enc mm t) 4 (stub_lui mm target) (replicate offset 0 @ drop offset loc) offset) (offset + 4))"
  using len t
  by (cases mm; cases trampoline) (simp_all add: la25_code_def Let_def put_insn stub_lui_def stub_addiu_def j_insn_def
      mips_elf_high_def)

lemma insn_fields:
  assumes "take_bit 16 imm = imm" "op \<in> {0x3c19, 0x41b9, 0x2739, 0x3339}"
  shows "drop_bit 16 (take_bit 32 (push_bit 16 op OR imm)) = (op :: vma)" "take_bit 32 (push_bit 16 op OR imm) AND 0xffff = imm"
proof -
  have op: "take_bit 16 op = op"
    using assms(2) by auto
  show "drop_bit 16 (take_bit 32 (push_bit 16 op OR imm)) = op" "take_bit 32 (push_bit 16 op OR imm) AND 0xffff = imm"
    using join_low [OF _ op assms(1)] by (simp_all only: bit_masks)
qed

lemma lui_fields:
  "drop_bit 16 (take_bit 32 (stub_lui mm target)) = fst (stub_opcodes mm)"
  "take_bit 32 (stub_lui mm target) AND 0xffff = mips_elf_high target"
  and addiu_fields:
  "drop_bit 16 (take_bit 32 (stub_addiu mm target)) = fst (snd (stub_opcodes mm))"
  "take_bit 32 (stub_addiu mm target) AND 0xffff = target AND 0xffff"
proof -
  have imm: "take_bit 16 (mips_elf_high target) = mips_elf_high target" "take_bit 16 (target AND 0xffff) = target AND 0xffff"
    by (simp_all add: mips_elf_high_def bit_masks)
  have "stub_lui mm target = push_bit 16 (fst (stub_opcodes mm)) OR mips_elf_high target"
    "stub_addiu mm target = push_bit 16 (fst (snd (stub_opcodes mm))) OR (target AND 0xffff)"
    "fst (stub_opcodes mm) \<in> {0x3c19, 0x41b9, 0x2739, 0x3339}" "fst (snd (stub_opcodes mm)) \<in> {0x3c19, 0x41b9, 0x2739, 0x3339}"
    by (simp_all add: stub_lui_def stub_addiu_def stub_opcodes_def LA25_LUI_def LA25_LUI_MICROMIPS_def LA25_ADDIU_def
        LA25_ADDIU_MICROMIPS_def)
  then show "drop_bit 16 (take_bit 32 (stub_lui mm target)) = fst (stub_opcodes mm)"
    "take_bit 32 (stub_lui mm target) AND 0xffff = mips_elf_high target"
    "drop_bit 16 (take_bit 32 (stub_addiu mm target)) = fst (snd (stub_opcodes mm))"
    "take_bit 32 (stub_addiu mm target) AND 0xffff = target AND 0xffff"
    using insn_fields [OF imm(1)] insn_fields [OF imm(2)] by (simp_all only:)
qed

lemma j_fields:
  "drop_bit 26 (take_bit 32 (j_insn mm target)) = snd (snd (stub_opcodes mm))"
  "take_bit 32 (j_insn mm target) AND 0x3ffffff = take_bit 26 (drop_bit (if mm then 1 else 2) target)"
proof -
  let ?f = "take_bit 26 (drop_bit (if mm then 1 else 2) target)" and ?op = "snd (snd (stub_opcodes mm))"
  have j: "j_insn mm target = push_bit 26 ?op OR ?f"
    by (simp add: j_insn_def stub_opcodes_def LA25_J_def LA25_J_MICROMIPS_def bit_masks)
  have op: "take_bit 6 ?op = ?op" and f: "take_bit 26 ?f = ?f"
    by (simp_all add: stub_opcodes_def)
  show "drop_bit 26 (take_bit 32 (j_insn mm target)) = ?op" "take_bit 32 (j_insn mm target) AND 0x3ffffff = ?f"
    unfolding j bit_masks using join_low [OF _ op f] by (simp_all del: take_bit_or push_bit_of_0)
qed

section \<open>What a stub does\<close>

text \<open>The value that the pair of instructions leaves in a 32-bit register 25.\<close>

definition t9_after :: "vma \<Rightarrow> vma \<Rightarrow> vma" where
  "t9_after lui addiu = take_bit 32 (push_bit 16 (lui AND 0xffff) + sext16 (addiu AND 0xffff))"

lemma t9_loaded: "t9_after (take_bit 32 (stub_lui mm target)) (take_bit 32 (stub_addiu mm target)) = take_bit 32 target"
  by (simp only: t9_after_def lui_fields addiu_fields chain16_32)

definition jump_unit :: "bool \<Rightarrow> nat" where "jump_unit mm = (if mm then 1 else 2)"

lemma j_reaches:
  assumes "drop_bit (26 + jump_unit mm) (pc + 4) = drop_bit (26 + jump_unit mm) target"
  shows "jump_target (jump_unit mm) pc (take_bit 32 (j_insn mm target) AND 0x3ffffff) = push_bit (jump_unit mm) (drop_bit (jump_unit mm) target)"
  unfolding jump_target_def assms j_fields(2) using join_fields [of "jump_unit mm" target] by (simp add: jump_unit_def)

text \<open>The instructions of the two kinds of stubs, and what they leave alone.\<close>

lemma stub_insns:
  assumes t: "xvec_ok t" and len: "offset + (if trampoline then 16 else 8) \<le> length loc"
  shows "get_insn mm t (la25_code t mm trampoline target offset loc) offset = take_bit 32 (stub_lui mm target)"
    and "get_insn mm t (la25_code t mm trampoline target offset loc) (offset + (if trampoline then 8 else 4))
      = take_bit 32 (stub_addiu mm target)"
    and "trampoline \<Longrightarrow> get_insn mm t (la25_code t mm trampoline target offset loc) (offset + 4) = take_bit 32 (j_insn mm target)"
    and "length (la25_code t mm trampoline target offset loc) = length loc"
  using len t unfolding la25_code_stores [OF assms]
  by (cases trampoline; simp add: get_before_put get_put_insn)+

lemma stub_frame:
  assumes t: "xvec_ok t" and len: "offset + (if trampoline then 16 else 8) \<le> length loc" and "i < length loc"
    and "i < offset \<and> trampoline \<or> offset + (if trampoline then 16 else 8) \<le> i"
  shows "la25_code t mm trampoline target offset loc ! i = loc ! i"
proof -
  note put = byte_codec.nth_put_before [OF insn_codec [OF t]] byte_codec.nth_put_after [OF insn_codec [OF t]]
  show ?thesis
    using assms(2-) t unfolding la25_code_stores [OF assms(1,2)]
    by (cases trampoline; elim disjE; simp add: put nth_append)
qed

text \<open>
  C16.  The code of a stub does what a PIC function expects, in both instruction encodings:
  its pair of instructions leaves the address of the function in register 25, the jump of a
  trampoline goes to the function when both lie in one jump region, and writing
  the stub leaves the other stubs of a trampoline section as they were.
\<close>

theorem la25_stub_loads_target:
  assumes "xvec_ok t" "offset + (if trampoline then 16 else 8) \<le> length loc"
    and "trampoline \<Longrightarrow> drop_bit (26 + jump_unit mm) (pc + 4) = drop_bit (26 + jump_unit mm) target"
  shows "(case stub_opcodes mm of (lui, addiu, j) \<Rightarrow>
      let code = la25_code t mm trampoline target offset loc; addiu_at = offset + (if trampoline then 8 else 4)
      in drop_bit 16 (get_insn mm t code offset) = lui \<and> drop_bit 16 (get_insn mm t code addiu_at) = addiu
         \<and> t9_after (get_insn mm t code offset) (get_insn mm t code addiu_at) = take_bit 32 target
         \<and> (trampoline \<longrightarrow> drop_bit 26 (get_insn mm t code (offset + 4)) = j
              \<and> jump_target (jump_unit mm) pc (get_insn mm t code (offset + 4) AND 0x3ffffff)
                = push_bit (jump_unit mm) (drop_bit (jump_unit mm) target)
              \<and> (\<forall>i < length loc. i < offset \<or> offset + 16 \<le> i \<longrightarrow> code ! i = loc ! i)))"
proof -
  note insns = stub_insns [OF assms(1,2), of mm target]
  have opc: "stub_opcodes mm = (fst (stub_opcodes mm), fst (snd (stub_opcodes mm)), snd (snd (stub_opcodes mm)))"
    by simp
  show ?thesis
    apply (subst opc)
    unfolding prod.case Let_def insns(1,2) lui_fields addiu_fields t9_loaded
    using insns(3) j_fields(1) [of mm target] j_reaches [of mm pc target] assms(3) stub_frame [OF assms(1,2)] by auto
qed

theorem la25_stub_loads_target_witness:
  "t9_after (get_insn True be_xvec (la25_code be_xvec True True 0x408001 16 (replicate 32 0)) 16)
      (get_insn True be_xvec (la25_code be_xvec True True 0x408001 16 (replicate 32 0)) 24) = 0x408001
   \<and> jump_target 1 0x400014 (get_insn True be_xvec (la25_code be_xvec True True 0x408001 16 (replicate 32 0)) 20 AND 0x3ffffff)
      = 0x408000"
  using la25_stub_loads_target [of be_xvec 16 True "replicate 32 0" True "0x400014" "0x408001"]
  by (simp add: stub_opcodes_def jump_unit_def Let_def)

section \<open>The layout of the stubs\<close>

text \<open>
  What holds while the symbols are visited.  \<^verbatim>\<open>inputs\<close> are the sections the symbols refer to;
  stubs live in other sections, one after the other.  A stub in a section of its own ends
  the section, whose size keeps the alignment, so that it falls through to what follows.
\<close>

definition stub_sec_id :: "la25_stub \<Rightarrow> nat" where
  "stub_sec_id e = sec_id (stub_section e)"

definition stub_length :: "la25_state \<Rightarrow> la25_stub \<Rightarrow> nat" where
  "stub_length st e = (if strampoline st = Some (stub_sec_id e) then 16 else 8)"

definition stub_end :: "la25_state \<Rightarrow> la25_stub \<Rightarrow> nat" where
  "stub_end st e = unat (stub_offset e) + stub_length st e"

definition stubs_apart :: "la25_state \<Rightarrow> la25_stub list \<Rightarrow> bool" where
  "stubs_apart st es \<longleftrightarrow> sorted_wrt (\<lambda>e f. stub_sec_id e = stub_sec_id f \<longrightarrow> stub_end st e \<le> unat (stub_offset f)) es"

definition stub_inside :: "la25_state \<Rightarrow> la25_stub \<Rightarrow> bool" where
  "stub_inside st e \<longleftrightarrow> stub_end st e \<le> unat (sec_size (la_secs st (stub_sec_id e)))
     \<and> (strampoline st \<noteq> Some (stub_sec_id e) \<longrightarrow> stub_end st e = unat (sec_size (la_secs st (stub_sec_id e)))
          \<and> 2 ^ alignment_power (la_secs st (stub_sec_id e)) dvd unat (sec_size (la_secs st (stub_sec_id e))))"

definition symbol_sections :: "link_sym \<Rightarrow> nat set" where
  "symbol_sections h = {def_sec h} \<union> sec_id ` (set_option (fn_stub h) \<union> set_option (call_stub h) \<union> set_option (call_fp_stub h))"

definition served :: "la25_state \<Rightarrow> nat \<Rightarrow> la25_stub \<Rightarrow> bool" where
  "served st h e \<longleftrightarrow> e \<in> set (la25_stubs st) \<and> def_sec (la_syms st (stub_h e)) = def_sec (la_syms st h)
     \<and> def_value (la_syms st (stub_h e)) = def_value (la_syms st h)"

definition layout_inv :: "nat set \<Rightarrow> nat \<Rightarrow> la25_state \<Rightarrow> bool" where
  "layout_inv inputs k st \<longleftrightarrow>
     length (la25_stubs st) \<le> k \<and> (\<forall>h. symbol_sections (la_syms st h) \<subseteq> inputs) \<and> inputs \<subseteq> la_known st
     \<and> (\<forall>e \<in> set (la25_stubs st). stub_sec_id e \<in> la_known st - inputs \<and> stub_inside st e)
     \<and> stubs_apart st (la25_stubs st)
     \<and> (\<forall>s. strampoline st = Some s \<longrightarrow> s \<in> la_known st - inputs \<and> sec_id (la_secs st s) = s
          \<and> unat (sec_size (la_secs st s)) \<le> 16 * length (la25_stubs st))
     \<and> (\<forall>h e. sym_la25_stub (la_syms st h) = Some e \<longrightarrow> served st h e)"

lemmas stub_defs = stub_sec_id_def stub_length_def stub_end_def stubs_apart_def stub_inside_def

lemma layout_created [simp]:
  "layout_inv inputs k (st\<lparr>la_created := c\<rparr>) = layout_inv inputs k st"
  by (simp add: layout_inv_def stub_defs served_def)

lemma create_symbol_only:
  "\<exists>c. snd (mips_elf_create_stub_symbol env h p s v sz st) = st\<lparr>la_created := c\<rparr>"
  "\<exists>c. snd (mips_elf_create_shadow_symbol env h p st) = st\<lparr>la_created := c\<rparr>"
proof -
  have "\<exists>c. st = st\<lparr>la_created := c\<rparr>"
    by (rule exI [of _ "la_created st"]) simp
  then show "\<exists>c. snd (mips_elf_create_stub_symbol env h p s v sz st) = st\<lparr>la_created := c\<rparr>"
    "\<exists>c. snd (mips_elf_create_shadow_symbol env h p st) = st\<lparr>la_created := c\<rparr>"
    by (auto simp: mips_elf_create_stub_symbol_def mips_elf_create_shadow_symbol_def Let_def)
qed

text \<open>What the visit of a symbol leaves alone.\<close>

definition frame :: "nat set \<Rightarrow> nat \<Rightarrow> la25_state \<Rightarrow> la25_state \<Rightarrow> bool" where
  "frame inputs h st st' \<longleftrightarrow>
     (\<forall>h'. h' \<noteq> h \<longrightarrow> la_syms st' h' = la_syms st h')
     \<and> (\<exists>n e. la_syms st' h = (la_syms st h)\<lparr>need_fn_stub := n, sym_la25_stub := e\<rparr>)
     \<and> (\<forall>s \<in> inputs. output_section (la_secs st' s) = output_section (la_secs st s))"

lemma frame_refl: "frame inputs h st st"
  unfolding frame_def by (intro conjI exI [of _ "need_fn_stub (la_syms st h)"] exI [of _ "sym_la25_stub (la_syms st h)"]) simp_all

lemma frame_trans: "frame inputs h st st' \<Longrightarrow> frame inputs h st' st'' \<Longrightarrow> frame inputs h st st''"
  unfolding frame_def by (elim conjE exE) (intro conjI allI impI exI ballI; simp)

text \<open>Discarding the MIPS16 stubs of a symbol changes sections of the input only.\<close>

definition mips16_same :: "nat set \<Rightarrow> nat \<Rightarrow> la25_state \<Rightarrow> la25_state \<Rightarrow> bool" where
  "mips16_same inputs h st st' \<longleftrightarrow> la25_stubs st' = la25_stubs st \<and> strampoline st' = strampoline st \<and> la_known st' = la_known st
     \<and> (\<forall>s. s \<notin> inputs \<longrightarrow> la_secs st' s = la_secs st s) \<and> (\<forall>s. output_section (la_secs st' s) = output_section (la_secs st s))
     \<and> (\<exists>n. la_syms st' = (la_syms st)(h := (la_syms st h)\<lparr>need_fn_stub := n\<rparr>))"

lemma mips16_same_trans: "mips16_same inputs h st st' \<Longrightarrow> mips16_same inputs h st' st'' \<Longrightarrow> mips16_same inputs h st st''"
  unfolding mips16_same_def by (elim conjE exE) (intro conjI allI impI exI; simp)

lemma mips16_same_refl: "mips16_same inputs h st st"
  unfolding mips16_same_def by (intro conjI exI [of _ "need_fn_stub (la_syms st h)"]) simp_all

lemma discard_same:
  assumes "sec_id ` set_option s \<subseteq> inputs"
  shows "mips16_same inputs h st (discard_stub s st)"
proof (cases s)
  case None
  then show ?thesis by (simp add: discard_stub_def mips16_same_refl)
next
  case (Some x)
  have "\<exists>n. la_syms st = (la_syms st)(h := (la_syms st h)\<lparr>need_fn_stub := n\<rparr>)"
    by (rule exI [of _ "need_fn_stub (la_syms st h)"]) simp
  then show ?thesis
    using Some assms by (auto simp: mips16_same_def discard_stub_def upd_la_sec_def)
qed

lemma mips16_same_sections:
  "mips16_same inputs h st st' \<Longrightarrow> symbol_sections (la_syms st' x) = symbol_sections (la_syms st x)"
  by (cases "x = h") (auto simp: mips16_same_def symbol_sections_def def_sec_def)

lemma symbol_sectionsD:
  assumes "symbol_sections h \<subseteq> inputs"
  shows "def_sec h \<in> inputs" "sec_id ` set_option (fn_stub h) \<subseteq> inputs" "sec_id ` set_option (call_stub h) \<subseteq> inputs"
    "sec_id ` set_option (call_fp_stub h) \<subseteq> inputs"
  using assms unfolding symbol_sections_def by blast+

lemma check_mips16_same:
  assumes "\<And>x. symbol_sections (la_syms st x) \<subseteq> inputs"
  shows "mips16_same inputs h st (mips_elf_check_mips16_stubs env h st)"
proof -
  define st1 where "st1 = (if fn_stub (la_syms st h) \<noteq> None \<and> dynindx (la_syms st h) \<noteq> -1
      then upd_la_sym h (\<lambda>s. s\<lparr>need_fn_stub := True\<rparr>) (snd (mips_elf_create_shadow_symbol env h ''.mips16.'' st)) else st)"
  define st2 where "st2 = (if \<not> need_fn_stub (la_syms st1 h) then discard_stub (fn_stub (la_syms st1 h)) st1 else st1)"
  define st3 where "st3 = (if ELF_ST_IS_MIPS16 (st_other (la_syms st2 h)) then discard_stub (call_stub (la_syms st2 h)) st2 else st2)"
  have 1: "mips16_same inputs h st st1"
    using create_symbol_only(2) [of env h "''.mips16.''" st] mips16_same_refl [of inputs h st]
    by (auto simp: st1_def mips16_same_def upd_la_sym_def)
  then have in1: "symbol_sections (la_syms st1 x) \<subseteq> inputs" for x
    using mips16_same_sections assms by simp
  have 2: "mips16_same inputs h st1 st2"
    using discard_same [OF symbol_sectionsD(2) [OF in1 [of h]]] mips16_same_refl by (simp add: st2_def)
  then have in2: "symbol_sections (la_syms st2 x) \<subseteq> inputs" for x
    using mips16_same_sections in1 by simp
  have 3: "mips16_same inputs h st2 st3"
    using discard_same [OF symbol_sectionsD(3) [OF in2 [of h]]] mips16_same_refl by (simp add: st3_def)
  then have in3: "symbol_sections (la_syms st3 x) \<subseteq> inputs" for x
    using mips16_same_sections in2 by simp
  have "mips16_same inputs h st3 (mips_elf_check_mips16_stubs env h st)"
    unfolding mips_elf_check_mips16_stubs_def Let_def st1_def [symmetric] st2_def [symmetric] st3_def [symmetric]
    using discard_same [OF symbol_sectionsD(4) [OF in3 [of h]]] mips16_same_refl by simp
  then show ?thesis
    using 1 2 3 mips16_same_trans by blast
qed

lemma mips16_same_layout:
  assumes "mips16_same inputs h st st'" "layout_inv inputs k st"
  shows "layout_inv inputs k st' \<and> frame inputs h st st'"
proof -
  obtain n where n: "la_syms st' = (la_syms st)(h := (la_syms st h)\<lparr>need_fn_stub := n\<rparr>)"
    using assms(1) unfolding mips16_same_def by blast
  have same: "la25_stubs st' = la25_stubs st" "strampoline st' = strampoline st" "la_known st' = la_known st"
    "\<And>s. s \<notin> inputs \<Longrightarrow> la_secs st' s = la_secs st s" "\<And>s. output_section (la_secs st' s) = output_section (la_secs st s)"
    using assms(1) unfolding mips16_same_def by blast+
  have "served st' x e = served st x e" "symbol_sections (la_syms st' x) = symbol_sections (la_syms st x)"
    "sym_la25_stub (la_syms st' x) = sym_la25_stub (la_syms st x)" for x e
    using mips16_same_sections [OF assms(1)] by (auto simp: served_def same n def_sec_def)
  moreover have "stub_end st' = stub_end st" "stubs_apart st' = stubs_apart st"
    by (auto simp: stub_defs same)
  moreover have "frame inputs h st st'"
    unfolding frame_def n by (intro conjI exI [of _ n] exI [of _ "sym_la25_stub (la_syms st h)"]) (simp_all add: same)
  ultimately show ?thesis
    using assms(2) by (simp add: layout_inv_def same stub_inside_def)
qed

text \<open>The linker's function adds an empty section with a new number and changes nothing else.\<close>

definition adds_fresh_section :: "la25_env \<Rightarrow> bool" where
  "adds_fresh_section env \<longleftrightarrow>
     (\<forall>name before out st s st'. add_stub_section env name before out st = Some (s, st') \<longrightarrow>
        s \<notin> la_known st \<and> (\<exists>r. sec_id r = s \<and> sec_size r = 0
          \<and> st' = st\<lparr>la_secs := (la_secs st)(s := r), la_known := insert s (la_known st)\<rparr>))"

lemma fresh_layout:
  assumes inv: "layout_inv inputs k st" and s: "s \<notin> la_known st" "sec_id r = s"
    and tramp: "t = strampoline st \<or> strampoline st = None \<and> t = Some s \<and> sec_size r = 0"
    and st': "st' = st\<lparr>la_secs := (la_secs st)(s := r), la_known := insert s (la_known st), strampoline := t\<rparr>"
  shows "layout_inv inputs k st' \<and> frame inputs h st st' \<and> s \<in> la_known st' - inputs \<and> (\<forall>e \<in> set (la25_stubs st'). stub_sec_id e \<noteq> s)"
proof -
  have known: "inputs \<subseteq> la_known st" "\<And>e. e \<in> set (la25_stubs st) \<Longrightarrow> stub_sec_id e \<in> la_known st - inputs"
    "\<And>q. strampoline st = Some q \<Longrightarrow> q \<in> la_known st"
    using inv unfolding layout_inv_def by blast+
  have other: "stub_sec_id e \<noteq> s" "stub_end st' e = stub_end st e" "stub_inside st' e = stub_inside st e"
    if "e \<in> set (la25_stubs st)" for e
    using known(2) [OF that] s(1) tramp by (auto simp: stub_end_def stub_length_def stub_inside_def st')
  have "stubs_apart st' (la25_stubs st)"
    using inv other(2) unfolding layout_inv_def stubs_apart_def
    by (elim conjE) (rule sorted_wrt_mono_rel [rotated], assumption, simp)
  moreover have "served st' x e = served st x e" for x e
    by (simp add: served_def st')
  moreover have "frame inputs h st st'"
    unfolding frame_def using s(1) known(1)
    by (intro conjI exI [of _ "need_fn_stub (la_syms st h)"] exI [of _ "sym_la25_stub (la_syms st h)"]) (auto simp: st')
  ultimately show ?thesis
    using inv other(1,3) tramp s known by (fastforce simp: layout_inv_def st')
qed

lemma place_layout:
  assumes inv: "layout_inv inputs k st" and s: "s \<in> la_known st - inputs" "sec_id (la_secs st s) = s"
    and room: "unat (sec_size (la_secs st s)) + 16 < 2 ^ 64"
    and len: "len = (if strampoline st = Some s then 16 else 8)"
    and own: "strampoline st \<noteq> Some s \<Longrightarrow> (\<forall>e \<in> set (la25_stubs st). stub_sec_id e \<noteq> s)
      \<and> 2 ^ alignment_power (la_secs st s) dvd unat (sec_size (la_secs st s)) + 8"
    and st': "st' = upd_la_sec s (\<lambda>r. r\<lparr>sec_size := sec_size r + of_nat len\<rparr>) (place_stub h s st)"
  shows "layout_inv inputs (Suc k) st' \<and> frame inputs h st st' \<and> (\<exists>e. sym_la25_stub (la_syms st' h) = Some e \<and> served st' h e)"
proof -
  let ?z = "sec_size (la_secs st s)"
  define e where "e = \<lparr>stub_section = asection.truncate (la_secs st s), stub_offset = ?z, stub_h = h\<rparr>"
  have st'': "st' = st\<lparr>la25_stubs := la25_stubs st @ [e], la_syms := (la_syms st)(h := (la_syms st h)\<lparr>sym_la25_stub := Some e\<rparr>),
      la_secs := (la_secs st)(s := (la_secs st s)\<lparr>sec_size := ?z + of_nat len\<rparr>)\<rparr>"
    unfolding st' by (simp add: place_stub_def upd_la_sec_def upd_la_sym_def e_def Let_def)
  have size': "unat (?z + of_nat len) = unat ?z + len"
    using room len by (subst unat_add_lem [THEN iffD1]) (auto simp: unsigned_of_nat take_bit_nat_eq_self)
  have e: "stub_sec_id e = s" "stub_end st' e = unat ?z + len" "unat (stub_offset e) = unat ?z"
    using s(2) len by (simp_all add: e_def stub_defs st'' asection.truncate_def)
  have old: "stub_end st' f = stub_end st f" "stub_inside st' f" "stub_end st f \<le> unat (sec_size (la_secs st (stub_sec_id f)))"
    if "f \<in> set (la25_stubs st)" for f
  proof -
    show end': "stub_end st' f = stub_end st f"
      by (simp add: stub_defs st'')
    have "stub_inside st f"
      using inv that by (simp add: layout_inv_def)
    then show "stub_inside st' f" "stub_end st f \<le> unat (sec_size (la_secs st (stub_sec_id f)))"
      unfolding stub_inside_def end' using own that size' by (cases "stub_sec_id f = s"; auto simp: st'')+
  qed
  have "stub_inside st' e"
    using e size' own len by (auto simp: stub_inside_def st'')
  moreover have "stubs_apart st' (la25_stubs st @ [e])"
  proof -
    have "stubs_apart st' (la25_stubs st)"
      using inv old(1) unfolding layout_inv_def stubs_apart_def
      by (elim conjE) (rule sorted_wrt_mono_rel [rotated], assumption, simp)
    moreover have "stub_end st' f \<le> unat ?z" if "f \<in> set (la25_stubs st)" "stub_sec_id f = s" for f
      using old(1,3) [OF that(1)] that(2) by simp
    ultimately show ?thesis
      using e by (simp add: stubs_apart_def sorted_wrt_append)
  qed
  moreover have sv: "served st x f \<Longrightarrow> served st' x f" "served st' h e" for x f
    by (auto simp: served_def st'' e_def def_sec_def)
  moreover have "symbol_sections (la_syms st' x) = symbol_sections (la_syms st x)" for x
    by (simp add: symbol_sections_def def_sec_def st'')
  moreover have "frame inputs h st st'"
    unfolding frame_def st'' by (intro conjI exI [of _ "need_fn_stub (la_syms st h)"] exI [of _ "Some e"]) auto
  ultimately show ?thesis
    using inv s old(2) e(1) size' len by (auto simp: layout_inv_def st'' split: if_splits)
qed

lemma add_intro_layout:
  assumes inv: "layout_inv inputs k st" and env: "adds_fresh_section env"
    and input: "fst (mips_elf_get_la25_target st h) \<in> inputs" "alignment_power (la_secs st (fst (mips_elf_get_la25_target st h))) \<le> 4"
    and step: "mips_elf_add_la25_intro env h st = Some st'"
  shows "layout_inv inputs (Suc k) st' \<and> frame inputs h st st' \<and> (\<exists>e. sym_la25_stub (la_syms st' h) = Some e \<and> served st' h e)"
proof -
  define i where "i = fst (mips_elf_get_la25_target st h)"
  define a where "a = alignment_power (la_secs st i)"
  obtain name s st1 where add: "add_stub_section env name (Some i) (output_section (la_secs st i)) st = Some (s, st1)"
    and rest: "st' = (let st = upd_la_sec s (\<lambda>r. r\<lparr>alignment_power := alignment_power (la_secs st1 i)\<rparr>) st1;
           st = (if alignment_power (la_secs st1 i) > 3 then upd_la_sec s (\<lambda>r. r\<lparr>sec_size := of_nat (2 ^ alignment_power (la_secs st1 i) - 8)\<rparr>) st else st);
           st = snd (mips_elf_create_stub_symbol env h ''.pic.'' s (sec_size (la_secs st s)) 8 st)
       in upd_la_sec s (\<lambda>r. r\<lparr>sec_size := sec_size r + 8\<rparr>) (place_stub h s st))"
    using step by (auto simp: mips_elf_add_la25_intro_def i_def Let_def split: prod.splits option.splits)
  obtain r where r: "s \<notin> la_known st" "sec_id r = s" "sec_size r = 0" "st1 = st\<lparr>la_secs := (la_secs st)(s := r), la_known := insert s (la_known st)\<rparr>"
    using env add unfolding adds_fresh_section_def by blast
  have "i \<noteq> s"
    using inv input(1) r(1) unfolding layout_inv_def i_def by blast
  then have align: "alignment_power (la_secs st1 i) = a"
    by (simp add: r(4) a_def)
  define r' where "r' = r\<lparr>alignment_power := a, sec_size := if a > 3 then of_nat (2 ^ a - 8) else 0\<rparr>"
  define st3 where "st3 = st\<lparr>la_secs := (la_secs st)(s := r'), la_known := insert s (la_known st), strampoline := strampoline st\<rparr>"
  have "r\<lparr>alignment_power := a\<rparr> = r'" if "\<not> a > 3"
    using that r(3) by (simp add: r'_def)
  then have st3: "(let st = upd_la_sec s (\<lambda>r. r\<lparr>alignment_power := a\<rparr>) st1
      in if a > 3 then upd_la_sec s (\<lambda>r. r\<lparr>sec_size := of_nat (2 ^ a - 8)\<rparr>) st else st) = st3"
    by (simp add: st3_def upd_la_sec_def r(4) r'_def Let_def)
  obtain c where c: "snd (mips_elf_create_stub_symbol env h ''.pic.'' s (sec_size (la_secs st3 s)) 8 st3) = st3\<lparr>la_created := c\<rparr>"
    using create_symbol_only(1) by blast
  have st': "st' = upd_la_sec s (\<lambda>r. r\<lparr>sec_size := sec_size r + of_nat 8\<rparr>) (place_stub h s (st3\<lparr>la_created := c\<rparr>))"
    using rest st3 c unfolding align by (simp add: Let_def)
  have 3: "layout_inv inputs k st3 \<and> frame inputs h st st3 \<and> s \<in> la_known st3 - inputs \<and> (\<forall>e \<in> set (la25_stubs st3). stub_sec_id e \<noteq> s)"
    by (rule fresh_layout [OF inv r(1), of r' "strampoline st"]) (simp_all add: r'_def r(2) st3_def)
  have tramp: "strampoline st3 \<noteq> Some s"
    using inv r(1) by (auto simp: layout_inv_def st3_def)
  have "a \<in> {0, 1, 2, 3, 4}"
    using input(2) by (auto simp: a_def i_def)
  then have dvd: "2 ^ a dvd unat (sec_size r') + 8" "unat (sec_size r') + 16 < 2 ^ 64"
    by (auto simp: r'_def)
  have "layout_inv inputs (Suc k) st' \<and> frame inputs h (st3\<lparr>la_created := c\<rparr>) st'
      \<and> (\<exists>e. sym_la25_stub (la_syms st' h) = Some e \<and> served st' h e)"
    by (rule place_layout [OF _ _ _ _ _ _ st']) (use 3 tramp dvd in \<open>simp_all add: st3_def, simp_all add: r'_def r(2)\<close>)
  then show ?thesis
    using 3 frame_trans [of inputs h st st3 st'] by (simp add: frame_def)
qed

lemma add_trampoline_layout:
  assumes inv: "layout_inv inputs k st" and env: "adds_fresh_section env" and k: "k < 2 ^ 32"
    and step: "mips_elf_add_la25_trampoline env h st = Some st'"
  shows "layout_inv inputs (Suc k) st' \<and> frame inputs h st st' \<and> (\<exists>e. sym_la25_stub (la_syms st' h) = Some e \<and> served st' h e)"
proof -
  obtain s st1 where tr: "trampoline_section env h st = Some (s, st1)"
    and rest: "st' = upd_la_sec s (\<lambda>r. r\<lparr>sec_size := sec_size r + 16\<rparr>)
        (place_stub h s (snd (mips_elf_create_stub_symbol env h ''.pic.'' s (sec_size (la_secs st1 s)) 16 st1)))"
    using step by (auto simp: mips_elf_add_la25_trampoline_def Let_def split: prod.splits option.splits)
  obtain c where c: "snd (mips_elf_create_stub_symbol env h ''.pic.'' s (sec_size (la_secs st1 s)) 16 st1) = st1\<lparr>la_created := c\<rparr>"
    using create_symbol_only(1) by blast
  have 1: "layout_inv inputs k st1 \<and> frame inputs h st st1 \<and> s \<in> la_known st1 - inputs \<and> sec_id (la_secs st1 s) = s \<and> strampoline st1 = Some s"
  proof (cases "strampoline st")
    case (Some q)
    then have "s = q" "st1 = st"
      using tr by (auto simp: trampoline_section_def)
    then show ?thesis
      using inv Some frame_refl by (simp add: layout_inv_def)
  next
    case None
    obtain st0 where add: "add_stub_section env ''.text'' None (output_section (la_secs st (def_sec (la_syms st h)))) st = Some (s, st0)"
      and st1: "st1 = upd_la_sec s (\<lambda>r. r\<lparr>alignment_power := 4\<rparr>) (st0\<lparr>strampoline := Some s\<rparr>)"
      using tr None by (auto simp: trampoline_section_def split: option.splits)
    obtain r where r: "s \<notin> la_known st" "sec_id r = s" "sec_size r = 0" "st0 = st\<lparr>la_secs := (la_secs st)(s := r), la_known := insert s (la_known st)\<rparr>"
      using env add unfolding adds_fresh_section_def by blast
    have eq: "st1 = st\<lparr>la_secs := (la_secs st)(s := r\<lparr>alignment_power := 4\<rparr>), la_known := insert s (la_known st), strampoline := Some s\<rparr>"
      by (simp add: st1 r(4) upd_la_sec_def)
    have "layout_inv inputs k st1 \<and> frame inputs h st st1 \<and> s \<in> la_known st1 - inputs \<and> (\<forall>e \<in> set (la25_stubs st1). stub_sec_id e \<noteq> s)"
      by (rule fresh_layout [OF inv r(1) _ _ eq]) (simp_all add: r None)
    then show ?thesis
      by (simp add: eq r(2))
  qed
  have "unat (sec_size (la_secs st1 s)) \<le> 16 * k"
    using 1 by (auto simp: layout_inv_def)
  then have room: "unat (sec_size (la_secs st1 s)) + 16 < 2 ^ 64"
    using k by simp
  have st': "st' = upd_la_sec s (\<lambda>r. r\<lparr>sec_size := sec_size r + of_nat 16\<rparr>) (place_stub h s (st1\<lparr>la_created := c\<rparr>))"
    using rest c by simp
  have "layout_inv inputs (Suc k) st' \<and> frame inputs h (st1\<lparr>la_created := c\<rparr>) st'
      \<and> (\<exists>e. sym_la25_stub (la_syms st' h) = Some e \<and> served st' h e)"
    by (rule place_layout [OF _ _ _ _ _ _ st']) (use 1 room in simp_all)
  then show ?thesis
    using 1 frame_trans [of inputs h st st1 st'] by (simp add: frame_def)
qed

lemma add_stub_layout:
  assumes inv: "layout_inv inputs k st" and env: "adds_fresh_section env" and k: "k < 2 ^ 32"
    and target: "fst (mips_elf_get_la25_target st h) \<in> inputs"
    and step: "mips_elf_add_la25_stub env h st = Some st'"
  shows "layout_inv inputs (Suc k) st' \<and> frame inputs h st st' \<and> (\<exists>e. sym_la25_stub (la_syms st' h) = Some e \<and> served st' h e)"
proof (cases "find (\<lambda>e. mips_elf_la25_stub_eq st e \<lparr>stub_section = undefined, stub_offset = 0, stub_h = h\<rparr>) (la25_stubs st)")
  case (Some e)
  then have e: "e \<in> set (la25_stubs st)" "mips_elf_la25_stub_eq st e \<lparr>stub_section = undefined, stub_offset = 0, stub_h = h\<rparr>"
    by (auto simp: find_Some_iff)
  have st': "st' = upd_la_sym h (\<lambda>y. y\<lparr>sym_la25_stub := Some e\<rparr>) st"
    using step Some by (simp add: mips_elf_add_la25_stub_def)
  have "served st' x f = served st x f" for x f
    by (auto simp: served_def st' upd_la_sym_def def_sec_def)
  moreover have "served st h e"
    using e by (simp add: served_def mips_elf_la25_stub_eq_def)
  moreover have "symbol_sections (la_syms st' x) = symbol_sections (la_syms st x)" for x
    by (simp add: symbol_sections_def def_sec_def st' upd_la_sym_def)
  moreover have "stub_end st' = stub_end st" "stubs_apart st' = stubs_apart st" "stub_inside st' = stub_inside st"
    by (auto simp: stub_defs st' upd_la_sym_def)
  moreover have "frame inputs h st st'"
    unfolding frame_def st' upd_la_sym_def by (intro conjI exI [of _ "need_fn_stub (la_syms st h)"] exI [of _ "Some e"]) auto
  ultimately show ?thesis
    using inv by (auto simp: layout_inv_def st' upd_la_sym_def split: if_splits)
next
  case None
  obtain s v where sv: "mips_elf_get_la25_target st h = (s, v)"
    by force
  show ?thesis
  proof (cases "v \<noteq> 0 \<or> alignment_power (la_secs st s) > 4")
    case True
    then have "mips_elf_add_la25_trampoline env h st = Some st'"
      using step None sv by (simp add: mips_elf_add_la25_stub_def)
    then show ?thesis
      by (rule add_trampoline_layout [OF inv env k])
  next
    case False
    then have "mips_elf_add_la25_intro env h st = Some st'"
      using step None sv by (simp add: mips_elf_add_la25_stub_def)
    then show ?thesis
      using False sv target by (intro add_intro_layout [OF inv env]) simp_all
  qed
qed

text \<open>The functions that get a stub.\<close>

definition needs_stub :: "la25_env \<Rightarrow> la25_state \<Rightarrow> nat \<Rightarrow> bool" where
  "needs_stub env st h \<longleftrightarrow> mips_elf_local_pic_function_p env (la_syms st h) \<and> has_nonpic_branches (la_syms st h)
     \<and> \<not> abs_output env (output_section (la_secs st (def_sec (la_syms st h))))"

lemma layout_weaken: "layout_inv inputs k st \<Longrightarrow> layout_inv inputs (Suc k) st"
  by (auto simp: layout_inv_def)

lemma check_symbol_layout:
  assumes inv: "layout_inv inputs k st" and env: "adds_fresh_section env" "\<not> relocatable_link env" and k: "k < 2 ^ 32"
    and step: "mips_elf_check_symbols env h st = Some st'"
  shows "layout_inv inputs (Suc k) st' \<and> frame inputs h st st' \<and> (needs_stub env st' h \<longrightarrow> sym_la25_stub (la_syms st' h) \<noteq> None)"
proof -
  define st1 where "st1 = mips_elf_check_mips16_stubs env h st"
  have "\<And>x. symbol_sections (la_syms st x) \<subseteq> inputs"
    using inv by (simp add: layout_inv_def)
  from mips16_same_layout [OF check_mips16_same [OF this] inv]
  have 1: "layout_inv inputs k st1" "frame inputs h st st1"
    by (simp_all add: st1_def)
  show ?thesis
  proof (cases "needs_stub env st1 h")
    case True
    have in1: "symbol_sections (la_syms st1 h) \<subseteq> inputs"
      using 1(1) by (simp add: layout_inv_def)
    have "fst (mips_elf_get_la25_target st1 h) \<in> inputs"
      using symbol_sectionsD [OF in1] True
      by (cases "fn_stub (la_syms st1 h)")
        (auto simp: mips_elf_get_la25_target_def Let_def needs_stub_def mips_elf_local_pic_function_p_def)
    moreover have "mips_elf_add_la25_stub env h st1 = Some st'"
      using step True env(2) by (simp add: mips_elf_check_symbols_def st1_def [symmetric] needs_stub_def)
    ultimately have 2: "layout_inv inputs (Suc k) st' \<and> frame inputs h st1 st' \<and> (\<exists>e. sym_la25_stub (la_syms st' h) = Some e \<and> served st' h e)"
      by (rule add_stub_layout [OF 1(1) env(1) k])
    then show ?thesis
      using frame_trans [OF 1(2)] by auto
  next
    case False
    then have "st' = st1"
      using step env(2) by (auto simp: mips_elf_check_symbols_def st1_def [symmetric] needs_stub_def Let_def split: if_splits)
    then show ?thesis
      using 1 False layout_weaken by blast
  qed
qed

lemma frame_needs:
  assumes "frame inputs h st st'" "layout_inv inputs k st" "x \<noteq> h"
  shows "needs_stub env st' x = needs_stub env st x" "la_syms st' x = la_syms st x"
proof -
  have "def_sec (la_syms st x) \<in> inputs"
    using assms(2) symbol_sectionsD(1) [of "la_syms st x" inputs] by (simp add: layout_inv_def)
  then show "needs_stub env st' x = needs_stub env st x" "la_syms st' x = la_syms st x"
    using assms(1,3) by (auto simp: frame_def needs_stub_def)
qed

lemma check_all_layout:
  assumes "adds_fresh_section env" "\<not> relocatable_link env"
    and "fold_opt (mips_elf_check_symbols env) hs st = Some st'" "layout_inv inputs k st" "k + length hs < 2 ^ 32"
    and "\<forall>h \<in> done. needs_stub env st h \<longrightarrow> sym_la25_stub (la_syms st h) \<noteq> None"
  shows "layout_inv inputs (k + length hs) st' \<and> (\<forall>h \<in> done \<union> set hs. needs_stub env st' h \<longrightarrow> sym_la25_stub (la_syms st' h) \<noteq> None)"
  using assms(3-)
proof (induction hs arbitrary: st k "done")
  case Nil
  then show ?case by simp
next
  case (Cons h hs)
  obtain st1 where 1: "mips_elf_check_symbols env h st = Some st1" "fold_opt (mips_elf_check_symbols env) hs st1 = Some st'"
    using Cons.prems(1) by (auto split: option.splits)
  note step = check_symbol_layout [OF Cons.prems(2) assms(1,2) _ 1(1)]
  have "\<forall>x \<in> insert h done. needs_stub env st1 x \<longrightarrow> sym_la25_stub (la_syms st1 x) \<noteq> None"
  proof
    fix x assume "x \<in> insert h done"
    then show "needs_stub env st1 x \<longrightarrow> sym_la25_stub (la_syms st1 x) \<noteq> None"
      using step Cons.prems(3,4) frame_needs(1) [of inputs h st st1 k x env] frame_needs(2) [of inputs h st st1 k x] Cons.prems(2) by (cases "x = h") auto
  qed
  then show ?case
    using Cons.IH [OF 1(2), of "Suc k" "insert h done"] step Cons.prems(3) by auto
qed

text \<open>
  C15.  After a final link has checked all symbols, every locally defined PIC function that is
  called from non-PIC code has a stub for a function at the same place; stubs of
  one section follow each other without overlap and lie inside it, a trampoline takes 16 bytes and
  a stub in a section of its own 8, and such a section ends with its stub at a size that
  keeps the alignment of the function, so that the stub falls through to it.
\<close>

theorem la25_stubs_laid_out:
  assumes env: "adds_fresh_section env" "\<not> relocatable_link env"
    and start: "la25_stubs st = []" "strampoline st = None" "\<forall>h. sym_la25_stub (la_syms st h) = None"
      "\<forall>h. symbol_sections (la_syms st h) \<subseteq> la_known st" "length hs < 2 ^ 32"
    and run: "fold_opt (mips_elf_check_symbols env) hs st = Some st'"
  shows "(\<forall>h \<in> set hs. needs_stub env st' h \<longrightarrow> (\<exists>e. sym_la25_stub (la_syms st' h) = Some e \<and> served st' h e))
    \<and> sorted_wrt (\<lambda>e f. stub_sec_id e = stub_sec_id f \<longrightarrow>
          unat (stub_offset e) + (if strampoline st' = Some (stub_sec_id e) then 16 else 8) \<le> unat (stub_offset f)) (la25_stubs st')
    \<and> (\<forall>e \<in> set (la25_stubs st'). stub_inside st' e)"
proof -
  have "layout_inv (la_known st) 0 st"
    using start by (simp add: layout_inv_def stubs_apart_def)
  from check_all_layout [OF env run this, of "{}"] start(5)
  have inv: "layout_inv (la_known st) (length hs) st'"
    and all: "\<forall>h \<in> set hs. needs_stub env st' h \<longrightarrow> sym_la25_stub (la_syms st' h) \<noteq> None"
    by auto
  from inv have "\<forall>h e. sym_la25_stub (la_syms st' h) = Some e \<longrightarrow> served st' h e" "stubs_apart st' (la25_stubs st')"
    "\<forall>e \<in> set (la25_stubs st'). stub_inside st' e"
    unfolding layout_inv_def by blast+
  then show ?thesis
    using all by (auto simp: stubs_apart_def stub_end_def stub_length_def)
qed

text \<open>Two PIC functions of one section, the second not at its beginning.\<close>

definition pic_function :: "vma \<Rightarrow> link_sym" where
  "pic_function v =
     \<lparr>sym_id = 3, sym_name = ''f'', sym_hash = 0, root_type = bfd_link_hash_defined, elf_sym_type = 2,
      def_section = Some text_section, def_value = v, st_other = 0x20, def_regular = True, def_dynamic = False,
      forced_local = False, needs_plt = False, dynindx = -1, plt_offset = MINUS_ONE, sym_la25_stub = None, fn_stub = None,
      call_stub = None, call_fp_stub = None, sym_tls_type = 0, tls_got_offset = 0, global_got_area = GGA_NONE,
      possibly_dynamic_relocs = 0, got_only_for_calls = False, readonly_reloc = False, has_static_relocs = False,
      no_fn_stub = False, need_fn_stub = False, has_nonpic_branches = True, needs_lazy_stub = False\<rparr>"

definition pic_state :: la25_state where
  "pic_state = \<lparr>la_syms = \<lambda>h. pic_function (if h = 4 then 0x40 else 0),
     la_secs = \<lambda>s. asection.extend text_section \<lparr>alignment_power = 4, reloc_count = 0, sec_contents = None\<rparr>,
     la25_stubs = [], strampoline = None, la_created = [], la_known = {1}\<rparr>"

definition pic_env :: la25_env where
  "pic_env = \<lparr>add_stub_section = \<lambda>name before out st.
       let s = (if before = None then 101 else 100)
       in if s \<in> la_known st then None
          else Some (s, st\<lparr>la_secs := (la_secs st)(s := (la_secs st s)\<lparr>sec_id := s, sec_size := 0\<rparr>), la_known := insert s (la_known st)\<rparr>),
     add_one_symbol = \<lambda>_. True, sec_owner = \<lambda>_. le_bfd, abs_section = \<lambda>_. False, abs_output = \<lambda>_. False,
     elf_size = \<lambda>_. 0, output_is_pic = False, relocatable_link = False\<rparr>"

theorem la25_stubs_laid_out_witness:
  "\<exists>st' e f. fold_opt (mips_elf_check_symbols pic_env) [3, 4] pic_state = Some st'
     \<and> sym_la25_stub (la_syms st' 3) = Some e \<and> served st' 3 e \<and> sym_la25_stub (la_syms st' 4) = Some f \<and> served st' 4 f"
proof -
  have "\<exists>r. sec_id r = s \<and> sec_size r = 0 \<and> st\<lparr>la_secs := (la_secs st)(s := (la_secs st s)\<lparr>sec_id := s, sec_size := 0\<rparr>),
      la_known := insert s (la_known st)\<rparr> = st\<lparr>la_secs := (la_secs st)(s := r), la_known := insert s (la_known st)\<rparr>" for s st
    by (rule exI [of _ "(la_secs st s)\<lparr>sec_id := s, sec_size := 0\<rparr>"]) simp
  then have env: "adds_fresh_section pic_env" "\<not> relocatable_link pic_env"
    by (auto simp: adds_fresh_section_def pic_env_def Let_def)
  have start: "la25_stubs pic_state = []" "strampoline pic_state = None" "\<forall>h. sym_la25_stub (la_syms pic_state h) = None"
    "\<forall>h. symbol_sections (la_syms pic_state h) \<subseteq> la_known pic_state" "length [3::nat, 4] < 2 ^ 32"
    by (auto simp: pic_state_def pic_function_def symbol_sections_def def_sec_def text_section_def)
  obtain st' where run: "fold_opt (mips_elf_check_symbols pic_env) [3, 4] pic_state = Some st'"
    and need: "needs_stub pic_env st' 3" "needs_stub pic_env st' 4"
    by (simp add: mips_elf_check_symbols_def mips_elf_check_mips16_stubs_def mips_elf_add_la25_stub_def pic_state_def pic_function_def
        pic_env_def discard_stub_def mips_elf_local_pic_function_p_def ELF_ST_IS_MIPS16_def ELF_ST_IS_MIPS_PIC_def
        mips_elf_get_la25_target_def def_sec_def text_section_def mips_elf_add_la25_intro_def mips_elf_add_la25_trampoline_def
        trampoline_section_def mips_elf_create_stub_symbol_def ELF_ST_IS_MICROMIPS_def place_stub_def upd_la_sec_def upd_la_sym_def
        asection.defs mips_elf_la25_stub_eq_def needs_stub_def Let_def)
  from la25_stubs_laid_out [OF env start run] need run show ?thesis
    by auto
qed

end
