(* ===== verification/Special.thy ===== *)
theory Special
  imports Calc Perform
begin

text \<open>
  The special functions of the howto tables, which BFD calls for the assembler and for generic
  links (elfxx-mips.c and elf32-mips.c): pending HI16 relocations, GP-relative relocations and
  64-bit relocations in 32-bit files.

  A buffer of section contents is an index into \<^verbatim>\<open>buffers\<close>, so that several
  pending relocations may share one.  The list \<^verbatim>\<open>mips_hi16_list\<close>, the GP values of the BFDs and the error
  message are part of the state.  An empty message is \<^verbatim>\<open>None\<close>; memory does not run out.
\<close>

section \<open>Objects of the BFD library\<close>

datatype sym_flag = BSF_LOCAL | BSF_GLOBAL | BSF_WEAK | BSF_SECTION_SYM

record asymbol =
  as_name :: string
  as_value :: vma
  as_section :: asection
  as_flags :: "sym_flag set"

record arelent =
  rel_address :: vma
  rel_addend :: vma
  rel_howto :: reloc_howto

text \<open>
  Functions and objects of BFD outside the repository: installing a value in a field, the generic
  relocation function, the limit and the address of a section, the literal relocations (\<^verbatim>\<open>literal_reloc_p\<close> of a header), the undefined section, the output symbols of
  a BFD and the BFD of an output section.
\<close>

record bfd_lib =
  relocate_contents :: "reloc_howto \<Rightarrow> bfd \<Rightarrow> vma \<Rightarrow> bytes \<Rightarrow> nat \<Rightarrow> bfd_reloc_status \<times> bytes"
  perform_relocation :: "bfd \<Rightarrow> arelent \<Rightarrow> asymbol \<Rightarrow> bytes \<Rightarrow> asection \<Rightarrow> bfd option \<Rightarrow> bfd_reloc_status \<times> arelent \<times> bytes"
  section_limit :: "bfd \<Rightarrow> asection \<Rightarrow> vma"
  section_vma :: "asection \<Rightarrow> vma"
  is_literal_reloc :: "r_type \<Rightarrow> bool"
  is_und_section :: "asection \<Rightarrow> bool"
  outsymbols :: "bfd \<Rightarrow> asymbol list option"
  section_owner :: "out_section \<Rightarrow> bfd"

definition is_com_section :: "asection \<Rightarrow> bool" where
  "is_com_section sec \<longleftrightarrow> SEC_IS_COMMON \<in> sec_flags sec"

record mips_hi16 =
  hi_data :: nat
  hi_section :: asection
  hi_rel :: arelent

record reloc_state =
  mips_hi16_list :: "mips_hi16 list"
  buffers :: "nat \<Rightarrow> bytes"
  gps :: "nat \<Rightarrow> vma"
  error_message :: "string option"

definition upd_buffer :: "nat \<Rightarrow> (bytes \<Rightarrow> bytes) \<Rightarrow> reloc_state \<Rightarrow> reloc_state" where
  "upd_buffer d f st = st\<lparr>buffers := (buffers st)(d := f (buffers st d))\<rparr>"

text \<open>\<^verbatim>\<open>_bfd_relocate_contents\<close> on a buffer.\<close>

definition install :: "bfd_lib \<Rightarrow> reloc_howto \<Rightarrow> bfd \<Rightarrow> vma \<Rightarrow> nat \<Rightarrow> nat \<Rightarrow> reloc_state \<Rightarrow> bfd_reloc_status \<times> reloc_state" where
  "install L howto abfd val data location st =
     (case relocate_contents L howto abfd val (buffers st data) location of
        (status, bs) \<Rightarrow> (status, upd_buffer data (\<lambda>_. bs) st))"

text \<open>The symbol address; the section of the symbol has an output section.\<close>

abbreviation unshuffle_at :: "bfd \<Rightarrow> arelent \<Rightarrow> nat \<Rightarrow> nat \<Rightarrow> reloc_state \<Rightarrow> reloc_state" where
  "unshuffle_at abfd rel data location \<equiv>
     upd_buffer data (\<lambda>bs. bfd_mips_elf_reloc_unshuffle (bfd_xvec abfd) (h_type (rel_howto rel)) False bs location)"

abbreviation shuffle_at :: "bfd \<Rightarrow> arelent \<Rightarrow> bool \<Rightarrow> nat \<Rightarrow> nat \<Rightarrow> reloc_state \<Rightarrow> reloc_state" where
  "shuffle_at abfd rel jal data location \<equiv>
     upd_buffer data (\<lambda>bs. bfd_mips_elf_reloc_shuffle (bfd_xvec abfd) (h_type (rel_howto rel)) jal bs location)"

section \<open>The generic function\<close>

text \<open>The adjustment of the field of a relocation.\<close>

definition generic_val :: "bool \<Rightarrow> arelent \<Rightarrow> asymbol \<Rightarrow> asection \<Rightarrow> vma" where
  "generic_val is_relocatable rel symbol input_section =
     (let val = (if \<not> is_relocatable \<or> BSF_SECTION_SYM \<in> as_flags symbol then section_address (as_section symbol) else 0)
      in if \<not> is_relocatable
         then (let val = val + as_value symbol
               in if pc_relative (rel_howto rel) then val - section_address input_section - rel_address rel else val)
         else val)"

definition bfd_mips_elf_generic_reloc ::
  "bfd_lib \<Rightarrow> bfd \<Rightarrow> arelent \<Rightarrow> asymbol \<Rightarrow> nat \<Rightarrow> asection \<Rightarrow> bfd option \<Rightarrow> reloc_state
   \<Rightarrow> bfd_reloc_status \<times> arelent \<times> reloc_state" where
  "bfd_mips_elf_generic_reloc L abfd rel symbol data input_section output_bfd st =
     (let is_relocatable = output_bfd \<noteq> None
      in if rel_address rel > section_limit L abfd input_section then (bfd_reloc_outofrange, rel, st)
         else
           let val = generic_val is_relocatable rel symbol input_section;
               (status, rel', st) =
                 (if is_relocatable \<and> \<not> partial_inplace (rel_howto rel)
                  then (bfd_reloc_ok, rel\<lparr>rel_addend := rel_addend rel + val\<rparr>, st)
                  else
                    let location = unat (rel_address rel);
                        (status, st) = install L (rel_howto rel) abfd (val + rel_addend rel) data location
                                         (unshuffle_at abfd rel data location st)
                    in (status, rel, shuffle_at abfd rel False data location st))
           in if status \<noteq> bfd_reloc_ok then (status, rel', st)
              else (bfd_reloc_ok,
                    if is_relocatable then rel'\<lparr>rel_address := rel_address rel' + output_offset input_section\<rparr> else rel', st))"

section \<open>High and low parts\<close>

definition bfd_mips_elf_hi16_reloc ::
  "bfd_lib \<Rightarrow> bfd \<Rightarrow> arelent \<Rightarrow> asymbol \<Rightarrow> nat \<Rightarrow> asection \<Rightarrow> bfd option \<Rightarrow> reloc_state
   \<Rightarrow> bfd_reloc_status \<times> arelent \<times> reloc_state" where
  "bfd_mips_elf_hi16_reloc L abfd rel symbol data input_section output_bfd st =
     (if rel_address rel > section_limit L abfd input_section then (bfd_reloc_outofrange, rel, st)
      else (bfd_reloc_ok,
            if output_bfd \<noteq> None then rel\<lparr>rel_address := rel_address rel + output_offset input_section\<rparr> else rel,
            st\<lparr>mips_hi16_list := \<lparr>hi_data = data, hi_section = input_section, hi_rel = rel\<rparr> # mips_hi16_list st\<rparr>))"

definition bfd_mips_elf_got16_reloc ::
  "bfd_lib \<Rightarrow> bfd \<Rightarrow> arelent \<Rightarrow> asymbol \<Rightarrow> nat \<Rightarrow> asection \<Rightarrow> bfd option \<Rightarrow> reloc_state
   \<Rightarrow> bfd_reloc_status \<times> arelent \<times> reloc_state" where
  "bfd_mips_elf_got16_reloc L abfd rel symbol data input_section output_bfd st =
     (if as_flags symbol \<inter> {BSF_GLOBAL, BSF_WEAK} \<noteq> {} \<or> is_und_section L (as_section symbol)
         \<or> is_com_section (as_section symbol)
      then bfd_mips_elf_generic_reloc L abfd rel symbol data input_section output_bfd st
      else bfd_mips_elf_hi16_reloc L abfd rel symbol data input_section output_bfd st)"

text \<open>The howto entry with which a pending relocation is installed.\<close>

definition pending_type :: "r_type \<Rightarrow> r_type" where
  "pending_type t =
     (if t = R_MIPS_GOT16 then R_MIPS_HI16
      else if t = R_MIPS16_GOT16 then R_MIPS16_HI16
      else if t = R_MICROMIPS_GOT16 then R_MICROMIPS_HI16
      else t)"

definition pending_howto :: "reloc_howto \<Rightarrow> reloc_howto" where
  "pending_howto howto =
     (if pending_type (h_type howto) = h_type howto then howto
      else case mips_elf32_rtype_to_howto (pending_type (h_type howto)) of Some h \<Rightarrow> h | None \<Rightarrow> howto)"

text \<open>The loop over the pending relocations; when one fails it stays at the head of the list.\<close>

fun flush_hi16 ::
  "bfd_lib \<Rightarrow> bfd \<Rightarrow> asymbol \<Rightarrow> bfd option \<Rightarrow> mips_hi16 list \<Rightarrow> reloc_state \<Rightarrow> bfd_reloc_status \<times> reloc_state" where
  "flush_hi16 L abfd symbol output_bfd [] st = (bfd_reloc_ok, st\<lparr>mips_hi16_list := []\<rparr>)"
| "flush_hi16 L abfd symbol output_bfd (hi # his) st =
     (let rel = (hi_rel hi)\<lparr>rel_howto := pending_howto (rel_howto (hi_rel hi))\<rparr>;
          (ret, rel, st) = bfd_mips_elf_generic_reloc L abfd rel symbol (hi_data hi) (hi_section hi) output_bfd st
      in if ret \<noteq> bfd_reloc_ok then (ret, st\<lparr>mips_hi16_list := hi\<lparr>hi_rel := rel\<rparr> # his\<rparr>)
         else flush_hi16 L abfd symbol output_bfd his st)"

text \<open>The value \<^verbatim>\<open>vallo\<close> that the function reads is not used.\<close>

definition bfd_mips_elf_lo16_reloc ::
  "bfd_lib \<Rightarrow> bfd \<Rightarrow> arelent \<Rightarrow> asymbol \<Rightarrow> nat \<Rightarrow> asection \<Rightarrow> bfd option \<Rightarrow> reloc_state
   \<Rightarrow> bfd_reloc_status \<times> arelent \<times> reloc_state" where
  "bfd_mips_elf_lo16_reloc L abfd rel symbol data input_section output_bfd st =
     (let location = unat (rel_address rel)
      in if rel_address rel > section_limit L abfd input_section then (bfd_reloc_outofrange, rel, st)
         else
           let st = unshuffle_at abfd rel data location st;
               vallo = bfd_get_32 (bfd_xvec abfd) (buffers st data) location;
               st = shuffle_at abfd rel False data location st;
               (ret, st) = flush_hi16 L abfd symbol output_bfd (mips_hi16_list st) st
           in if ret \<noteq> bfd_reloc_ok then (ret, rel, st)
              else bfd_mips_elf_generic_reloc L abfd rel symbol data input_section output_bfd st)"

section \<open>GP-relative relocations\<close>

definition mips_elf_assign_gp :: "bfd_lib \<Rightarrow> bfd \<Rightarrow> reloc_state \<Rightarrow> bool \<times> vma \<times> reloc_state" where
  "mips_elf_assign_gp L output_bfd st =
     (let set_gp = (\<lambda>gp. st\<lparr>gps := (gps st)(bfd_id output_bfd := gp)\<rparr>)
      in if gps st (bfd_id output_bfd) \<noteq> 0 then (True, gps st (bfd_id output_bfd), st)
         else case find (\<lambda>s. as_name s = ''_gp'') (case outsymbols L output_bfd of None \<Rightarrow> [] | Some ss \<Rightarrow> ss) of
                Some s \<Rightarrow> (let gp = section_vma L (as_section s) + as_value s in (True, gp, set_gp gp))
              | None \<Rightarrow> (False, 4, set_gp 4))"

definition mips_elf_final_gp ::
  "bfd_lib \<Rightarrow> bfd \<Rightarrow> asymbol \<Rightarrow> bool \<Rightarrow> reloc_state \<Rightarrow> bfd_reloc_status \<times> vma \<times> reloc_state" where
  "mips_elf_final_gp L output_bfd symbol is_relocatable st =
     (if is_und_section L (as_section symbol) \<and> \<not> is_relocatable then (bfd_reloc_undefined, 0, st)
      else
        let gp = gps st (bfd_id output_bfd)
        in if gp = 0 \<and> (\<not> is_relocatable \<or> BSF_SECTION_SYM \<in> as_flags symbol)
           then (if is_relocatable
                 then (let gp = osec_vma (the (output_section (as_section symbol)))
                       in (bfd_reloc_ok, gp, st\<lparr>gps := (gps st)(bfd_id output_bfd := gp)\<rparr>))
                 else (case mips_elf_assign_gp L output_bfd st of
                         (True, gp, st) \<Rightarrow> (bfd_reloc_ok, gp, st)
                       | (False, gp, st) \<Rightarrow>
                           (bfd_reloc_dangerous, gp,
                            st\<lparr>error_message := Some ''GP relative relocation when _gp not defined''\<rparr>)))
           else (bfd_reloc_ok, gp, st))"

text \<open>The address a GP-relative relocation refers to.\<close>

definition gprel_relocation :: "asymbol \<Rightarrow> vma" where
  "gprel_relocation symbol =
     (if is_com_section (as_section symbol) then 0 else as_value symbol) + section_address (as_section symbol)"

text \<open>The addend is not sign-extended: the code calls \<^verbatim>\<open>_bfd_mips_elf_sign_extend\<close> but does not use its result.\<close>

definition bfd_mips_elf_gprel16_with_gp ::
  "bfd_lib \<Rightarrow> bfd \<Rightarrow> asymbol \<Rightarrow> arelent \<Rightarrow> asection \<Rightarrow> bool \<Rightarrow> nat \<Rightarrow> vma \<Rightarrow> reloc_state
   \<Rightarrow> bfd_reloc_status \<times> arelent \<times> reloc_state" where
  "bfd_mips_elf_gprel16_with_gp L abfd symbol rel input_section is_relocatable data gp st =
     (if rel_address rel > section_limit L abfd input_section then (bfd_reloc_outofrange, rel, st)
      else
        let val = rel_addend rel;
            val = (if \<not> is_relocatable \<or> BSF_SECTION_SYM \<in> as_flags symbol
                   then val + (gprel_relocation symbol - gp) else val);
            (status, rel', st) =
              (if partial_inplace (rel_howto rel)
               then (case install L (rel_howto rel) abfd val data (unat (rel_address rel)) st of (s, st) \<Rightarrow> (s, rel, st))
               else (bfd_reloc_ok, rel\<lparr>rel_addend := val\<rparr>, st))
        in if status \<noteq> bfd_reloc_ok then (status, rel', st)
           else (bfd_reloc_ok,
                 if is_relocatable then rel'\<lparr>rel_address := rel_address rel' + output_offset input_section\<rparr> else rel', st))"

definition gprel32_with_gp ::
  "bfd_lib \<Rightarrow> bfd \<Rightarrow> asymbol \<Rightarrow> arelent \<Rightarrow> asection \<Rightarrow> bool \<Rightarrow> nat \<Rightarrow> vma \<Rightarrow> reloc_state
   \<Rightarrow> bfd_reloc_status \<times> arelent \<times> reloc_state" where
  "gprel32_with_gp L abfd symbol rel input_section is_relocatable data gp st =
     (if rel_address rel > section_limit L abfd input_section then (bfd_reloc_outofrange, rel, st)
      else
        let location = unat (rel_address rel);
            val = rel_addend rel;
            val = (if partial_inplace (rel_howto rel)
                   then val + bfd_get_32 (bfd_xvec abfd) (buffers st data) location else val);
            val = (if \<not> is_relocatable \<or> BSF_SECTION_SYM \<in> as_flags symbol
                   then val + (gprel_relocation symbol - gp) else val);
            (rel', st) =
              (if partial_inplace (rel_howto rel)
               then (rel, upd_buffer data (\<lambda>bs. bfd_put_32 (bfd_xvec abfd) val bs location) st)
               else (rel\<lparr>rel_addend := val\<rparr>, st))
        in (bfd_reloc_ok,
            if is_relocatable then rel'\<lparr>rel_address := rel_address rel' + output_offset input_section\<rparr> else rel', st))"

text \<open>An external symbol in a relocatable link, as the three functions test it.\<close>

definition external_in_relocatable :: "asymbol \<Rightarrow> bfd option \<Rightarrow> bool" where
  "external_in_relocatable symbol output_bfd \<longleftrightarrow>
     output_bfd \<noteq> None \<and> BSF_SECTION_SYM \<notin> as_flags symbol \<and> BSF_LOCAL \<in> as_flags symbol"

definition gp_output :: "bfd_lib \<Rightarrow> asymbol \<Rightarrow> bfd option \<Rightarrow> bfd" where
  "gp_output L symbol output_bfd =
     (case output_bfd of Some b \<Rightarrow> b | None \<Rightarrow> section_owner L (the (output_section (as_section symbol))))"

text \<open>The common part of the 16-bit functions.\<close>

definition gprel16_shuffled ::
  "bfd_lib \<Rightarrow> bfd \<Rightarrow> arelent \<Rightarrow> asymbol \<Rightarrow> nat \<Rightarrow> asection \<Rightarrow> bfd option \<Rightarrow> reloc_state
   \<Rightarrow> bfd_reloc_status \<times> arelent \<times> reloc_state" where
  "gprel16_shuffled L abfd rel symbol data input_section output_bfd st =
     (let is_relocatable = output_bfd \<noteq> None
      in case mips_elf_final_gp L (gp_output L symbol output_bfd) symbol is_relocatable st of
           (ret, gp, st) \<Rightarrow>
             if ret \<noteq> bfd_reloc_ok then (ret, rel, st)
             else
               let location = unat (rel_address rel);
                   st = unshuffle_at abfd rel data location st;
                   (ret, rel', st) = bfd_mips_elf_gprel16_with_gp L abfd symbol rel input_section is_relocatable data gp st
               in (ret, rel', shuffle_at abfd rel (\<not> is_relocatable) data location st))"

definition bfd_mips_elf32_gprel16_reloc ::
  "bfd_lib \<Rightarrow> bfd \<Rightarrow> arelent \<Rightarrow> asymbol \<Rightarrow> nat \<Rightarrow> asection \<Rightarrow> bfd option \<Rightarrow> reloc_state
   \<Rightarrow> bfd_reloc_status \<times> arelent \<times> reloc_state" where
  "bfd_mips_elf32_gprel16_reloc L abfd rel symbol data input_section output_bfd st =
     (if is_literal_reloc L (h_type (rel_howto rel)) \<and> external_in_relocatable symbol output_bfd
      then (bfd_reloc_outofrange, rel,
            st\<lparr>error_message := Some ''literal relocation occurs for an external symbol''\<rparr>)
      else gprel16_shuffled L abfd rel symbol data input_section output_bfd st)"

definition mips_elf_gprel32_reloc ::
  "bfd_lib \<Rightarrow> bfd \<Rightarrow> arelent \<Rightarrow> asymbol \<Rightarrow> nat \<Rightarrow> asection \<Rightarrow> bfd option \<Rightarrow> reloc_state
   \<Rightarrow> bfd_reloc_status \<times> arelent \<times> reloc_state" where
  "mips_elf_gprel32_reloc L abfd rel symbol data input_section output_bfd st =
     (if external_in_relocatable symbol output_bfd
      then (bfd_reloc_outofrange, rel,
            st\<lparr>error_message := Some ''32bits gp relative relocation occurs for an external symbol''\<rparr>)
      else
        let is_relocatable = output_bfd \<noteq> None
        in case mips_elf_final_gp L (gp_output L symbol output_bfd) symbol is_relocatable st of
             (ret, gp, st) \<Rightarrow>
               if ret \<noteq> bfd_reloc_ok then (ret, rel, st)
               else gprel32_with_gp L abfd symbol rel input_section is_relocatable data gp st)"

definition mips16_gprel_reloc ::
  "bfd_lib \<Rightarrow> bfd \<Rightarrow> arelent \<Rightarrow> asymbol \<Rightarrow> nat \<Rightarrow> asection \<Rightarrow> bfd option \<Rightarrow> reloc_state
   \<Rightarrow> bfd_reloc_status \<times> arelent \<times> reloc_state" where
  "mips16_gprel_reloc L abfd rel symbol data input_section output_bfd st =
     (if external_in_relocatable symbol output_bfd
      then (bfd_reloc_ok, rel\<lparr>rel_address := rel_address rel + output_offset input_section\<rparr>, st)
      else gprel16_shuffled L abfd rel symbol data input_section output_bfd st)"

section \<open>64-bit relocations\<close>

text \<open>
  The relocation of the lower half works on a copy of the entry and may change its address, as
  \<^verbatim>\<open>_bfd_mips_elf_generic_reloc\<close> does for relocatable output; the sign is read at the changed address.  \<^verbatim>\<open>symbol\<close> is the symbol that the entry points to.
\<close>

definition mips32_64bit_reloc ::
  "bfd_lib \<Rightarrow> bfd \<Rightarrow> arelent \<Rightarrow> asymbol \<Rightarrow> nat \<Rightarrow> asection \<Rightarrow> bfd option \<Rightarrow> reloc_state \<Rightarrow> bfd_reloc_status \<times> reloc_state" where
  "mips32_64bit_reloc L abfd rel symbol data input_section output_bfd st =
     (let reloc32 = rel\<lparr>rel_address := rel_address rel + (if bfd_big_endian abfd then 4 else 0),
                        rel_howto := elf_mips_howto_table_rel ! R_MIPS_32\<rparr>;
          (r, reloc32, bs) = perform_relocation L abfd reloc32 symbol (buffers st data) input_section output_bfd;
          val = (if bfd_get_32 (bfd_xvec abfd) bs (unat (rel_address reloc32)) AND 0x80000000 \<noteq> 0 then 0xffffffff else 0);
          addr = rel_address rel + (if \<not> bfd_big_endian abfd then 4 else 0)
      in (r, upd_buffer data (\<lambda>_. bfd_put_32 (bfd_xvec abfd) val bs (unat addr)) st))"

end
