(* ===== verification/SpecialSpec.thy ===== *)
theory SpecialSpec
  imports Special
begin

text \<open>
  What the special relocation functions do: a pending HI16 relocation is installed as if it had
  not been deferred, the value of GP is found once, and a 64-bit field is the sign
  extension of its lower half while the address of the relocation does not change.
\<close>

section \<open>Pending relocations\<close>

lemma shuffle_back:
  assumes "xvec_ok (bfd_xvec abfd)" "mips16_reloc_p (h_type (rel_howto rel)) \<longrightarrow> off + 4 \<le> length (buffers st data)"
  shows "shuffle_at abfd rel False data off (unshuffle_at abfd rel data off st) = st"
  using shuffle_of_unshuffled [OF assms(1), of "h_type (rel_howto rel)" off "buffers st data" False] assms(2)
  by (simp add: upd_buffer_def)

text \<open>The generic function neither reads nor writes the list.\<close>

lemma generic_list:
  "bfd_mips_elf_generic_reloc L abfd rel symbol data sec out (st\<lparr>mips_hi16_list := his\<rparr>) =
     (case bfd_mips_elf_generic_reloc L abfd rel symbol data sec out st of
        (ret, rel', st') \<Rightarrow> (ret, rel', st'\<lparr>mips_hi16_list := his\<rparr>))"
  by (simp add: bfd_mips_elf_generic_reloc_def install_def upd_buffer_def Let_def split_beta)

text \<open>Installing a list of relocations, one after the other, until one fails.\<close>

fun install_all ::
  "bfd_lib \<Rightarrow> bfd \<Rightarrow> asymbol \<Rightarrow> bfd option \<Rightarrow> (nat \<times> asection \<times> arelent) list \<Rightarrow> reloc_state \<Rightarrow> bfd_reloc_status \<times> reloc_state" where
  "install_all L abfd symbol out [] st = (bfd_reloc_ok, st)"
| "install_all L abfd symbol out ((data, sec, rel) # rels) st =
     (case bfd_mips_elf_generic_reloc L abfd rel symbol data sec out st of
        (ret, rel', st') \<Rightarrow> if ret \<noteq> bfd_reloc_ok then (ret, st') else install_all L abfd symbol out rels st')"

text \<open>Deferring a list of relocations.\<close>

fun defer_all ::
  "bfd_lib \<Rightarrow> bfd \<Rightarrow> asymbol \<Rightarrow> bfd option \<Rightarrow> (nat \<times> asection \<times> arelent) list \<Rightarrow> reloc_state \<Rightarrow> bfd_reloc_status \<times> reloc_state" where
  "defer_all L abfd symbol out [] st = (bfd_reloc_ok, st)"
| "defer_all L abfd symbol out ((data, sec, rel) # rels) st =
     (case bfd_mips_elf_hi16_reloc L abfd rel symbol data sec out st of
        (ret, rel', st') \<Rightarrow> if ret \<noteq> bfd_reloc_ok then (ret, st') else defer_all L abfd symbol out rels st')"

definition pending_rel :: "nat \<times> asection \<times> arelent \<Rightarrow> nat \<times> asection \<times> arelent" where
  "pending_rel t = (case t of (data, sec, rel) \<Rightarrow> (data, sec, rel\<lparr>rel_howto := pending_howto (rel_howto rel)\<rparr>))"

definition to_pending :: "nat \<times> asection \<times> arelent \<Rightarrow> mips_hi16" where
  "to_pending t = (case t of (data, sec, rel) \<Rightarrow> \<lparr>hi_data = data, hi_section = sec, hi_rel = rel\<rparr>)"

lemma defer_all_list:
  "defer_all L abfd symbol out rels st = (bfd_reloc_ok, st') \<Longrightarrow>
     st' = st\<lparr>mips_hi16_list := map to_pending (rev rels) @ mips_hi16_list st\<rparr>"
proof (induction rels arbitrary: st)
  case (Cons r rels)
  obtain data sec rel where r: "r = (data, sec, rel)"
    by (cases r) auto
  show ?case
    using Cons.prems
    by (auto dest!: Cons.IH simp: r bfd_mips_elf_hi16_reloc_def to_pending_def [of "(data, sec, rel)"] split: if_splits)
qed simp

lemma flush_install:
  "flush_hi16 L abfd symbol out (map to_pending rels) (st\<lparr>mips_hi16_list := his\<rparr>) =
     (case install_all L abfd symbol out (map pending_rel rels) st of
        (ret, st') \<Rightarrow> if ret = bfd_reloc_ok then (ret, st'\<lparr>mips_hi16_list := []\<rparr>)
          else flush_hi16 L abfd symbol out (map to_pending rels) (st\<lparr>mips_hi16_list := his\<rparr>))"
proof (induction rels arbitrary: st his)
  case (Cons r rels)
  obtain data sec rel where r: "r = (data, sec, rel)"
    by (cases r) auto
  let ?rel = "rel\<lparr>rel_howto := pending_howto (rel_howto rel)\<rparr>"
  obtain ret rel' st1 where g: "bfd_mips_elf_generic_reloc L abfd ?rel symbol data sec out st = (ret, rel', st1)"
    by (cases "bfd_mips_elf_generic_reloc L abfd ?rel symbol data sec out st") auto
  show ?case
    using Cons.IH [where st = st1 and his = his] g
    by (simp add: r to_pending_def pending_rel_def generic_list split: prod.splits if_splits)
qed simp

text \<open>
  C36.  A list of high-part relocations that is deferred until its low part comes is
  installed, newest first, exactly as the generic function would have installed it at
  once: the contents of the low part have no influence.  When all succeed, nothing stays pending.
\<close>

theorem deferred_is_immediate:
  assumes "xvec_ok (bfd_xvec abfd)"
    and "mips16_reloc_p (h_type (rel_howto lo)) \<longrightarrow> unat (rel_address lo) + 4 \<le> length (buffers st data)"
    and "mips_hi16_list st = []" "defer_all L abfd symbol0 out0 his st = (bfd_reloc_ok, st1)"
    and "install_all L abfd symbol out (map pending_rel (rev his)) st = (bfd_reloc_ok, st2)"
    and "rel_address lo \<le> section_limit L abfd sec"
  shows "bfd_mips_elf_lo16_reloc L abfd lo symbol data sec out st1
       = bfd_mips_elf_generic_reloc L abfd lo symbol data sec out (st2\<lparr>mips_hi16_list := []\<rparr>)
    \<and> mips_hi16_list (snd (snd (bfd_mips_elf_lo16_reloc L abfd lo symbol data sec out st1))) = []"
proof -
  have st1: "st1 = st\<lparr>mips_hi16_list := map to_pending (rev his)\<rparr>"
    using defer_all_list [OF assms(4)] assms(3) by simp
  have "buffers st1 = buffers st"
    by (simp add: st1)
  then have restored: "shuffle_at abfd lo False data (unat (rel_address lo)) (unshuffle_at abfd lo data (unat (rel_address lo)) st1) = st1"
    using assms(1,2) by (intro shuffle_back) simp_all
  have "flush_hi16 L abfd symbol out (mips_hi16_list st1) st1 = (bfd_reloc_ok, st2\<lparr>mips_hi16_list := []\<rparr>)"
    by (simp add: st1 flush_install assms(5))
  then have r: "bfd_mips_elf_lo16_reloc L abfd lo symbol data sec out st1
       = bfd_mips_elf_generic_reloc L abfd lo symbol data sec out (st2\<lparr>mips_hi16_list := []\<rparr>)"
    using assms(6) restored by (simp add: bfd_mips_elf_lo16_reloc_def Let_def not_less [symmetric])
  then show ?thesis
    by (simp add: generic_list split: prod.split)
qed

text \<open>A library that adds the value to the word at the place of the relocation.\<close>

definition example_lib :: bfd_lib where
  "example_lib = \<lparr>relocate_contents = (\<lambda>h abfd v bs off.
       (bfd_reloc_ok, bfd_put_32 (bfd_xvec abfd) (bfd_get_32 (bfd_xvec abfd) bs off + v) bs off)),
     perform_relocation = (\<lambda>abfd rel sym bs sec out. (bfd_reloc_ok, rel, bs)), section_limit = (\<lambda>_ sec. sec_size sec),
     section_vma = (\<lambda>_. 0), is_literal_reloc = (\<lambda>t. t = R_MIPS_LITERAL), is_und_section = (\<lambda>_. False), outsymbols = (\<lambda>_. None), section_owner = (\<lambda>_. le_bfd)\<rparr>"

definition example_section :: asection where
  "example_section = \<lparr>sec_id = 5, sec_name = ''.text'', sec_flags = {}, sec_size = 8,
     output_section = Some \<lparr>osec_id = 6, osec_name = ''.text'', osec_vma = 0x400000\<rparr>, output_offset = 0\<rparr>"

definition example_symbol :: asymbol where
  "example_symbol = \<lparr>as_name = ''x'', as_value = 0x20, as_section = example_section, as_flags = {BSF_LOCAL}\<rparr>"

definition example_rel :: "vma \<Rightarrow> r_type \<Rightarrow> arelent" where
  "example_rel a t = \<lparr>rel_address = a, rel_addend = 0, rel_howto = (EMPTY_HOWTO t)\<lparr>partial_inplace := True\<rparr>\<rparr>"

definition example_state :: reloc_state where
  "example_state = \<lparr>mips_hi16_list = [], buffers = (\<lambda>_. [1, 0, 0, 0, 2, 0, 0, 0]), gps = (\<lambda>_. 0), error_message = None\<rparr>"

theorem deferred_is_immediate_witness:
  "\<exists>st1. defer_all example_lib le_bfd example_symbol None [(0, example_section, example_rel 0 R_MIPS_HI16)] example_state
       = (bfd_reloc_ok, st1)
     \<and> mips_hi16_list st1 \<noteq> []
     \<and> mips_hi16_list (snd (snd (bfd_mips_elf_lo16_reloc example_lib le_bfd (example_rel 4 R_MIPS_LO16) example_symbol 0
         example_section None st1))) = []"
proof -
  let ?his = "[(0, example_section, example_rel 0 R_MIPS_HI16)]"
  obtain st1 where d: "defer_all example_lib le_bfd example_symbol None ?his example_state = (bfd_reloc_ok, st1)"
    by (simp add: bfd_mips_elf_hi16_reloc_def example_lib_def example_section_def example_rel_def)
  obtain st2 where i: "install_all example_lib le_bfd example_symbol None (map pending_rel (rev ?his)) example_state = (bfd_reloc_ok, st2)"
    by (simp add: bfd_mips_elf_generic_reloc_def pending_rel_def pending_howto_def pending_type_def install_def example_lib_def
        example_section_def example_rel_def EMPTY_HOWTO_def HOWTO_def Let_def)
  have "mips_hi16_list st1 \<noteq> []"
    using defer_all_list [OF d] by simp
  moreover have "xvec_ok (bfd_xvec le_bfd)" "mips_hi16_list example_state = []"
    "mips16_reloc_p (h_type (rel_howto (example_rel 4 R_MIPS_LO16))) \<longrightarrow>
       unat (rel_address (example_rel 4 R_MIPS_LO16)) + 4 \<le> length (buffers example_state 0)"
    "rel_address (example_rel 4 R_MIPS_LO16) \<le> section_limit example_lib le_bfd example_section"
    by (simp_all add: le_bfd_def example_state_def example_rel_def example_lib_def example_section_def)
  ultimately show ?thesis
    using deferred_is_immediate [OF _ _ _ d i, of "example_rel 4 R_MIPS_LO16" 0 example_section] d by blast
qed

section \<open>GP\<close>

text \<open>The report that GP is unknown is made once; after it GP counts as known.\<close>

lemma gp_reported_once:
  assumes "mips_elf_final_gp L out symbol is_relocatable st = (bfd_reloc_dangerous, gp, st')"
  shows "gp = 4" "gps st' (bfd_id out) = 4"
    and "\<not> is_und_section L (as_section symbol') \<or> r \<Longrightarrow> mips_elf_final_gp L out symbol' r st' = (bfd_reloc_ok, 4, st')"
  using assms
  by (auto simp: mips_elf_final_gp_def mips_elf_assign_gp_def Let_def split: if_splits option.splits)

section \<open>64-bit fields\<close>

lemma le_dec_append: "le_dec (xs @ ys) = le_dec xs OR push_bit (8 * length xs) (le_dec ys)"
  by (induction xs) (simp_all add: push_bit_or or.assoc ac_simps)

lemma get_64_halves:
  assumes "off + 8 \<le> length bs"
  shows "bfd_get_64 le_xvec bs off = bfd_get_32 le_xvec bs off OR push_bit 32 (bfd_get_32 le_xvec bs (off + 4))"
    and "bfd_get_64 be_xvec bs off = bfd_get_32 be_xvec bs (off + 4) OR push_bit 32 (bfd_get_32 be_xvec bs off)"
proof -
  have "take 8 (drop off bs) = take 4 (drop off bs) @ take 4 (drop (off + 4) bs)"
    using take_add [of 4 4 "drop off bs"] by (simp add: add.commute)
  then show "bfd_get_64 le_xvec bs off = bfd_get_32 le_xvec bs off OR push_bit 32 (bfd_get_32 le_xvec bs (off + 4))"
    "bfd_get_64 be_xvec bs off = bfd_get_32 be_xvec bs (off + 4) OR push_bit 32 (bfd_get_32 be_xvec bs off)"
    using assms by (simp_all add: bfd_get_64_def bfd_get_32_def get_at_def le_xvec_def be_xvec_def be_dec_def le_dec_append)
qed

lemma sign_extended_halves:
  fixes w :: vma
  assumes "take_bit 32 w = w"
  shows "w OR push_bit 32 (if w AND 0x80000000 \<noteq> 0 then 0xffffffff else 0) = signed_take_bit 31 w"
proof -
  have m: "w AND 0x80000000 \<noteq> 0 \<longleftrightarrow> bit w 31"
    using and_exp_eq_0_iff_not_bit [of w 31] by simp
  have ones: "(0xffffffff :: vma) = mask 32"
    by (simp add: mask_eq_exp_minus_1)
  show ?thesis
    unfolding m ones
  proof (rule bit_word_eqI)
    fix n assume "n < LENGTH(64)"
    moreover have "n < 32" if "bit w n"
      using that by (rule bit_below [OF assms])
    moreover have "n < 31 \<or> n = 31 \<or> 32 \<le> n"
      by linarith
    ultimately show "bit (w OR push_bit 32 (if bit w 31 then mask 32 else 0)) n = bit (signed_take_bit 31 w) n"
      by (elim disjE) (auto simp: bit_simps min_def not_less)
  qed
qed

text \<open>The copy of the entry with which the lower half is relocated.\<close>

definition lower_half :: "bfd \<Rightarrow> arelent \<Rightarrow> arelent" where
  "lower_half abfd rel = rel\<lparr>rel_address := rel_address rel + (if bfd_big_endian abfd then 4 else 0),
     rel_howto := elf_mips_howto_table_rel ! R_MIPS_32\<rparr>"

text \<open>
  C37.  A 64-bit relocation of a 32-bit file keeps, in both byte orders, the lower half that its 32-bit relocation has produced, and
  fills the upper half with the sign of the word at the address that the 32-bit relocation leaves in its copy of the entry.  When that address has not changed, as in a final
  link, the 64-bit field is the sign extension of its lower half.  For relocatable output the generic function
  has added the offset of the section to the address, so the sign is that of another word.
\<close>

theorem mips32_64bit_sign_extends:
  assumes order: "bfd_xvec abfd = (if bfd_big_endian abfd then be_xvec else le_xvec)"
    and perform: "perform_relocation L abfd (lower_half abfd rel) symbol (buffers st data) sec out = (r, rel', bs)"
    and length: "unat (rel_address rel) + 8 \<le> length bs" "length bs < 2 ^ 64"
    and result: "mips32_64bit_reloc L abfd rel symbol data sec out st = (status, st')"
  defines "lo \<equiv> unat (rel_address rel) + (if bfd_big_endian abfd then 4 else 0)"
    and "hi \<equiv> unat (rel_address rel) + (if bfd_big_endian abfd then 0 else 4)"
  shows "status = r
    \<and> bfd_get_32 (bfd_xvec abfd) (buffers st' data) lo = bfd_get_32 (bfd_xvec abfd) bs lo
    \<and> bfd_get_32 (bfd_xvec abfd) (buffers st' data) hi
      = (if bfd_get_32 (bfd_xvec abfd) bs (unat (rel_address rel')) AND 0x80000000 \<noteq> 0 then 0xffffffff else 0)
    \<and> (rel_address rel' = rel_address (lower_half abfd rel)
      \<longrightarrow> bfd_get_64 (bfd_xvec abfd) (buffers st' data) (unat (rel_address rel)) = signed_take_bit 31 (bfd_get_32 (bfd_xvec abfd) bs lo))"
proof -
  let ?a = "unat (rel_address rel)" and ?t = "bfd_xvec abfd"
  have four: "unat (rel_address rel + 4) = ?a + 4"
    using length by (subst unat_add_lem [THEN iffD1]) simp_all
  have ok: "xvec_ok ?t"
    by (simp add: order)
  define w where "w = bfd_get_32 ?t bs lo"
  have w32: "take_bit 32 w = w"
    using length(1) ok by (simp add: w_def lo_def bytes_simps)
  let ?v = "if bfd_get_32 ?t bs (unat (rel_address rel')) AND 0x80000000 \<noteq> 0 then 0xffffffff else 0 :: vma"
  have st': "buffers st' data = bfd_put_32 ?t ?v bs hi" "status = r"
    using result perform four
    by (auto simp: mips32_64bit_reloc_def lower_half_def Let_def upd_buffer_def hi_def split: if_splits prod.splits)
  have v32: "take_bit 32 ?v = ?v"
    by simp
  have hi: "bfd_get_32 ?t (buffers st' data) hi = ?v"
    using length(1) ok v32 by (simp add: st' hi_def bytes_simps)
  have lo: "bfd_get_32 ?t (buffers st' data) lo = w"
    using length(1) byte_codec.get_put_other [OF xvec_ok32 [OF ok], of hi bs lo]
    by (simp add: st' w_def lo_def hi_def accessor_defs)
  have "length (buffers st' data) = length bs"
    using length(1) ok by (simp add: st' hi_def bytes_simps)
  then have "bfd_get_64 ?t (buffers st' data) ?a = w OR push_bit 32 ?v"
    using get_64_halves [of ?a "buffers st' data"] hi lo length(1) by (simp add: order lo_def hi_def split: if_splits)
  moreover have "?v = (if w AND 0x80000000 \<noteq> 0 then 0xffffffff else 0)" if "rel_address rel' = rel_address (lower_half abfd rel)"
    using that four by (simp add: w_def lo_def lower_half_def)
  ultimately show ?thesis
    using sign_extended_halves [OF w32] st'(2) hi lo by (simp add: w_def)
qed

theorem mips32_64bit_sign_extends_witness:
  "bfd_get_64 le_xvec (buffers (snd (mips32_64bit_reloc example_lib le_bfd (example_rel 0 R_MIPS_64) example_symbol 0 example_section None
      (example_state\<lparr>buffers := \<lambda>_. [1, 0, 0, 0x80, 2, 0, 0, 0]\<rparr>))) 0) 0 = 0xffffffff80000001"
proof -
  let ?st = "example_state\<lparr>buffers := \<lambda>_. [1, 0, 0, 0x80, 2, 0, 0, 0]\<rparr>" and ?bs = "[1, 0, 0, 0x80, 2, 0, 0, 0] :: bytes"
  obtain s st' where r: "mips32_64bit_reloc example_lib le_bfd (example_rel 0 R_MIPS_64) example_symbol 0 example_section None ?st = (s, st')"
    by force
  have "perform_relocation example_lib le_bfd (lower_half le_bfd (example_rel 0 R_MIPS_64)) example_symbol (buffers ?st 0) example_section None
      = (bfd_reloc_ok, lower_half le_bfd (example_rel 0 R_MIPS_64), ?bs)"
    by (simp add: example_lib_def)
  from mips32_64bit_sign_extends [OF _ this _ _ r]
  have "bfd_get_64 le_xvec (buffers st' 0) 0 = signed_take_bit 31 (bfd_get_32 le_xvec ?bs 0)"
    by (simp add: le_bfd_def example_rel_def)
  also have "\<dots> = 0xffffffff80000001"
    by code_simp
  finally show ?thesis
    using r by simp
qed

end
