(* ===== verification/CheckRelocs.thy ===== *)
theory CheckRelocs
  imports Perform Relocate
begin

text \<open>
  The scan of the relocations of an input section (\<^verbatim>\<open>_bfd_mips_elf_check_relocs\<close>): it reserves GOT
  entries and dynamic relocations, keeps or discards MIPS16 stub sections, and marks the
  symbols.

  A relocation is handled in the phases of the loop body: its symbol, the
  classification of its type, local GOT entries, the entries by type, stubs, and the refusal of
  absolute relocations in a shared object.  A failure is \<^verbatim>\<open>Inl\<close>, a null pointer that is followed or an
  endless chain of symbols \<^verbatim>\<open>None\<close>.  Memory does not run out.
\<close>

section \<open>The state of the scan\<close>

datatype check_error =
  unknown_stub_target | relocs_unreadable | malformed_reloc | library_failed
  | got_reloc_in_executable vma | call16_not_global vma | not_pic r_type "nat option"

type_synonym 'a chk = "(check_error + 'a) option"

definition chk_bind :: "'a chk \<Rightarrow> ('a \<Rightarrow> 'b chk) \<Rightarrow> 'b chk" where
  "chk_bind r f = (case r of None \<Rightarrow> None | Some (Inl e) \<Rightarrow> Some (Inl e) | Some (Inr x) \<Rightarrow> f x)"

definition chk_ok :: "'a \<Rightarrow> 'a chk" where
  "chk_ok x = Some (Inr x)"

definition chk_fail :: "check_error \<Rightarrow> 'a chk" where
  "chk_fail e = Some (Inl e)"

text \<open>
  What is set during the scan: the tables and symbols, the object that owns the linker's
  sections, whether \<^verbatim>\<open>.got\<close> and \<^verbatim>\<open>.rel.dyn\<close> exist, the size of the latter and its count, flags of
  the link, and for this object the stubs of local symbols, the cached contents and the sections
  that gained \<^verbatim>\<open>SEC_EXCLUDE\<close> or \<^verbatim>\<open>SEC_KEEP\<close>.
\<close>

record check_state =
  ck_gs :: got_state
  ck_dynobj :: "nat option"
  got_made :: bool
  rel_dyn_made :: bool
  rel_dyn_size :: "nat \<times> nat"
  ck_textrel :: bool
  static_tls :: bool
  compact_rel_size :: nat
  mips16_stubs_seen :: bool
  pointer_equality_needed :: "nat set"
  ck_local_stubs :: "nat \<Rightarrow> asection option"
  ck_local_call_stubs :: "nat \<Rightarrow> asection option"
  ck_excluded :: "nat set"
  ck_keep :: "nat set"
  ck_contents :: "bytes option"

text \<open>
  Link-wide settings, sizes of external records and the functions of BFD the scan calls: hiding a symbol and making it dynamic, making
  sections and the symbol of the GOT, recording C++ virtual tables.
\<close>

record check_env =
  ck_senv :: section_env
  nocopyreloc :: bool
  symbolic :: bool
  rel_entry_size :: nat
  rela_entry_size :: nat
  crinfo_size :: nat
  ck_hide :: "nat \<Rightarrow> got_state \<Rightarrow> got_state"
  ck_record_dyn :: "nat \<Rightarrow> got_state \<Rightarrow> got_state option"
  make_section :: "nat \<Rightarrow> string \<Rightarrow> bool"
  add_got_symbol :: "got_state \<Rightarrow> (nat \<times> got_state) option"
  gc_record_vtinherit :: "asection \<Rightarrow> nat option \<Rightarrow> vma \<Rightarrow> bool"
  gc_record_vtentry :: "asection \<Rightarrow> nat \<Rightarrow> vma \<Rightarrow> bool"

text \<open>The object being scanned; \<^verbatim>\<open>null_hash\<close> tells which entries of \<^verbatim>\<open>sym_hashes\<close> are null.\<close>

record check_object =
  co_io :: input_object
  sym_count :: nat
  null_hash :: "nat \<Rightarrow> bool"
  obj_sections :: "asection list"
  reloc_count :: "asection \<Rightarrow> nat"
  read_relocs :: "asection \<Rightarrow> elf_rela list option"
  read_contents :: "asection \<Rightarrow> bytes option"

abbreviation co_bfd :: "check_object \<Rightarrow> bfd" where
  "co_bfd co \<equiv> in_bfd (co_io co)"

definition extsymoff :: "check_object \<Rightarrow> nat" where
  "extsymoff co = (if bad_symtab (co_io co) then 0 else sh_info (co_io co))"

definition hash_of :: "check_object \<Rightarrow> nat \<Rightarrow> nat option" where
  "hash_of co i = (if null_hash co i then None else Some (sym_hashes (co_io co) i))"

abbreviation on_tables :: "(got_state \<Rightarrow> got_state) \<Rightarrow> check_state \<Rightarrow> check_state" where
  "on_tables f st \<equiv> st\<lparr>ck_gs := f (ck_gs st)\<rparr>"

section \<open>Sections made on demand\<close>

definition first_got_info :: got_info where
  "first_got_info =
     \<lparr>global_gotsym = None, global_gotno = 0, reloc_only_gotno = 0, tls_gotno = 0, tls_assigned_gotno = 0,
      local_gotno = 0, page_gotno = 0, assigned_gotno = 0, got_multi = False, got_entries = [],
      got_page_entries = [], bfd2got = None, got_next = None, tls_ldm_offset = MINUS_ONE\<rparr>"

abbreviation (input) STT_OBJECT :: nat where "STT_OBJECT \<equiv> 1"
abbreviation (input) STT_FUNC :: nat where "STT_FUNC \<equiv> 2"

definition mips_elf_create_got_section :: "check_env \<Rightarrow> link_info \<Rightarrow> nat \<Rightarrow> check_state \<Rightarrow> check_state chk" where
  "mips_elf_create_got_section env info abfd st =
     (if got_made st then chk_ok st
      else if \<not> make_section env abfd ''.got'' then chk_fail library_failed
      else case add_got_symbol env (ck_gs st) of
             None \<Rightarrow> chk_fail library_failed
           | Some (h, g) \<Rightarrow>
               let g = upd_sym h (\<lambda>s. s\<lparr>def_regular := True, elf_sym_type := STT_OBJECT\<rparr>) g
               in case (if shared info then ck_record_dyn env h g else Some g) of
                    None \<Rightarrow> chk_fail library_failed
                  | Some g \<Rightarrow>
                      if \<not> make_section env abfd ''.got.plt'' then chk_fail library_failed
                      else chk_ok (st\<lparr>got_made := True, ck_gs := g\<lparr>gots := [first_got_info]\<rparr>\<rparr>))"

definition mips_elf_rel_dyn_section :: "check_env \<Rightarrow> link_info \<Rightarrow> check_state \<Rightarrow> check_state chk" where
  "mips_elf_rel_dyn_section env info st =
     (if rel_dyn_made st then chk_ok st
      else case ck_dynobj st of
             None \<Rightarrow> None
           | Some d \<Rightarrow>
               if make_section env d (if is_vxworks info then ''.rela.dyn'' else ''.rel.dyn'')
               then chk_ok (st\<lparr>rel_dyn_made := True\<rparr>) else chk_fail library_failed)"

text \<open>Room for one dynamic relocation.\<close>

definition allocate_one :: "check_env \<Rightarrow> link_info \<Rightarrow> check_state \<Rightarrow> check_state" where
  "allocate_one env info st =
     st\<lparr>rel_dyn_size := mips_elf_allocate_dynamic_relocations (is_vxworks info) (rel_entry_size env) (rela_entry_size env) 1
          (rel_dyn_size st)\<rparr>"

section \<open>MIPS16 stub sections\<close>

text \<open>A compound relocation has \<^verbatim>\<open>n\<close> internal relocations; the first of each is looked at.\<close>

definition mips16_stub_symndx :: "nat \<Rightarrow> bfd \<Rightarrow> elf_rela list \<Rightarrow> nat" where
  "mips16_stub_symndx n abfd relocs =
     (case find (\<lambda>i. i mod n = 0 \<and> ELF_R_TYPE abfd (r_info (relocs ! i)) = R_MIPS_NONE) [0..<length relocs] of
        Some i \<Rightarrow> ELF_R_SYM abfd (r_info (relocs ! i))
      | None \<Rightarrow> (case relocs of [] \<Rightarrow> 0 | rel # _ \<Rightarrow> ELF_R_SYM abfd (r_info rel)))"

text \<open>Does a section of the object refer to a local symbol in a way that needs the stub?\<close>

fun stub_referenced :: "check_object \<Rightarrow> nat \<Rightarrow> (r_type \<Rightarrow> bool) \<Rightarrow> asection list \<Rightarrow> bool chk" where
  "stub_referenced co r_symndx needs [] = chk_ok False"
| "stub_referenced co r_symndx needs (sec # secs) =
     (if SEC_RELOC \<notin> sec_flags sec \<or> reloc_count co sec = 0 \<or> section_allows_mips16_refs_p sec
      then stub_referenced co r_symndx needs secs
      else case read_relocs co sec of
             None \<Rightarrow> chk_fail relocs_unreadable
           | Some rels \<Rightarrow>
               if list_ex (\<lambda>r. ELF_R_SYM (co_bfd co) (r_info r) = r_symndx \<and> needs (ELF_R_TYPE (co_bfd co) (r_info r)))
                    (take (reloc_count co sec) rels)
               then chk_ok True
               else stub_referenced co r_symndx needs secs)"

abbreviation exclude :: "asection \<Rightarrow> check_state \<Rightarrow> check_state" where
  "exclude sec st \<equiv> st\<lparr>ck_excluded := insert (sec_id sec) (ck_excluded st)\<rparr>"

abbreviation keep_section :: "asection \<Rightarrow> check_state \<Rightarrow> check_state" where
  "keep_section sec st \<equiv> st\<lparr>ck_keep := insert (sec_id sec) (ck_keep st)\<rparr>"

text \<open>The result tells whether the section was discarded, so that its relocations are not scanned.\<close>

definition check_fn_stub :: "check_object \<Rightarrow> asection \<Rightarrow> nat \<Rightarrow> check_state \<Rightarrow> (bool \<times> check_state) chk" where
  "check_fn_stub co sec r_symndx st =
     (case (if r_symndx < extsymoff co then None else hash_of co (r_symndx - extsymoff co)) of
        None \<Rightarrow>
          chk_bind (stub_referenced co r_symndx (\<lambda>t. \<not> mips16_call_reloc_p t) (obj_sections co))
            (\<lambda>needed. chk_ok
               (if \<not> needed then (True, exclude sec st)
                else (False, (keep_section sec st)\<lparr>ck_local_stubs := (ck_local_stubs st)(r_symndx := Some sec)\<rparr>)))
      | Some h \<Rightarrow>
          (case follow_links (syms (ck_gs st)) h of
             None \<Rightarrow> None
           | Some h \<Rightarrow>
               chk_ok (if fn_stub (syms (ck_gs st) h) \<noteq> None then (True, exclude sec st)
                       else (False, (on_tables (upd_sym h (\<lambda>s. s\<lparr>fn_stub := Some sec\<rparr>)) (keep_section sec st))
                               \<lparr>mips16_stubs_seen := True\<rparr>))))"

definition check_call_stub :: "check_object \<Rightarrow> asection \<Rightarrow> nat \<Rightarrow> check_state \<Rightarrow> (bool \<times> check_state) chk" where
  "check_call_stub co sec r_symndx st =
     (case (if r_symndx < extsymoff co then None else hash_of co (r_symndx - extsymoff co)) of
        None \<Rightarrow>
          chk_bind (stub_referenced co r_symndx (\<lambda>t. t = R_MIPS16_26) (obj_sections co))
            (\<lambda>needed. chk_ok
               (if \<not> needed then (True, exclude sec st)
                else (False, (keep_section sec st)\<lparr>ck_local_call_stubs := (ck_local_call_stubs st)(r_symndx := Some sec)\<rparr>)))
      | Some h \<Rightarrow>
          let fp = CALL_FP_STUB_P (sec_name sec); s = syms (ck_gs st) h
          in chk_ok (if (if fp then call_fp_stub s else call_stub s) \<noteq> None then (True, exclude sec st)
                     else (False, (on_tables (upd_sym h (\<lambda>s. if fp then s\<lparr>call_fp_stub := Some sec\<rparr> else s\<lparr>call_stub := Some sec\<rparr>))
                                     (keep_section sec st))\<lparr>mips16_stubs_seen := True\<rparr>)))"

definition check_stub_section ::
  "check_env \<Rightarrow> check_object \<Rightarrow> asection \<Rightarrow> elf_rela list \<Rightarrow> check_state \<Rightarrow> (bool \<times> check_state) chk" where
  "check_stub_section env co sec relocs st =
     (let r_symndx = mips16_stub_symndx (int_rels_per_ext_rel (ck_senv env)) (co_bfd co) relocs
      in if FN_STUB_P (sec_name sec)
         then (if r_symndx = 0 then chk_fail unknown_stub_target else check_fn_stub co sec r_symndx st)
         else if CALL_STUB_P (sec_name sec) \<or> CALL_FP_STUB_P (sec_name sec)
         then (if r_symndx = 0 then chk_fail unknown_stub_target else check_call_stub co sec r_symndx st)
         else chk_ok (False, st))"

section \<open>One relocation\<close>

text \<open>The global symbol of a relocation, \<^verbatim>\<open>None\<close> for a local one.\<close>

definition reloc_symbol :: "check_object \<Rightarrow> nat \<Rightarrow> check_state \<Rightarrow> nat option chk" where
  "reloc_symbol co r_symndx st =
     (if r_symndx < extsymoff co then chk_ok None
      else if r_symndx \<ge> extsymoff co + sym_count co then chk_fail malformed_reloc
      else case hash_of co (r_symndx - extsymoff co) of
             None \<Rightarrow> chk_ok None
           | Some h \<Rightarrow> (case follow_links (syms (ck_gs st)) h of None \<Rightarrow> None | Some h \<Rightarrow> chk_ok (Some h)))"

definition GOT_TYPES :: "r_type list" where
  "GOT_TYPES =
     [R_MIPS_GOT16, R_MIPS_CALL16, R_MIPS_CALL_HI16, R_MIPS_CALL_LO16, R_MIPS_GOT_HI16, R_MIPS_GOT_LO16,
      R_MIPS_GOT_PAGE, R_MIPS_GOT_OFST, R_MIPS_GOT_DISP, R_MIPS_TLS_GOTTPREL, R_MIPS_TLS_GD, R_MIPS_TLS_LDM,
      R_MIPS16_GOT16, R_MIPS16_CALL16, R_MIPS16_TLS_GOTTPREL, R_MIPS16_TLS_GD, R_MIPS16_TLS_LDM,
      R_MICROMIPS_GOT16, R_MICROMIPS_CALL16, R_MICROMIPS_CALL_HI16, R_MICROMIPS_CALL_LO16,
      R_MICROMIPS_GOT_HI16, R_MICROMIPS_GOT_LO16, R_MICROMIPS_GOT_PAGE, R_MICROMIPS_GOT_OFST,
      R_MICROMIPS_GOT_DISP, R_MICROMIPS_TLS_GOTTPREL, R_MICROMIPS_TLS_GD, R_MICROMIPS_TLS_LDM]"

definition BRANCH_TYPES :: "r_type list" where
  "BRANCH_TYPES =
     [R_MIPS_26, R_MIPS_PC16, R_MIPS16_26, R_MICROMIPS_26_S1, R_MICROMIPS_PC7_S1, R_MICROMIPS_PC10_S1,
      R_MICROMIPS_PC16_S1, R_MICROMIPS_PC23_S2]"

definition mark_sym :: "nat option \<Rightarrow> (link_sym \<Rightarrow> link_sym) \<Rightarrow> check_state \<Rightarrow> check_state" where
  "mark_sym h f st = (case h of None \<Rightarrow> st | Some h \<Rightarrow> on_tables (upd_sym h f) st)"

abbreviation static_ref :: "nat option \<Rightarrow> check_state \<Rightarrow> check_state" where
  "static_ref h st \<equiv> mark_sym h (\<lambda>s. s\<lparr>has_static_relocs := True\<rparr>) st"

abbreviation own_sections :: "check_object \<Rightarrow> check_state \<Rightarrow> check_state" where
  "own_sections co st \<equiv> st\<lparr>ck_dynobj := Some (case ck_dynobj st of None \<Rightarrow> bfd_id (co_bfd co) | Some d \<Rightarrow> d)\<rparr>"

text \<open>The first switch; the flag tells whether the relocation can be made dynamic.\<close>

definition classify_reloc ::
  "check_env \<Rightarrow> link_info \<Rightarrow> check_object \<Rightarrow> asection \<Rightarrow> elf_rela \<Rightarrow> nat option \<Rightarrow> check_state \<Rightarrow> (bool \<times> check_state) chk" where
  "classify_reloc env info co sec rel h st =
     (let abfd = co_bfd co; r_type = ELF_R_TYPE abfd (r_info rel)
      in if r_type \<in> set GOT_TYPES then
           chk_bind (mips_elf_create_got_section env info (the (ck_dynobj (own_sections co st))) (own_sections co st))
             (\<lambda>st. if is_vxworks info \<and> \<not> shared info then chk_fail (got_reloc_in_executable (r_offset rel))
                   else chk_ok (False, st))
         else if r_type \<in> {R_MIPS_JALR, R_MICROMIPS_JALR} then chk_ok (False, st)
         else if r_type \<in> {R_MIPS_32, R_MIPS_REL32, R_MIPS_64}
              \<and> (shared info
                 \<or> (h \<noteq> None \<and> \<not> is_vxworks info \<and> sym_name (syms (ck_gs st) (the h)) \<noteq> ''__gnu_local_gp''
                    \<and> \<not> (\<not> nocopyreloc env \<and> \<not> PIC_OBJECT_P abfd \<and> MIPS_ELF_READONLY_SECTION sec)))
              \<and> SEC_ALLOC \<in> sec_flags sec
         then chk_ok (True, own_sections co st)
         else if r_type \<in> {R_MIPS_32, R_MIPS_REL32, R_MIPS_64} \<and> SEC_DEBUGGING \<in> sec_flags sec then chk_ok (False, st)
         else if r_type \<in> set BRANCH_TYPES then chk_ok (False, static_ref h st)
         else chk_ok (False, static_ref h (case h of None \<Rightarrow> st
                | Some h \<Rightarrow> st\<lparr>pointer_equality_needed := insert h (pointer_equality_needed st)\<rparr>)))"

text \<open>GOTT symbols are left to the loader; local GOT entries are counted.\<close>

definition local_or_gott ::
  "check_env \<Rightarrow> link_info \<Rightarrow> check_object \<Rightarrow> asection \<Rightarrow> elf_rela \<Rightarrow> nat option \<Rightarrow> check_state \<Rightarrow> check_state chk" where
  "local_or_gott env info co sec rel h st =
     (let abfd = co_bfd co; r_type = ELF_R_TYPE abfd (r_info rel)
      in case h of
           Some h \<Rightarrow>
             if is_gott_symbol info (syms (ck_gs st) h)
             then chk_bind (mips_elf_rel_dyn_section env info st)
                    (\<lambda>st. let st = allocate_one env info st
                          in chk_ok (if MIPS_ELF_READONLY_SECTION sec then st\<lparr>ck_textrel := True\<rparr> else st))
             else chk_ok st
         | None \<Rightarrow>
             chk_ok (if call_lo16_reloc_p r_type \<or> got_lo16_reloc_p r_type \<or> got_disp_reloc_p r_type
                        \<or> (got16_reloc_p r_type \<and> is_vxworks info)
                     then on_tables (mips_elf_record_local_got_symbol (bfd_id abfd)
                            (int (ELF_R_SYM abfd (r_info rel))) (r_addend rel) 0) st
                     else st))"

definition record_global ::
  "check_env \<Rightarrow> check_object \<Rightarrow> nat \<Rightarrow> bool \<Rightarrow> 8 word \<Rightarrow> check_state \<Rightarrow> check_state chk" where
  "record_global env co h for_call tls_flag st =
     (case mips_elf_record_global_got_symbol (ck_hide env) (ck_record_dyn env) h (bfd_id (co_bfd co)) for_call tls_flag (ck_gs st) of
        None \<Rightarrow> chk_fail library_failed
      | Some g \<Rightarrow> chk_ok (st\<lparr>ck_gs := g\<rparr>))"

definition record_page_reloc :: "nat \<Rightarrow> int \<Rightarrow> int \<Rightarrow> got_state \<Rightarrow> got_state" where
  "record_page_reloc abfd symndx addend =
     upd_got 0 (\<lambda>g. let (pes, n) = mips_elf_record_got_page_entry abfd symndx addend (got_page_entries g) (int (page_gotno g))
                    in g\<lparr>got_page_entries := pes, page_gotno := nat n\<rparr>)"

text \<open>The addend of a page relocation; the contents of the section are read once.\<close>

definition page_addend ::
  "check_env \<Rightarrow> check_object \<Rightarrow> asection \<Rightarrow> nat \<Rightarrow> elf_rela \<Rightarrow> check_state \<Rightarrow> (vma \<times> check_state) chk" where
  "page_addend env co sec index rel st =
     (let abfd = co_bfd co
      in if \<not> mips_elf_rel_relocation_p (ck_senv env) sec index then chk_ok (r_addend rel, st)
         else case (case ck_contents st of None \<Rightarrow> read_contents co sec | Some c \<Rightarrow> Some c) of
                None \<Rightarrow> chk_fail library_failed
              | Some contents \<Rightarrow>
                  (case mips_elf32_rtype_to_howto (ELF_R_TYPE abfd (r_info rel)) of
                     None \<Rightarrow> None
                   | Some howto \<Rightarrow>
                       (case mips_elf_read_rel_addend abfd rel howto contents of
                          None \<Rightarrow> None
                        | Some (addend, contents) \<Rightarrow>
                            chk_ok (push_bit (rightshift howto) addend, st\<lparr>ck_contents := Some contents\<rparr>))))"

definition record_call ::
  "check_env \<Rightarrow> check_object \<Rightarrow> elf_rela \<Rightarrow> nat option \<Rightarrow> check_state \<Rightarrow> check_state chk" where
  "record_call env co rel h st =
     (let r_type = ELF_R_TYPE (co_bfd co) (r_info rel)
      in case h of
           None \<Rightarrow> if call16_reloc_p r_type then chk_fail (call16_not_global (r_offset rel)) else chk_ok st
         | Some h \<Rightarrow>
             chk_bind (record_global env co h True 0 st)
               (\<lambda>st. chk_ok (on_tables (upd_sym h (\<lambda>s. s\<lparr>needs_plt := True, elf_sym_type := STT_FUNC\<rparr>)) st)))"

definition GOT16_TYPES :: "r_type list" where
  "GOT16_TYPES =
     [R_MIPS_GOT_PAGE, R_MICROMIPS_GOT_PAGE, R_MIPS16_GOT16, R_MIPS_GOT16, R_MIPS_GOT_HI16, R_MIPS_GOT_LO16,
      R_MICROMIPS_GOT16, R_MICROMIPS_GOT_HI16, R_MICROMIPS_GOT_LO16]"

text \<open>A page relocation against a symbol that cannot be overridden is treated as one against a local symbol.\<close>

definition page_symbol :: "check_env \<Rightarrow> link_info \<Rightarrow> r_type \<Rightarrow> nat option \<Rightarrow> check_state \<Rightarrow> nat option" where
  "page_symbol env info r_type h st =
     (case h of
        Some i \<Rightarrow>
          if got_page_reloc_p r_type \<and> def_regular (syms (ck_gs st) i)
             \<and> \<not> (shared info \<and> \<not> symbolic env \<and> \<not> forced_local (syms (ck_gs st) i))
          then None else h
      | None \<Rightarrow> None)"

definition record_got16 ::
  "check_env \<Rightarrow> link_info \<Rightarrow> check_object \<Rightarrow> asection \<Rightarrow> nat \<Rightarrow> elf_rela \<Rightarrow> nat option \<Rightarrow> check_state
   \<Rightarrow> (nat option \<times> check_state) chk" where
  "record_got16 env info co sec index rel h st =
     (let abfd = co_bfd co; r_type = ELF_R_TYPE abfd (r_info rel);
          h = page_symbol env info r_type h st
      in chk_bind
           (if r_type \<in> set GOT16_TYPES \<and> (h = None \<or> got_page_reloc_p r_type)
            then chk_bind (page_addend env co sec index rel st)
                   (\<lambda>(addend, st). chk_ok (on_tables (record_page_reloc (bfd_id abfd) (int (ELF_R_SYM abfd (r_info rel))) (sint addend)) st))
            else chk_ok st)
           (\<lambda>st. case h of
                    None \<Rightarrow> chk_ok (None, st)
                  | Some i \<Rightarrow> chk_bind (record_global env co i False 0 st) (\<lambda>st. chk_ok (Some i, st))))"

definition TLS_TYPES :: "r_type list" where
  "TLS_TYPES =
     [R_MIPS_TLS_GOTTPREL, R_MIPS16_TLS_GOTTPREL, R_MICROMIPS_TLS_GOTTPREL, R_MIPS_TLS_LDM, R_MIPS16_TLS_LDM,
      R_MICROMIPS_TLS_LDM, R_MIPS_TLS_GD, R_MIPS16_TLS_GD, R_MICROMIPS_TLS_GD]"

definition tls_flag :: "r_type \<Rightarrow> 8 word" where
  "tls_flag r_type = (if tls_gd_reloc_p r_type then GOT_TLS_GD else if tls_ldm_reloc_p r_type then GOT_TLS_LDM else GOT_TLS_IE)"

text \<open>Local-dynamic relocations are against no symbol.\<close>

definition record_tls ::
  "check_env \<Rightarrow> link_info \<Rightarrow> check_object \<Rightarrow> elf_rela \<Rightarrow> nat option \<Rightarrow> nat \<Rightarrow> check_state
   \<Rightarrow> (nat option \<times> nat \<times> check_state) chk" where
  "record_tls env info co rel h r_symndx st =
     (let abfd = co_bfd co; r_type = ELF_R_TYPE abfd (r_info rel);
          st = (if tls_gottprel_reloc_p r_type \<and> shared info then st\<lparr>static_tls := True\<rparr> else st);
          (h, r_symndx) = (if tls_ldm_reloc_p r_type then (None, 0) else (h, r_symndx))
      in case h of
           Some i \<Rightarrow>
             chk_bind (record_global env co i False (tls_flag r_type)
                         (on_tables (upd_sym i (\<lambda>s. s\<lparr>sym_tls_type := sym_tls_type s OR tls_flag r_type\<rparr>)) st))
               (\<lambda>st. chk_ok (h, r_symndx, st))
         | None \<Rightarrow>
             chk_ok (None, r_symndx,
               on_tables (mips_elf_record_local_got_symbol (bfd_id abfd) (int r_symndx) (r_addend rel) (tls_flag r_type)) st))"

text \<open>A relocation that can be made dynamic gets its room at once, or later through its symbol.\<close>

definition record_dynamic ::
  "check_env \<Rightarrow> link_info \<Rightarrow> asection \<Rightarrow> nat option \<Rightarrow> check_state \<Rightarrow> check_state chk" where
  "record_dynamic env info sec h st =
     chk_bind (mips_elf_rel_dyn_section env info st)
       (\<lambda>st. if shared info \<and> h = None
             then chk_ok (let st = allocate_one env info st
                          in if MIPS_ELF_READONLY_SECTION sec then st\<lparr>ck_textrel := True\<rparr> else st)
             else case h of
                    None \<Rightarrow> None
                  | Some i \<Rightarrow>
                      chk_ok (on_tables (upd_sym i (\<lambda>s. s\<lparr>possibly_dynamic_relocs := possibly_dynamic_relocs s + 1,
                                readonly_reloc := readonly_reloc s \<or> MIPS_ELF_READONLY_SECTION sec\<rparr>)) st))"

definition CRINFO_TYPES :: "r_type list" where
  "CRINFO_TYPES =
     [R_MIPS_26, R_MIPS_GPREL16, R_MIPS_LITERAL, R_MIPS_GPREL32, R_MICROMIPS_26_S1, R_MICROMIPS_GPREL16,
      R_MICROMIPS_LITERAL, R_MICROMIPS_GPREL7_S2]"

definition count_crinfo :: "check_env \<Rightarrow> bfd \<Rightarrow> check_state \<Rightarrow> check_state" where
  "count_crinfo env abfd st = (if SGI_COMPAT abfd then st\<lparr>compact_rel_size := compact_rel_size st + crinfo_size env\<rparr> else st)"

text \<open>The second switch; it may replace the symbol and its index.\<close>

definition record_reloc ::
  "check_env \<Rightarrow> link_info \<Rightarrow> check_object \<Rightarrow> asection \<Rightarrow> nat \<Rightarrow> elf_rela \<Rightarrow> bool \<Rightarrow> nat option \<Rightarrow> nat \<Rightarrow> check_state
   \<Rightarrow> (nat option \<times> nat \<times> check_state) chk" where
  "record_reloc env info co sec index rel can_make_dynamic h r_symndx st =
     (let abfd = co_bfd co; r_type = ELF_R_TYPE abfd (r_info rel);
          keep = (\<lambda>st. chk_ok (h, r_symndx, st))
      in if call16_reloc_p r_type \<or> call_hi16_reloc_p r_type \<or> call_lo16_reloc_p r_type
         then chk_bind (record_call env co rel h st) keep
         else if r_type \<in> set GOT16_TYPES \<or> got_disp_reloc_p r_type
         then chk_bind (record_got16 env info co sec index rel h st) (\<lambda>(h, st). chk_ok (h, r_symndx, st))
         else if r_type \<in> set TLS_TYPES then record_tls env info co rel h r_symndx st
         else if r_type \<in> {R_MIPS_32, R_MIPS_REL32, R_MIPS_64}
         then chk_bind (if can_make_dynamic then record_dynamic env info sec h st else chk_ok st)
                (\<lambda>st. keep (count_crinfo env abfd st))
         else if r_type \<in> set CRINFO_TYPES then keep (count_crinfo env abfd st)
         else if r_type = R_MIPS_GNU_VTINHERIT
         then (if gc_record_vtinherit env sec h (r_offset rel) then keep st else chk_fail library_failed)
         else if r_type = R_MIPS_GNU_VTENTRY
         then (if h \<noteq> None \<and> \<not> gc_record_vtentry env sec (the h) (r_offset rel) then chk_fail library_failed else keep st)
         else keep st)"

definition CALL_TYPES :: "r_type list" where
  "CALL_TYPES =
     [R_MIPS16_CALL16, R_MIPS_CALL16, R_MIPS_CALL_HI16, R_MIPS_CALL_LO16, R_MIPS_JALR,
      R_MICROMIPS_CALL16, R_MICROMIPS_CALL_HI16, R_MICROMIPS_CALL_LO16, R_MICROMIPS_JALR]"

definition mark_stubs :: "link_info \<Rightarrow> asection \<Rightarrow> r_type \<Rightarrow> nat option \<Rightarrow> check_state \<Rightarrow> check_state" where
  "mark_stubs info sec r_type h st =
     (let st = (if \<not> is_vxworks info \<and> r_type \<notin> set CALL_TYPES then mark_sym h (\<lambda>s. s\<lparr>no_fn_stub := True\<rparr>) st else st)
      in if \<not> mips16_call_reloc_p r_type \<and> \<not> section_allows_mips16_refs_p sec
         then mark_sym h (\<lambda>s. s\<lparr>need_fn_stub := True\<rparr>) st else st)"

text \<open>Absolute jumps and high parts are refused in a shared object; the name of a null symbol is followed for VxWorks.\<close>

definition refuse_absolute ::
  "link_info \<Rightarrow> bfd \<Rightarrow> r_type \<Rightarrow> nat option \<Rightarrow> nat \<Rightarrow> check_state \<Rightarrow> check_state chk" where
  "refuse_absolute info abfd r_type h r_symndx st =
     (let sym_of = (\<lambda>i. syms (ck_gs st) i)
      in if \<not> shared info then chk_ok st
         else if r_type \<in> {R_MIPS16_HI16, R_MIPS_HI16, R_MIPS_HIGHER, R_MIPS_HIGHEST,
                           R_MICROMIPS_HI16, R_MICROMIPS_HIGHER, R_MICROMIPS_HIGHEST}
         then (if r_symndx = 0 then chk_ok st
               else case h of
                      Some i \<Rightarrow>
                        if (\<not> NEWABI_P abfd \<and> sym_name (sym_of i) = ''_gp_disp'') \<or> is_gott_symbol info (sym_of i)
                        then chk_ok st else chk_fail (not_pic r_type h)
                    | None \<Rightarrow> if is_vxworks info then None else chk_fail (not_pic r_type h))
         else if r_type \<in> {R_MIPS16_26, R_MIPS_26, R_MICROMIPS_26_S1} then chk_fail (not_pic r_type h)
         else chk_ok st)"

definition check_reloc ::
  "check_env \<Rightarrow> link_info \<Rightarrow> check_object \<Rightarrow> asection \<Rightarrow> nat \<Rightarrow> elf_rela \<Rightarrow> check_state \<Rightarrow> check_state chk" where
  "check_reloc env info co sec index rel st =
     (let abfd = co_bfd co; r_type = ELF_R_TYPE abfd (r_info rel)
      in chk_bind (reloc_symbol co (ELF_R_SYM abfd (r_info rel)) st) (\<lambda>h.
         chk_bind (classify_reloc env info co sec rel h st) (\<lambda>(can_make_dynamic, st).
         chk_bind (local_or_gott env info co sec rel h st) (\<lambda>st.
         let st = (case h of
                     Some i \<Rightarrow>
                       if mips_elf_relocation_needs_la25_stub abfd r_type (ELF_ST_IS_MIPS16 (st_other (syms (ck_gs st) i)))
                       then on_tables (upd_sym i (\<lambda>s. s\<lparr>has_nonpic_branches := True\<rparr>)) st else st
                   | None \<Rightarrow> st)
         in chk_bind (record_reloc env info co sec index rel can_make_dynamic h (ELF_R_SYM abfd (r_info rel)) st)
              (\<lambda>(h, r_symndx, st). refuse_absolute info abfd r_type h r_symndx (mark_stubs info sec r_type h st))))))"

fun check_all ::
  "check_env \<Rightarrow> link_info \<Rightarrow> check_object \<Rightarrow> asection \<Rightarrow> nat \<Rightarrow> elf_rela list \<Rightarrow> check_state \<Rightarrow> check_state chk" where
  "check_all env info co sec index [] st = chk_ok st"
| "check_all env info co sec index (rel # rels) st =
     chk_bind (check_reloc env info co sec index rel st) (check_all env info co sec (Suc index) rels)"

definition bfd_mips_elf_check_relocs ::
  "check_env \<Rightarrow> link_info \<Rightarrow> check_object \<Rightarrow> asection \<Rightarrow> elf_rela list \<Rightarrow> check_state \<Rightarrow> check_state chk" where
  "bfd_mips_elf_check_relocs env info co sec relocs st =
     (if relocatable info then chk_ok st
      else
        let relocs = take (reloc_count co sec * int_rels_per_ext_rel (ck_senv env)) relocs
        in chk_bind (check_stub_section env co sec relocs st)
             (\<lambda>(discarded, st). if discarded then chk_ok st
                                else check_all env info co sec 0 relocs (st\<lparr>ck_contents := None\<rparr>)))"

end
