(* ===== verification/CheckSpec.thy ===== *)
theory CheckSpec
  imports CheckRelocs RelocateSpec
begin

text \<open>
  What the scan of relocations guarantees to the later phases: every global symbol and every
  thread-local relocation has its entry in the GOT, whatever is scanned afterwards.
\<close>

section \<open>Results of the scan\<close>

text \<open>A property of the result, if there is one.\<close>

definition chk_all :: "('a \<Rightarrow> bool) \<Rightarrow> 'a chk \<Rightarrow> bool" where
  "chk_all P r \<longleftrightarrow> (case r of Some (Inr x) \<Rightarrow> P x | _ \<Rightarrow> True)"

lemma chk_allD: "chk_all P r \<Longrightarrow> r = Some (Inr x) \<Longrightarrow> P x"
  by (simp add: chk_all_def)

lemma chk_all_simps [simp]: "chk_all P (chk_ok x) \<longleftrightarrow> P x" "chk_all P (chk_fail e)" "chk_all P None"
  by (simp_all add: chk_all_def chk_ok_def chk_fail_def)

lemma chk_bind_ok [simp]: "chk_bind (chk_ok x) f = f x"
  by (simp add: chk_bind_def chk_ok_def)

lemma chk_all_bind: "chk_all (\<lambda>x. chk_all P (f x)) r \<Longrightarrow> chk_all P (chk_bind r f)"
  by (auto simp: chk_all_def chk_bind_def split: option.splits sum.splits)

lemma chk_all_bind_no: "\<nexists>x. r = Some (Inr x) \<Longrightarrow> chk_all P (chk_bind r f)"
  by (auto simp: chk_all_def chk_bind_def split: option.splits sum.splits)

lemma chk_all_mono: "chk_all P r \<Longrightarrow> (\<And>x. P x \<Longrightarrow> Q x) \<Longrightarrow> chk_all Q r"
  by (auto simp: chk_all_def split: option.splits sum.splits)

lemma chk_all_trans:
  assumes "chk_all P r" "\<And>x. P x \<Longrightarrow> chk_all Q (f x)"
  shows "chk_all Q (chk_bind r f)"
  by (rule chk_all_bind, rule chk_all_mono [OF assms(1)], rule assms(2))

lemma chk_all_trans2:
  assumes "chk_all (\<lambda>(a, b). P a b) r" "\<And>a b. P a b \<Longrightarrow> chk_all Q (f a b)"
  shows "chk_all Q (chk_bind r (\<lambda>(a, b). f a b))"
  by (rule chk_all_trans [OF assms(1)]) (use assms(2) in auto)

lemma chk_all_trans3:
  assumes "chk_all (\<lambda>(a, b, c). P a b c) r" "\<And>a b c. P a b c \<Longrightarrow> chk_all Q (f a b c)"
  shows "chk_all Q (chk_bind r (\<lambda>(a, b, c). f a b c))"
  by (rule chk_all_trans [OF assms(1)]) (use assms(2) in auto)

section \<open>Keys of the master table\<close>

definition has_key :: "got_state \<Rightarrow> got_entry \<Rightarrow> bool" where
  "has_key g k \<longleftrightarrow> htab_find g (gots g ! 0) k \<noteq> None"

definition table_ok :: "got_state \<Rightarrow> bool" where
  "table_ok g \<longleftrightarrow> (\<forall>p \<in> set (got_entries (gots g ! 0)). p < length (ents g))"

definition links_kept :: "got_state \<Rightarrow> got_state \<Rightarrow> bool" where
  "links_kept g g' \<longleftrightarrow> (\<forall>h x. follow_links (syms g) h = Some x \<longrightarrow> follow_links (syms g') h = Some x)"

text \<open>A step that loses no key and no link.\<close>

definition grows_to :: "got_state \<Rightarrow> got_state \<Rightarrow> bool" where
  "grows_to g g' \<longleftrightarrow> links_kept g g'
     \<and> (gots g \<noteq> [] \<and> table_ok g \<longrightarrow> gots g' \<noteq> [] \<and> table_ok g' \<and> (\<forall>k. has_key g k \<longrightarrow> has_key g' k))"

lemma grows_to_refl [simp]: "grows_to g g"
  by (simp add: grows_to_def links_kept_def)

lemma grows_to_trans: "grows_to g g' \<Longrightarrow> grows_to g' g'' \<Longrightarrow> grows_to g g''"
  by (auto simp: grows_to_def links_kept_def)

lemma has_key_iff: "has_key g k \<longleftrightarrow> (\<exists>q \<in> set (got_entries (gots g ! 0)). got_eq (gots g ! 0) (ents g ! q) k)"
  by (auto simp: has_key_def htab_find_def find_None_iff)

lemma got_eq_same:
  assumes "got_multi g' = got_multi g" "ge_abfd e' = ge_abfd e" "ge_symndx e' = ge_symndx e" "ge_d e' = ge_d e" "is_ldm e' = is_ldm e"
  shows "got_eq g' e' k = got_eq g e k"
  using assms by (simp add: got_eq_def mips_elf_got_entry_eq_def mips_elf_multi_got_entry_eq_def ldm_tests)

lemma follow_links_cong:
  assumes "follow_links sy h = Some x" "\<And>h. root_type (sy' h) = root_type (sy h)"
  shows "follow_links sy' h = Some x"
proof -
  have "(\<forall>h. root_type (sy' h) = root_type (sy h)) \<longrightarrow> follow_links sy' h = Some x"
    using assms(1)
  proof (rule follow_links.raw_induct [rotated])
    fix fl sy h x
    assume IH: "\<And>sy h x. fl sy h = Some x \<Longrightarrow> (\<forall>h. root_type (sy' h) = root_type (sy h)) \<longrightarrow> follow_links sy' h = Some x"
      and step: "(case root_type (sy h) of bfd_link_hash_indirect l \<Rightarrow> fl sy l | bfd_link_hash_warning l \<Rightarrow> fl sy l | _ \<Rightarrow> Some h) = Some x"
    show "(\<forall>h. root_type (sy' h) = root_type (sy h)) \<longrightarrow> follow_links sy' h = Some x"
      using step IH by (subst follow_links.simps) (auto split: link_hash_type.splits)
  qed
  then show ?thesis
    using assms(2) by blast
qed

section \<open>The steps on the tables\<close>

lemma links_kept_sym: "(\<And>h. root_type (syms g' h) = root_type (syms g h)) \<Longrightarrow> links_kept g g'"
  by (auto simp: links_kept_def intro: follow_links_cong)

lemma grows_syms:
  assumes "gots g' = gots g" "ents g' = ents g" "\<And>h. root_type (syms g' h) = root_type (syms g h)"
  shows "grows_to g g'"
  using assms links_kept_sym [of g' g] by (simp add: grows_to_def table_ok_def has_key_iff)

lemma grows_upd_sym: "(\<And>s. root_type (f s) = root_type s) \<Longrightarrow> grows_to g (upd_sym h f g)"
  by (rule grows_syms) (simp_all add: upd_sym_def)

lemma grows_upd_got:
  assumes "\<And>i. got_entries (f i) = got_entries i" "\<And>i. got_multi (f i) = got_multi i"
  shows "grows_to g (upd_got 0 f g)"
proof -
  have "got_eq (f i) e k = got_eq i e k" for i e k
    using assms(2) by (simp add: got_eq_def)
  then show ?thesis
    using assms links_kept_sym [of "upd_got 0 f g" g]
    by (simp add: grows_to_def table_ok_def has_key_iff upd_got_def)
qed

lemma grows_upd_ent:
  assumes "\<not> bit flag 1"
  shows "grows_to g (upd_ent p (\<lambda>e. e\<lparr>ge_tls_type := ge_tls_type e OR flag\<rparr>) g)"
proof -
  let ?g = "upd_ent p (\<lambda>e. e\<lparr>ge_tls_type := ge_tls_type e OR flag\<rparr>) g"
  have gots: "gots ?g = gots g" "length (ents ?g) = length (ents g)"
    by (simp_all add: upd_ent_def)
  have "got_eq (gots g ! 0) (ents ?g ! q) k = got_eq (gots g ! 0) (ents g ! q) k" if "q < length (ents g)" for q k
    using that assms by (intro got_eq_same; cases "q = p") (simp_all add: upd_ent_def is_ldm_def bit_simps)
  then show ?thesis
    using links_kept_sym [of ?g g] by (auto simp: grows_to_def table_ok_def has_key_iff gots upd_ent_def)
qed

lemma grows_new_ent:
  "grows_to g (new_ent 0 e g)"
  "gots g \<noteq> [] \<Longrightarrow> table_ok g \<Longrightarrow> got_eq (gots g ! 0) e k \<Longrightarrow> has_key (new_ent 0 e g) k"
proof -
  let ?g = "new_ent 0 e g"
  have g': "gots g \<noteq> [] \<Longrightarrow> gots ?g ! 0 = (gots g ! 0)\<lparr>got_entries := got_entries (gots g ! 0) @ [length (ents g)]\<rparr>"
    "ents ?g = ents g @ [e]"
    by (simp_all add: new_ent_def upd_got_def)
  have eq: "got_eq ((gots g ! 0)\<lparr>got_entries := es\<rparr>) = got_eq (gots g ! 0)" for es
    by (simp add: got_eq_def)
  show "grows_to g ?g"
    using links_kept_sym [of ?g g] g'
    by (auto simp: grows_to_def table_ok_def has_key_iff eq nth_append new_ent_def upd_got_def)
  show "has_key ?g k" if "gots g \<noteq> []" "table_ok g" "got_eq (gots g ! 0) e k"
    using that g' by (simp add: has_key_iff eq)
qed

text \<open>The keys under which symbols are recorded and looked up.\<close>

definition global_key :: "nat \<Rightarrow> nat \<Rightarrow> got_entry" where
  "global_key b h = \<lparr>ge_abfd = Some b, ge_symndx = -1, ge_d = D_h h, ge_tls_type = 0, gotidx = -1\<rparr>"

lemma found_key: "htab_find g (gots g ! 0) k = Some p \<Longrightarrow> has_key g k"
  by (simp add: has_key_def)

lemma grows_new: "grows_to g g' \<Longrightarrow> grows_to g (new_ent 0 e g')"
  by (rule grows_to_trans [OF _ grows_new_ent(1)])

lemma record_local_grows:
  assumes "flag \<in> {0, GOT_TLS_GD, GOT_TLS_LDM, GOT_TLS_IE}"
  shows "grows_to g (mips_elf_record_local_got_symbol b s a flag g)"
proof (cases "htab_find g (gots g ! 0) \<lparr>ge_abfd = Some b, ge_symndx = s, ge_d = D_addend a, ge_tls_type = flag, gotidx = -1\<rparr>")
  case None
  have upd: "grows_to g (upd_got 0 f g)" if "f \<in> {\<lambda>g. g\<lparr>tls_gotno := tls_gotno g + 1\<rparr>, \<lambda>g. g\<lparr>tls_gotno := tls_gotno g + 2\<rparr>,
      \<lambda>g. g\<lparr>tls_ldm_offset := MINUS_TWO, tls_gotno := tls_gotno g + 2\<rparr>, \<lambda>g. g\<lparr>local_gotno := local_gotno g + 1\<rparr>}" for f
    using that by (intro grows_upd_got) auto
  show ?thesis
    unfolding mips_elf_record_local_got_symbol_def Let_def None option.case
    by (simp add: grows_new upd)
next
  case (Some p)
  have "grows_to g (upd_ent p (\<lambda>e. e\<lparr>ge_tls_type := ge_tls_type e OR f\<rparr>) (upd_got 0 (\<lambda>g. g\<lparr>tls_gotno := tls_gotno g + n\<rparr>) g))"
    if "\<not> bit f 1" for f n
    by (rule grows_to_trans [OF grows_upd_got grows_upd_ent [OF that]]) simp_all
  from this [of GOT_TLS_GD 2] this [of GOT_TLS_IE 1] show ?thesis
    unfolding mips_elf_record_local_got_symbol_def Let_def Some option.case
    by (simp add: ldm_flags)
qed

lemma got_eq_keys:
  assumes "ge_abfd k = ge_abfd k'" "ge_symndx k = ge_symndx k'" "ge_d k = ge_d k'" "is_ldm k = is_ldm k'"
  shows "got_eq g e k = got_eq g e k'"
  using assms by (simp add: got_eq_def mips_elf_got_entry_eq_def mips_elf_multi_got_entry_eq_def ldm_tests)

lemma got_eq_refl: "got_eq g k k"
  by (simp add: got_eq_def mips_elf_got_entry_eq_def mips_elf_multi_got_entry_eq_def)

lemma grows_keeps: "grows_to g g' \<Longrightarrow> gots g \<noteq> [] \<Longrightarrow> table_ok g \<Longrightarrow> gots g' \<noteq> [] \<and> table_ok g' \<and> (has_key g k \<longrightarrow> has_key g' k)"
  by (simp add: grows_to_def)

lemma new_ent_key:
  assumes "grows_to g g'" "gots g \<noteq> []" "table_ok g"
    and "ge_abfd e = ge_abfd k" "ge_symndx e = ge_symndx k" "ge_d e = ge_d k" "is_ldm e = is_ldm k"
  shows "has_key (new_ent 0 e g') k"
  using grows_keeps [OF assms(1-3)] got_eq_keys [OF assms(4-7)] got_eq_refl grows_new_ent(2) by metis

lemma record_local_key:
  assumes "flag \<in> {0, GOT_TLS_GD, GOT_TLS_LDM, GOT_TLS_IE}" "gots g \<noteq> []" "table_ok g"
    and k: "ge_abfd k = Some b" "ge_symndx k = s" "ge_d k = D_addend a" "is_ldm k \<longleftrightarrow> flag = GOT_TLS_LDM"
  shows "has_key (mips_elf_record_local_got_symbol b s a flag g) k"
proof -
  let ?e = "\<lparr>ge_abfd = Some b, ge_symndx = s, ge_d = D_addend a, ge_tls_type = flag, gotidx = -1\<rparr>"
  have ldm: "is_ldm (?e\<lparr>gotidx := i\<rparr>) = is_ldm k" for i
    using assms(1) k(4) by (auto simp: is_ldm_def)
  then have eq: "got_eq i e ?e = got_eq i e k" for i e
    using k ldm [of "-1"] by (intro got_eq_keys) simp_all
  show ?thesis
  proof (cases "htab_find g (gots g ! 0) ?e")
    case (Some p)
    then have "has_key g k"
      using found_key [OF Some] by (simp add: has_key_iff eq)
    then show ?thesis
      using grows_keeps [OF record_local_grows [OF assms(1)] assms(2,3)] by blast
  next
    case None
    have upd: "grows_to g (upd_got 0 f g)" if "f \<in> {\<lambda>g. g\<lparr>tls_gotno := tls_gotno g + 1\<rparr>, \<lambda>g. g\<lparr>tls_gotno := tls_gotno g + 2\<rparr>,
        \<lambda>g. g\<lparr>tls_ldm_offset := MINUS_TWO, tls_gotno := tls_gotno g + 2\<rparr>, \<lambda>g. g\<lparr>local_gotno := local_gotno g + 1\<rparr>}" for f
      using that by (intro grows_upd_got) auto
    have new: "has_key (new_ent 0 (?e\<lparr>gotidx := i\<rparr>) g') k" if "grows_to g g'" for g' i
      using ldm [of i] k by (intro new_ent_key [OF that assms(2,3)]) simp_all
    from new [of _ "-1"] new show ?thesis
      unfolding mips_elf_record_local_got_symbol_def Let_def None option.case
      by (cases "flag = 0") (simp_all add: upd)
  qed
qed

text \<open>What the scan relies on of the functions of BFD: they leave the tables and the links between symbols alone.\<close>

definition library_ok :: "check_env \<Rightarrow> bool" where
  "library_ok env \<longleftrightarrow>
     (\<forall>h g. grows_to g (ck_hide env h g) \<and> gots (ck_hide env h g) = gots g)
     \<and> (\<forall>h g g'. ck_record_dyn env h g = Some g' \<longrightarrow> grows_to g g' \<and> gots g' = gots g)
     \<and> (\<forall>g h g'. add_got_symbol env g = Some (h, g') \<longrightarrow> links_kept g g')"

text \<open>Recording a global symbol: making it dynamic, and its entry.\<close>

definition made_dynamic :: "check_env \<Rightarrow> nat \<Rightarrow> bool \<Rightarrow> got_state \<Rightarrow> got_state option" where
  "made_dynamic env h for_call g =
     (let g = (if \<not> for_call then upd_sym h (\<lambda>s. s\<lparr>got_only_for_calls := False\<rparr>) g else g)
      in if dynindx (syms g h) = -1
         then ck_record_dyn env h (if ELF_ST_VISIBILITY (st_other (syms g h)) = STV_INTERNAL
                                    \<or> ELF_ST_VISIBILITY (st_other (syms g h)) = STV_HIDDEN then ck_hide env h g else g)
         else Some g)"

definition enter_global :: "nat \<Rightarrow> nat \<Rightarrow> 8 word \<Rightarrow> got_state \<Rightarrow> got_state" where
  "enter_global h b flag g =
     (case htab_find g (gots g ! 0) (global_key b h) of
        Some p \<Rightarrow> upd_ent p (\<lambda>e. e\<lparr>ge_tls_type := ge_tls_type e OR flag\<rparr>) g
      | None \<Rightarrow>
          let g = new_ent 0 ((global_key b h)\<lparr>ge_tls_type := flag\<rparr>) g
          in if flag = 0 then upd_sym h (\<lambda>s. s\<lparr>global_got_area := GGA_NORMAL\<rparr>) g else g)"

lemma record_global_split:
  "mips_elf_record_global_got_symbol (ck_hide env) (ck_record_dyn env) h b for_call flag g =
     map_option (enter_global h b flag) (made_dynamic env h for_call g)"
proof -
  have enter: "(case htab_find g (gots g ! 0) \<lparr>ge_abfd = Some b, ge_symndx = -1, ge_d = D_h h, ge_tls_type = 0, gotidx = -1\<rparr> of
        Some p \<Rightarrow> Some (upd_ent p (\<lambda>e. e\<lparr>ge_tls_type := ge_tls_type e OR flag\<rparr>) g)
      | None \<Rightarrow> Some (if flag = 0
          then upd_sym h (\<lambda>s. s\<lparr>global_got_area := GGA_NORMAL\<rparr>)
            (new_ent 0 (\<lparr>ge_abfd = Some b, ge_symndx = -1, ge_d = D_h h, ge_tls_type = 0, gotidx = -1\<rparr>\<lparr>ge_tls_type := flag\<rparr>) g)
          else new_ent 0 (\<lparr>ge_abfd = Some b, ge_symndx = -1, ge_d = D_h h, ge_tls_type = 0, gotidx = -1\<rparr>\<lparr>ge_tls_type := flag\<rparr>) g))
      = Some (enter_global h b flag g)" for g
    unfolding enter_global_def global_key_def Let_def by (simp split: option.split)
  have opt: "(case x of None \<Rightarrow> None | Some st \<Rightarrow> Some (G st)) = map_option G x" for x :: "got_state option" and G :: "got_state \<Rightarrow> got_state"
    by (cases x) simp_all
  show ?thesis
    unfolding mips_elf_record_global_got_symbol_def made_dynamic_def Let_def enter opt by (rule refl)
qed

lemma made_dynamic_grows:
  assumes "library_ok env" "made_dynamic env h for_call g = Some g'"
  shows "grows_to g g' \<and> gots g' = gots g"
proof -
  define g1 where "g1 = (if \<not> for_call then upd_sym h (\<lambda>s. s\<lparr>got_only_for_calls := False\<rparr>) g else g)"
  have g1: "grows_to g g1 \<and> gots g1 = gots g"
    using grows_upd_sym [of "\<lambda>s. s\<lparr>got_only_for_calls := False\<rparr>" g h] by (simp add: g1_def upd_sym_def)
  have hide: "grows_to g1 (ck_hide env h g1) \<and> gots (ck_hide env h g1) = gots g1"
    and dyn: "ck_record_dyn env h x = Some y \<Longrightarrow> grows_to x y \<and> gots y = gots x" for x y
    using assms(1) by (auto simp: library_ok_def)
  have "grows_to g1 g' \<and> gots g' = gots g1"
    using assms(2) hide dyn grows_to_trans [of g1 "ck_hide env h g1" g']
    unfolding made_dynamic_def g1_def [symmetric] Let_def by (fastforce split: if_splits)
  then show ?thesis
    using g1 grows_to_trans by auto
qed

lemma enter_global_grows:
  assumes "\<not> bit flag 1"
  shows "grows_to g (enter_global h b flag g)"
    and "gots g \<noteq> [] \<Longrightarrow> table_ok g \<Longrightarrow> has_key (enter_global h b flag g) (global_key b h)"
    and "gots g = [] \<Longrightarrow> gots (enter_global h b flag g) = []"
proof -
  let ?k = "global_key b h" and ?n = "new_ent 0 ((global_key b h)\<lparr>ge_tls_type := flag\<rparr>) g"
  have n: "grows_to ?n (if flag = 0 then upd_sym h (\<lambda>s. s\<lparr>global_got_area := GGA_NORMAL\<rparr>) ?n else ?n)"
    by (auto intro: grows_upd_sym)
  have gn: "grows_to g ?n"
    by (rule grows_new_ent(1))
  show grow: "grows_to g (enter_global h b flag g)"
    using grows_upd_ent [OF assms] grows_to_trans [OF gn n] by (simp add: enter_global_def Let_def split: option.split)
  show "gots g = [] \<Longrightarrow> gots (enter_global h b flag g) = []"
    by (simp add: enter_global_def Let_def new_ent_def upd_got_def upd_ent_def upd_sym_def split: option.split)
  show "has_key (enter_global h b flag g) ?k" if g: "gots g \<noteq> []" "table_ok g"
  proof (cases "htab_find g (gots g ! 0) ?k")
    case (Some p)
    then show ?thesis
      using grows_keeps [OF grow g] found_key by blast
  next
    case None
    have "has_key ?n ?k"
      using assms by (intro new_ent_key [OF grows_to_refl g]) (simp_all add: global_key_def is_ldm_def)
    then show ?thesis
      using grows_keeps [OF n] grows_keeps [OF gn g] None by (simp add: enter_global_def Let_def)
  qed
qed

lemma record_global_grows:
  assumes lib: "library_ok env" and flag: "\<not> bit flag 1"
    and r: "mips_elf_record_global_got_symbol (ck_hide env) (ck_record_dyn env) h b for_call flag g = Some g'"
  shows "grows_to g g' \<and> (gots g \<noteq> [] \<and> table_ok g \<longrightarrow> has_key g' (global_key b h)) \<and> (gots g = [] \<longrightarrow> gots g' = [])"
proof -
  obtain g1 where g1: "made_dynamic env h for_call g = Some g1" "g' = enter_global h b flag g1"
    using r by (auto simp: record_global_split)
  note m = made_dynamic_grows [OF lib g1(1)]
  then show ?thesis
    using enter_global_grows [OF flag, of g1 h b] grows_to_trans [of g g1 g'] grows_keeps [of g g1] by (auto simp: g1(2))
qed

section \<open>Steps of the scan\<close>

definition ck_inv :: "check_state \<Rightarrow> bool" where
  "ck_inv st \<longleftrightarrow> (got_made st \<longleftrightarrow> gots (ck_gs st) \<noteq> []) \<and> (got_made st \<longrightarrow> table_ok (ck_gs st))"

definition ck_key :: "got_entry \<Rightarrow> check_state \<Rightarrow> bool" where
  "ck_key k st \<longleftrightarrow> got_made st \<and> has_key (ck_gs st) k"

definition ck_le :: "check_state \<Rightarrow> check_state \<Rightarrow> bool" where
  "ck_le st st' \<longleftrightarrow> links_kept (ck_gs st) (ck_gs st')
     \<and> (ck_inv st \<longrightarrow> ck_inv st' \<and> (got_made st \<longrightarrow> got_made st') \<and> (\<forall>k. ck_key k st \<longrightarrow> ck_key k st'))"

lemma ck_le_refl [simp]: "ck_le st st"
  by (simp add: ck_le_def links_kept_def)

lemma ck_le_trans: "ck_le st st' \<Longrightarrow> ck_le st' st'' \<Longrightarrow> ck_le st st''"
  by (simp add: ck_le_def links_kept_def)

lemma ck_le_tables:
  assumes "grows_to (ck_gs st) (ck_gs st')" "got_made st' = got_made st" "gots (ck_gs st) = [] \<longrightarrow> gots (ck_gs st') = []"
  shows "ck_le st st'"
  using assms by (auto simp: ck_le_def ck_inv_def ck_key_def grows_to_def)

lemma ck_le_same: "ck_gs st' = ck_gs st \<Longrightarrow> got_made st' = got_made st \<Longrightarrow> ck_le st st'"
  by (rule ck_le_tables) simp_all

lemma ck_le_mark:
  assumes "\<And>s. root_type (f s) = root_type s"
  shows "ck_le st (on_tables (upd_sym h f) st)" "ck_le st (mark_sym o' f st)"
proof -
  show upd: "ck_le st (on_tables (upd_sym h f) st)" for h
  proof (rule ck_le_tables)
    show "grows_to (ck_gs st) (ck_gs (on_tables (upd_sym h f) st))"
      using grows_upd_sym [OF assms] by simp
  qed (simp_all add: upd_sym_def)
  show "ck_le st (mark_sym o' f st)"
    using upd by (cases o') (simp_all add: mark_sym_def)
qed

lemma create_got_le:
  assumes "library_ok env"
  shows "chk_all (\<lambda>st'. ck_le st st' \<and> got_made st') (mips_elf_create_got_section env info d st)"
proof (cases "got_made st")
  case True
  then show ?thesis
    by (simp add: mips_elf_create_got_section_def)
next
  case False
  have "ck_le st (st\<lparr>got_made := True, ck_gs := g'\<lparr>gots := [first_got_info]\<rparr>\<rparr>)" if "links_kept (ck_gs st) g'" for g'
  proof -
    have "links_kept g' (g'\<lparr>gots := [first_got_info]\<rparr>)"
      by (rule links_kept_sym) simp
    then show ?thesis
      using that False by (auto simp: ck_le_def links_kept_def ck_inv_def ck_key_def table_ok_def first_got_info_def)
  qed
  moreover have "links_kept (ck_gs st) g'"
    if "add_got_symbol env (ck_gs st) = Some (h, g)"
      "(if shared info then ck_record_dyn env h (upd_sym h (\<lambda>s. s\<lparr>def_regular := True, elf_sym_type := STT_OBJECT\<rparr>) g)
        else Some (upd_sym h (\<lambda>s. s\<lparr>def_regular := True, elf_sym_type := STT_OBJECT\<rparr>) g)) = Some g'" for h g g'
  proof -
    let ?g = "upd_sym h (\<lambda>s. s\<lparr>def_regular := True, elf_sym_type := STT_OBJECT\<rparr>) g"
    have "links_kept (ck_gs st) g" "links_kept g ?g"
      using assms that(1) by (auto simp: library_ok_def upd_sym_def intro: links_kept_sym)
    moreover have "links_kept ?g g'"
      using assms that(2) by (auto simp: library_ok_def grows_to_def links_kept_def split: if_splits)
    ultimately show ?thesis
      by (auto simp: links_kept_def)
  qed
  ultimately show ?thesis
    using False by (auto simp: mips_elf_create_got_section_def Let_def split: option.split prod.split)
qed

lemma rel_dyn_le: "chk_all (ck_le st) (mips_elf_rel_dyn_section env info st)"
  by (auto simp: mips_elf_rel_dyn_section_def ck_le_same split: option.split)

lemma ck_le_allocate: "ck_le st (allocate_one env info st)"
  by (simp add: ck_le_same allocate_one_def)

lemma classify_le:
  assumes "library_ok env"
  shows "chk_all (\<lambda>(c, st'). ck_le st st' \<and> (ELF_R_TYPE (co_bfd co) (r_info rel) \<in> set GOT_TYPES \<longrightarrow> got_made st'))
    (classify_reloc env info co sec rel h st)"
proof (cases "ELF_R_TYPE (co_bfd co) (r_info rel) \<in> set GOT_TYPES")
  case True
  have own: "ck_le st (own_sections co st)"
    by (rule ck_le_same) simp_all
  have "chk_all (\<lambda>st'. ck_le st st' \<and> got_made st')
      (mips_elf_create_got_section env info (the (ck_dynobj (own_sections co st))) (own_sections co st))"
    by (rule chk_all_mono [OF create_got_le [OF assms]]) (use own ck_le_trans in blast)
  then show ?thesis
    unfolding classify_reloc_def Let_def if_P [OF True]
    by (rule chk_all_trans) (simp add: True)
next
  case False
  have ptr: "ck_le st (st\<lparr>pointer_equality_needed := x\<rparr>)" for x
    by (rule ck_le_same) simp_all
  have own: "ck_le st (own_sections co st)"
    by (rule ck_le_same) simp_all
  have stat: "ck_le st' (static_ref h st')" for st'
    by (rule ck_le_mark(2)) simp
  show ?thesis
    unfolding classify_reloc_def Let_def if_not_P [OF False]
    using own stat ck_le_trans [OF ptr stat] False by (auto split: option.split)
qed

lemma local_or_gott_le: "chk_all (ck_le st) (local_or_gott env info co sec rel h st)"
proof (cases h)
  case None
  have "grows_to (ck_gs st) (mips_elf_record_local_got_symbol b s a 0 (ck_gs st))" for b s a
    by (rule record_local_grows) simp
  moreover have "gots g = [] \<longrightarrow> gots (mips_elf_record_local_got_symbol b s a 0 g) = []" for b s a g
    by (auto simp: mips_elf_record_local_got_symbol_def Let_def new_ent_def upd_got_def upd_ent_def split: option.split)
  ultimately have "ck_le st (on_tables (mips_elf_record_local_got_symbol b s a 0) st)" for b s a
    by (intro ck_le_tables) simp_all
  then show ?thesis
    by (simp add: local_or_gott_def None Let_def)
next
  case (Some i)
  have room: "ck_le st st' \<Longrightarrow> ck_le st (st'\<lparr>rel_dyn_size := n\<rparr>)"
    "ck_le st st' \<Longrightarrow> ck_le st (st'\<lparr>rel_dyn_size := n, ck_textrel := True\<rparr>)" for st' n
    by (erule ck_le_trans, rule ck_le_same, simp_all)+
  show ?thesis
    unfolding local_or_gott_def Let_def Some option.case
    by (cases "is_gott_symbol info (syms (ck_gs st) i)")
      (auto intro!: chk_all_trans [OF rel_dyn_le] room simp: allocate_one_def)
qed

text \<open>A step that also leaves a given key in the table.\<close>

definition reserves :: "got_entry option \<Rightarrow> check_state \<Rightarrow> check_state \<Rightarrow> bool" where
  "reserves k st st' \<longleftrightarrow> ck_le st st' \<and> (ck_inv st \<and> got_made st \<longrightarrow> (\<forall>e. k = Some e \<longrightarrow> ck_key e st'))"

lemma reserves_none [simp]: "reserves None st st' \<longleftrightarrow> ck_le st st'"
  by (simp add: reserves_def)

lemma reserves_before: "ck_le st st1 \<Longrightarrow> reserves k st1 st' \<Longrightarrow> reserves k st st'"
  by (auto simp: reserves_def ck_le_def links_kept_def)

lemma reserves_after: "reserves k st st1 \<Longrightarrow> ck_le st1 st' \<Longrightarrow> reserves k st st'"
  by (auto simp: reserves_def ck_le_def links_kept_def)

lemma record_global_le:
  assumes "library_ok env" "\<not> bit flag 1"
  shows "chk_all (reserves (Some (global_key (bfd_id (co_bfd co)) h)) st) (record_global env co h for_call flag st)"
proof (cases "mips_elf_record_global_got_symbol (ck_hide env) (ck_record_dyn env) h (bfd_id (co_bfd co)) for_call flag (ck_gs st)")
  case (Some g)
  note r = record_global_grows [OF assms Some]
  have "ck_le st (st\<lparr>ck_gs := g\<rparr>)"
    using r by (intro ck_le_tables) simp_all
  then show ?thesis
    using r Some by (auto simp: record_global_def reserves_def ck_key_def ck_inv_def)
qed (simp add: record_global_def)

text \<open>The key under which a later phase looks for the entry of a relocation.\<close>

definition wanted_key :: "bfd \<Rightarrow> elf_rela \<Rightarrow> nat option \<Rightarrow> got_entry option" where
  "wanted_key abfd rel h =
     (let t = ELF_R_TYPE abfd (r_info rel)
      in if t \<in> set TLS_TYPES \<and> (h = None \<or> tls_ldm_reloc_p t)
         then (if r_addend rel = 0 then Some (local_key abfd 0 (ELF_R_SYM abfd (r_info rel)) None t) else None)
         else case h of
                None \<Rightarrow> None
              | Some i \<Rightarrow>
                  if t \<in> set TLS_TYPES \<or> call16_reloc_p t \<or> call_hi16_reloc_p t \<or> call_lo16_reloc_p t \<or> got_disp_reloc_p t
                     \<or> (t \<in> set GOT16_TYPES \<and> \<not> got_page_reloc_p t)
                  then Some (global_key (bfd_id abfd) i) else None)"

lemma ck_le_key: "ck_le st st' \<Longrightarrow> ck_inv st \<Longrightarrow> got_made st \<Longrightarrow> ck_inv st' \<and> got_made st' \<and> (ck_key k st \<longrightarrow> ck_key k st')"
  by (simp add: ck_le_def)

lemma record_page_le: "ck_le st (on_tables (record_page_reloc b s a) st)"
proof (rule ck_le_tables)
  show "grows_to (ck_gs st) (ck_gs (on_tables (record_page_reloc b s a) st))"
    unfolding record_page_reloc_def by (simp, rule grows_upd_got) (simp_all add: Let_def split: prod.split)
qed (simp_all add: record_page_reloc_def upd_got_def)

lemma page_addend_le: "chk_all (\<lambda>(a, st'). ck_le st st') (page_addend env co sec index rel st)"
  by (auto simp: page_addend_def Let_def intro: ck_le_same split: option.split)

lemma record_call_le:
  assumes "library_ok env"
  shows "chk_all (reserves (map_option (global_key (bfd_id (co_bfd co))) h) st) (record_call env co rel h st)"
proof (cases h)
  case (Some i)
  have plt: "ck_le st' (on_tables (upd_sym i (\<lambda>s. s\<lparr>needs_plt := True, elf_sym_type := STT_FUNC\<rparr>)) st')" for st'
    by (rule ck_le_mark(1)) simp
  show ?thesis
    unfolding record_call_def Some Let_def option.case
    by (rule chk_all_trans [OF record_global_le [OF assms, where flag = 0]])
      (simp_all add: reserves_after [OF _ plt])
qed (simp add: record_call_def Let_def)

lemma record_got16_le:
  assumes "library_ok env"
  shows "chk_all (\<lambda>(h', st').
      reserves (map_option (global_key (bfd_id (co_bfd co))) (page_symbol env info (ELF_R_TYPE (co_bfd co) (r_info rel)) h st)) st st')
    (record_got16 env info co sec index rel h st)"
proof -
  let ?h = "page_symbol env info (ELF_R_TYPE (co_bfd co) (r_info rel)) h st"
  let ?rec = "chk_bind (page_addend env co sec index rel st)
    (\<lambda>(addend, st). chk_ok (on_tables (record_page_reloc (bfd_id (co_bfd co)) (int (ELF_R_SYM (co_bfd co) (r_info rel))) (sint addend)) st))"
  have "chk_all (ck_le st) ?rec"
    by (rule chk_all_trans [OF page_addend_le]) (auto intro: ck_le_trans [OF _ record_page_le])
  then have page: "chk_all (ck_le st) (if c then ?rec else chk_ok st)" for c
    by simp
  have glob: "chk_all (\<lambda>(h', st2). reserves (map_option (global_key (bfd_id (co_bfd co))) ?h) st st2)
    (case ?h of None \<Rightarrow> chk_ok (None, st1) | Some i \<Rightarrow> chk_bind (record_global env co i False 0 st1) (\<lambda>st. chk_ok (Some i, st)))"
    if "ck_le st st1" for st1
  proof (cases ?h)
    case (Some i)
    show ?thesis
      unfolding Some option.case
      by (rule chk_all_trans [OF record_global_le [OF assms, where flag = 0]]) (simp_all add: reserves_before [OF that])
  qed (simp add: that)
  show ?thesis
    unfolding record_got16_def Let_def by (rule chk_all_trans [OF page glob])
qed

lemma record_tls_le:
  assumes "library_ok env" "ELF_R_TYPE (co_bfd co) (r_info rel) \<in> set TLS_TYPES"
  shows "chk_all (\<lambda>(h', s', st'). reserves (wanted_key (co_bfd co) rel h) st st')
    (record_tls env info co rel h (ELF_R_SYM (co_bfd co) (r_info rel)) st)"
proof -
  let ?t = "ELF_R_TYPE (co_bfd co) (r_info rel)" and ?s = "ELF_R_SYM (co_bfd co) (r_info rel)"
  let ?st = "if tls_gottprel_reloc_p ?t \<and> shared info then st\<lparr>static_tls := True\<rparr> else st"
  have st: "ck_le st ?st"
    by (simp add: ck_le_same)
  have flags: "tls_flag ?t \<in> {0, GOT_TLS_GD, GOT_TLS_LDM, GOT_TLS_IE}"
    "\<not> tls_ldm_reloc_p ?t \<Longrightarrow> \<not> bit (tls_flag ?t) 1"
    "tls_ldm_reloc_p ?t \<longleftrightarrow> tls_flag ?t = GOT_TLS_LDM"
    using assms(2) by (auto simp: tls_flag_def TLS_TYPES_def tls_gd_reloc_p_def tls_ldm_reloc_p_def)
  show ?thesis
  proof (cases "tls_ldm_reloc_p ?t \<or> h = None")
    case True
    let ?n = "if tls_ldm_reloc_p ?t then 0 else ?s"
    let ?rec = "mips_elf_record_local_got_symbol (bfd_id (co_bfd co)) (int ?n) (r_addend rel) (tls_flag ?t)"
    have tls: "TLS_RELOC_P ?t"
      using assms(2) by (auto simp: TLS_TYPES_def TLS_RELOC_P_def)
    have r: "record_tls env info co rel h ?s st = chk_ok (None, ?n, on_tables ?rec ?st)"
      using True by (cases "tls_ldm_reloc_p ?t"; cases h) (simp_all add: record_tls_def Let_def)
    have "gots g = [] \<longrightarrow> gots (?rec g) = []" for g
      by (auto simp: mips_elf_record_local_got_symbol_def Let_def new_ent_def upd_got_def upd_ent_def split: option.split)
    then have le: "ck_le ?st (on_tables ?rec ?st)"
      using record_local_grows [OF flags(1)] by (intro ck_le_tables) simp_all
    have "ck_key k (on_tables ?rec ?st)" if "ck_inv st" "got_made st" "wanted_key (co_bfd co) rel h = Some k" for k
    proof -
      have k: "k = local_key (co_bfd co) 0 ?s None ?t" "r_addend rel = 0"
        using that(3) True assms(2) by (auto simp: wanted_key_def Let_def split: if_splits)
      have "has_key (?rec (ck_gs st)) k"
        using that(1,2) k(2) flags by (intro record_local_key) (auto simp: k(1) local_key_def tls ck_inv_def is_ldm_def)
      then show ?thesis
        using that(2) by (simp add: ck_key_def)
    qed
    then show ?thesis
      using ck_le_trans [OF st le] by (auto simp: r reserves_def)
  next
    case False
    then obtain i where i: "h = Some i" by auto
    let ?mark = "on_tables (upd_sym i (\<lambda>s. s\<lparr>sym_tls_type := sym_tls_type s OR tls_flag ?t\<rparr>)) ?st"
    have "ck_le ?st ?mark"
      by (rule ck_le_mark(1)) simp
    then have le: "ck_le st ?mark"
      by (rule ck_le_trans [OF st])
    have w: "wanted_key (co_bfd co) rel h = Some (global_key (bfd_id (co_bfd co)) i)"
      using False i assms(2) by (simp add: wanted_key_def Let_def)
    have r: "record_tls env info co rel h ?s st =
        chk_bind (record_global env co i False (tls_flag ?t) ?mark) (\<lambda>st. chk_ok (h, ?s, st))"
      using False by (simp add: record_tls_def Let_def i)
    show ?thesis
      unfolding r
      by (rule chk_all_trans [OF record_global_le [OF assms(1) flags(2)]])
        (use False in \<open>simp_all add: w reserves_before [OF le]\<close>)
  qed
qed

lemma record_dynamic_le: "chk_all (ck_le st) (record_dynamic env info sec h st)"
proof -
  have room: "ck_le st' (let st = allocate_one env info st' in if MIPS_ELF_READONLY_SECTION sec then st\<lparr>ck_textrel := True\<rparr> else st)" for st'
    by (rule ck_le_same) (simp_all add: Let_def allocate_one_def)
  have mark: "ck_le st' (on_tables (upd_sym i (\<lambda>s. s\<lparr>possibly_dynamic_relocs := possibly_dynamic_relocs s + 1,
                                readonly_reloc := readonly_reloc s \<or> MIPS_ELF_READONLY_SECTION sec\<rparr>)) st')" for st' i
    by (rule ck_le_mark(1)) simp
  show ?thesis
    unfolding record_dynamic_def
    by (rule chk_all_trans [OF rel_dyn_le]) (use ck_le_trans room mark in \<open>auto split: option.split\<close>)
qed

text \<open>The kinds of relocations that reserve an entry.\<close>

lemma call_types:
  assumes "call16_reloc_p t \<or> call_hi16_reloc_p t \<or> call_lo16_reloc_p t"
  shows "t \<notin> set TLS_TYPES \<and> t \<in> set GOT_TYPES"
  using assms unfolding call16_reloc_p_def call_hi16_reloc_p_def call_lo16_reloc_p_def
  by (elim disjE) (simp_all add: TLS_TYPES_def GOT_TYPES_def)

lemma got_types:
  assumes "t \<in> set GOT16_TYPES \<or> got_disp_reloc_p t"
  shows "t \<notin> set TLS_TYPES \<and> t \<in> set GOT_TYPES"
proof -
  have "list_all (\<lambda>t. t \<notin> set TLS_TYPES \<and> t \<in> set GOT_TYPES) (R_MIPS_GOT_DISP # R_MICROMIPS_GOT_DISP # GOT16_TYPES)"
    by (simp add: TLS_TYPES_def GOT_TYPES_def GOT16_TYPES_def)
  then show ?thesis
    using assms by (auto simp: list_all_iff got_disp_reloc_p_def)
qed

lemma tls_types: "set TLS_TYPES \<subseteq> set GOT_TYPES"
  by (simp add: TLS_TYPES_def GOT_TYPES_def)

lemma wanted_call:
  assumes "call16_reloc_p (ELF_R_TYPE abfd (r_info rel)) \<or> call_hi16_reloc_p (ELF_R_TYPE abfd (r_info rel))
    \<or> call_lo16_reloc_p (ELF_R_TYPE abfd (r_info rel))"
  shows "wanted_key abfd rel h = map_option (global_key (bfd_id abfd)) h"
  using assms call_types [OF assms] by (cases h) (auto simp: wanted_key_def Let_def)

lemma wanted_got16:
  assumes "ELF_R_TYPE abfd (r_info rel) \<in> set GOT16_TYPES \<or> got_disp_reloc_p (ELF_R_TYPE abfd (r_info rel))"
    "wanted_key abfd rel h \<noteq> None"
  shows "wanted_key abfd rel h = map_option (global_key (bfd_id abfd)) (page_symbol env info (ELF_R_TYPE abfd (r_info rel)) h st)"
proof -
  let ?t = "ELF_R_TYPE abfd (r_info rel)"
  have page: "got_page_reloc_p ?t \<longrightarrow> \<not> (call16_reloc_p ?t \<or> call_hi16_reloc_p ?t \<or> call_lo16_reloc_p ?t \<or> got_disp_reloc_p ?t)"
    by (auto simp: got_page_reloc_p_def got_disp_reloc_p_def call16_reloc_p_def call_hi16_reloc_p_def call_lo16_reloc_p_def)
  show ?thesis
    using assms(2) got_types [OF assms(1)] page
    by (cases h) (auto simp: wanted_key_def Let_def page_symbol_def split: if_split_asm)
qed

lemma wanted_other:
  assumes "\<not> (call16_reloc_p (ELF_R_TYPE abfd (r_info rel)) \<or> call_hi16_reloc_p (ELF_R_TYPE abfd (r_info rel))
      \<or> call_lo16_reloc_p (ELF_R_TYPE abfd (r_info rel)))"
    "\<not> (ELF_R_TYPE abfd (r_info rel) \<in> set GOT16_TYPES \<or> got_disp_reloc_p (ELF_R_TYPE abfd (r_info rel)))"
    "ELF_R_TYPE abfd (r_info rel) \<notin> set TLS_TYPES"
  shows "wanted_key abfd rel h = None"
  using assms by (simp add: wanted_key_def Let_def split: option.split)

lemma wanted_needs_got: "wanted_key abfd rel h \<noteq> None \<Longrightarrow> ELF_R_TYPE abfd (r_info rel) \<in> set GOT_TYPES"
  using call_types [of "ELF_R_TYPE abfd (r_info rel)"] got_types [of "ELF_R_TYPE abfd (r_info rel)"] tls_types
    wanted_other [of abfd rel h] by (metis subsetD)

lemma record_reloc_le:
  assumes "library_ok env"
  shows "chk_all (\<lambda>(h', s', st'). reserves (wanted_key (co_bfd co) rel h) st st')
    (record_reloc env info co sec index rel c h (ELF_R_SYM (co_bfd co) (r_info rel)) st)"
proof -
  let ?t = "ELF_R_TYPE (co_bfd co) (r_info rel)"
  let ?call = "call16_reloc_p ?t \<or> call_hi16_reloc_p ?t \<or> call_lo16_reloc_p ?t"
  let ?got = "?t \<in> set GOT16_TYPES \<or> got_disp_reloc_p ?t"
  let ?P = "\<lambda>(h', s', st'). reserves (wanted_key (co_bfd co) rel h) st st'"
  consider "?call" | "\<not> ?call" "?got" | "\<not> ?call" "\<not> ?got" "?t \<in> set TLS_TYPES"
    | "\<not> ?call" "\<not> ?got" "?t \<notin> set TLS_TYPES"
    by blast
  then show ?thesis
  proof cases
    case 1
    show ?thesis
      unfolding record_reloc_def Let_def if_P [OF 1]
      by (rule chk_all_trans [OF record_call_le [OF assms]]) (simp add: wanted_call [OF 1])
  next
    case 2
    have "reserves (wanted_key (co_bfd co) rel h) st st'"
      if "reserves (map_option (global_key (bfd_id (co_bfd co))) (page_symbol env info ?t h st)) st st'" for st'
      using that wanted_got16 [OF 2(2), of h env info st]
      by (cases "wanted_key (co_bfd co) rel h") (auto simp: reserves_def)
    then show ?thesis
      unfolding record_reloc_def Let_def if_not_P [OF 2(1)] if_P [OF 2(2)]
      by (intro chk_all_trans [OF record_got16_le [OF assms]]) (auto split: prod.split)
  next
    case 3
    show ?thesis
      unfolding record_reloc_def Let_def if_not_P [OF 3(1)] if_not_P [OF 3(2)] if_P [OF 3(3)]
      by (rule record_tls_le [OF assms 3(3)])
  next
    case 4
    have w: "wanted_key (co_bfd co) rel h = None"
      by (rule wanted_other [OF 4])
    have count: "ck_le st st' \<Longrightarrow> ck_le st (count_crinfo env (co_bfd co) st')" for st'
      by (erule ck_le_trans) (simp add: count_crinfo_def ck_le_same)
    have dyn: "chk_all (\<lambda>(h', s', st'). ck_le st st')
        (chk_bind (record_dynamic env info sec h st) (\<lambda>st. chk_ok (h, n, count_crinfo env (co_bfd co) st)))" for h n
      by (rule chk_all_trans [OF record_dynamic_le]) (simp add: count)
    show ?thesis
      unfolding record_reloc_def Let_def if_not_P [OF 4(1)] if_not_P [OF 4(2)] if_not_P [OF 4(3)]
      using dyn by (auto simp: w count)
  qed
qed

section \<open>The whole scan\<close>

lemma mark_stubs_le: "ck_le st (mark_stubs info sec t h st)"
proof -
  have a: "ck_le st' (mark_sym h (\<lambda>s. s\<lparr>no_fn_stub := True\<rparr>) st')" and b: "ck_le st' (mark_sym h (\<lambda>s. s\<lparr>need_fn_stub := True\<rparr>) st')" for st'
    by (rule ck_le_mark(2); simp)+
  show ?thesis
    using a b ck_le_trans [OF a b] by (simp add: mark_stubs_def Let_def)
qed

lemma refuse_absolute_same: "chk_all (\<lambda>st'. st' = st) (refuse_absolute info abfd t h s st)"
  by (simp add: refuse_absolute_def Let_def split: option.split)

lemma check_reloc_le:
  assumes "library_ok env"
  shows "chk_all (\<lambda>st'. \<exists>h. reloc_symbol co (ELF_R_SYM (co_bfd co) (r_info rel)) st = Some (Inr h)
      \<and> ck_le st st' \<and> (ck_inv st \<longrightarrow> (\<forall>k. wanted_key (co_bfd co) rel h = Some k \<longrightarrow> ck_key k st')))
    (check_reloc env info co sec index rel st)"
proof (cases "\<exists>h. reloc_symbol co (ELF_R_SYM (co_bfd co) (r_info rel)) st = Some (Inr h)")
  case False
  then show ?thesis
    unfolding check_reloc_def Let_def by (rule chk_all_bind_no)
next
  case True
  then obtain h where h: "reloc_symbol co (ELF_R_SYM (co_bfd co) (r_info rel)) st = Some (Inr h)" ..
  let ?t = "ELF_R_TYPE (co_bfd co) (r_info rel)" and ?k = "wanted_key (co_bfd co) rel h"
  let ?la = "\<lambda>st. case h of Some i \<Rightarrow>
      if mips_elf_relocation_needs_la25_stub (co_bfd co) ?t (ELF_ST_IS_MIPS16 (st_other (syms (ck_gs st) i)))
      then on_tables (upd_sym i (\<lambda>s. s\<lparr>has_nonpic_branches := True\<rparr>)) st else st | None \<Rightarrow> st"
  have "ck_le st' (on_tables (upd_sym i (\<lambda>s. s\<lparr>has_nonpic_branches := True\<rparr>)) st')" for st' i
    by (rule ck_le_mark(1)) simp
  then have la: "ck_le st' (?la st')" for st'
    by (simp split: option.split)
  have tail: "chk_all (\<lambda>st'. ck_le st st' \<and> (ck_inv st \<longrightarrow> (\<forall>k. ?k = Some k \<longrightarrow> ck_key k st')))
      (refuse_absolute info (co_bfd co) ?t h' s' (mark_stubs info sec ?t h' st3))"
    if st1: "ck_le st st1 \<and> (?t \<in> set GOT_TYPES \<longrightarrow> got_made st1)" and "ck_le st1 st2" "reserves ?k (?la st2) st3" for h' s' st1 st2 st3
  proof -
    have r: "reserves ?k st1 (mark_stubs info sec ?t h' st3)"
      by (rule reserves_after [OF reserves_before [OF that(2) reserves_before [OF la that(3)]] mark_stubs_le])
    then have "ck_le st (mark_stubs info sec ?t h' st3)"
      using st1 ck_le_trans [of st st1 "mark_stubs info sec ?t h' st3"] by (simp add: reserves_def)
    moreover have "ck_key k (mark_stubs info sec ?t h' st3)" if "ck_inv st" "?k = Some k" for k
      using r that st1 wanted_needs_got [of "co_bfd co" rel h]
      by (auto simp: reserves_def ck_le_def)
    ultimately show ?thesis
      by (intro chk_all_mono [OF refuse_absolute_same]) auto
  qed
  have "chk_all (\<lambda>st'. ck_le st st' \<and> (ck_inv st \<longrightarrow> (\<forall>k. ?k = Some k \<longrightarrow> ck_key k st')))
      (check_reloc env info co sec index rel st)"
    unfolding check_reloc_def Let_def h chk_bind_def [of "Some (Inr h)"] option.case sum.case
    by (rule chk_all_trans2 [OF classify_le [OF assms]], rule chk_all_trans [OF local_or_gott_le],
        rule chk_all_trans3 [OF record_reloc_le [OF assms]], rule tail)
  then show ?thesis
    using h by simp
qed

lemma check_all_le:
  assumes "library_ok env"
  shows "chk_all (\<lambda>st'. ck_le st st' \<and> (ck_inv st \<longrightarrow>
      (\<forall>rel \<in> set rels. \<exists>h. reloc_symbol co (ELF_R_SYM (co_bfd co) (r_info rel)) st' = Some (Inr h)
         \<and> (\<forall>k. wanted_key (co_bfd co) rel h = Some k \<longrightarrow> ck_key k st'))))
    (check_all env info co sec index rels st)"
proof (induction rels arbitrary: index st)
  case (Cons rel rels)
  have sym: "reloc_symbol co n st' = Some (Inr h)" if "reloc_symbol co n st = Some (Inr h)" "ck_le st st'" for n h st st'
  proof (cases "hash_of co (n - extsymoff co)")
    case (Some i)
    have "follow_links (syms (ck_gs st)) i = Some x \<Longrightarrow> follow_links (syms (ck_gs st')) i = Some x" for x
      using that(2) by (simp add: ck_le_def links_kept_def)
    then show ?thesis
      using that(1) Some
      by (cases "follow_links (syms (ck_gs st)) i") (simp_all add: reloc_symbol_def chk_ok_def chk_fail_def split: if_splits)
  qed (use that(1) in \<open>auto simp: reloc_symbol_def split: if_splits\<close>)
  show ?case
    unfolding check_all.simps
  proof (rule chk_all_trans [OF check_reloc_le [OF assms]], elim exE conjE)
    fix st1 h
    assume h: "reloc_symbol co (ELF_R_SYM (co_bfd co) (r_info rel)) st = Some (Inr h)" and le: "ck_le st st1"
      and k: "ck_inv st \<longrightarrow> (\<forall>k. wanted_key (co_bfd co) rel h = Some k \<longrightarrow> ck_key k st1)"
    show "chk_all (\<lambda>st'. ck_le st st' \<and> (ck_inv st \<longrightarrow>
      (\<forall>rel \<in> set (rel # rels). \<exists>h. reloc_symbol co (ELF_R_SYM (co_bfd co) (r_info rel)) st' = Some (Inr h)
         \<and> (\<forall>k. wanted_key (co_bfd co) rel h = Some k \<longrightarrow> ck_key k st'))))
      (check_all env info co sec (Suc index) rels st1)"
    proof (rule chk_all_mono [OF Cons.IH], elim conjE)
      fix st2
      assume le2: "ck_le st1 st2" and tl: "ck_inv st1 \<longrightarrow>
        (\<forall>rel \<in> set rels. \<exists>h. reloc_symbol co (ELF_R_SYM (co_bfd co) (r_info rel)) st2 = Some (Inr h)
         \<and> (\<forall>k. wanted_key (co_bfd co) rel h = Some k \<longrightarrow> ck_key k st2))"
      have le3: "ck_le st st2"
        by (rule ck_le_trans [OF le le2])
      have "ck_inv st \<longrightarrow> ck_inv st1 \<and> (\<forall>k. wanted_key (co_bfd co) rel h = Some k \<longrightarrow> ck_key k st2)"
        using k le le2 by (simp add: ck_le_def)
      then show "ck_le st st2 \<and> (ck_inv st \<longrightarrow>
        (\<forall>rel \<in> set (rel # rels). \<exists>h. reloc_symbol co (ELF_R_SYM (co_bfd co) (r_info rel)) st2 = Some (Inr h)
           \<and> (\<forall>k. wanted_key (co_bfd co) rel h = Some k \<longrightarrow> ck_key k st2)))"
        using le3 sym [OF h le3] tl by simp
    qed
  qed
qed simp

lemma stub_section_le: "chk_all (\<lambda>(d, st'). ck_le st st') (check_stub_section env co sec relocs st)"
proof -
  have same: "ck_le st (st\<lparr>ck_excluded := x\<rparr>)" "ck_le st (st\<lparr>ck_keep := x, ck_local_stubs := y\<rparr>)"
    "ck_le st (st\<lparr>ck_keep := x, ck_local_call_stubs := y\<rparr>)" for x y
    by (rule ck_le_same; simp)+
  have keep: "ck_le st (st\<lparr>ck_keep := x, ck_gs := upd_sym h f (ck_gs st), mips16_stubs_seen := True\<rparr>)"
    if "\<And>s. root_type (f s) = root_type s" for h f x
    by (rule ck_le_trans [OF ck_le_mark(1) [OF that]], rule ck_le_same) simp_all
  have any: "chk_all (\<lambda>_. True) r" for r :: "'a chk"
    by (simp add: chk_all_def split: option.split sum.split)
  have fn: "chk_all (\<lambda>(d, st'). ck_le st st') (check_fn_stub co sec n st)"
    and call: "chk_all (\<lambda>(d, st'). ck_le st st') (check_call_stub co sec n st)" for n
    unfolding check_fn_stub_def check_call_stub_def Let_def
    by (auto simp: same keep split: option.split intro!: chk_all_trans [OF any])
  show ?thesis
    using fn call by (simp add: check_stub_section_def Let_def)
qed

lemma scan_le:
  assumes "library_ok env" "ck_inv st" "bfd_mips_elf_check_relocs env info co sec relocs st = Some (Inr st')" "\<not> relocatable info"
    and "check_stub_section env co sec (take (reloc_count co sec * int_rels_per_ext_rel (ck_senv env)) relocs) st = Some (Inr (False, st1))"
    and rel: "rel \<in> set (take (reloc_count co sec * int_rels_per_ext_rel (ck_senv env)) relocs)"
  shows "ck_le st st'"
    and "\<exists>h. reloc_symbol co (ELF_R_SYM (co_bfd co) (r_info rel)) st' = Some (Inr h)
      \<and> (\<forall>k. wanted_key (co_bfd co) rel h = Some k \<longrightarrow> ck_key k st')"
proof -
  let ?rels = "take (reloc_count co sec * int_rels_per_ext_rel (ck_senv env)) relocs" and ?st1 = "st1\<lparr>ck_contents := None\<rparr>"
  have all: "check_all env info co sec 0 ?rels ?st1 = Some (Inr st')"
    using assms(3) by (simp add: bfd_mips_elf_check_relocs_def assms(4,5) chk_bind_def Let_def)
  have st1: "ck_le st ?st1"
    using ck_le_trans [OF _ ck_le_same, of st st1 "st1\<lparr>ck_contents := None\<rparr>"] chk_allD [OF stub_section_le assms(5)] by simp
  note r = chk_allD [OF check_all_le [OF assms(1)] all]
  show "ck_le st st'"
    using ck_le_trans [OF st1] r by blast
  have "ck_inv ?st1"
    using st1 assms(2) by (simp add: ck_le_def)
  then show "\<exists>h. reloc_symbol co (ELF_R_SYM (co_bfd co) (r_info rel)) st' = Some (Inr h)
      \<and> (\<forall>k. wanted_key (co_bfd co) rel h = Some k \<longrightarrow> ck_key k st')"
    using r rel by blast
qed

text \<open>
  C10.  After a successful scan of a section that is kept, every relocation scanned has a symbol that resolves, and these entries are in the master
  table: for a call, \<^verbatim>\<open>%got\<close>, \<^verbatim>\<open>%got_disp\<close> or thread-local relocation against a global symbol the global entry of the symbol, and for a
  thread-local one against a local symbol or against the module the entry that the final link looks up, if the relocation has addend 0 (with another addend a
  local entry may not be found).  Other relocations against local symbols reserve page entries and slots, of which nothing is said here.
  Entries that were there before, for this object or another, stay, and every symbol resolves to what it resolved to.
  It is assumed that hiding a symbol and making it dynamic do not touch the tables.
\<close>

theorem scan_reserves_entries:
  assumes "library_ok env" "ck_inv st" "bfd_mips_elf_check_relocs env info co sec relocs st = Some (Inr st')" "\<not> relocatable info"
    and "check_stub_section env co sec (take (reloc_count co sec * int_rels_per_ext_rel (ck_senv env)) relocs) st = Some (Inr (False, st1))"
    and "rel \<in> set (take (reloc_count co sec * int_rels_per_ext_rel (ck_senv env)) relocs)"
  shows "(\<exists>h. reloc_symbol co (ELF_R_SYM (co_bfd co) (r_info rel)) st' = Some (Inr h)
      \<and> (\<forall>k. wanted_key (co_bfd co) rel h = Some k \<longrightarrow> got_made st' \<and> htab_find (ck_gs st') (gots (ck_gs st') ! 0) k \<noteq> None))
    \<and> (\<forall>k. got_made st \<and> htab_find (ck_gs st) (gots (ck_gs st) ! 0) k \<noteq> None
      \<longrightarrow> htab_find (ck_gs st') (gots (ck_gs st') ! 0) k \<noteq> None)
    \<and> links_kept (ck_gs st) (ck_gs st') \<and> ck_inv st'"
  using scan_le [OF assms] assms(2) by (simp add: ck_le_def ck_key_def has_key_def)

definition example_check_env :: check_env where
  "example_check_env =
     \<lparr>ck_senv = example_senv, nocopyreloc = False, symbolic = False, rel_entry_size = 8, rela_entry_size = 12, crinfo_size = 4,
      ck_hide = \<lambda>_ g. g, ck_record_dyn = \<lambda>_ g. Some g, make_section = \<lambda>_ _. True, add_got_symbol = \<lambda>g. Some (0, g),
      gc_record_vtinherit = \<lambda>_ _ _. True, gc_record_vtentry = \<lambda>_ _ _. True\<rparr>"

definition example_check_object :: check_object where
  "example_check_object =
     \<lparr>co_io = example_object, sym_count = 3, null_hash = \<lambda>_. False, obj_sections = [text_section], reloc_count = \<lambda>_. 1,
      read_relocs = \<lambda>_. None, read_contents = \<lambda>_. None\<rparr>"

definition example_check_state :: check_state where
  "example_check_state =
     \<lparr>ck_gs = \<lparr>ents = [], gots = [], sgot_contents = [], rel_dyn = [], syms = \<lambda>_. example_sym\<rparr>, ck_dynobj = None, got_made = False,
      rel_dyn_made = False, rel_dyn_size = (0, 0), ck_textrel = False, static_tls = False, compact_rel_size = 0,
      mips16_stubs_seen = False, pointer_equality_needed = {}, ck_local_stubs = \<lambda>_. None, ck_local_call_stubs = \<lambda>_. None,
      ck_excluded = {}, ck_keep = {}, ck_contents = None\<rparr>"

text \<open>A call through the GOT to symbol 1.\<close>

definition example_call :: elf_rela where
  "example_call = \<lparr>r_offset = 4, r_info = 0x50b, r_addend = 0\<rparr>"

lemma example_library_ok: "library_ok example_check_env"
  by (simp add: library_ok_def example_check_env_def links_kept_def)

lemma example_type:
  "ELF_R_TYPE (co_bfd example_check_object) (r_info example_call) = R_MIPS_CALL16"
  "ELF_R_SYM (co_bfd example_check_object) (r_info example_call) = 5"
  "take (reloc_count example_check_object text_section * int_rels_per_ext_rel (ck_senv example_check_env)) [example_call] = [example_call]"
  by (simp_all add: example_call_def example_check_object_def example_object_def le_bfd_def ELF_R_TYPE_def ELF_R_SYM_def
      ABI_64_P_def bit_masks example_check_env_def example_senv_def)

lemma example_stub:
  "check_stub_section example_check_env example_check_object text_section [example_call] example_check_state
    = chk_ok (False, example_check_state)"
  by (simp add: check_stub_section_def text_section_def FN_STUB_P_def CALL_STUB_P_def CALL_FP_STUB_P_def)

lemma example_call_symbol:
  "syms (ck_gs st) 1 = example_sym \<Longrightarrow> reloc_symbol example_check_object 5 st = chk_ok (Some 1)"
  by (simp add: reloc_symbol_def extsymoff_def hash_of_def example_check_object_def example_object_def follow_links.simps
      example_sym_def)

declare follow_links.simps [code]

lemma example_scan:
  "case bfd_mips_elf_check_relocs example_check_env example_info example_check_object text_section [example_call]
     example_check_state of Some (Inr st') \<Rightarrow> syms (ck_gs st') 1 = (syms (ck_gs st') 1) \<lparr>needs_plt := True\<rparr> | _ \<Rightarrow> False"
  by code_simp

theorem scan_reserves_entries_witness:
  "\<exists>st'. bfd_mips_elf_check_relocs example_check_env example_info example_check_object text_section [example_call]
      example_check_state = Some (Inr st')
     \<and> (\<exists>h. reloc_symbol example_check_object 5 st' = Some (Inr h)
        \<and> (\<forall>k. wanted_key le_bfd example_call h = Some k \<longrightarrow> htab_find (ck_gs st') (gots (ck_gs st') ! 0) k \<noteq> None))"
proof -
  obtain st' where run: "bfd_mips_elf_check_relocs example_check_env example_info example_check_object text_section [example_call]
      example_check_state = Some (Inr st')"
    using example_scan by (auto split: option.splits sum.splits)
  have "ck_inv example_check_state" "\<not> relocatable example_info" "co_bfd example_check_object = le_bfd"
    by (simp_all add: ck_inv_def example_check_state_def example_info_def example_check_object_def example_object_def)
  then show ?thesis
    using scan_reserves_entries [OF example_library_ok _ run, where rel = example_call and ?st1.0 = example_check_state]
      example_stub run by (simp add: example_type chk_ok_def example_type(2) [unfolded \<open>co_bfd example_check_object = le_bfd\<close>]) blast
qed

section \<open>Thread-local entries of local symbols\<close>

lemma tls_type_flags:
  assumes "t \<in> set TLS_TYPES"
  shows "TLS_RELOC_P t" "tls_flag t \<in> {0, GOT_TLS_GD, GOT_TLS_LDM, GOT_TLS_IE}" "tls_flag t \<noteq> 0"
    "tls_ldm_reloc_p t \<longleftrightarrow> tls_flag t = GOT_TLS_LDM"
  using assms by (auto simp: tls_flag_def TLS_TYPES_def TLS_RELOC_P_def tls_gd_reloc_p_def tls_ldm_reloc_p_def)

lemma has_key_upd_got:
  assumes "\<And>i. got_entries (f i) = got_entries i" "\<And>i. got_multi (f i) = got_multi i" "gots g \<noteq> []"
  shows "has_key (upd_got 0 f g) k \<longleftrightarrow> has_key g k" "table_ok (upd_got 0 f g) \<longleftrightarrow> table_ok g"
  using assms by (simp_all add: has_key_iff upd_got_def got_eq_def table_ok_def)

lemma has_key_new_ent:
  assumes "gots g \<noteq> []" "table_ok g"
  shows "has_key (new_ent 0 e g) k \<longleftrightarrow> has_key g k \<or> got_eq (gots g ! 0) e k"
  using assms by (auto simp: has_key_iff new_ent_def upd_got_def got_eq_def table_ok_def nth_append)

lemma has_key_upd_ent:
  assumes "\<not> bit flag 1" "table_ok g"
  shows "has_key (upd_ent p (\<lambda>e. e\<lparr>ge_tls_type := ge_tls_type e OR flag\<rparr>) g) k \<longleftrightarrow> has_key g k"
proof -
  let ?g = "upd_ent p (\<lambda>e. e\<lparr>ge_tls_type := ge_tls_type e OR flag\<rparr>) g"
  have "got_eq (gots g ! 0) (ents ?g ! q) k = got_eq (gots g ! 0) (ents g ! q) k" if "q \<in> set (got_entries (gots g ! 0))" for q
    using that assms by (intro got_eq_same; cases "q = p") (simp_all add: upd_ent_def is_ldm_def bit_simps table_ok_def)
  then show ?thesis
    by (simp add: has_key_iff upd_ent_def)
qed

lemma other_addend_not_found:
  assumes "TLS_RELOC_P t" "\<not> tls_ldm_reloc_p t" "a \<noteq> 0" "flag \<in> {GOT_TLS_GD, GOT_TLS_IE}"
  shows "\<not> got_eq i \<lparr>ge_abfd = Some b, ge_symndx = int s, ge_d = D_addend a, ge_tls_type = flag, gotidx = n\<rparr> (local_key abfd v s None t)"
  using assms
  by (auto simp: got_eq_def mips_elf_got_entry_eq_def mips_elf_multi_got_entry_eq_def local_key_def)

text \<open>
  C38.  An entry of a general-dynamic or initial-exec relocation against a local symbol is recorded under the addend of the relocation but
  looked up with addend 0: if the addend is not 0, and no other relocation of the object recorded the symbol with addend 0, the
  search at relocation time finds nothing.
\<close>

theorem local_tls_addend_lost:
  assumes "t \<in> set TLS_TYPES" "\<not> tls_ldm_reloc_p t" "a \<noteq> 0" "bfd2got (gots g ! 0) = None" "gots g \<noteq> []" "table_ok g"
    and "htab_find g (gots g ! 0) (local_key abfd 0 s None t) = None"
  shows "fst (mips_elf_create_local_got_entry info obfd abfd 0 s None t
      (mips_elf_record_local_got_symbol (bfd_id abfd) (int s) a (tls_flag t) g)) = None"
proof -
  let ?k = "local_key abfd 0 s None t" and ?g = "mips_elf_record_local_got_symbol (bfd_id abfd) (int s) a (tls_flag t) g"
  let ?e = "\<lparr>ge_abfd = Some (bfd_id abfd), ge_symndx = int s, ge_d = D_addend a, ge_tls_type = tls_flag t, gotidx = -1\<rparr>"
  have flag: "tls_flag t \<in> {GOT_TLS_GD, GOT_TLS_IE}"
    using tls_type_flags [OF assms(1)] assms(2) by (auto simp: tls_flag_def)
  have no: "\<not> has_key g ?k"
    using assms(7) by (simp add: has_key_def)
  have kept: "bfd2got (gots ?g ! 0) = None"
    using assms(4,5) by (auto simp: mips_elf_record_local_got_symbol_def Let_def new_ent_def upd_got_def upd_ent_def split: option.split)
  note upd = has_key_upd_got [OF _ _ assms(5)]
  have ne: "gots (upd_got 0 f g) \<noteq> []" for f
    using assms(5) by (simp add: upd_got_def)
  have eq: "\<not> got_eq i ?e ?k" for i
    by (rule other_addend_not_found [OF tls_type_flags(1) [OF assms(1)] assms(2,3) flag])
  have "\<not> has_key ?g ?k"
  proof (cases "htab_find g (gots g ! 0) ?e")
    case None
    show ?thesis
      unfolding mips_elf_record_local_got_symbol_def Let_def None option.case
      using flag no eq assms(6) by (auto simp: has_key_new_ent upd ne)
  next
    case (Some p)
    show ?thesis
      unfolding mips_elf_record_local_got_symbol_def Let_def Some option.case
      using flag no assms(6) by (auto simp: has_key_upd_ent upd)
  qed
  then show ?thesis
    using kept tls_type_flags(1) [OF assms(1)]
    by (simp add: mips_elf_create_local_got_entry_def mips_elf_got_for_ibfd_def has_key_def Let_def)
qed

theorem local_tls_addend_lost_witness:
  "fst (mips_elf_create_local_got_entry example_info le_bfd le_bfd 0 3 None R_MIPS_TLS_GD
      (mips_elf_record_local_got_symbol 0 3 8 GOT_TLS_GD fresh_got)) = None"
  using local_tls_addend_lost [of R_MIPS_TLS_GD 8 fresh_got le_bfd 3 example_info le_bfd]
  by (simp add: TLS_TYPES_def tls_ldm_reloc_p_def fresh_got_def example_got_def table_ok_def htab_find_def tls_flag_def
      tls_gd_reloc_p_def le_bfd_def)

end
