(* ===== verification/Relax.thy ===== *)
theory Relax
  imports Shuffle GotBuild
begin

text \<open>
  Relaxation of microMIPS code (\<^verbatim>\<open>_bfd_mips_elf_relax_section\<close>): 32-bit instructions are
  replaced by shorter ones, a pair of instructions by one, and the bytes that
  become free are deleted, with relocations and symbols moved.  The last section is the
  conversion of jumps through a register into branches (\<^verbatim>\<open>_bfd_mips_relax_section\<close>).
\<close>

section \<open>Instruction descriptions\<close>

record opcode_descriptor =
  op_match :: vma
  op_mask :: vma

abbreviation descr :: "vma \<Rightarrow> vma \<Rightarrow> opcode_descriptor" where
  "descr m k \<equiv> \<lparr>op_match = m, op_mask = k\<rparr>"

abbreviation (input) RA :: vma where "RA \<equiv> 31"

definition OP32_SREG :: "vma \<Rightarrow> vma" where "OP32_SREG opcode = drop_bit 16 opcode AND 0x1f"
definition OP32_TREG :: "vma \<Rightarrow> vma" where "OP32_TREG opcode = drop_bit 21 opcode AND 0x1f"

definition OP16_VALID_REG :: "vma \<Rightarrow> bool" where
  "OP16_VALID_REG r \<longleftrightarrow> 2 \<le> r \<and> r \<le> 7 \<or> 16 \<le> r \<and> r \<le> 17"

definition b_insns_32 :: "opcode_descriptor list" where
  "b_insns_32 = [descr 0x40400000 0xffff0000, descr 0x94000000 0xffff0000]"

definition bc_insn_32 :: opcode_descriptor where "bc_insn_32 = descr 0x42800000 0xfec30000"
definition bz_insn_32 :: opcode_descriptor where "bz_insn_32 = descr 0x40000000 0xff200000"
definition bzal_insn_32 :: opcode_descriptor where "bzal_insn_32 = descr 0x40200000 0xffa00000"
definition beq_insn_32 :: opcode_descriptor where "beq_insn_32 = descr 0x94000000 0xdc000000"
definition b_insn_16 :: opcode_descriptor where "b_insn_16 = descr 0xcc00 0xfc00"
definition bz_insn_16 :: opcode_descriptor where "bz_insn_16 = descr 0x8c00 0xdc00"

text \<open>In the following tables the instruction for equality comes first.\<close>

definition BZC32_REG_FIELD :: "vma \<Rightarrow> vma" where "BZC32_REG_FIELD r = push_bit 16 (r AND 0x1f)"

definition bz_rs_insns_32 :: "opcode_descriptor list" where
  "bz_rs_insns_32 = [descr 0x94000000 0xffe00000, descr 0xb4000000 0xffe00000]"

definition bz_rt_insns_32 :: "opcode_descriptor list" where
  "bz_rt_insns_32 = [descr 0x94000000 0xfc01f000, descr 0xb4000000 0xfc01f000]"

definition bzc_insns_32 :: "opcode_descriptor list" where
  "bzc_insns_32 = [descr 0x40e00000 0xffe00000, descr 0x40a00000 0xffe00000]"

definition bz_insns_16 :: "opcode_descriptor list" where
  "bz_insns_16 = [descr 0x8c00 0xfc00, descr 0xac00 0xfc00]"

definition BZ16_REG :: "vma \<Rightarrow> vma" where
  "BZ16_REG opcode = (((drop_bit 7 opcode AND 7) + 0x1e) AND 0x17) + 2"

definition BZ16_REG_FIELD :: "vma \<Rightarrow> vma" where
  "BZ16_REG_FIELD r = push_bit 7 (if 2 \<le> r \<and> r \<le> 7 then r else r - 16)"

definition jal_insn_32_bd16 :: opcode_descriptor where "jal_insn_32_bd16 = descr 0x74000000 0xfc000000"
definition jal_insn_32_bd32 :: opcode_descriptor where "jal_insn_32_bd32 = descr 0xf4000000 0xfc000000"
definition jal_x_insn_32_bd32 :: opcode_descriptor where "jal_x_insn_32_bd32 = descr 0xf0000000 0xf8000000"
definition j_insn_32 :: opcode_descriptor where "j_insn_32 = descr 0xd4000000 0xfc000000"
definition jalr_insn_32 :: opcode_descriptor where "jalr_insn_32 = descr 0x00000f3c 0xfc00efff"

definition ds_insns_32_bd16 :: "opcode_descriptor list" where
  "ds_insns_32_bd16 =
     [descr 0x74000000 0xfc000000, descr 0x00004f3c 0xfc00efff, descr 0x42200000 0xffa00000,
      descr 0x40000000 0xff200000, descr 0x94000000 0xdc000000, descr 0xd4000000 0xfc000000]"

definition ds_insns_32_bd32 :: "opcode_descriptor list" where
  "ds_insns_32_bd32 = [descr 0xf0000000 0xf8000000, descr 0x00000f3c 0xfc00efff, descr 0x40200000 0xffa00000]"

definition jalr_insn_16_bd16 :: opcode_descriptor where "jalr_insn_16_bd16 = descr 0x45e0 0xffe0"
definition jalr_insn_16_bd32 :: opcode_descriptor where "jalr_insn_16_bd32 = descr 0x45c0 0xffe0"
definition jr_insn_16 :: opcode_descriptor where "jr_insn_16 = descr 0x4580 0xffe0"

definition JR16_REG :: "vma \<Rightarrow> vma" where "JR16_REG opcode = opcode AND 0x1f"

definition ds_insns_16_bd16 :: "opcode_descriptor list" where
  "ds_insns_16_bd16 = [descr 0x45e0 0xffe0, descr 0xcc00 0xfc00, descr 0x8c00 0xdc00, descr 0x4580 0xffe0]"

definition lui_insn :: opcode_descriptor where "lui_insn = descr 0x41a00000 0xffe00000"
definition addiu_insn :: opcode_descriptor where "addiu_insn = descr 0x30000000 0xfc000000"
definition addiupc_insn :: opcode_descriptor where "addiupc_insn = descr 0x78000000 0xfc000000"

definition ADDIUPC_REG_FIELD :: "vma \<Rightarrow> vma" where
  "ADDIUPC_REG_FIELD r = push_bit 23 (if 2 \<le> r \<and> r \<le> 7 then r else r - 16)"

definition MOVE32_RD :: "vma \<Rightarrow> vma" where "MOVE32_RD opcode = drop_bit 11 opcode AND 0x1f"
definition MOVE32_RS :: "vma \<Rightarrow> vma" where "MOVE32_RS opcode = drop_bit 16 opcode AND 0x1f"
definition MOVE16_RD_FIELD :: "vma \<Rightarrow> vma" where "MOVE16_RD_FIELD r = push_bit 5 (r AND 0x1f)"
definition MOVE16_RS_FIELD :: "vma \<Rightarrow> vma" where "MOVE16_RS_FIELD r = r AND 0x1f"

definition move_insns_32 :: "opcode_descriptor list" where
  "move_insns_32 = [descr 0x00000150 0xffe007ff, descr 0x00000290 0xffe007ff]"

definition move_insn_16 :: opcode_descriptor where "move_insn_16 = descr 0x0c00 0xfc00"
definition nop_insn_32 :: opcode_descriptor where "nop_insn_32 = descr 0 0xffffffff"
definition nop_insn_16 :: opcode_descriptor where "nop_insn_16 = descr 0x0c00 0xffff"

definition MATCH :: "vma \<Rightarrow> opcode_descriptor \<Rightarrow> bool" where
  "MATCH opcode insn \<longleftrightarrow> opcode AND op_mask insn = op_match insn"

text \<open>The index of the first description that matches; the end markers of the tables are left out.\<close>

definition find_match :: "vma \<Rightarrow> opcode_descriptor list \<Rightarrow> nat option" where
  "find_match opcode insns = find (\<lambda>i. MATCH opcode (insns ! i)) [0..<length insns]"

section \<open>Branches and delay slots\<close>

definition check_br16_dslot :: "xvec \<Rightarrow> bytes \<Rightarrow> nat \<Rightarrow> nat" where
  "check_br16_dslot abfd data ptr =
     (let opcode = bfd_get_16 abfd data ptr
      in if MATCH opcode jalr_insn_16_bd32 then 4
         else if MATCH opcode jalr_insn_16_bd16 \<or> find_match opcode ds_insns_16_bd16 \<noteq> None then 2
         else 0)"

definition check_br32_dslot :: "xvec \<Rightarrow> bytes \<Rightarrow> nat \<Rightarrow> nat" where
  "check_br32_dslot abfd data ptr =
     (let opcode = bfd_get_micromips_32 abfd data ptr
      in if find_match opcode ds_insns_32_bd32 \<noteq> None then 4
         else if find_match opcode ds_insns_32_bd16 \<noteq> None then 2
         else 0)"

definition check_br16 :: "xvec \<Rightarrow> bytes \<Rightarrow> nat \<Rightarrow> vma \<Rightarrow> bool" where
  "check_br16 abfd data ptr reg =
     (let opcode = bfd_get_16 abfd data ptr
      in MATCH opcode b_insn_16
         \<or> (MATCH opcode jr_insn_16 \<and> reg \<noteq> JR16_REG opcode)
         \<or> (MATCH opcode bz_insn_16 \<and> reg \<noteq> BZ16_REG opcode)
         \<or> (MATCH opcode jalr_insn_16_bd32 \<and> reg \<noteq> JR16_REG opcode \<and> reg \<noteq> RA))"

definition check_br32 :: "xvec \<Rightarrow> bytes \<Rightarrow> nat \<Rightarrow> vma \<Rightarrow> bool" where
  "check_br32 abfd data ptr reg =
     (let opcode = bfd_get_micromips_32 abfd data ptr
      in MATCH opcode j_insn_32
         \<or> MATCH opcode bc_insn_32
         \<or> (MATCH opcode jal_x_insn_32_bd32 \<and> reg \<noteq> RA)
         \<or> (MATCH opcode bz_insn_32 \<and> reg \<noteq> OP32_SREG opcode)
         \<or> (MATCH opcode bzal_insn_32 \<and> reg \<noteq> OP32_SREG opcode \<and> reg \<noteq> RA)
         \<or> ((MATCH opcode jalr_insn_32 \<or> MATCH opcode beq_insn_32) \<and> reg \<noteq> OP32_SREG opcode \<and> reg \<noteq> OP32_TREG opcode))"

definition ELF32_R_SYM :: "vma \<Rightarrow> nat" where "ELF32_R_SYM i = unat (drop_bit 8 i)"
definition ELF32_R_TYPE :: "vma \<Rightarrow> r_type" where "ELF32_R_TYPE i = unat (i AND 0xff)"

definition ELF32_R_INFO :: "nat \<Rightarrow> r_type \<Rightarrow> vma" where
  "ELF32_R_INFO s t = push_bit 8 (of_nat s) + (of_nat t AND 0xff)"

definition check_relocated_bzc :: "xvec \<Rightarrow> bytes \<Rightarrow> nat \<Rightarrow> vma \<Rightarrow> elf_rela list \<Rightarrow> bool" where
  "check_relocated_bzc abfd data ptr offset relocs =
     (find_match (bfd_get_micromips_32 abfd data ptr) bzc_insns_32 \<noteq> None
      \<and> list_ex (\<lambda>r. r_offset r = offset \<and> ELF32_R_TYPE (r_info r) = R_MICROMIPS_PC16_S1) relocs)"

definition IS_BITSIZE :: "vma \<Rightarrow> nat \<Rightarrow> bool" where
  "IS_BITSIZE val n \<longleftrightarrow> ((val AND (push_bit n 1 - 1)) XOR push_bit (n - 1) 1) - push_bit (n - 1) 1 = val"

section \<open>State of the relaxation\<close>

record elf_isym =
  st_shndx :: nat
  st_value :: vma
  isym_other :: "8 word"

text \<open>
  What the pass changes: contents, size and relocations of the section, the local symbols
  of the file and the global symbols.
\<close>

record relax_state =
  rx_contents :: bytes
  rx_size :: vma
  rx_relocs :: "elf_rela list"
  rx_isyms :: "elf_isym list"
  rx_syms :: "nat \<Rightarrow> link_sym"
  rx_again :: bool

text \<open>
  The section and its index, the entries of \<^verbatim>\<open>sym_hashes\<close>, and the output address of each
  section of the file by index.  \<^verbatim>\<open>past_end\<close> is what lies in memory behind the last relocation.
\<close>

record relax_env =
  rx_bfd :: bfd
  rx_sec :: asection
  rx_shndx :: nat
  rx_hashes :: "nat list"
  section_base :: "nat \<Rightarrow> vma"
  past_end :: elf_rela

section \<open>Deleting bytes\<close>

definition move_symbol :: "relax_env \<Rightarrow> vma \<Rightarrow> vma \<Rightarrow> nat \<Rightarrow> (nat \<Rightarrow> link_sym) \<Rightarrow> nat \<Rightarrow> link_sym" where
  "move_symbol env addr count h sy =
     (let s = sy h
      in if (root_type s = bfd_link_hash_defined \<or> root_type s = bfd_link_hash_defweak)
            \<and> map_option sec_id (def_section s) = Some (sec_id (rx_sec env))
            \<and> addr < (if ELF_ST_IS_MICROMIPS (st_other s) then def_value s AND MINUS_TWO else def_value s)
         then sy(h := s\<lparr>def_value := def_value s - count\<rparr>) else sy)"

definition mips_elf_relax_delete_bytes :: "relax_env \<Rightarrow> vma \<Rightarrow> vma \<Rightarrow> relax_state \<Rightarrow> relax_state" where
  "mips_elf_relax_delete_bytes env addr count st =
     (let a = unat addr; n = unat (rx_size st - addr - count); c = rx_contents st
      in st\<lparr>rx_contents := take a c @ take n (drop (a + unat count) c) @ drop (a + n) c,
            rx_size := rx_size st - count,
            rx_relocs := map (\<lambda>r. if addr < r_offset r then r\<lparr>r_offset := r_offset r - count\<rparr> else r) (rx_relocs st),
            rx_isyms := map (\<lambda>s. if st_shndx s = rx_shndx env \<and> addr < st_value s then s\<lparr>st_value := st_value s - count\<rparr> else s)
                          (rx_isyms st),
            rx_syms := fold (move_symbol env addr count) (rx_hashes env) (rx_syms st)\<rparr>)"

section \<open>One relocation\<close>

text \<open>Address of the target, and whether it is microMIPS code; \<^verbatim>\<open>None\<close> for an undefined symbol.\<close>

definition relax_target :: "relax_env \<Rightarrow> relax_state \<Rightarrow> nat \<Rightarrow> (vma \<times> bool) option" where
  "relax_target env st r_symndx =
     (if r_symndx < length (rx_isyms st) then
        let isym = rx_isyms st ! r_symndx
        in Some (st_value isym + section_base env (st_shndx isym), ELF_ST_IS_MICROMIPS (isym_other isym))
      else
        let h = rx_syms st (rx_hashes env ! (r_symndx - length (rx_isyms st)))
        in if root_type h \<noteq> bfd_link_hash_defined \<and> root_type h \<noteq> bfd_link_hash_defweak then None
           else Some (def_value h + section_address (the (def_section h)), \<not> needs_plt h \<and> ELF_ST_IS_MICROMIPS (st_other h)))"

definition set_reloc_type :: "nat \<Rightarrow> r_type \<Rightarrow> relax_state \<Rightarrow> relax_state" where
  "set_reloc_type i t st =
     (let r = rx_relocs st ! i
      in st\<lparr>rx_relocs := (rx_relocs st)[i := r\<lparr>r_info := ELF32_R_INFO (ELF32_R_SYM (r_info r)) t\<rparr>]\<rparr>)"

abbreviation put_half :: "relax_env \<Rightarrow> vma \<Rightarrow> nat \<Rightarrow> relax_state \<Rightarrow> relax_state" where
  "put_half env v p st \<equiv> st\<lparr>rx_contents := bfd_put_16 (bfd_xvec (rx_bfd env)) v (rx_contents st) p\<rparr>"

abbreviation put_insn_32 :: "relax_env \<Rightarrow> vma \<Rightarrow> nat \<Rightarrow> relax_state \<Rightarrow> relax_state" where
  "put_insn_32 env v p st \<equiv> st\<lparr>rx_contents := bfd_put_micromips_32 (bfd_xvec (rx_bfd env)) v (rx_contents st) p\<rparr>"

text \<open>
  Relaxation yields the changed state, the place of the bytes to delete and their number.

  A LUI goes away when its relocation is followed by one LO16 relocation against the same
  symbol, it is not in a delay slot, and at most a harmless branch is in between.
\<close>

definition hi16_paired :: "relax_env \<Rightarrow> elf_rela list \<Rightarrow> nat \<Rightarrow> bool" where
  "hi16_paired env rels i =
     (let against = (\<lambda>r t. ELF32_R_TYPE (r_info r) = t \<and> ELF32_R_SYM (r_info r) = ELF32_R_SYM (r_info (rels ! i)))
      in \<not> (0 < i \<and> against (rels ! (i - 1)) R_MICROMIPS_HI16)
         \<and> i + 1 < length rels \<and> against (rels ! (i + 1)) R_MICROMIPS_LO16
         \<and> \<not> (length rels \<le> i + 2 \<and> against (past_end env) R_MICROMIPS_LO16))"

definition maybe_in_delay_slot :: "relax_env \<Rightarrow> relax_state \<Rightarrow> vma \<Rightarrow> bool" where
  "maybe_in_delay_slot env st offset =
     (let x = bfd_xvec (rx_bfd env); c = rx_contents st; p = unat offset;
          br16 = (2 \<le> offset \<and> check_br16_dslot x c (p - 2) \<noteq> 0);
          bzc = (br16 \<and> 4 \<le> offset \<and> check_relocated_bzc x c (p - 4) (offset - 4) (rx_relocs st))
      in (br16 \<and> \<not> bzc) \<or> (4 \<le> offset \<and> \<not> bzc \<and> check_br32_dslot x c (p - 4) \<noteq> 0))"

definition relax_hi16 :: "relax_env \<Rightarrow> nat \<Rightarrow> vma \<Rightarrow> vma \<Rightarrow> vma \<Rightarrow> relax_state \<Rightarrow> (relax_state \<times> vma \<times> vma) option" where
  "relax_hi16 env i opcode symval pcrval st =
     (let rels = rx_relocs st; x = bfd_xvec (rx_bfd env); c = rx_contents st;
          here = r_offset (rels ! i); low = r_offset (rels ! (i + 1)); p = unat here;
          reg = OP32_SREG opcode; offset = low - here
      in if \<not> hi16_paired env rels i \<or> maybe_in_delay_slot env st here then None
         else if \<not> (offset - 4 = 0 \<or> (offset - 4 = 2 \<and> check_br16 x c (p + 4) reg)
                    \<or> (offset - 4 = 4 \<and> check_br32 x c (p + 4) reg)) then None
         else
           let nextopc = bfd_get_micromips_32 x c (unat low);
               pcrval = ((pcrval - offset + 3) OR 3) XOR 3
           in if OP32_SREG nextopc \<noteq> reg then None
              else if IS_BITSIZE symval 16 then
                let nextopc = nextopc AND NOT 0x001f0000
                in Some (set_reloc_type i R_MIPS_NONE
                     (put_half env (drop_bit 16 nextopc AND 0xffff) (unat low) (set_reloc_type (i + 1) R_MICROMIPS_HI0_LO16 st)),
                     here, 4)
              else if symval mod 4 = 0 \<and> IS_BITSIZE (pcrval + 4) 25 \<and> MATCH nextopc addiu_insn
                      \<and> OP32_TREG nextopc = OP32_SREG nextopc \<and> OP16_VALID_REG (OP32_TREG nextopc) then
                let nextopc = op_match addiupc_insn OR ADDIUPC_REG_FIELD (OP32_TREG nextopc)
                in Some (set_reloc_type i R_MIPS_NONE
                     (put_insn_32 env nextopc (unat low) (set_reloc_type (i + 1) R_MICROMIPS_PC23_S2 st)), here, 4)
              else None)"

definition bz_match :: "vma \<Rightarrow> nat option" where
  "bz_match opcode = (case find_match opcode bz_rs_insns_32 of Some n \<Rightarrow> Some n | None \<Rightarrow> find_match opcode bz_rt_insns_32)"

definition bz_match_16 :: "vma \<Rightarrow> nat option" where
  "bz_match_16 opcode =
     (if find_match opcode bz_rs_insns_32 \<noteq> None \<and> OP16_VALID_REG (OP32_SREG opcode) then find_match opcode bz_rs_insns_32
      else if find_match opcode bz_rt_insns_32 \<noteq> None \<and> OP16_VALID_REG (OP32_TREG opcode) then find_match opcode bz_rt_insns_32
      else None)"

definition bz_reg :: "vma \<Rightarrow> vma" where
  "bz_reg opcode = (if OP32_SREG opcode \<noteq> 0 then OP32_SREG opcode else OP32_TREG opcode)"

definition compact_branch :: "vma \<Rightarrow> nat \<Rightarrow> vma" where
  "compact_branch opcode fndopc =
     op_match (bzc_insns_32 ! fndopc) OR BZC32_REG_FIELD (bz_reg opcode) OR (opcode AND 0xffff)"

definition short_bz :: "vma \<Rightarrow> nat \<Rightarrow> vma" where
  "short_bz opcode fndopc = op_match (bz_insns_16 ! fndopc) OR BZ16_REG_FIELD (bz_reg opcode) OR (opcode AND 0x7f)"

text \<open>Branches: the compact form when a 16-bit NOP follows, a 16-bit form when the target is near.\<close>

definition relax_branch :: "relax_env \<Rightarrow> nat \<Rightarrow> vma \<Rightarrow> vma \<Rightarrow> relax_state \<Rightarrow> (relax_state \<times> vma \<times> vma) option" where
  "relax_branch env i opcode pcrval st =
     (let here = r_offset (rx_relocs st ! i); p = unat here
      in if here + 5 < rx_size st \<and> bz_match opcode \<noteq> None
            \<and> MATCH (bfd_get_16 (bfd_xvec (rx_bfd env)) (rx_contents st) (p + 4)) nop_insn_16
         then Some (put_insn_32 env (compact_branch opcode (the (bz_match opcode))) p st, here + 4, 2)
         else if IS_BITSIZE (pcrval - 2) 11 \<and> find_match opcode b_insns_32 \<noteq> None
         then Some (put_half env (op_match b_insn_16 OR (opcode AND 0x3ff)) p (set_reloc_type i R_MICROMIPS_PC10_S1 st), here + 2, 2)
         else if IS_BITSIZE (pcrval - 2) 8 \<and> bz_match_16 opcode \<noteq> None
         then Some (put_half env (short_bz opcode (the (bz_match_16 opcode))) p (set_reloc_type i R_MICROMIPS_PC7_S1 st), here + 2, 2)
         else None)"

definition short_move :: "vma \<Rightarrow> vma" where
  "short_move opcode = op_match move_insn_16 OR MOVE16_RD_FIELD (MOVE32_RD opcode) OR MOVE16_RS_FIELD (MOVE32_RS opcode)"

text \<open>A JAL becomes a JALS when the instruction in its delay slot has a 16-bit form.\<close>

definition relax_jal :: "relax_env \<Rightarrow> nat \<Rightarrow> relax_state \<Rightarrow> (relax_state \<times> vma \<times> vma) option" where
  "relax_jal env i st =
     (let here = r_offset (rx_relocs st ! i); p = unat here;
          n32opc = bfd_get_micromips_32 (bfd_xvec (rx_bfd env)) (rx_contents st) (p + 4);
          jals = put_insn_32 env (op_match jal_insn_32_bd16) p
      in if MATCH n32opc nop_insn_32 then Some (jals (put_half env (op_match nop_insn_16) (p + 4) st), here + 6, 2)
         else if find_match n32opc move_insns_32 \<noteq> None
         then Some (jals (put_half env (short_move n32opc) (p + 4) st), here + 6, 2)
         else None)"

definition relax_insn :: "relax_env \<Rightarrow> nat \<Rightarrow> relax_state \<Rightarrow> (relax_state \<times> vma \<times> vma) option" where
  "relax_insn env i st =
     (let rel = rx_relocs st ! i; r_type = ELF32_R_TYPE (r_info rel); here = r_offset rel
      in if r_type \<noteq> R_MICROMIPS_HI16 \<and> r_type \<noteq> R_MICROMIPS_PC16_S1 \<and> r_type \<noteq> R_MICROMIPS_26_S1 then None
         else case relax_target env st (ELF32_R_SYM (r_info rel)) of
           None \<Rightarrow> None
         | Some (symval, micromips) \<Rightarrow>
             if here + 4 > rx_size st then None
             else
               let opcode = bfd_get_micromips_32 (bfd_xvec (rx_bfd env)) (rx_contents st) (unat here);
                   pcrval = symval - section_address (rx_sec env) - here
               in if r_type = R_MICROMIPS_HI16 \<and> MATCH opcode lui_insn then relax_hi16 env i opcode symval pcrval st
                  else if r_type = R_MICROMIPS_PC16_S1 then relax_branch env i opcode pcrval st
                  else if r_type = R_MICROMIPS_26_S1 \<and> micromips \<and> here + 7 < rx_size st \<and> MATCH opcode jal_insn_32_bd32
                  then relax_jal env i st
                  else None)"

definition relax_reloc :: "relax_env \<Rightarrow> nat \<Rightarrow> relax_state \<Rightarrow> relax_state" where
  "relax_reloc env i st =
     (case relax_insn env i st of
        None \<Rightarrow> st
      | Some (st, addr, count) \<Rightarrow> (mips_elf_relax_delete_bytes env addr count st)\<lparr>rx_again := True\<rparr>)"

section \<open>The pass over a section\<close>

definition relax_relocs :: "relax_env \<Rightarrow> relax_state \<Rightarrow> relax_state" where
  "relax_relocs env st = fold (relax_reloc env) [0..<length (rx_relocs st)] st"

text \<open>
  Contents and local symbols are read when the first relocation of interest is met, before anything is
  changed.  The result tells whether the pass succeeded.
\<close>

definition relaxable :: "elf_rela \<Rightarrow> bool" where
  "relaxable r \<longleftrightarrow> ELF32_R_TYPE (r_info r) \<in> {R_MICROMIPS_HI16, R_MICROMIPS_PC16_S1, R_MICROMIPS_26_S1}"

definition bfd_mips_elf_relax_section ::
  "relax_env \<Rightarrow> link_info \<Rightarrow> elf_rela list option \<Rightarrow> bytes option \<Rightarrow> elf_isym list option \<Rightarrow> relax_state \<Rightarrow> bool \<times> relax_state" where
  "bfd_mips_elf_relax_section env info relocs contents isyms st =
     (let st = st\<lparr>rx_again := False\<rparr>
      in if relocatable info \<or> SEC_RELOC \<notin> sec_flags (rx_sec env) \<or> relocs = Some [] \<or> SEC_CODE \<notin> sec_flags (rx_sec env)
         then (True, st)
         else case relocs of
           None \<Rightarrow> (False, st)
         | Some rels \<Rightarrow>
             if \<not> list_ex relaxable rels then (True, st)
             else case (contents, isyms) of
               (Some c, Some isy) \<Rightarrow> (True, relax_relocs env (st\<lparr>rx_contents := c, rx_relocs := rels, rx_isyms := isy\<rparr>))
             | _ \<Rightarrow> (False, st))"

section \<open>Jumps through a register\<close>

text \<open>
  A chain of indirect symbols that does not end is \<^verbatim>\<open>None\<close>.  \<^verbatim>\<open>rj_isyms\<close> and \<^verbatim>\<open>rj_contents\<close> are \<^verbatim>\<open>None\<close>
  when the symbols or the contents cannot be read.
\<close>

datatype jump_symbol = skip_jump | unreadable_symbols | jump_to vma

record jump_env =
  rj_bfd :: bfd
  rj_sec :: asection
  rj_extsymoff :: nat
  rj_hashes :: "nat list"
  rj_isyms :: "elf_isym list option"
  rj_section_base :: "nat \<Rightarrow> vma"
  rj_symbolic :: bool

abbreviation (input) SHN_UNDEF :: nat where "SHN_UNDEF \<equiv> 0"

definition jalr_symbol :: "jump_env \<Rightarrow> link_info \<Rightarrow> (nat \<Rightarrow> link_sym) \<Rightarrow> nat \<Rightarrow> jump_symbol option" where
  "jalr_symbol env info sy r_symndx =
     (if rj_extsymoff env \<le> r_symndx then
        map_option (\<lambda>h.
          let s = sy h
          in if \<not> ((root_type s = bfd_link_hash_defined \<or> root_type s = bfd_link_hash_defweak) \<and> def_section s \<noteq> None)
                \<or> (shared info \<and> \<not> rj_symbolic env \<and> \<not> forced_local s) then skip_jump
             else jump_to (if output_section (the (def_section s)) \<noteq> None then def_value s + section_address (the (def_section s))
                           else def_value s))
          (follow_links sy (rj_hashes env ! (r_symndx - rj_extsymoff env)))
      else Some (case rj_isyms env of
                   None \<Rightarrow> unreadable_symbols
                 | Some isy \<Rightarrow>
                     if st_shndx (isy ! r_symndx) = SHN_UNDEF then skip_jump
                     else jump_to (st_value (isy ! r_symndx) + rj_section_base env (st_shndx (isy ! r_symndx)))))"

text \<open>The branch that replaces an instruction, and the range test, for a byte offset from the delay slot.\<close>

definition branch_for_jump :: "vma \<Rightarrow> vma \<Rightarrow> vma option" where
  "branch_for_jump instruction sym_offset =
     (let field = word_of_int (sint sym_offset div 4) AND 0xffff
      in if instruction AND 0xfc1fffff = 0x0000f809 then Some (0x04110000 OR field)
         else if instruction AND 0xfc1fffff = 0x00000008 then Some (0x10000000 OR field)
         else None)"

definition jump_in_range :: "vma \<Rightarrow> bool" where
  "jump_in_range sym_offset \<longleftrightarrow> sym_offset AND 3 = 0 \<and> - 0x8000 \<le> sint sym_offset div 4 \<and> sint sym_offset div 4 < 0x8000"

text \<open>The result is the contents, or \<^verbatim>\<open>Inl\<close> for a failed read.\<close>

fun relax_jumps ::
  "jump_env \<Rightarrow> link_info \<Rightarrow> (nat \<Rightarrow> link_sym) \<Rightarrow> elf_rela list \<Rightarrow> bytes option \<Rightarrow> (unit + bytes option) option" where
  "relax_jumps env info sy [] contents = Some (Inr contents)"
| "relax_jumps env info sy (rel # rels) contents =
     (if ELF_R_TYPE (rj_bfd env) (r_info rel) \<noteq> R_MIPS_JALR then relax_jumps env info sy rels contents
      else case jalr_symbol env info sy (ELF_R_SYM (rj_bfd env) (r_info rel)) of
        None \<Rightarrow> None
      | Some skip_jump \<Rightarrow> relax_jumps env info sy rels contents
      | Some unreadable_symbols \<Rightarrow> Some (Inl ())
      | Some (jump_to symval) \<Rightarrow>
          let sym_offset = symval + r_addend rel - (section_address (rj_sec env) + r_offset rel + 4)
          in if \<not> jump_in_range sym_offset then relax_jumps env info sy rels contents
             else case contents of
               None \<Rightarrow> Some (Inl ())
             | Some c \<Rightarrow>
                 let x = bfd_xvec (rj_bfd env); p = unat (r_offset rel)
                 in case branch_for_jump (bfd_get_32 x c p) sym_offset of
                      None \<Rightarrow> relax_jumps env info sy rels contents
                    | Some instruction \<Rightarrow> relax_jumps env info sy rels (Some (bfd_put_32 x instruction c p)))"

definition bfd_mips_relax_section ::
  "jump_env \<Rightarrow> link_info \<Rightarrow> (nat \<Rightarrow> link_sym) \<Rightarrow> elf_rela list option \<Rightarrow> bytes option \<Rightarrow> (unit + bytes option) option" where
  "bfd_mips_relax_section env info sy relocs contents =
     (if relocatable info then Some (Inr contents)
      else case relocs of None \<Rightarrow> Some (Inr contents) | Some rels \<Rightarrow> relax_jumps env info sy rels contents)"

end
