(* ===== verification/RelaxSpec.thy ===== *)
theory RelaxSpec
  imports Relax Arith
begin

text \<open>
  What relaxation guarantees: labels and relocations follow the code when bytes are
  deleted, the short forms do what they replace (a compact branch exactly when it tests the
  same register), repeating the pass ends; and three places where the code falls short of that.
\<close>

section \<open>Deleting bytes\<close>

definition moved :: "vma \<Rightarrow> vma \<Rightarrow> vma \<Rightarrow> vma" where
  "moved addr count p = (if addr < p then p - count else p)"

definition defined_in :: "asection \<Rightarrow> link_sym \<Rightarrow> bool" where
  "defined_in sec s \<longleftrightarrow> (root_type s = bfd_link_hash_defined \<or> root_type s = bfd_link_hash_defweak)
     \<and> map_option sec_id (def_section s) = Some (sec_id sec)"

text \<open>The place of a symbol, without the mark of microMIPS code.\<close>

definition code_place :: "link_sym \<Rightarrow> vma" where
  "code_place s = (if ELF_ST_IS_MICROMIPS (st_other s) then def_value s AND MINUS_TWO else def_value s)"

lemma move_symbol_alt:
  "move_symbol env addr count h sy =
     (if defined_in (rx_sec env) (sy h) \<and> addr < code_place (sy h)
      then sy(h := (sy h)\<lparr>def_value := def_value (sy h) - count\<rparr>) else sy)"
  by (simp add: move_symbol_def Let_def defined_in_def code_place_def)

lemma fold_move_symbol:
  assumes "distinct hs"
  shows "fold (move_symbol env addr count) hs sy h = (if h \<in> set hs then move_symbol env addr count h sy h else sy h)"
  using assms
proof (induction hs arbitrary: sy)
  case (Cons x xs)
  have "move_symbol env addr count x sy h = sy h" if "h \<noteq> x"
    using that by (simp add: move_symbol_alt)
  moreover have "move_symbol env addr count h (move_symbol env addr count x sy) h = move_symbol env addr count h sy h" if "h \<noteq> x"
    using that by (auto simp: move_symbol_alt)
  ultimately show ?case
    using Cons by auto
qed simp

lemma clear_low_bits: "v AND NOT (mask n) = v - take_bit n (v :: vma)"
proof -
  have "(v AND NOT (mask n)) AND take_bit n v = 0"
    by (auto intro!: bit_word_eqI simp: bit_simps)
  then have "(v AND NOT (mask n)) + take_bit n v = (v AND NOT (mask n)) OR take_bit n v"
    by (rule disjunctive_add_eq_or)
  also have "\<dots> = v"
    by (auto intro!: bit_word_eqI simp: bit_simps)
  finally show ?thesis
    by (simp only: eq_diff_eq)
qed

lemma and_minus_two: "v AND MINUS_TWO = v - take_bit 1 v"
proof -
  have m: "MINUS_TWO = NOT (mask 1)"
    by (simp add: MINUS_TWO_def)
  show ?thesis
    unfolding m by (rule clear_low_bits)
qed

lemma even_code_place:
  assumes "take_bit 1 count = 0"
  shows "(v - count) AND MINUS_TWO = (v AND MINUS_TWO) - count"
proof -
  have "take_bit 1 (take_bit 1 (v - count) + take_bit 1 count) = take_bit 1 v"
    by (simp only: take_bit_add_word diff_add_cancel)
  then have "take_bit 1 (v - count) = take_bit 1 v"
    by (simp only: assms add_0_right take_bit_take_bit min.idem)
  then show ?thesis
    by (simp add: and_minus_two)
qed

lemma nth_memmove:
  assumes "a + k \<le> s" "s \<le> length C"
  defines "xs \<equiv> take a C @ take (s - a - k) (drop (a + k) C) @ drop (a + (s - a - k)) C"
  shows "length xs = length C"
    and "p < a \<Longrightarrow> xs ! p = C ! p"
    and "a + k \<le> p \<Longrightarrow> p < s \<Longrightarrow> xs ! (p - k) = C ! p"
proof -
  show "length xs = length C" and "p < a \<Longrightarrow> xs ! p = C ! p"
    using assms(1,2) by (simp_all add: xs_def nth_append)
  assume "a + k \<le> p" "p < s"
  then obtain q where "p = a + k + q" "q < s - a - k"
    using le_Suc_ex [of "a + k" p] by auto
  then show "xs ! (p - k) = C ! p"
    using assms(1,2) by (simp add: xs_def nth_append)
qed

lemma delete_contents:
  fixes env :: relax_env
  assumes "unat addr + unat count \<le> unat (rx_size st)" "unat (rx_size st) \<le> length (rx_contents st)"
  defines "st' \<equiv> mips_elf_relax_delete_bytes env addr count st"
  shows "length (rx_contents st') = length (rx_contents st)" "unat (rx_size st') = unat (rx_size st) - unat count"
    and "p < unat addr \<Longrightarrow> rx_contents st' ! p = rx_contents st ! p"
    and "unat addr + unat count \<le> p \<Longrightarrow> p < unat (rx_size st) \<Longrightarrow> rx_contents st' ! (p - unat count) = rx_contents st ! p"
proof -
  have n1: "unat (rx_size st - addr) = unat (rx_size st) - unat addr"
    using assms(1) by (intro unat_sub) (simp add: word_le_nat_alt)
  have n: "unat (rx_size st - addr - count) = unat (rx_size st) - unat addr - unat count"
    using assms(1) n1 by (subst unat_sub) (auto simp: word_le_nat_alt)
  have "count \<le> rx_size st"
    using assms(1) by (simp add: word_le_nat_alt)
  then show "unat (rx_size st') = unat (rx_size st) - unat count"
    by (simp add: st'_def mips_elf_relax_delete_bytes_def Let_def unat_sub)
  have c: "rx_contents st' = take (unat addr) (rx_contents st)
      @ take (unat (rx_size st) - unat addr - unat count) (drop (unat addr + unat count) (rx_contents st))
      @ drop (unat addr + (unat (rx_size st) - unat addr - unat count)) (rx_contents st)"
    unfolding st'_def mips_elf_relax_delete_bytes_def Let_def n by simp
  show "length (rx_contents st') = length (rx_contents st)" "p < unat addr \<Longrightarrow> rx_contents st' ! p = rx_contents st ! p"
    "unat addr + unat count \<le> p \<Longrightarrow> p < unat (rx_size st) \<Longrightarrow> rx_contents st' ! (p - unat count) = rx_contents st ! p"
    unfolding c by (fact nth_memmove [OF assms(1,2)])+
qed

lemma moved_unat:
  assumes "unat addr + unat count \<le> unat p"
  shows "unat (moved addr count p) = unat p - unat count"
proof (cases "count = 0")
  case False
  then have "0 < unat count"
    by (simp add: unat_gt_0)
  then show ?thesis
    using assms by (simp add: moved_def unat_sub word_le_nat_alt word_less_nat_alt)
qed (use assms in \<open>auto simp: moved_def\<close>)

text \<open>
  C12.  Deleting bytes of a section keeps all labels on their code: the bytes outside the deleted range are found at their moved places,
  and relocations, local symbols and global symbols of the section are moved in the same way (for a microMIPS symbol the place
  without the mark in its lowest bit); nothing else about them changes, and symbols of other sections stay.
\<close>

theorem delete_keeps_labels:
  assumes "unat addr + unat count \<le> unat (rx_size st)" "unat (rx_size st) \<le> length (rx_contents st)" "take_bit 1 count = 0"
    and "distinct (rx_hashes env)"
  defines "st' \<equiv> mips_elf_relax_delete_bytes env addr count st"
  shows "unat (rx_size st') = unat (rx_size st) - unat count
    \<and> (\<forall>p. unat p < unat (rx_size st) \<and> (unat p < unat addr \<or> unat addr + unat count \<le> unat p)
         \<longrightarrow> rx_contents st' ! unat (moved addr count p) = rx_contents st ! unat p)
    \<and> rx_relocs st' = map (\<lambda>r. r\<lparr>r_offset := moved addr count (r_offset r)\<rparr>) (rx_relocs st)
    \<and> rx_isyms st' = map (\<lambda>s. if st_shndx s = rx_shndx env then s\<lparr>st_value := moved addr count (st_value s)\<rparr> else s) (rx_isyms st)
    \<and> (\<forall>h. if h \<in> set (rx_hashes env) \<and> defined_in (rx_sec env) (rx_syms st h)
         then code_place (rx_syms st' h) = moved addr count (code_place (rx_syms st h))
           \<and> rx_syms st' h = (rx_syms st h)\<lparr>def_value := def_value (rx_syms st' h)\<rparr>
         else rx_syms st' h = rx_syms st h)"
proof (intro conjI allI impI)
  note c = delete_contents [OF assms(1,2), where env = env, folded st'_def]
  show "unat (rx_size st') = unat (rx_size st) - unat count"
    by (rule c(2))
  show "rx_contents st' ! unat (moved addr count p) = rx_contents st ! unat p"
    if "unat p < unat (rx_size st) \<and> (unat p < unat addr \<or> unat addr + unat count \<le> unat p)" for p
    using that c(3) [of "unat p"] c(4) [of "unat p"] moved_unat [of addr count p]
    by (auto simp: moved_def word_less_nat_alt)
  show "rx_relocs st' = map (\<lambda>r. r\<lparr>r_offset := moved addr count (r_offset r)\<rparr>) (rx_relocs st)"
    by (simp add: st'_def mips_elf_relax_delete_bytes_def Let_def moved_def)
  show "rx_isyms st' = map (\<lambda>s. if st_shndx s = rx_shndx env then s\<lparr>st_value := moved addr count (st_value s)\<rparr> else s) (rx_isyms st)"
    by (simp add: st'_def mips_elf_relax_delete_bytes_def Let_def moved_def)
  fix h
  have "rx_syms st' h = (if h \<in> set (rx_hashes env) then move_symbol env addr count h (rx_syms st) h else rx_syms st h)"
    by (simp add: st'_def mips_elf_relax_delete_bytes_def Let_def fold_move_symbol [OF assms(4)])
  then show "if h \<in> set (rx_hashes env) \<and> defined_in (rx_sec env) (rx_syms st h)
         then code_place (rx_syms st' h) = moved addr count (code_place (rx_syms st h))
           \<and> rx_syms st' h = (rx_syms st h)\<lparr>def_value := def_value (rx_syms st' h)\<rparr>
         else rx_syms st' h = rx_syms st h"
    by (auto simp: move_symbol_alt code_place_def moved_def even_code_place [OF assms(3)])
qed

definition example_relax_env :: relax_env where
  "example_relax_env =
     \<lparr>rx_bfd = le_bfd, rx_sec = \<lparr>sec_id = 1, sec_name = ''.text'', sec_flags = {SEC_ALLOC, SEC_LOAD, SEC_CODE, SEC_RELOC}, sec_size = 12,
        output_section = Some \<lparr>osec_id = 1, osec_name = ''.text'', osec_vma = 0x400000\<rparr>, output_offset = 0\<rparr>,
      rx_shndx = 1, rx_hashes = [0], section_base = \<lambda>_. 0x400000, past_end = \<lparr>r_offset = 0, r_info = 0, r_addend = 0\<rparr>\<rparr>"

text \<open>A branch on register 4 with its NOP, a halfword, and a symbol behind them.\<close>

definition example_relax :: relax_state where
  "example_relax =
     \<lparr>rx_contents = [0x04, 0x94, 0, 0, 0, 0x0c, 0x55, 0x66], rx_size = 8,
      rx_relocs = [\<lparr>r_offset = 0, r_info = 0x18d, r_addend = 0\<rparr>],
      rx_isyms = [\<lparr>st_shndx = 0, st_value = 0, isym_other = 0\<rparr>, \<lparr>st_shndx = 1, st_value = 6, isym_other = 0x80\<rparr>],
      rx_syms = \<lambda>_. example_sym, rx_again = False\<rparr>"

theorem delete_keeps_labels_witness:
  "rx_contents (mips_elf_relax_delete_bytes example_relax_env 4 2 example_relax) ! 4 = 0x55
   \<and> map st_value (rx_isyms (mips_elf_relax_delete_bytes example_relax_env 4 2 example_relax)) = [0, 4]"
proof -
  note d = delete_keeps_labels [of 4 2 example_relax example_relax_env]
  have "rx_contents (mips_elf_relax_delete_bytes example_relax_env 4 2 example_relax) ! unat (moved 4 2 6) = rx_contents example_relax ! unat (6::vma)"
    using d by (simp add: example_relax_def example_relax_env_def)
  moreover have "rx_isyms (mips_elf_relax_delete_bytes example_relax_env 4 2 example_relax)
      = map (\<lambda>s. if st_shndx s = rx_shndx example_relax_env then s\<lparr>st_value := moved 4 2 (st_value s)\<rparr> else s) (rx_isyms example_relax)"
    using d by (simp add: example_relax_def example_relax_env_def)
  ultimately show ?thesis
    by (simp add: moved_def example_relax_def example_relax_env_def)
qed

section \<open>The instructions\<close>

text \<open>What a conditional branch of either length tests, and the operands of a move.\<close>

datatype branch_condition = on_equal | on_different

type_synonym branch_test = "branch_condition \<times> vma \<times> vma"

definition decode_branch_32 :: "vma \<Rightarrow> branch_test option" where
  "decode_branch_32 op =
     (if op AND 0xfc000000 = 0x94000000 then Some (on_equal, OP32_SREG op, OP32_TREG op)
      else if op AND 0xfc000000 = 0xb4000000 then Some (on_different, OP32_SREG op, OP32_TREG op)
      else if op AND 0xffe00000 = 0x40e00000 then Some (on_equal, OP32_SREG op, 0)
      else if op AND 0xffe00000 = 0x40a00000 then Some (on_different, OP32_SREG op, 0)
      else None)"

text \<open>The eight registers that 16-bit instructions reach.\<close>

definition reg_16 :: "vma \<Rightarrow> vma" where
  "reg_16 n = (if n < 2 then n + 16 else n)"


definition read_reg :: "(vma \<Rightarrow> vma) \<Rightarrow> vma \<Rightarrow> vma" where
  "read_reg R r = (if r = 0 then 0 else R r)"

fun branch_taken :: "branch_test \<Rightarrow> (vma \<Rightarrow> vma) \<Rightarrow> bool" where
  "branch_taken (on_equal, a, b) R = (read_reg R a = read_reg R b)"
| "branch_taken (on_different, a, b) R = (read_reg R a \<noteq> read_reg R b)"


text \<open>Reading the fields of an instruction that was put together.\<close>

lemma and_push_bit: "push_bit k x AND m = push_bit k (x AND drop_bit k (m::vma))"
  by (auto intro!: bit_word_eqI simp: bit_simps)

lemma push_small: "k + n \<le> 64 \<Longrightarrow> take_bit n x = x \<Longrightarrow> drop_bit k (push_bit k x) = (x::vma)"
  by (rule bit_word_eqI) (auto simp: bit_simps dest: bit_below)

lemma push_less: "k + j + n \<le> 64 \<Longrightarrow> take_bit n x = x \<Longrightarrow> drop_bit k (push_bit (k + j) x) = push_bit j (x::vma)"
  by (rule bit_word_eqI) (auto simp: bit_simps dest: bit_below)

lemma drop_all: "take_bit n x = x \<Longrightarrow> k + n \<le> j \<Longrightarrow> drop_bit j (push_bit k x) = (0::vma)"
  by (rule bit_word_eqI) (auto simp: bit_simps dest: bit_below)

lemmas field_rules = bit.conj_disj_distrib2 drop_bit_or drop_bit_and and_push_bit and.assoc

lemma reg_bits: "take_bit 5 (r AND 0x1f) = (r AND 0x1f :: vma)" "take_bit 3 (r AND 7) = (r AND 7 :: vma)"
  by (simp_all only: take_bit_and_right, simp_all)

lemma compact_fields:
  assumes "m \<in> {0x40e00000, 0x40a00000}"
  shows "(m OR push_bit 16 (r AND 0x1f) OR (op AND 0xffff)) AND 0xfc000000 = 0x40000000"
    "(m OR push_bit 16 (r AND 0x1f) OR (op AND 0xffff)) AND 0xffe00000 = m"
    "drop_bit 16 (m OR push_bit 16 (r AND 0x1f) OR (op AND 0xffff)) AND 0x1f = (r :: vma) AND 0x1f"
    "(m OR push_bit 16 (r AND 0x1f) OR (op AND 0xffff)) AND 0xffff = op AND 0xffff"
proof -
  have p: "push_bit 16 (r AND 0x1f) AND 0xfc000000 = 0" "push_bit 16 (r AND 0x1f) AND 0xffe00000 = 0"
    "push_bit 16 (r AND 0x1f) AND 0xffff = 0" "drop_bit 16 (push_bit 16 (r AND 0x1f)) = r AND 0x1f"
    by ((simp only: and_push_bit and.assoc, simp)+, simp only: push_small [OF _ reg_bits(1)])
  have q: "op AND 0xffff AND 0xfc000000 = 0" "op AND 0xffff AND 0xffe00000 = 0" "drop_bit 16 (op AND 0xffff) = 0"
    by (simp_all only: and.assoc drop_bit_and, simp_all)
  show "(m OR push_bit 16 (r AND 0x1f) OR (op AND 0xffff)) AND 0xfc000000 = 0x40000000"
    "(m OR push_bit 16 (r AND 0x1f) OR (op AND 0xffff)) AND 0xffe00000 = m"
    "(m OR push_bit 16 (r AND 0x1f) OR (op AND 0xffff)) AND 0xffff = op AND 0xffff"
    using assms by (auto simp only: bit.conj_disj_distrib2 p q and.assoc) simp_all
  show "drop_bit 16 (m OR push_bit 16 (r AND 0x1f) OR (op AND 0xffff)) AND 0x1f = r AND 0x1f"
    using assms by (auto simp only: drop_bit_or bit.conj_disj_distrib2 p q and.assoc) simp_all
qed

lemma short_fields:
  assumes "m \<in> {0x8c00, 0xac00}"
  shows "(m OR push_bit 7 (r AND 7) OR (op AND 0x7f)) AND 0xfc00 = (m :: vma)"
    "drop_bit 7 (m OR push_bit 7 (r AND 7) OR (op AND 0x7f)) AND 7 = r AND 7"
    "(m OR push_bit 7 (r AND 7) OR (op AND 0x7f)) AND 0x7f = op AND 0x7f"
proof -
  have p: "push_bit 7 (r AND 7) AND 0xfc00 = 0" "push_bit 7 (r AND 7) AND 0x7f = 0" "drop_bit 7 (push_bit 7 (r AND 7)) = r AND 7"
    by ((simp only: and_push_bit and.assoc, simp)+, simp only: push_small [OF _ reg_bits(2)])
  have q: "op AND 0x7f AND 0xfc00 = 0" "drop_bit 7 (op AND 0x7f) = 0"
    by (simp_all only: and.assoc drop_bit_and, simp_all)
  show "(m OR push_bit 7 (r AND 7) OR (op AND 0x7f)) AND 0xfc00 = m"
    "(m OR push_bit 7 (r AND 7) OR (op AND 0x7f)) AND 0x7f = op AND 0x7f"
    using assms by (auto simp only: bit.conj_disj_distrib2 p q and.assoc) simp_all
  show "drop_bit 7 (m OR push_bit 7 (r AND 7) OR (op AND 0x7f)) AND 7 = r AND 7"
    using assms by (auto simp only: drop_bit_or bit.conj_disj_distrib2 p q and.assoc) simp_all
qed

text \<open>The entries of the tables that match an instruction.\<close>

lemma find_match_pair:
  "find_match op [d0, d1] = (if MATCH op d0 then Some 0 else if MATCH op d1 then Some 1 else None)"
  by (simp add: find_match_def upt_rec [of 0] upt_rec [of 1])




lemma decode_compact:
  assumes "n < 2"
  shows "decode_branch_32 (compact_branch op n) = Some ([on_equal, on_different] ! n, bz_reg op AND 0x1f, 0)"
    "compact_branch op n AND 0xffff = op AND 0xffff"
proof -
  have n: "n = 0 \<or> n = 1"
    using assms by linarith
  note f = compact_fields [of "0x40e00000" "bz_reg op" op] compact_fields [of "0x40a00000" "bz_reg op" op]
  show "decode_branch_32 (compact_branch op n) = Some ([on_equal, on_different] ! n, bz_reg op AND 0x1f, 0)"
    "compact_branch op n AND 0xffff = op AND 0xffff"
    using n f by (auto simp: compact_branch_def bzc_insns_32_def BZC32_REG_FIELD_def decode_branch_32_def OP32_SREG_def)
qed

lemma reg_5 [simp]: "OP32_SREG op AND 0x1f = OP32_SREG op" "OP32_TREG op AND 0x1f = OP32_TREG op"
  by (simp_all only: OP32_SREG_def OP32_TREG_def and.assoc) simp_all

lemma bz_reg_5: "bz_reg op AND 0x1f = bz_reg op"
  by (simp add: bz_reg_def)



text \<open>The register field of 16-bit branches.\<close>

lemma valid_reg_cases:
  assumes "OP16_VALID_REG r"
  shows "r \<in> {2, 3, 4, 5, 6, 7, 16, 17}"
proof -
  have "2 \<le> unat r \<and> unat r \<le> 7 \<or> 16 \<le> unat r \<and> unat r \<le> 17"
    using assms by (auto simp: OP16_VALID_REG_def word_le_nat_alt)
  then have "unat r = 2 \<or> unat r = 3 \<or> unat r = 4 \<or> unat r = 5 \<or> unat r = 6 \<or> unat r = 7 \<or> unat r = 16 \<or> unat r = 17"
    by presburger
  moreover have "r = word_of_nat (unat r)"
    by simp
  ultimately show ?thesis
    by (elim disjE) simp_all
qed

lemma bz16_field:
  assumes "OP16_VALID_REG r"
  shows "BZ16_REG_FIELD r = push_bit 7 ((r AND 0xf) AND 7)" "reg_16 (r AND 0xf AND 7) = r"
  using valid_reg_cases [OF assms] by (auto simp: BZ16_REG_FIELD_def reg_16_def)








section \<open>Where relaxation goes wrong\<close>

lemma beq_fields:
  fixes rs rt imm :: vma
  defines "op \<equiv> 0x94000000 OR push_bit 21 (rt AND 0x1f) OR push_bit 16 (rs AND 0x1e) OR (imm AND 0xfff)"
  shows "op AND 0xfc000000 = 0x94000000" "op AND 0xfc01f000 = 0x94000000"
    "OP32_SREG op = rs AND 0x1e" "OP32_TREG op = rt AND 0x1f"
    "op AND 0xffe00000 = 0x94000000 OR push_bit 21 (rt AND 0x1f)"
    "op AND 0xffe00000 = 0xb4000000 \<Longrightarrow> False"
proof -
  have b: "take_bit 5 (rs AND 0x1e) = rs AND 0x1e"
    by (simp only: take_bit_and_right, simp)
  have i: "push_bit 21 (rt AND 0x1f) AND 0xfc000000 = 0" "push_bit 16 (rs AND 0x1e) AND 0xfc000000 = 0"
    "push_bit 21 (rt AND 0x1f) AND 0xfc01f000 = 0" "push_bit 16 (rs AND 0x1e) AND 0xfc01f000 = 0"
    "push_bit 16 (rs AND 0x1e) AND 0xffe00000 = 0"
    by (simp_all only: and_push_bit and.assoc, simp_all)
  have e: "push_bit 21 (rt AND 0x1f) AND 0xffe00000 = push_bit 21 (rt AND 0x1f)"
    by (simp only: and_push_bit and.assoc, simp)
  have m: "(imm AND 0xfff) AND 0xfc000000 = 0" "(imm AND 0xfff) AND 0xfc01f000 = 0" "(imm AND 0xfff) AND 0xffe00000 = 0"
    "drop_bit 16 (imm AND 0xfff) = 0" "drop_bit 21 (imm AND 0xfff) = 0"
    by (simp_all only: and.assoc drop_bit_and, simp_all)
  have d: "drop_bit 16 (push_bit 16 (rs AND 0x1e)) = rs AND 0x1e" "drop_bit 21 (push_bit 21 (rt AND 0x1f)) = rt AND 0x1f"
    by (simp_all only: push_small [OF _ b] push_small [OF _ reg_bits(1)])
  have "drop_bit 16 (push_bit 21 (rt AND 0x1f)) = push_bit 5 (rt AND 0x1f)"
    using push_less [of 16 5 5, OF _ reg_bits(1)] by simp
  moreover have "drop_bit 21 (push_bit 16 (rs AND 0x1e)) = 0"
    by (rule drop_all [OF b]) simp
  ultimately have s: "drop_bit 16 (push_bit 21 (rt AND 0x1f)) AND 0x1f = 0" "drop_bit 21 (push_bit 16 (rs AND 0x1e)) AND 0x1f = 0"
    by (simp_all only: and_push_bit and.assoc, simp_all)
  show "op AND 0xfc000000 = 0x94000000" "op AND 0xfc01f000 = 0x94000000"
    by (simp_all only: op_def bit.conj_disj_distrib2 i m, simp_all)
  show x: "op AND 0xffe00000 = 0x94000000 OR push_bit 21 (rt AND 0x1f)"
    by (simp only: op_def bit.conj_disj_distrib2 i e m, simp)
  show "OP32_SREG op = rs AND 0x1e" "OP32_TREG op = rt AND 0x1f"
    unfolding OP32_SREG_def OP32_TREG_def op_def
    by (simp_all only: drop_bit_or bit.conj_disj_distrib2 d m s, simp_all add: and.assoc)
  show False if "op AND 0xffe00000 = 0xb4000000"
  proof -
    have "(op AND 0xffe00000) AND 0xfc000000 = 0xb4000000 AND 0xfc000000"
      by (simp only: that)
    then show False
      by (simp only: x bit.conj_disj_distrib2 i, simp)
  qed
qed

lemma find_branch:
  fixes rs rt imm :: vma
  defines "op \<equiv> 0x94000000 OR push_bit 21 (rt AND 0x1f) OR push_bit 16 (rs AND 0x1e) OR (imm AND 0xfff)"
  shows "bz_match op = Some 0"
  using beq_fields [where rt = rt and rs = rs and imm = imm, folded op_def]
  by (auto simp: bz_match_def bz_rs_insns_32_def bz_rt_insns_32_def find_match_pair MATCH_def)

text \<open>
  C39.  A branch that compares two registers can lose one of them: the mask of the table for \<^verbatim>\<open>beqz t,p\<close> looks at one bit of the first register
  and four bits of the offset in place of the five bits of the register.  A BEQ with an even first register and a small offset field
  followed by a NOP matches and becomes a compact branch that compares the first register with 0; the two differ on some register
  contents.
\<close>

theorem compact_branch_drops_register:
  fixes rs rt imm :: vma
  assumes "rs AND 0x1e \<noteq> 0" "rt AND 0x1f \<noteq> 0" "rs AND 0x1e \<noteq> rt AND 0x1f"
  defines "op \<equiv> 0x94000000 OR push_bit 21 (rt AND 0x1f) OR push_bit 16 (rs AND 0x1e) OR (imm AND 0xfff)"
  shows "bz_match op = Some 0 \<and> decode_branch_32 op = Some (on_equal, rs AND 0x1e, rt AND 0x1f)
     \<and> decode_branch_32 (compact_branch op 0) = Some (on_equal, rs AND 0x1e, 0)
     \<and> (\<exists>R. branch_taken (on_equal, rs AND 0x1e, 0) R \<noteq> branch_taken (on_equal, rs AND 0x1e, rt AND 0x1f) R)"
proof (intro conjI)
  note f = beq_fields [where rt = rt and rs = rs and imm = imm, folded op_def]
  show "bz_match op = Some 0"
    unfolding op_def by (rule find_branch)
  show "decode_branch_32 op = Some (on_equal, rs AND 0x1e, rt AND 0x1f)"
    using f by (simp add: decode_branch_32_def)
  have "bz_reg op = rs AND 0x1e"
    using f(3) assms(1) by (simp add: bz_reg_def)
  then show "decode_branch_32 (compact_branch op 0) = Some (on_equal, rs AND 0x1e, 0)"
    using decode_compact(1) [of 0 op] bz_reg_5 [of op] by simp
  have "branch_taken (on_equal, rs AND 0x1e, 0) (\<lambda>r. if r = rt AND 0x1f then 1 else 0)
      \<noteq> branch_taken (on_equal, rs AND 0x1e, rt AND 0x1f) (\<lambda>r. if r = rt AND 0x1f then 1 else 0)"
    using assms(1-3) by (simp add: read_reg_def)
  then show "\<exists>R. branch_taken (on_equal, rs AND 0x1e, 0) R \<noteq> branch_taken (on_equal, rs AND 0x1e, rt AND 0x1f) R"
    by blast
qed

theorem compact_branch_drops_register_witness:
  "decode_branch_32 0x94440000 = Some (on_equal, 4, 2) \<and> decode_branch_32 (compact_branch 0x94440000 0) = Some (on_equal, 4, 0)"
  using compact_branch_drops_register [of 4 2 0] by simp

text \<open>
  The register of a 16-bit BEQZ or BNEZ is misread for registers 16 and 17 (as 24 and 25), so that a branch on one of them
  counts as one that leaves it alone, and a LUI that sets it before the branch is deleted.
\<close>

theorem bz16_register_misread:
  assumes "OP16_VALID_REG r" "bfd_get_16 abfd data ptr = 0x8c00 OR BZ16_REG_FIELD r OR (imm AND 0x7f)"
  shows "check_br16 abfd data ptr r \<longleftrightarrow> 16 \<le> r"
proof -
  let ?op = "bfd_get_16 abfd data ptr"
  note f = short_fields [of "0x8c00" "r AND 0xf" imm] and z = bz16_field(1) [OF assms(1)]
  have op: "?op AND 0xfc00 = 0x8c00" "drop_bit 7 ?op AND 7 = (r AND 0xf) AND 7"
    using f by (simp_all add: assms(2) z)
  have m: "?op AND k = 0x8c00 AND k" if "0xfc00 AND k = k" for k
  proof -
    have "?op AND k = (?op AND 0xfc00) AND k"
      by (simp only: and.assoc that)
    then show ?thesis
      by (simp only: op)
  qed
  have n: "\<not> MATCH ?op b_insn_16" "MATCH ?op bz_insn_16"
    using op(1) m [of "0xdc00"] by (simp_all add: MATCH_def b_insn_16_def bz_insn_16_def)
  have x: "?op AND 0xffe0 \<noteq> v" if "v AND 0xfc00 \<noteq> 0x8c00" for v
  proof
    assume "?op AND 0xffe0 = v"
    then have "(?op AND 0xffe0) AND 0xfc00 = v AND 0xfc00"
      by simp
    then show False
      using op(1) that by (simp add: and.assoc)
  qed
  have "\<not> MATCH ?op jr_insn_16" "\<not> MATCH ?op jalr_insn_16_bd32"
    using x by (simp_all add: MATCH_def jr_insn_16_def jalr_insn_16_bd32_def)
  moreover have "BZ16_REG ?op = (if 16 \<le> r then r + 8 else r)"
    using valid_reg_cases [OF assms(1)] by (auto simp: BZ16_REG_def op(2))
  ultimately show ?thesis
    using n valid_reg_cases [OF assms(1)] by (auto simp: check_br16_def Let_def)
qed

theorem bz16_register_misread_witness: "check_br16 le_xvec [0x04, 0x8c] 0 16"
  using bz16_register_misread [of 16 le_xvec "[0x04, 0x8c]" 0 4]
  by (simp add: OP16_VALID_REG_def BZ16_REG_FIELD_def bytes_eval)

text \<open>
  A second LO16 relocation against the same symbol does not stop the LUI from being deleted: its test has the comparison with the end
  of the relocations the wrong way round, so the relocation is not looked at when there is one, and for a pair at the end of the list what
  lies behind the array decides.
\<close>

theorem second_low_part_unchecked:
  "(i + 2 < length rels \<longrightarrow> hi16_paired env (rels[i + 2 := r]) i = hi16_paired env rels i)
   \<and> (i + 2 = length rels \<and> hi16_paired env rels i
       \<longrightarrow> \<not> hi16_paired (env\<lparr>past_end := rels ! (i + 1)\<rparr>) rels i)"
  by (auto simp: hi16_paired_def Let_def)

lemma example_pairs:
  "hi16_paired example_relax_env
     [\<lparr>r_offset = 0, r_info = 0x186, r_addend = 0\<rparr>, \<lparr>r_offset = 4, r_info = 0x187, r_addend = 0\<rparr>, \<lparr>r_offset = 8, r_info = 0, r_addend = 0\<rparr>] 0"
  by (simp add: hi16_paired_def Let_def ELF32_R_TYPE_def ELF32_R_SYM_def bit_masks)

lemma update_third: "[a, b, c] [0 + 2 := d] = [a, b, d]" "0 + 2 < length [a, b, c]"
  by (simp_all add: numeral_2_eq_2)

theorem second_low_part_unchecked_witness:
  "hi16_paired example_relax_env
     [\<lparr>r_offset = 0, r_info = 0x186, r_addend = 0\<rparr>, \<lparr>r_offset = 4, r_info = 0x187, r_addend = 0\<rparr>, \<lparr>r_offset = 8, r_info = 0x187, r_addend = 0\<rparr>] 0"
  using second_low_part_unchecked [of 0 "[\<lparr>r_offset = 0, r_info = 0x186, r_addend = 0\<rparr>, \<lparr>r_offset = 4, r_info = 0x187, r_addend = 0\<rparr>,
      \<lparr>r_offset = 8, r_info = 0, r_addend = 0\<rparr>]" example_relax_env "\<lparr>r_offset = 8, r_info = 0x187, r_addend = 0\<rparr>"]
    example_pairs
  unfolding update_third(1) by (simp only: update_third(2) simp_thms)

section \<open>Repeating the pass\<close>

text \<open>What the argument needs of the accessors and of the sizes; a read outside the contents yields 0.\<close>

definition relax_bound :: "relax_env \<Rightarrow> relax_state \<Rightarrow> bool" where
  "relax_bound env st \<longleftrightarrow> length (rx_contents st) + 4 * unat (rx_size st) < 2 ^ 62"

lemma length_put_16: "xvec_ok x \<Longrightarrow> length (bfd_put_16 x v d p) \<le> length d + 2"
  using byte_codec.length_enc [OF xvec_ok16] by (simp add: accessor_defs put_at_def)

lemma length_put_insn_32: "xvec_ok x \<Longrightarrow> length (bfd_put_micromips_32 x v d p) \<le> length d + 4"
  using length_put_16 [of x "drop_bit 16 v AND 0xffff" d p]
    length_put_16 [of x "v AND 0xffff" "bfd_put_16 x (drop_bit 16 v AND 0xffff) d p" "p + 2"]
  unfolding bfd_put_micromips_32_def Let_def by linarith

lemma length_delete:
  "length (rx_contents (mips_elf_relax_delete_bytes env addr count st)) \<le> length (rx_contents st)"
proof -
  have "a + (L - (a + k)) + (L - (a + n)) \<le> L" if "L - (a + k) \<le> n" "a < L" for a k n L :: nat
    using that by arith
  moreover have "a + n + (L - (a + n)) \<le> L" if "n \<le> L - (a + k)" "a < L" for a k n L :: nat
    using that by arith
  ultimately show ?thesis
    by (simp add: mips_elf_relax_delete_bytes_def Let_def min_def not_le add.assoc)
qed

lemma get_outside:
  assumes "getx16 x [] = 0" "length d \<le> p"
  shows "bfd_get_micromips_32 x d p = 0"
  using assms by (simp add: bfd_get_micromips_32_def accessor_defs get_at_def)

lemma no_match_0:
  "\<not> MATCH 0 lui_insn" "bz_match 0 = None" "find_match 0 b_insns_32 = None" "bz_match_16 0 = None" "\<not> MATCH 0 jal_insn_32_bd32"
  by (simp_all add: MATCH_def lui_insn_def jal_insn_32_bd32_def bz_match_def bz_match_16_def b_insns_32_def bz_rs_insns_32_def
      bz_rt_insns_32_def find_match_pair)

lemma relax_inside:
  assumes "relax_insn env i st = Some r" "getx16 (bfd_xvec (rx_bfd env)) [] = 0"
  shows "unat (r_offset (rx_relocs st ! i)) < length (rx_contents st)"
proof (rule ccontr)
  assume "\<not> unat (r_offset (rx_relocs st ! i)) < length (rx_contents st)"
  then have "bfd_get_micromips_32 (bfd_xvec (rx_bfd env)) (rx_contents st) (unat (r_offset (rx_relocs st ! i))) = 0"
    by (intro get_outside [OF assms(2)]) simp
  then show False
    using assms(1) by (auto simp: relax_insn_def relax_branch_def Let_def no_match_0 split: if_split_asm option.split_asm)
qed

text \<open>The shape of a replacement: the deleted bytes lie inside the section.\<close>

definition replaced :: "relax_state \<Rightarrow> vma \<Rightarrow> relax_state \<times> vma \<times> vma \<Rightarrow> bool" where
  "replaced st here r \<longleftrightarrow>
     (case r of (st', addr, count) \<Rightarrow>
        rx_size st' = rx_size st \<and> length (rx_contents st') \<le> length (rx_contents st) + 6
        \<and> (count = 4 \<and> addr = here \<and> here + 4 \<le> rx_size st
           \<or> count = 2 \<and> (\<exists>k \<in> {2, 4, 6}. addr = here + k \<and> here + (k + 1) < rx_size st)))"

lemma size_set_reloc [simp]: "rx_size (set_reloc_type i t st) = rx_size st" "rx_contents (set_reloc_type i t st) = rx_contents st"
  by (simp_all add: set_reloc_type_def Let_def)

lemma length_store:
  assumes "xvec_ok x"
  shows "length (bfd_put_16 x v d p) \<le> length d + 6" "length (bfd_put_micromips_32 x v d p) \<le> length d + 6"
  using length_put_16 [OF assms, of v d p] length_put_insn_32 [OF assms, of v d p] by linarith+

lemma hi16_replaced:
  assumes "relax_hi16 env i opcode symval pcrval st = Some r" "xvec_ok (bfd_xvec (rx_bfd env))"
    "r_offset (rx_relocs st ! i) + 4 \<le> rx_size st"
  shows "replaced st (r_offset (rx_relocs st ! i)) r"
  using assms(1,3) length_store [OF assms(2)]
  by (auto simp: relax_hi16_def Let_def replaced_def split: if_split_asm)

lemma branch_replaced:
  assumes "relax_branch env i opcode pcrval st = Some r" "xvec_ok (bfd_xvec (rx_bfd env))"
    "r_offset (rx_relocs st ! i) + 3 < rx_size st"
  shows "replaced st (r_offset (rx_relocs st ! i)) r"
  using assms(1,3) length_store [OF assms(2)]
  by (auto simp: relax_branch_def Let_def replaced_def split: if_split_asm)

lemma jal_replaced:
  assumes "relax_jal env i st = Some r" "xvec_ok (bfd_xvec (rx_bfd env))" "r_offset (rx_relocs st ! i) + 7 < rx_size st"
  shows "replaced st (r_offset (rx_relocs st ! i)) r"
proof -
  have "length (bfd_put_micromips_32 (bfd_xvec (rx_bfd env)) v (bfd_put_16 (bfd_xvec (rx_bfd env)) w c q) p) \<le> length c + 6" for v w c p q
    using length_put_16 [OF assms(2), of w c q] length_put_insn_32 [OF assms(2), of v "bfd_put_16 (bfd_xvec (rx_bfd env)) w c q" p]
    by linarith
  then show ?thesis
    using assms(1,3) by (auto simp: relax_jal_def Let_def replaced_def split: if_split_asm)
qed

lemma insn_replaced:
  assumes "relax_insn env i st = Some r" "xvec_ok (bfd_xvec (rx_bfd env))" "getx16 (bfd_xvec (rx_bfd env)) [] = 0" "relax_bound env st"
  shows "replaced st (r_offset (rx_relocs st ! i)) r \<and> unat (r_offset (rx_relocs st ! i)) < 2 ^ 62"
proof -
  let ?h = "r_offset (rx_relocs st ! i)"
  have h: "unat ?h < 2 ^ 62"
    using relax_inside [OF assms(1,3)] assms(4) by (simp add: relax_bound_def)
  have three: "?h + 3 < rx_size st" if "?h + 4 \<le> rx_size st"
    using that h by (simp add: word_le_nat_alt word_less_nat_alt unat_word_ariths)
  consider opcode v p where "relax_hi16 env i opcode v p st = Some r" "?h + 4 \<le> rx_size st"
    | opcode p where "relax_branch env i opcode p st = Some r" "?h + 4 \<le> rx_size st"
    | "relax_jal env i st = Some r" "?h + 7 < rx_size st"
    using assms(1) by (auto simp: relax_insn_def Let_def not_less split: if_split_asm option.split_asm)
  then have "replaced st ?h r"
  proof cases
    case 1
    then show ?thesis
      by (rule hi16_replaced [OF _ assms(2)])
  next
    case 2
    then show ?thesis
      using three by (intro branch_replaced [OF _ assms(2)])
  next
    case 3
    then show ?thesis
      by (rule jal_replaced [OF _ assms(2)])
  qed
  then show ?thesis
    using h by simp
qed

lemma reloc_progress:
  assumes "xvec_ok (bfd_xvec (rx_bfd env))" "getx16 (bfd_xvec (rx_bfd env)) [] = 0" "relax_bound env st"
  shows "relax_reloc env i st = st
    \<or> rx_again (relax_reloc env i st) \<and> relax_bound env (relax_reloc env i st)
      \<and> (\<exists>c \<in> {2, 4}. unat (rx_size (relax_reloc env i st)) + c = unat (rx_size st))"
proof (cases "relax_insn env i st")
  case (Some r)
  obtain st' addr count where r: "r = (st', addr, count)"
    by (cases r)
  let ?h = "r_offset (rx_relocs st ! i)" and ?d = "mips_elf_relax_delete_bytes env addr count st'"
  have rep: "replaced st ?h r" and h: "unat ?h < 2 ^ 62"
    using insn_replaced [OF Some assms] by simp_all
  have c: "count \<in> {2, 4}" "count \<le> rx_size st" and same: "rx_size st' = rx_size st" "length (rx_contents st') \<le> length (rx_contents st) + 6"
    using rep h by (auto simp: r replaced_def word_le_nat_alt word_less_nat_alt unat_word_ariths)
  have size: "unat (rx_size ?d) = unat (rx_size st) - unat count" "unat count \<le> unat (rx_size st)" "unat count \<in> {2, 4}"
    using c by (auto simp: mips_elf_relax_delete_bytes_def Let_def same unat_sub word_le_nat_alt)
  moreover have "length (rx_contents ?d) \<le> length (rx_contents st) + 6"
    using length_delete [of env addr count st'] same(2) by linarith
  ultimately have "relax_bound env ?d"
    using assms(3) by (auto simp: relax_bound_def)
  moreover have "relax_reloc env i st = ?d\<lparr>rx_again := True\<rparr>"
    by (simp add: relax_reloc_def Some r)
  ultimately show ?thesis
    using size by (auto simp: relax_bound_def)
qed (simp add: relax_reloc_def)

lemma relocs_progress:
  assumes "xvec_ok (bfd_xvec (rx_bfd env))" "getx16 (bfd_xvec (rx_bfd env)) [] = 0" "relax_bound env st"
  shows "relax_bound env (fold (relax_reloc env) is' st)
    \<and> (\<exists>n. unat (rx_size (fold (relax_reloc env) is' st)) + 2 * n = unat (rx_size st)
         \<and> (rx_again (fold (relax_reloc env) is' st) \<longrightarrow> rx_again st \<or> 0 < n))"
  using assms(3)
proof (induction is' arbitrary: st)
  case Nil
  show ?case
    using Nil by (auto intro: exI [of _ 0])
next
  case (Cons i is')
  let ?st = "relax_reloc env i st"
  from reloc_progress [OF assms(1,2) Cons.prems, of i] show ?case
  proof
    assume "?st = st"
    then show ?thesis
      using Cons by simp
  next
    assume p: "rx_again ?st \<and> relax_bound env ?st \<and> (\<exists>c \<in> {2, 4}. unat (rx_size ?st) + c = unat (rx_size st))"
    then obtain m where m: "unat (rx_size ?st) + 2 * m = unat (rx_size st)" "0 < m"
      by (auto intro: that [of 1] that [of 2])
    obtain n where "relax_bound env (fold (relax_reloc env) is' ?st)" "unat (rx_size (fold (relax_reloc env) is' ?st)) + 2 * n = unat (rx_size ?st)"
      using Cons.IH p by blast
    then show ?thesis
      using m by (auto intro!: exI [of _ "n + m"])
  qed
qed

text \<open>A pass over relocations, contents and symbols that are in memory already.\<close>

definition relax_pass :: "relax_env \<Rightarrow> link_info \<Rightarrow> relax_state \<Rightarrow> relax_state" where
  "relax_pass env info st =
     snd (bfd_mips_elf_relax_section env info (Some (rx_relocs st)) (Some (rx_contents st)) (Some (rx_isyms st)) st)"

lemma pass_progress:
  assumes "xvec_ok (bfd_xvec (rx_bfd env))" "getx16 (bfd_xvec (rx_bfd env)) [] = 0" "relax_bound env st"
  shows "relax_bound env (relax_pass env info st)
    \<and> (\<exists>n. unat (rx_size (relax_pass env info st)) + 2 * n = unat (rx_size st) \<and> (rx_again (relax_pass env info st) \<longrightarrow> 0 < n))"
proof -
  let ?st = "st\<lparr>rx_again := False\<rparr>"
  have b: "relax_bound env ?st"
    using assms(3) by (simp add: relax_bound_def)
  have "relax_pass env info st = ?st \<or> (\<exists>is'. relax_pass env info st = fold (relax_reloc env) is' ?st)"
    by (auto simp: relax_pass_def bfd_mips_elf_relax_section_def relax_relocs_def Let_def)
  then show ?thesis
  proof
    assume "relax_pass env info st = ?st"
    then show ?thesis
      using b by (auto intro!: exI [of _ 0])
  next
    assume "\<exists>is'. relax_pass env info st = fold (relax_reloc env) is' ?st"
    then obtain is' where p: "relax_pass env info st = fold (relax_reloc env) is' ?st" ..
    show ?thesis
      using relocs_progress [OF assms(1,2) b, of is'] by (simp add: p)
  qed
qed

text \<open>
  C32.  Repeating the pass as long as it asks for it ends: a pass that changes something shortens the section, by an even number of
  bytes, so after at most half as many passes as the section has bytes one changes nothing.
\<close>

theorem relaxation_ends:
  assumes "xvec_ok (bfd_xvec (rx_bfd env))" "getx16 (bfd_xvec (rx_bfd env)) [] = 0" "relax_bound env st"
  shows "(\<exists>n \<le> unat (rx_size st) div 2. \<not> rx_again ((relax_pass env info ^^ Suc n) st))
    \<and> (\<forall>k. \<exists>n. unat (rx_size ((relax_pass env info ^^ k) st)) + 2 * n = unat (rx_size st))"
proof
  show "\<exists>n \<le> unat (rx_size st) div 2. \<not> rx_again ((relax_pass env info ^^ Suc n) st)"
    using assms(3)
  proof (induction "unat (rx_size st)" arbitrary: st rule: less_induct)
    case less
    let ?st = "relax_pass env info st"
    obtain n where p: "relax_bound env ?st" "unat (rx_size ?st) + 2 * n = unat (rx_size st)" "rx_again ?st \<longrightarrow> 0 < n"
      using pass_progress [OF assms(1,2) less.prems] by blast
    show ?case
    proof (cases "rx_again ?st")
      case True
      then obtain k where k: "k \<le> unat (rx_size ?st) div 2" "\<not> rx_again ((relax_pass env info ^^ Suc k) ?st)"
        using less.hyps [of ?st] p by auto
      have "\<not> rx_again ((relax_pass env info ^^ Suc (Suc k)) st)"
        using k(2) by (simp add: funpow_swap1)
      moreover have "Suc k \<le> unat (rx_size st) div 2"
        using k(1) p(2,3) True by linarith
      ultimately show ?thesis
        by blast
    qed (auto intro!: exI [of _ 0])
  qed
  show "\<forall>k. \<exists>n. unat (rx_size ((relax_pass env info ^^ k) st)) + 2 * n = unat (rx_size st)"
  proof
    fix k
    have "relax_bound env ((relax_pass env info ^^ k) st) \<and> (\<exists>n. unat (rx_size ((relax_pass env info ^^ k) st)) + 2 * n = unat (rx_size st))"
    proof (induction k)
      case (Suc k)
      then obtain n where n: "relax_bound env ((relax_pass env info ^^ k) st)" "unat (rx_size ((relax_pass env info ^^ k) st)) + 2 * n = unat (rx_size st)"
        by blast
      obtain m where "relax_bound env ((relax_pass env info ^^ Suc k) st)"
        "unat (rx_size ((relax_pass env info ^^ Suc k) st)) + 2 * m = unat (rx_size ((relax_pass env info ^^ k) st))"
        using pass_progress [OF assms(1,2) n(1), of info] by auto
      then show ?case
        using n(2) by (auto intro!: exI [of _ "m + n"])
    qed (use assms(3) in \<open>auto intro!: exI [of _ 0]\<close>)
    then show "\<exists>n. unat (rx_size ((relax_pass env info ^^ k) st)) + 2 * n = unat (rx_size st)" ..
  qed
qed

theorem relaxation_ends_witness:
  "\<exists>n \<le> 4. \<not> rx_again ((relax_pass example_relax_env example_info ^^ Suc n) example_relax)"
  using relaxation_ends [of example_relax_env example_relax example_info]
  by (simp add: relax_bound_def example_relax_env_def example_relax_def le_bfd_def le_xvec_def le_xvec_ok [unfolded le_xvec_def])

end
