(* ===== verification/JumpSpec.thy ===== *)
theory JumpSpec
  imports Relax RelocateSpec
begin

text \<open>
  The conversion of jumps through a register: a marked jump becomes a branch to the same target when
  the target is in range, and nothing else changes.
\<close>

definition jump_place :: "elf_rela \<Rightarrow> nat set" where
  "jump_place rel = {unat (r_offset rel) ..< unat (r_offset rel) + 4}"

definition is_jalr :: "jump_env \<Rightarrow> elf_rela \<Rightarrow> bool" where
  "is_jalr env rel \<longleftrightarrow> ELF_R_TYPE (rj_bfd env) (r_info rel) = R_MIPS_JALR"

definition jump_insn :: "jump_env \<Rightarrow> bytes \<Rightarrow> elf_rela \<Rightarrow> vma" where
  "jump_insn env c rel = bfd_get_32 (bfd_xvec (rj_bfd env)) c (unat (r_offset rel))"

definition jump_distance :: "jump_env \<Rightarrow> elf_rela \<Rightarrow> vma \<Rightarrow> vma" where
  "jump_distance env rel symval = symval + r_addend rel - (section_address (rj_sec env) + r_offset rel + 4)"

abbreviation is_jump :: "vma \<Rightarrow> bool" where
  "is_jump insn \<equiv> insn AND 0xfc1fffff = 0x0000f809 \<or> insn AND 0xfc1fffff = 0x00000008"

text \<open>The relation of the old and the new instruction at a marked jump.\<close>

definition converted :: "jump_env \<Rightarrow> link_info \<Rightarrow> (nat \<Rightarrow> link_sym) \<Rightarrow> elf_rela \<Rightarrow> vma \<Rightarrow> vma \<Rightarrow> bool" where
  "converted env info sy rel old new \<longleftrightarrow>
     (case jalr_symbol env info sy (ELF_R_SYM (rj_bfd env) (r_info rel)) of
        Some (jump_to symval) \<Rightarrow>
          if jump_in_range (jump_distance env rel symval) \<and> is_jump old
          then branch_target (section_address (rj_sec env) + r_offset rel) new = symval + r_addend rel
               \<and> drop_bit 16 new = (if old AND 0xfc1fffff = 0x0000f809 then 0x0411 else 0x1000)
          else new = old
      | _ \<Rightarrow> new = old)"

lemma low_bits_of_words:
  assumes "jump_in_range off"
  shows "push_bit 2 (signed_take_bit 15 (word_of_int (sint off div 4))) = off"
proof -
  have "word_of_int (sint off div 4) = (word_of_int (drop_bit 2 (sint off)) :: vma)"
    by (simp add: drop_bit_eq_div)
  moreover have "signed_take_bit 15 (word_of_int (drop_bit 2 (sint off)) :: vma) = signed_take_bit 15 (drop_bit 2 off)"
    by (rule bit_word_eqI) (auto simp: bit_simps bit_word_of_int_iff min_def)
  moreover have "push_bit 2 (signed_take_bit 15 (drop_bit 2 off)) = off"
  proof (rule branch_offset)
    have "- 0x8000 \<le> sint off div 4" "sint off div 4 < 0x8000"
      using assms by (simp_all add: jump_in_range_def)
    then show "- 0x20000 \<le> sint off" "sint off \<le> 0x1ffff"
      by presburger+
    show "take_bit 2 off = 0"
      using assms by (simp add: jump_in_range_def take_bit_eq_mask mask_eq_exp_minus_1)
  qed
  ultimately show ?thesis
    by simp
qed

lemma branch_for_jump_target:
  assumes "branch_for_jump old (jump_distance env rel v) = Some new" "jump_in_range (jump_distance env rel v)"
  shows "branch_target (section_address (rj_sec env) + r_offset rel) (take_bit 32 new) = v + r_addend rel
    \<and> drop_bit 16 (take_bit 32 new) = (if old AND 0xfc1fffff = 0x0000f809 then 0x0411 else 0x1000) \<and> is_jump old"
proof -
  let ?w = "word_of_int (sint (jump_distance env rel v) div 4) :: vma"
  obtain op where op: "op = 0x10000000 \<or> op = 0x04110000" "new = op OR (?w AND 0xffff)"
    "op = (if old AND 0xfc1fffff = 0x0000f809 then 0x04110000 else 0x10000000)" "is_jump old"
    using assms(1) by (auto simp: branch_for_jump_def Let_def split: if_splits)
  have new: "take_bit 32 new = new" "drop_bit 16 new = drop_bit 16 op"
    using op(1) by (auto simp: op(2) bit_masks drop_bit_or drop_bit_take_bit take_bit_or)
  have "signed_take_bit 15 new = signed_take_bit 15 ?w"
    unfolding op(2) by (rule stored_offset [OF op(1)])
  then have "push_bit 2 (signed_take_bit 15 new) = jump_distance env rel v"
    using low_bits_of_words [OF assms(2)] by simp
  then show ?thesis
    using op(3,4) by (simp add: new branch_target_def jump_distance_def)
qed

lemma relax_jumps_converts:
  assumes "relax_jumps env info sy rels (Some c) = Some (Inr c2)" "xvec_ok (bfd_xvec (rj_bfd env))"
    and "\<forall>rel \<in> set rels. is_jalr env rel \<longrightarrow> unat (r_offset rel) + 4 \<le> length c"
    and "sorted_wrt (\<lambda>r q. is_jalr env r \<and> is_jalr env q \<longrightarrow> jump_place r \<inter> jump_place q = {}) rels"
  shows "\<exists>c'. c2 = Some c' \<and> same_outside (\<Union> (jump_place ` {rel \<in> set rels. is_jalr env rel})) c c'
    \<and> (\<forall>rel \<in> set rels. is_jalr env rel \<longrightarrow> converted env info sy rel (jump_insn env c rel) (jump_insn env c' rel))"
  using assms(1,3,4)
proof (induction rels arbitrary: c)
  case Nil
  then show ?case by (intro exI [of _ c]) (simp add: same_outside_refl)
next
  case (Cons rel rels)
  let ?x = "bfd_xvec (rj_bfd env)" and ?F = "\<Union> (jump_place ` {rel \<in> set rels. is_jalr env rel})"
  define d where "d = (\<lambda>v. jump_distance env rel v)"
  show ?case
  proof (cases "is_jalr env rel")
    case False
    then have "{r \<in> set (rel # rels). is_jalr env r} = {r \<in> set rels. is_jalr env r}"
      "\<forall>r \<in> set (rel # rels). is_jalr env r \<longrightarrow> r \<in> set rels"
      by auto
    then show ?thesis
      using Cons.IH [of c] Cons.prems False by (simp add: is_jalr_def)
  next
    case True
    have p: "unat (r_offset rel) + 4 \<le> length c" and apart: "?F \<inter> jump_place rel = {}"
      using Cons.prems(2,3) True by auto
    text \<open>The first jump turns the contents into \<open>c1\<close>, and the others leave its instruction alone.\<close>
    have rest: "\<exists>c'. c2 = Some c' \<and> same_outside (\<Union> (jump_place ` {r \<in> set (rel # rels). is_jalr env r})) c c'
        \<and> (\<forall>r \<in> set (rel # rels). is_jalr env r \<longrightarrow> converted env info sy r (jump_insn env c r) (jump_insn env c' r))"
      if run: "relax_jumps env info sy rels (Some c1) = Some (Inr c2)" and c1: "same_outside (jump_place rel) c c1"
        and conv: "converted env info sy rel (jump_insn env c rel) (jump_insn env c1 rel)" for c1
    proof -
      have len: "length c1 = length c"
        using c1 by (simp add: same_outside_def)
      obtain c' where c': "c2 = Some c'" "same_outside ?F c1 c'"
        "\<forall>r \<in> set rels. is_jalr env r \<longrightarrow> converted env info sy r (jump_insn env c1 r) (jump_insn env c' r)"
        using Cons.IH [OF run] Cons.prems(2,3) len by auto
      have head: "jump_insn env c' rel = jump_insn env c1 rel"
        unfolding jump_insn_def using p apart len c'(2) by (intro get_32_cong) (simp_all add: jump_place_def)
      have others: "jump_insn env c1 r = jump_insn env c r" if "r \<in> set rels" "is_jalr env r" for r
        unfolding jump_insn_def using that Cons.prems(2,3) True c1 by (intro get_32_cong) (auto simp: jump_place_def)
      have "same_outside (\<Union> (jump_place ` {r \<in> set (rel # rels). is_jalr env r})) c c'"
        by (rule same_outside_trans [OF c1 c'(2)]) (use True in auto)
      then show ?thesis
        using c'(1,3) conv head others by auto
    qed
    have keep: ?thesis if "relax_jumps env info sy rels (Some c) = Some (Inr c2)"
      "converted env info sy rel (jump_insn env c rel) (jump_insn env c rel)"
      using rest [OF that(1) same_outside_refl that(2)] by simp
    show ?thesis
    proof (cases "\<exists>v. jalr_symbol env info sy (ELF_R_SYM (rj_bfd env) (r_info rel)) = Some (jump_to v) \<and> jump_in_range (d v)
        \<and> branch_for_jump (jump_insn env c rel) (d v) \<noteq> None")
      case False
      then show ?thesis
        using Cons.prems(1) True keep
        by (auto simp: is_jalr_def converted_def d_def jump_distance_def jump_insn_def branch_for_jump_def Let_def
            split: option.splits jump_symbol.splits if_splits)
    next
      case True
      then obtain v i where v: "jalr_symbol env info sy (ELF_R_SYM (rj_bfd env) (r_info rel)) = Some (jump_to v)" "jump_in_range (d v)"
        "branch_for_jump (jump_insn env c rel) (d v) = Some i"
        by blast
      let ?c1 = "bfd_put_32 ?x i c (unat (r_offset rel))"
      have run: "relax_jumps env info sy rels (Some ?c1) = Some (Inr c2)"
        using Cons.prems(1) v \<open>is_jalr env rel\<close> by (simp add: is_jalr_def d_def jump_distance_def jump_insn_def Let_def)
      have c1: "same_outside (jump_place rel) c ?c1"
        unfolding jump_place_def by (rule put_32_outside [OF assms(2) p])
      have "jump_insn env ?c1 rel = take_bit 32 i"
        using p assms(2) by (simp add: jump_insn_def bytes_simps)
      then have "converted env info sy rel (jump_insn env c rel) (jump_insn env ?c1 rel)"
        using branch_for_jump_target [OF v(3) [unfolded d_def] v(2) [unfolded d_def]] v(1,2) by (simp add: converted_def d_def)
      then show ?thesis
        by (rule rest [OF run c1])
    qed
  qed
qed

text \<open>
  C14.  Relaxing the jumps of a section converts every jump through a register that a relocation marks:
  when the target is known, aligned and in range of a branch, the new instruction is the branch of the
  same kind (\<^verbatim>\<open>bal\<close> for \<^verbatim>\<open>jalr\<close>, \<^verbatim>\<open>b\<close> for \<^verbatim>\<open>jr\<close>) that reaches the target plus the addend; every other
  marked instruction is kept.  No other byte changes.
\<close>

theorem jumps_become_branches:
  assumes "bfd_mips_relax_section env info sy (Some rels) (Some c) = Some (Inr c2)" "xvec_ok (bfd_xvec (rj_bfd env))"
    and "\<not> relocatable info"
    and "\<forall>rel \<in> set rels. is_jalr env rel \<longrightarrow> unat (r_offset rel) + 4 \<le> length c"
    and "sorted_wrt (\<lambda>r q. is_jalr env r \<and> is_jalr env q \<longrightarrow> jump_place r \<inter> jump_place q = {}) rels"
  shows "\<exists>c'. c2 = Some c' \<and> same_outside (\<Union> (jump_place ` {rel \<in> set rels. is_jalr env rel})) c c'
    \<and> (\<forall>rel \<in> set rels. is_jalr env rel \<longrightarrow> converted env info sy rel (jump_insn env c rel) (jump_insn env c' rel))"
  using relax_jumps_converts [of env info sy rels c c2] assms by (simp add: bfd_mips_relax_section_def)

definition example_jump_env :: jump_env where
  "example_jump_env =
     \<lparr>rj_bfd = le_bfd, rj_sec = text_section, rj_extsymoff = 2, rj_hashes = [],
      rj_isyms = Some [\<lparr>st_shndx = 0, st_value = 0, isym_other = 0\<rparr>, \<lparr>st_shndx = 1, st_value = 0x40, isym_other = 0\<rparr>],
      rj_section_base = \<lambda>_. section_address text_section, rj_symbolic = False\<rparr>"

text \<open>\<^verbatim>\<open>jalr $25\<close> and \<^verbatim>\<open>jr $25\<close> with their delay slots, both marked with the symbol at 0x40.\<close>

definition example_jumps :: bytes where
  "example_jumps = [0x09, 0xf8, 0x20, 0x03, 0, 0, 0, 0, 0x08, 0, 0x20, 0x03, 0, 0, 0, 0]"

definition example_marks :: "elf_rela list" where
  "example_marks =
     [\<lparr>r_offset = 0, r_info = 0x125, r_addend = 0\<rparr>, \<lparr>r_offset = 8, r_info = 0x125, r_addend = 0\<rparr>]"

theorem jumps_become_branches_witness:
  "\<exists>c'. bfd_mips_relax_section example_jump_env example_info (\<lambda>_. undefined) (Some example_marks) (Some example_jumps) = Some (Inr (Some c'))
     \<and> branch_target (section_address text_section) (bfd_get_32 le_xvec c' 0) = section_address text_section + 0x40
     \<and> branch_target (section_address text_section + 8) (bfd_get_32 le_xvec c' 8) = section_address text_section + 0x40"
proof -
  let ?c = "[0x0f, 0, 0x11, 0x04, 0, 0, 0, 0, 0x0d, 0, 0, 0x10, 0, 0, 0, 0]"
  have run: "bfd_mips_relax_section example_jump_env example_info (\<lambda>_. undefined) (Some example_marks) (Some example_jumps) = Some (Inr (Some ?c))"
    by code_simp
  have "\<forall>rel \<in> set example_marks. is_jalr example_jump_env rel \<and> unat (r_offset rel) + 4 \<le> length example_jumps"
    "sorted_wrt (\<lambda>r q. is_jalr example_jump_env r \<and> is_jalr example_jump_env q \<longrightarrow> jump_place r \<inter> jump_place q = {}) example_marks"
    "xvec_ok (bfd_xvec (rj_bfd example_jump_env))" "\<not> relocatable example_info"
    by (simp_all add: example_marks_def example_jump_env_def example_jumps_def is_jalr_def jump_place_def ELF_R_TYPE_def
        ABI_64_P_def le_bfd_def example_info_def take_bit_numeral_numeral bit_masks)
  with jumps_become_branches [OF run]
  have "\<forall>rel \<in> set example_marks.
      converted example_jump_env example_info (\<lambda>_. undefined) rel (jump_insn example_jump_env example_jumps rel) (jump_insn example_jump_env ?c rel)"
    by auto
  moreover have "jump_insn example_jump_env example_jumps (example_marks ! 0) = 0x0320f809"
    "jump_insn example_jump_env example_jumps (example_marks ! 1) = 0x03200008"
    by code_simp+
  moreover have "jalr_symbol example_jump_env example_info (\<lambda>_. undefined) 1 = Some (jump_to 0x400040)"
    by code_simp
  ultimately show ?thesis
    using run by (auto simp: example_marks_def example_jump_env_def jump_insn_def converted_def jump_distance_def jump_in_range_def
        ELF_R_SYM_def ABI_64_P_def le_bfd_def text_section_def section_address_def)
qed

end
