(* ===== verification/Plt.thy ===== *)
theory Plt
  imports CheckRelocs MultiGot Mach Relax
begin

text \<open>
  Dynamic symbols: the decision between lazy-binding stubs, PLT entries and copy relocations
  (\<^verbatim>\<open>_bfd_mips_elf_adjust_dynamic_symbol\<close>), and the code and tables written for a symbol when the link
  is finished (\<^verbatim>\<open>_bfd_mips_elf_finish_dynamic_symbol\<close>, its variant for VxWorks, and the PLT headers).

  The functions of elflink.c these call are fields of \<^verbatim>\<open>dyn_env\<close>.  \<^verbatim>\<open>.rel.plt\<close>, \<^verbatim>\<open>.rela.plt.unloaded\<close> and
  \<^verbatim>\<open>.rela.bss\<close> are lists of relocations; an entry is written by its index and the lists have
  the length the sizes of the sections give.  The result \<^verbatim>\<open>None\<close> is a null pointer that is followed.
\<close>

section \<open>Instructions and templates\<close>

definition LOAD_INTERLOCKS_P :: "bfd \<Rightarrow> bool" where
  "LOAD_INTERLOCKS_P abfd \<longleftrightarrow> e_flags abfd AND EF_MIPS_ARCH \<noteq> E_MIPS_ARCH_1 \<or> e_flags abfd AND EF_MIPS_MACH = E_MIPS_MACH_3900"

definition MIPS_ELF_LOAD_WORD :: "bfd \<Rightarrow> vma" where
  "MIPS_ELF_LOAD_WORD abfd = (if ABI_64_P abfd then 0xdc000000 else 0x8c000000)"

definition STUB_LW :: "bfd \<Rightarrow> vma" where "STUB_LW abfd = (if ABI_64_P abfd then 0xdf998010 else 0x8f998010)"
definition STUB_MOVE :: "bfd \<Rightarrow> vma" where "STUB_MOVE abfd = (if ABI_64_P abfd then 0x03e0782d else 0x03e07821)"
definition STUB_LUI :: "vma \<Rightarrow> vma" where "STUB_LUI val = 0x3c180000 + val"
definition STUB_JALR :: vma where "STUB_JALR = 0x0320f809"
definition STUB_ORI :: "vma \<Rightarrow> vma" where "STUB_ORI val = 0x37180000 + val"
definition STUB_LI16U :: "vma \<Rightarrow> vma" where "STUB_LI16U val = 0x34180000 + val"
definition STUB_LI16S :: "bfd \<Rightarrow> vma \<Rightarrow> vma" where
  "STUB_LI16S abfd val = (if ABI_64_P abfd then 0x64180000 + val else 0x24180000 + val)"

definition mips_o32_exec_plt0_entry :: "vma list" where
  "mips_o32_exec_plt0_entry =
     [0x3c1c0000, 0x8f990000, 0x279c0000, 0x031cc023, 0x03e07821, 0x0018c082, 0x0320f809, 0x2718fffe]"

definition mips_n32_exec_plt0_entry :: "vma list" where
  "mips_n32_exec_plt0_entry =
     [0x3c0e0000, 0x8dd90000, 0x25ce0000, 0x030ec023, 0x03e07821, 0x0018c082, 0x0320f809, 0x2718fffe]"

definition mips_n64_exec_plt0_entry :: "vma list" where
  "mips_n64_exec_plt0_entry =
     [0x3c0e0000, 0xddd90000, 0x25ce0000, 0x030ec023, 0x03e0782d, 0x0018c0c2, 0x0320f809, 0x2718fffe]"

definition mips_exec_plt_entry :: "vma list" where
  "mips_exec_plt_entry = [0x3c0f0000, 0x01f90000, 0x25f80000, 0x03200008]"

definition mips_vxworks_exec_plt0_entry :: "vma list" where
  "mips_vxworks_exec_plt0_entry = [0x3c190000, 0x27390000, 0x8f390008, 0, 0x03200008, 0]"

definition mips_vxworks_exec_plt_entry :: "vma list" where
  "mips_vxworks_exec_plt_entry = [0x10000000, 0x24180000, 0x3c190000, 0x27390000, 0x8f390000, 0, 0x03200008, 0]"

definition mips_vxworks_shared_plt0_entry :: "vma list" where
  "mips_vxworks_shared_plt0_entry = [0x8f990008, 0, 0x03200008, 0, 0, 0]"

definition mips_vxworks_shared_plt_entry :: "vma list" where
  "mips_vxworks_shared_plt_entry = [0x10000000, 0x24180000]"

text \<open>The sizes of a header and of an entry, set when the dynamic sections are created.\<close>

definition plt_sizes :: "link_info \<Rightarrow> vma \<times> vma" where
  "plt_sizes info =
     (if is_vxworks info then
        (if shared info then (of_nat (4 * length mips_vxworks_shared_plt0_entry), of_nat (4 * length mips_vxworks_shared_plt_entry))
         else (of_nat (4 * length mips_vxworks_exec_plt0_entry), of_nat (4 * length mips_vxworks_exec_plt_entry)))
      else if \<not> shared info then (of_nat (4 * length mips_o32_exec_plt0_entry), of_nat (4 * length mips_exec_plt_entry))
      else (0, 0))"

section \<open>Deciding what a dynamic symbol needs\<close>

text \<open>
  \<^verbatim>\<open>set_section_alignment\<close> is \<^verbatim>\<open>bfd_set_section_alignment\<close>, \<^verbatim>\<open>adjust_dynamic_copy\<close> is \<^verbatim>\<open>_bfd_elf_adjust_dynamic_copy\<close>
  and \<^verbatim>\<open>record_dynamic_symbol\<close> is \<^verbatim>\<open>bfd_elf_link_record_dynamic_symbol\<close>; the last two change the symbol table.
  \<^verbatim>\<open>weakdef\<close> is the real definition of a weak alias.
\<close>

record dyn_env =
  dyn_dynobj :: bfd
  use_plts_and_copy_relocs :: bool
  dyn_rel_size :: nat
  dyn_rela_size :: nat
  got_header_size :: vma
  log_file_align :: nat
  weakdef :: "nat \<Rightarrow> nat option"
  set_section_alignment :: "asection \<Rightarrow> nat \<Rightarrow> bool"
  adjust_dynamic_copy :: "nat \<Rightarrow> (nat \<Rightarrow> link_sym) \<Rightarrow> bool \<times> (nat \<Rightarrow> link_sym)"
  record_dynamic_symbol :: "nat \<Rightarrow> (nat \<Rightarrow> link_sym) \<Rightarrow> bool \<times> (nat \<Rightarrow> link_sym)"
  hgot :: "nat option"
  hplt_indx :: nat
  hgot_indx :: nat
  procedure_count :: vma

record dyn_state =
  dy_syms :: "nat \<Rightarrow> link_sym"
  splt_size :: vma
  sgotplt_size :: vma
  srelplt_size :: vma
  srelplt2_size :: vma
  srelbss_size :: vma
  dy_lazy_stub_count :: nat
  dy_rel_dyn :: "nat \<times> nat"
  dy_needs_copy :: "nat set"
  dy_textrel :: bool

abbreviation (input) sizeof_Elf32_External_Rela :: nat where "sizeof_Elf32_External_Rela \<equiv> 12"

abbreviation on_sym :: "nat \<Rightarrow> (link_sym \<Rightarrow> link_sym) \<Rightarrow> dyn_state \<Rightarrow> dyn_state" where
  "on_sym h f st \<equiv> st\<lparr>dy_syms := (dy_syms st)(h := f (dy_syms st h))\<rparr>"

definition dyn_allocate :: "dyn_env \<Rightarrow> link_info \<Rightarrow> nat \<Rightarrow> dyn_state \<Rightarrow> dyn_state" where
  "dyn_allocate env info n st =
     st\<lparr>dy_rel_dyn := mips_elf_allocate_dynamic_relocations (is_vxworks info) (dyn_rel_size env) (dyn_rela_size env) n (dy_rel_dyn st)\<rparr>"

text \<open>Room for the headers of \<^verbatim>\<open>.plt\<close> and \<^verbatim>\<open>.got.plt\<close> when the first entry is made; \<^verbatim>\<open>None\<close> when aligning fails.\<close>

definition start_plt :: "dyn_env \<Rightarrow> link_info \<Rightarrow> dyn_state \<Rightarrow> dyn_state option" where
  "start_plt env info st =
     (if splt_size st \<noteq> 0 then Some st
      else if \<not> is_vxworks info \<and> \<not> set_section_alignment env (the (splt info)) 5 then None
      else if \<not> set_section_alignment env (sgotplt info) (log_file_align env) then None
      else Some (st\<lparr>splt_size := splt_size st + plt_header_size info,
                    sgotplt_size := (if is_vxworks info then sgotplt_size st else sgotplt_size st + got_header_size env),
                    srelplt2_size := (if is_vxworks info \<and> \<not> shared info
                                      then srelplt2_size st + of_nat (2 * sizeof_Elf32_External_Rela) else srelplt2_size st)\<rparr>))"

definition add_plt_entry :: "dyn_env \<Rightarrow> link_info \<Rightarrow> nat \<Rightarrow> dyn_state \<Rightarrow> dyn_state" where
  "add_plt_entry env info h st =
     (let off = splt_size st;
          st = (on_sym h (\<lambda>s. s\<lparr>plt_offset := off\<rparr>) st)\<lparr>splt_size := off + plt_entry_size info\<rparr>;
          st = (if \<not> shared info \<and> \<not> def_regular (dy_syms st h)
                then on_sym h (\<lambda>s. s\<lparr>def_section := splt info,
                                     def_value := off + (if is_vxworks info then 8 else 0)\<rparr>) st
                else st);
          st = st\<lparr>sgotplt_size := sgotplt_size st + of_nat (MIPS_ELF_GOT_SIZE (dyn_dynobj env)),
                  srelplt_size := srelplt_size st + of_nat (if is_vxworks info then dyn_rela_size env else dyn_rel_size env),
                  srelplt2_size := (if is_vxworks info \<and> \<not> shared info
                                    then srelplt2_size st + of_nat (3 * sizeof_Elf32_External_Rela) else srelplt2_size st)\<rparr>
      in on_sym h (\<lambda>s. s\<lparr>possibly_dynamic_relocs := 0\<rparr>) st)"

text \<open>The rest of the function, for a symbol that needs neither a stub nor a PLT entry.\<close>

definition adjust_data_symbol :: "dyn_env \<Rightarrow> link_info \<Rightarrow> nat \<Rightarrow> dyn_state \<Rightarrow> bool \<times> dyn_state" where
  "adjust_data_symbol env info h st =
     (let s = dy_syms st h
      in case weakdef env h of
           Some w \<Rightarrow>
             (True, on_sym h (\<lambda>s. s\<lparr>def_section := def_section (dy_syms st w), def_value := def_value (dy_syms st w)\<rparr>) st)
         | None \<Rightarrow>
             if def_regular s \<or> \<not> has_static_relocs s then (True, st)
             else if \<not> use_plts_and_copy_relocs env \<or> shared info then (False, st)
             else
               let st = (if SEC_ALLOC \<in> sec_flags (the (def_section s))
                         then (if is_vxworks info
                               then st\<lparr>srelbss_size := srelbss_size st + of_nat sizeof_Elf32_External_Rela\<rparr>
                               else dyn_allocate env info 1 st)\<lparr>dy_needs_copy := insert h (dy_needs_copy st)\<rparr>
                         else st);
                   st = on_sym h (\<lambda>s. s\<lparr>possibly_dynamic_relocs := 0\<rparr>) st;
                   (ok, sy) = adjust_dynamic_copy env h (dy_syms st)
               in (ok, st\<lparr>dy_syms := sy\<rparr>))"

definition needs_plt_entry :: "dyn_env \<Rightarrow> link_info \<Rightarrow> link_sym \<Rightarrow> bool" where
  "needs_plt_entry env info s \<longleftrightarrow>
     ((needs_plt s \<and> \<not> no_fn_stub s) \<or> (elf_sym_type s = STT_FUNC \<and> has_static_relocs s))
     \<and> use_plts_and_copy_relocs env
     \<and> \<not> symbol_calls_local info s
     \<and> \<not> (ELF_ST_VISIBILITY (st_other s) \<noteq> STV_DEFAULT \<and> root_type s = bfd_link_hash_undefweak)"

definition bfd_mips_elf_adjust_dynamic_symbol :: "dyn_env \<Rightarrow> link_info \<Rightarrow> nat \<Rightarrow> dyn_state \<Rightarrow> bool \<times> dyn_state" where
  "bfd_mips_elf_adjust_dynamic_symbol env info h st =
     (let s = dy_syms st h
      in if \<not> is_vxworks info \<and> needs_plt s \<and> \<not> no_fn_stub s then
           (if \<not> dynamic_sections_created info then (True, st)
            else if \<not> def_regular s
            then (True, (on_sym h (\<lambda>s. s\<lparr>needs_lazy_stub := True\<rparr>) st)\<lparr>dy_lazy_stub_count := dy_lazy_stub_count st + 1\<rparr>)
            else adjust_data_symbol env info h st)
         else if needs_plt_entry env info s then
           (case start_plt env info st of None \<Rightarrow> (False, st) | Some st \<Rightarrow> (True, add_plt_entry env info h st))
         else adjust_data_symbol env info h st)"

section \<open>Writing the code and tables of a symbol\<close>

record out_sym =
  os_value :: vma
  os_size :: vma
  os_info :: nat
  os_other :: "8 word"
  os_shndx :: nat

record dyn_contents =
  dc_calc :: calc_state
  plt_bytes :: bytes
  gotplt_bytes :: bytes
  stub_bytes :: bytes
  rel_plt :: "elf_rela list"
  rel_plt_unloaded :: "elf_rela list"
  rel_bss :: "elf_rela list"

definition put_insns :: "xvec \<Rightarrow> vma list \<Rightarrow> bytes \<Rightarrow> nat \<Rightarrow> bytes" where
  "put_insns x is c off = fold (\<lambda>(i, v) c. bfd_put_32 x v c (off + 4 * i)) (enumerate 0 is) c"

abbreviation dyn_rela :: "bfd \<Rightarrow> int \<Rightarrow> r_type \<Rightarrow> vma \<Rightarrow> elf_rela" where
  "dyn_rela abfd indx r_type offset \<equiv>
     \<lparr>r_offset = offset, r_info = ELF_R_INFO abfd (unat (word_of_int indx :: vma)) r_type, r_addend = 0\<rparr>"

abbreviation (input) SHN_ABS :: nat where "SHN_ABS \<equiv> 0xfff1"
abbreviation (input) SHN_MIPS_TEXT :: nat where "SHN_MIPS_TEXT \<equiv> 0xff01"
abbreviation (input) SHN_MIPS_DATA :: nat where "SHN_MIPS_DATA \<equiv> 0xff02"
abbreviation (input) STO_PROTECTED :: "8 word" where "STO_PROTECTED \<equiv> 3"
abbreviation (input) STO_MIPS_PLT :: "8 word" where "STO_MIPS_PLT \<equiv> 8"
abbreviation (input) STO_MIPS16 :: "8 word" where "STO_MIPS16 \<equiv> 0xf0"
abbreviation (input) STT_SECTION :: nat where "STT_SECTION \<equiv> 3"
abbreviation (input) STT_TLS :: nat where "STT_TLS \<equiv> 6"
abbreviation (input) STB_GLOBAL :: nat where "STB_GLOBAL \<equiv> 1"
abbreviation (input) ELF_ST_INFO :: "nat \<Rightarrow> nat \<Rightarrow> nat" where "ELF_ST_INFO b t \<equiv> b * 16 + t"

definition plt_index :: "link_info \<Rightarrow> link_sym \<Rightarrow> vma" where
  "plt_index info s = (plt_offset s - plt_header_size info) div plt_entry_size info"

definition plt_entry_insns :: "bfd \<Rightarrow> vma \<Rightarrow> vma list" where
  "plt_entry_insns abfd got_address =
     (let high = drop_bit 16 (got_address + 0x8000) AND 0xffff; low = got_address AND 0xffff;
          load = MIPS_ELF_LOAD_WORD abfd; e = mips_exec_plt_entry
      in if \<not> LOAD_INTERLOCKS_P abfd
         then [e ! 0 OR high, (e ! 1 OR low) OR load, e ! 2 OR low, e ! 3]
         else [e ! 0 OR high, (e ! 1 OR low) OR load, e ! 3, e ! 2 OR low])"

text \<open>A PLT entry with its \<^verbatim>\<open>.got.plt\<close> word, which first points to the header, and its relocation.\<close>

definition finish_plt_entry ::
  "dyn_env \<Rightarrow> link_info \<Rightarrow> bfd \<Rightarrow> nat set \<Rightarrow> link_sym \<Rightarrow> out_sym \<Rightarrow> dyn_contents \<Rightarrow> out_sym \<times> dyn_contents" where
  "finish_plt_entry env info output_bfd ptr_eq s osym st =
     (let x = bfd_xvec output_bfd;
          header_address = section_address (the (splt info));
          index = plt_index info s;
          slot = (2 + index) * of_nat (MIPS_ELF_GOT_SIZE (dyn_dynobj env));
          got_address = section_address (sgotplt info) + slot;
          st = st\<lparr>gotplt_bytes := MIPS_ELF_PUT_WORD output_bfd header_address (gotplt_bytes st) (unat slot),
                  plt_bytes := put_insns x (plt_entry_insns output_bfd got_address) (plt_bytes st) (unat (plt_offset s)),
                  rel_plt := (rel_plt st)[unat index := dyn_rela output_bfd (dynindx s) R_MIPS_JUMP_SLOT got_address]\<rparr>;
          osym = osym\<lparr>os_shndx := SHN_UNDEF\<rparr>
      in (if sym_id s \<in> ptr_eq then osym\<lparr>os_other := STO_MIPS_PLT\<rparr> else osym\<lparr>os_value := 0\<rparr>, st))"

definition lazy_stub_insns :: "bfd \<Rightarrow> nat \<Rightarrow> vma \<Rightarrow> vma list" where
  "lazy_stub_insns abfd stub_size indx =
     [STUB_LW abfd, STUB_MOVE abfd]
     @ (if stub_size = MIPS_FUNCTION_STUB_BIG_SIZE then [STUB_LUI (drop_bit 16 indx AND 0x7fff)] else [])
     @ [STUB_JALR,
        if stub_size = MIPS_FUNCTION_STUB_BIG_SIZE then STUB_ORI (indx AND 0xffff)
        else if indx AND NOT 0x7fff \<noteq> 0 then STUB_LI16U (indx AND 0xffff)
        else STUB_LI16S abfd indx]"

text \<open>A lazy-binding stub; \<^verbatim>\<open>None\<close> is the failure for an index of more than 31 bits.\<close>

definition finish_lazy_stub ::
  "bfd \<Rightarrow> asection \<Rightarrow> nat \<Rightarrow> link_sym \<Rightarrow> out_sym \<Rightarrow> dyn_contents \<Rightarrow> (out_sym \<times> dyn_contents) option" where
  "finish_lazy_stub output_bfd sstubs stub_size s osym st =
     (let indx = word_of_int (dynindx s) :: vma;
          stub = concat (map (putx32 (bfd_xvec output_bfd)) (lazy_stub_insns output_bfd stub_size indx));
          off = unat (plt_offset s)
      in if indx AND NOT 0x7fffffff \<noteq> 0 then None
         else Some (osym\<lparr>os_shndx := SHN_UNDEF, os_value := section_address sstubs + plt_offset s\<rparr>,
                    st\<lparr>stub_bytes := take off (stub_bytes st) @ take stub_size stub @ drop (off + stub_size) (stub_bytes st)\<rparr>))"

text \<open>The word of a symbol in the primary table.\<close>

definition put_global_got ::
  "dyn_env \<Rightarrow> link_info \<Rightarrow> bfd \<Rightarrow> nat \<Rightarrow> vma \<Rightarrow> dyn_contents \<Rightarrow> (vma \<times> dyn_contents) option" where
  "put_global_got env info output_bfd h val st =
     (case mips_elf_global_got_index (dyn_dynobj env) (Some output_bfd) h R_MIPS_GOT16 info (gs (dc_calc st)) of
        None \<Rightarrow> None
      | Some (offset, g) \<Rightarrow>
          Some (offset, st\<lparr>dc_calc := (dc_calc st)\<lparr>gs := g\<lparr>sgot_contents := MIPS_ELF_PUT_WORD output_bfd val (sgot_contents g) (unat offset)\<rparr>\<rparr>\<rparr>))"

text \<open>The tables from \<^verbatim>\<open>g\<close> on whose successor is not the master table.\<close>

fun secondary_gots :: "nat \<Rightarrow> got_state \<Rightarrow> nat \<Rightarrow> nat list option" where
  "secondary_gots 0 st g = None"
| "secondary_gots (Suc fuel) st g =
     (case got_next (gots st ! g) of
        None \<Rightarrow> None
      | Some g' \<Rightarrow> if g' = 0 then Some [] else map_option ((#) g) (secondary_gots fuel st g'))"

text \<open>The word of a symbol in another table, with a dynamic relocation where the symbol can be replaced.\<close>

definition put_secondary_got ::
  "link_env \<Rightarrow> link_info \<Rightarrow> bfd \<Rightarrow> nat \<Rightarrow> vma \<Rightarrow> nat \<Rightarrow> calc_state \<Rightarrow> (bool \<times> calc_state) option" where
  "put_secondary_got lenv info output_bfd h val g st =
     (let e = \<lparr>ge_abfd = Some (bfd_id output_bfd), ge_symndx = -1, ge_d = D_h h, ge_tls_type = 0, gotidx = 0\<rparr>
      in case htab_find (gs st) (gots (gs st) ! g) e of
           None \<Rightarrow> Some (True, st)
         | Some p \<Rightarrow>
             let offset = word_of_int (gotidx (ents (gs st) ! p));
                 s = syms (gs st) (d_h (ge_d (ents (gs st) ! p)));
                 put = (\<lambda>v st. st\<lparr>gs := (gs st)\<lparr>sgot_contents := MIPS_ELF_PUT_WORD output_bfd v (sgot_contents (gs st)) (unat offset)\<rparr>\<rparr>)
             in if shared info \<or> (dynamic_sections_created info \<and> def_dynamic s \<and> \<not> def_regular s)
                then (case mips_elf_create_dynamic_relocation lenv info output_bfd
                             \<lparr>r_offset = offset, r_info = ELF_R_INFO output_bfd 0 (if ABI_64_P output_bfd then R_MIPS_64 else R_MIPS_32),
                              r_addend = 0\<rparr>
                             (Some (syms (gs st) h)) None val 0 (sgot info) st of
                        None \<Rightarrow> None
                      | Some (ok, entry, st) \<Rightarrow> Some (if ok then (True, put entry st) else (False, st)))
                else Some (True, put val st))"

fun until_failure :: "('a \<Rightarrow> 's \<Rightarrow> (bool \<times> 's) option) \<Rightarrow> 'a list \<Rightarrow> 's \<Rightarrow> (bool \<times> 's) option" where
  "until_failure f [] st = Some (True, st)"
| "until_failure f (x # xs) st =
     (case f x st of None \<Rightarrow> None | Some (ok, st) \<Rightarrow> if ok then until_failure f xs st else Some (False, st))"

definition put_secondary_gots ::
  "link_env \<Rightarrow> link_info \<Rightarrow> bfd \<Rightarrow> nat \<Rightarrow> vma \<Rightarrow> calc_state \<Rightarrow> (bool \<times> calc_state) option" where
  "put_secondary_gots lenv info output_bfd h val st =
     (let g = gs st
      in case got_next (gots g ! 0) of
           None \<Rightarrow> Some (True, st)
         | Some first \<Rightarrow>
             (case secondary_gots (Suc (length (gots g))) g first of
                None \<Rightarrow> None
              | Some gis \<Rightarrow> until_failure (put_secondary_got lenv info output_bfd h val) gis st))"

definition mips_elf_dynsym_rtproc_names :: "string list" where
  "mips_elf_dynsym_rtproc_names = [''_procedure_table'', ''_procedure_string_table'', ''_procedure_table_size'']"

definition special_symbol :: "dyn_env \<Rightarrow> bfd \<Rightarrow> link_sym \<Rightarrow> out_sym \<Rightarrow> out_sym" where
  "special_symbol env output_bfd s osym =
     (let name = sym_name s; section_sym = ELF_ST_INFO STB_GLOBAL STT_SECTION
      in if name = ''_DYNAMIC'' \<or> Some (sym_id s) = hgot env then osym\<lparr>os_shndx := SHN_ABS\<rparr>
         else if name = ''_DYNAMIC_LINK'' \<or> name = ''_DYNAMIC_LINKING''
         then osym\<lparr>os_shndx := SHN_ABS, os_info := section_sym, os_value := 1\<rparr>
         else if name = ''_gp_disp'' \<and> \<not> NEWABI_P output_bfd
         then osym\<lparr>os_shndx := SHN_ABS, os_info := section_sym, os_value := gp_value output_bfd\<rparr>
         else if SGI_COMPAT output_bfd then
           (if name = mips_elf_dynsym_rtproc_names ! 0 \<or> name = mips_elf_dynsym_rtproc_names ! 1
            then osym\<lparr>os_info := section_sym, os_other := STO_PROTECTED, os_value := 0, os_shndx := SHN_MIPS_DATA\<rparr>
            else if name = mips_elf_dynsym_rtproc_names ! 2
            then osym\<lparr>os_info := section_sym, os_other := STO_PROTECTED, os_value := procedure_count env, os_shndx := SHN_ABS\<rparr>
            else if os_shndx osym \<noteq> SHN_UNDEF \<and> os_shndx osym \<noteq> SHN_ABS
            then (if elf_sym_type s = STT_FUNC then osym\<lparr>os_shndx := SHN_MIPS_TEXT\<rparr>
                  else if elf_sym_type s = STT_OBJECT then osym\<lparr>os_shndx := SHN_MIPS_DATA\<rparr>
                  else osym)
            else osym)
         else osym)"

definition text_section_symbols :: "string list" where
  "text_section_symbols = [''_ftext'', ''_etext'', ''__dso_displacement'', ''__elf_header'', ''__program_header_table'']"

definition data_section_symbols :: "string list" where
  "data_section_symbols = [''_fdata'', ''_edata'', ''_end'', ''_fbss'']"

definition mips_elf_irix6_finish_dynamic_symbol :: "string \<Rightarrow> out_sym \<Rightarrow> out_sym" where
  "mips_elf_irix6_finish_dynamic_symbol name osym =
     (if name \<in> set text_section_symbols \<or> name \<in> set data_section_symbols
      then osym\<lparr>os_info := ELF_ST_INFO STB_GLOBAL STT_SECTION, os_other := STO_PROTECTED,
                os_shndx := if name \<in> set text_section_symbols then SHN_MIPS_TEXT else SHN_MIPS_DATA\<rparr>
      else osym)"

definition fn_stub_symbol :: "link_sym \<Rightarrow> out_sym \<Rightarrow> out_sym" where
  "fn_stub_symbol s osym =
     (case fn_stub s of
        Some stub \<Rightarrow>
          if dynindx s \<noteq> -1
          then osym\<lparr>os_value := section_address stub, os_size := sec_size stub, os_other := ELF_ST_VISIBILITY (os_other osym)\<rparr>
          else osym
      | None \<Rightarrow> osym)"

definition copy_reloc_address :: "link_sym \<Rightarrow> vma" where
  "copy_reloc_address s = section_address (the (def_section s)) + def_value s"

definition emit_copy_reloc :: "bfd \<Rightarrow> link_sym \<Rightarrow> dyn_contents \<Rightarrow> dyn_contents" where
  "emit_copy_reloc output_bfd s st =
     st\<lparr>dc_calc := (dc_calc st)\<lparr>gs := mips_elf_output_dynamic_relocation output_bfd (dynindx s) R_MIPS_COPY
          (copy_reloc_address s) (gs (dc_calc st))\<rparr>\<rparr>"

definition finish_names :: "dyn_env \<Rightarrow> bfd \<Rightarrow> link_sym \<Rightarrow> out_sym \<Rightarrow> out_sym" where
  "finish_names env output_bfd s osym =
     (let osym = special_symbol env output_bfd s osym;
          osym = (if irix_compat output_bfd = ict_irix6 then mips_elf_irix6_finish_dynamic_symbol (sym_name s) osym else osym)
      in if ELF_ST_IS_MIPS16 (os_other osym) then osym\<lparr>os_other := os_other osym - STO_MIPS16\<rparr> else osym)"

text \<open>
  The parameters beside the environments: the sections and sizes of the stubs, and which symbols
  need pointer equality or a copy relocation.  The first component of the result is the value the function returns.
\<close>

record finish_env =
  fe_dyn :: dyn_env
  fe_link :: link_env
  fe_sstubs :: asection
  fe_stub_size :: nat
  fe_ptr_eq :: "nat set"
  fe_needs_copy :: "nat set"

definition finish_code ::
  "finish_env \<Rightarrow> link_info \<Rightarrow> bfd \<Rightarrow> link_sym \<Rightarrow> out_sym \<Rightarrow> dyn_contents \<Rightarrow> (out_sym \<times> dyn_contents) option" where
  "finish_code env info output_bfd s osym st =
     (if plt_offset s \<noteq> MINUS_ONE \<and> no_fn_stub s
      then Some (finish_plt_entry (fe_dyn env) info output_bfd (fe_ptr_eq env) s osym st)
      else if plt_offset s \<noteq> MINUS_ONE then finish_lazy_stub output_bfd (fe_sstubs env) (fe_stub_size env) s osym st
      else Some (osym, st))"

definition finish_got ::
  "finish_env \<Rightarrow> link_info \<Rightarrow> bfd \<Rightarrow> nat \<Rightarrow> vma \<Rightarrow> dyn_contents \<Rightarrow> (bool \<times> dyn_contents) option" where
  "finish_got env info output_bfd h val st =
     (let s = syms (gs (dc_calc st)) h
      in if global_got_area s = GGA_NONE then Some (True, st)
         else case put_global_got (fe_dyn env) info output_bfd h val st of
                None \<Rightarrow> None
              | Some (_, st) \<Rightarrow>
                  if elf_sym_type s = STT_TLS then Some (True, st)
                  else map_option (\<lambda>(ok, c). (ok, st\<lparr>dc_calc := c\<rparr>))
                         (put_secondary_gots (fe_link env) info output_bfd h val (dc_calc st)))"

definition bfd_mips_elf_finish_dynamic_symbol ::
  "finish_env \<Rightarrow> link_info \<Rightarrow> bfd \<Rightarrow> nat \<Rightarrow> out_sym \<Rightarrow> dyn_contents \<Rightarrow> (bool \<times> out_sym \<times> dyn_contents) option" where
  "bfd_mips_elf_finish_dynamic_symbol env info output_bfd h osym st =
     (let s = syms (gs (dc_calc st)) h
      in case finish_code env info output_bfd s osym st of
           None \<Rightarrow> Some (False, osym, st)
         | Some (osym, st) \<Rightarrow>
             let osym = fn_stub_symbol s osym
             in case finish_got env info output_bfd h (os_value osym) st of
                  None \<Rightarrow> None
                | Some (ok, st) \<Rightarrow>
                    if \<not> ok then Some (False, osym, st)
                    else
                      let st = (if h \<in> fe_needs_copy env then emit_copy_reloc output_bfd s st else st)
                      in Some (True, finish_names (fe_dyn env) output_bfd s osym, st))"

section \<open>VxWorks\<close>

definition vxworks_branch_offset :: "link_sym \<Rightarrow> vma" where
  "vxworks_branch_offset s = - (plt_offset s div 4 + 1) AND 0xffff"

definition vxworks_plt_entry_insns :: "link_info \<Rightarrow> link_sym \<Rightarrow> vma \<Rightarrow> vma list" where
  "vxworks_plt_entry_insns info s got_address =
     (let index = plt_index info s; branch_offset = vxworks_branch_offset s
      in if shared info
         then (let e = mips_vxworks_shared_plt_entry in [e ! 0 OR branch_offset, e ! 1 OR index])
         else (let e = mips_vxworks_exec_plt_entry;
                   high = drop_bit 16 (got_address + 0x8000) AND 0xffff; low = got_address AND 0xffff
               in [e ! 0 OR branch_offset, e ! 1 OR index, e ! 2 OR high, e ! 3 OR low, e ! 4, e ! 5, e ! 6, e ! 7]))"

abbreviation vx_rela :: "vma \<Rightarrow> nat \<Rightarrow> r_type \<Rightarrow> vma \<Rightarrow> elf_rela" where
  "vx_rela offset indx r_type addend \<equiv> \<lparr>r_offset = offset, r_info = ELF32_R_INFO indx r_type, r_addend = addend\<rparr>"

definition vxworks_finish_plt_entry ::
  "dyn_env \<Rightarrow> link_info \<Rightarrow> bfd \<Rightarrow> link_sym \<Rightarrow> out_sym \<Rightarrow> dyn_contents \<Rightarrow> out_sym \<times> dyn_contents" where
  "vxworks_finish_plt_entry env info output_bfd s osym st =
     (let x = bfd_xvec output_bfd;
          plt_address = section_address (the (splt info)) + plt_offset s;
          index = plt_index info s;
          got_address = section_address (sgotplt info) + index * 4;
          got_offset = mips_elf_gotplt_index info s;
          st = st\<lparr>gotplt_bytes := bfd_put_32 x plt_address (gotplt_bytes st) (unat (index * 4)),
                  plt_bytes := put_insns x (vxworks_plt_entry_insns info s got_address) (plt_bytes st) (unat (plt_offset s))\<rparr>;
          r = unat (index * 3 + 2);
          st = (if shared info then st
                else st\<lparr>rel_plt_unloaded := (rel_plt_unloaded st)
                  [r := vx_rela got_address (hplt_indx env) R_MIPS_32 (plt_offset s),
                   r + 1 := vx_rela (plt_address + 8) (hgot_indx env) R_MIPS_HI16 got_offset,
                   r + 2 := vx_rela (plt_address + 12) (hgot_indx env) R_MIPS_LO16 got_offset]\<rparr>);
          st = st\<lparr>rel_plt := (rel_plt st)
                 [unat index := vx_rela got_address (unat (word_of_int (dynindx s) :: vma)) R_MIPS_JUMP_SLOT 0]\<rparr>
      in (if def_regular s then osym else osym\<lparr>os_shndx := SHN_UNDEF\<rparr>, st))"

definition vxworks_got_entry ::
  "dyn_env \<Rightarrow> link_info \<Rightarrow> bfd \<Rightarrow> nat \<Rightarrow> vma \<Rightarrow> dyn_contents \<Rightarrow> dyn_contents option" where
  "vxworks_got_entry env info output_bfd h val st =
     (case put_global_got env info output_bfd h val st of
        None \<Rightarrow> None
      | Some (offset, st) \<Rightarrow>
          let out = vx_rela (section_address (sgot info) + offset)
                      (unat (word_of_int (dynindx (syms (gs (dc_calc st)) h)) :: vma)) R_MIPS_32 0
          in Some (st\<lparr>dc_calc := (dc_calc st)\<lparr>gs := (gs (dc_calc st))\<lparr>rel_dyn := rel_dyn (gs (dc_calc st)) @ [out]\<rparr>\<rparr>\<rparr>))"

definition bfd_mips_vxworks_finish_dynamic_symbol ::
  "finish_env \<Rightarrow> link_info \<Rightarrow> bfd \<Rightarrow> nat \<Rightarrow> out_sym \<Rightarrow> dyn_contents \<Rightarrow> (out_sym \<times> dyn_contents) option" where
  "bfd_mips_vxworks_finish_dynamic_symbol env info output_bfd h osym st =
     (let s = syms (gs (dc_calc st)) h;
          (osym, st) = (if plt_offset s \<noteq> MINUS_ONE then vxworks_finish_plt_entry (fe_dyn env) info output_bfd s osym st
                        else (osym, st))
      in case (if global_got_area s = GGA_NONE then Some st
               else vxworks_got_entry (fe_dyn env) info output_bfd h (os_value osym) st) of
           None \<Rightarrow> None
         | Some st \<Rightarrow>
             let st = (if h \<in> fe_needs_copy env
                       then st\<lparr>rel_bss := rel_bss st @ [vx_rela (copy_reloc_address s) (unat (word_of_int (dynindx s) :: vma)) R_MIPS_COPY 0]\<rparr>
                       else st)
             in Some (if ELF_ST_IS_COMPRESSED (os_other osym) then osym\<lparr>os_value := os_value osym AND NOT 1\<rparr> else osym, st))"

section \<open>The headers of the PLT\<close>

definition exec_plt0_insns :: "bfd \<Rightarrow> vma \<Rightarrow> vma list" where
  "exec_plt0_insns output_bfd gotplt_value =
     (let e = (if ABI_64_P output_bfd then mips_n64_exec_plt0_entry
               else if ABI_N32_P output_bfd then mips_n32_exec_plt0_entry
               else mips_o32_exec_plt0_entry);
          high = drop_bit 16 (gotplt_value + 0x8000) AND 0xffff; low = gotplt_value AND 0xffff
      in [e ! 0 OR high, e ! 1 OR low, e ! 2 OR low, e ! 3, e ! 4, e ! 5, e ! 6, e ! 7])"

definition mips_finish_exec_plt :: "link_info \<Rightarrow> bfd \<Rightarrow> dyn_contents \<Rightarrow> dyn_contents" where
  "mips_finish_exec_plt info output_bfd st =
     st\<lparr>plt_bytes := put_insns (bfd_xvec output_bfd) (exec_plt0_insns output_bfd (section_address (sgotplt info))) (plt_bytes st) 0\<rparr>"

text \<open>The relocations behind the first two come in threes, and get the final symbol indices.\<close>

fun fix_unloaded :: "dyn_env \<Rightarrow> elf_rela list \<Rightarrow> elf_rela list" where
  "fix_unloaded env (a # b # c # rest) =
     a\<lparr>r_info := ELF32_R_INFO (hplt_indx env) R_MIPS_32\<rparr>
     # b\<lparr>r_info := ELF32_R_INFO (hgot_indx env) R_MIPS_HI16\<rparr>
     # c\<lparr>r_info := ELF32_R_INFO (hgot_indx env) R_MIPS_LO16\<rparr> # fix_unloaded env rest"
| "fix_unloaded env rest = rest"

definition vxworks_exec_plt0_insns :: "vma \<Rightarrow> vma list" where
  "vxworks_exec_plt0_insns got_value =
     (let e = mips_vxworks_exec_plt0_entry; high = drop_bit 16 (got_value + 0x8000) AND 0xffff; low = got_value AND 0xffff
      in [e ! 0 OR high, e ! 1 OR low, e ! 2, e ! 3, e ! 4, e ! 5])"

definition mips_vxworks_finish_exec_plt :: "dyn_env \<Rightarrow> link_info \<Rightarrow> bfd \<Rightarrow> dyn_contents \<Rightarrow> dyn_contents" where
  "mips_vxworks_finish_exec_plt env info output_bfd st =
     (let plt_address = section_address (the (splt info))
      in st\<lparr>plt_bytes := put_insns (bfd_xvec output_bfd) (vxworks_exec_plt0_insns (got_symbol_address info)) (plt_bytes st) 0,
            rel_plt_unloaded :=
              [vx_rela plt_address (hgot_indx env) R_MIPS_HI16 0, vx_rela (plt_address + 4) (hgot_indx env) R_MIPS_LO16 0]
              @ fix_unloaded env (drop 2 (rel_plt_unloaded st))\<rparr>)"

definition mips_vxworks_finish_shared_plt :: "bfd \<Rightarrow> dyn_contents \<Rightarrow> dyn_contents" where
  "mips_vxworks_finish_shared_plt output_bfd st =
     st\<lparr>plt_bytes := put_insns (bfd_xvec output_bfd) mips_vxworks_shared_plt0_entry (plt_bytes st) 0\<rparr>"

text \<open>The choice of the header when the dynamic sections are finished; \<^verbatim>\<open>plt_size\<close> is the size of \<^verbatim>\<open>.plt\<close>.\<close>

definition finish_plt_header :: "dyn_env \<Rightarrow> link_info \<Rightarrow> bfd \<Rightarrow> vma \<Rightarrow> dyn_contents \<Rightarrow> dyn_contents" where
  "finish_plt_header env info output_bfd plt_size st =
     (if splt info = None \<or> plt_size = 0 then st
      else if is_vxworks info
      then (if shared info then mips_vxworks_finish_shared_plt output_bfd st
            else mips_vxworks_finish_exec_plt env info output_bfd st)
      else mips_finish_exec_plt info output_bfd st)"

end
