(* ===== verification/Mips.thy ===== *)
theory Mips
  imports Arith Bytes
begin

text \<open>
  The instructions that the linker writes into stubs and PLT entries, as documented by the MIPS
  architecture: a machine with 64-bit registers, in which results of 32-bit operations are sign-extended, with branch delay
  slots and without load delays.  It is the specification the generated code is judged by.
\<close>

section \<open>Words and addresses\<close>

text \<open>A value that is the sign extension of its lower half, such as an address below 2 GB.\<close>

definition sign_word :: "vma \<Rightarrow> vma" where
  "sign_word v = signed_take_bit 31 v"

definition canonical :: "vma \<Rightarrow> bool" where
  "canonical v \<longleftrightarrow> sign_word v = v"

lemma take_sign_word: "take_bit 32 (sign_word v) = take_bit 32 v"
proof (rule vma_eqI)
  show "bit (take_bit 32 (sign_word v)) n = bit (take_bit 32 v) n" for n
    by (cases "n = 31") (auto simp: sign_word_def bit_simps min_def)
qed

lemma sign_word_take: "sign_word (take_bit 32 v) = sign_word v"
  unfolding sign_word_def by (simp add: signed_take_bit_take_bit)

lemma sign_word_cong: "take_bit 32 a = take_bit 32 b \<Longrightarrow> sign_word a = sign_word b"
  by (metis sign_word_take)

lemma sign_word_add: "sign_word (sign_word a + b) = sign_word (a + b)"
  by (rule sign_word_cong) (metis take_bit_add_word take_sign_word)

lemma canonical_add_sub:
  assumes "canonical (a + b)"
  shows "sign_word (sign_word a + b) = a + b"
  using assms by (simp add: sign_word_add canonical_def)

section \<open>The machine\<close>

type_synonym memory = "vma \<Rightarrow> bfd_byte"

definition read_bytes :: "memory \<Rightarrow> vma \<Rightarrow> nat \<Rightarrow> bytes" where
  "read_bytes mem a n = map (\<lambda>i. mem (a + of_nat i)) [0..<n]"

definition mem_word :: "xvec \<Rightarrow> memory \<Rightarrow> vma \<Rightarrow> vma" where
  "mem_word x mem a = getx32 x (read_bytes mem a 4)"

definition mem_dword :: "xvec \<Rightarrow> memory \<Rightarrow> vma \<Rightarrow> vma" where
  "mem_dword x mem a = getx64 x (read_bytes mem a 8)"

record machine =
  pc :: vma
  npc :: vma
  regs :: "nat \<Rightarrow> vma"

definition reg :: "machine \<Rightarrow> nat \<Rightarrow> vma" where
  "reg m r = (if r = 0 then 0 else regs m r)"

definition set_reg :: "nat \<Rightarrow> vma \<Rightarrow> machine \<Rightarrow> machine" where
  "set_reg r v m = (if r = 0 then m else m\<lparr>regs := (regs m)(r := v)\<rparr>)"

definition advance :: "machine \<Rightarrow> machine" where
  "advance m = m\<lparr>pc := npc m, npc := npc m + 4\<rparr>"

definition jump_to_addr :: "vma \<Rightarrow> machine \<Rightarrow> machine" where
  "jump_to_addr a m = m\<lparr>npc := a\<rparr>"

definition op_field :: "vma \<Rightarrow> vma" where "op_field w = drop_bit 26 (take_bit 32 w)"
definition rs_field :: "vma \<Rightarrow> nat" where "rs_field w = unat (take_bit 5 (drop_bit 21 w))"
definition rt_field :: "vma \<Rightarrow> nat" where "rt_field w = unat (take_bit 5 (drop_bit 16 w))"
definition rd_field :: "vma \<Rightarrow> nat" where "rd_field w = unat (take_bit 5 (drop_bit 11 w))"
definition sa_field :: "vma \<Rightarrow> nat" where "sa_field w = unat (take_bit 5 (drop_bit 6 w))"
definition imm_field :: "vma \<Rightarrow> vma" where "imm_field w = signed_take_bit 15 w"
definition uimm_field :: "vma \<Rightarrow> vma" where "uimm_field w = take_bit 16 w"

definition exec_special :: "vma \<Rightarrow> machine \<Rightarrow> machine option" where
  "exec_special w m =
     (let funct = take_bit 6 w; rs = reg m (rs_field w); rt = reg m (rt_field w); rd = rd_field w
      in if funct = 0x00 then Some (advance (set_reg rd (sign_word (push_bit (sa_field w) rt)) m))
         else if funct = 0x02 then Some (advance (set_reg rd (sign_word (drop_bit (sa_field w) (take_bit 32 rt))) m))
         else if funct = 0x08 then Some (jump_to_addr rs (advance m))
         else if funct = 0x09 then Some (jump_to_addr rs (advance (set_reg rd (pc m + 8) m)))
         else if funct = 0x21 then Some (advance (set_reg rd (sign_word (rs + rt)) m))
         else if funct = 0x23 then Some (advance (set_reg rd (sign_word (rs - rt)) m))
         else if funct = 0x2d then Some (advance (set_reg rd (rs + rt) m))
         else None)"

definition exec_insn :: "xvec \<Rightarrow> memory \<Rightarrow> vma \<Rightarrow> machine \<Rightarrow> machine option" where
  "exec_insn x mem w m =
     (let opc = op_field w; rs = reg m (rs_field w); rt = rt_field w
      in if opc = 0x00 then exec_special w m
         else if opc = 0x04 then
           Some (if rs = reg m rt then jump_to_addr (pc m + 4 + push_bit 2 (imm_field w)) (advance m) else advance m)
         else if opc = 0x09 then Some (advance (set_reg rt (sign_word (rs + imm_field w)) m))
         else if opc = 0x0d then Some (advance (set_reg rt (rs OR uimm_field w) m))
         else if opc = 0x0f then Some (advance (set_reg rt (sign_word (push_bit 16 (uimm_field w))) m))
         else if opc = 0x19 then Some (advance (set_reg rt (rs + imm_field w) m))
         else if opc = 0x23 then Some (advance (set_reg rt (sign_word (mem_word x mem (rs + imm_field w))) m))
         else if opc = 0x37 then Some (advance (set_reg rt (mem_dword x mem (rs + imm_field w)) m))
         else None)"

definition step :: "xvec \<Rightarrow> memory \<Rightarrow> machine \<Rightarrow> machine option" where
  "step x mem m = exec_insn x mem (mem_word x mem (pc m)) m"

fun steps :: "xvec \<Rightarrow> memory \<Rightarrow> nat \<Rightarrow> machine \<Rightarrow> machine option" where
  "steps x mem 0 m = Some m"
| "steps x mem (Suc n) m = (case step x mem m of None \<Rightarrow> None | Some m' \<Rightarrow> steps x mem n m')"

lemma steps_add: "steps x mem (k + n) m = (case steps x mem k m of None \<Rightarrow> None | Some m' \<Rightarrow> steps x mem n m')"
  by (induction k arbitrary: m) (auto split: option.splits)

lemma machine_simps [simp]:
  "reg m 0 = 0" "reg (advance m) r = reg m r" "reg (jump_to_addr a m) r = reg m r"
  "reg (set_reg q v m) r = (if r = q \<and> q \<noteq> 0 then v else reg m r)"
  "pc (advance m) = npc m" "npc (advance m) = npc m + 4" "pc (set_reg q v m) = pc m" "npc (set_reg q v m) = npc m"
  "pc (jump_to_addr a m) = pc m" "npc (jump_to_addr a m) = a"
  "set_reg 0 v m = m"
  by (simp_all add: reg_def set_reg_def advance_def jump_to_addr_def)

section \<open>Instructions with a symbolic field\<close>

text \<open>An instruction is given by its upper half and a 16-bit field in its lower half.\<close>

lemma symbolic_fields:
  fixes k f :: vma
  assumes "take_bit 16 k = 0" "take_bit 16 f = f"
  shows "op_field (k OR f) = op_field k" "rs_field (k OR f) = rs_field k" "rt_field (k OR f) = rt_field k"
    and "uimm_field (k OR f) = f" "imm_field (k OR f) = signed_take_bit 15 f"
proof -
  have k: "\<not> bit k n" if "n < 16" for n
    using assms(1) that by (metis bit_0_eq bit_take_bit_iff bot_apply bot_bool_def)
  have f: "\<not> bit f n" if "16 \<le> n" for n
    using high_bits_clear [OF assms(2) that] .
  have high: "drop_bit n (k OR f) = drop_bit n k" if "16 \<le> n" for n
    by (rule vma_eqI) (use that f in \<open>auto simp: bit_simps\<close>)
  have "drop_bit 26 (take_bit 32 (k OR f)) = drop_bit 26 (take_bit 32 k)"
    by (rule vma_eqI) (use f in \<open>auto simp: bit_simps\<close>)
  then show "op_field (k OR f) = op_field k" "rs_field (k OR f) = rs_field k" "rt_field (k OR f) = rt_field k"
    by (simp_all add: op_field_def rs_field_def rt_field_def high del: drop_bit_or)
  show "uimm_field (k OR f) = f" "imm_field (k OR f) = signed_take_bit 15 f"
    unfolding uimm_field_def imm_field_def
    by (rule vma_eqI; use k f in \<open>auto simp: bit_simps min_def\<close>)+
qed

text \<open>The two halves of an address, as \<^verbatim>\<open>%hi\<close> and \<^verbatim>\<open>%lo\<close>, add up to it.\<close>

lemma hi_lo_address:
  "sign_word (sign_word (push_bit 16 (drop_bit 16 (a + 0x8000) AND 0xffff)) + signed_take_bit 15 (a AND 0xffff)) = sign_word a"
  unfolding sign_word_add using chain16_32 [of a] by (intro sign_word_cong) (simp add: mips_elf_high_def sext16_def)

section \<open>Sections in memory\<close>

definition loaded :: "memory \<Rightarrow> vma \<Rightarrow> bytes \<Rightarrow> bool" where
  "loaded mem a c \<longleftrightarrow> (\<forall>i < length c. mem (a + of_nat i) = c ! i)"

lemma loaded_bytes:
  assumes "loaded mem a c" "off + n \<le> length c"
  shows "read_bytes mem (a + of_nat off) n = take n (drop off c)"
  using assms by (intro nth_equalityI) (auto simp: read_bytes_def loaded_def add.assoc simp flip: of_nat_add)

lemma loaded_word: "loaded mem a c \<Longrightarrow> off + 4 \<le> length c \<Longrightarrow> mem_word x mem (a + of_nat off) = bfd_get_32 x c off"
  by (simp add: mem_word_def loaded_bytes bfd_get_32_def get_at_def)

lemma loaded_dword: "loaded mem a c \<Longrightarrow> off + 8 \<le> length c \<Longrightarrow> mem_dword x mem (a + of_nat off) = bfd_get_64 x c off"
  by (simp add: mem_dword_def loaded_bytes bfd_get_64_def get_at_def)

end
