(* ===== verification/PltSpec.thy ===== *)
theory PltSpec
  imports Plt Mips RelocateSpec
begin

text \<open>
  The procedure linkage table at run time.  The code that the link writes (theory \<^verbatim>\<open>Plt\<close>) is run on the
  machine of theory \<^verbatim>\<open>Mips\<close>: an entry of \<^verbatim>\<open>.plt\<close> goes where the word of its slot points, and the header
  reaches the resolver of the dynamic linker with the arguments the resolver expects.  The last part
  shows that finishing the symbols of a link one after the other leaves each entry, slot and dynamic
  relocation as its own symbol wrote it.
\<close>

section \<open>Instructions\<close>

lemma imm16 [simp]: "take_bit 16 (v AND 0xffff) = v AND (0xffff :: vma)"
  by (simp add: bit_masks)

text \<open>Fields of instructions without a symbolic part.\<close>

lemma numeral_fields:
  "op_field (numeral n) = drop_bit 26 (take_bit 32 (numeral n))"
  "rs_field (numeral n) = unat (take_bit 5 (drop_bit 21 (numeral n :: vma)))"
  "rt_field (numeral n) = unat (take_bit 5 (drop_bit 16 (numeral n :: vma)))"
  by (simp_all add: op_field_def rs_field_def rt_field_def)

lemmas field_defs = op_field_def rs_field_def rt_field_def rd_field_def sa_field_def imm_field_def uimm_field_def

lemma exec_lui:
  assumes "take_bit 16 f = f"
  shows "exec_insn x mem (0x3c0f0000 OR f) m = Some (advance (set_reg 15 (sign_word (push_bit 16 f)) m))"
    and "exec_insn x mem (0x3c1c0000 OR f) m = Some (advance (set_reg 28 (sign_word (push_bit 16 f)) m))"
    and "exec_insn x mem (0x3c0e0000 OR f) m = Some (advance (set_reg 14 (sign_word (push_bit 16 f)) m))"
    and "exec_insn x mem (0x3c190000 OR f) m = Some (advance (set_reg 25 (sign_word (push_bit 16 f)) m))"
  using assms by (simp_all add: exec_insn_def symbolic_fields numeral_fields)

lemma exec_load:
  assumes "take_bit 16 f = f"
  shows "exec_insn x mem (0x8df90000 OR f) m = Some (advance (set_reg 25 (sign_word (mem_word x mem (reg m 15 + signed_take_bit 15 f))) m))"
    and "exec_insn x mem (0xddf90000 OR f) m = Some (advance (set_reg 25 (mem_dword x mem (reg m 15 + signed_take_bit 15 f)) m))"
    and "exec_insn x mem (0x8f990000 OR f) m = Some (advance (set_reg 25 (sign_word (mem_word x mem (reg m 28 + signed_take_bit 15 f))) m))"
    and "exec_insn x mem (0x8dd90000 OR f) m = Some (advance (set_reg 25 (sign_word (mem_word x mem (reg m 14 + signed_take_bit 15 f))) m))"
    and "exec_insn x mem (0xddd90000 OR f) m = Some (advance (set_reg 25 (mem_dword x mem (reg m 14 + signed_take_bit 15 f)) m))"
    and "exec_insn x mem (0x8f390000 OR f) m = Some (advance (set_reg 25 (sign_word (mem_word x mem (reg m 25 + signed_take_bit 15 f))) m))"
  using assms by (simp_all add: exec_insn_def symbolic_fields numeral_fields)

lemma exec_addiu:
  assumes "take_bit 16 f = f"
  shows "exec_insn x mem (0x25f80000 OR f) m = Some (advance (set_reg 24 (sign_word (reg m 15 + signed_take_bit 15 f)) m))"
    and "exec_insn x mem (0x279c0000 OR f) m = Some (advance (set_reg 28 (sign_word (reg m 28 + signed_take_bit 15 f)) m))"
    and "exec_insn x mem (0x25ce0000 OR f) m = Some (advance (set_reg 14 (sign_word (reg m 14 + signed_take_bit 15 f)) m))"
    and "exec_insn x mem (0x27390000 OR f) m = Some (advance (set_reg 25 (sign_word (reg m 25 + signed_take_bit 15 f)) m))"
  using assms by (simp_all add: exec_insn_def symbolic_fields numeral_fields)

lemma exec_fixed:
  "exec_insn x mem 0x03200008 m = Some (jump_to_addr (reg m 25) (advance m))"
  "exec_insn x mem 0x0320f809 m = Some (jump_to_addr (reg m 25) (advance (set_reg 31 (pc m + 8) m)))"
  "exec_insn x mem 0x031cc023 m = Some (advance (set_reg 24 (sign_word (reg m 24 - reg m 28)) m))"
  "exec_insn x mem 0x030ec023 m = Some (advance (set_reg 24 (sign_word (reg m 24 - reg m 14)) m))"
  "exec_insn x mem 0x03e07821 m = Some (advance (set_reg 15 (sign_word (reg m 31)) m))"
  "exec_insn x mem 0x03e0782d m = Some (advance (set_reg 15 (reg m 31) m))"
  "exec_insn x mem 0x0018c082 m = Some (advance (set_reg 24 (sign_word (drop_bit 2 (take_bit 32 (reg m 24)))) m))"
  "exec_insn x mem 0x0018c0c2 m = Some (advance (set_reg 24 (sign_word (drop_bit 3 (take_bit 32 (reg m 24)))) m))"
  "exec_insn x mem 0x2718fffe m = Some (advance (set_reg 24 (sign_word (reg m 24 - 2)) m))"
  "exec_insn x mem 0 m = Some (advance m)"
  by (simp_all add: exec_insn_def exec_special_def field_defs Let_def)

section \<open>Running code\<close>

definition fetched :: "xvec \<Rightarrow> memory \<Rightarrow> vma \<Rightarrow> vma list \<Rightarrow> bool" where
  "fetched x mem a is \<longleftrightarrow> (\<forall>i < length is. mem_word x mem (a + 4 * of_nat i) = is ! i)"

lemma fetched_simps [simp]:
  "fetched x mem a []"
  "fetched x mem a (i # is) \<longleftrightarrow> mem_word x mem a = i \<and> fetched x mem (a + 4) is"
  by (simp_all add: fetched_def All_less_Suc2 add.assoc ring_distribs)

lemma steps_more: "step x mem m = Some m1 \<Longrightarrow> steps x mem n m1 = Some m2 \<Longrightarrow> steps x mem (Suc n) m = Some m2"
  by simp

text \<open>The word a GOT entry is loaded as.\<close>

definition load_at :: "bfd \<Rightarrow> memory \<Rightarrow> vma \<Rightarrow> vma" where
  "load_at abfd mem a = (if ABI_64_P abfd then mem_dword (bfd_xvec abfd) mem a else sign_word (mem_word (bfd_xvec abfd) mem a))"

lemma signed_low:
  fixes a :: vma
  shows "signed_take_bit 15 a = take_bit 16 (a + 0x8000) - 0x8000"
proof -
  have trunc: "word_of_int (take_bit 16 k) = (take_bit 16 (word_of_int k) :: vma)" for k
    by (rule vma_eqI) (simp add: bit_simps bit_word_of_int_iff)
  have "signed_take_bit 15 a = word_of_int (signed_take_bit 15 (uint a))"
    using sext16_of_int [of a] by (simp add: sext16_def)
  also have "\<dots> = word_of_int (take_bit 16 (uint a + 0x8000)) - 0x8000"
    by (simp add: signed_take_bit_eq_take_bit_shift eval_nat_numeral)
  also have "word_of_int (take_bit 16 (uint a + 0x8000)) = (take_bit 16 (a + 0x8000) :: vma)"
    using trunc [of "uint a + 0x8000"] by simp
  finally show ?thesis .
qed

lemma hi_lo_load:
  assumes "canonical (a + 0x8000)"
  shows "sign_word (push_bit 16 (drop_bit 16 (a + 0x8000) AND 0xffff)) + signed_take_bit 15 (a AND 0xffff) = a"
proof -
  let ?b = "a + 0x8000"
  have "sign_word (push_bit 16 (drop_bit 16 ?b AND 0xffff)) = push_bit 16 (drop_bit 16 (sign_word ?b))"
    by (rule vma_eqI) (auto simp: sign_word_def bit_simps bit_masks min_def)
  also have "\<dots> = push_bit 16 (drop_bit 16 ?b)"
    using assms by (simp add: canonical_def)
  also have "\<dots> = ?b - take_bit 16 ?b"
    by (metis add_diff_cancel_left' bits_ident add.commute)
  finally show ?thesis
    by (simp add: bit_masks signed_take_bit_take_bit signed_low)
qed

lemma load_opcodes:
  fixes v :: vma
  shows "(0x01f90000 OR v) OR 0x8c000000 = 0x8df90000 OR v" "(0x01f90000 OR v) OR 0xdc000000 = 0xddf90000 OR v"
proof -
  have swap: "(b OR v) OR c = (b OR c) OR v" for b c :: vma
    by (simp add: or.assoc or.commute [of v])
  show "(0x01f90000 OR v) OR 0x8c000000 = 0x8df90000 OR v" "(0x01f90000 OR v) OR 0xdc000000 = 0xddf90000 OR v"
    unfolding swap by simp_all
qed

text \<open>The two halves of an address, as opaque fields.\<close>

definition low_part :: "vma \<Rightarrow> vma" where
  "low_part a = a AND 0xffff"

lemma part_fields [simp]: "take_bit 16 (mips_elf_high a) = mips_elf_high a" "take_bit 16 (low_part a) = low_part a"
  by (simp_all add: mips_elf_high_def low_part_def bit_masks)

lemma hi_lo_regs:
  assumes "canonical a"
  shows "sign_word (sign_word (push_bit 16 (drop_bit 16 (a + 0x8000) AND 0xffff)) + signed_take_bit 15 (a AND 0xffff)) = a"
  using assms hi_lo_address [of a] by (simp add: canonical_def)

lemmas high_part = mips_elf_high_def [symmetric]
lemmas low_part = low_part_def [symmetric]
lemmas address_parts = hi_lo_regs [unfolded high_part, unfolded low_part] hi_lo_load [unfolded high_part, unfolded low_part]

lemma plt_insns_parts:
  "plt_entry_insns abfd a =
     (if \<not> LOAD_INTERLOCKS_P abfd
      then [0x3c0f0000 OR mips_elf_high a, (0x01f90000 OR low_part a) OR MIPS_ELF_LOAD_WORD abfd, 0x25f80000 OR low_part a, 0x03200008]
      else [0x3c0f0000 OR mips_elf_high a, (0x01f90000 OR low_part a) OR MIPS_ELF_LOAD_WORD abfd, 0x03200008, 0x25f80000 OR low_part a])"
  by (simp add: plt_entry_insns_def Let_def mips_exec_plt_entry_def mips_elf_high_def low_part_def)

definition plt_delay :: "vma \<Rightarrow> bool" where
  "plt_delay w \<longleftrightarrow> w = 0 \<or> (\<exists>f. take_bit 16 f = f \<and> w = 0x3c0f0000 OR f)"

lemma exec_delay:
  "plt_delay w \<Longrightarrow> \<exists>v. exec_insn x mem w m = Some (advance (set_reg 15 v m)) \<or> exec_insn x mem w m = Some (advance m)"
  by (auto simp: plt_delay_def exec_lui exec_fixed)

lemma plt_entry_runs:
  assumes "canonical a" "canonical (a + 0x8000)" "pc m = p" "npc m = p + 4"
    and "fetched (bfd_xvec abfd) mem p (plt_entry_insns abfd a)" "LOAD_INTERLOCKS_P abfd \<or> plt_delay (mem_word (bfd_xvec abfd) mem (16 + p))"
  shows "\<exists>n m'. steps (bfd_xvec abfd) mem n m = Some m' \<and> pc m' = load_at abfd mem a \<and> npc m' = load_at abfd mem a + 4
    \<and> reg m' 25 = load_at abfd mem a \<and> reg m' 24 = a \<and> (\<forall>r. r \<notin> {15, 24, 25} \<longrightarrow> reg m' r = reg m r)"
proof -
  let ?hi = "mips_elf_high a" and ?lo = "low_part a" and ?x = "bfd_xvec abfd" and ?t = "load_at abfd mem a"
  define m1 where "m1 = advance (set_reg 15 (sign_word (push_bit 16 ?hi)) m)"
  define m2 where "m2 = advance (set_reg 25 ?t m1)"
  note f = assms(5) [unfolded plt_insns_parts, simplified]
  have 1: "step ?x mem m = Some m1"
    using f assms(3) by (simp add: step_def exec_lui m1_def split: if_splits)
  have r15: "reg m1 15 + signed_take_bit 15 ?lo = a" "pc m1 = p + 4" "npc m1 = 8 + p"
    using address_parts(2) [OF assms(2)] assms(4) by (simp_all add: m1_def)
  have 2: "step ?x mem m1 = Some m2"
    using f r15 by (simp add: step_def exec_load load_opcodes m2_def load_at_def MIPS_ELF_LOAD_WORD_def split: if_splits)
  have m2: "pc m2 = 8 + p" "npc m2 = 12 + p" "reg m2 15 = reg m1 15" "reg m2 25 = ?t"
    using r15 by (simp_all add: m2_def)
  have other: "reg m2 r = reg m r" if "r \<notin> {15, 24, 25}" for r
    using that by (auto simp: m2_def m1_def)
  show ?thesis
  proof (cases "LOAD_INTERLOCKS_P abfd")
    case True
    define m3 where "m3 = jump_to_addr (reg m2 25) (advance m2)"
    define m4 where "m4 = advance (set_reg 24 (sign_word (reg m3 15 + signed_take_bit 15 ?lo)) m3)"
    have 3: "step ?x mem m2 = Some m3"
      using f m2 True by (simp add: step_def exec_fixed m3_def)
    have 4: "step ?x mem m3 = Some m4"
      using f m2 True by (simp add: step_def m3_def m4_def exec_addiu)
    have "reg m4 24 = a"
      using r15 m2 assms(1) by (simp add: m4_def m3_def canonical_def)
    moreover have "pc m4 = ?t" "npc m4 = ?t + 4" "reg m4 25 = ?t"
      using m2 by (simp_all add: m4_def m3_def)
    moreover have "reg m4 r = reg m r" if "r \<notin> {15, 24, 25}" for r
      using other [OF that] that by (auto simp: m4_def m3_def)
    ultimately show ?thesis
      using steps_more [OF 1 steps_more [OF 2 steps_more [OF 3 steps_more [OF 4 steps.simps(1)]]]] by blast
  next
    case False
    define m3 where "m3 = advance (set_reg 24 (sign_word (reg m2 15 + signed_take_bit 15 ?lo)) m2)"
    define m4 where "m4 = jump_to_addr ?t (advance m3)"
    have 3: "step ?x mem m2 = Some m3"
      using f m2 False by (simp add: step_def exec_addiu m3_def)
    have m3: "pc m3 = 12 + p" "npc m3 = 16 + p" "reg m3 24 = a" "reg m3 25 = ?t"
      using r15 m2 assms(1) by (simp_all add: m3_def canonical_def)
    have 4: "step ?x mem m3 = Some m4"
      using f m3 False by (simp add: step_def m4_def exec_fixed)
    obtain v where 5: "step ?x mem m4 = Some (advance (set_reg 15 v m4)) \<or> step ?x mem m4 = Some (advance m4)"
      using exec_delay [of _ ?x mem m4] assms(6) False m3 by (auto simp: step_def m4_def)
    have run: "steps ?x mem (Suc (Suc (Suc (Suc (Suc 0))))) m = Some m5" if "step ?x mem m4 = Some m5" for m5
      by (rule steps_more [OF 1 steps_more [OF 2 steps_more [OF 3 steps_more [OF 4 steps_more [OF that steps.simps(1)]]]]])
    have "pc m4 = 16 + p" "npc m4 = ?t" "reg m4 24 = a" "reg m4 25 = ?t"
      using m3 by (simp_all add: m4_def)
    moreover have "reg m4 r = reg m r" if "r \<notin> {15, 24, 25}" for r
      using other [OF that] that by (auto simp: m4_def m3_def)
    ultimately have final: "pc m5 = ?t \<and> npc m5 = ?t + 4 \<and> reg m5 25 = ?t \<and> reg m5 24 = a \<and> (\<forall>r. r \<notin> {15, 24, 25} \<longrightarrow> reg m5 r = reg m r)"
      if "m5 = advance (set_reg 15 v m4) \<or> m5 = advance m4" for m5
      using that by auto
    from 5 show ?thesis
      using run final by blast
  qed
qed

text \<open>The header turns the address of a slot into the number of its entry.\<close>

lemma small_word:
  assumes "k < 2 ^ 31"
  shows "sign_word (of_nat k) = of_nat k" "take_bit 32 (of_nat k :: vma) = of_nat k" "unat (of_nat k :: vma) = k"
proof -
  show u: "unat (of_nat k :: vma) = k"
    using assms by (simp add: unsigned_of_nat take_bit_nat_eq_self)
  then have "unat (take_bit 31 (of_nat k :: vma)) = unat (of_nat k :: vma)"
    using assms by (simp add: unsigned_take_bit_eq take_bit_nat_eq_self)
  then have t: "take_bit 31 (of_nat k :: vma) = of_nat k"
    by (rule unsigned_word_eqI)
  show "take_bit 32 (of_nat k :: vma) = of_nat k"
    by (rule take_bit_low [OF _ t]) simp
  show "sign_word (of_nat k) = of_nat k"
    unfolding sign_word_def
    by (rule vma_eqI) (use high_bits_clear [OF t] in \<open>auto simp: bit_simps min_def\<close>)
qed

lemma slot_number:
  assumes "(2 + k) * 2 ^ s < (2::nat) ^ 31"
  shows "sign_word (sign_word (drop_bit s (take_bit 32 (sign_word (of_nat ((2 + k) * 2 ^ s))))) - 2) = of_nat k"
proof -
  let ?n = "(2 + k) * 2 ^ s"
  have k: "2 + k < 2 ^ 31"
    using assms by (metis le_less_trans mult.right_neutral mult_le_mono2 one_le_numeral one_le_power)
  have "unat (drop_bit s (of_nat ?n :: vma)) = unat (of_nat (2 + k) :: vma)"
    unfolding unsigned_drop_bit_eq small_word(3) [OF assms] small_word(3) [OF k]
    using assms by (simp add: drop_bit_eq_div take_bit_nat_def)
  then have "drop_bit s (of_nat ?n :: vma) = of_nat (2 + k)"
    by (rule unsigned_word_eqI)
  then have "sign_word (drop_bit s (take_bit 32 (sign_word (of_nat ?n)))) = of_nat (2 + k)"
    using small_word(1,2) [OF assms] small_word(1) [OF k] by simp
  then show ?thesis
    using small_word(1) [of k] k by (simp only: of_nat_add of_nat_numeral add_diff_cancel_left')
qed

lemma plt0_runs:
  assumes "canonical g" "canonical (g + 0x8000)" "pc m = p" "npc m = p + 4"
    and "fetched (bfd_xvec abfd) mem p (exec_plt0_insns abfd g)"
    and "reg m 24 = g + of_nat ((2 + k) * MIPS_ELF_GOT_SIZE abfd)" "(2 + k) * MIPS_ELF_GOT_SIZE abfd < 2 ^ 31"
  shows "\<exists>n m'. steps (bfd_xvec abfd) mem n m = Some m' \<and> pc m' = load_at abfd mem g \<and> npc m' = load_at abfd mem g + 4
    \<and> reg m' 25 = load_at abfd mem g \<and> reg m' 24 = of_nat k
    \<and> reg m' 15 = (if ABI_64_P abfd then reg m 31 else sign_word (reg m 31))"
proof -
  let ?hi = "mips_elf_high g" and ?lo = "low_part g" and ?x = "bfd_xvec abfd" and ?t = "load_at abfd mem g"
  let ?gp = "if NEWABI_P abfd then 14 else 28" and ?s = "if ABI_64_P abfd then 3 else 2 :: nat"
  define m1 where "m1 = advance (set_reg ?gp (sign_word (push_bit 16 ?hi)) m)"
  define m2 where "m2 = advance (set_reg 25 ?t m1)"
  define m3 where "m3 = advance (set_reg ?gp (sign_word (reg m2 ?gp + signed_take_bit 15 ?lo)) m2)"
  define m4 where "m4 = advance (set_reg 24 (sign_word (reg m3 24 - reg m3 ?gp)) m3)"
  define m5 where "m5 = advance (set_reg 15 (if ABI_64_P abfd then reg m4 31 else sign_word (reg m4 31)) m4)"
  define m6 where "m6 = advance (set_reg 24 (sign_word (drop_bit ?s (take_bit 32 (reg m5 24)))) m5)"
  define m7 where "m7 = jump_to_addr ?t (advance (set_reg 31 (pc m6 + 8) m6))"
  define m8 where "m8 = advance (set_reg 24 (sign_word (reg m7 24 - 2)) m7)"
  note f = assms(5) [unfolded exec_plt0_insns_def Let_def mips_o32_exec_plt0_entry_def mips_n32_exec_plt0_entry_def
      mips_n64_exec_plt0_entry_def high_part, unfolded low_part, simplified]
  have 1: "step ?x mem m = Some m1"
    using f assms(3) by (simp add: step_def exec_lui m1_def NEWABI_P_def split: if_splits)
  have r1: "reg m1 ?gp + signed_take_bit 15 ?lo = g" "pc m1 = p + 4" "npc m1 = 8 + p"
    using address_parts(2) [OF assms(2)] assms(4) by (simp_all add: m1_def)
  have 2: "step ?x mem m1 = Some m2"
    using f r1 by (simp add: step_def exec_load m2_def load_at_def NEWABI_P_def split: if_splits)
  have r2: "reg m2 ?gp + signed_take_bit 15 ?lo = g" "pc m2 = 8 + p" "npc m2 = 12 + p" "reg m2 25 = ?t"
    using r1 by (simp_all add: m2_def)
  have 3: "step ?x mem m2 = Some m3"
    using f r2 by (simp add: step_def exec_addiu m3_def NEWABI_P_def split: if_splits)
  have r3: "reg m3 ?gp = g" "pc m3 = 12 + p" "npc m3 = 16 + p" "reg m3 25 = ?t"
    using r2 assms(1) by (simp_all add: m3_def canonical_def)
  have 4: "step ?x mem m3 = Some m4"
    using f r3 by (simp add: step_def exec_fixed m4_def NEWABI_P_def split: if_splits)
  have r4: "pc m4 = 16 + p" "npc m4 = 20 + p" "reg m4 25 = ?t"
    using r3 by (simp_all add: m4_def)
  have 5: "step ?x mem m4 = Some m5"
    using f r4 by (simp add: step_def exec_fixed m5_def NEWABI_P_def split: if_splits)
  have r5: "pc m5 = 20 + p" "npc m5 = 24 + p" "reg m5 25 = ?t"
    using r4 by (simp_all add: m5_def)
  have 6: "step ?x mem m5 = Some m6"
    using f r5 by (simp add: step_def exec_fixed m6_def NEWABI_P_def split: if_splits)
  have r6: "pc m6 = 24 + p" "npc m6 = 28 + p" "reg m6 25 = ?t"
    using r5 by (simp_all add: m6_def)
  have 7: "step ?x mem m6 = Some m7"
    using f r6 by (simp add: step_def exec_fixed m7_def NEWABI_P_def split: if_splits)
  have r7: "pc m7 = 28 + p" "npc m7 = ?t" "reg m7 25 = ?t"
    using r6 by (simp_all add: m7_def)
  have 8: "step ?x mem m7 = Some m8"
    using f r7 by (simp add: step_def exec_fixed m8_def NEWABI_P_def split: if_splits)
  have "reg m3 24 = reg m 24" "reg m4 31 = reg m 31"
    by (simp_all add: m4_def m3_def m2_def m1_def)
  then have "reg m8 24 = of_nat k" "reg m8 15 = (if ABI_64_P abfd then reg m 31 else sign_word (reg m 31))"
    using slot_number [of k ?s] assms(6,7) r3(1) unfolding m8_def m7_def m6_def m5_def m4_def
    by (simp_all add: MIPS_ELF_GOT_SIZE_def split: if_splits)
  moreover have "pc m8 = ?t" "npc m8 = ?t + 4" "reg m8 25 = ?t"
    using r7 by (simp_all add: m8_def)
  ultimately show ?thesis
    using steps_more [OF 1 steps_more [OF 2 steps_more [OF 3 steps_more [OF 4 steps_more [OF 5 steps_more [OF 6 steps_more [OF 7
      steps_more [OF 8 steps.simps(1)]]]]]]]] by blast
qed

section \<open>Stored instructions\<close>

lemma put_at_outside:
  assumes "byte_codec dec enc n" "off + n \<le> length c"
  shows "same_outside {off ..< off + n} c (put_at enc n v c off)"
  using byte_codec.length_put [OF assms] byte_codec.nth_put_before [OF assms] byte_codec.nth_put_after [OF assms]
  by (auto simp: same_outside_def not_less)

lemma put_word_outside:
  assumes "xvec_ok (bfd_xvec abfd)" "off + MIPS_ELF_GOT_SIZE abfd \<le> length c"
  shows "same_outside {off ..< off + MIPS_ELF_GOT_SIZE abfd} c (MIPS_ELF_PUT_WORD abfd v c off)"
  using put_at_outside [OF xvec_ok64 [OF assms(1)], of off c v] put_at_outside [OF xvec_ok32 [OF assms(1)], of off c v] assms(2)
  by (simp add: MIPS_ELF_PUT_WORD_def MIPS_ELF_GOT_SIZE_def accessor_defs split: if_splits)

lemma put_insns_simps [simp]:
  "put_insns x [] c off = c"
  "put_insns x (i # is) c off = put_insns x is (bfd_put_32 x i c off) (off + 4)"
  by (simp_all add: put_insns_def enumerate_Suc_eq fold_map comp_def case_prod_unfold add.assoc)

lemma put_insns_outside:
  assumes "xvec_ok x"
  shows "off + 4 * length is \<le> length c \<Longrightarrow> same_outside {off ..< off + 4 * length is} c (put_insns x is c off)"
proof (induction "is" arbitrary: c off)
  case (Cons i js)
  have 1: "same_outside {off ..< off + 4} c (bfd_put_32 x i c off)"
    using Cons.prems by (intro put_32_outside [OF assms]) simp
  then have "length (bfd_put_32 x i c off) = length c"
    by (simp add: same_outside_def)
  then have "same_outside {off + 4 ..< off + 4 + 4 * length js} (bfd_put_32 x i c off) (put_insns x js (bfd_put_32 x i c off) (off + 4))"
    using Cons.prems by (intro Cons.IH) simp
  then show ?case
    by (simp add: same_outside_trans [OF 1])
qed simp

lemma get_put_insns:
  assumes "xvec_ok x"
  shows "off + 4 * length is \<le> length c \<Longrightarrow> j < length is
    \<Longrightarrow> bfd_get_32 x (put_insns x is c off) (off + 4 * j) = take_bit 32 (is ! j)"
proof (induction "is" arbitrary: c off j)
  case (Cons i js)
  have len: "length (bfd_put_32 x i c off) = length c"
    using Cons.prems assms by (simp add: bytes_simps)
  show ?case
  proof (cases j)
    case 0
    have "bfd_get_32 x (put_insns x js (bfd_put_32 x i c off) (off + 4)) off = bfd_get_32 x (bfd_put_32 x i c off) off"
      using Cons.prems len by (intro get_32_cong [OF _ put_insns_outside [OF assms]]) auto
    then show ?thesis
      using 0 Cons.prems assms by (simp add: bytes_simps)
  next
    case (Suc k)
    then show ?thesis
      using Cons.IH [of "off + 4" "bfd_put_32 x i c off" k] Cons.prems len by (simp add: add.assoc)
  qed
qed simp

section \<open>Finishing the symbols\<close>

lemma put_secondary_got_syms:
  "put_secondary_got lenv info abfd h v g st = Some (ok, st') \<Longrightarrow> syms (gs st') = syms (gs st)"
  by (auto simp: put_secondary_got_def mips_elf_create_dynamic_relocation_def Let_def split: option.splits if_splits)

lemma until_failure_inv:
  assumes "until_failure f xs st = Some (ok, st')" "\<And>x st ok st'. f x st = Some (ok, st') \<Longrightarrow> P st' = P st"
  shows "P st' = P st"
  using assms(1)
proof (induction xs arbitrary: st)
  case (Cons x xs)
  then show ?case
    using assms(2) by (auto split: option.splits if_splits)
qed simp

lemma finish_got_effect:
  assumes "finish_got env info abfd h v st = Some (ok, st')"
  shows "syms (gs (dc_calc st')) = syms (gs (dc_calc st))" "plt_bytes st' = plt_bytes st" "gotplt_bytes st' = gotplt_bytes st"
    "rel_plt st' = rel_plt st" "stub_bytes st' = stub_bytes st"
proof -
  have glob: "syms (gs (dc_calc s2)) = syms (gs (dc_calc s1)) \<and> plt_bytes s2 = plt_bytes s1 \<and> gotplt_bytes s2 = gotplt_bytes s1 \<and> rel_plt s2 = rel_plt s1
      \<and> stub_bytes s2 = stub_bytes s1"
    if "put_global_got denv info abfd h v s1 = Some (off, s2)" for denv s1 off s2
    using that by (auto simp: put_global_got_def mips_elf_global_got_index_def Let_def TLS_RELOC_P_def split: option.splits if_splits)
  have sec: "syms (gs c2) = syms (gs c1)" if "put_secondary_gots lenv info abfd h v c1 = Some (ok, c2)" for lenv c1 ok c2
  proof -
    have "c2 = c1 \<or> (\<exists>gis. until_failure (put_secondary_got lenv info abfd h v) gis c1 = Some (ok, c2))"
      using that by (auto simp: put_secondary_gots_def Let_def simp del: secondary_gots.simps split: option.splits)
    then show ?thesis
      using until_failure_inv [where P = "\<lambda>c. syms (gs c)" and f = "put_secondary_got lenv info abfd h v"]
        put_secondary_got_syms by metis
  qed
  show "syms (gs (dc_calc st')) = syms (gs (dc_calc st))" "plt_bytes st' = plt_bytes st" "gotplt_bytes st' = gotplt_bytes st"
    "rel_plt st' = rel_plt st" "stub_bytes st' = stub_bytes st"
  proof -
    have "st' = st \<or> (\<exists>off s2. put_global_got (fe_dyn env) info abfd h v st = Some (off, s2)
        \<and> (st' = s2 \<or> (\<exists>c. put_secondary_gots (fe_link env) info abfd h v (dc_calc s2) = Some (ok, c) \<and> st' = s2\<lparr>dc_calc := c\<rparr>)))"
      using assms by (auto simp: finish_got_def Let_def split: option.splits if_splits)
    then have "syms (gs (dc_calc st')) = syms (gs (dc_calc st)) \<and> plt_bytes st' = plt_bytes st
        \<and> gotplt_bytes st' = gotplt_bytes st \<and> rel_plt st' = rel_plt st \<and> stub_bytes st' = stub_bytes st"
      using glob sec by auto
    then show "syms (gs (dc_calc st')) = syms (gs (dc_calc st))" "plt_bytes st' = plt_bytes st" "gotplt_bytes st' = gotplt_bytes st"
      "rel_plt st' = rel_plt st" "stub_bytes st' = stub_bytes st"
      by blast+
  qed
qed

lemma finish_symbol_effect:
  assumes "bfd_mips_elf_finish_dynamic_symbol env info abfd h osym st = Some (True, osym', st')"
  defines "s \<equiv> syms (gs (dc_calc st)) h"
  defines "st1 \<equiv> if plt_offset s \<noteq> MINUS_ONE \<and> no_fn_stub s
    then snd (finish_plt_entry (fe_dyn env) info abfd (fe_ptr_eq env) s osym st) else st"
  shows "syms (gs (dc_calc st')) = syms (gs (dc_calc st))" "plt_bytes st' = plt_bytes st1" "gotplt_bytes st' = gotplt_bytes st1"
    "rel_plt st' = rel_plt st1"
proof -
  obtain os2 st2 where code: "finish_code env info abfd s osym st = Some (os2, st2)"
    using assms(1) unfolding s_def bfd_mips_elf_finish_dynamic_symbol_def Let_def by (auto split: option.splits)
  have c: "syms (gs (dc_calc st2)) = syms (gs (dc_calc st))" "plt_bytes st2 = plt_bytes st1" "gotplt_bytes st2 = gotplt_bytes st1"
    "rel_plt st2 = rel_plt st1"
    using code by (auto simp: st1_def finish_code_def finish_plt_entry_def finish_lazy_stub_def Let_def split: if_splits)
  obtain st3 where 3: "finish_got env info abfd h (os_value (fn_stub_symbol s os2)) st2 = Some (True, st3)"
    "st' = (if h \<in> fe_needs_copy env then emit_copy_reloc abfd s st3 else st3)"
    using assms(1) code unfolding s_def bfd_mips_elf_finish_dynamic_symbol_def Let_def by (auto split: option.splits if_splits)
  note g = finish_got_effect [OF 3(1)]
  show "syms (gs (dc_calc st')) = syms (gs (dc_calc st))" "plt_bytes st' = plt_bytes st1" "gotplt_bytes st' = gotplt_bytes st1"
    "rel_plt st' = rel_plt st1"
    using g c by (simp_all add: 3(2) emit_copy_reloc_def)
qed

text \<open>A symbol with an offset that may have a stub gets one, whatever the offset was meant for.\<close>

lemma finish_stub_effect:
  assumes "bfd_mips_elf_finish_dynamic_symbol env info abfd h osym st = Some (True, osym', st')"
  defines "s \<equiv> syms (gs (dc_calc st)) h"
  assumes "plt_offset s \<noteq> MINUS_ONE" "\<not> no_fn_stub s"
  shows "\<exists>os2 st2. finish_lazy_stub abfd (fe_sstubs env) (fe_stub_size env) s osym st = Some (os2, st2) \<and> stub_bytes st' = stub_bytes st2"
proof -
  obtain os2 st2 where code: "finish_lazy_stub abfd (fe_sstubs env) (fe_stub_size env) s osym st = Some (os2, st2)"
    "finish_code env info abfd s osym st = Some (os2, st2)"
    using assms(1,3,4) unfolding s_def bfd_mips_elf_finish_dynamic_symbol_def Let_def by (auto simp: finish_code_def split: option.splits)
  obtain st3 where 3: "finish_got env info abfd h (os_value (fn_stub_symbol s os2)) st2 = Some (True, st3)"
    "st' = (if h \<in> fe_needs_copy env then emit_copy_reloc abfd s st3 else st3)"
    using assms(1) code(2) unfolding s_def bfd_mips_elf_finish_dynamic_symbol_def Let_def by (auto split: option.splits if_splits)
  then show ?thesis
    using code(1) finish_got_effect(5) [OF 3(1)] by (auto simp: emit_copy_reloc_def)
qed

text \<open>The symbols one after the other, as the generic linker does.\<close>

fun finish_symbols ::
  "finish_env \<Rightarrow> link_info \<Rightarrow> bfd \<Rightarrow> (nat \<Rightarrow> out_sym) \<Rightarrow> nat list \<Rightarrow> dyn_contents \<Rightarrow> dyn_contents option" where
  "finish_symbols env info abfd osyms [] st = Some st"
| "finish_symbols env info abfd osyms (h # hs) st =
     (case bfd_mips_elf_finish_dynamic_symbol env info abfd h (osyms h) st of
        Some (True, _, st') \<Rightarrow> finish_symbols env info abfd osyms hs st'
      | _ \<Rightarrow> None)"

definition slot_offset :: "bfd \<Rightarrow> nat \<Rightarrow> nat" where
  "slot_offset abfd k = (2 + k) * MIPS_ELF_GOT_SIZE abfd"

definition slot_address :: "link_info \<Rightarrow> bfd \<Rightarrow> nat \<Rightarrow> vma" where
  "slot_address info abfd k = section_address (sgotplt info) + of_nat (slot_offset abfd k)"

text \<open>
  The symbols \<^verbatim>\<open>ps\<close> have the PLT entries in this order, and every other symbol has none: an offset of a
  symbol that can have a stub is the offset of its stub.
\<close>

definition plt_assigned :: "nat list \<Rightarrow> (nat \<Rightarrow> link_sym) \<Rightarrow> bool" where
  "plt_assigned ps sy \<longleftrightarrow>
     distinct ps \<and> (\<forall>k < length ps. plt_offset (sy (ps ! k)) = of_nat (32 + 16 * k) \<and> no_fn_stub (sy (ps ! k)))
     \<and> (\<forall>h. h \<notin> set ps \<longrightarrow> plt_offset (sy h) = MINUS_ONE \<or> \<not> no_fn_stub (sy h))"

text \<open>The tables before anything is written: the entries are assigned and the sections have the sizes this needs.\<close>

definition plt_ready :: "finish_env \<Rightarrow> link_info \<Rightarrow> bfd \<Rightarrow> nat list \<Rightarrow> (nat \<Rightarrow> link_sym) \<Rightarrow> dyn_contents \<Rightarrow> bool" where
  "plt_ready env info abfd ps sy st \<longleftrightarrow>
     plt_header_size info = 32 \<and> plt_entry_size info = 16
     \<and> MIPS_ELF_GOT_SIZE (dyn_dynobj (fe_dyn env)) = MIPS_ELF_GOT_SIZE abfd
     \<and> length ps < 2 ^ 26 \<and> plt_assigned ps sy
     \<and> length (plt_bytes st) = 32 + 16 * length ps + (if LOAD_INTERLOCKS_P abfd then 0 else 4)
     \<and> length (gotplt_bytes st) = slot_offset abfd (length ps) \<and> length (rel_plt st) = length ps"

definition entry_done :: "link_info \<Rightarrow> bfd \<Rightarrow> (nat \<Rightarrow> link_sym) \<Rightarrow> nat list \<Rightarrow> nat \<Rightarrow> dyn_contents \<Rightarrow> bool" where
  "entry_done info abfd sy ps k st \<longleftrightarrow>
     (\<forall>j < 4. bfd_get_32 (bfd_xvec abfd) (plt_bytes st) (32 + 16 * k + 4 * j) = plt_entry_insns abfd (slot_address info abfd k) ! j)
     \<and> MIPS_ELF_GET_WORD abfd (gotplt_bytes st) (slot_offset abfd k)
         = take_bit (8 * MIPS_ELF_GOT_SIZE abfd) (section_address (the (splt info)))
     \<and> rel_plt st ! k = dyn_rela abfd (dynindx (sy (ps ! k))) R_MIPS_JUMP_SLOT (slot_address info abfd k)"

lemma ready_numbers:
  assumes "plt_ready env info abfd ps sy st" "k < length ps"
  shows "plt_index info (sy (ps ! k)) = of_nat k" "unat (plt_offset (sy (ps ! k))) = 32 + 16 * k"
    and "slot_offset abfd k < 2 ^ 31" "unat (of_nat (slot_offset abfd k) :: vma) = slot_offset abfd k" "unat (of_nat k :: vma) = k"
    and "(2 + of_nat k) * of_nat (MIPS_ELF_GOT_SIZE (dyn_dynobj (fe_dyn env))) = (of_nat (slot_offset abfd k) :: vma)"
proof -
  have k: "k < 2 ^ 26"
    using assms by (simp add: plt_ready_def plt_assigned_def)
  have off: "plt_offset (sy (ps ! k)) = of_nat (32 + 16 * k)" and sizes: "plt_header_size info = 32" "plt_entry_size info = 16"
    using assms by (simp_all add: plt_ready_def plt_assigned_def)
  have "32 + 16 * k < 2 ^ 31"
    using k by simp
  note n = small_word(3) [OF this]
  then show "unat (plt_offset (sy (ps ! k))) = 32 + 16 * k"
    unfolding off .
  show uk: "unat (of_nat k :: vma) = k"
    using k by (intro small_word(3)) simp
  have "16 * k < 2 ^ 31"
    using k by simp
  then have "unat ((of_nat (16 * k) :: vma) div 16) = k"
    using small_word(3) [of "16 * k"] by (simp only: unat_div) simp
  then have "(of_nat (16 * k) :: vma) div 16 = of_nat k"
    by (simp only: word_unat_eq_iff uk)
  then show "plt_index info (sy (ps ! k)) = of_nat k"
    by (simp add: plt_index_def off sizes)
  show so: "slot_offset abfd k < 2 ^ 31"
    using k by (simp add: slot_offset_def MIPS_ELF_GOT_SIZE_def)
  show "unat (of_nat (slot_offset abfd k) :: vma) = slot_offset abfd k"
    by (rule small_word(3) [OF so])
  show "(2 + of_nat k) * of_nat (MIPS_ELF_GOT_SIZE (dyn_dynobj (fe_dyn env))) = (of_nat (slot_offset abfd k) :: vma)"
    using assms(1) by (simp add: slot_offset_def plt_ready_def plt_assigned_def)
qed

lemma slots_apart:
  "k \<noteq> j \<Longrightarrow> slot_offset abfd k + MIPS_ELF_GOT_SIZE abfd \<le> slot_offset abfd j \<or> slot_offset abfd j + MIPS_ELF_GOT_SIZE abfd \<le> slot_offset abfd k"
  by (auto simp: slot_offset_def MIPS_ELF_GOT_SIZE_def)

lemma slot_inside: "k < n \<Longrightarrow> slot_offset abfd k + MIPS_ELF_GOT_SIZE abfd \<le> slot_offset abfd n"
  by (auto simp: slot_offset_def MIPS_ELF_GOT_SIZE_def)

lemma plt_insns_32:
  assumes "j < 4"
  shows "take_bit 32 (plt_entry_insns abfd a ! j) = plt_entry_insns abfd a ! j"
proof -
  have "j \<in> {0, 1, 2, 3}"
    using assms by auto
  moreover have "take_bit 32 (mips_elf_high a) = mips_elf_high a" "take_bit 32 (low_part a) = low_part a"
    by (rule take_bit_low [OF _ part_fields(1)] take_bit_low [OF _ part_fields(2)]; simp)+
  ultimately show ?thesis
    by (auto simp: plt_insns_parts take_bit_or MIPS_ELF_LOAD_WORD_def)
qed

lemma length_plt_insns [simp]: "length (plt_entry_insns abfd a) = 4"
  by (simp add: plt_entry_insns_def Let_def)

lemma finish_entry:
  fixes osym :: out_sym and ptr_eq :: "nat set"
  assumes "plt_ready env info abfd ps sy st0" "k < length ps" "xvec_ok (bfd_xvec abfd)"
    and len: "length (plt_bytes st) = length (plt_bytes st0)" "length (gotplt_bytes st) = length (gotplt_bytes st0)"
      "length (rel_plt st) = length (rel_plt st0)"
  defines "st' \<equiv> snd (finish_plt_entry (fe_dyn env) info abfd ptr_eq (sy (ps ! k)) osym st)"
  shows "entry_done info abfd sy ps k st'"
    and "same_outside {32 + 16 * k ..< 48 + 16 * k} (plt_bytes st) (plt_bytes st')"
    and "length (gotplt_bytes st') = length (gotplt_bytes st)" "length (rel_plt st') = length (rel_plt st)"
    and "j < length ps \<Longrightarrow> j \<noteq> k \<Longrightarrow> entry_done info abfd sy ps j st \<Longrightarrow> entry_done info abfd sy ps j st'"
proof -
  note n = ready_numbers [OF assms(1,2)]
  let ?x = "bfd_xvec abfd" and ?is = "plt_entry_insns abfd (slot_address info abfd k)" and ?o = "slot_offset abfd k"
  have st': "plt_bytes st' = put_insns ?x ?is (plt_bytes st) (32 + 16 * k)"
    "gotplt_bytes st' = MIPS_ELF_PUT_WORD abfd (section_address (the (splt info))) (gotplt_bytes st) ?o"
    "rel_plt st' = (rel_plt st)[k := dyn_rela abfd (dynindx (sy (ps ! k))) R_MIPS_JUMP_SLOT (slot_address info abfd k)]"
    using n by (simp_all add: st'_def finish_plt_entry_def Let_def slot_address_def)
  have range: "32 + 16 * k + 4 * length ?is \<le> length (plt_bytes st)" "?o + MIPS_ELF_GOT_SIZE abfd \<le> length (gotplt_bytes st)"
    using assms(1,2) len slot_inside [OF assms(2), of abfd] by (simp_all add: plt_ready_def plt_assigned_def)
  show out: "same_outside {32 + 16 * k ..< 48 + 16 * k} (plt_bytes st) (plt_bytes st')"
    using put_insns_outside [OF assms(3) range(1)] by (simp add: st'(1) add.commute)
  have gout: "same_outside {?o ..< ?o + MIPS_ELF_GOT_SIZE abfd} (gotplt_bytes st) (gotplt_bytes st')"
    unfolding st'(2) by (rule put_word_outside [OF assms(3) range(2)])
  show "length (gotplt_bytes st') = length (gotplt_bytes st)" "length (rel_plt st') = length (rel_plt st)"
    using gout by (simp_all add: same_outside_def st'(3))
  have "bfd_get_32 ?x (plt_bytes st') (32 + 16 * k + 4 * j) = ?is ! j" if "j < 4" for j
    using get_put_insns [OF assms(3) range(1), of j] that plt_insns_32 [OF that] by (simp add: st'(1))
  moreover have "k < length (rel_plt st)"
    using assms(1,2) len by (simp add: plt_ready_def plt_assigned_def)
  ultimately show "entry_done info abfd sy ps k st'"
    using get_put_word [OF assms(3) range(2)] by (simp add: entry_done_def st'(2,3))
  show "entry_done info abfd sy ps j st'" if j: "j < length ps" "j \<noteq> k" and d: "entry_done info abfd sy ps j st"
  proof -
    have "bfd_get_32 ?x (plt_bytes st') (32 + 16 * j + 4 * i) = bfd_get_32 ?x (plt_bytes st) (32 + 16 * j + 4 * i)" if "i < 4" for i
      using assms(1) len j that by (intro get_32_cong [OF _ out]) (auto simp: plt_ready_def plt_assigned_def)
    moreover have "MIPS_ELF_GET_WORD abfd (gotplt_bytes st') (slot_offset abfd j) = MIPS_ELF_GET_WORD abfd (gotplt_bytes st) (slot_offset abfd j)"
      unfolding st'(2) using slots_apart [of k j abfd] slot_inside [OF j(1), of abfd] assms(1) len j
      by (intro get_put_word_other [OF assms(3) range(2)]) (auto simp: plt_ready_def plt_assigned_def)
    ultimately show ?thesis
      using d j by (simp add: entry_done_def st'(3))
  qed
qed

lemma finish_symbols_entries:
  assumes "plt_ready env info abfd ps sy st0" "xvec_ok (bfd_xvec abfd)"
  shows "finish_symbols env info abfd osyms hs st = Some st' \<Longrightarrow> syms (gs (dc_calc st)) = sy
    \<Longrightarrow> length (plt_bytes st) = length (plt_bytes st0) \<Longrightarrow> length (gotplt_bytes st) = length (gotplt_bytes st0)
    \<Longrightarrow> length (rel_plt st) = length (rel_plt st0)
    \<Longrightarrow> \<forall>k < length ps. ps ! k \<in> D \<longrightarrow> entry_done info abfd sy ps k st
    \<Longrightarrow> same_outside {32 ..< 32 + 16 * length ps} (plt_bytes st) (plt_bytes st')
      \<and> length (gotplt_bytes st') = length (gotplt_bytes st0)
      \<and> (\<forall>k < length ps. ps ! k \<in> D \<union> set hs \<longrightarrow> entry_done info abfd sy ps k st')"
proof (induction hs arbitrary: st D)
  case (Cons h hs)
  obtain os1 st1 where one: "bfd_mips_elf_finish_dynamic_symbol env info abfd h (osyms h) st = Some (True, os1, st1)"
    "finish_symbols env info abfd osyms hs st1 = Some st'"
    using Cons.prems(1) by (auto split: option.splits prod.splits bool.splits)
  note e = finish_symbol_effect [OF one(1), unfolded Cons.prems(2)]
  have "syms (gs (dc_calc st1)) = sy \<and> same_outside {32 ..< 32 + 16 * length ps} (plt_bytes st) (plt_bytes st1)
      \<and> length (gotplt_bytes st1) = length (gotplt_bytes st0) \<and> length (rel_plt st1) = length (rel_plt st0)
      \<and> (\<forall>k < length ps. ps ! k \<in> insert h D \<longrightarrow> entry_done info abfd sy ps k st1)"
  proof (cases "h \<in> set ps")
    case True
    then obtain k where k: "k < length ps" "h = ps ! k"
      by (auto simp: in_set_conv_nth)
    have "unat MINUS_ONE = 2 ^ 64 - 1" and "k < 2 ^ 26"
      using assms(1) k by (simp_all add: MINUS_ONE_def unsigned_minus_1_eq_mask mask_eq_exp_minus_1 plt_ready_def plt_assigned_def)
    then have "plt_offset (sy h) \<noteq> MINUS_ONE"
      using ready_numbers(2) [OF assms(1) k(1)] k(2) by force
    then have code: "plt_offset (sy h) \<noteq> MINUS_ONE \<and> no_fn_stub (sy h)"
      using assms(1) k by (simp add: plt_ready_def plt_assigned_def)
    note e = e [unfolded if_P [OF code], unfolded k(2)]
    note f = finish_entry [OF assms(1) k(1) assms(2) Cons.prems(3-5), where ptr_eq = "fe_ptr_eq env" and osym = "osyms (ps ! k)"]
    have same: "entry_done info abfd sy ps j st1 = entry_done info abfd sy ps j
        (snd (finish_plt_entry (fe_dyn env) info abfd (fe_ptr_eq env) (sy (ps ! k)) (osyms (ps ! k)) st))" for j
      using e by (simp add: entry_done_def)
    have "entry_done info abfd sy ps j st1" if "j < length ps" "ps ! j \<in> insert h D" for j
      unfolding same using f(1) f(5) [OF that(1)] that Cons.prems(6) assms(1) k
      by (cases "j = k") (auto simp: plt_ready_def plt_assigned_def nth_eq_iff_index_eq)
    moreover have "same_outside {32 ..< 32 + 16 * length ps} (plt_bytes st) (plt_bytes st1)"
      unfolding e(2) by (rule same_outside_mono [OF f(2)]) (use k in auto)
    ultimately show ?thesis
      using e f(3,4) Cons.prems by simp
  next
    case False
    then have "\<not> (plt_offset (sy h) \<noteq> MINUS_ONE \<and> no_fn_stub (sy h))"
      using assms(1) by (auto simp: plt_ready_def plt_assigned_def)
    note e = e [unfolded if_not_P [OF this]]
    have "entry_done info abfd sy ps j st1 = entry_done info abfd sy ps j st" for j
      using e by (simp add: entry_done_def)
    then show ?thesis
      using e Cons.prems False by (auto simp: in_set_conv_nth)
  qed
  moreover from this have "length (plt_bytes st1) = length (plt_bytes st0)"
    using Cons.prems(3) by (simp add: same_outside_def)
  ultimately show ?case
    using Cons.IH [OF one(2), of "insert h D"] by (auto intro: same_outside_trans)
qed simp

section \<open>The finished PLT\<close>

lemma exec_plt0_parts:
  "exec_plt0_insns abfd g =
     (let e = (if ABI_64_P abfd then mips_n64_exec_plt0_entry else if ABI_N32_P abfd then mips_n32_exec_plt0_entry else mips_o32_exec_plt0_entry)
      in [e ! 0 OR mips_elf_high g, e ! 1 OR low_part g, e ! 2 OR low_part g, e ! 3, e ! 4, e ! 5, e ! 6, e ! 7])"
  by (simp add: exec_plt0_insns_def Let_def mips_elf_high_def low_part_def)

lemma plt0_insns_32: "j < 8 \<Longrightarrow> take_bit 32 (exec_plt0_insns abfd g ! j) = exec_plt0_insns abfd g ! j"
proof -
  assume "j < 8"
  then have "j \<in> {0, 1, 2, 3, 4, 5, 6, 7}"
    by auto
  moreover have "take_bit 32 (mips_elf_high g) = mips_elf_high g" "take_bit 32 (low_part g) = low_part g"
    by (rule take_bit_low [OF _ part_fields(1)] take_bit_low [OF _ part_fields(2)]; simp)+
  ultimately show ?thesis
    by (auto simp: exec_plt0_parts Let_def take_bit_or mips_o32_exec_plt0_entry_def mips_n32_exec_plt0_entry_def mips_n64_exec_plt0_entry_def)
qed

lemma length_plt0_insns [simp]: "length (exec_plt0_insns abfd g) = 8"
  by (simp add: exec_plt0_insns_def Let_def)

text \<open>Code read from memory where a section is loaded.\<close>

lemma fetched_code:
  assumes "loaded mem a c" "off + 4 * length is \<le> length c" "\<And>j. j < length is \<Longrightarrow> bfd_get_32 x c (off + 4 * j) = is ! j"
  shows "fetched x mem (a + of_nat off) is"
proof -
  have "mem_word x mem (a + of_nat off + 4 * of_nat j) = is ! j" if "j < length is" for j
    using loaded_word [OF assms(1), of "off + 4 * j" x] assms(2,3) that by (simp add: add.assoc)
  then show ?thesis
    by (simp add: fetched_def)
qed

text \<open>The finished sections: header, entries, and the word behind an entry, which runs in its delay slot.\<close>

lemma finished_plt:
  fixes denv :: dyn_env
  assumes "plt_ready env info abfd ps sy st0" "xvec_ok (bfd_xvec abfd)" "syms (gs (dc_calc st0)) = sy"
    and "\<not> is_vxworks info" "splt info \<noteq> None" "plt_size \<noteq> 0" "drop (32 + 16 * length ps) (plt_bytes st0) = replicate n 0"
    and "finish_symbols env info abfd osyms hs st0 = Some st1" "set ps \<subseteq> set hs"
    and "getx32 (bfd_xvec abfd) [0, 0, 0, 0] = 0"
  defines "st \<equiv> finish_plt_header denv info abfd plt_size st1"
  shows "\<And>k. k < length ps \<Longrightarrow> entry_done info abfd sy ps k st"
    and "length (plt_bytes st) = length (plt_bytes st0)"
    and "j < 8 \<Longrightarrow> bfd_get_32 (bfd_xvec abfd) (plt_bytes st) (4 * j) = exec_plt0_insns abfd (section_address (sgotplt info)) ! j"
    and "k < length ps \<Longrightarrow> \<not> LOAD_INTERLOCKS_P abfd \<Longrightarrow> plt_delay (bfd_get_32 (bfd_xvec abfd) (plt_bytes st) (48 + 16 * k))"
    and "length (gotplt_bytes st) = slot_offset abfd (length ps)"
proof -
  let ?x = "bfd_xvec abfd" and ?is = "exec_plt0_insns abfd (section_address (sgotplt info))"
  have fin: "same_outside {32 ..< 32 + 16 * length ps} (plt_bytes st0) (plt_bytes st1)"
    "\<And>k. k < length ps \<Longrightarrow> entry_done info abfd sy ps k st1"
    "length (gotplt_bytes st1) = length (gotplt_bytes st0)"
    using finish_symbols_entries [OF assms(1,2,8,3), of "{}"] assms(9) by (auto simp: subset_iff)
  have st: "st = st1\<lparr>plt_bytes := put_insns ?x ?is (plt_bytes st1) 0\<rparr>"
    using assms(4-6) by (auto simp: st_def finish_plt_header_def mips_finish_exec_plt_def)
  show "length (gotplt_bytes st) = slot_offset abfd (length ps)"
    using fin(3) assms(1) by (simp add: st plt_ready_def plt_assigned_def)
  have len: "length (plt_bytes st1) = length (plt_bytes st0)" "32 + 16 * length ps \<le> length (plt_bytes st0)"
    using fin(1) assms(1) by (simp_all add: same_outside_def plt_ready_def plt_assigned_def)
  then have range: "0 + 4 * length ?is \<le> length (plt_bytes st1)"
    by simp
  have out: "same_outside {0 ..< 32} (plt_bytes st1) (plt_bytes st)"
    using put_insns_outside [OF assms(2) range] by (simp add: st)
  then show l: "length (plt_bytes st) = length (plt_bytes st0)"
    using len by (simp add: same_outside_def)
  show "bfd_get_32 ?x (plt_bytes st) (4 * j) = ?is ! j" if "j < 8"
    using get_put_insns [OF assms(2) range, of j] plt0_insns_32 that by (simp add: st)
  have get: "bfd_get_32 ?x (plt_bytes st) i = bfd_get_32 ?x (plt_bytes st1) i" if "32 \<le> i" "i + 4 \<le> length (plt_bytes st0)" for i
    using that len by (intro get_32_cong [OF _ out]) auto
  show all_done: "entry_done info abfd sy ps k st" if "k < length ps" for k
    using fin(2) [OF that] get len(2) that by (auto simp: entry_done_def st)
  show "plt_delay (bfd_get_32 ?x (plt_bytes st) (48 + 16 * k))" if k: "k < length ps" "\<not> LOAD_INTERLOCKS_P abfd"
  proof (cases "Suc k < length ps")
    case True
    then have "bfd_get_32 ?x (plt_bytes st) (48 + 16 * k) = plt_entry_insns abfd (slot_address info abfd (Suc k)) ! 0"
      using all_done [OF True] by (force simp: entry_done_def)
    then show ?thesis
      by (auto simp: plt_insns_parts plt_delay_def intro: part_fields(1))
  next
    case False
    then have last: "48 + 16 * k = 32 + 16 * length ps" and n: "length (plt_bytes st0) = 36 + 16 * length ps"
      using k assms(1) by (auto simp: plt_ready_def plt_assigned_def)
    have "n = 4"
      using arg_cong [OF assms(7), of length] n by (simp only: length_drop length_replicate)
    have "bfd_get_32 ?x (plt_bytes st) (48 + 16 * k) = bfd_get_32 ?x (plt_bytes st1) (48 + 16 * k)"
      using last n by (intro get) auto
    also have "\<dots> = bfd_get_32 ?x (plt_bytes st0) (48 + 16 * k)"
      using last n by (intro get_32_cong [OF _ fin(1)]) auto
    also have "\<dots> = getx32 ?x (replicate 4 0)"
      using assms(7) n \<open>n = 4\<close> by (simp add: last bfd_get_32_def get_at_def)
    also have "replicate 4 (0 :: bfd_byte) = [0, 0, 0, 0]"
      by (simp add: eval_nat_numeral)
    finally show ?thesis
      using assms(10) by (simp add: plt_delay_def)
  qed
qed

lemma slot_load:
  assumes "MIPS_ELF_GET_WORD abfd c off = take_bit (8 * MIPS_ELF_GOT_SIZE abfd) v"
    and "loaded mem a (take (MIPS_ELF_GOT_SIZE abfd) (drop off c))" "off + MIPS_ELF_GOT_SIZE abfd \<le> length c" "canonical v"
  shows "load_at abfd mem a = v"
proof -
  have bytes: "read_bytes mem a (MIPS_ELF_GOT_SIZE abfd) = take (MIPS_ELF_GOT_SIZE abfd) (drop off c)"
    using loaded_bytes [OF assms(2), of 0 "MIPS_ELF_GOT_SIZE abfd"] assms(3) by simp
  show ?thesis
    using bytes assms(1,4) sign_word_take [of v]
    by (auto simp: load_at_def mem_word_def mem_dword_def MIPS_ELF_GET_WORD_def MIPS_ELF_GOT_SIZE_def canonical_def
        bfd_get_32_def bfd_get_64_def get_at_def take_bit_word_eq_self)
qed

text \<open>
  C3.  Calls through the PLT bind lazily.  After the symbols of a link are finished and the header is written, entry
  \<^verbatim>\<open>k\<close> loads the word of its slot and goes there with that address in register 25.  As long as the slot has its first contents,
  the call reaches, through the header, the resolver whose address is in the first word of
  \<^verbatim>\<open>.got.plt\<close>, with \<^verbatim>\<open>k\<close> in register 24 and the return address in register 15; and relocation \<^verbatim>\<open>k\<close> of \<^verbatim>\<open>.rel.plt\<close> names
  the symbol and its slot.
\<close>

theorem plt_call_binds:
  fixes mem :: memory and k :: nat
  assumes "plt_ready env info abfd ps sy st0" "xvec_ok (bfd_xvec abfd)" "syms (gs (dc_calc st0)) = sy"
    and "\<not> is_vxworks info" "splt info \<noteq> None" "plt_size \<noteq> 0" "drop (32 + 16 * length ps) (plt_bytes st0) = replicate n 0"
    and "finish_symbols env info abfd osyms hs st0 = Some st1" "set ps \<subseteq> set hs" "getx32 (bfd_xvec abfd) [0, 0, 0, 0] = 0"
    and "\<forall>d \<le> slot_offset abfd (length ps) + 0x8000. canonical (section_address (sgotplt info) + of_nat d)"
    and "canonical (section_address (the (splt info)))"
  defines "st \<equiv> finish_plt_header (fe_dyn env) info abfd plt_size st1" and "g \<equiv> section_address (sgotplt info)"
    and "dest \<equiv> load_at abfd mem (slot_address info abfd k)"
  assumes "loaded mem (section_address (the (splt info))) (plt_bytes st)" "k < length ps"
    and "pc m = section_address (the (splt info)) + of_nat (32 + 16 * k)" "npc m = pc m + 4"
  shows "(\<exists>i m'. steps (bfd_xvec abfd) mem i m = Some m' \<and> pc m' = dest \<and> npc m' = dest + 4 \<and> reg m' 25 = dest \<and> reg m' 31 = reg m 31)
    \<and> (loaded mem (slot_address info abfd k) (take (MIPS_ELF_GOT_SIZE abfd) (drop (slot_offset abfd k) (gotplt_bytes st))) \<longrightarrow>
        (\<exists>i m'. steps (bfd_xvec abfd) mem i m = Some m' \<and> pc m' = load_at abfd mem g \<and> npc m' = load_at abfd mem g + 4
           \<and> reg m' 24 = of_nat k \<and> reg m' 15 = (if ABI_64_P abfd then reg m 31 else sign_word (reg m 31))))
    \<and> rel_plt st ! k = dyn_rela abfd (dynindx (sy (ps ! k))) R_MIPS_JUMP_SLOT (slot_address info abfd k)"
proof -
  let ?x = "bfd_xvec abfd" and ?p = "section_address (the (splt info))" and ?a = "slot_address info abfd k"
  note fin = finished_plt [OF assms(1-10), where denv = "fe_dyn env", folded st_def]
  have len: "length (plt_bytes st) = 32 + 16 * length ps + (if LOAD_INTERLOCKS_P abfd then 0 else 4)"
    using assms(1) by (simp add: fin(2) plt_ready_def plt_assigned_def)
  have "slot_offset abfd k \<le> slot_offset abfd (length ps)"
    using slot_inside [OF assms(17), of abfd] by simp
  then have canon: "canonical ?a" "canonical (?a + 0x8000)"
    using assms(11) [rule_format, of "slot_offset abfd k"] assms(11) [rule_format, of "slot_offset abfd k + 0x8000"]
    by (simp_all add: slot_address_def add.assoc)
  have g: "canonical g" "canonical (g + 0x8000)"
    using assms(11) [rule_format, of 0] assms(11) [rule_format, of "0x8000"] by (simp_all add: g_def)
  have entry: "fetched ?x mem (?p + of_nat (32 + 16 * k)) (plt_entry_insns abfd ?a)"
    using fin(1) [OF assms(17)] len assms(17) by (intro fetched_code [OF assms(16)]) (auto simp: entry_done_def)
  have delay: "LOAD_INTERLOCKS_P abfd \<or> plt_delay (mem_word ?x mem (16 + (?p + of_nat (32 + 16 * k))))"
  proof (cases "LOAD_INTERLOCKS_P abfd")
    case False
    have eq: "?p + of_nat (48 + 16 * k) = 16 + (?p + of_nat (32 + 16 * k))"
      by (simp add: algebra_simps)
    have "plt_delay (mem_word ?x mem (?p + of_nat (48 + 16 * k)))"
      using fin(4) [OF assms(17) False] loaded_word [OF assms(16), of "48 + 16 * k" ?x] len assms(17) False by simp
    then show ?thesis
      unfolding eq by blast
  qed simp
  obtain i1 m1 where run: "steps ?x mem i1 m = Some m1" "pc m1 = dest" "npc m1 = dest + 4" "reg m1 25 = dest" "reg m1 24 = ?a"
    "reg m1 31 = reg m 31"
    using plt_entry_runs [OF canon assms(18) _ entry delay] assms(19) by (auto simp: assms(18) dest_def)
  have resolver: "\<exists>i m'. steps ?x mem i m = Some m' \<and> pc m' = load_at abfd mem g \<and> npc m' = load_at abfd mem g + 4
      \<and> reg m' 24 = of_nat k \<and> reg m' 15 = (if ABI_64_P abfd then reg m 31 else sign_word (reg m 31))"
    if word: "loaded mem ?a (take (MIPS_ELF_GOT_SIZE abfd) (drop (slot_offset abfd k) (gotplt_bytes st)))"
  proof -
    have "load_at abfd mem ?a = ?p"
      by (rule slot_load [OF _ word _ assms(12)])
        (use fin(1) [OF assms(17)] fin(5) slot_inside [OF assms(17), of abfd] in \<open>auto simp: entry_done_def\<close>)
    then have "dest = ?p"
      by (simp add: dest_def)
    have head: "fetched ?x mem ?p (exec_plt0_insns abfd g)"
      using fin(3) len fetched_code [OF assms(16), of 0 "exec_plt0_insns abfd g" ?x] by (simp add: g_def)
    have at: "pc m1 = ?p" "npc m1 = ?p + 4"
      using run(2,3) \<open>dest = ?p\<close> by simp_all
    have r24: "reg m1 24 = g + of_nat ((2 + k) * MIPS_ELF_GOT_SIZE abfd)" "(2 + k) * MIPS_ELF_GOT_SIZE abfd < 2 ^ 31"
      using run(5) ready_numbers(3) [OF assms(1,17)] by (simp_all add: slot_address_def slot_offset_def g_def)
    obtain i2 m2 where "steps ?x mem i2 m1 = Some m2" "pc m2 = load_at abfd mem g" "npc m2 = load_at abfd mem g + 4"
      "reg m2 24 = of_nat k" "reg m2 15 = (if ABI_64_P abfd then reg m1 31 else sign_word (reg m1 31))"
      using plt0_runs [OF g at head r24] by blast
    then show ?thesis
      using run(1,6) steps_add [of ?x mem i1 i2 m] by (intro exI [of _ "i1 + i2"] exI [of _ m2]) simp
  qed
  have "rel_plt st ! k = dyn_rela abfd (dynindx (sy (ps ! k))) R_MIPS_JUMP_SLOT ?a"
    using fin(1) [OF assms(17)] by (simp add: entry_done_def)
  then show ?thesis
    using run(1-4,6) resolver by blast
qed

text \<open>Two functions with PLT entries at 0x400000, and \<^verbatim>\<open>.got.plt\<close> at 0x410000.\<close>

definition example_dyn_env :: dyn_env where
  "example_dyn_env =
     \<lparr>dyn_dynobj = le_bfd, use_plts_and_copy_relocs = True, dyn_rel_size = 8, dyn_rela_size = 12, got_header_size = 8,
      log_file_align = 2, weakdef = \<lambda>_. None, set_section_alignment = \<lambda>_ _. True, adjust_dynamic_copy = \<lambda>_ sy. (True, sy),
      record_dynamic_symbol = \<lambda>_ sy. (True, sy), hgot = None, hplt_indx = 1, hgot_indx = 2, procedure_count = 0\<rparr>"

definition example_finish_env :: finish_env where
  "example_finish_env =
     \<lparr>fe_dyn = example_dyn_env, fe_link = example_env, fe_sstubs = text_section, fe_stub_size = 16, fe_ptr_eq = {}, fe_needs_copy = {}\<rparr>"

definition plt_info :: link_info where
  "plt_info = example_info\<lparr>splt := Some text_section, plt_header_size := 32, plt_entry_size := 16,
     sgotplt := text_section\<lparr>output_offset := 0x10000\<rparr>\<rparr>"

definition example_functions :: "nat \<Rightarrow> link_sym" where
  "example_functions h = example_sym\<lparr>sym_id := h, dynindx := int h, no_fn_stub := True, global_got_area := GGA_NONE,
     plt_offset := if h = 5 then 32 else if h = 6 then 48 else MINUS_ONE\<rparr>"

definition example_contents :: dyn_contents where
  "example_contents =
     \<lparr>dc_calc = \<lparr>gs = example_got\<lparr>syms := example_functions\<rparr>, df_textrel = False, written_outs = {}, compact_rel = None\<rparr>,
      plt_bytes = replicate 68 0, gotplt_bytes = replicate 16 0, stub_bytes = [],
      rel_plt = replicate 2 \<lparr>r_offset = 0, r_info = 0, r_addend = 0\<rparr>, rel_plt_unloaded = [], rel_bss = []\<rparr>"

definition example_osyms :: "nat \<Rightarrow> out_sym" where
  "example_osyms _ = \<lparr>os_value = 0, os_size = 0, os_info = 0x12, os_other = 0, os_shndx = 0\<rparr>"

definition two_sections :: "vma \<Rightarrow> bytes \<Rightarrow> vma \<Rightarrow> bytes \<Rightarrow> memory" where
  "two_sections a c b d v = (if unat (v - a) < length c then c ! unat (v - a) else if unat (v - b) < length d then d ! unat (v - b) else 0)"

lemma canonical_small: "k < 2 ^ 31 \<Longrightarrow> canonical (of_nat k)"
  by (simp add: canonical_def small_word)

lemma example_finished:
  "case finish_symbols example_finish_env plt_info le_bfd example_osyms [6, 9, 5] example_contents of None \<Rightarrow> False | Some _ \<Rightarrow> True"
  by code_simp

lemma loaded_two:
  assumes "length c \<le> 2 ^ 30" "length d \<le> 2 ^ 30" "length c \<le> unat (b - a)" "unat (b - a) \<le> 2 ^ 30"
  shows "loaded (two_sections a c b d) a c" "loaded (two_sections a c b d) b d"
proof -
  show "loaded (two_sections a c b d) a c"
    using assms(1) by (simp add: loaded_def two_sections_def small_word)
  have "unat (b + of_nat i - a) = unat (b - a) + i" if "i < length d" for i
  proof -
    have "b + of_nat i - a = of_nat (unat (b - a) + i)"
      by simp
    then show ?thesis
      using assms(2,4) that by (simp only:) (rule small_word, simp)
  qed
  then show "loaded (two_sections a c b d) b d"
    using assms(2,3) by (simp add: loaded_def two_sections_def small_word)
qed

lemma loaded_part: "loaded mem a c \<Longrightarrow> off + n \<le> length c \<Longrightarrow> loaded mem (a + of_nat off) (take n (drop off c))"
  unfolding loaded_def by (simp add: add.assoc flip: of_nat_add)

theorem plt_call_binds_witness:
  "\<exists>st mem i m'. finish_symbols example_finish_env plt_info le_bfd example_osyms [6, 9, 5] example_contents = Some st
     \<and> steps le_xvec mem i \<lparr>pc = 0x400030, npc = 0x400034, regs = \<lambda>_. 0x401000\<rparr> = Some m' \<and> reg m' 24 = 1 \<and> reg m' 15 = 0x401000"
proof -
  obtain st1 where fin: "finish_symbols example_finish_env plt_info le_bfd example_osyms [6, 9, 5] example_contents = Some st1"
    using example_finished by (auto split: option.splits)
  let ?st = "finish_plt_header (fe_dyn example_finish_env) plt_info le_bfd 68 st1"
  let ?mem = "two_sections 0x400000 (plt_bytes ?st) 0x410000 (gotplt_bytes ?st)"
  let ?m = "\<lparr>pc = 0x400030, npc = 0x400034, regs = \<lambda>_. 0x401000\<rparr> :: machine"
  have ready: "plt_ready example_finish_env plt_info le_bfd [5, 6] example_functions example_contents"
    by (auto simp: plt_ready_def plt_assigned_def plt_info_def example_info_def example_finish_env_def example_dyn_env_def example_functions_def
        example_contents_def less_Suc_eq slot_offset_def MIPS_ELF_GOT_SIZE_def LOAD_INTERLOCKS_P_def le_bfd_def ABI_64_P_def
        example_sym_def MINUS_ONE_def nth_Cons')
  have sec: "section_address (sgotplt plt_info) = of_nat 0x410000" "section_address (the (splt plt_info)) = of_nat 0x400000"
    by (simp_all add: plt_info_def section_address_def text_section_def)
  have hyps: "syms (gs (dc_calc example_contents)) = example_functions" "\<not> is_vxworks plt_info" "splt plt_info \<noteq> None"
    "drop (32 + 16 * length [5, 6 :: nat]) (plt_bytes example_contents) = replicate 4 0" "set [5, 6 :: nat] \<subseteq> set [6, 9, 5]"
    "xvec_ok (bfd_xvec le_bfd)" and x: "bfd_xvec le_bfd = le_xvec" and abi: "\<not> ABI_64_P le_bfd"
    by (simp_all add: plt_info_def example_info_def example_contents_def le_bfd_def ABI_64_P_def)
  have zero: "getx32 (bfd_xvec le_bfd) [0, 0, 0, 0] = 0"
    by code_simp
  have "canonical (section_address (sgotplt plt_info) + of_nat d)" if "d \<le> 0x9000" for d
    using canonical_small [of "0x410000 + d"] that unfolding sec of_nat_add [symmetric] by (simp del: of_nat_add)
  then have canon: "\<forall>d \<le> slot_offset le_bfd (length [5, 6 :: nat]) + 0x8000. canonical (section_address (sgotplt plt_info) + of_nat d)"
    by (simp add: slot_offset_def MIPS_ELF_GOT_SIZE_def abi)
  have canon': "canonical (section_address (the (splt plt_info)))"
    unfolding sec by (rule canonical_small) simp
  note fin' = finished_plt [OF ready hyps(6,1-3) _ hyps(4) fin hyps(5) zero, where plt_size = 68 and denv = "fe_dyn example_finish_env"]
  have "length (plt_bytes ?st) = 68" "length (gotplt_bytes ?st) = 16"
    using fin'(2,5) by (simp_all add: example_contents_def slot_offset_def MIPS_ELF_GOT_SIZE_def abi)
  then have mem: "loaded ?mem 0x400000 (plt_bytes ?st)" "loaded ?mem 0x410000 (gotplt_bytes ?st)"
    by (simp_all add: loaded_two)
  have slot: "loaded ?mem (slot_address plt_info le_bfd 1) (take (MIPS_ELF_GOT_SIZE le_bfd) (drop (slot_offset le_bfd 1) (gotplt_bytes ?st)))"
    unfolding slot_address_def using mem(2) \<open>length (gotplt_bytes ?st) = 16\<close>
    by (intro loaded_part) (simp_all add: slot_offset_def MIPS_ELF_GOT_SIZE_def abi sec)
  note call = plt_call_binds [OF ready hyps(6,1-3) _ hyps(4) fin hyps(5) zero canon canon', where plt_size = 68 and k = 1 and mem = ?mem and m = ?m]
  obtain i m' where "steps le_xvec ?mem i ?m = Some m'" "reg m' 24 = 1" "reg m' 15 = 0x401000"
    using call slot mem(1) hyps(2,3) by (auto simp: sec x abi reg_def sign_word_def)
  then show ?thesis
    using fin by blast
qed

end
