(* ===== verification/PltLayout.thy ===== *)
theory PltLayout
  imports PltSpec
begin

text \<open>
  The layout of the PLT.  The symbols of a link are adjusted one after the other
  (\<^verbatim>\<open>_bfd_mips_elf_adjust_dynamic_symbol\<close>); the entries they get lie one behind the other, and the sizes
  of \<^verbatim>\<open>.plt\<close>, \<^verbatim>\<open>.got.plt\<close> and \<^verbatim>\<open>.rel.plt\<close> follow the number of entries.  This is what theory \<^verbatim>\<open>PltSpec\<close>
  assumes of the tables it fills.
\<close>

section \<open>Adjusting a list of symbols\<close>

fun adjust_symbols :: "dyn_env \<Rightarrow> link_info \<Rightarrow> nat list \<Rightarrow> dyn_state \<Rightarrow> bool \<times> dyn_state" where
  "adjust_symbols env info [] st = (True, st)"
| "adjust_symbols env info (h # hs) st =
     (let (ok, st) = bfd_mips_elf_adjust_dynamic_symbol env info h st
      in if ok then adjust_symbols env info hs st else (False, st))"

text \<open>What a copy relocation does to the symbols: it moves definitions and changes nothing else.\<close>

definition moves_definitions :: "(nat \<Rightarrow> link_sym) \<Rightarrow> (nat \<Rightarrow> link_sym) \<Rightarrow> bool" where
  "moves_definitions sy sy' \<longleftrightarrow> (\<forall>h. sy' h = sy h\<lparr>def_section := def_section (sy' h), def_value := def_value (sy' h)\<rparr>)"

lemma moved:
  "moves_definitions sy sy' \<Longrightarrow> plt_offset (sy' h) = plt_offset (sy h) \<and> no_fn_stub (sy' h) = no_fn_stub (sy h)
     \<and> has_static_relocs (sy' h) = has_static_relocs (sy h) \<and> needs_lazy_stub (sy' h) = needs_lazy_stub (sy h)"
  unfolding moves_definitions_def by (drule spec [of _ h], erule ssubst, simp)

text \<open>The part of a symbol that the layout is about.\<close>

abbreviation layout :: "link_sym \<Rightarrow> vma \<times> bool \<times> bool \<times> bool" where
  "layout s \<equiv> (plt_offset s, no_fn_stub s, has_static_relocs s, needs_lazy_stub s)"

lemma adjust_data_layout:
  assumes "\<And>h sy. moves_definitions sy (snd (adjust_dynamic_copy env h sy))" "adjust_data_symbol env info h st = (ok, st')"
  shows "layout (dy_syms st' q) = layout (dy_syms st q)" "splt_size st' = splt_size st" "sgotplt_size st' = sgotplt_size st"
    "srelplt_size st' = srelplt_size st" "dy_lazy_stub_count st' = dy_lazy_stub_count st"
proof -
  let ?same = "\<lambda>st'. layout (dy_syms st' q) = layout (dy_syms st q) \<and> splt_size st' = splt_size st \<and> sgotplt_size st' = sgotplt_size st
      \<and> srelplt_size st' = srelplt_size st \<and> dy_lazy_stub_count st' = dy_lazy_stub_count st"
  have copied: "?same (st2\<lparr>dy_syms := snd (adjust_dynamic_copy env h (dy_syms st2))\<rparr>)" if "?same st2" for st2
    using moved [OF assms(1) [of "dy_syms st2" h], of q] that by simp
  have "?same st'"
  proof (cases "weakdef env h")
    case None
    define st1 where "st1 = (if SEC_ALLOC \<in> sec_flags (the (def_section (dy_syms st h)))
        then (if is_vxworks info then st\<lparr>srelbss_size := srelbss_size st + of_nat sizeof_Elf32_External_Rela\<rparr>
              else dyn_allocate env info 1 st)\<lparr>dy_needs_copy := insert h (dy_needs_copy st)\<rparr>
        else st)"
    have "?same (on_sym h (\<lambda>s. s\<lparr>possibly_dynamic_relocs := 0\<rparr>) st1)"
      by (simp add: st1_def dyn_allocate_def)
    note copied [OF this]
    moreover have "st' = st \<or> (let st2 = on_sym h (\<lambda>s. s\<lparr>possibly_dynamic_relocs := 0\<rparr>) st1
        in st' = st2\<lparr>dy_syms := snd (adjust_dynamic_copy env h (dy_syms st2))\<rparr>)"
      using assms(2) None unfolding adjust_data_symbol_def Let_def st1_def [symmetric]
      by (simp split: if_splits prod.splits)
    ultimately show ?thesis
      unfolding Let_def by blast
  next
    case (Some w)
    then show ?thesis
      using assms(2) by (cases "q = h") (auto simp: adjust_data_symbol_def Let_def)
  qed
  then show "layout (dy_syms st' q) = layout (dy_syms st q)" "splt_size st' = splt_size st" "sgotplt_size st' = sgotplt_size st"
    "srelplt_size st' = srelplt_size st" "dy_lazy_stub_count st' = dy_lazy_stub_count st"
    by simp_all
qed

section \<open>The invariant\<close>

text \<open>
  \<^verbatim>\<open>ps\<close> are the symbols with an entry so far, in the order of their entries; the other symbols have no
  offset.  A symbol that gets a stub is not among them.
\<close>

definition plt_laid :: "dyn_env \<Rightarrow> link_info \<Rightarrow> nat list \<Rightarrow> dyn_state \<Rightarrow> bool" where
  "plt_laid env info ps st \<longleftrightarrow>
     plt_assigned ps (dy_syms st) \<and> (\<forall>h. h \<notin> set ps \<longrightarrow> plt_offset (dy_syms st h) = MINUS_ONE)
     \<and> (\<forall>h. has_static_relocs (dy_syms st h) \<longrightarrow> no_fn_stub (dy_syms st h))
     \<and> (\<forall>h. needs_lazy_stub (dy_syms st h) \<longrightarrow> \<not> no_fn_stub (dy_syms st h))
     \<and> splt_size st = (if ps = [] then 0 else of_nat (32 + 16 * length ps))
     \<and> sgotplt_size st = (if ps = [] then 0 else got_header_size env + of_nat (length ps * MIPS_ELF_GOT_SIZE (dyn_dynobj env)))
     \<and> srelplt_size st = of_nat (length ps * dyn_rel_size env)"

lemma plt_laid_cong:
  assumes "plt_laid env info ps st" "\<And>q. layout (dy_syms st' q) = layout (dy_syms st q)"
    "splt_size st' = splt_size st" "sgotplt_size st' = sgotplt_size st" "srelplt_size st' = srelplt_size st"
  shows "plt_laid env info ps st'"
  using assms by (simp add: plt_laid_def plt_assigned_def)

lemma lazy_layout:
  assumes "plt_laid env info ps st" "\<not> no_fn_stub (dy_syms st h)"
  shows "plt_laid env info ps (on_sym h (\<lambda>s. s\<lparr>needs_lazy_stub := True\<rparr>) st\<lparr>dy_lazy_stub_count := n\<rparr>)"
  using assms by (auto simp: plt_laid_def plt_assigned_def nth_eq_iff_index_eq)

lemma entry_layout:
  assumes "plt_laid env info ps st" "no_fn_stub (dy_syms st h)" "h \<notin> set ps" "length ps < 2 ^ 26"
    and "\<not> is_vxworks info" "(plt_header_size info, plt_entry_size info) = (32, 16)" "start_plt env info st = Some st'"
  shows "plt_laid env info (ps @ [h]) (add_plt_entry env info h st')"
proof -
  have size: "splt_size st = 0 \<longleftrightarrow> ps = []"
  proof -
    have "(of_nat (32 + 16 * length ps) :: vma) \<noteq> 0"
      using small_word(3) [of "32 + 16 * length ps"] assms(4) by fastforce
    then show ?thesis
      using assms(1) by (simp add: plt_laid_def)
  qed
  have st': "dy_syms st' = dy_syms st" "splt_size st' = of_nat (32 + 16 * length ps)"
    "sgotplt_size st' = got_header_size env + of_nat (length ps * MIPS_ELF_GOT_SIZE (dyn_dynobj env))"
    "srelplt_size st' = srelplt_size st"
    using assms size by (auto simp: start_plt_def plt_laid_def split: if_splits)
  define st2 where "st2 = add_plt_entry env info h st'"
  have st2: "dy_syms st2 q = (if q = h then dy_syms st2 h else dy_syms st q)"
    "plt_offset (dy_syms st2 h) = of_nat (32 + 16 * length ps)" "no_fn_stub (dy_syms st2 h)"
    "needs_lazy_stub (dy_syms st2 h) = needs_lazy_stub (dy_syms st h)"
    "splt_size st2 = splt_size st' + 16" "sgotplt_size st2 = sgotplt_size st' + of_nat (MIPS_ELF_GOT_SIZE (dyn_dynobj env))"
    "srelplt_size st2 = srelplt_size st' + of_nat (dyn_rel_size env)" for q
    using assms(2,5,6) st' by (auto simp: add_plt_entry_def Let_def st2_def)
  have sizes: "splt_size st2 = of_nat (32 + 16 * length (ps @ [h]))"
    "sgotplt_size st2 = got_header_size env + of_nat (length (ps @ [h]) * MIPS_ELF_GOT_SIZE (dyn_dynobj env))"
    "srelplt_size st2 = of_nat (length (ps @ [h]) * dyn_rel_size env)"
    using assms(1) by (simp_all add: st2(5-7) st' plt_laid_def algebra_simps)
  have "plt_assigned (ps @ [h]) (dy_syms st2)"
    unfolding plt_assigned_def
  proof (intro conjI allI impI)
    show "distinct (ps @ [h])"
      using assms(1,3) by (simp add: plt_laid_def plt_assigned_def)
    fix k
    assume k: "k < length (ps @ [h])"
    show "plt_offset (dy_syms st2 ((ps @ [h]) ! k)) = of_nat (32 + 16 * k)" "no_fn_stub (dy_syms st2 ((ps @ [h]) ! k))"
    proof -
      have "plt_offset (dy_syms st2 ((ps @ [h]) ! k)) = of_nat (32 + 16 * k) \<and> no_fn_stub (dy_syms st2 ((ps @ [h]) ! k))"
      proof (cases "k = length ps")
        case False
        then have "k < length ps" "ps ! k \<noteq> h"
          using k assms(3) by auto
        then show ?thesis
          using assms(1) st2(1) [of "ps ! k"] by (simp add: plt_laid_def plt_assigned_def nth_append)
      qed (simp add: st2(2,3))
      then show "plt_offset (dy_syms st2 ((ps @ [h]) ! k)) = of_nat (32 + 16 * k)" "no_fn_stub (dy_syms st2 ((ps @ [h]) ! k))"
        by blast+
    qed
  next
    fix q
    assume "q \<notin> set (ps @ [h])"
    then show "plt_offset (dy_syms st2 q) = MINUS_ONE \<or> \<not> no_fn_stub (dy_syms st2 q)"
      using assms(1) st2(1) [of q] by (simp add: plt_laid_def)
  qed
  moreover have "plt_offset (dy_syms st2 q) = MINUS_ONE" if "q \<notin> set (ps @ [h])" for q
    using that assms(1) st2(1) [of q] by (simp add: plt_laid_def)
  moreover have "(has_static_relocs (dy_syms st2 q) \<longrightarrow> no_fn_stub (dy_syms st2 q)) \<and> (needs_lazy_stub (dy_syms st2 q) \<longrightarrow> \<not> no_fn_stub (dy_syms st2 q))" for q
    using assms(1,2) st2(1) [of q] st2(3,4) by (cases "q = h") (auto simp: plt_laid_def)
  ultimately show ?thesis
    using sizes by (simp add: plt_laid_def flip: st2_def)
qed

lemma adjust_layout:
  assumes "plt_laid env info ps st" "h \<notin> set ps" "length ps < 2 ^ 26" "\<not> is_vxworks info"
    and "(plt_header_size info, plt_entry_size info) = (32, 16)" "\<And>h sy. moves_definitions sy (snd (adjust_dynamic_copy env h sy))"
    and "bfd_mips_elf_adjust_dynamic_symbol env info h st = (True, st')"
  shows "plt_laid env info ps st' \<or> has_static_relocs (dy_syms st h) \<and> plt_laid env info (ps @ [h]) st'"
proof -
  let ?s = "dy_syms st h"
  have data: "plt_laid env info ps st'" if "adjust_data_symbol env info h st = (True, st')"
    using adjust_data_layout [OF assms(6) that] by (intro plt_laid_cong [OF assms(1)]) auto
  consider "needs_plt ?s" "\<not> no_fn_stub ?s" | "\<not> (needs_plt ?s \<and> \<not> no_fn_stub ?s)" "needs_plt_entry env info ?s"
    | "\<not> (needs_plt ?s \<and> \<not> no_fn_stub ?s)" "\<not> needs_plt_entry env info ?s"
    by blast
  then show ?thesis
  proof cases
    case 1
    then show ?thesis
      using assms(1,4,7) lazy_layout [OF assms(1) 1(2)] data
      by (auto simp: bfd_mips_elf_adjust_dynamic_symbol_def Let_def split: if_splits)
  next
    case 2
    then have static: "has_static_relocs ?s"
      by (auto simp: needs_plt_entry_def)
    obtain st1 where "start_plt env info st = Some st1" "st' = add_plt_entry env info h st1"
      using assms(4,7) 2 by (auto simp: bfd_mips_elf_adjust_dynamic_symbol_def Let_def split: option.splits)
    then show ?thesis
      using entry_layout [OF assms(1) _ assms(2-5)] static assms(1) by (simp add: plt_laid_def)
  next
    case 3
    then show ?thesis
      using data assms(4,7) by (auto simp: bfd_mips_elf_adjust_dynamic_symbol_def Let_def)
  qed
qed

lemma adjust_symbols_layout:
  assumes "\<not> is_vxworks info" "(plt_header_size info, plt_entry_size info) = (32, 16)"
    and "\<And>h sy. moves_definitions sy (snd (adjust_dynamic_copy env h sy))"
  shows "adjust_symbols env info hs st = (True, st') \<Longrightarrow> plt_laid env info ps st \<Longrightarrow> distinct (ps @ hs)
    \<Longrightarrow> length (ps @ hs) < 2 ^ 26 \<Longrightarrow> \<exists>qs. set qs \<subseteq> set hs \<and> plt_laid env info (ps @ qs) st'"
proof (induction hs arbitrary: st ps)
  case (Cons h hs)
  obtain st1 where one: "bfd_mips_elf_adjust_dynamic_symbol env info h st = (True, st1)" "adjust_symbols env info hs st1 = (True, st')"
    using Cons.prems(1) by (auto split: prod.splits if_splits)
  have "plt_laid env info ps st1 \<or> plt_laid env info (ps @ [h]) st1"
    using adjust_layout [OF Cons.prems(2) _ _ assms one(1)] Cons.prems(3,4) by auto
  then show ?case
  proof
    assume laid: "plt_laid env info ps st1"
    obtain qs where "set qs \<subseteq> set hs" "plt_laid env info (ps @ qs) st'"
      using Cons.IH [OF one(2) laid] Cons.prems(3,4) by auto
    then show ?thesis
      by (intro exI [of _ qs]) auto
  next
    assume laid: "plt_laid env info (ps @ [h]) st1"
    obtain qs where "set qs \<subseteq> set hs" "plt_laid env info ((ps @ [h]) @ qs) st'"
      using Cons.IH [OF one(2) laid] Cons.prems(3,4) by auto
    then show ?thesis
      by (intro exI [of _ "h # qs"]) auto
  qed
qed (auto intro: exI [of _ "[]"])

section \<open>Stubs\<close>

text \<open>Laying out the stubs gives offsets to symbols that can have a stub, and leaves the PLT as it is.\<close>

lemma stub_keeps_plt:
  fixes h :: nat and sstubs :: asection
  assumes "plt_assigned ps (fst acc)" "\<forall>h. needs_lazy_stub (fst acc h) \<longrightarrow> \<not> no_fn_stub (fst acc h)"
  defines "sy \<equiv> fst (mips_elf_allocate_lazy_stub sstubs h acc)"
  shows "plt_assigned ps sy \<and> (\<forall>h. needs_lazy_stub (sy h) \<longrightarrow> \<not> no_fn_stub (sy h))"
proof (cases "needs_lazy_stub (fst acc h)")
  case True
  then have "h \<notin> set ps"
    using assms(1,2) by (auto simp: plt_assigned_def in_set_conv_nth)
  then have "ps ! k \<noteq> h" if "k < length ps" for k
    using that nth_mem by metis
  then show ?thesis
    using assms(1,2) True by (auto simp: sy_def mips_elf_allocate_lazy_stub_def plt_assigned_def split: prod.splits)
qed (use assms(1,2) in \<open>auto simp: sy_def mips_elf_allocate_lazy_stub_def split: prod.splits\<close>)

lemma stubs_keep_plt:
  assumes "plt_assigned ps (fst acc)" "\<forall>h. needs_lazy_stub (fst acc h) \<longrightarrow> \<not> no_fn_stub (fst acc h)"
  shows "plt_assigned ps (fst (fold (mips_elf_allocate_lazy_stub sstubs) hs acc))"
  using assms
proof (induction hs arbitrary: acc)
  case (Cons h hs)
  show ?case
    using Cons.IH [of "mips_elf_allocate_lazy_stub sstubs h acc"] stub_keeps_plt [OF Cons.prems, of sstubs h] by simp
qed simp

lemma laid_out_stubs:
  "plt_assigned ps sy \<Longrightarrow> \<forall>h. needs_lazy_stub (sy h) \<longrightarrow> \<not> no_fn_stub (sy h)
     \<Longrightarrow> plt_assigned ps (fst (mips_elf_lay_out_lazy_stubs sstubs hs (sy, l)))"
  using stubs_keep_plt [of ps "(sy, l\<lparr>sstubs_size := 0\<rparr>)" sstubs hs]
  by (auto simp: mips_elf_lay_out_lazy_stubs_def split: prod.splits)

text \<open>
  C4.  Layout of the PLT.  When the symbols of an executable are adjusted and the stubs laid out, the symbols with a PLT
  entry are some of the adjusted ones, their entries follow the header in order without gaps or overlaps, every other symbol
  has no offset or the offset of a stub, and \<^verbatim>\<open>.plt\<close>, \<^verbatim>\<open>.got.plt\<close> and \<^verbatim>\<open>.rel.plt\<close> have the sizes that many entries
  need; without entries the first two are empty.
\<close>

theorem plt_layout:
  assumes "\<not> is_vxworks info" "\<not> shared info" "(plt_header_size info, plt_entry_size info) = plt_sizes info"
    and "\<And>h sy. moves_definitions sy (snd (adjust_dynamic_copy env h sy))"
    and "\<forall>h. plt_offset (dy_syms st h) = MINUS_ONE \<and> \<not> needs_lazy_stub (dy_syms st h)
           \<and> (has_static_relocs (dy_syms st h) \<longrightarrow> no_fn_stub (dy_syms st h))"
    and "splt_size st = 0" "sgotplt_size st = 0" "srelplt_size st = 0"
    and "adjust_symbols env info hs st = (True, st')" "distinct hs" "length hs < 2 ^ 26"
  shows "\<exists>ps. set ps \<subseteq> set hs \<and> plt_assigned ps (fst (mips_elf_lay_out_lazy_stubs sstubs ss (dy_syms st', l)))
    \<and> splt_size st' = (if ps = [] then 0 else of_nat (32 + 16 * length ps))
    \<and> sgotplt_size st' = (if ps = [] then 0 else got_header_size env + of_nat (length ps * MIPS_ELF_GOT_SIZE (dyn_dynobj env)))
    \<and> srelplt_size st' = of_nat (length ps * dyn_rel_size env)"
proof -
  have sizes: "(plt_header_size info, plt_entry_size info) = (32, 16)"
    using assms(1-3) by (simp add: plt_sizes_def mips_o32_exec_plt0_entry_def mips_exec_plt_entry_def)
  have "plt_laid env info [] st"
    using assms(5-8) by (simp add: plt_laid_def plt_assigned_def)
  then obtain ps where "set ps \<subseteq> set hs" "plt_laid env info ([] @ ps) st'"
    using adjust_symbols_layout [OF assms(1) sizes assms(4,9)] assms(10,11) by force
  then show ?thesis
    using laid_out_stubs [of ps "dy_syms st'" sstubs ss l] by (intro exI [of _ ps]) (simp add: plt_laid_def)
qed

text \<open>Two functions of a shared object whose addresses are taken, and one that is only called.\<close>

definition imported_functions :: "nat \<Rightarrow> link_sym" where
  "imported_functions h =
     example_sym\<lparr>sym_id := h, elf_sym_type := STT_FUNC, st_other := STV_DEFAULT, def_regular := False, needs_plt := True, plt_offset := MINUS_ONE,
       no_fn_stub := h \<noteq> 4, has_static_relocs := h = 3 \<or> h = 5, needs_lazy_stub := False\<rparr>"

definition imports_info :: link_info where
  "imports_info = plt_info\<lparr>symbol_calls_local := \<lambda>_. False, dynamic_sections_created := True\<rparr>"

definition imports_state :: dyn_state where
  "imports_state =
     \<lparr>dy_syms = imported_functions, splt_size = 0, sgotplt_size = 0, srelplt_size = 0, srelplt2_size = 0, srelbss_size = 0,
      dy_lazy_stub_count = 0, dy_rel_dyn = (0, 0), dy_needs_copy = {}, dy_textrel = False\<rparr>"

theorem plt_layout_witness:
  "\<exists>ps. set ps \<subseteq> {3, 4, 5} \<and> 64 = (of_nat (32 + 16 * length ps) :: vma)
     \<and> plt_assigned ps (fst (mips_elf_lay_out_lazy_stubs text_section [3, 4, 5]
         (dy_syms (snd (adjust_symbols example_dyn_env imports_info [3, 4, 5] imports_state)), \<lparr>lazy_stub_count = 2, function_stub_size = 16, sstubs_size = 0\<rparr>)))"
proof -
  let ?run = "adjust_symbols example_dyn_env imports_info [3, 4, 5] imports_state"
  have run: "fst ?run = True" "splt_size (snd ?run) = 64"
    by code_simp+
  then have "?run = (True, snd ?run)"
    by (metis prod.collapse)
  note layout = plt_layout [OF _ _ _ _ _ _ _ _ this, where sstubs = text_section and ss = "[3, 4, 5]"
      and l = "\<lparr>lazy_stub_count = 2, function_stub_size = 16, sstubs_size = 0\<rparr>"]
  have "moves_definitions sy (snd (adjust_dynamic_copy example_dyn_env h sy))" for h sy
    by (simp add: moves_definitions_def example_dyn_env_def)
  then obtain ps where "set ps \<subseteq> set [3, 4, 5]" "64 = (if ps = [] then 0 else of_nat (32 + 16 * length ps) :: vma)"
    "plt_assigned ps (fst (mips_elf_lay_out_lazy_stubs text_section [3, 4, 5]
         (dy_syms (snd ?run), \<lparr>lazy_stub_count = 2, function_stub_size = 16, sstubs_size = 0\<rparr>)))"
    using layout unfolding run(2)
    by (auto simp: imports_info_def plt_info_def example_info_def imports_state_def imported_functions_def example_sym_def
        plt_sizes_def mips_o32_exec_plt0_entry_def mips_exec_plt_entry_def)
  then show ?thesis
    by (intro exI [of _ ps]) (auto split: if_splits)
qed

end
