(* ===== verification/Symbols.thy ===== *)
theory Symbols
  imports Plt
begin

text \<open>
  Hooks on symbols and on sections that are kept or discarded: copying an indirect or weak symbol
  to its target (\<^verbatim>\<open>_bfd_mips_elf_copy_indirect_symbol\<close>), garbage collection, and the removal of the
  \<^verbatim>\<open>.pdr\<close> records of deleted functions (\<^verbatim>\<open>_bfd_mips_elf_discard_info\<close> and \<^verbatim>\<open>_bfd_mips_elf_write_section\<close>).
\<close>

section \<open>Indirect and weak symbols\<close>

definition is_indirect :: "link_sym \<Rightarrow> bool" where
  "is_indirect s \<longleftrightarrow> (case root_type s of bfd_link_hash_indirect _ \<Rightarrow> True | _ \<Rightarrow> False)"

text \<open>The order of the enumeration: areas nearer to the start of the table are smaller.\<close>

definition area_less :: "got_area \<Rightarrow> got_area \<Rightarrow> bool" where
  "area_less a b \<longleftrightarrow>
     (case (a, b) of (GGA_NORMAL, GGA_NORMAL) \<Rightarrow> False | (GGA_NORMAL, _) \<Rightarrow> True | (GGA_RELOC_ONLY, GGA_NONE) \<Rightarrow> True | _ \<Rightarrow> False)"

text \<open>What an indirect symbol passes on to its target.\<close>

definition merged_direct :: "link_sym \<Rightarrow> link_sym \<Rightarrow> link_sym" where
  "merged_direct d i =
     d\<lparr>possibly_dynamic_relocs := possibly_dynamic_relocs d + possibly_dynamic_relocs i,
       readonly_reloc := readonly_reloc d \<or> readonly_reloc i,
       no_fn_stub := no_fn_stub d \<or> no_fn_stub i,
       fn_stub := (if fn_stub i \<noteq> None then fn_stub i else fn_stub d),
       need_fn_stub := need_fn_stub d \<or> need_fn_stub i,
       call_stub := (if call_stub i \<noteq> None then call_stub i else call_stub d),
       call_fp_stub := (if call_fp_stub i \<noteq> None then call_fp_stub i else call_fp_stub d),
       global_got_area := (if area_less (global_got_area i) (global_got_area d) then global_got_area i else global_got_area d),
       has_nonpic_branches := has_nonpic_branches d \<or> has_nonpic_branches i,
       sym_tls_type := (if sym_tls_type d = 0 then sym_tls_type i else sym_tls_type d)\<rparr>"

definition emptied_indirect :: "link_sym \<Rightarrow> link_sym" where
  "emptied_indirect i =
     i\<lparr>fn_stub := None, need_fn_stub := False, call_stub := None, call_fp_stub := None,
       global_got_area := (if area_less (global_got_area i) GGA_NONE then GGA_NONE else global_got_area i)\<rparr>"

text \<open>The first parameter is \<^verbatim>\<open>_bfd_elf_link_hash_copy_indirect\<close>; the two symbols are different.\<close>

definition bfd_mips_elf_copy_indirect_symbol ::
  "(nat \<Rightarrow> nat \<Rightarrow> (nat \<Rightarrow> link_sym) \<Rightarrow> nat \<Rightarrow> link_sym) \<Rightarrow> nat \<Rightarrow> nat \<Rightarrow> (nat \<Rightarrow> link_sym) \<Rightarrow> nat \<Rightarrow> link_sym" where
  "bfd_mips_elf_copy_indirect_symbol elf_copy dir ind sy =
     (let sy = elf_copy dir ind sy;
          sy = (if has_static_relocs (sy ind) then sy(dir := (sy dir)\<lparr>has_static_relocs := True\<rparr>) else sy)
      in if \<not> is_indirect (sy ind) then sy
         else sy(dir := merged_direct (sy dir) (sy ind), ind := emptied_indirect (sy ind)))"

section \<open>Garbage collection\<close>

text \<open>The section a relocation keeps; the parameter is the answer of \<^verbatim>\<open>_bfd_elf_gc_mark_hook\<close>.\<close>

definition bfd_mips_elf_gc_mark_hook :: "bfd \<Rightarrow> elf_rela \<Rightarrow> nat option \<Rightarrow> asection option \<Rightarrow> asection option" where
  "bfd_mips_elf_gc_mark_hook owner rel h marked =
     (if h \<noteq> None \<and> ELF_R_TYPE owner (r_info rel) \<in> {R_MIPS_GNU_VTINHERIT, R_MIPS_GNU_VTENTRY} then None else marked)"

section \<open>Records of deleted functions\<close>

abbreviation (input) PDR_SIZE :: nat where "PDR_SIZE \<equiv> 32"

text \<open>
  \<^verbatim>\<open>.pdr\<close> of an input file: its size in bytes, whether its output section is the absolute one, whether its relocations can be read,
  and the answers of \<^verbatim>\<open>bfd_elf_reloc_symbol_deleted_p\<close>.  The result is the value of the function, the marks of the
  deleted records, if they are kept, and the new size.
\<close>

record pdr_section =
  pdr_bytes :: nat
  pdr_abs_output :: bool
  pdr_relocs_ok :: bool
  symbol_deleted :: "nat \<Rightarrow> bool"

definition bfd_mips_elf_discard_info :: "pdr_section option \<Rightarrow> bool \<times> bool list option \<times> nat" where
  "bfd_mips_elf_discard_info po =
     (case po of
        None \<Rightarrow> (False, None, 0)
      | Some p \<Rightarrow>
          if pdr_bytes p = 0 \<or> pdr_bytes p mod PDR_SIZE \<noteq> 0 \<or> pdr_abs_output p \<or> \<not> pdr_relocs_ok p
          then (False, None, pdr_bytes p)
          else
            let tdata = map (\<lambda>i. symbol_deleted p (i * PDR_SIZE)) [0 ..< pdr_bytes p div PDR_SIZE];
                skip = length (filter (\<lambda>d. d) tdata)
            in if skip \<noteq> 0 then (True, Some tdata, pdr_bytes p - skip * PDR_SIZE) else (False, None, pdr_bytes p))"

definition bfd_mips_elf_ignore_discarded_relocs :: "asection \<Rightarrow> bool" where
  "bfd_mips_elf_ignore_discarded_relocs sec \<longleftrightarrow> sec_name sec = ''.pdr''"

definition move_bytes :: "nat \<Rightarrow> nat \<Rightarrow> nat \<Rightarrow> bytes \<Rightarrow> bytes" where
  "move_bytes to from n c = take to c @ take n (drop from c) @ drop (to + n) c"

function pdr_loop :: "bool list \<Rightarrow> nat \<Rightarrow> nat \<Rightarrow> nat \<Rightarrow> nat \<Rightarrow> bytes \<Rightarrow> bytes" where
  "pdr_loop tdata end from i to c =
     (if from < end
      then (if tdata ! i then pdr_loop tdata end (from + PDR_SIZE) (i + 1) to c
            else pdr_loop tdata end (from + PDR_SIZE) (i + 1) (to + PDR_SIZE)
                   (if to \<noteq> from then move_bytes to from PDR_SIZE c else c))
      else c)"
  by pat_completeness auto
termination
  by (relation "measure (\<lambda>(tdata, end, from, i, to, c). end - from)") auto

declare pdr_loop.simps [simp del]

text \<open>The bytes written to the output, \<^verbatim>\<open>None\<close> when the section is left to the caller.\<close>

definition bfd_mips_elf_write_section :: "string \<Rightarrow> bool list option \<Rightarrow> nat \<Rightarrow> bytes \<Rightarrow> bytes option" where
  "bfd_mips_elf_write_section name tdata sec_sz contents =
     (if name \<noteq> ''.pdr'' then None
      else case tdata of
             None \<Rightarrow> None
           | Some tdata \<Rightarrow> Some (take sec_sz (pdr_loop tdata sec_sz 0 0 0 contents)))"

end
