(* ===== verification/StaticRefs.thy ===== *)
theory StaticRefs
  imports CheckSpec PltLayout Symbols
begin

text \<open>
  Static references and stubs.  A symbol with a static reference cannot have a lazy-binding stub, so the
  code that lays out and writes the PLT can tell the two apart by \<^verbatim>\<open>no_fn_stub\<close>.  The scan of relocations
  and the merging of indirect symbols keep this invariant; copying the flags of a weak alias to the
  symbol it stands for does not.
\<close>

section \<open>The two flags\<close>

definition same_flags :: "got_state \<Rightarrow> got_state \<Rightarrow> bool" where
  "same_flags g g' \<longleftrightarrow>
     (\<forall>h. has_static_relocs (syms g' h) = has_static_relocs (syms g h) \<and> no_fn_stub (syms g' h) = no_fn_stub (syms g h))"

lemma same_flags_refl [simp]: "same_flags g g"
  by (simp add: same_flags_def)

lemma same_flags_trans: "same_flags g g' \<Longrightarrow> same_flags g' g'' \<Longrightarrow> same_flags g g''"
  by (simp add: same_flags_def)

lemma same_flags_syms: "syms g' = syms g \<Longrightarrow> same_flags g g'"
  by (simp add: same_flags_def)

lemma same_flags_upd_sym:
  "(\<And>s. has_static_relocs (f s) = has_static_relocs s \<and> no_fn_stub (f s) = no_fn_stub s) \<Longrightarrow> same_flags g (upd_sym h f g)"
  by (simp add: same_flags_def upd_sym_def)

lemma upd_tables_syms [simp]:
  "syms (upd_got p f g) = syms g" "syms (upd_ent q f' g) = syms g" "syms (new_ent p e g) = syms g"
  by (simp_all add: upd_got_def upd_ent_def new_ent_def)

text \<open>What the scan relies on of the functions of BFD: they do not touch the two flags.\<close>

definition flags_kept :: "check_env \<Rightarrow> bool" where
  "flags_kept env \<longleftrightarrow>
     (\<forall>h g. same_flags g (ck_hide env h g))
     \<and> (\<forall>h g g'. ck_record_dyn env h g = Some g' \<longrightarrow> same_flags g g')
     \<and> (\<forall>g h g'. add_got_symbol env g = Some (h, g') \<longrightarrow> same_flags g g')"

abbreviation flags_same :: "check_state \<Rightarrow> check_state \<Rightarrow> bool" where
  "flags_same st st' \<equiv> same_flags (ck_gs st) (ck_gs st')"

lemma record_local_flags: "same_flags g (mips_elf_record_local_got_symbol b s a t g)"
  by (rule same_flags_syms) (simp add: mips_elf_record_local_got_symbol_def Let_def split: option.split)

lemma record_global_flags:
  assumes "flags_kept env" "mips_elf_record_global_got_symbol (ck_hide env) (ck_record_dyn env) h b c t g = Some g'"
  shows "same_flags g g'"
proof -
  obtain g2 where g2: "made_dynamic env h c g = Some g2" "g' = enter_global h b t g2"
    using assms(2) by (auto simp: record_global_split)
  define g1 where "g1 = (if \<not> c then upd_sym h (\<lambda>s. s\<lparr>got_only_for_calls := False\<rparr>) g else g)"
  have g1: "same_flags g g1"
    by (simp add: g1_def same_flags_upd_sym)
  have hide: "same_flags g1 (ck_hide env h g1)" and dyn: "ck_record_dyn env h x = Some y \<Longrightarrow> same_flags x y" for x y
    using assms(1) by (auto simp: flags_kept_def)
  have "same_flags g1 g2"
    using g2(1) dyn same_flags_trans [OF hide] unfolding made_dynamic_def g1_def [symmetric] Let_def by (auto split: if_splits)
  moreover have "same_flags g2 g'"
    unfolding g2(2) enter_global_def Let_def
    by (auto intro: same_flags_syms same_flags_trans [OF same_flags_syms same_flags_upd_sym] split: option.split)
  ultimately show ?thesis
    using same_flags_trans [OF g1] same_flags_trans by blast
qed

section \<open>The steps of the scan\<close>

lemma create_got_flags:
  assumes "flags_kept env"
  shows "chk_all (flags_same st) (mips_elf_create_got_section env info d st)"
proof -
  have "same_flags (ck_gs st) g'"
    if "add_got_symbol env (ck_gs st) = Some (h, g)"
      "(if shared info then ck_record_dyn env h (upd_sym h (\<lambda>s. s\<lparr>def_regular := True, elf_sym_type := STT_OBJECT\<rparr>) g)
        else Some (upd_sym h (\<lambda>s. s\<lparr>def_regular := True, elf_sym_type := STT_OBJECT\<rparr>) g)) = Some g'" for h g g'
  proof -
    let ?g = "upd_sym h (\<lambda>s. s\<lparr>def_regular := True, elf_sym_type := STT_OBJECT\<rparr>) g"
    have "same_flags (ck_gs st) g" "same_flags g ?g"
      using assms that(1) by (auto simp: flags_kept_def intro: same_flags_upd_sym)
    moreover have "same_flags ?g g'"
      using assms that(2) by (auto simp: flags_kept_def split: if_splits)
    ultimately show ?thesis
      using same_flags_trans by blast
  qed
  moreover have "same_flags g g' \<Longrightarrow> same_flags g (g'\<lparr>gots := x\<rparr>)" for g g' x
    by (simp add: same_flags_def)
  ultimately show ?thesis
    unfolding mips_elf_create_got_section_def Let_def
    by (auto split: option.split prod.split)
qed

lemma rel_dyn_flags: "chk_all (\<lambda>st'. ck_gs st' = ck_gs st) (mips_elf_rel_dyn_section env info st)"
  by (auto simp: mips_elf_rel_dyn_section_def split: option.split)

lemma local_or_gott_flags: "chk_all (flags_same st) (local_or_gott env info co sec rel h st)"
proof (cases h)
  case (Some i)
  then show ?thesis
    by (auto simp: local_or_gott_def Let_def allocate_one_def intro!: chk_all_trans [OF rel_dyn_flags])
qed (simp add: local_or_gott_def Let_def record_local_flags)

lemma record_global_step: "flags_kept env \<Longrightarrow> chk_all (flags_same st) (record_global env co h c t st)"
  by (auto simp: record_global_def intro: record_global_flags split: option.split)

lemma page_addend_flags: "chk_all (\<lambda>(a, st'). ck_gs st' = ck_gs st) (page_addend env co sec index rel st)"
  by (auto simp: page_addend_def Let_def split: option.split)

lemma record_call_flags:
  assumes "flags_kept env"
  shows "chk_all (flags_same st) (record_call env co rel h st)"
proof (cases h)
  case (Some i)
  have "same_flags g (upd_sym i (\<lambda>s. s\<lparr>needs_plt := True, elf_sym_type := STT_FUNC\<rparr>) g)" for g
    by (rule same_flags_upd_sym) simp
  then show ?thesis
    unfolding record_call_def Let_def Some option.case
    by (intro chk_all_trans [OF record_global_step [OF assms]]) (auto intro: same_flags_trans)
qed (simp add: record_call_def Let_def)

lemma record_got16_flags:
  assumes "flags_kept env"
  shows "chk_all (\<lambda>(h', st'). flags_same st st') (record_got16 env info co sec index rel h st)"
proof -
  let ?rec = "chk_bind (page_addend env co sec index rel st)
    (\<lambda>(addend, st). chk_ok (on_tables (record_page_reloc (bfd_id (co_bfd co)) (int (ELF_R_SYM (co_bfd co) (r_info rel))) (sint addend)) st))"
  have "chk_all (\<lambda>st'. syms (ck_gs st') = syms (ck_gs st)) ?rec"
    by (rule chk_all_trans [OF page_addend_flags]) (auto simp: record_page_reloc_def)
  then have page: "chk_all (\<lambda>st'. syms (ck_gs st') = syms (ck_gs st)) (if c then ?rec else chk_ok st)" for c
    by simp
  have glob: "chk_all (\<lambda>(h', st'). flags_same st st')
      (case h' of None \<Rightarrow> chk_ok (None, st1) | Some i \<Rightarrow> chk_bind (record_global env co i False 0 st1) (\<lambda>st. chk_ok (Some i, st)))"
    if "syms (ck_gs st1) = syms (ck_gs st)" for h' st1
  proof (cases h')
    case (Some i)
    show ?thesis
      unfolding Some option.case
      by (rule chk_all_trans [OF record_global_step [OF assms]]) (use same_flags_trans [OF same_flags_syms [OF that]] in simp)
  qed (simp add: same_flags_syms that)
  show ?thesis
    unfolding record_got16_def Let_def by (rule chk_all_trans [OF page glob])
qed

lemma record_tls_flags:
  assumes "flags_kept env"
  shows "chk_all (\<lambda>(h', s', st'). flags_same st st') (record_tls env info co rel h r_symndx st)"
proof -
  let ?st = "if tls_gottprel_reloc_p (ELF_R_TYPE (co_bfd co) (r_info rel)) \<and> shared info then st\<lparr>static_tls := True\<rparr> else st"
  have st: "ck_gs ?st = ck_gs st"
    by simp
  have mark: "same_flags (upd_sym i (\<lambda>s. s\<lparr>sym_tls_type := sym_tls_type s OR t\<rparr>) g) g' = same_flags g g'" for i t g g'
    by (auto simp: same_flags_def upd_sym_def)
  show ?thesis
    unfolding record_tls_def Let_def
    by (auto simp: st mark record_local_flags intro!: chk_all_trans [OF record_global_step [OF assms]] split: option.split)
qed

lemma record_dynamic_flags: "chk_all (flags_same st) (record_dynamic env info sec h st)"
proof -
  have "same_flags g (upd_sym i (\<lambda>s. s\<lparr>possibly_dynamic_relocs := possibly_dynamic_relocs s + 1,
                                readonly_reloc := readonly_reloc s \<or> MIPS_ELF_READONLY_SECTION sec\<rparr>) g)" for g i
    by (rule same_flags_upd_sym) simp
  then show ?thesis
    unfolding record_dynamic_def
    by (intro chk_all_trans [OF rel_dyn_flags]) (auto simp: Let_def allocate_one_def split: option.split)
qed

text \<open>The second switch may forget the symbol, but only for a relocation that goes through the GOT.\<close>

lemma record_reloc_flags:
  assumes "flags_kept env"
  shows "chk_all (\<lambda>(h', s', st'). flags_same st st' \<and> (ELF_R_TYPE (co_bfd co) (r_info rel) \<notin> set GOT_TYPES \<longrightarrow> h' = h))
    (record_reloc env info co sec index rel c h r_symndx st)"
proof -
  let ?t = "ELF_R_TYPE (co_bfd co) (r_info rel)"
  have got: "?t \<in> set GOT_TYPES" if "?t \<in> set GOT16_TYPES \<or> got_disp_reloc_p ?t \<or> ?t \<in> set TLS_TYPES"
    using that got_types tls_types by (auto simp: GOT_TYPES_def GOT16_TYPES_def got_disp_reloc_p_def)
  have crinfo: "ck_gs (count_crinfo env abfd st') = ck_gs st'" for st' abfd
    by (simp add: count_crinfo_def)
  have dyn: "chk_all (\<lambda>(h', s', st'). flags_same st st' \<and> (?t \<notin> set GOT_TYPES \<longrightarrow> h' = h))
      (chk_bind (record_dynamic env info sec h st) (\<lambda>st. chk_ok (h, r_symndx, count_crinfo env (co_bfd co) st)))"
    by (rule chk_all_trans [OF record_dynamic_flags]) (simp add: crinfo)
  consider "call16_reloc_p ?t \<or> call_hi16_reloc_p ?t \<or> call_lo16_reloc_p ?t"
    | "\<not> (call16_reloc_p ?t \<or> call_hi16_reloc_p ?t \<or> call_lo16_reloc_p ?t)" "?t \<in> set GOT16_TYPES \<or> got_disp_reloc_p ?t"
    | "\<not> (call16_reloc_p ?t \<or> call_hi16_reloc_p ?t \<or> call_lo16_reloc_p ?t)" "\<not> (?t \<in> set GOT16_TYPES \<or> got_disp_reloc_p ?t)"
      "?t \<in> set TLS_TYPES"
    | "\<not> (call16_reloc_p ?t \<or> call_hi16_reloc_p ?t \<or> call_lo16_reloc_p ?t)" "\<not> (?t \<in> set GOT16_TYPES \<or> got_disp_reloc_p ?t)"
      "?t \<notin> set TLS_TYPES"
    by blast
  then show ?thesis
  proof cases
    case 1
    then show ?thesis
      by (simp add: record_reloc_def Let_def chk_all_trans [OF record_call_flags [OF assms]])
  next
    case 2
    then show ?thesis
      unfolding record_reloc_def Let_def if_not_P [OF 2(1)] if_P [OF 2(2)]
      by (intro chk_all_trans [OF record_got16_flags [OF assms]]) (use got in auto)
  next
    case 3
    then show ?thesis
      unfolding record_reloc_def Let_def if_not_P [OF 3(1)] if_not_P [OF 3(2)] if_P [OF 3(3)]
      by (intro chk_all_mono [OF record_tls_flags [OF assms]]) (use got in auto)
  next
    case 4
    then show ?thesis
      unfolding record_reloc_def Let_def if_not_P [OF 4(1)] if_not_P [OF 4(2)] if_not_P [OF 4(3)]
      by (cases c) (simp_all add: crinfo dyn)
  qed
qed

section \<open>The invariant\<close>

text \<open>The symbols \<^verbatim>\<open>H\<close> have a static reference that is not marked yet.\<close>

definition refs_marked :: "nat set \<Rightarrow> (nat \<Rightarrow> link_sym) \<Rightarrow> bool" where
  "refs_marked H sy \<longleftrightarrow> (\<forall>h. has_static_relocs (sy h) \<longrightarrow> no_fn_stub (sy h) \<or> h \<in> H)"

lemma refs_marked_same: "same_flags g g' \<Longrightarrow> refs_marked H (syms g') = refs_marked H (syms g)"
  by (simp add: same_flags_def refs_marked_def)

lemma refs_marked_mono: "refs_marked H sy \<Longrightarrow> H \<subseteq> H' \<Longrightarrow> refs_marked H' sy"
  by (auto simp: refs_marked_def)

abbreviation unmarked :: "nat set \<Rightarrow> check_state \<Rightarrow> bool" where
  "unmarked H st \<equiv> refs_marked H (syms (ck_gs st))"

lemma static_ref_unmarked: "unmarked {} st \<Longrightarrow> unmarked (set_option h) (static_ref h st)"
  by (cases h) (auto simp: mark_sym_def upd_sym_def refs_marked_def)

lemma mark_unmarked: "unmarked (set_option h) st \<Longrightarrow> unmarked {} (mark_sym h (\<lambda>s. s\<lparr>no_fn_stub := True\<rparr>) st)"
  by (cases h) (auto simp: mark_sym_def upd_sym_def refs_marked_def)

lemma classify_unmarked:
  assumes "flags_kept env" "unmarked {} st"
  shows "chk_all (\<lambda>(c, st'). unmarked {} st' \<or> (unmarked (set_option h) st'
      \<and> ELF_R_TYPE (co_bfd co) (r_info rel) \<notin> set GOT_TYPES \<union> {R_MIPS_JALR, R_MICROMIPS_JALR}))
    (classify_reloc env info co sec rel h st)"
proof (cases "ELF_R_TYPE (co_bfd co) (r_info rel) \<in> set GOT_TYPES")
  case True
  have "chk_all (flags_same st) (mips_elf_create_got_section env info (the (ck_dynobj (own_sections co st))) (own_sections co st))"
    using create_got_flags [OF assms(1), where st = "own_sections co st"] by simp
  then show ?thesis
    unfolding classify_reloc_def Let_def if_P [OF True]
    by (rule chk_all_trans) (use assms(2) refs_marked_same in auto)
next
  case False
  have ptr: "unmarked (set_option h) (static_ref h (st\<lparr>pointer_equality_needed := x\<rparr>))" for x
    by (rule static_ref_unmarked) (simp add: assms(2))
  show ?thesis
    unfolding classify_reloc_def Let_def if_not_P [OF False]
    using assms(2) static_ref_unmarked [OF assms(2), of h] ptr False
    by (cases h) (auto simp: mark_sym_def [of None] split: option.split)
qed

lemma mark_stubs_unmarked:
  assumes "\<not> is_vxworks info" "unmarked (if t \<in> set CALL_TYPES then {} else set_option h) st"
  shows "unmarked {} (mark_stubs info sec t h st)"
proof -
  have need: "unmarked {} (mark_sym h (\<lambda>s. s\<lparr>need_fn_stub := True\<rparr>) st')" if "unmarked {} st'" for st'
    using that by (cases h) (auto simp: mark_sym_def upd_sym_def refs_marked_def)
  have "unmarked {} (if \<not> is_vxworks info \<and> t \<notin> set CALL_TYPES then mark_sym h (\<lambda>s. s\<lparr>no_fn_stub := True\<rparr>) st else st)"
    using assms mark_unmarked by (simp split: if_splits)
  then show ?thesis
    unfolding mark_stubs_def Let_def using need by simp
qed

lemma check_reloc_unmarked:
  assumes "flags_kept env" "\<not> is_vxworks info" "unmarked {} st"
  shows "chk_all (unmarked {}) (check_reloc env info co sec index rel st)"
proof -
  let ?t = "ELF_R_TYPE (co_bfd co) (r_info rel)"
  have types: "set CALL_TYPES \<subseteq> set GOT_TYPES \<union> {R_MIPS_JALR, R_MICROMIPS_JALR}"
    by (simp add: CALL_TYPES_def GOT_TYPES_def)
  have any: "chk_all (\<lambda>_. True) r" for r :: "'a chk"
    by (simp add: chk_all_def split: option.split sum.split)
  let ?P = "\<lambda>h st'. unmarked {} st' \<or> (unmarked (set_option h) st' \<and> ?t \<notin> set GOT_TYPES \<union> {R_MIPS_JALR, R_MICROMIPS_JALR})"
  have keep: "?P h st'" if "?P h st''" "flags_same st'' st'" for h st' st''
    using that refs_marked_same [OF that(2)] by simp
  have tail: "chk_all (unmarked {}) (refuse_absolute info abfd ?t h s (mark_stubs info sec ?t h st'))" if "?P h st'" for abfd h s st'
  proof -
    have "unmarked (if ?t \<in> set CALL_TYPES then {} else set_option h) st'"
      using that types refs_marked_mono [of "{}"] by auto
    note mark_stubs_unmarked [OF assms(2) this, of sec]
    then show ?thesis
      by (intro chk_all_mono [OF refuse_absolute_same]) simp
  qed
  show ?thesis
    unfolding check_reloc_def Let_def
  proof (rule chk_all_trans [OF any], rule chk_all_trans2 [OF classify_unmarked [OF assms(1,3)]], rule chk_all_trans [OF local_or_gott_flags])
    fix h c st1 st2
    assume st1: "?P h st1" and st2: "flags_same st1 st2"
    define st3 where "st3 = (case h of
        Some i \<Rightarrow> if mips_elf_relocation_needs_la25_stub (co_bfd co) ?t (ELF_ST_IS_MIPS16 (st_other (syms (ck_gs st2) i)))
          then on_tables (upd_sym i (\<lambda>s. s\<lparr>has_nonpic_branches := True\<rparr>)) st2 else st2
      | None \<Rightarrow> st2)"
    have "flags_same st2 st3"
      by (auto simp: st3_def intro: same_flags_upd_sym split: option.split)
    then have st3: "?P h st3"
      using keep [OF keep [OF st1 st2]] by blast
    show "chk_all (unmarked {}) (chk_bind (record_reloc env info co sec index rel c h (ELF_R_SYM (co_bfd co) (r_info rel)) st3)
        (\<lambda>(h, r_symndx, st). refuse_absolute info (co_bfd co) ?t h r_symndx (mark_stubs info sec ?t h st)))"
    proof (rule chk_all_trans3 [OF record_reloc_flags [OF assms(1)]], rule tail)
      fix h' s' st'
      assume r: "flags_same st3 st' \<and> (?t \<notin> set GOT_TYPES \<longrightarrow> h' = h)"
      then have "?P h st'"
        using keep [OF st3] by blast
      then show "?P h' st'"
        using r by auto
    qed
  qed
qed

lemma check_all_unmarked:
  assumes "flags_kept env" "\<not> is_vxworks info"
  shows "unmarked {} st \<Longrightarrow> chk_all (unmarked {}) (check_all env info co sec index rels st)"
proof (induction rels arbitrary: index st)
  case (Cons rel rels)
  show ?case
    unfolding check_all.simps
    by (rule chk_all_trans [OF check_reloc_unmarked [OF assms Cons.prems]], rule Cons.IH)
qed simp

lemma stub_section_flags: "chk_all (\<lambda>(d, st'). flags_same st st') (check_stub_section env co sec relocs st)"
proof -
  have any: "chk_all (\<lambda>_. True) r" for r :: "'a chk"
    by (simp add: chk_all_def split: option.split sum.split)
  have upd: "same_flags g (upd_sym h (\<lambda>s. s\<lparr>fn_stub := x\<rparr>) g)"
    "same_flags g (upd_sym h (\<lambda>s. if b then s\<lparr>call_fp_stub := x\<rparr> else s\<lparr>call_stub := x\<rparr>) g)" for g h x b
    by (rule same_flags_upd_sym; simp)+
  have fn: "chk_all (\<lambda>(d, st'). flags_same st st') (check_fn_stub co sec n st)"
    and call: "chk_all (\<lambda>(d, st'). flags_same st st') (check_call_stub co sec n st)" for n
    unfolding check_fn_stub_def check_call_stub_def Let_def
    by (auto simp: upd split: option.split intro!: chk_all_trans [OF any])
  show ?thesis
    using fn call by (simp add: check_stub_section_def Let_def)
qed

lemma scan_unmarked:
  assumes "flags_kept env" "\<not> is_vxworks info" "refs_marked {} (syms (ck_gs st))"
    and "bfd_mips_elf_check_relocs env info co sec relocs st = Some (Inr st')"
  shows "refs_marked {} (syms (ck_gs st'))"
proof -
  have "chk_all (unmarked {}) (bfd_mips_elf_check_relocs env info co sec relocs st)"
  proof (cases "relocatable info")
    case False
    have "unmarked {} st1" if "flags_same st st1" for st1
      using that assms(3) refs_marked_same by simp
    then show ?thesis
      unfolding bfd_mips_elf_check_relocs_def if_not_P [OF False] Let_def
      by (intro chk_all_trans2 [OF stub_section_flags]) (simp add: check_all_unmarked [OF assms(1,2)])
  qed (use assms(3) in \<open>simp add: bfd_mips_elf_check_relocs_def\<close>)
  then show ?thesis
    using chk_allD assms(4) by fastforce
qed

lemma merged_flags [simp]:
  "has_static_relocs (merged_direct d i) = has_static_relocs d" "no_fn_stub (merged_direct d i) \<longleftrightarrow> no_fn_stub d \<or> no_fn_stub i"
  "has_static_relocs (emptied_indirect i) = has_static_relocs i" "no_fn_stub (emptied_indirect i) = no_fn_stub i"
  by (simp_all add: merged_direct_def emptied_indirect_def)

lemma indirect_unmarked:
  assumes "refs_marked {} (elf_copy dir ind sy)" "is_indirect (elf_copy dir ind sy ind)"
  shows "refs_marked {} (bfd_mips_elf_copy_indirect_symbol elf_copy dir ind sy)"
proof -
  let ?sy = "elf_copy dir ind sy"
  define sy1 where "sy1 = (if has_static_relocs (?sy ind) then ?sy(dir := (?sy dir)\<lparr>has_static_relocs := True\<rparr>) else ?sy)"
  have flags: "no_fn_stub (sy1 h) = no_fn_stub (?sy h)" "has_static_relocs (sy1 h) \<longleftrightarrow> has_static_relocs (?sy h) \<or> h = dir \<and> has_static_relocs (?sy ind)" for h
    by (simp_all add: sy1_def)
  have "root_type (sy1 ind) = root_type (?sy ind)"
    by (simp add: sy1_def)
  then have copy: "bfd_mips_elf_copy_indirect_symbol elf_copy dir ind sy
      = sy1(dir := merged_direct (sy1 dir) (sy1 ind), ind := emptied_indirect (sy1 ind))"
    using assms(2) by (simp add: bfd_mips_elf_copy_indirect_symbol_def Let_def is_indirect_def flip: sy1_def)
  show ?thesis
    using assms(1) unfolding copy by (auto simp: refs_marked_def flags)
qed

text \<open>The scans of several sections, and the merging of symbols that have become indirect into their targets, in any order.\<close>

datatype scan_event = scan_section check_object asection "elf_rela list" | resolve_indirect nat nat

fun scan_events ::
  "check_env \<Rightarrow> link_info \<Rightarrow> (nat \<Rightarrow> nat \<Rightarrow> (nat \<Rightarrow> link_sym) \<Rightarrow> nat \<Rightarrow> link_sym) \<Rightarrow> scan_event list \<Rightarrow> check_state \<Rightarrow> check_state chk" where
  "scan_events env info elf_copy [] st = chk_ok st"
| "scan_events env info elf_copy (scan_section co sec relocs # es) st =
     chk_bind (bfd_mips_elf_check_relocs env info co sec relocs st) (scan_events env info elf_copy es)"
| "scan_events env info elf_copy (resolve_indirect dir ind # es) st =
     (if is_indirect (syms (ck_gs st) ind)
      then scan_events env info elf_copy es
             (st\<lparr>ck_gs := (ck_gs st)\<lparr>syms := bfd_mips_elf_copy_indirect_symbol elf_copy dir ind (syms (ck_gs st))\<rparr>\<rparr>)
      else None)"

text \<open>What is relied on of \<^verbatim>\<open>_bfd_elf_link_hash_copy_indirect\<close>: the types of symbols and the flags of the MIPS backend stay.\<close>

definition copies_indirect :: "(nat \<Rightarrow> nat \<Rightarrow> (nat \<Rightarrow> link_sym) \<Rightarrow> nat \<Rightarrow> link_sym) \<Rightarrow> bool" where
  "copies_indirect elf_copy \<longleftrightarrow>
     (\<forall>dir ind sy h. has_static_relocs (elf_copy dir ind sy h) = has_static_relocs (sy h)
        \<and> no_fn_stub (elf_copy dir ind sy h) = no_fn_stub (sy h) \<and> root_type (elf_copy dir ind sy h) = root_type (sy h))"

text \<open>
  C7.  A symbol that some input refers to without going through the GOT is marked as one that cannot have a lazy-binding stub.
  Whatever sections are scanned, and whatever indirect symbols are merged into their targets in between, every symbol with
  \<^verbatim>\<open>has_static_relocs\<close> has \<^verbatim>\<open>no_fn_stub\<close>.  This is for SVR4 systems; VxWorks does not use stubs.
\<close>

theorem static_refs_exclude_stubs:
  assumes "flags_kept env" "copies_indirect elf_copy" "\<not> is_vxworks info"
  shows "\<forall>h. has_static_relocs (syms (ck_gs st) h) \<longrightarrow> no_fn_stub (syms (ck_gs st) h)
    \<Longrightarrow> scan_events env info elf_copy es st = Some (Inr st')
    \<Longrightarrow> \<forall>h. has_static_relocs (syms (ck_gs st') h) \<longrightarrow> no_fn_stub (syms (ck_gs st') h)"
proof (induction es arbitrary: st)
  case (Cons e es)
  have start: "refs_marked {} (syms (ck_gs st))"
    using Cons.prems(1) by (simp add: refs_marked_def)
  show ?case
  proof (cases e)
    case (scan_section co sec relocs)
    then obtain st1 where st1: "bfd_mips_elf_check_relocs env info co sec relocs st = Some (Inr st1)"
      "scan_events env info elf_copy es st1 = Some (Inr st')"
      using Cons.prems(2) by (auto simp: chk_bind_def split: option.splits sum.splits)
    then show ?thesis
      using Cons.IH [OF _ st1(2)] scan_unmarked [OF assms(1,3) start st1(1)] by (simp add: refs_marked_def)
  next
    case (resolve_indirect dir ind)
    have "refs_marked {} (elf_copy dir ind (syms (ck_gs st)))"
      using assms(2) start by (simp add: copies_indirect_def refs_marked_def)
    then have "refs_marked {} (bfd_mips_elf_copy_indirect_symbol elf_copy dir ind (syms (ck_gs st)))"
      using assms(2) Cons.prems(2) resolve_indirect
      by (intro indirect_unmarked) (simp_all add: copies_indirect_def is_indirect_def split: if_splits)
    moreover have "scan_events env info elf_copy es
        (st\<lparr>ck_gs := (ck_gs st)\<lparr>syms := bfd_mips_elf_copy_indirect_symbol elf_copy dir ind (syms (ck_gs st))\<rparr>\<rparr>) = Some (Inr st')"
      using Cons.prems(2) by (simp add: resolve_indirect split: if_splits)
    ultimately show ?thesis
      by (intro Cons.IH) (simp_all add: refs_marked_def)
  qed
qed (simp add: chk_ok_def)

text \<open>Symbol 9 has become an alias of symbol 1; the text section then refers to symbol 1 by its absolute address.\<close>

definition alias_state :: check_state where
  "alias_state = example_check_state\<lparr>ck_gs := (ck_gs example_check_state)\<lparr>syms := (\<lambda>_. example_sym\<lparr>root_type := bfd_link_hash_defined\<rparr>)
     (9 := example_sym\<lparr>root_type := bfd_link_hash_indirect 1, has_static_relocs := True, no_fn_stub := True\<rparr>)\<rparr>\<rparr>"

definition alias_events :: "scan_event list" where
  "alias_events = [resolve_indirect 2 9, scan_section example_check_object text_section [\<lparr>r_offset = 8, r_info = 0x502, r_addend = 0\<rparr>]]"

lemma alias_scan:
  "case scan_events example_check_env example_info (\<lambda>_ _ sy. sy) alias_events alias_state of
     Some (Inr st') \<Rightarrow> has_static_relocs (syms (ck_gs st') 1) \<and> has_static_relocs (syms (ck_gs st') 2) | _ \<Rightarrow> False"
  by code_simp

theorem static_refs_exclude_stubs_witness:
  "\<exists>st'. scan_events example_check_env example_info (\<lambda>_ _ sy. sy) alias_events alias_state = Some (Inr st')
     \<and> has_static_relocs (syms (ck_gs st') 1) \<and> no_fn_stub (syms (ck_gs st') 1) \<and> no_fn_stub (syms (ck_gs st') 2)"
proof -
  obtain st' where st': "scan_events example_check_env example_info (\<lambda>_ _ sy. sy) alias_events alias_state = Some (Inr st')"
    "has_static_relocs (syms (ck_gs st') 1)" "has_static_relocs (syms (ck_gs st') 2)"
    using alias_scan by (auto split: option.splits sum.splits)
  have "flags_kept example_check_env" "copies_indirect (\<lambda>_ _ sy. sy)" "\<not> is_vxworks example_info"
    by (simp_all add: flags_kept_def copies_indirect_def example_check_env_def example_info_def)
  moreover have "\<forall>h. has_static_relocs (syms (ck_gs alias_state) h) \<longrightarrow> no_fn_stub (syms (ck_gs alias_state) h)"
    by (simp add: alias_state_def example_sym_def)
  ultimately show ?thesis
    using static_refs_exclude_stubs [OF _ _ _ _ st'(1)] st' by auto
qed

section \<open>Weak aliases\<close>

text \<open>
  C8.  A function defined in a shared object and a weak alias of it: when only the alias is referred to, and statically, the
  alias passes \<^verbatim>\<open>has_static_relocs\<close> but not \<^verbatim>\<open>no_fn_stub\<close> to the function.  The function then gets a PLT entry and
  room for its relocation, but finishing it writes neither: the PLT, \<^verbatim>\<open>.got.plt\<close> and \<^verbatim>\<open>.rel.plt\<close> stay as they
  are, and a lazy-binding stub is written into \<^verbatim>\<open>.MIPS.stubs\<close> at the offset of the PLT entry, whether that section is that long or not.
\<close>

theorem weak_alias_entry_unwritten:
  fixes f g :: nat and st0 st' :: dyn_state and sy :: "nat \<Rightarrow> link_sym"
  assumes "copies_indirect elf_copy" "has_static_relocs (sy g)" "\<not> is_indirect (sy g)" "\<not> no_fn_stub (sy f)"
    and "\<And>q. symbol_calls_local info q = False" "\<not> is_vxworks info" "use_plts_and_copy_relocs env"
  defines "st \<equiv> st0\<lparr>dy_syms := bfd_mips_elf_copy_indirect_symbol elf_copy f g sy\<rparr>"
  defines "s \<equiv> dy_syms st f"
  assumes "elf_sym_type s = STT_FUNC" "\<not> needs_plt s" "ELF_ST_VISIBILITY (st_other s) = STV_DEFAULT"
    and "bfd_mips_elf_adjust_dynamic_symbol env info f st = (True, st')"
  defines "off \<equiv> plt_offset (dy_syms st' f)"
  assumes "bfd_mips_elf_finish_dynamic_symbol fenv info abfd f osym c = Some (True, osym', c')" "off \<noteq> MINUS_ONE"
    and "plt_offset (syms (gs (dc_calc c)) f) = off" "no_fn_stub (syms (gs (dc_calc c)) f) = no_fn_stub (dy_syms st' f)"
  shows "(splt_size st' = off + plt_entry_size info \<and> srelplt_size st' = srelplt_size st0 + of_nat (dyn_rel_size env))
    \<and> (plt_bytes c' = plt_bytes c \<and> gotplt_bytes c' = gotplt_bytes c \<and> rel_plt c' = rel_plt c)
    \<and> stub_bytes c' = take (unat off) (stub_bytes c)
        @ take (fe_stub_size fenv) (concat (map (putx32 (bfd_xvec abfd))
            (lazy_stub_insns abfd (fe_stub_size fenv) (word_of_int (dynindx (syms (gs (dc_calc c)) f))))))
        @ drop (unat off + fe_stub_size fenv) (stub_bytes c)"
proof -
  have copy: "dy_syms st = (elf_copy f g sy)(f := (elf_copy f g sy f)\<lparr>has_static_relocs := True\<rparr>)"
    using assms(1-3) by (cases "g = f") (simp_all add: st_def bfd_mips_elf_copy_indirect_symbol_def Let_def copies_indirect_def is_indirect_def)
  have s: "has_static_relocs s" "\<not> no_fn_stub s"
    using assms(1,4) by (simp_all add: s_def copy copies_indirect_def)
  then have need: "needs_plt_entry env info s" "\<not> (\<not> is_vxworks info \<and> needs_plt s \<and> \<not> no_fn_stub s)"
    using assms(5,7,10-12) by (simp_all add: needs_plt_entry_def)
  obtain st1 where st1: "start_plt env info st = Some st1" "st' = add_plt_entry env info f st1"
    using assms(13) unfolding bfd_mips_elf_adjust_dynamic_symbol_def Let_def s_def [symmetric] if_not_P [OF need(2)] if_P [OF need(1)]
    by (simp split: option.splits)
  have start: "dy_syms st1 = dy_syms st" "srelplt_size st1 = srelplt_size st0"
    using st1(1) by (auto simp: start_plt_def st_def split: if_splits)
  have entry: "splt_size st' = off + plt_entry_size info" "srelplt_size st' = srelplt_size st0 + of_nat (dyn_rel_size env)"
    "\<not> no_fn_stub (dy_syms st' f)"
    using assms(6) s(2) start by (auto simp: st1(2) off_def add_plt_entry_def Let_def s_def)
  have same: "plt_bytes c' = plt_bytes c" "gotplt_bytes c' = gotplt_bytes c" "rel_plt c' = rel_plt c"
    using finish_symbol_effect [OF assms(15)] assms(18) entry(3) by simp_all
  show ?thesis
    using finish_stub_effect [OF assms(15)] assms(16-18) entry same by (auto simp: finish_lazy_stub_def Let_def split: if_splits)
qed

text \<open>Symbol 3 is a function of a shared object and symbol 4 its weak alias, whose address is taken; there are no stubs.\<close>

definition aliased_functions :: "nat \<Rightarrow> link_sym" where
  "aliased_functions h =
     imported_functions h\<lparr>root_type := bfd_link_hash_defweak, needs_plt := False, has_static_relocs := h = 4, no_fn_stub := h = 4\<rparr>"

definition aliased_state :: dyn_state where
  "aliased_state =
     snd (bfd_mips_elf_adjust_dynamic_symbol example_dyn_env imports_info 3
       (imports_state\<lparr>dy_syms := bfd_mips_elf_copy_indirect_symbol (\<lambda>_ _ sy. sy) 3 4 aliased_functions\<rparr>))"

definition aliased_contents :: dyn_contents where
  "aliased_contents =
     example_contents\<lparr>dc_calc := (dc_calc example_contents)\<lparr>gs := example_got\<lparr>syms := dy_syms aliased_state\<rparr>\<rparr>, plt_bytes := replicate 52 0\<rparr>"

lemma aliased_finish:
  "case bfd_mips_elf_finish_dynamic_symbol example_finish_env imports_info le_bfd 3 (example_osyms 3) aliased_contents of
     Some (ok, _, c') \<Rightarrow> ok \<and> length (stub_bytes c') = 16 | None \<Rightarrow> False"
  "fst (bfd_mips_elf_adjust_dynamic_symbol example_dyn_env imports_info 3
       (imports_state\<lparr>dy_syms := bfd_mips_elf_copy_indirect_symbol (\<lambda>_ _ sy. sy) 3 4 aliased_functions\<rparr>)) = True"
  "plt_offset (dy_syms aliased_state 3) = 32"
  by code_simp+

theorem weak_alias_entry_unwritten_witness:
  "\<exists>osym' c'. bfd_mips_elf_finish_dynamic_symbol example_finish_env imports_info le_bfd 3 (example_osyms 3) aliased_contents = Some (True, osym', c')
     \<and> splt_size aliased_state = 48 \<and> plt_bytes c' = replicate 52 0 \<and> length (stub_bytes c') = 16"
proof -
  obtain osym' c' where run: "bfd_mips_elf_finish_dynamic_symbol example_finish_env imports_info le_bfd 3 (example_osyms 3) aliased_contents
      = Some (True, osym', c')" "length (stub_bytes c') = 16"
    using aliased_finish(1) by (auto split: option.splits prod.splits)
  have adjust: "bfd_mips_elf_adjust_dynamic_symbol example_dyn_env imports_info 3
       (imports_state\<lparr>dy_syms := bfd_mips_elf_copy_indirect_symbol (\<lambda>_ _ sy. sy) 3 4 aliased_functions\<rparr>) = (True, aliased_state)"
    using aliased_finish(2) unfolding aliased_state_def by (metis prod.collapse)
  have copied: "bfd_mips_elf_copy_indirect_symbol (\<lambda>_ _ sy. sy) 3 4 aliased_functions 3 = aliased_functions 3\<lparr>has_static_relocs := True\<rparr>"
    by (simp add: bfd_mips_elf_copy_indirect_symbol_def is_indirect_def aliased_functions_def)
  note entry = weak_alias_entry_unwritten [of "\<lambda>_ _ sy. sy" aliased_functions 4 3 imports_info example_dyn_env,
      OF _ _ _ _ _ _ _ _ _ _ adjust run(1)]
  have "splt_size aliased_state = 48 \<and> plt_bytes c' = plt_bytes aliased_contents"
    using entry by (simp add: copies_indirect_def is_indirect_def aliased_functions_def imported_functions_def example_sym_def
        imports_info_def plt_info_def example_info_def example_dyn_env_def copied aliased_finish(3) aliased_contents_def MINUS_ONE_def
        example_contents_def ELF_ST_VISIBILITY_def)
  then show ?thesis
    using run by (auto simp: aliased_contents_def)
qed

end
