(* ===== verification/SymbolsSpec.thy ===== *)
theory SymbolsSpec
  imports Symbols
begin

text \<open>
  The \<^verbatim>\<open>.pdr\<close> records of an input file after the records of deleted functions are taken out.  The loop of
  \<^verbatim>\<open>_bfd_mips_elf_write_section\<close> moves the records that stay to the front, but it ends at the size the section
  has after the removal, so it does not see the records behind it.
\<close>

definition record_at :: "nat \<Rightarrow> bytes \<Rightarrow> bytes" where
  "record_at k c = take PDR_SIZE (drop (PDR_SIZE * k) c)"

lemma record_moved:
  assumes "PDR_SIZE * (i + 1) \<le> length c" "PDR_SIZE * (t + 1) \<le> length c"
  shows "length (move_bytes (PDR_SIZE * t) (PDR_SIZE * i) PDR_SIZE c) = length c"
    and "record_at k (move_bytes (PDR_SIZE * t) (PDR_SIZE * i) PDR_SIZE c) = record_at (if k = t then i else k) c"
proof -
  show len: "length (move_bytes (PDR_SIZE * t) (PDR_SIZE * i) PDR_SIZE c) = length c"
    using assms by (simp add: move_bytes_def)
  show "record_at k (move_bytes (PDR_SIZE * t) (PDR_SIZE * i) PDR_SIZE c) = record_at (if k = t then i else k) c"
  proof (rule nth_equalityI)
    show "length (record_at k (move_bytes (PDR_SIZE * t) (PDR_SIZE * i) PDR_SIZE c)) = length (record_at (if k = t then i else k) c)"
      using assms len by (auto simp: record_at_def)
    fix j
    assume "j < length (record_at k (move_bytes (PDR_SIZE * t) (PDR_SIZE * i) PDR_SIZE c))"
    then have j: "j < PDR_SIZE" "PDR_SIZE * k + j < length c"
      using len unfolding record_at_def length_take length_drop by linarith+
    consider "k < t" | "k = t" | "t < k" by linarith
    then show "record_at k (move_bytes (PDR_SIZE * t) (PDR_SIZE * i) PDR_SIZE c) ! j = record_at (if k = t then i else k) c ! j"
    proof cases
      case 1
      then have "PDR_SIZE * k + j < PDR_SIZE * t" using j by simp
      then show ?thesis
        using 1 j assms len by (simp add: record_at_def move_bytes_def nth_append)
    next
      case 2
      then show ?thesis
        using j assms len by (simp add: record_at_def move_bytes_def nth_append)
    next
      case 3
      then have "PDR_SIZE * t + PDR_SIZE \<le> PDR_SIZE * k + j" by simp
      then show ?thesis
        using 3 j assms len by (simp add: record_at_def move_bytes_def nth_append)
    qed
  qed
qed

lemma pdr_loop_records:
  fixes tdata :: "bool list"
  assumes "t \<le> i" "i \<le> n" "PDR_SIZE * n \<le> length c"
  defines "ls \<equiv> filter (\<lambda>j. \<not> tdata ! j) [i ..< n]"
  defines "r \<equiv> pdr_loop tdata (PDR_SIZE * n) (PDR_SIZE * i) i (PDR_SIZE * t) c"
  shows "length r = length c \<and> (\<forall>k. record_at k r = record_at (if t \<le> k \<and> k < t + length ls then ls ! (k - t) else k) c)"
  using assms(1-3) unfolding r_def ls_def
proof (induction "n - i" arbitrary: i t c)
  case 0
  then have "pdr_loop tdata (PDR_SIZE * n) (PDR_SIZE * i) i (PDR_SIZE * t) c = c"
    by (subst pdr_loop.simps) simp
  then show ?case
    using 0 by auto
next
  case (Suc m)
  then have "i < n" by simp
  then have up: "[i ..< n] = i # [i + 1 ..< n]" and below: "PDR_SIZE * i < PDR_SIZE * n"
    by (simp_all add: upt_rec)
  have next_from: "PDR_SIZE * i + PDR_SIZE = PDR_SIZE * (i + 1)" "PDR_SIZE * t + PDR_SIZE = PDR_SIZE * (t + 1)"
    by simp_all
  have m: "m = n - (i + 1)"
    using Suc.hyps(2) by simp
  show ?case
  proof (cases "tdata ! i")
    case True
    then have step: "pdr_loop tdata (PDR_SIZE * n) (PDR_SIZE * i) i (PDR_SIZE * t) c
        = pdr_loop tdata (PDR_SIZE * n) (PDR_SIZE * (i + 1)) (i + 1) (PDR_SIZE * t) c"
      using below by (subst pdr_loop.simps) (simp add: next_from del: mult_Suc_right)
    have "filter (\<lambda>j. \<not> tdata ! j) [i ..< n] = filter (\<lambda>j. \<not> tdata ! j) [i + 1 ..< n]"
      using True by (simp add: up)
    then show ?thesis
      unfolding step using Suc.hyps(1) [OF m, of t c] Suc.prems \<open>i < n\<close> by simp
  next
    case False
    define c' where "c' = (if PDR_SIZE * t \<noteq> PDR_SIZE * i then move_bytes (PDR_SIZE * t) (PDR_SIZE * i) PDR_SIZE c else c)"
    have range: "PDR_SIZE * (i + 1) \<le> length c" "PDR_SIZE * (t + 1) \<le> length c"
      using Suc.prems \<open>i < n\<close> by auto
    have c': "length c' = length c" "\<And>k. record_at k c' = record_at (if k = t then i else k) c"
      using record_moved [OF range] by (simp_all add: c'_def)
    let ?ls = "filter (\<lambda>j. \<not> tdata ! j) [i + 1 ..< n]"
    have step: "pdr_loop tdata (PDR_SIZE * n) (PDR_SIZE * i) i (PDR_SIZE * t) c
        = pdr_loop tdata (PDR_SIZE * n) (PDR_SIZE * (i + 1)) (i + 1) (PDR_SIZE * (t + 1)) c'"
      using False below by (subst pdr_loop.simps) (simp add: next_from c'_def del: mult_Suc_right)
    have IH: "length (pdr_loop tdata (PDR_SIZE * n) (PDR_SIZE * (i + 1)) (i + 1) (PDR_SIZE * (t + 1)) c') = length c'"
      "record_at k (pdr_loop tdata (PDR_SIZE * n) (PDR_SIZE * (i + 1)) (i + 1) (PDR_SIZE * (t + 1)) c')
         = record_at (if t + 1 \<le> k \<and> k < t + 1 + length ?ls then ?ls ! (k - (t + 1)) else k) c'" for k
      using Suc.hyps(1) [OF m, of "t + 1" c'] Suc.prems \<open>i < n\<close> c'(1) by auto
    have later: "?ls ! j \<noteq> t" if "j < length ?ls" for j
      using nth_mem [OF that] Suc.prems(1) by auto
    show ?thesis
      unfolding step
    proof (intro conjI allI)
      fix k
      consider "k < t" | "k = t" | "t < k" "k < t + 1 + length ?ls" | "t + 1 + length ?ls \<le> k"
        by linarith
      then show "record_at k (pdr_loop tdata (PDR_SIZE * n) (PDR_SIZE * (i + 1)) (i + 1) (PDR_SIZE * (t + 1)) c')
          = record_at (if t \<le> k \<and> k < t + length (filter (\<lambda>j. \<not> tdata ! j) [i ..< n])
              then filter (\<lambda>j. \<not> tdata ! j) [i ..< n] ! (k - t) else k) c"
        unfolding IH(2) c'(2) up using False later [of "k - (t + 1)"] by cases (auto simp: nth_Cons')
    qed (use IH(1) c'(1) in simp)
  qed
qed

lemma filter_split:
  assumes "n \<le> m"
  shows "length (filter P [0 ..< m]) = length (filter P [0 ..< n]) + length (filter P [n ..< m])"
  using upt_add_eq_append [of 0 n "m - n"] assms by simp

text \<open>The records that stay, counted from the first \<^verbatim>\<open>n\<close>.\<close>

abbreviation kept :: "pdr_section \<Rightarrow> nat \<Rightarrow> nat list" where
  "kept p n \<equiv> filter (\<lambda>j. \<not> symbol_deleted p (j * PDR_SIZE)) [0 ..< n]"

text \<open>
  C40.  Records of deleted functions are taken out of \<^verbatim>\<open>.pdr\<close> at the expense of others.  Let \<^verbatim>\<open>n\<close> be the number of
  records that stay; it gives the new size of the section.  What is written starts with those that stay among the first \<^verbatim>\<open>n\<close>
  records, not among all of them, and goes on with records as they were.  So whenever a deleted record comes before one that
  stays, records that should stay are missing from the output and others are there twice.
\<close>

theorem pdr_records_lost:
  assumes "bfd_mips_elf_discard_info (Some p) = (True, Some tdata, sz)"
    and "bfd_mips_elf_write_section ''.pdr'' (Some tdata) sz contents = Some written" "length contents = pdr_bytes p"
  defines "m \<equiv> pdr_bytes p div PDR_SIZE" and "n \<equiv> length (kept p (pdr_bytes p div PDR_SIZE))"
  shows "length written = PDR_SIZE * n
    \<and> (\<forall>k < n. record_at k written = record_at (if k < length (kept p n) then kept p n ! k else k) contents)
    \<and> (length (kept p n) < n \<longleftrightarrow> (\<exists>i j. i < j \<and> j < m \<and> symbol_deleted p (i * PDR_SIZE) \<and> \<not> symbol_deleted p (j * PDR_SIZE)))"
proof -
  have p: "pdr_bytes p = PDR_SIZE * m"
    and tdata: "tdata = map (\<lambda>i. symbol_deleted p (i * PDR_SIZE)) [0 ..< m]"
    and sz: "sz = pdr_bytes p - length (filter (\<lambda>d. d) tdata) * PDR_SIZE"
    using assms(1) by (auto simp: bfd_mips_elf_discard_info_def Let_def m_def split: if_splits)
  have "length (filter (\<lambda>d. d) tdata) + n = m"
    using sum_length_filter_compl [of "\<lambda>i. symbol_deleted p (i * PDR_SIZE)" "[0 ..< m]"]
    by (simp add: tdata n_def filter_map o_def flip: m_def)
  then have sz: "sz = PDR_SIZE * n" and nm: "n \<le> m"
    by (simp_all add: sz p algebra_simps)
  define r where "r = pdr_loop tdata (PDR_SIZE * n) (PDR_SIZE * 0) 0 (PDR_SIZE * 0) contents"
  have w: "written = take (PDR_SIZE * n) r"
    using assms(2) by (simp add: bfd_mips_elf_write_section_def sz r_def)
  have ls: "filter (\<lambda>j. \<not> tdata ! j) [0 ..< n] = kept p n"
    using nm by (intro filter_cong) (simp_all add: tdata)
  have r: "length r = PDR_SIZE * m" "record_at k r = record_at (if k < length (kept p n) then kept p n ! k else k) contents" for k
    using pdr_loop_records [of 0 0 n contents tdata] nm assms(3) by (simp_all add: r_def ls p)
  have "record_at k written = record_at k r" if "k < n" for k
    using that by (auto simp: record_at_def w drop_take min_def)
  moreover have "length (kept p n) < n \<longleftrightarrow> (\<exists>i j. i < j \<and> j < m \<and> symbol_deleted p (i * PDR_SIZE) \<and> \<not> symbol_deleted p (j * PDR_SIZE))"
  proof
    assume "length (kept p n) < n"
    then have "\<exists>i < n. symbol_deleted p (i * PDR_SIZE)"
      using filter_True [of "[0 ..< n]" "\<lambda>j. \<not> symbol_deleted p (j * PDR_SIZE)"] by fastforce
    moreover have "length (kept p m) = length (kept p n) + length (filter (\<lambda>j. \<not> symbol_deleted p (j * PDR_SIZE)) [n ..< m])"
      by (rule filter_split [OF nm])
    then have "filter (\<lambda>j. \<not> symbol_deleted p (j * PDR_SIZE)) [n ..< m] \<noteq> []"
      using \<open>length (kept p n) < n\<close> by (auto simp: n_def simp flip: m_def)
    then have "\<exists>j. n \<le> j \<and> j < m \<and> \<not> symbol_deleted p (j * PDR_SIZE)"
      by (auto simp: filter_empty_conv)
    ultimately show "\<exists>i j. i < j \<and> j < m \<and> symbol_deleted p (i * PDR_SIZE) \<and> \<not> symbol_deleted p (j * PDR_SIZE)"
      by (meson less_le_trans)
  next
    assume "\<exists>i j. i < j \<and> j < m \<and> symbol_deleted p (i * PDR_SIZE) \<and> \<not> symbol_deleted p (j * PDR_SIZE)"
    then obtain i j where ij: "i < j" "j < m" "symbol_deleted p (i * PDR_SIZE)" "\<not> symbol_deleted p (j * PDR_SIZE)" by blast
    show "length (kept p n) < n"
    proof (rule ccontr)
      assume "\<not> length (kept p n) < n"
      then have all: "length (kept p n) = n"
        using length_filter_le [of _ "[0 ..< n]"] by (simp add: not_less le_antisym)
      then have first: "\<not> symbol_deleted p (k * PDR_SIZE)" if "k < n" for k
        using that length_filter_less [of k "[0 ..< n]" "\<lambda>j. \<not> symbol_deleted p (j * PDR_SIZE)"] by fastforce
      have "length (filter (\<lambda>j. \<not> symbol_deleted p (j * PDR_SIZE)) [n ..< m]) = 0"
        using filter_split [OF nm, of "\<lambda>j. \<not> symbol_deleted p (j * PDR_SIZE)"] all by (simp add: n_def flip: m_def)
      then have "symbol_deleted p (k * PDR_SIZE)" if "n \<le> k" "k < m" for k
        using that by (auto simp: filter_empty_conv)
      then show False
        using ij first [of i] by (meson less_trans not_le)
    qed
  qed
  ultimately show ?thesis
    using w r nm by simp
qed

text \<open>Three records, the first of them deleted: the third is missing.\<close>

definition example_pdr :: pdr_section where
  "example_pdr = \<lparr>pdr_bytes = 96, pdr_abs_output = False, pdr_relocs_ok = True, symbol_deleted = \<lambda>i. i = 0\<rparr>"

theorem pdr_records_lost_witness:
  "\<exists>written. bfd_mips_elf_write_section ''.pdr'' (Some [True, False, False]) 64 (replicate 32 1 @ replicate 32 2 @ replicate 32 3) = Some written
     \<and> record_at 0 written = replicate 32 2 \<and> record_at 1 written = replicate 32 2"
proof -
  let ?c = "replicate 32 1 @ replicate 32 2 @ replicate 32 (3 :: bfd_byte)"
  obtain written where w: "bfd_mips_elf_write_section ''.pdr'' (Some [True, False, False]) 64 ?c = Some written"
    by (simp add: bfd_mips_elf_write_section_def)
  have d: "bfd_mips_elf_discard_info (Some example_pdr) = (True, Some [True, False, False], 64)"
    by code_simp
  have k: "length (kept example_pdr (pdr_bytes example_pdr div 32)) = 2" "kept example_pdr 2 = [1]"
    by (simp_all add: example_pdr_def upt_rec)
  note first = pdr_records_lost [OF d w, THEN conjunct2, THEN conjunct1, rule_format, unfolded k]
  have "record_at 0 written = record_at 1 ?c \<and> record_at 1 written = record_at 1 ?c"
    using first [of 0] first [of 1] by (simp add: example_pdr_def)
  moreover have "record_at 1 ?c = replicate 32 2"
    by (simp add: record_at_def)
  ultimately show ?thesis
    using w by auto
qed

end
