(* ===== verification/DynSections.thy ===== *)
theory DynSections
  imports Symbols
begin

text \<open>
  The dynamic sections: room for the dynamic relocations of symbols, the sizes and contents of the
  linker's sections and the entries of \<^verbatim>\<open>.dynamic\<close> (\<^verbatim>\<open>_bfd_mips_elf_size_dynamic_sections\<close>), and their final
  values (\<^verbatim>\<open>_bfd_mips_elf_finish_dynamic_sections\<close>).

  \<^verbatim>\<open>.dynamic\<close> is the list of its entries; reading and writing an entry of the file belongs to elfcode.h.
  Adding an entry fails only for lack of memory.
\<close>

section \<open>Dynamic relocations of symbols\<close>

text \<open>Does the symbol become dynamic when it is an undefined weak symbol of default visibility?\<close>

definition must_be_dynamic :: "link_sym \<Rightarrow> bool" where
  "must_be_dynamic s \<longleftrightarrow>
     root_type s = bfd_link_hash_undefweak \<and> ELF_ST_VISIBILITY (st_other s) = STV_DEFAULT \<and> dynindx s = -1 \<and> \<not> forced_local s"

definition allocate_dynrelocs :: "dyn_env \<Rightarrow> link_info \<Rightarrow> nat \<Rightarrow> dyn_state \<Rightarrow> bool \<times> dyn_state" where
  "allocate_dynrelocs env info h st =
     (let s = dy_syms st h
      in if is_vxworks info \<and> \<not> shared info \<or> is_indirect s then (True, st)
         else if \<not> relocatable info \<and> possibly_dynamic_relocs s \<noteq> 0
                 \<and> (root_type s = bfd_link_hash_defweak \<or> \<not> def_regular s \<or> shared info)
         then
           let (ok, sy) = (if must_be_dynamic s then record_dynamic_symbol env h (dy_syms st) else (True, dy_syms st));
               st = st\<lparr>dy_syms := sy\<rparr>
           in if \<not> ok then (False, st)
              else if root_type s = bfd_link_hash_undefweak \<and> ELF_ST_VISIBILITY (st_other s) \<noteq> STV_DEFAULT then (True, st)
              else
                let st = (if is_vxworks info then st
                          else on_sym h (\<lambda>s. s\<lparr>global_got_area := (if global_got_area s = GGA_NONE then GGA_RELOC_ONLY else global_got_area s),
                                               got_only_for_calls := False\<rparr>) st);
                    st = dyn_allocate env info (possibly_dynamic_relocs (dy_syms st h)) st
                in (True, if readonly_reloc (dy_syms st h) then st\<lparr>dy_textrel := True\<rparr> else st)
         else (True, st))"

text \<open>The traversal ends at a failure, but its caller goes on.\<close>

fun allocate_all_dynrelocs :: "dyn_env \<Rightarrow> link_info \<Rightarrow> nat list \<Rightarrow> dyn_state \<Rightarrow> dyn_state" where
  "allocate_all_dynrelocs env info [] st = st"
| "allocate_all_dynrelocs env info (h # hs) st =
     (let (ok, st) = allocate_dynrelocs env info h st in if ok then allocate_all_dynrelocs env info hs st else st)"

section \<open>Sizes of the linker's sections\<close>

text \<open>
  The sections the hash table points to, by number; \<^verbatim>\<open>find_output\<close> is \<^verbatim>\<open>bfd_get_section_by_name\<close> on the output file.
\<close>

record size_env =
  splt_id :: "nat option"
  got_section_ids :: "nat set"
  use_rld_obj_head :: bool
  sz_compact_rel :: nat
  find_output :: "string \<Rightarrow> asection option"

record size_flags =
  reltext :: bool
  combreloc :: bool

definition starts_with :: "string \<Rightarrow> string \<Rightarrow> bool" where
  "starts_with p s \<longleftrightarrow> take (length p) s = p"

definition MIPS_ELF_REL_DYN_NAME :: "link_info \<Rightarrow> string" where
  "MIPS_ELF_REL_DYN_NAME info = (if is_vxworks info then ''.rela.dyn'' else ''.rel.dyn'')"

text \<open>Does a relocation section make the loader write to read-only memory?\<close>

definition relocates_text :: "size_env \<Rightarrow> link_info \<Rightarrow> asection \<Rightarrow> bool" where
  "relocates_text env info s \<longleftrightarrow>
     (let outname = osec_name (the (output_section s))
      in (case find_output env (drop 4 outname) of
            None \<Rightarrow> False | Some t \<Rightarrow> SEC_READONLY \<in> sec_flags t \<and> SEC_ALLOC \<in> sec_flags t)
         \<or> outname = MIPS_ELF_REL_DYN_NAME info)"

abbreviation grow :: "vma \<Rightarrow> asection \<Rightarrow> asection" where
  "grow n s \<equiv> s\<lparr>sec_size := sec_size s + n\<rparr>"

text \<open>The final size of a section, \<^verbatim>\<open>None\<close> when it is not one of those that get contents here.\<close>

definition final_size :: "size_env \<Rightarrow> link_info \<Rightarrow> bfd \<Rightarrow> asection \<Rightarrow> asection option" where
  "final_size env info output_bfd s =
     (let name = sec_name s
      in if starts_with ''.rel'' name then Some s
         else if \<not> shared info \<and> \<not> use_rld_obj_head env \<and> starts_with ''.rld_map'' name
         then Some (grow (of_nat (MIPS_ELF_GOT_SIZE output_bfd)) s)
         else if SGI_COMPAT output_bfd \<and> starts_with ''.compact_rel'' name then Some (grow (of_nat (sz_compact_rel env)) s)
         else if splt_id env = Some (sec_id s)
         then Some (if \<not> LOAD_INTERLOCKS_P output_bfd \<and> \<not> is_vxworks info \<and> sec_size s > 0 then grow 4 s else s)
         else if starts_with ''.init'' name \<or> sec_id s \<in> got_section_ids env then Some s
         else None)"

text \<open>The section, its contents if they are made, and the flags collected.\<close>

definition size_section ::
  "size_env \<Rightarrow> link_info \<Rightarrow> bfd \<Rightarrow> asection \<Rightarrow> size_flags \<Rightarrow> (asection \<times> bytes option) \<times> size_flags" where
  "size_section env info output_bfd s f =
     (if SEC_LINKER_CREATED \<notin> sec_flags s then ((s, None), f)
      else
        let f = (if starts_with ''.rel'' (sec_name s) \<and> sec_size s \<noteq> 0
                 then f\<lparr>reltext := reltext f \<or> relocates_text env info s, combreloc := False\<rparr> else f)
        in case final_size env info output_bfd s of
             None \<Rightarrow> ((s, None), f)
           | Some s \<Rightarrow>
               if sec_size s = 0 then ((s\<lparr>sec_flags := insert SEC_EXCLUDE (sec_flags s)\<rparr>, None), f)
               else if SEC_HAS_CONTENTS \<notin> sec_flags s then ((s, None), f)
               else ((s, Some (replicate (unat (sec_size s)) 0)), f))"

fun size_sections ::
  "size_env \<Rightarrow> link_info \<Rightarrow> bfd \<Rightarrow> asection list \<Rightarrow> size_flags \<Rightarrow> (asection \<times> bytes option) list \<times> size_flags" where
  "size_sections env info output_bfd [] f = ([], f)"
| "size_sections env info output_bfd (s # ss) f =
     (let (r, f) = size_section env info output_bfd s f; (rs, f) = size_sections env info output_bfd ss f in (r # rs, f))"

section \<open>The entries of .dynamic\<close>

type_synonym dyn_tag = nat

abbreviation (input) DT_NULL :: dyn_tag where "DT_NULL \<equiv> 0"
abbreviation (input) DT_PLTRELSZ :: dyn_tag where "DT_PLTRELSZ \<equiv> 2"
abbreviation (input) DT_PLTGOT :: dyn_tag where "DT_PLTGOT \<equiv> 3"
abbreviation (input) DT_RELA :: dyn_tag where "DT_RELA \<equiv> 7"
abbreviation (input) DT_RELASZ :: dyn_tag where "DT_RELASZ \<equiv> 8"
abbreviation (input) DT_RELAENT :: dyn_tag where "DT_RELAENT \<equiv> 9"
abbreviation (input) DT_STRSZ :: dyn_tag where "DT_STRSZ \<equiv> 10"
abbreviation (input) DT_REL :: dyn_tag where "DT_REL \<equiv> 17"
abbreviation (input) DT_RELSZ :: dyn_tag where "DT_RELSZ \<equiv> 18"
abbreviation (input) DT_RELENT :: dyn_tag where "DT_RELENT \<equiv> 19"
abbreviation (input) DT_PLTREL :: dyn_tag where "DT_PLTREL \<equiv> 20"
abbreviation (input) DT_DEBUG :: dyn_tag where "DT_DEBUG \<equiv> 21"
abbreviation (input) DT_TEXTREL :: dyn_tag where "DT_TEXTREL \<equiv> 22"
abbreviation (input) DT_JMPREL :: dyn_tag where "DT_JMPREL \<equiv> 23"
abbreviation (input) DT_FLAGS :: dyn_tag where "DT_FLAGS \<equiv> 30"
abbreviation (input) DT_MIPS_RLD_VERSION :: dyn_tag where "DT_MIPS_RLD_VERSION \<equiv> 0x70000001"
abbreviation (input) DT_MIPS_TIME_STAMP :: dyn_tag where "DT_MIPS_TIME_STAMP \<equiv> 0x70000002"
abbreviation (input) DT_MIPS_ICHECKSUM :: dyn_tag where "DT_MIPS_ICHECKSUM \<equiv> 0x70000003"
abbreviation (input) DT_MIPS_IVERSION :: dyn_tag where "DT_MIPS_IVERSION \<equiv> 0x70000004"
abbreviation (input) DT_MIPS_FLAGS :: dyn_tag where "DT_MIPS_FLAGS \<equiv> 0x70000005"
abbreviation (input) DT_MIPS_BASE_ADDRESS :: dyn_tag where "DT_MIPS_BASE_ADDRESS \<equiv> 0x70000006"
abbreviation (input) DT_MIPS_LOCAL_GOTNO :: dyn_tag where "DT_MIPS_LOCAL_GOTNO \<equiv> 0x7000000a"
abbreviation (input) DT_MIPS_SYMTABNO :: dyn_tag where "DT_MIPS_SYMTABNO \<equiv> 0x70000011"
abbreviation (input) DT_MIPS_UNREFEXTNO :: dyn_tag where "DT_MIPS_UNREFEXTNO \<equiv> 0x70000012"
abbreviation (input) DT_MIPS_GOTSYM :: dyn_tag where "DT_MIPS_GOTSYM \<equiv> 0x70000013"
abbreviation (input) DT_MIPS_HIPAGENO :: dyn_tag where "DT_MIPS_HIPAGENO \<equiv> 0x70000014"
abbreviation (input) DT_MIPS_RLD_MAP :: dyn_tag where "DT_MIPS_RLD_MAP \<equiv> 0x70000016"
abbreviation (input) DT_MIPS_OPTIONS :: dyn_tag where "DT_MIPS_OPTIONS \<equiv> 0x70000029"
abbreviation (input) DT_MIPS_PLTGOT :: dyn_tag where "DT_MIPS_PLTGOT \<equiv> 0x70000032"

abbreviation (input) DF_TEXTREL :: vma where "DF_TEXTREL \<equiv> 4"
abbreviation (input) RHF_NOTPOT :: vma where "RHF_NOTPOT \<equiv> 2"

text \<open>
  The tags added when the sections are sized.  \<^verbatim>\<open>textrel\<close> is the flag of the link so far, \<^verbatim>\<open>plt_size\<close> and
  \<^verbatim>\<open>rel_dyn_bytes\<close> are the sizes of two sections, \<^verbatim>\<open>has_options\<close> tells whether the output has an options section, and the
  last parameter are the tags that \<^verbatim>\<open>elf_vxworks_add_dynamic_entries\<close> adds.
\<close>

definition dynamic_tags ::
  "link_info \<Rightarrow> bool \<Rightarrow> bfd \<Rightarrow> bfd \<Rightarrow> bool \<Rightarrow> bool \<Rightarrow> vma \<Rightarrow> nat \<Rightarrow> bool \<Rightarrow> dyn_tag list \<Rightarrow> dyn_tag list" where
  "dynamic_tags info executable output_bfd dynbfd textrel rel_text plt_size rel_dyn_bytes has_options vx_tags =
     (if \<not> shared info then [DT_MIPS_RLD_MAP] else [])
     @ (if executable \<and> \<not> SGI_COMPAT output_bfd then [DT_DEBUG] else [])
     @ (if textrel \<or> (rel_text \<and> (SGI_COMPAT output_bfd \<or> is_vxworks info)) then [DT_TEXTREL] else [])
     @ [DT_PLTGOT]
     @ (if is_vxworks info
        then (if rel_dyn_bytes > 0 then [DT_RELA, DT_RELASZ, DT_RELAENT] else [])
        else (if rel_dyn_bytes > 0 then [DT_REL, DT_RELSZ, DT_RELENT] else [])
             @ [DT_MIPS_RLD_VERSION, DT_MIPS_FLAGS, DT_MIPS_BASE_ADDRESS, DT_MIPS_LOCAL_GOTNO, DT_MIPS_SYMTABNO,
                DT_MIPS_UNREFEXTNO, DT_MIPS_GOTSYM]
             @ (if irix_compat dynbfd = ict_irix5 then [DT_MIPS_HIPAGENO] else [])
             @ (if irix_compat dynbfd = ict_irix6 \<and> has_options then [DT_MIPS_OPTIONS] else []))
     @ (if plt_size > 0 then [DT_PLTREL, DT_JMPREL, DT_PLTRELSZ, DT_MIPS_PLTGOT] else [])
     @ (if is_vxworks info then vx_tags else [])"

section \<open>Final values\<close>

record dyn_entry =
  d_tag :: dyn_tag
  d_val :: vma

text \<open>
  What the values are taken from: sizes and addresses of sections of the output, counts of the GOT of the output and the index
  of its first global symbol, the symbol for the run-time linker, whether text relocations were written, the
  time, and the function for VxWorks.
\<close>

record final_env =
  fi_dyn :: dyn_env
  dynstr_size :: vma
  first_section_vma :: vma
  section_count :: nat
  dynsym_size :: vma
  sym_size :: vma
  out_local_gotno :: nat
  fi_reserved_gotno :: nat
  first_got_dynindx :: "int option"
  rld_symbol :: "link_sym option"
  options_vma :: vma
  srelplt :: "asection option"
  text_relocated :: bool
  time_now :: vma
  vxworks_finish_entry :: "dyn_entry \<Rightarrow> dyn_entry option"

datatype dyn_action = write_entry dyn_entry | keep_entry | drop_entry

definition symtab_count :: "final_env \<Rightarrow> vma" where
  "symtab_count env = dynsym_size env div sym_size env"

definition finish_dyn_entry :: "final_env \<Rightarrow> link_info \<Rightarrow> dyn_entry \<Rightarrow> dyn_action" where
  "finish_dyn_entry env info d =
     (let tag = d_tag d; put = (\<lambda>v. write_entry (d\<lparr>d_val := v\<rparr>))
      in if tag = DT_RELENT then put (of_nat (dyn_rel_size (fi_dyn env)))
         else if tag = DT_RELAENT then put (of_nat (dyn_rela_size (fi_dyn env)))
         else if tag = DT_STRSZ then put (dynstr_size env)
         else if tag = DT_PLTGOT then put (section_address (sgot info))
         else if tag = DT_MIPS_PLTGOT then put (section_address (sgotplt info))
         else if tag = DT_MIPS_RLD_VERSION then put 1
         else if tag = DT_MIPS_FLAGS then put RHF_NOTPOT
         else if tag = DT_MIPS_TIME_STAMP then put (time_now env)
         else if tag = DT_MIPS_ICHECKSUM \<or> tag = DT_MIPS_IVERSION then keep_entry
         else if tag = DT_MIPS_BASE_ADDRESS then put (first_section_vma env AND NOT 0xffff)
         else if tag = DT_MIPS_LOCAL_GOTNO then put (of_nat (out_local_gotno env))
         else if tag = DT_MIPS_UNREFEXTNO then put (of_nat (section_count env + 1))
         else if tag = DT_MIPS_GOTSYM then
           put (case first_got_dynindx env of Some i \<Rightarrow> word_of_int i | None \<Rightarrow> symtab_count env)
         else if tag = DT_MIPS_SYMTABNO then put (symtab_count env)
         else if tag = DT_MIPS_HIPAGENO then put (ucast (of_nat (out_local_gotno env) - of_nat (fi_reserved_gotno env) :: 32 word))
         else if tag = DT_MIPS_RLD_MAP then
           (case rld_symbol env of
              None \<Rightarrow> drop_entry
            | Some h \<Rightarrow> put (section_address (the (def_section h)) + def_value h))
         else if tag = DT_MIPS_OPTIONS then put (options_vma env)
         else if tag = DT_RELASZ then
           put (case srelplt env of None \<Rightarrow> d_val d | Some s \<Rightarrow> d_val d - sec_size s)
         else if tag = DT_PLTREL then put (of_nat (if is_vxworks info then DT_RELA else DT_REL))
         else if tag = DT_PLTRELSZ then put (sec_size (the (srelplt env)))
         else if tag = DT_JMPREL then put (section_address (the (srelplt env)))
         else if tag = DT_TEXTREL then (if text_relocated env then put (d_val d) else drop_entry)
         else if tag = DT_FLAGS then (if text_relocated env then keep_entry else put (d_val d AND NOT DF_TEXTREL))
         else (case (if is_vxworks info then vxworks_finish_entry env d else None) of
                 Some d \<Rightarrow> write_entry d | None \<Rightarrow> keep_entry))"

text \<open>
  The loop over the entries; \<^verbatim>\<open>skipped\<close> entries have been dropped so far.  The last \<^verbatim>\<open>skipped\<close> entries are wiped
  at the end.
\<close>

fun finish_dyn_loop :: "final_env \<Rightarrow> link_info \<Rightarrow> nat list \<Rightarrow> nat \<Rightarrow> dyn_entry list \<Rightarrow> nat \<times> dyn_entry list" where
  "finish_dyn_loop env info [] skipped c = (skipped, c)"
| "finish_dyn_loop env info (i # is) skipped c =
     (let d = c ! i
      in case finish_dyn_entry env info d of
           write_entry d \<Rightarrow> finish_dyn_loop env info is skipped (c[i - skipped := d])
         | keep_entry \<Rightarrow> finish_dyn_loop env info is skipped (if skipped \<noteq> 0 then c[i - skipped := d] else c)
         | drop_entry \<Rightarrow> finish_dyn_loop env info is (skipped + 1) (if skipped \<noteq> 0 then c[i - skipped := d] else c))"

abbreviation null_entry :: dyn_entry where "null_entry \<equiv> \<lparr>d_tag = DT_NULL, d_val = 0\<rparr>"

definition finish_dyn_entries :: "final_env \<Rightarrow> link_info \<Rightarrow> dyn_entry list \<Rightarrow> dyn_entry list" where
  "finish_dyn_entries env info c =
     (let (skipped, c') = finish_dyn_loop env info [0 ..< length c] 0 c
      in take (length c - skipped) c' @ replicate skipped null_entry)"

section \<open>Tables of the output\<close>

definition MIPS_ELF_GNU_GOT1_MASK :: "bfd \<Rightarrow> vma" where
  "MIPS_ELF_GNU_GOT1_MASK abfd = (if ABI_64_P abfd then push_bit 63 1 else push_bit 31 1)"

definition put_got :: "bfd \<Rightarrow> nat \<Rightarrow> vma \<Rightarrow> got_state \<Rightarrow> got_state" where
  "put_got abfd index v st =
     st\<lparr>sgot_contents := MIPS_ELF_PUT_WORD abfd v (sgot_contents st) (index * MIPS_ELF_GOT_SIZE abfd)\<rparr>"

text \<open>
  The reserved words of the table.  \<^verbatim>\<open>got_bytes\<close> is the size of \<^verbatim>\<open>.got\<close>, if there is one whose output section is not the absolute one, and
  \<^verbatim>\<open>sdyn\<close> the section \<^verbatim>\<open>.dynamic\<close>.
\<close>

definition finish_got_header :: "link_info \<Rightarrow> bfd \<Rightarrow> nat option \<Rightarrow> asection \<Rightarrow> got_state \<Rightarrow> got_state" where
  "finish_got_header info abfd got_bytes sdyn st =
     (case got_bytes of
        None \<Rightarrow> st
      | Some n \<Rightarrow>
          if n = 0 then st
          else if is_vxworks info
          then put_got abfd 2 0 (put_got abfd 1 0 (put_got abfd 0 (section_address sdyn) st))
          else put_got abfd 1 (MIPS_ELF_GNU_GOT1_MASK abfd) (put_got abfd 0 0 st))"

text \<open>The relocation of a word of a secondary table, which is local.\<close>

definition local_got_rel :: "bfd \<Rightarrow> nat \<Rightarrow> elf_rela" where
  "local_got_rel abfd index =
     \<lparr>r_offset = of_nat (index * MIPS_ELF_GOT_SIZE abfd), r_info = ELF_R_INFO abfd 0 R_MIPS_REL32, r_addend = 0\<rparr>"

text \<open>
  The words of one secondary table; the addend of a relocation starts with what the one before left (the code asserts that it stays 0).
  The first component of the result is false when a relocation cannot be made.
\<close>

fun relocate_local_gots ::
  "link_env \<Rightarrow> link_info \<Rightarrow> bfd \<Rightarrow> asection \<Rightarrow> nat list \<Rightarrow> vma \<times> calc_state \<Rightarrow> (bool \<times> vma \<times> calc_state) option" where
  "relocate_local_gots lenv info abfd abs_sec [] (addend, st) = Some (True, addend, st)"
| "relocate_local_gots lenv info abfd abs_sec (i # is) (addend, st) =
     (case mips_elf_create_dynamic_relocation lenv info abfd (local_got_rel abfd i) None (Some abs_sec) 0 addend (sgot info) st of
        None \<Rightarrow> None
      | Some (ok, addend, st) \<Rightarrow>
          if ok then relocate_local_gots lenv info abfd abs_sec is (addend, st) else Some (False, addend, st))"

definition finish_secondary_got ::
  "link_env \<Rightarrow> link_info \<Rightarrow> bfd \<Rightarrow> asection \<Rightarrow> nat \<Rightarrow> vma \<times> calc_state \<Rightarrow> (bool \<times> vma \<times> calc_state) option" where
  "finish_secondary_got lenv info abfd abs_sec g = (\<lambda>(addend, st).
     case got_next (gots (gs st) ! g) of
       None \<Rightarrow> None
     | Some l \<Rightarrow>
         let before = gots (gs st) ! l;
             i = local_gotno before + global_gotno before + tls_gotno before;
             st = st\<lparr>gs := put_got abfd (i + 1) (MIPS_ELF_GNU_GOT1_MASK abfd) (put_got abfd i 0 (gs st))\<rparr>
         in if \<not> shared info then Some (True, addend, st)
            else relocate_local_gots lenv info abfd abs_sec [i + 2 ..< assigned_gotno (gots (gs st) ! g)] (addend, st))"

definition finish_secondary_gots ::
  "link_env \<Rightarrow> link_info \<Rightarrow> bfd \<Rightarrow> asection \<Rightarrow> calc_state \<Rightarrow> (bool \<times> calc_state) option" where
  "finish_secondary_gots lenv info abfd abs_sec st =
     (case gots (gs st) of
        [] \<Rightarrow> Some (True, st)
      | gg # _ \<Rightarrow>
          (case got_next gg of
             None \<Rightarrow> Some (True, st)
           | Some g \<Rightarrow>
               (case secondary_gots (Suc (length (gots (gs st)))) (gs st) g of
                  None \<Rightarrow> None
                | Some gis \<Rightarrow>
                    map_option (\<lambda>(ok, _, st). (ok, st)) (until_failure (finish_secondary_got lenv info abfd abs_sec) gis (0, st)))))"

text \<open>The size of the dynamic relocations that were made.\<close>

definition finish_relsz :: "bfd \<Rightarrow> nat \<Rightarrow> dyn_entry list \<Rightarrow> dyn_entry list" where
  "finish_relsz abfd count c =
     map (\<lambda>d. if d_tag d = DT_RELSZ then d\<lparr>d_val := of_nat (count * (if ABI_64_P abfd then 16 else 8))\<rparr> else d) c"

section \<open>Order of the dynamic relocations\<close>

text \<open>
  A relocation read back from its 32-bit external form; the difference of the symbol indices is stored in an \<^verbatim>\<open>int\<close>.
\<close>

definition sort_dynamic_relocs :: "elf_rela \<Rightarrow> elf_rela \<Rightarrow> int" where
  "sort_dynamic_relocs a b =
     (let info = (\<lambda>r. take_bit 32 (r_info r)); offset = (\<lambda>r. take_bit 32 (r_offset r));
          diff = sint (ucast (drop_bit 8 (info a) - drop_bit 8 (info b)) :: 32 word)
      in if diff \<noteq> 0 then diff
         else if offset a < offset b then -1
         else if offset a > offset b then 1
         else 0)"

definition sort_dynamic_relocs_64 :: "elf_rela \<Rightarrow> elf_rela \<Rightarrow> int" where
  "sort_dynamic_relocs_64 a b =
     (let s = (\<lambda>r. drop_bit 32 (r_info r))
      in if s a < s b then -1 else if s a > s b then 1
         else if r_offset a < r_offset b then -1
         else if r_offset a > r_offset b then 1
         else 0)"

text \<open>The first relocation is the null one and stays; \<^verbatim>\<open>qsort\<close> is the function of the C library and \<^verbatim>\<open>bytes\<close> the size of the section.\<close>

definition sort_rel_dyn ::
  "((elf_rela \<Rightarrow> elf_rela \<Rightarrow> int) \<Rightarrow> elf_rela list \<Rightarrow> elf_rela list) \<Rightarrow> link_info \<Rightarrow> bfd \<Rightarrow> nat \<Rightarrow> nat \<Rightarrow> elf_rela list \<Rightarrow> elf_rela list" where
  "sort_rel_dyn qsort info abfd rel_size sec_bytes rels =
     (if is_vxworks info \<or> sec_bytes \<le> 2 * rel_size then rels
      else take 1 rels @ qsort (if ABI_64_P abfd then sort_dynamic_relocs_64 else sort_dynamic_relocs) (drop 1 rels))"

section \<open>Finishing\<close>

text \<open>
  The state at the end of a link: the contents of the tables and the entries of \<^verbatim>\<open>.dynamic\<close>, if it was created.
  \<^verbatim>\<open>compact_header\<close> are the words of the header of \<^verbatim>\<open>.compact_rel\<close>, for IRIX.
\<close>

record finish_state =
  fs_contents :: dyn_contents
  fs_dynamic :: "dyn_entry list option"
  compact_header :: "vma list option"

record finish_params =
  fp_final :: final_env
  fp_link :: link_env
  fp_abs :: asection
  fp_dynamic :: asection
  fp_got_bytes :: "nat option"
  fp_plt_size :: vma
  fp_rel_dyn_bytes :: nat
  fp_compact_pos :: "(vma \<times> nat) option"
  fp_stub_bytes :: "nat option"
  fp_stub_size :: nat
  fp_qsort :: "(elf_rela \<Rightarrow> elf_rela \<Rightarrow> int) \<Rightarrow> elf_rela list \<Rightarrow> elf_rela list"

text \<open>The header of \<^verbatim>\<open>.compact_rel\<close> (its position in the file and number of entries), and the dummy stub, which is cleared.\<close>

definition finish_compact_rel :: "finish_params \<Rightarrow> bfd \<Rightarrow> finish_state \<Rightarrow> finish_state" where
  "finish_compact_rel fp abfd st =
     (if \<not> SGI_COMPAT abfd then st
      else case fp_compact_pos fp of
             None \<Rightarrow> st
           | Some (pos, n) \<Rightarrow>
               let st = st\<lparr>compact_header := Some [1, of_nat n, 2, pos + 24, 0, 0]\<rparr>
               in case fp_stub_bytes fp of
                    None \<Rightarrow> st
                  | Some sz \<Rightarrow>
                      let c = fs_contents st; off = sz - fp_stub_size fp
                      in st\<lparr>fs_contents := c\<lparr>stub_bytes := take off (stub_bytes c) @ replicate (fp_stub_size fp) 0
                           @ drop (off + fp_stub_size fp) (stub_bytes c)\<rparr>\<rparr>)"

text \<open>The entry size of \<^verbatim>\<open>.got\<close> and the size of \<^verbatim>\<open>.rel.dyn\<close> in the section headers are not part of the state.\<close>

abbreviation on_calc :: "(calc_state \<Rightarrow> calc_state) \<Rightarrow> finish_state \<Rightarrow> finish_state" where
  "on_calc f st \<equiv> st\<lparr>fs_contents := (fs_contents st)\<lparr>dc_calc := f (dc_calc (fs_contents st))\<rparr>\<rparr>"

definition bfd_mips_elf_finish_dynamic_sections :: "finish_params \<Rightarrow> link_info \<Rightarrow> bfd \<Rightarrow> finish_state \<Rightarrow> (bool \<times> finish_state) option" where
  "bfd_mips_elf_finish_dynamic_sections fp info abfd st =
     (let st = st\<lparr>fs_dynamic := map_option (finish_dyn_entries
              ((fp_final fp)\<lparr>text_relocated := df_textrel (dc_calc (fs_contents st))\<rparr>) info) (fs_dynamic st)\<rparr>;
          st = on_calc (\<lambda>c. c\<lparr>gs := finish_got_header info abfd (fp_got_bytes fp) (fp_dynamic fp) (gs c)\<rparr>) st
      in case finish_secondary_gots (fp_link fp) info abfd (fp_abs fp) (dc_calc (fs_contents st)) of
           None \<Rightarrow> None
         | Some (ok, c) \<Rightarrow>
             let st = on_calc (\<lambda>_. c) st
             in if \<not> ok then Some (False, st)
                else
                  let rels = rel_dyn (gs c);
                      st = st\<lparr>fs_dynamic := map_option (finish_relsz abfd (length rels)) (fs_dynamic st)\<rparr>;
                      st = finish_compact_rel fp abfd st;
                      st = on_calc (\<lambda>c. c\<lparr>gs := (gs c)\<lparr>rel_dyn :=
                             sort_rel_dyn (fp_qsort fp) info abfd (dyn_rel_size (fi_dyn (fp_final fp))) (fp_rel_dyn_bytes fp) rels\<rparr>\<rparr>) st
                  in Some (True, st\<lparr>fs_contents := finish_plt_header (fi_dyn (fp_final fp)) info abfd (fp_plt_size fp) (fs_contents st)\<rparr>))"

end
