(* ===== verification/DynSpec.thy ===== *)
theory DynSpec
  imports DynSections "HOL-Library.Multiset"
begin

text \<open>
  What finishing the dynamic sections guarantees: the entries of \<^verbatim>\<open>.dynamic\<close> that stay are moved together
  with their final values, the tags the loader needs are there, and the dynamic relocations are sorted
  by symbol.
\<close>

section \<open>The entries that stay\<close>

definition final_entry :: "final_env \<Rightarrow> link_info \<Rightarrow> dyn_entry \<Rightarrow> dyn_entry option" where
  "final_entry env info d =
     (case finish_dyn_entry env info d of write_entry d' \<Rightarrow> Some d' | keep_entry \<Rightarrow> Some d | drop_entry \<Rightarrow> None)"

lemma take_update_low: "j < length xs \<Longrightarrow> take (Suc j) (xs[j := x]) = take j xs @ [x]"
  by (simp add: take_Suc_conv_app_nth)

lemma finish_dyn_loop_entries:
  assumes "length c' = length c" "k \<le> i" "drop i c' = drop i c" "finish_dyn_loop env info [i ..< length c] k c' = (k', r)"
    and "i \<le> length c"
  shows "length r = length c \<and> k' \<le> length c
    \<and> take (length c - k') r = take (i - k) c' @ List.map_filter (final_entry env info) (drop i c)"
  using assms
proof (induction "length c - i" arbitrary: i k c')
  case (Suc n)
  then have i: "i < length c" and up: "[i ..< length c] = i # [Suc i ..< length c]"
    by (simp_all add: upt_rec)
  have d: "c' ! i = c ! i"
    using Suc.prems(1,3) i by (metis hd_drop_conv_nth)
  have split: "drop i c = c ! i # drop (Suc i) c"
    using i by (simp add: Cons_nth_drop_Suc)
  have rest: "drop (Suc i) (c'[i - k := x]) = drop (Suc i) c" for x
    using Suc.prems(3) i by (simp add: drop_update_cancel) (metis drop_Suc tl_drop)
  have rest': "drop (Suc i) c' = drop (Suc i) c"
    using Suc.prems(3) by (metis drop_Suc tl_drop)
  have n: "n = length c - Suc i"
    using Suc.hyps(2) by simp
  have moved: "take (Suc i - k) (c'[i - k := x]) = take (i - k) c' @ [x]" for x
    using Suc.prems(1,2) i take_update_low [of "i - k" c' x] by (simp add: Suc_diff_le)
  have same: "take (Suc i - k) c' = take (i - k) c' @ [c ! i]" if "k = 0"
    using that d i Suc.prems(1) by (simp add: take_Suc_conv_app_nth)
  have drop_move: "take (i - k) (c'[i - k := x]) = take (i - k) c'" for x
    by simp
  show ?case
  proof (cases "finish_dyn_entry env info (c ! i)")
    case (write_entry x)
    then have "finish_dyn_loop env info [Suc i ..< length c] k (c'[i - k := x]) = (k', r)"
      using Suc.prems(4) by (simp add: up d)
    from Suc.hyps(1) [OF n _ _ rest this] show ?thesis
      using Suc.prems(1,2) i write_entry by (simp add: moved split map_filter_simps final_entry_def)
  next
    case keep_entry
    then have "finish_dyn_loop env info [Suc i ..< length c] k (if k \<noteq> 0 then c'[i - k := c ! i] else c') = (k', r)"
      using Suc.prems(4) by (simp add: up d)
    from Suc.hyps(1) [OF n _ _ _ this] show ?thesis
      using Suc.prems(1,2) i keep_entry rest rest' same by (simp add: moved split map_filter_simps final_entry_def split: if_splits)
  next
    case drop_entry
    then have "finish_dyn_loop env info [Suc i ..< length c] (Suc k) (if k \<noteq> 0 then c'[i - k := c ! i] else c') = (k', r)"
      using Suc.prems(4) by (simp add: up d)
    from Suc.hyps(1) [OF n _ _ _ this] show ?thesis
      using Suc.prems(1,2) i drop_entry rest rest' by (simp add: split map_filter_simps final_entry_def split: if_splits)
  qed
qed (auto simp: map_filter_simps)

lemma finish_dyn_entries_filter:
  fixes env :: final_env and info :: link_info
  defines "kept \<equiv> List.map_filter (final_entry env info)"
  shows "finish_dyn_entries env info c = kept c @ replicate (length c - length (kept c)) null_entry"
proof -
  obtain k r where run: "finish_dyn_loop env info [0 ..< length c] 0 c = (k, r)"
    by fastforce
  from finish_dyn_loop_entries [OF refl _ refl this] have "length r = length c" "k \<le> length c" "take (length c - k) r = kept c"
    by (simp_all add: kept_def)
  moreover from this have "length (kept c) = length c - k"
    by (metis diff_le_self length_take min.absorb2)
  ultimately show ?thesis
    by (simp add: finish_dyn_entries_def run)
qed

section \<open>Tags and values\<close>

definition stays :: "final_env \<Rightarrow> dyn_tag \<Rightarrow> bool" where
  "stays env t \<longleftrightarrow> (t = DT_TEXTREL \<longrightarrow> text_relocated env) \<and> (t = DT_MIPS_RLD_MAP \<longrightarrow> rld_symbol env \<noteq> None)"

lemma final_entry_tag:
  assumes "\<not> is_vxworks info"
  shows "case final_entry env info d of None \<Rightarrow> \<not> stays env (d_tag d) | Some d' \<Rightarrow> stays env (d_tag d) \<and> d_tag d' = d_tag d"
  using assms by (simp add: final_entry_def finish_dyn_entry_def Let_def stays_def split: option.splits)

lemma map_filter_tags:
  assumes "\<And>d. case f d of None \<Rightarrow> \<not> P (d_tag d) | Some d' \<Rightarrow> P (d_tag d) \<and> d_tag d' = d_tag d"
  shows "map d_tag (List.map_filter f c) = filter P (map d_tag c)"
proof (induction c)
  case (Cons d c)
  then show ?case
    using assms [of d] by (simp add: map_filter_simps split: option.splits)
qed (simp add: map_filter_simps)

lemma final_tags:
  assumes "\<not> is_vxworks info"
  shows "map d_tag (finish_dyn_entries env info c)
    = filter (stays env) (map d_tag c) @ replicate (length c - length (filter (stays env) (map d_tag c))) DT_NULL"
proof -
  note m = map_filter_tags [where f = "final_entry env info" and P = "stays env", OF final_entry_tag [OF assms]]
  have "length (List.map_filter (final_entry env info) c) = length (filter (stays env) (map d_tag c))"
    using arg_cong [OF m, of length] by simp
  then show ?thesis
    by (simp add: finish_dyn_entries_filter m)
qed

text \<open>The values of the entries that the loader uses to find the tables.\<close>

definition table_value :: "final_env \<Rightarrow> link_info \<Rightarrow> dyn_tag \<Rightarrow> vma option" where
  "table_value env info t =
     map_of [(DT_PLTGOT, section_address (sgot info)), (DT_MIPS_PLTGOT, section_address (sgotplt info)),
       (DT_JMPREL, section_address (the (srelplt env))), (DT_PLTRELSZ, sec_size (the (srelplt env))), (DT_PLTREL, of_nat DT_REL),
       (DT_MIPS_LOCAL_GOTNO, of_nat (out_local_gotno env)), (DT_MIPS_SYMTABNO, symtab_count env),
       (DT_MIPS_GOTSYM, case first_got_dynindx env of Some i \<Rightarrow> word_of_int i | None \<Rightarrow> symtab_count env),
       (DT_RELENT, of_nat (dyn_rel_size (fi_dyn env)))] t"

lemma final_value:
  assumes "\<not> is_vxworks info" "final_entry env info d = Some d'" "table_value env info (d_tag d') = Some v"
  shows "d_val d' = v"
proof -
  have "d_tag d' = d_tag d"
    using final_entry_tag [OF assms(1), of env d] assms(2) by simp
  then have t: "table_value env info (d_tag d) = Some v"
    using assms(3) by simp
  then have "d_tag d \<in> {DT_PLTGOT, DT_MIPS_PLTGOT, DT_JMPREL, DT_PLTRELSZ, DT_PLTREL, DT_MIPS_LOCAL_GOTNO, DT_MIPS_SYMTABNO,
      DT_MIPS_GOTSYM, DT_RELENT}"
    by (simp add: table_value_def split: if_splits)
  then show ?thesis
    using t assms(1,2)
    by (elim insertE) (auto simp: final_entry_def finish_dyn_entry_def table_value_def Let_def)
qed

lemma final_values:
  assumes "\<not> is_vxworks info" "d' \<in> set (finish_dyn_entries env info c)" "table_value env info (d_tag d') = Some v"
  shows "d_val d' = v"
proof -
  have "table_value env info (d_tag null_entry) = None"
    by (simp add: table_value_def)
  then have "d' \<in> set (List.map_filter (final_entry env info) c)"
    using assms(2,3) by (auto simp: finish_dyn_entries_filter)
  then obtain d where "final_entry env info d = Some d'"
    by (auto simp: map_filter_def)
  then show ?thesis
    using final_value [OF assms(1)] assms(3) by blast
qed

section \<open>The order of dynamic relocations\<close>

text \<open>A comparison function as the C library wants it, and what \<^verbatim>\<open>qsort\<close> promises for one.\<close>

definition consistent :: "('a \<Rightarrow> 'a \<Rightarrow> int) \<Rightarrow> bool" where
  "consistent cmp \<longleftrightarrow> (\<forall>a b. sgn (cmp a b) = - sgn (cmp b a)) \<and> (\<forall>a b c. cmp a b \<le> 0 \<longrightarrow> cmp b c \<le> 0 \<longrightarrow> cmp a c \<le> 0)"

definition qsort_ok :: "(('a \<Rightarrow> 'a \<Rightarrow> int) \<Rightarrow> 'a list \<Rightarrow> 'a list) \<Rightarrow> bool" where
  "qsort_ok q \<longleftrightarrow> (\<forall>cmp xs. consistent cmp \<longrightarrow> mset (q cmp xs) = mset xs \<and> sorted_wrt (\<lambda>a b. cmp a b \<le> 0) (q cmp xs))"

text \<open>A comparison by a key is consistent.\<close>

lemma consistent_key:
  fixes key :: "'a \<Rightarrow> nat"
  assumes "\<And>a b. sgn (cmp a b) = sgn (int (key a) - int (key b))"
  shows "consistent cmp" "cmp a b \<le> 0 \<longleftrightarrow> key a \<le> key b"
proof -
  have le: "cmp a b \<le> 0 \<longleftrightarrow> key a \<le> key b" for a b
  proof -
    have "cmp a b \<le> 0 \<longleftrightarrow> sgn (cmp a b) \<le> 0"
      by (auto simp: sgn_if)
    then show ?thesis
      unfolding assms by (auto simp: sgn_if)
  qed
  show "cmp a b \<le> 0 \<longleftrightarrow> key a \<le> key b"
    by (rule le)
  have "sgn (cmp a b) = - sgn (cmp b a)" for a b
    unfolding assms by (simp flip: sgn_minus)
  moreover have "cmp a b \<le> 0 \<longrightarrow> cmp b c \<le> 0 \<longrightarrow> cmp a c \<le> 0" for a b c
    unfolding le by simp
  ultimately show "consistent cmp"
    unfolding consistent_def by blast
qed

lemma sym32_small: "unat (drop_bit 8 (take_bit 32 x) :: vma) < 2 ^ 24"
proof -
  have "drop_bit 8 (take_bit 32 x) = take_bit 24 (drop_bit 8 x)"
    by (simp add: drop_bit_take_bit)
  then show ?thesis
    using take_bit_nat_less_exp [of 24 "unat (drop_bit 8 x)"] by (simp only: unsigned_take_bit_eq)
qed

lemma narrow_of_int: "(ucast (word_of_int k :: vma) :: 32 word) = word_of_int k"
  by (simp add: unsigned_of_int word_of_int_eq_iff)

lemma difference_bounds:
  fixes m n :: nat
  assumes "m < 2 ^ 24" "n < 2 ^ 24"
  shows "- (2 ^ 24) < int m - int n" "int m - int n < 2 ^ 24"
  using assms by simp_all

lemma int_difference:
  fixes x y :: vma
  assumes "unat x < 2 ^ 24" "unat y < 2 ^ 24"
  shows "sint (ucast (x - y) :: 32 word) = int (unat x) - int (unat y)"
proof -
  have "x - y = word_of_int (int (unat x) - int (unat y))"
    by simp
  then have narrow: "(ucast (x - y) :: 32 word) = word_of_int (int (unat x) - int (unat y))"
    by (simp only: narrow_of_int)
  have fits: "sint (word_of_int k :: 32 word) = k" if "- (2 ^ 24) < k" "k < 2 ^ 24" for k
    using that by (simp add: signed_of_int signed_take_bit_int_eq_self)
  show ?thesis
    unfolding narrow by (rule fits) (rule difference_bounds [OF assms])+
qed

text \<open>The symbol index and the place of a relocation as they are written to the file.\<close>

definition written_sym :: "bfd \<Rightarrow> elf_rela \<Rightarrow> nat" where
  "written_sym abfd r = unat (if ABI_64_P abfd then drop_bit 32 (r_info r) else drop_bit 8 (take_bit 32 (r_info r)))"

definition written_key :: "bfd \<Rightarrow> elf_rela \<Rightarrow> nat" where
  "written_key abfd r = written_sym abfd r * 2 ^ 64 + unat (if ABI_64_P abfd then r_offset r else take_bit 32 (r_offset r))"

lemma key_sign:
  fixes a b c d :: nat
  assumes "c < 2 ^ 64" "d < 2 ^ 64"
  shows "sgn (int (a * 2 ^ 64 + c) - int (b * 2 ^ 64 + d)) = (if a < b then -1 else if b < a then 1 else sgn (int c - int d))"
proof -
  have less: "a * 2 ^ 64 + c < b * 2 ^ 64 + d" if "a < b" "c < 2 ^ 64" for a b c d :: nat
  proof -
    have "a * 2 ^ 64 + c < Suc a * 2 ^ 64"
      using that(2) by simp
    also have "Suc a * 2 ^ 64 \<le> b * 2 ^ 64"
      using that(1) by (intro mult_le_mono1) simp
    finally show ?thesis
      by simp
  qed
  show ?thesis
  proof (cases a b rule: linorder_cases)
    case equal
    then show ?thesis
      by simp
  qed (use less [of a b c d] less [of b a d c] assms in \<open>simp_all del: of_nat_add\<close>)
qed

lemma sgn_steps:
  fixes a b c d :: nat
  shows "sgn (if int a - int b \<noteq> 0 then int a - int b else if c < d then -1 else if d < c then 1 else 0)
    = (if a < b then -1 else if b < a then 1 else sgn (int c - int d))"
  by (simp add: sgn_if)

lemma sgn_steps_signs:
  fixes a b c d :: nat
  shows "sgn (if a < b then -1 else if b < a then 1 else if c < d then -1 else if d < c then 1 else (0 :: int))
    = (if a < b then -1 else if b < a then 1 else sgn (int c - int d))"
  by (simp add: sgn_if)

lemma offset_bound: "unat (w :: vma) < 2 ^ 64"
  using unsigned_less [where w = w] by simp

lemma sort_32_sign:
  assumes "\<not> ABI_64_P abfd"
  shows "sgn (sort_dynamic_relocs a b) = sgn (int (written_key abfd a) - int (written_key abfd b))"
proof -
  let ?s = "\<lambda>r :: elf_rela. drop_bit 8 (take_bit 32 (r_info r))" and ?o = "\<lambda>r :: elf_rela. take_bit 32 (r_offset r)"
  have key: "written_key abfd r = unat (?s r) * 2 ^ 64 + unat (?o r)" for r
    using assms by (simp add: written_key_def written_sym_def)
  have o: "?o a < ?o b \<longleftrightarrow> unat (?o a) < unat (?o b)" "?o b < ?o a \<longleftrightarrow> unat (?o b) < unat (?o a)"
    by (simp_all only: word_less_nat_alt)
  show ?thesis
    unfolding key key_sign [OF offset_bound offset_bound] sort_dynamic_relocs_def Let_def
      int_difference [OF sym32_small sym32_small] o
    by (rule sgn_steps)
qed

lemma sort_64_sign:
  assumes "ABI_64_P abfd"
  shows "sgn (sort_dynamic_relocs_64 a b) = sgn (int (written_key abfd a) - int (written_key abfd b))"
proof -
  have key: "written_key abfd r = unat (drop_bit 32 (r_info r)) * 2 ^ 64 + unat (r_offset r)" for r
    using assms by (simp add: written_key_def written_sym_def)
  show ?thesis
    unfolding key key_sign [OF offset_bound offset_bound] sort_dynamic_relocs_64_def Let_def word_less_nat_alt
    by (rule sgn_steps_signs)
qed

text \<open>So the comparison functions are ones that \<^verbatim>\<open>qsort\<close> can use, and they order by the key.\<close>

definition compare_relocs :: "bfd \<Rightarrow> elf_rela \<Rightarrow> elf_rela \<Rightarrow> int" where
  "compare_relocs abfd = (if ABI_64_P abfd then sort_dynamic_relocs_64 else sort_dynamic_relocs)"

lemma compare_sign: "sgn (compare_relocs abfd a b) = sgn (int (written_key abfd a) - int (written_key abfd b))"
  by (simp add: compare_relocs_def sort_32_sign sort_64_sign)

lemmas compare_key = consistent_key [where cmp = "compare_relocs abfd" and key = "written_key abfd" for abfd, OF compare_sign]

lemma sorted_by_compare:
  assumes "qsort_ok q"
  shows "mset (q (compare_relocs abfd) xs) = mset xs" "sorted (map (written_key abfd) (q (compare_relocs abfd) xs))"
proof -
  have q: "mset (q (compare_relocs abfd) xs) = mset xs \<and> sorted_wrt (\<lambda>a b. compare_relocs abfd a b \<le> 0) (q (compare_relocs abfd) xs)"
    using assms compare_key(1) [of abfd] unfolding qsort_ok_def by blast
  then show "mset (q (compare_relocs abfd) xs) = mset xs" ..
  show "sorted (map (written_key abfd) (q (compare_relocs abfd) xs))"
    using q by (simp add: sorted_map compare_key(2))
qed

lemma sort_rel_dyn_unfold:
  "sort_rel_dyn q info abfd n b rels
    = (if is_vxworks info \<or> b \<le> 2 * n then rels else take 1 rels @ q (compare_relocs abfd) (drop 1 rels))"
  by (simp add: sort_rel_dyn_def compare_relocs_def)

lemma sort_rel_dyn_mset:
  assumes "qsort_ok q"
  shows "mset (sort_rel_dyn q info abfd n b rels) = mset rels"
  using sorted_by_compare(1) [OF assms, of abfd "drop 1 rels"] by (cases rels) (auto simp: sort_rel_dyn_unfold)

text \<open>
  C6.  Before a loader that is not VxWorks sees them, the dynamic relocations are put in the order that the psABI asks
  for: whenever the section holds more than one relocation besides the null one, the first (null) relocation stays where it is and the
  others come by increasing symbol index and, for one symbol, by increasing place, both as they are written to
  the file; none is lost or duplicated.  This holds for every \<^verbatim>\<open>qsort\<close> that sorts by a consistent comparison: the functions the code
  passes are consistent, although one of them returns a difference stored in an \<^verbatim>\<open>int\<close>.
\<close>

theorem dynamic_relocs_sorted:
  fixes q abfd rel_size bytes rels info
  defines "out \<equiv> sort_rel_dyn q info abfd rel_size bytes rels"
  assumes "qsort_ok q" "\<not> is_vxworks info" "2 * rel_size < bytes" "rels \<noteq> []"
  shows "mset out = mset rels \<and> hd out = hd rels \<and> sorted (map (written_key abfd) (tl out))"
proof -
  have "out = hd rels # q (compare_relocs abfd) (tl rels)"
    using assms by (simp add: out_def sort_rel_dyn_unfold take_Suc drop_Suc)
  moreover have "add_mset (hd rels) (mset (tl rels)) = mset rels"
    using assms(5) by (cases rels) simp_all
  ultimately show ?thesis
    using sorted_by_compare [OF assms(2), of abfd "tl rels"] by simp
qed

text \<open>A sorting function that meets the hypothesis.\<close>

fun insert_by :: "('a \<Rightarrow> 'a \<Rightarrow> int) \<Rightarrow> 'a \<Rightarrow> 'a list \<Rightarrow> 'a list" where
  "insert_by cmp x [] = [x]"
| "insert_by cmp x (y # ys) = (if cmp x y \<le> 0 then x # y # ys else y # insert_by cmp x ys)"

lemma insert_by_mset [simp]: "mset (insert_by cmp x ys) = add_mset x (mset ys)"
  by (induction ys) simp_all

lemma insert_by_set [simp]: "set (insert_by cmp x ys) = insert x (set ys)"
  by (metis insert_by_mset set_mset_add_mset_insert set_mset_mset)

lemma insert_by_sorted:
  assumes "consistent cmp" "sorted_wrt (\<lambda>a b. cmp a b \<le> 0) ys"
  shows "sorted_wrt (\<lambda>a b. cmp a b \<le> 0) (insert_by cmp x ys)"
  using assms(2)
proof (induction ys)
  case (Cons y ys)
  have trans: "cmp a b \<le> 0 \<Longrightarrow> cmp b c \<le> 0 \<Longrightarrow> cmp a c \<le> 0" for a b c
    using assms(1) unfolding consistent_def by blast
  have "sgn (cmp x y) = - sgn (cmp y x)"
    using assms(1) unfolding consistent_def by blast
  then have flip: "\<not> cmp x y \<le> 0 \<Longrightarrow> cmp y x \<le> 0"
    by (simp add: sgn_if split: if_splits)
  show ?case
    using Cons flip trans [of x y] by auto
qed simp

definition sort_by :: "('a \<Rightarrow> 'a \<Rightarrow> int) \<Rightarrow> 'a list \<Rightarrow> 'a list" where
  "sort_by cmp xs = foldr (insert_by cmp) xs []"

lemma sort_by_ok: "qsort_ok sort_by"
proof -
  have "mset (foldr (insert_by cmp) xs []) = mset xs" for cmp :: "'a \<Rightarrow> 'a \<Rightarrow> int" and xs
    by (induction xs) simp_all
  moreover have "consistent cmp \<Longrightarrow> sorted_wrt (\<lambda>a b. cmp a b \<le> 0) (foldr (insert_by cmp) xs [])" for cmp :: "'a \<Rightarrow> 'a \<Rightarrow> int" and xs
    by (induction xs) (simp_all add: insert_by_sorted)
  ultimately show ?thesis
    by (simp add: qsort_ok_def sort_by_def)
qed

text \<open>The null relocation and three others of a 32-bit file, two of them against symbol 2.\<close>

definition example_dynrels :: "elf_rela list" where
  "example_dynrels = [\<lparr>r_offset = 0, r_info = 0, r_addend = 0\<rparr>, \<lparr>r_offset = 8, r_info = 0x203, r_addend = 0\<rparr>,
     \<lparr>r_offset = 12, r_info = 0x103, r_addend = 0\<rparr>, \<lparr>r_offset = 4, r_info = 0x203, r_addend = 0\<rparr>]"

theorem dynamic_relocs_sorted_witness:
  "hd (sort_rel_dyn sort_by example_info le_bfd 8 32 example_dynrels) = hd example_dynrels
   \<and> sorted (map (written_key le_bfd) (tl (sort_rel_dyn sort_by example_info le_bfd 8 32 example_dynrels)))"
proof -
  have "\<not> is_vxworks example_info" "2 * 8 < (32 :: nat)" "example_dynrels \<noteq> []"
    by (simp_all add: example_info_def example_dynrels_def)
  from dynamic_relocs_sorted [OF sort_by_ok this] show ?thesis
    by blast
qed

section \<open>The finished section\<close>

abbreviation end_env :: "finish_params \<Rightarrow> finish_state \<Rightarrow> final_env" where
  "end_env fp st \<equiv> (fp_final fp)\<lparr>text_relocated := df_textrel (dc_calc (fs_contents st))\<rparr>"

lemma finish_plt_header_calc: "\<not> is_vxworks info \<Longrightarrow> dc_calc (finish_plt_header env info abfd n st) = dc_calc st"
  by (simp add: finish_plt_header_def mips_finish_exec_plt_def)

lemma finish_compact_rel_frame:
  "fs_dynamic (finish_compact_rel fp abfd st) = fs_dynamic st"
  "dc_calc (fs_contents (finish_compact_rel fp abfd st)) = dc_calc (fs_contents st)"
  by (simp_all add: finish_compact_rel_def Let_def split: option.splits prod.splits)

text \<open>The chain of tables that the layout made comes back to the first one.\<close>

definition tables_linked :: "got_state \<Rightarrow> bool" where
  "tables_linked st \<longleftrightarrow>
     (case gots st of
        [] \<Rightarrow> True
      | gg # _ \<Rightarrow> (case got_next gg of None \<Rightarrow> True | Some g \<Rightarrow> secondary_gots (Suc (length (gots st))) st g \<noteq> None))"

lemma local_gots_relocated:
  assumes "is_abs_section lenv abs_sec"
  shows "\<exists>a st'. relocate_local_gots lenv info abfd abs_sec is (addend, st) = Some (True, a, st') \<and> gots (gs st') = gots (gs st)"
proof (induction "is" arbitrary: addend st)
  case (Cons i "is")
  have "\<exists>a st'. mips_elf_create_dynamic_relocation lenv info abfd (local_got_rel abfd i) None (Some abs_sec) 0 addend (sgot info) st
      = Some (True, a, st') \<and> gots (gs st') = gots (gs st)"
    using assms by (simp add: mips_elf_create_dynamic_relocation_def dynamic_symbol_index_def section_symbol_index_def Let_def)
  then obtain a st' where "mips_elf_create_dynamic_relocation lenv info abfd (local_got_rel abfd i) None (Some abs_sec) 0 addend (sgot info) st
      = Some (True, a, st')" "gots (gs st') = gots (gs st)"
    by blast
  then show ?case
    using Cons [of a st'] by simp
qed simp

lemma secondary_got_finished:
  assumes "is_abs_section lenv abs_sec" "got_next (gots (gs st) ! g) \<noteq> None"
  shows "\<exists>a st'. finish_secondary_got lenv info abfd abs_sec g (addend, st) = Some (True, a, st') \<and> gots (gs st') = gots (gs st)"
proof -
  obtain l where l: "got_next (gots (gs st) ! g) = Some l"
    using assms(2) by blast
  have "gots (put_got abfd i v s) = gots s" for i v s
    by (simp add: put_got_def)
  moreover have "\<exists>a st'. relocate_local_gots lenv info abfd abs_sec is (addend, st2) = Some (True, a, st') \<and> gots (gs st') = gots (gs st)"
    if "gots (gs st2) = gots (gs st)" for "is" st2
    using local_gots_relocated [OF assms(1)] that by metis
  ultimately show ?thesis
    using l by (simp add: finish_secondary_got_def Let_def)
qed

lemma secondary_gots_linked: "secondary_gots fuel st g = Some gis \<Longrightarrow> i \<in> set gis \<Longrightarrow> got_next (gots st ! i) \<noteq> None"
  by (induction fuel arbitrary: g gis) (auto split: option.splits if_splits)

lemma secondary_gots_cong: "gots st' = gots st \<Longrightarrow> secondary_gots fuel st' g = secondary_gots fuel st g"
  by (induction fuel arbitrary: g) (simp_all split: option.split)

lemma tables_linked_cong: "gots st' = gots st \<Longrightarrow> tables_linked st' = tables_linked st"
  using secondary_gots_cong [of st' st] by (simp add: tables_linked_def del: secondary_gots.simps split: list.split option.split)

lemma secondary_gots_finished:
  assumes "is_abs_section lenv abs_sec" "tables_linked (gs st)"
  shows "\<exists>st'. finish_secondary_gots lenv info abfd abs_sec st = Some (True, st')"
proof -
  have all: "\<exists>a st'. until_failure (finish_secondary_got lenv info abfd abs_sec) gis (addend, st) = Some (True, a, st')"
    if "\<forall>i \<in> set gis. got_next (gots (gs st) ! i) \<noteq> None" for gis addend st
    using that
  proof (induction gis arbitrary: addend st)
    case (Cons g gis)
    then obtain a st' where "finish_secondary_got lenv info abfd abs_sec g (addend, st) = Some (True, a, st')" "gots (gs st') = gots (gs st)"
      using secondary_got_finished [OF assms(1), of st g info abfd addend] by auto
    then show ?case
      using Cons by simp
  qed simp
  show ?thesis
  proof (cases "gots (gs st)")
    case Nil
    then show ?thesis
      by (simp add: finish_secondary_gots_def)
  next
    case (Cons gg rest)
    show ?thesis
    proof (cases "got_next gg")
      case None
      then show ?thesis
        using Cons by (simp add: finish_secondary_gots_def)
    next
      case (Some g)
      then obtain gis where gis: "secondary_gots (Suc (length (gots (gs st)))) (gs st) g = Some gis"
        using assms(2) Cons by (auto simp: tables_linked_def)
      from all [of gis st 0] obtain a st' where
        "until_failure (finish_secondary_got lenv info abfd abs_sec) gis (0, st) = Some (True, a, st')"
        using secondary_gots_linked [OF gis] by blast
      then show ?thesis
        using gis Some Cons by (simp add: finish_secondary_gots_def)
    qed
  qed
qed

lemma finish_got_header_gots: "gots (finish_got_header info abfd n sdyn st) = gots st"
  by (simp add: finish_got_header_def put_got_def split: option.split)

text \<open>What a run leaves.\<close>

lemma finish_dynamic_result:
  assumes "\<not> is_vxworks info" "qsort_ok (fp_qsort fp)" "fs_dynamic st = Some c"
    and "is_abs_section (fp_link fp) (fp_abs fp)" "tables_linked (gs (dc_calc (fs_contents st)))"
  shows "\<exists>st'. bfd_mips_elf_finish_dynamic_sections fp info abfd st = Some (True, st')
    \<and> fs_dynamic st' = Some (finish_relsz abfd (length (rel_dyn (gs (dc_calc (fs_contents st'))))) (finish_dyn_entries (end_env fp st) info c))"
proof -
  let ?c = "dc_calc (fs_contents st)"
  let ?gots = "?c\<lparr>gs := finish_got_header info abfd (fp_got_bytes fp) (fp_dynamic fp) (gs ?c)\<rparr>"
  have "tables_linked (gs ?gots)"
    using assms(5) tables_linked_cong [OF finish_got_header_gots] by simp
  then obtain k where "finish_secondary_gots (fp_link fp) info abfd (fp_abs fp) ?gots = Some (True, k)"
    using secondary_gots_finished [OF assms(4)] by blast
  then obtain st' where run: "bfd_mips_elf_finish_dynamic_sections fp info abfd st = Some (True, st')"
    and dyn: "fs_dynamic st' = Some (finish_relsz abfd (length (rel_dyn (gs k))) (finish_dyn_entries (end_env fp st) info c))"
    and sorted: "rel_dyn (gs (dc_calc (fs_contents st')))
      = sort_rel_dyn (fp_qsort fp) info abfd (dyn_rel_size (fi_dyn (fp_final fp))) (fp_rel_dyn_bytes fp) (rel_dyn (gs k))"
    by (simp add: bfd_mips_elf_finish_dynamic_sections_def Let_def assms(1,3) finish_plt_header_calc finish_compact_rel_frame)
  have "length (rel_dyn (gs (dc_calc (fs_contents st')))) = length (rel_dyn (gs k))"
    unfolding sorted by (rule mset_eq_length [OF sort_rel_dyn_mset [OF assms(2)]])
  then show ?thesis
    using run dyn by simp
qed

lemma finish_relsz_tags [simp]: "map d_tag (finish_relsz abfd n c) = map d_tag c"
  by (simp add: finish_relsz_def)

lemma finish_relsz_elem:
  assumes "d \<in> set (finish_relsz abfd n c)"
  shows "d_tag d = DT_RELSZ \<Longrightarrow> d_val d = of_nat (n * (if ABI_64_P abfd then 16 else 8))" "d_tag d \<noteq> DT_RELSZ \<Longrightarrow> d \<in> set c"
  using assms by (auto simp: finish_relsz_def split: if_splits)

text \<open>
  C5.  Finishing the dynamic sections of an output file that is not for VxWorks succeeds, whatever secondary tables there are, provided that
  their chain ends.  Then \<^verbatim>\<open>.dynamic\<close> keeps its entries
  in their order except the ones for text relocations and for the run-time linker's map when there is no need for them; the entries
  behind a dropped one move down and the freed ones at the end are null entries, which end the list.
  The entries by which the loader finds the global offset table, its symbols and the PLT relocations hold the final addresses, sizes and
  counts, and the entry for the size of the dynamic relocations the size of those that are in the file at the end.
\<close>

theorem dynamic_section_finished:
  assumes "\<not> is_vxworks info" "qsort_ok (fp_qsort fp)" "fs_dynamic st = Some c"
    and "is_abs_section (fp_link fp) (fp_abs fp)" "tables_linked (gs (dc_calc (fs_contents st)))"
  shows "\<exists>st' c'. bfd_mips_elf_finish_dynamic_sections fp info abfd st = Some (True, st') \<and> fs_dynamic st' = Some c'
    \<and> map d_tag c' = filter (stays (end_env fp st)) (map d_tag c)
        @ replicate (length (filter (\<lambda>t. \<not> stays (end_env fp st) t) (map d_tag c))) DT_NULL
    \<and> (\<forall>d \<in> set c'. (\<forall>v. table_value (end_env fp st) info (d_tag d) = Some v \<longrightarrow> d_val d = v)
        \<and> (d_tag d = DT_RELSZ \<longrightarrow> d_val d = of_nat (length (rel_dyn (gs (dc_calc (fs_contents st')))) * (if ABI_64_P abfd then 16 else 8))))"
proof -
  from finish_dynamic_result [OF assms] obtain st' where
    run: "bfd_mips_elf_finish_dynamic_sections fp info abfd st = Some (True, st')"
    and dyn: "fs_dynamic st' = Some (finish_relsz abfd (length (rel_dyn (gs (dc_calc (fs_contents st'))))) (finish_dyn_entries (end_env fp st) info c))"
    by blast
  let ?env = "end_env fp st" and ?n = "length (rel_dyn (gs (dc_calc (fs_contents st'))))"
  have "length c - length (filter (stays ?env) (map d_tag c)) = length (filter (\<lambda>t. \<not> stays ?env t) (map d_tag c))"
    using sum_length_filter_compl [of "stays ?env" "map d_tag c"] by simp
  then have tags: "map d_tag (finish_relsz abfd ?n (finish_dyn_entries ?env info c)) = filter (stays ?env) (map d_tag c)
      @ replicate (length (filter (\<lambda>t. \<not> stays ?env t) (map d_tag c))) DT_NULL"
    by (simp only: finish_relsz_tags final_tags [OF assms(1)])
  have relsz: "d_val d = of_nat (?n * (if ABI_64_P abfd then 16 else 8))"
    if "d \<in> set (finish_relsz abfd ?n (finish_dyn_entries ?env info c))" "d_tag d = DT_RELSZ" for d
    using finish_relsz_elem(1) [OF that] .
  have "d_val d = v" if d: "d \<in> set (finish_relsz abfd ?n (finish_dyn_entries ?env info c))" and v: "table_value ?env info (d_tag d) = Some v" for d v
  proof -
    have "d_tag d \<noteq> DT_RELSZ"
      using v by (auto simp: table_value_def)
    then show ?thesis
      using final_values [OF assms(1) finish_relsz_elem(2) [OF d] v] by blast
  qed
  then show ?thesis
    using run dyn tags relsz by blast
qed

text \<open>An executable without text relocations whose run-time linker has no map symbol.\<close>

definition example_final :: final_env where
  "example_final =
     \<lparr>fi_dyn = \<lparr>dyn_dynobj = le_bfd, use_plts_and_copy_relocs = False, dyn_rel_size = 8, dyn_rela_size = 12, got_header_size = 8,
        log_file_align = 2, weakdef = \<lambda>_. None, set_section_alignment = \<lambda>_ _. True, adjust_dynamic_copy = \<lambda>_ sy. (True, sy),
        record_dynamic_symbol = \<lambda>_ sy. (True, sy), hgot = None, hplt_indx = 1, hgot_indx = 2, procedure_count = 0\<rparr>,
      dynstr_size = 64, first_section_vma = 0x400000, section_count = 9, dynsym_size = 80, sym_size = 16,
      out_local_gotno = 4, fi_reserved_gotno = 2, first_got_dynindx = Some 3, rld_symbol = None, options_vma = 0, srelplt = None,
      text_relocated = False, time_now = 0, vxworks_finish_entry = \<lambda>_. None\<rparr>"

definition example_links :: link_env where
  "example_links =
     \<lparr>dynobj = le_bfd, rel_local_sym = \<lambda>_ s addend. (s, addend), elf_section_offset = \<lambda>_ off. off,
      is_abs_section = \<lambda>_. True, has_owner = \<lambda>_. True, out_dynindx = \<lambda>_. 0, text_index_dynindx = 0\<rparr>"

definition example_params :: finish_params where
  "example_params =
     \<lparr>fp_final = example_final, fp_link = example_links, fp_abs = sgot example_info, fp_dynamic = undefined, fp_got_bytes = Some 16,
      fp_plt_size = 0, fp_rel_dyn_bytes = 32, fp_compact_pos = None, fp_stub_bytes = None, fp_stub_size = 0, fp_qsort = sort_by\<rparr>"

definition example_entries :: "dyn_entry list" where
  "example_entries = map (\<lambda>t. \<lparr>d_tag = t, d_val = 0\<rparr>) [DT_MIPS_RLD_MAP, DT_TEXTREL, DT_PLTGOT, DT_RELSZ, DT_MIPS_GOTSYM, DT_NULL]"

definition example_finish :: finish_state where
  "example_finish =
     \<lparr>fs_contents = \<lparr>dc_calc = \<lparr>gs = example_got\<lparr>rel_dyn := example_dynrels\<rparr>, df_textrel = False, written_outs = {}, compact_rel = None\<rparr>,
        plt_bytes = [], gotplt_bytes = [], stub_bytes = [], rel_plt = [], rel_plt_unloaded = [], rel_bss = []\<rparr>,
      fs_dynamic = Some example_entries, compact_header = None\<rparr>"

theorem dynamic_section_finished_witness:
  "\<exists>st c. bfd_mips_elf_finish_dynamic_sections example_params example_info le_bfd example_finish = Some (True, st)
     \<and> fs_dynamic st = Some c \<and> map d_tag c = [DT_PLTGOT, DT_RELSZ, DT_MIPS_GOTSYM, DT_NULL, DT_NULL, DT_NULL]
     \<and> d_val (c ! 0) = 0x410000 \<and> d_val (c ! 2) = 3"
proof -
  let ?env = "end_env example_params example_finish"
  have "\<not> is_vxworks example_info" "qsort_ok (fp_qsort example_params)" "fs_dynamic example_finish = Some example_entries"
    "is_abs_section (fp_link example_params) (fp_abs example_params)" "tables_linked (gs (dc_calc (fs_contents example_finish)))"
    using sort_by_ok by (simp_all add: example_info_def example_params_def example_links_def example_finish_def tables_linked_def example_got_def)
  from dynamic_section_finished [OF this] obtain st c where
    run: "bfd_mips_elf_finish_dynamic_sections example_params example_info le_bfd example_finish = Some (True, st)" and c: "fs_dynamic st = Some c"
    and tags: "map d_tag c = filter (stays ?env) (map d_tag example_entries)
      @ replicate (length (filter (\<lambda>t. \<not> stays ?env t) (map d_tag example_entries))) DT_NULL"
    and vals: "\<And>d v. d \<in> set c \<Longrightarrow> table_value ?env example_info (d_tag d) = Some v \<Longrightarrow> d_val d = v"
    by blast
  have tags: "map d_tag c = [DT_PLTGOT, DT_RELSZ, DT_MIPS_GOTSYM, DT_NULL, DT_NULL, DT_NULL]"
    unfolding tags by (simp add: stays_def example_entries_def example_params_def example_final_def example_finish_def)
  moreover have len: "length c = 6"
    using arg_cong [OF tags, of length] by simp
  moreover have "d_tag (c ! 0) = DT_PLTGOT" "d_tag (c ! 2) = DT_MIPS_GOTSYM"
    using arg_cong [OF tags, of "\<lambda>l. l ! 0"] arg_cong [OF tags, of "\<lambda>l. l ! 2"] len by simp_all
  then have "d_val (c ! 0) = 0x410000" "d_val (c ! 2) = 3"
    using vals [of "c ! 0"] vals [of "c ! 2"] len
    by (simp_all add: table_value_def example_params_def example_final_def example_info_def section_address_def)
  ultimately show ?thesis
    using run c by (intro exI conjI)
qed

end
