(* ===== verification/Spec2Isabelle.thy ===== *)
theory Spec2Isabelle
  imports Shuffle Howto Arith Perform GotPages Got GotState Tls GotBuild CalcSpec RelocateSpec MultiGotSpec MultiGotLayout MergeSpec La25Spec SpecialSpec CheckSpec RelaxSpec JumpSpec StaticRefs SymbolsSpec DynSpec
begin

text \<open>
  Verification of the relocation back end of the OpenISA linker.

  \<^bold>\<open>The program.\<close>  OpenISA is an instruction set close to MIPS with its own linker: binutils 2.23.2 with a changed MIPS ELF
  back end.  The repository holds the two files of that back end,
  \<^verbatim>\<open>src/linker-oi/binutils-2.23.2/bfd/elf32-mips.c\<close> (relocation tables and special functions of 32-bit objects) and
  \<^verbatim>\<open>src/linker-oi/binutils-2.23.2/bfd/elfxx-mips.c\<close> (everything shared by the MIPS formats), and the ELF
  header \<^verbatim>\<open>src/sbt-sysheaders/include/elf.h\<close> with the constants.  The rest of BFD (elflink.c, elf.c, elfcode.h, libbfd) is not part of
  it: what the back end calls there is a parameter of the definitions, a field of an environment record, and what is
  relied on is a named hypothesis (\<^verbatim>\<open>xvec_ok\<close>, \<^verbatim>\<open>library_ok\<close>, \<^verbatim>\<open>flags_kept\<close>, \<^verbatim>\<open>copies_indirect\<close>, \<^verbatim>\<open>moves_definitions\<close>, ...).
  The remaining directories are third-party programs and libraries, headers and scripts.

  \<^bold>\<open>How a link goes through the back end.\<close>  For each input file the header flags and attributes are merged into the output; each section's
  relocations are scanned, which reserves GOT entries and dynamic relocations and marks the symbols; indirect symbols
  pass their marks on.  Code may then be relaxed.  Each dynamic symbol is adjusted (lazy-binding stub, PLT entry or copy
  relocation), stubs between PIC and non-PIC code are added, and the GOT is laid out, as one or several tables.
  Then every section is relocated: for each relocation its addend is read, its value calculated (creating local GOT entries and
  dynamic relocations on the way) and stored.  Last, the code and tables of each dynamic symbol are written.
  The state that travels through these phases is \<^verbatim>\<open>got_state\<close> (the tables, their entries, the contents of \<^verbatim>\<open>.got\<close>, the
  dynamic relocations and the symbols), wrapped in \<^verbatim>\<open>check_state\<close> during the scan, \<^verbatim>\<open>calc_state\<close> during the final
  link, and \<^verbatim>\<open>dyn_state\<close> and \<^verbatim>\<open>dyn_contents\<close> for dynamic symbols.

  \<^bold>\<open>Conventions.\<close>  \<^verbatim>\<open>bfd_vma\<close> is a 64-bit word, a section a list of bytes, a pointer into it an offset; counters that cannot
  wrap are naturals, and where the code stores negative values in unsigned fields the wrap-around is written out.  A pointer to a
  GOT entry or a table is an index into a store, since entries are shared by tables and changed in place; a symbol is its
  number in a map.  A C function that can follow a null pointer, run in a circle of symbols or abort returns an option,
  an error return is a value of a sum or a status; failures for lack of memory are left out.  Hash tables of libiberty are lists
  of their elements and traversals folds over them, in any order.  Loops are structural recursion, folds, or recursion with a proved measure; the only
  bounds (fuel) are the lengths of chains of indirect symbols and of lists of tables, and there running
  out means an endless chain in memory; \<^verbatim>\<open>multi_got_layout\<close>, \<^verbatim>\<open>partition_gots_fit\<close>, \<^verbatim>\<open>relaxation_ends\<close> and \<^verbatim>\<open>mach_extends_order\<close> show that it does
  not happen there.

  \<^bold>\<open>Foundations.\<close>  \<^verbatim>\<open>Prelude\<close>: types, named simplification sets, lemmas on words, lists and folds.  \<^verbatim>\<open>Bytes\<close>: the accessors of both
  byte orders behind the interface \<^verbatim>\<open>byte_codec\<close>, interpreted on them.  \<^verbatim>\<open>Objects\<close>, \<^verbatim>\<open>Link\<close>: the records of BFDs, sections, relocations,
  symbols and link options, and the ABI macros.  \<^verbatim>\<open>Mips\<close>: a machine with delay slots, the specification that generated code is judged by.

  \<^bold>\<open>Relocation types.\<close>  \<^verbatim>\<open>Relocs\<close>: the \<^verbatim>\<open>*_reloc_p\<close> predicates.  \<^verbatim>\<open>Howto\<close>: the three tables of elf32-mips.c with
  the look-ups by code, name and number; every named entry is found under its name.  \<^verbatim>\<open>Shuffle\<close>:
  \<^verbatim>\<open>_bfd_mips_elf_reloc_unshuffle\<close> and \<^verbatim>\<open>_bfd_mips_elf_reloc_shuffle\<close> are inverse to each other.  \<^verbatim>\<open>Arith\<close>: sign extension, range check and the
  parts of an address, which add up to it again.  \<^verbatim>\<open>Special\<close> and \<^verbatim>\<open>SpecialSpec\<close>: the special functions of both files with the list of pending high
  parts; deferring is equivalent to installing at once.

  \<^bold>\<open>Applying relocations.\<close>  \<^verbatim>\<open>Perform\<close>: \<^verbatim>\<open>mips_elf_perform_relocation\<close> and the reading of addends.  \<^verbatim>\<open>Calc\<close>:
  \<^verbatim>\<open>mips_elf_calculate_relocation\<close> in its phases and \<^verbatim>\<open>mips_elf_create_dynamic_relocation\<close>; \<^verbatim>\<open>CalcSpec\<close>: what branches, jumps
  and address pairs compute when they run.  \<^verbatim>\<open>Relocate\<close>: \<^verbatim>\<open>_bfd_mips_elf_relocate_section\<close>; \<^verbatim>\<open>RelocateSpec\<close>: only the fields of
  relocations change, and relocated words are the addresses of their symbols.

  \<^bold>\<open>The global offset table.\<close>  \<^verbatim>\<open>GotPages\<close>: ranges of page references; the estimate of pages is enough wherever
  the symbols are placed.  \<^verbatim>\<open>Got\<close>, \<^verbatim>\<open>GotState\<close>: entries, their hash keys (interface \<^verbatim>\<open>htab_key\<close>), creation of
  local and page entries.  \<^verbatim>\<open>Tls\<close>: slots of thread-local symbols and their dynamic relocations, as many as counted.
  \<^verbatim>\<open>GotBuild\<close>: recording, resolving, sorting of dynamic symbols, TLS indices (a refinement of a bump allocator).
  \<^verbatim>\<open>MultiGot\<close> with \<^verbatim>\<open>MultiGotSpec\<close> and \<^verbatim>\<open>MultiGotLayout\<close>: \<^verbatim>\<open>mips_elf_lay_out_got\<close> and \<^verbatim>\<open>mips_elf_multi_got\<close>; no entry is lost, shared tables fit 16-bit
  offsets, and the tables get consecutive ranges.  \<^verbatim>\<open>CheckRelocs\<close> and \<^verbatim>\<open>CheckSpec\<close>: \<^verbatim>\<open>_bfd_mips_elf_check_relocs\<close>;
  what is looked up later has been reserved.

  \<^bold>\<open>Stubs and dynamic symbols.\<close>  \<^verbatim>\<open>La25\<close> and \<^verbatim>\<open>La25Spec\<close>: stubs for PIC functions called from non-PIC code and MIPS16 stubs (\<^verbatim>\<open>mips_elf_check_symbols\<close>).
  \<^verbatim>\<open>Plt\<close>: \<^verbatim>\<open>_bfd_mips_elf_adjust_dynamic_symbol\<close>, \<^verbatim>\<open>_bfd_mips_elf_finish_dynamic_symbol\<close>, the variant for VxWorks and the PLT headers.
  \<^verbatim>\<open>PltLayout\<close>: the entries and sizes that adjusting leaves.  \<^verbatim>\<open>PltSpec\<close>: calls through the finished PLT, run on
  the machine of \<^verbatim>\<open>Mips\<close>.  \<^verbatim>\<open>Symbols\<close> and \<^verbatim>\<open>SymbolsSpec\<close>: indirect and weak symbols, garbage collection and \<^verbatim>\<open>.pdr\<close> records.  \<^verbatim>\<open>StaticRefs\<close>: the mark
  that separates PLT entries from stubs, kept by the scan and by indirect symbols, and broken by weak aliases.
  \<^verbatim>\<open>DynSections\<close>: room for dynamic relocations of symbols, the phases of \<^verbatim>\<open>_bfd_mips_elf_size_dynamic_sections\<close>, and
  \<^verbatim>\<open>_bfd_mips_elf_finish_dynamic_sections\<close>; \<^verbatim>\<open>DynSpec\<close>: the finished entries of \<^verbatim>\<open>.dynamic\<close> and the order of the dynamic relocations.
  \<^bold>\<open>Machines and relaxation.\<close>  \<^verbatim>\<open>Mach\<close>, \<^verbatim>\<open>MachSpec\<close>, \<^verbatim>\<open>Merge\<close>, \<^verbatim>\<open>MergeSpec\<close>: header flags, machines and their extension order, and
  \<^verbatim>\<open>_bfd_mips_elf_merge_private_bfd_data\<close>; the output machine runs the code of every input.  \<^verbatim>\<open>Relax\<close>, \<^verbatim>\<open>RelaxSpec\<close>, \<^verbatim>\<open>JumpSpec\<close>:
  \<^verbatim>\<open>_bfd_mips_elf_relax_section\<close> for microMIPS code and \<^verbatim>\<open>_bfd_mips_relax_section\<close>; labels follow the code,
  the compact branches do what they replace exactly when they test the same register, the short forms that a branch or ADDIUPC
  takes keep their meaning, and repetition ends.

  \<^bold>\<open>Where the code falls short.\<close>  Some theorems state behaviour that is not what the code means to do:
  \<^verbatim>\<open>weak_alias_entry_unwritten\<close>, \<^verbatim>\<open>pdr_records_lost\<close>, \<^verbatim>\<open>merged_tls_slot_lost\<close>, \<^verbatim>\<open>local_tls_addend_lost\<close>, \<^verbatim>\<open>compact_branch_drops_register\<close>,
  \<^verbatim>\<open>bz16_register_misread\<close>, \<^verbatim>\<open>second_low_part_unchecked\<close>, \<^verbatim>\<open>hidden_undefweak_uncounted\<close>, \<^verbatim>\<open>jal_field_is_20_bits\<close>, \<^verbatim>\<open>shifted_fields_lose_low_bits\<close>.

  \<^bold>\<open>Not modelled.\<close>  The creation of the dynamic sections; the swap routines and section
  hooks that read and write headers; debugging information in ECOFF format and sections that only IRIX has; core files and program headers; printing.  The C library newlib, the MiBench
  programs, the system headers and the scripts are third-party code or hold no logic of the linker.
\<close>

end
